(* ===== verification/Prelude.thy ===== *)
theory Prelude
  imports Main "HOL-Library.Word" "HOL-Library.AList"
begin

text \<open>
  Shared vocabulary of the development.

  \<^item> JavaScript strings are HOL strings holding the UTF-8 bytes of the text.
  \<^item> A \<open>Map\<close> (and a plain object used as a dictionary) keeps insertion order, so it is an
    association list: \<open>set\<close> is \<^const>\<open>AList.update\<close>, which replaces a binding in place and
    appends a new one; \<open>delete\<close> is \<^const>\<open>AList.delete\<close>; \<open>get\<close> is \<^const>\<open>map_of\<close>.
  \<^item> A \<open>Set\<close> keeps insertion order as well and is a distinct list.
  \<^item> A promise that rejects, or a synchronous \<open>throw\<close>, is \<^const>\<open>Inl\<close> of the thrown value; a
    value returned is \<^const>\<open>Inr\<close>.
\<close>

named_theorems js_simps \<open>characteristic equations of the JavaScript library functions\<close>

type_synonym byte = "8 word"
type_synonym ('k, 'v) js_map = "('k \<times> 'v) list"

subsection \<open>Insertion-ordered sets\<close>

definition set_add :: "'a \<Rightarrow> 'a list \<Rightarrow> 'a list" where
  "set_add x xs = (if x \<in> set xs then xs else xs @ [x])"

definition set_add_all :: "'a list \<Rightarrow> 'a list \<Rightarrow> 'a list" where
  "set_add_all ys xs = fold set_add ys xs"

lemma set_set_add [simp, js_simps]: "set (set_add x xs) = insert x (set xs)"
  by (auto simp: set_add_def)

lemma distinct_set_add [simp, js_simps]: "distinct (set_add x xs) = distinct xs"
  by (auto simp: set_add_def)

lemma set_set_add_all [simp, js_simps]: "set (set_add_all ys xs) = set xs \<union> set ys"
  unfolding set_add_all_def by (induction ys arbitrary: xs) auto

lemma distinct_set_add_all [simp, js_simps]: "distinct (set_add_all ys xs) = distinct xs"
  unfolding set_add_all_def by (induction ys arbitrary: xs) auto

lemma set_add_not_Nil [simp]: "set_add x xs \<noteq> []"
  by (auto simp: set_add_def)

subsection \<open>The contract of a keyed container\<close>

text \<open>
  What a client of a \<open>Map\<close> relies on: a lookup after a store, after a removal and in a fresh
  container, and an invariant every operation keeps.
\<close>

locale keyed_map =
  fixes empty :: "'m"
    and get :: "'m \<Rightarrow> 'k \<Rightarrow> 'v option"
    and put :: "'k \<Rightarrow> 'v \<Rightarrow> 'm \<Rightarrow> 'm"
    and remove :: "'k \<Rightarrow> 'm \<Rightarrow> 'm"
    and invar :: "'m \<Rightarrow> bool"
  assumes get_empty: "get empty k = None"
    and get_put: "invar m \<Longrightarrow> get (put k v m) k' = (if k' = k then Some v else get m k')"
    and get_remove: "invar m \<Longrightarrow> get (remove k m) k' = (if k' = k then None else get m k')"
    and invar_empty: "invar empty"
    and invar_put: "invar m \<Longrightarrow> invar (put k v m)"
    and invar_remove: "invar m \<Longrightarrow> invar (remove k m)"
begin

lemma put_put_get:
  assumes "invar m"
  shows "get (put k v (put k u m)) = get (put k v m)"
  using assms by (auto simp: get_put invar_put fun_eq_iff)

lemma remove_after_put:
  assumes "invar m"
  shows "get (remove k (put k v m)) = get (remove k m)"
  using assms by (auto simp: get_put get_remove invar_put fun_eq_iff)

lemma get_put_all:
  assumes "invar m"
  shows "invar (fold (\<lambda>k. put k (f k)) ks m)
    \<and> get (fold (\<lambda>k. put k (f k)) ks m) k' = (if k' \<in> set ks then Some (f k') else get m k')"
  using assms
proof (induction ks arbitrary: m)
  case Nil
  then show ?case by simp
next
  case (Cons k ks)
  then show ?case by (auto simp: get_put invar_put)
qed

end

text \<open>JavaScript's \<open>Map\<close> provides it.\<close>

interpretation jsm: keyed_map "[]" map_of AList.update AList.delete "\<lambda>m. distinct (map fst m)"
  by unfold_locales (auto simp: AList.update_conv' AList.delete_conv' distinct_update distinct_delete)

lemma keys_update [js_simps]: "fst ` set (AList.update k v m) = insert k (fst ` set m)"
  by (simp add: dom_map_of_conv_image_fst [symmetric] update_conv')

lemma keys_delete [js_simps]: "fst ` set (AList.delete k m) = fst ` set m - {k}"
  by (auto simp: AList.delete_eq)

lemma delete_notin [simp]: "k \<notin> fst ` set m \<Longrightarrow> AList.delete k m = m"
  by (force simp: AList.delete_eq intro!: filter_id_conv [THEN iffD2])

subsection \<open>The contract of a promise settled by events\<close>

text \<open>The first defined value of \<open>f\<close> along a list.\<close>

fun first_some :: "('e \<Rightarrow> 'r option) \<Rightarrow> 'e list \<Rightarrow> 'r option" where
  "first_some f [] = None"
| "first_some f (x # xs) = (case f x of Some r \<Rightarrow> Some r | None \<Rightarrow> first_some f xs)"

lemma first_some_None: "first_some f xs = None \<longleftrightarrow> (\<forall>x \<in> set xs. f x = None)"
  by (induction xs) (auto split: option.splits)

lemma first_some_append:
  "first_some f (xs @ ys) = (case first_some f xs of Some r \<Rightarrow> Some r | None \<Rightarrow> first_some f ys)"
  by (induction xs) (auto split: option.splits)

lemma first_some_Some: "first_some f xs = Some r \<Longrightarrow> \<exists>x \<in> set xs. f x = Some r"
  by (induction xs) (auto split: option.splits)

text \<open>
  A machine that settles once: an event that arrives after the outcome changes it no more, and an
  event that finds the machine open decides it or leaves it open.
\<close>

locale one_shot =
  fixes step :: "'e \<Rightarrow> 's \<Rightarrow> 's"
    and outcome :: "'s \<Rightarrow> 'r option"
    and invar :: "'s \<Rightarrow> bool"
    and decide :: "'e \<Rightarrow> 'r option"
  assumes settled_stays: "invar s \<Longrightarrow> outcome s = Some r \<Longrightarrow> outcome (step e s) = Some r"
    and open_step: "invar s \<Longrightarrow> outcome s = None \<Longrightarrow> outcome (step e s) = decide e"
    and invar_step: "invar s \<Longrightarrow> invar (step e s)"
begin

lemma invar_run: "invar s \<Longrightarrow> invar (fold step es s)"
  by (induction es arbitrary: s) (auto simp: invar_step)

lemma run_settled: "invar s \<Longrightarrow> outcome s = Some r \<Longrightarrow> outcome (fold step es s) = Some r"
  by (induction es arbitrary: s) (auto simp: invar_step settled_stays)

lemma outcome_run:
  "invar s \<Longrightarrow> outcome (fold step es s)
     = (case outcome s of Some r \<Rightarrow> Some r | None \<Rightarrow> first_some decide es)"
proof (induction es arbitrary: s)
  case Nil
  then show ?case by (cases "outcome s") auto
next
  case (Cons e es)
  show ?case
  proof (cases "outcome s")
    case None
    with Cons show ?thesis by (auto simp: open_step invar_step split: option.splits)
  next
    case (Some r)
    with Cons.prems show ?thesis using run_settled [of s r "e # es"] by simp
  qed
qed

lemma outcome_fresh: "invar s \<Longrightarrow> outcome s = None \<Longrightarrow> outcome (fold step es s) = first_some decide es"
  by (simp add: outcome_run)

end

subsection \<open>The contract of a memoising factory\<close>

text \<open>
  What a client of a factory that builds one instance per key relies on: an instance once built is
  the one every later request for its key gets, and a request that fails leaves no trace.
\<close>

locale memo_factory =
  fixes get :: "'k \<Rightarrow> 's \<Rightarrow> ('e + 'v) \<times> 's"
    and cached :: "'s \<Rightarrow> 'k \<Rightarrow> 'v option"
  assumes hit: "cached s k = Some v \<Longrightarrow> get k s = (Inr v, s)"
    and built: "cached s k = None \<Longrightarrow> get k s = (Inr v, s') \<Longrightarrow> cached s' = (cached s)(k \<mapsto> v)"
    and failed: "get k s = (Inl e, s') \<Longrightarrow> s' = s"
begin

lemma cached_after:
  assumes "get k s = (Inr v, s')"
  shows "cached s' k = Some v"
proof (cases "cached s k")
  case None
  from built [OF None assms] show ?thesis by simp
next
  case (Some u)
  from hit [OF Some] assms Some show ?thesis by simp
qed

lemma cached_kept: "cached s k = Some v \<Longrightarrow> cached (snd (get k' s)) k = Some v"
proof -
  assume c: "cached s k = Some v"
  obtain r s' where g: "get k' s = (r, s')" by (meson surj_pair)
  show ?thesis
  proof (cases r)
    case (Inl e)
    with failed [of k' s e s'] g c show ?thesis by simp
  next
    case (Inr v')
    show ?thesis
    proof (cases "cached s k'")
      case None
      with built [OF None g [unfolded Inr]] g c show ?thesis by (cases "k = k'") simp_all
    next
      case (Some u)
      with hit [OF Some] c show ?thesis by simp
    qed
  qed
qed

text \<open>Whatever is asked for in between, the same key gives the same instance.\<close>

lemma get_stable:
  assumes "get k s = (Inr v, s')"
  shows "fst (get k (fold (\<lambda>k' s. snd (get k' s)) ks s')) = Inr v"
proof -
  have "cached (fold (\<lambda>k' s. snd (get k' s)) ks s') k = Some v"
    using cached_after [OF assms] by (induction ks arbitrary: s') (auto simp: cached_kept)
  from hit [OF this] show ?thesis by simp
qed

end

subsection \<open>Decimal numerals\<close>

text \<open>\<open>String(n)\<close> of an integral number, and \<open>parseInt\<close> without a radix.\<close>

definition digit_char :: "nat \<Rightarrow> char" where
  "digit_char d = char_of (48 + d)"

fun show_nat :: "nat \<Rightarrow> string" where
  "show_nat n = (if n < 10 then [digit_char n] else show_nat (n div 10) @ [digit_char (n mod 10)])"

declare show_nat.simps [simp del]

definition show_int :: "int \<Rightarrow> string" where
  "show_int i = (if i < 0 then CHR ''-'' # show_nat (nat (- i)) else show_nat (nat i))"

definition digit_value :: "char \<Rightarrow> nat option" where
  "digit_value c = (let n = of_char c :: nat in
     if 48 \<le> n \<and> n \<le> 57 then Some (n - 48)
     else if 97 \<le> n \<and> n \<le> 122 then Some (n - 87)
     else if 65 \<le> n \<and> n \<le> 90 then Some (n - 55)
     else None)"

text \<open>Reads the longest prefix of digits below the radix; \<open>None\<close> when there is none (\<open>NaN\<close>).\<close>

fun read_digits :: "nat \<Rightarrow> nat \<Rightarrow> string \<Rightarrow> nat" where
  "read_digits radix acc [] = acc"
| "read_digits radix acc (c # cs) =
     (case digit_value c of
        Some d \<Rightarrow> if d < radix then read_digits radix (acc * radix + d) cs else acc
      | None \<Rightarrow> acc)"

definition starts_with_digit :: "nat \<Rightarrow> string \<Rightarrow> bool" where
  "starts_with_digit radix s =
     (case s of [] \<Rightarrow> False | c # _ \<Rightarrow> (case digit_value c of Some d \<Rightarrow> d < radix | None \<Rightarrow> False))"

definition is_space :: "char \<Rightarrow> bool" where
  "is_space c \<longleftrightarrow> (of_char c :: nat) \<in> {9, 10, 11, 12, 13, 32}"

definition parse_nat_prefix :: "string \<Rightarrow> nat option" where
  "parse_nat_prefix s =
     (if take 2 s = ''0x'' \<or> take 2 s = ''0X''
      then (if starts_with_digit 16 (drop 2 s) then Some (read_digits 16 0 (drop 2 s)) else None)
      else if starts_with_digit 10 s then Some (read_digits 10 0 s) else None)"

definition parseInt :: "string \<Rightarrow> int option" where
  "parseInt s = (let t = dropWhile is_space s in
     if take 1 t = ''-'' then map_option (\<lambda>n. - int n) (parse_nat_prefix (drop 1 t))
     else if take 1 t = ''+'' then map_option int (parse_nat_prefix (drop 1 t))
     else map_option int (parse_nat_prefix t))"

lemma digit_value_digit_char [simp]: "d < 10 \<Longrightarrow> digit_value (digit_char d) = Some d"
  by (auto simp: digit_value_def digit_char_def Let_def)

lemma show_nat_not_Nil [simp]: "show_nat n \<noteq> []"
  by (subst show_nat.simps) simp

lemma show_nat_digits: "c \<in> set (show_nat n) \<Longrightarrow> \<exists>d < 10. c = digit_char d"
proof (induction n rule: show_nat.induct)
  case (1 n)
  show ?case
  proof (cases "n < 10")
    case True
    with "1.prems" show ?thesis by (subst (asm) show_nat.simps) auto
  next
    case False
    with "1.prems" have "c \<in> set (show_nat (n div 10)) \<or> c = digit_char (n mod 10)"
      by (subst (asm) show_nat.simps) auto
    then show ?thesis using "1.IH" [OF False] by (metis mod_less_divisor zero_less_numeral)
  qed
qed

lemma read_digits_append_digit:
  assumes "\<And>c. c \<in> set xs \<Longrightarrow> \<exists>d < 10. c = digit_char d" and "d < 10"
  shows "read_digits 10 acc (xs @ [digit_char d]) = read_digits 10 acc xs * 10 + d"
  using assms
proof (induction xs arbitrary: acc)
  case Nil
  then show ?case by simp
next
  case (Cons c xs)
  then obtain e where "e < 10" and "c = digit_char e" by (metis list.set_intros(1))
  with Cons show ?case by simp
qed

lemma read_digits_show_nat: "read_digits 10 0 (show_nat n) = n"
proof (induction n rule: show_nat.induct)
  case (1 n)
  show ?case
  proof (cases "n < 10")
    case True
    then show ?thesis by (subst show_nat.simps) simp
  next
    case False
    have "read_digits 10 0 (show_nat (n div 10) @ [digit_char (n mod 10)])
        = read_digits 10 0 (show_nat (n div 10)) * 10 + n mod 10"
      by (rule read_digits_append_digit) (auto intro: show_nat_digits)
    with "1.IH" [OF False] False show ?thesis by (subst show_nat.simps) simp
  qed
qed

lemma show_nat_inject [simp]: "show_nat m = show_nat n \<longleftrightarrow> m = n"
  by (metis read_digits_show_nat)

lemma digit_not_space [simp]: "d < 10 \<Longrightarrow> \<not> is_space (digit_char d)"
  by (auto simp: is_space_def digit_char_def)

lemma show_nat_Cons:
  "\<exists>d cs. show_nat n = digit_char d # cs \<and> d < 10 \<and> (\<forall>c \<in> set cs. \<exists>e < 10. c = digit_char e)"
proof (cases "show_nat n")
  case Nil
  then show ?thesis by simp
next
  case (Cons c cs)
  then have "\<forall>x \<in> set (c # cs). \<exists>e < 10. x = digit_char e"
    using show_nat_digits [of _ n] by simp
  with Cons show ?thesis by auto
qed

lemma not_digit_x [simp]: "d < 10 \<Longrightarrow> digit_char d \<noteq> CHR ''x''" "d < 10 \<Longrightarrow> digit_char d \<noteq> CHR ''X''"
  "d < 10 \<Longrightarrow> digit_char d \<noteq> CHR ''-''" "d < 10 \<Longrightarrow> digit_char d \<noteq> CHR ''+''"
  "d < 10 \<Longrightarrow> digit_char d \<noteq> CHR ''/''" "d < 10 \<Longrightarrow> digit_char d \<noteq> CHR '':''"
  by (auto simp: digit_char_def dest: arg_cong [where f = "of_char :: char \<Rightarrow> nat"])

lemma parse_nat_prefix_show_nat [simp]: "parse_nat_prefix (show_nat n) = Some n"
proof -
  obtain d cs where eq: "show_nat n = digit_char d # cs" and d: "d < 10"
    and cs: "\<forall>c \<in> set cs. \<exists>e < 10. c = digit_char e"
    using show_nat_Cons [of n] by blast
  have "take 2 (show_nat n) \<noteq> ''0x'' \<and> take 2 (show_nat n) \<noteq> ''0X''"
    using cs by (cases cs) (auto simp: eq numeral_2_eq_2)
  moreover have "starts_with_digit 10 (show_nat n)"
    using d by (simp add: eq starts_with_digit_def)
  ultimately show ?thesis by (simp add: parse_nat_prefix_def read_digits_show_nat)
qed

lemma parseInt_show_int [simp]: "parseInt (show_int i) = Some i"
proof (cases "i < 0")
  case True
  then show ?thesis by (simp add: show_int_def parseInt_def is_space_def Let_def)
next
  case False
  obtain d cs where eq: "show_nat (nat i) = digit_char d # cs" and d: "d < 10"
    using show_nat_Cons [of "nat i"] by blast
  have "parse_nat_prefix (digit_char d # cs) = Some (nat i)"
    using parse_nat_prefix_show_nat [of "nat i"] by (simp add: eq)
  with False d show ?thesis
    by (simp add: show_int_def parseInt_def eq Let_def)
qed

lemma show_int_inject [simp]: "show_int i = show_int j \<longleftrightarrow> i = j"
  by (metis option.inject parseInt_show_int)

text \<open>The remainder of the source keeps the sign of the dividend.\<close>

definition js_rem :: "int \<Rightarrow> int \<Rightarrow> int" where
  "js_rem a b = sgn a * (\<bar>a\<bar> mod \<bar>b\<bar>)"

text \<open>
  \<^verbatim>\<open>xs.sort(cmp)\<close>, which is stable: \<open>le x y\<close> is \<^verbatim>\<open>cmp(x, y) <= 0\<close>, for a consistent comparator.
\<close>

fun insert_by :: "('a \<Rightarrow> 'a \<Rightarrow> bool) \<Rightarrow> 'a \<Rightarrow> 'a list \<Rightarrow> 'a list" where
  "insert_by le x [] = [x]"
| "insert_by le x (y # ys) = (if le x y then x # y # ys else y # insert_by le x ys)"

definition js_sort :: "('a \<Rightarrow> 'a \<Rightarrow> bool) \<Rightarrow> 'a list \<Rightarrow> 'a list" where
  "js_sort le xs = foldr (insert_by le) xs []"

lemma set_insert_by [simp]: "set (insert_by le x xs) = insert x (set xs)"
  by (induction xs) auto

lemma set_js_sort [simp]: "set (js_sort le xs) = set xs"
  by (induction xs) (simp_all add: js_sort_def)

lemma sorted_insert_by:
  assumes "\<And>x y. le x y \<or> le y x" "\<And>x y z. le x y \<Longrightarrow> le y z \<Longrightarrow> le x z"
  shows "sorted_wrt le xs \<Longrightarrow> sorted_wrt le (insert_by le x xs)"
proof (induction xs)
  case (Cons y ys)
  show ?case
  proof (cases "le x y")
    case True
    with Cons.prems show ?thesis by (auto intro: assms(2))
  next
    case False
    then have "le y x" using assms(1) by blast
    with False Cons show ?thesis by auto
  qed
qed simp

lemma sorted_js_sort:
  assumes "\<And>x y. le x y \<or> le y x" "\<And>x y z. le x y \<Longrightarrow> le y z \<Longrightarrow> le x z"
  shows "sorted_wrt le (js_sort le xs)"
  by (induction xs) (simp_all add: js_sort_def sorted_insert_by [of le, OF assms])

subsection \<open>Strings\<close>

definition starts_with :: "string \<Rightarrow> string \<Rightarrow> bool" where
  "starts_with p s \<longleftrightarrow> take (length p) s = p"

definition ends_with :: "string \<Rightarrow> string \<Rightarrow> bool" where
  "ends_with p s \<longleftrightarrow> length p \<le> length s \<and> drop (length s - length p) s = p"

text \<open>\<open>s.replace(/\/+$/, '')\<close>: the slashes at the end of the string are removed.\<close>

definition strip_trailing_slashes :: "string \<Rightarrow> string" where
  "strip_trailing_slashes s = rev (dropWhile (\<lambda>c. c = CHR ''/'') (rev s))"

text \<open>\<open>s.trim()\<close> and \<open>s.toLowerCase()\<close>, on the ASCII characters.\<close>

definition trim :: "string \<Rightarrow> string" where
  "trim s = rev (dropWhile is_space (rev (dropWhile is_space s)))"

definition lower_char :: "char \<Rightarrow> char" where
  "lower_char c = (let n = of_char c :: nat in if 65 \<le> n \<and> n \<le> 90 then char_of (n + 32) else c)"

definition to_lower :: "string \<Rightarrow> string" where
  "to_lower s = map lower_char s"

fun join :: "string \<Rightarrow> string list \<Rightarrow> string" where
  "join sep [] = []"
| "join sep [s] = s"
| "join sep (s # ss) = s @ sep @ join sep ss"

text \<open>The UTF-8 bytes of two characters that occur in messages.\<close>

text \<open>\<^verbatim>\<open>s.split(c)\<close> for a separator of one character.\<close>

fun split_on :: "char \<Rightarrow> string \<Rightarrow> string list" where
  "split_on c [] = [[]]"
| "split_on c (x # xs) =
     (if x = c then [] # split_on c xs
      else (case split_on c xs of [] \<Rightarrow> [[x]] | p # ps \<Rightarrow> (x # p) # ps))"

definition em_dash :: string where
  "em_dash = [CHR 0xE2, CHR 0x80, CHR 0x94]"

definition right_arrow :: string where
  "right_arrow = [CHR 0xE2, CHR 0x86, CHR 0x92]"

lemma starts_with_append [simp]: "starts_with p (p @ s)"
  by (simp add: starts_with_def)

lemma starts_with_iff: "starts_with p s \<longleftrightarrow> (\<exists>r. s = p @ r)"
  unfolding starts_with_def by (metis append_eq_conv_conj append_take_drop_id)

lemma split_on_append: "c \<notin> set s \<Longrightarrow> split_on c (s @ c # rest) = s # split_on c rest"
  by (induction s) (auto split: list.split)

lemma split_on_whole: "c \<notin> set s \<Longrightarrow> split_on c s = [s]"
  by (induction s) auto

lemma split_on_hd: "split_on c xs = takeWhile (\<lambda>x. x \<noteq> c) xs # (case dropWhile (\<lambda>x. x \<noteq> c) xs of [] \<Rightarrow> [] | _ # r \<Rightarrow> split_on c r)"
  by (induction xs) (simp_all split: list.split)

lemma split_on_first:
  assumes "c \<notin> set s"
  shows "(\<exists>rest. split_on c xs = s # rest) \<longleftrightarrow> xs = s \<or> (\<exists>r. xs = s @ c # r)"
proof
  assume "\<exists>rest. split_on c xs = s # rest"
  then have s: "takeWhile (\<lambda>x. x \<noteq> c) xs = s" by (subst (asm) split_on_hd) auto
  show "xs = s \<or> (\<exists>r. xs = s @ c # r)"
  proof (cases "dropWhile (\<lambda>x. x \<noteq> c) xs")
    case Nil
    then show ?thesis using s takeWhile_dropWhile_id [of "\<lambda>x. x \<noteq> c" xs] by (metis append_Nil2)
  next
    case (Cons y ys)
    then have "y = c" using hd_dropWhile [of "\<lambda>x. x \<noteq> c" xs] by simp
    then show ?thesis using s Cons takeWhile_dropWhile_id [of "\<lambda>x. x \<noteq> c" xs] by metis
  qed
qed (use assms in \<open>auto simp: split_on_append split_on_whole\<close>)

lemma split_on_slash: "split_on c xs = [] # seg # rest \<longleftrightarrow> (\<exists>ys. xs = c # ys \<and> split_on c ys = seg # rest)"
  by (subst split_on_hd) (auto split: list.splits simp: dropWhile_eq_Cons_conv)

lemma ends_with_append [simp]: "ends_with p (s @ p)"
  by (simp add: ends_with_def)

lemma strip_trailing_slashes_last: "strip_trailing_slashes s \<noteq> [] \<Longrightarrow> last (strip_trailing_slashes s) \<noteq> CHR ''/''"
  unfolding strip_trailing_slashes_def
  by (metis (mono_tags, lifting) hd_dropWhile last_rev rev_is_Nil_conv)

lemma strip_trailing_slashes_idem [simp]:
  "strip_trailing_slashes (strip_trailing_slashes s) = strip_trailing_slashes s"
  by (simp add: strip_trailing_slashes_def)

lemma strip_trailing_slashes_append:
  "strip_trailing_slashes (s @ replicate n (CHR ''/'')) = strip_trailing_slashes s"
  unfolding strip_trailing_slashes_def rev_append rev_replicate by (subst dropWhile_append2) auto

end
