(* ===== verification/Json.thy ===== *)
theory Json
  imports Prelude
begin

text \<open>
  JSON values as the program handles them: what \<^verbatim>\<open>JSON.parse\<close> returns and \<^verbatim>\<open>JSON.stringify\<close> takes.
  Objects keep insertion order. Numbers are integers: miIO ids, stamps, service and property
  instance ids, status codes and enumerated property values are. \<open>undefined\<close> is \<^const>\<open>None\<close>.
  The text codec itself is a parameter of the definitions that use it.
\<close>

datatype json =
    JNull
  | JBool bool
  | JNum int
  | JStr string
  | JArr "json list"
  | JObj "(string \<times> json) list"

text \<open>\<^verbatim>\<open>String(v)\<close>, the conversion a template literal applies.\<close>

fun show_js :: "json \<Rightarrow> string" where
  "show_js JNull = ''null''"
| "show_js (JBool b) = (if b then ''true'' else ''false'')"
| "show_js (JNum n) = show_int n"
| "show_js (JStr s) = s"
| "show_js (JArr xs) = join '','' (map (\<lambda>x. if x = JNull then '''' else show_js x) xs)"
| "show_js (JObj _) = ''[object Object]''"

definition show_undef :: "json option \<Rightarrow> string" where
  "show_undef v = (case v of None \<Rightarrow> ''undefined'' | Some j \<Rightarrow> show_js j)"

text \<open>\<^verbatim>\<open>v.key\<close> for a value that is not nullish.\<close>

definition js_get :: "string \<Rightarrow> json \<Rightarrow> json option" where
  "js_get k v = (case v of JObj m \<Rightarrow> map_of m k | _ \<Rightarrow> None)"

text \<open>\<^verbatim>\<open>v?.[0]\<close> and \<^verbatim>\<open>v?.key\<close> for a value that may be \<open>undefined\<close> or \<open>null\<close>.\<close>

definition js_first :: "json option \<Rightarrow> json option" where
  "js_first v = (case v of
       Some (JArr (x # _)) \<Rightarrow> Some x
     | Some (JStr (c # _)) \<Rightarrow> Some (JStr [c])
     | Some (JObj m) \<Rightarrow> map_of m ''0''
     | _ \<Rightarrow> None)"

definition js_get_opt :: "string \<Rightarrow> json option \<Rightarrow> json option" where
  "js_get_opt k v = (case v of Some j \<Rightarrow> js_get k j | None \<Rightarrow> None)"

text \<open>\<^verbatim>\<open>CommonUtils.isNil\<close>: \<open>undefined\<close> or \<open>null\<close>.\<close>

definition is_nil :: "json option \<Rightarrow> bool" where
  "is_nil v \<longleftrightarrow> v = None \<or> v = Some JNull"

text \<open>\<^verbatim>\<open>{ ...base, ...ext }\<close>: the later binding of a key wins, in the earlier one's position.\<close>

definition obj_spread :: "(string \<times> json) list \<Rightarrow> (string \<times> json) list \<Rightarrow> (string \<times> json) list" where
  "obj_spread base ext = fold (\<lambda>(k, v). AList.update k v) ext base"

lemma is_nil_simps [simp, js_simps]:
  "is_nil None" "is_nil (Some JNull)" "\<not> is_nil (Some (JBool b))" "\<not> is_nil (Some (JNum n))"
  "\<not> is_nil (Some (JStr s))" "\<not> is_nil (Some (JArr xs))" "\<not> is_nil (Some (JObj m))"
  by (simp_all add: is_nil_def)

lemma js_get_simps [simp, js_simps]:
  "js_get k (JObj m) = map_of m k" "js_get_opt k None = None" "js_get_opt k (Some v) = js_get k v"
  "js_first (Some (JArr (x # xs))) = Some x" "js_first (Some (JArr [])) = None"
  "js_first None = None" "js_first (Some JNull) = None"
  by (simp_all add: js_get_def js_get_opt_def js_first_def)

lemma map_of_obj_spread:
  assumes "distinct (map fst ext)"
  shows "map_of (obj_spread base ext) k
    = (case map_of ext k of Some v \<Rightarrow> Some v | None \<Rightarrow> map_of base k)"
  using assms unfolding obj_spread_def
proof (induction ext arbitrary: base)
  case Nil
  then show ?case by simp
next
  case (Cons p ext)
  obtain k' v where p: "p = (k', v)" by (cases p)
  have "map_of (fold (\<lambda>(k, v). AList.update k v) ext (AList.update k' v base)) k
      = (case map_of ext k of Some v \<Rightarrow> Some v | None \<Rightarrow> map_of (AList.update k' v base) k)"
    using Cons by simp
  moreover have "map_of ext k' = None" using Cons.prems by (simp add: p map_of_eq_None_iff)
  ultimately show ?case by (auto simp: p update_conv' split: option.splits)
qed

end
