(* ===== verification/Schema.thy ===== *)
theory Schema
  imports Json "HOL-Library.Monad_Syntax"
begin

text \<open>
  The schema combinators of zod that the configuration schemas use. A parser takes the value of a
  field, \<^const>\<open>None\<close> when it is absent, and gives the parsed value, or \<^const>\<open>None\<close> when it is refused.
\<close>

type_synonym 'a parser = "json option \<Rightarrow> 'a option"

definition z_string :: "string parser" where
  "z_string v = (case v of Some (JStr s) \<Rightarrow> Some s | _ \<Rightarrow> None)"

definition z_string_min1 :: "string parser" where
  "z_string_min1 v = (case z_string v of Some s \<Rightarrow> if s = [] then None else Some s | None \<Rightarrow> None)"

definition z_int_min :: "int \<Rightarrow> int parser" where
  "z_int_min lo v = (case v of Some (JNum n) \<Rightarrow> if lo \<le> n then Some n else None | _ \<Rightarrow> None)"

definition z_bool :: "bool parser" where
  "z_bool v = (case v of Some (JBool b) \<Rightarrow> Some b | _ \<Rightarrow> None)"

definition z_literal :: "string \<Rightarrow> unit parser" where
  "z_literal s v = (if v = Some (JStr s) then Some () else None)"

text \<open>\<open>z.enum\<close>: the table maps each admitted string to the constructor that stands for it.\<close>

definition z_enum :: "(string \<times> 'a) list \<Rightarrow> 'a parser" where
  "z_enum table v = (case v of Some (JStr s) \<Rightarrow> map_of table s | _ \<Rightarrow> None)"

definition z_array :: "'a parser \<Rightarrow> 'a list parser" where
  "z_array p v = (case v of Some (JArr xs) \<Rightarrow> those (map (\<lambda>x. p (Some x)) xs) | _ \<Rightarrow> None)"

text \<open>\<open>.default(d)\<close> replaces \<open>undefined\<close> only, \<open>.optional()\<close> admits it.\<close>

definition z_default :: "'a \<Rightarrow> 'a parser \<Rightarrow> 'a parser" where
  "z_default d p v = (case v of None \<Rightarrow> Some d | Some _ \<Rightarrow> p v)"

definition z_optional :: "'a parser \<Rightarrow> 'a option parser" where
  "z_optional p v = (case v of None \<Rightarrow> Some None | Some _ \<Rightarrow> map_option Some (p v))"

text \<open>\<open>z.object\<close>: the fields are read from the object's own keys; unknown keys are ignored.\<close>

definition z_object :: "((string \<Rightarrow> json option) \<Rightarrow> 'a option) \<Rightarrow> 'a parser" where
  "z_object f v = (case v of Some (JObj m) \<Rightarrow> f (map_of m) | _ \<Rightarrow> None)"

text \<open>\<open>z.strictObject\<close> refuses any other key; \<open>z.union\<close> takes the first alternative that parses.\<close>

definition z_strict_object :: "string list \<Rightarrow> ((string \<Rightarrow> json option) \<Rightarrow> 'a option) \<Rightarrow> 'a parser" where
  "z_strict_object keys f v = (case v of
       Some (JObj m) \<Rightarrow> if list_all (\<lambda>(k, _). k \<in> set keys) m then f (map_of m) else None
     | _ \<Rightarrow> None)"

definition z_union :: "'a parser \<Rightarrow> 'a parser \<Rightarrow> 'a parser" where
  "z_union p q v = (case p v of Some x \<Rightarrow> Some x | None \<Rightarrow> q v)"

definition z_map :: "('a \<Rightarrow> 'b) \<Rightarrow> 'a parser \<Rightarrow> 'b parser" where
  "z_map f p v = map_option f (p v)"

definition z_url :: "(string \<Rightarrow> bool) \<Rightarrow> string parser" where
  "z_url is_url v = (case z_string v of Some s \<Rightarrow> if is_url s then Some s else None | None \<Rightarrow> None)"

text \<open>\<open>z.record(z.string(), z.unknown())\<close>\<close>

definition z_record :: "(string \<times> json) list parser" where
  "z_record v = (case v of Some (JObj m) \<Rightarrow> Some m | _ \<Rightarrow> None)"

lemma z_simps [simp, js_simps]:
  "z_string (Some (JStr s)) = Some s" "z_string None = None"
  "z_string_min1 (Some (JStr s)) = (if s = [] then None else Some s)" "z_string_min1 None = None"
  "z_int_min lo (Some (JNum n)) = (if lo \<le> n then Some n else None)" "z_int_min lo None = None"
  "z_bool (Some (JBool b)) = Some b" "z_bool None = None"
  "z_enum t (Some (JStr s)) = map_of t s" "z_enum t None = None"
  "z_array p (Some (JArr xs)) = those (map (\<lambda>x. p (Some x)) xs)" "z_array p None = None"
  "z_default d p None = Some d" "z_default d p (Some v) = p (Some v)"
  "z_optional q None = Some None" "z_optional q (Some v) = map_option Some (q (Some v))"
  "z_object f (Some (JObj m)) = f (map_of m)" "z_object f None = None"
  "z_strict_object ks f (Some (JObj m)) = (if list_all (\<lambda>(k, _). k \<in> set ks) m then f (map_of m) else None)"
  "z_url is_url (Some (JStr s)) = (if is_url s then Some s else None)" "z_url is_url None = None"
  "z_record (Some (JObj m)) = Some m" "z_record None = None" "z_map g r w = map_option g (r w)"
  by (simp_all add: z_string_def z_string_min1_def z_int_min_def z_bool_def z_enum_def z_array_def
      z_default_def z_optional_def z_object_def z_strict_object_def z_url_def z_record_def z_map_def)

lemma z_object_Some: "z_object f v = Some x \<longleftrightarrow> (\<exists>m. v = Some (JObj m) \<and> f (map_of m) = Some x)"
  by (auto simp: z_object_def split: option.splits json.splits)

lemma z_default_Some: "z_default d p v = Some x \<Longrightarrow> v = None \<and> x = d \<or> p v = Some x"
  by (auto simp: z_default_def split: option.splits)

lemma z_int_min_Some: "z_int_min lo v = Some x \<longleftrightarrow> v = Some (JNum x) \<and> lo \<le> x"
  by (auto simp: z_int_min_def split: option.splits json.splits if_splits)

lemma z_string_min1_Some: "z_string_min1 v = Some x \<longleftrightarrow> v = Some (JStr x) \<and> x \<noteq> []"
  by (auto simp: z_string_min1_def z_string_def split: option.splits json.splits if_splits)

lemma those_Some: "those xs = Some ys \<longleftrightarrow> xs = map Some ys"
  by (induction xs arbitrary: ys) (auto simp: Cons_eq_map_conv split: option.splits)

text \<open>
  A parsed value written out as JSON parses to itself. A field that was left out of an optional
  place is left out again.
\<close>

definition reparses :: "'a parser \<Rightarrow> ('a \<Rightarrow> json) \<Rightarrow> bool" where
  "reparses p enc \<longleftrightarrow> (\<forall>v x. p v = Some x \<longrightarrow> p (Some (enc x)) = Some x)"

definition opt_field :: "string \<Rightarrow> ('a \<Rightarrow> json) \<Rightarrow> 'a option \<Rightarrow> (string \<times> json) list" where
  "opt_field k enc x = (case x of None \<Rightarrow> [] | Some a \<Rightarrow> [(k, enc a)])"

lemma reparsesD: "reparses p enc \<Longrightarrow> p v = Some x \<Longrightarrow> p (Some (enc x)) = Some x"
  by (simp add: reparses_def)

lemma opt_field_simps [simp]:
  "map_of (opt_field k enc x) l = (if l = k then map_option enc x else None)"
  "fst ` set (opt_field k enc x) \<subseteq> {k}"
  by (auto simp: opt_field_def split: option.splits)

lemma opt_field_append [simp]:
  "(m ++ map_of (opt_field k enc x)) l = (if l = k then (case x of None \<Rightarrow> m k | Some a \<Rightarrow> Some (enc a)) else m l)"
  by (auto simp: opt_field_def split: option.splits)

lemma case_option_map [simp]: "(case x of None \<Rightarrow> None | Some a \<Rightarrow> Some (enc a)) = map_option enc x"
  by (cases x) auto

lemma list_all_opt_field [simp]: "list_all P (opt_field k enc x) \<longleftrightarrow> (\<forall>a. x = Some a \<longrightarrow> P (k, enc a))"
  by (auto simp: opt_field_def split: option.splits)

lemma reparses_base [intro, simp]:
  "reparses z_string JStr" "reparses z_string_min1 JStr" "reparses (z_int_min lo) JNum"
  "reparses (z_url is_url) JStr" "reparses z_record JObj"
  by (auto simp: reparses_def z_string_def z_string_min1_def z_int_min_def z_url_def z_record_def
      split: option.splits json.splits if_splits)

lemma reparses_enum_same: "reparses (z_enum (map (\<lambda>m. (m, m)) ms)) JStr"
proof -
  have "map_of (map (\<lambda>m. (m, m)) ms) s = Some x \<Longrightarrow> x = s \<and> s \<in> set ms" for s x :: string
    by (auto dest!: map_of_SomeD)
  moreover have "s \<in> set ms \<Longrightarrow> map_of (map (\<lambda>m. (m, m)) ms) s = Some s" for s :: string
    by (induction ms) auto
  ultimately show ?thesis by (auto simp: reparses_def z_enum_def split: option.splits json.splits)
qed

lemma reparses_default: "reparses p enc \<Longrightarrow> p (Some (enc d)) = Some d \<Longrightarrow> reparses (z_default d p) enc"
  by (auto simp: reparses_def z_default_def split: option.splits)

lemma reparses_array:
  assumes "reparses p enc"
  shows "reparses (z_array p) (\<lambda>xs. JArr (map enc xs))"
  unfolding reparses_def
proof (intro allI impI)
  fix v xs assume "z_array p v = Some xs"
  then obtain js where "those (map (\<lambda>x. p (Some x)) js) = Some xs"
    by (auto simp: z_array_def split: option.splits json.splits)
  then have "map (\<lambda>x. p (Some x)) js = map Some xs" by (simp add: those_Some)
  then have "\<exists>j. p j = Some x" if "x \<in> set xs" for x
    using that by (metis (no_types, lifting) image_iff list.set_map)
  with assms have "map (\<lambda>x. p (Some (enc x))) xs = map Some xs" by (auto intro: reparsesD)
  then show "z_array p (Some (JArr (map enc xs))) = Some xs" by (simp add: those_Some comp_def)
qed

text \<open>An optional field read back from where \<^const>\<open>opt_field\<close> put it.\<close>

lemma reparses_optional:
  assumes "reparses p enc" and "z_optional p v = Some x"
  shows "z_optional p (map_option enc x) = Some x"
  using assms by (auto simp: z_optional_def reparses_def split: option.splits)

end
