(* ===== verification/Auth_Config.thy ===== *)
theory Auth_Config
  imports Schema
begin

text \<open>
  \<^verbatim>\<open>packages/auth/src/schemas/auth.schema.ts\<close> and \<^verbatim>\<open>describeAuthConfig.ts\<close>: the \<open>auth\<close> block of a
  service's configuration, its validation and the boot-time summary of it.
\<close>

datatype jwks_auth = Jwks_None | Jwks_ServiceAccountToken

datatype subject_kind = Human | Service | Device

record static_key =
  sk_algorithm :: string
  sk_value :: string

record jwks_key =
  jk_uri :: string
  jk_auth :: jwks_auth
  jk_algorithms :: "string list"
  jk_cacheTtlSeconds :: int
  jk_refreshCooldownMs :: int
  jk_timeoutMs :: int

datatype key_config = Static_Key static_key | Jwks_Key jwks_key

record trusted_issuer =
  ti_name :: string
  ti_issuer :: string
  ti_audience :: string
  ti_key :: key_config
  ti_subjectKind :: subject_kind
  ti_rolesClaim :: string

text \<open>\<open>VerifierType\<close> has one member, so an entry is its list of trusted issuers.\<close>

datatype verifier_config = Bearer_Jwt "trusted_issuer list"

type_synonym auth_config = "(string, verifier_config) js_map"

subsection \<open>Validation\<close>

text \<open>\<open>is_url\<close> is zod's check of a URL.\<close>

definition StaticKeySchema :: "static_key parser" where
  "StaticKeySchema = z_object (\<lambda>field. do {
     z_literal ''value'' (field ''source'');
     algorithm \<leftarrow> z_default ''HS256'' z_string_min1 (field ''algorithm'');
     value \<leftarrow> z_string_min1 (field ''value'');
     Some \<lparr>sk_algorithm = algorithm, sk_value = value\<rparr> })"

definition JwksKeySchema :: "(string \<Rightarrow> bool) \<Rightarrow> jwks_key parser" where
  "JwksKeySchema is_url = z_object (\<lambda>field. do {
     z_literal ''jwks'' (field ''source'');
     uri \<leftarrow> z_string (field ''uri'');
     auth \<leftarrow> z_default Jwks_None
       (z_enum [(''none'', Jwks_None), (''serviceAccountToken'', Jwks_ServiceAccountToken)]) (field ''auth'');
     algorithms \<leftarrow> z_default [''RS256''] (z_array z_string_min1) (field ''algorithms'');
     ttl \<leftarrow> z_default 300 (z_int_min 1) (field ''cacheTtlSeconds'');
     cooldown \<leftarrow> z_default 30000 (z_int_min 1) (field ''refreshCooldownMs'');
     timeout \<leftarrow> z_default 3000 (z_int_min 1) (field ''timeoutMs'');
     if is_url uri
     then Some \<lparr>jk_uri = uri, jk_auth = auth, jk_algorithms = algorithms, jk_cacheTtlSeconds = ttl,
                jk_refreshCooldownMs = cooldown, jk_timeoutMs = timeout\<rparr>
     else None })"

definition KeySchema :: "(string \<Rightarrow> bool) \<Rightarrow> key_config parser" where
  "KeySchema is_url v = (case js_get_opt ''source'' v of
       Some (JStr s) \<Rightarrow>
         if s = ''value'' then map_option Static_Key (StaticKeySchema v)
         else if s = ''jwks'' then map_option Jwks_Key (JwksKeySchema is_url v)
         else None
     | _ \<Rightarrow> None)"

definition TrustedIssuerSchema :: "(string \<Rightarrow> bool) \<Rightarrow> trusted_issuer parser" where
  "TrustedIssuerSchema is_url = z_object (\<lambda>field. do {
     name \<leftarrow> z_string_min1 (field ''name'');
     issuer \<leftarrow> z_string_min1 (field ''issuer'');
     audience \<leftarrow> z_string_min1 (field ''audience'');
     key \<leftarrow> KeySchema is_url (field ''key'');
     kind \<leftarrow> z_default Human (z_enum [(''human'', Human), (''service'', Service), (''device'', Device)]) (field ''subjectKind'');
     roles \<leftarrow> z_default ''roles'' z_string (field ''rolesClaim'');
     Some \<lparr>ti_name = name, ti_issuer = issuer, ti_audience = audience, ti_key = key,
           ti_subjectKind = kind, ti_rolesClaim = roles\<rparr> })"

definition JwtVerifierSchema :: "(string \<Rightarrow> bool) \<Rightarrow> trusted_issuer list parser" where
  "JwtVerifierSchema is_url = z_object (\<lambda>field. do {
     z_literal ''bearer-jwt'' (field ''type'');
     rows \<leftarrow> z_array (TrustedIssuerSchema is_url) (field ''trustedIssuers'');
     if rows = [] then None else Some rows })"

definition VerifierSchema :: "(string \<Rightarrow> bool) \<Rightarrow> verifier_config parser" where
  "VerifierSchema is_url v = map_option Bearer_Jwt (JwtVerifierSchema is_url v)"

definition AuthConfigSchema :: "(string \<Rightarrow> bool) \<Rightarrow> auth_config parser" where
  "AuthConfigSchema is_url v = (case v of
       Some (JObj m) \<Rightarrow> those (map (\<lambda>(k, x). map_option (Pair k) (VerifierSchema is_url (Some x))) m)
     | _ \<Rightarrow> None)"

text \<open>The strict form: every method of the service is a required key, and no other key is admitted.\<close>

definition createAuthConfigSchema :: "(string \<Rightarrow> bool) \<Rightarrow> string list \<Rightarrow> auth_config parser" where
  "createAuthConfigSchema is_url methods v = (case v of
       Some (JObj m) \<Rightarrow>
         if list_all (\<lambda>(k, _). k \<in> set methods) m
         then those (map (\<lambda>k. map_option (Pair k) (VerifierSchema is_url (map_of m k))) (remdups methods))
         else None
     | _ \<Rightarrow> None)"

subsection \<open>The boot-time summary\<close>

record issuer_summary =
  is_name :: string
  is_issuer :: string
  is_audience :: string
  is_subjectKind :: string
  is_keySource :: string
  is_algorithms :: "string list"

record auth_summary =
  as_methods :: "string list"
  as_level :: string
  as_message :: string
  as_issuers :: "issuer_summary list"

fun subject_kind_text :: "subject_kind \<Rightarrow> string" where
  "subject_kind_text Human = ''human''"
| "subject_kind_text Service = ''service''"
| "subject_kind_text Device = ''device''"

definition issuersOf :: "auth_config \<Rightarrow> trusted_issuer list" where
  "issuersOf config = concat (map (\<lambda>(_, entry). case entry of Bearer_Jwt rows \<Rightarrow> rows) config)"

definition summaryLine :: "auth_config \<Rightarrow> string list \<Rightarrow> string" where
  "summaryLine config methods =
     (if methods = [] then ''auth '' @ em_dash @ '' no verifier is configured; any guarded route will fail.''
      else
        (let names = map (\<lambda>row. ti_name row @ '' ('' @ ti_issuer row @ '' '' @ right_arrow @ '' aud '' @ ti_audience row @ '')'')
                       (issuersOf config)
         in ''auth '' @ em_dash @ '' accepting '' @ join '', '' methods @ ''; trusting '' @ join '', '' names @ ''.''))"

definition describeIssuer :: "trusted_issuer \<Rightarrow> issuer_summary" where
  "describeIssuer row =
     \<lparr>is_name = ti_name row, is_issuer = ti_issuer row, is_audience = ti_audience row,
      is_subjectKind = subject_kind_text (ti_subjectKind row),
      is_keySource = (case ti_key row of
          Static_Key k \<Rightarrow> ''inline '' @ sk_algorithm k @ '' key''
        | Jwks_Key k \<Rightarrow> ''jwks '' @ jk_uri k
            @ (if jk_auth k = Jwks_ServiceAccountToken then '' (serviceaccount-authenticated)'' else '''')),
      is_algorithms = (case ti_key row of Static_Key k \<Rightarrow> [sk_algorithm k] | Jwks_Key k \<Rightarrow> jk_algorithms k)\<rparr>"

definition describeAuthConfig :: "auth_config \<Rightarrow> auth_summary" where
  "describeAuthConfig config =
     (let methods = map fst config in
      \<lparr>as_methods = methods, as_level = (if methods = [] then ''warn'' else ''info''),
       as_message = summaryLine config methods, as_issuers = map describeIssuer (issuersOf config)\<rparr>)"

subsection \<open>What a valid configuration guarantees\<close>

lemma VerifierSchema_nonempty: "VerifierSchema is_url v = Some (Bearer_Jwt rows) \<Longrightarrow> rows \<noteq> []"
  by (auto simp: VerifierSchema_def JwtVerifierSchema_def z_object_def Option.bind_eq_Some_conv
      split: option.splits json.splits if_splits)

text \<open>
  A configuration accepted for a service's methods has an entry for every method its
  routes name and for nothing else, and every entry trusts at least one issuer: a forgotten or
  misspelt method is refused at boot.
\<close>

theorem auth_config_covers_methods:
  assumes "createAuthConfigSchema is_url methods v = Some config"
  shows "set (map fst config) = set methods \<and> distinct (map fst config)
    \<and> (\<forall>(k, entry) \<in> set config. case entry of Bearer_Jwt rows \<Rightarrow> rows \<noteq> [])
    \<and> (\<exists>m. v = Some (JObj m) \<and> fst ` set m = set methods)"
proof -
  obtain m where v: "v = Some (JObj m)" and sub: "\<forall>(k, x) \<in> set m. k \<in> set methods"
    and ok: "map (\<lambda>k. map_option (Pair k) (VerifierSchema is_url (map_of m k))) (remdups methods) = map Some config"
    using assms by (auto simp: createAuthConfigSchema_def those_Some list_all_iff split: option.splits json.splits if_splits)
  have len: "length config = length (remdups methods)" using ok by (metis length_map)
  have each: "\<exists>entry. config ! i = (remdups methods ! i, entry) \<and> VerifierSchema is_url (map_of m (remdups methods ! i)) = Some entry"
    if "i < length config" for i
  proof -
    have "map_option (Pair (remdups methods ! i)) (VerifierSchema is_url (map_of m (remdups methods ! i))) = Some (config ! i)"
      using ok that len by (metis (mono_tags, lifting) nth_map)
    then show ?thesis by auto
  qed
  have fsts: "map fst config = remdups methods"
  proof (rule nth_equalityI)
    fix i assume "i < length (map fst config)"
    with each [of i] show "map fst config ! i = remdups methods ! i" by auto
  qed (simp add: len)
  have entries: "case entry of Bearer_Jwt rows \<Rightarrow> rows \<noteq> []" if "(k, entry) \<in> set config" for k entry
  proof -
    obtain i where "i < length config" "config ! i = (k, entry)" using \<open>(k, entry) \<in> set config\<close> by (metis in_set_conv_nth)
    with each [of i] have "VerifierSchema is_url (map_of m (remdups methods ! i)) = Some entry" by simp
    then show ?thesis by (cases entry) (simp add: VerifierSchema_nonempty)
  qed
  have present: "map_of m k \<noteq> None" if "k \<in> set methods" for k
  proof -
    from that have "k \<in> set (remdups methods)" by simp
    then have "\<exists>i < length (remdups methods). remdups methods ! i = k" by (simp only: in_set_conv_nth)
    then obtain i where i: "i < length config" and k: "remdups methods ! i = k" using len by auto
    obtain entry where "VerifierSchema is_url (map_of m k) = Some entry"
      using each [OF i] unfolding k by blast
    then show ?thesis by (intro notI) (simp add: VerifierSchema_def JwtVerifierSchema_def)
  qed
  have "fst ` set m = set methods"
  proof
    show "fst ` set m \<subseteq> set methods" using sub by auto
    show "set methods \<subseteq> fst ` set m" using present by (auto simp: map_of_eq_None_iff)
  qed
  then show ?thesis using fsts entries v by auto
qed

definition sample_auth_json :: json where
  "sample_auth_json = JObj [(''IDP'', JObj [(''type'', JStr ''bearer-jwt''), (''trustedIssuers'',
     JArr [JObj [(''name'', JStr ''dev''), (''issuer'', JStr ''dev''), (''audience'', JStr ''api''),
       (''key'', JObj [(''source'', JStr ''value''), (''value'', JStr ''secret'')])]])])]"

definition sample_issuer :: trusted_issuer where
  "sample_issuer = \<lparr>ti_name = ''dev'', ti_issuer = ''dev'', ti_audience = ''api'',
     ti_key = Static_Key \<lparr>sk_algorithm = ''HS256'', sk_value = ''secret''\<rparr>,
     ti_subjectKind = Human, ti_rolesClaim = ''roles''\<rparr>"

lemma sample_auth_accepted:
  "createAuthConfigSchema (\<lambda>_. True) [''IDP''] (Some sample_auth_json) = Some [(''IDP'', Bearer_Jwt [sample_issuer])]"
  by (simp add: createAuthConfigSchema_def sample_auth_json_def sample_issuer_def VerifierSchema_def
      JwtVerifierSchema_def TrustedIssuerSchema_def KeySchema_def StaticKeySchema_def z_literal_def)

lemma auth_config_covers_methods_witness:
  "set (map fst [(''IDP'', Bearer_Jwt [sample_issuer])]) = set [''IDP'']
    \<and> createAuthConfigSchema (\<lambda>_. True) [''IDP''] (Some sample_auth_json) = Some [(''IDP'', Bearer_Jwt [sample_issuer])]"
  using auth_config_covers_methods [OF sample_auth_accepted] sample_auth_accepted by blast

text \<open>The same configuration with every inline key value replaced.\<close>

definition rekey :: "(string \<Rightarrow> string) \<Rightarrow> trusted_issuer \<Rightarrow> trusted_issuer" where
  "rekey f row = row\<lparr>ti_key := (case ti_key row of
       Static_Key k \<Rightarrow> Static_Key (k\<lparr>sk_value := f (sk_value k)\<rparr>) | Jwks_Key k \<Rightarrow> Jwks_Key k)\<rparr>"

definition rekey_config :: "(string \<Rightarrow> string) \<Rightarrow> auth_config \<Rightarrow> auth_config" where
  "rekey_config f config = map (\<lambda>(k, entry). (k, case entry of Bearer_Jwt rows \<Rightarrow> Bearer_Jwt (map (rekey f) rows))) config"

lemma describeIssuer_rekey: "describeIssuer (rekey f row) = describeIssuer row"
  by (auto simp: describeIssuer_def rekey_def split: key_config.splits)

lemma issuersOf_rekey: "issuersOf (rekey_config f config) = map (rekey f) (issuersOf config)"
  by (induction config) (auto simp: issuersOf_def rekey_config_def split: verifier_config.splits)

text \<open>
  The boot-time summary discloses no inline key: configurations that differ only in the
  key values have the same summary, message and issuer rows included.
\<close>

theorem summary_hides_keys:
  "describeAuthConfig (rekey_config f config) = describeAuthConfig config"
proof -
  have methods: "map fst (rekey_config f config) = map fst config" by (auto simp: rekey_config_def)
  have "map (\<lambda>row. g (ti_name row) (ti_issuer row) (ti_audience row)) (issuersOf (rekey_config f config))
      = map (\<lambda>row. g (ti_name row) (ti_issuer row) (ti_audience row)) (issuersOf config)" for g :: "_ \<Rightarrow> _ \<Rightarrow> _ \<Rightarrow> string"
    by (simp add: issuersOf_rekey rekey_def comp_def)
  from this [of "\<lambda>n i a. n @ '' ('' @ i @ '' '' @ right_arrow @ '' aud '' @ a @ '')''"]
  have "summaryLine (rekey_config f config) ms = summaryLine config ms" for ms
    by (simp add: summaryLine_def)
  then show ?thesis
    by (simp add: describeAuthConfig_def Let_def methods issuersOf_rekey describeIssuer_rekey comp_def)
qed

end
