(* ===== verification/Miot_Error.thy ===== *)
theory Miot_Error
  imports Json
begin

text \<open>
  \<^verbatim>\<open>packages/miot-device/src/MiotError.ts\<close>: the typed failure of a miot call, and the values a
  \<^verbatim>\<open>catch\<close> of this program can receive.
\<close>

datatype miot_error_kind = MIOT_ERROR_TIMEOUT | MIOT_ERROR_DEVICE_ERROR | MIOT_ERROR_TRANSPORT_ERROR

datatype miot_method =
    MIOT_METHOD_HANDSHAKE
  | MIOT_METHOD_GET_PROPERTIES
  | MIOT_METHOD_SET_PROPERTIES
  | MIOT_METHOD_ACTION

text \<open>
  A thrown value: a \<^verbatim>\<open>MiotError\<close> (message, kind, method, code, cause, stampRefreshed), any other
  \<^verbatim>\<open>Error\<close> with its name and message, or a thrown value that is no \<^verbatim>\<open>Error\<close>, by its string form.
\<close>

datatype thrown =
    MiotError string miot_error_kind miot_method "json option" "thrown option" bool
  | JsError string string
  | ThrownValue string

text \<open>\<^verbatim>\<open>value instanceof Error ? value.message : String(value)\<close>\<close>

fun error_text :: "thrown \<Rightarrow> string" where
  "error_text (MiotError m _ _ _ _ _) = m"
| "error_text (JsError _ m) = m"
| "error_text (ThrownValue s) = s"

fun miot_method_text :: "miot_method \<Rightarrow> string" where
  "miot_method_text MIOT_METHOD_HANDSHAKE = ''handshake''"
| "miot_method_text MIOT_METHOD_GET_PROPERTIES = ''get_properties''"
| "miot_method_text MIOT_METHOD_SET_PROPERTIES = ''set_properties''"
| "miot_method_text MIOT_METHOD_ACTION = ''action''"

fun is_miot_error :: "thrown \<Rightarrow> bool" where
  "is_miot_error (MiotError _ _ _ _ _ _) = True"
| "is_miot_error _ = False"

fun error_kind :: "thrown \<Rightarrow> miot_error_kind option" where
  "error_kind (MiotError _ k _ _ _ _) = Some k"
| "error_kind _ = None"

fun error_method :: "thrown \<Rightarrow> miot_method option" where
  "error_method (MiotError _ _ m _ _ _) = Some m"
| "error_method _ = None"

fun error_code :: "thrown \<Rightarrow> json option" where
  "error_code (MiotError _ _ _ c _ _) = c"
| "error_code _ = None"

fun stamp_refreshed :: "thrown \<Rightarrow> bool" where
  "stamp_refreshed (MiotError _ _ _ _ _ r) = r"
| "stamp_refreshed _ = False"

text \<open>\<^verbatim>\<open>MiotError.afterStampRefresh\<close>\<close>

definition after_stamp_refresh :: "thrown \<Rightarrow> miot_method \<Rightarrow> int \<Rightarrow> thrown" where
  "after_stamp_refresh value method deviceId =
     (let message = ''Operation failed after stamp refresh for device '' @ show_int deviceId
                    @ '': '' @ error_text value
      in case value of
           MiotError _ kind m code _ _ \<Rightarrow> MiotError message kind m code (Some value) True
         | _ \<Rightarrow> MiotError message MIOT_ERROR_TRANSPORT_ERROR method None (Some value) True)"

lemma after_stamp_refresh_simps [simp, js_simps]:
  "is_miot_error (after_stamp_refresh e m d)"
  "stamp_refreshed (after_stamp_refresh e m d)"
  "error_code (after_stamp_refresh e m d) = error_code e"
  "error_kind (after_stamp_refresh e m d) = Some (case error_kind e of Some k \<Rightarrow> k | None \<Rightarrow> MIOT_ERROR_TRANSPORT_ERROR)"
  "error_method (after_stamp_refresh e m d) = Some (case error_method e of Some x \<Rightarrow> x | None \<Rightarrow> m)"
  by (cases e; simp add: after_stamp_refresh_def Let_def)+

end
