(* ===== verification/Miot_Packet.thy ===== *)
theory Miot_Packet
  imports Miot_Error
begin

text \<open>
  \<^verbatim>\<open>packages/miot-device/src/packet\<close>: the binary packets of the miIO protocol. A \<^verbatim>\<open>Buffer\<close> is a
  list of bytes. MD5, AES-128-CBC (Node's \<open>crypto\<close>) and the JSON text codec are the fields of
  the parameter \<open>rt\<close>; \<^verbatim>\<open>decipher.final()\<close> and \<^verbatim>\<open>JSON.parse\<close> throw, so these two return a sum.
\<close>

record runtime =
  md5 :: "byte list \<Rightarrow> byte list"
  aes_cbc_encrypt :: "byte list \<Rightarrow> byte list \<Rightarrow> byte list \<Rightarrow> byte list"
  aes_cbc_decrypt :: "byte list \<Rightarrow> byte list \<Rightarrow> byte list \<Rightarrow> thrown + byte list"
  json_stringify :: "json \<Rightarrow> string"
  json_parse :: "string \<Rightarrow> thrown + json"

subsection \<open>Buffers\<close>

definition HEADER_SIZE :: nat where "HEADER_SIZE = 32"
definition MAGIC :: int where "MAGIC = 0x2131"

definition utf8_bytes :: "string \<Rightarrow> byte list" where
  "utf8_bytes s = map (\<lambda>c. word_of_int (of_char c)) s"

definition utf8_string :: "byte list \<Rightarrow> string" where
  "utf8_string bs = map (\<lambda>b. char_of (uint b)) bs"

definition put_bytes :: "nat \<Rightarrow> byte list \<Rightarrow> byte list \<Rightarrow> byte list" where
  "put_bytes off bs buf = take off buf @ bs @ drop (off + length bs) buf"

definition u16be :: "int \<Rightarrow> byte list" where
  "u16be v = [word_of_int (v div 256), word_of_int v]"

definition u32be :: "int \<Rightarrow> byte list" where
  "u32be v = [word_of_int (v div 16777216), word_of_int (v div 65536), word_of_int (v div 256), word_of_int v]"

definition out_of_range :: thrown where
  "out_of_range = JsError ''RangeError'' ''The value of \"value\" is out of range.''"

definition writeUInt16BE :: "int \<Rightarrow> nat \<Rightarrow> byte list \<Rightarrow> thrown + byte list" where
  "writeUInt16BE v off buf =
     (if 0 \<le> v \<and> v \<le> 65535 then Inr (put_bytes off (u16be v) buf) else Inl out_of_range)"

definition writeUInt32BE :: "int \<Rightarrow> nat \<Rightarrow> byte list \<Rightarrow> thrown + byte list" where
  "writeUInt32BE v off buf =
     (if 0 \<le> v \<and> v \<le> 4294967295 then Inr (put_bytes off (u32be v) buf) else Inl out_of_range)"

definition readUInt16BE :: "byte list \<Rightarrow> nat \<Rightarrow> int" where
  "readUInt16BE buf off = uint (buf ! off) * 256 + uint (buf ! (off + 1))"

definition readUInt32BE :: "byte list \<Rightarrow> nat \<Rightarrow> int" where
  "readUInt32BE buf off = uint (buf ! off) * 16777216 + uint (buf ! (off + 1)) * 65536
     + uint (buf ! (off + 2)) * 256 + uint (buf ! (off + 3))"

definition subarray :: "nat \<Rightarrow> nat \<Rightarrow> byte list \<Rightarrow> byte list" where
  "subarray a b buf = take (b - a) (drop a buf)"

text \<open>\<^verbatim>\<open>Buffer.from(s, 'hex')\<close> stops at the first pair that is not two hex digits.\<close>

definition hex_digit :: "char \<Rightarrow> nat option" where
  "hex_digit c = (case digit_value c of Some d \<Rightarrow> if d < 16 then Some d else None | None \<Rightarrow> None)"

fun hex_decode :: "string \<Rightarrow> byte list" where
  "hex_decode (a # b # s) =
     (case (hex_digit a, hex_digit b) of
        (Some x, Some y) \<Rightarrow> of_nat (16 * x + y) # hex_decode s
      | _ \<Rightarrow> [])"
| "hex_decode _ = []"

lemma utf8_string_bytes [simp]: "utf8_string (utf8_bytes s) = s"
proof -
  have "char_of (uint (word_of_int (of_char c) :: byte)) = c" for c
  proof -
    have "uint (word_of_int (of_char c) :: byte) = of_char c mod 256"
      by (simp add: uint_word_of_int_eq take_bit_eq_mod)
    then show ?thesis by (simp only: of_char_mod_256 char_of_char)
  qed
  then show ?thesis by (simp add: utf8_string_def utf8_bytes_def map_idI)
qed

lemma length_put_bytes [simp]:
  "off + length bs \<le> length buf \<Longrightarrow> length (put_bytes off bs buf) = length buf"
  by (simp add: put_bytes_def)

lemma length_u16be [simp]: "length (u16be v) = 2"
  by (simp add: u16be_def)

lemma length_u32be [simp]: "length (u32be v) = 4"
  by (simp add: u32be_def)

lemma nth_put_bytes:
  assumes "off + length bs \<le> length buf" and "i < length buf"
  shows "put_bytes off bs buf ! i = (if off \<le> i \<and> i < off + length bs then bs ! (i - off) else buf ! i)"
  using assms by (auto simp: put_bytes_def nth_append)

lemma take_put_bytes_before:
  assumes "n \<le> off" and "off \<le> length buf"
  shows "take n (put_bytes off bs buf) = take n buf"
  using assms by (simp add: put_bytes_def min_def)

lemma subarray_put_bytes:
  "off + length bs \<le> length buf \<Longrightarrow> subarray off (off + length bs) (put_bytes off bs buf) = bs"
  by (simp add: subarray_def put_bytes_def)

lemma uint_byte [simp]: "uint (word_of_int v :: byte) = v mod 256"
  by (simp add: uint_word_of_int_eq take_bit_eq_mod)

lemma read_u16be:
  assumes "off + 2 \<le> length buf" and "0 \<le> v" and "v \<le> 65535"
  shows "readUInt16BE (put_bytes off (u16be v) buf) off = v"
proof -
  have "v div 256 mod 256 = v div 256" using assms by (intro mod_pos_pos_trivial) auto
  then show ?thesis
    using assms by (simp add: readUInt16BE_def nth_put_bytes u16be_def)
qed

lemma be32_digits:
  fixes v :: int
  assumes "0 \<le> v" and "v \<le> 4294967295"
  shows "v div 16777216 mod 256 * 16777216 + v div 65536 mod 256 * 65536 + v div 256 mod 256 * 256 + v mod 256 = v"
proof -
  have m: "v div 16777216 mod 256 = v div 16777216" using assms by (intro mod_pos_pos_trivial) auto
  have q: "v div 65536 = v div 256 div 256" "v div 16777216 = v div 256 div 256 div 256"
    by (simp_all add: zdiv_zmult2_eq [symmetric])
  have d: "x div 256 * 256 + x mod 256 = x" for x :: int by (rule div_mult_mod_eq)
  show ?thesis
    unfolding m unfolding q using d [of v] d [of "v div 256"] d [of "v div 256 div 256"] by linarith
qed

lemma nth_put_u32be:
  assumes "off + 4 \<le> length buf"
  shows "put_bytes off (u32be v) buf ! off = word_of_int (v div 16777216)"
    and "put_bytes off (u32be v) buf ! (off + 1) = word_of_int (v div 65536)"
    and "put_bytes off (u32be v) buf ! (off + 2) = word_of_int (v div 256)"
    and "put_bytes off (u32be v) buf ! (off + 3) = word_of_int v"
  using assms by (simp_all add: nth_put_bytes) (simp_all add: u32be_def)

lemma read_u32be:
  assumes "off + 4 \<le> length buf" and "0 \<le> v" and "v \<le> 4294967295"
  shows "readUInt32BE (put_bytes off (u32be v) buf) off = v"
  unfolding readUInt32BE_def nth_put_u32be [OF assms(1)] uint_byte by (rule be32_digits [OF assms(2,3)])

subsection \<open>The base packet\<close>

record base_packet =
  pkt_header :: "byte list"
  pkt_token :: "byte list option"
  pkt_tokenKey :: "byte list option"
  pkt_tokenIV :: "byte list option"

datatype token_input = HexToken string | BufferToken "byte list"

fun token_bytes :: "token_input \<Rightarrow> byte list" where
  "token_bytes (HexToken s) = hex_decode s"
| "token_bytes (BufferToken b) = b"

definition initial_header :: "byte list" where
  "initial_header = put_bytes 4 (replicate (HEADER_SIZE - 4) 255)
     (put_bytes 0 (u16be MAGIC) (replicate HEADER_SIZE 0))"

definition BasePacket :: "runtime \<Rightarrow> token_input option \<Rightarrow> thrown + base_packet" where
  "BasePacket rt token_in =
     (case token_in of
        None \<Rightarrow> Inr \<lparr>pkt_header = initial_header, pkt_token = None, pkt_tokenKey = None, pkt_tokenIV = None\<rparr>
      | Some t \<Rightarrow>
          (let tok = token_bytes t in
           if length tok \<noteq> 16
           then Inl (JsError ''Error'' (''Token must be 16 bytes (128-bit), got '' @ show_nat (length tok)))
           else let key = md5 rt tok; iv = md5 rt (key @ tok)
                in Inr \<lparr>pkt_header = initial_header, pkt_token = Some tok,
                         pkt_tokenKey = Some key, pkt_tokenIV = Some iv\<rparr>))"

definition packet_checksum :: "('a) base_packet_scheme \<Rightarrow> byte list" where
  "packet_checksum p = subarray 16 32 (pkt_header p)"

definition packet_deviceId :: "('a) base_packet_scheme \<Rightarrow> int" where
  "packet_deviceId p = readUInt32BE (pkt_header p) 8"

definition packet_stamp :: "('a) base_packet_scheme \<Rightarrow> int" where
  "packet_stamp p = readUInt32BE (pkt_header p) 12"

subsection \<open>Outgoing packets\<close>

record outgoing_config =
  cfg_token :: "token_input option"
  cfg_payload :: "(string \<times> json) list option"
  cfg_deviceId :: "int option"
  cfg_stamp :: "int option"

record outgoing_packet = base_packet +
  pkt_payload :: "(string \<times> json) list option"

definition write_optional :: "int option \<Rightarrow> nat \<Rightarrow> byte list \<Rightarrow> thrown + byte list" where
  "write_optional v off h = (case v of None \<Rightarrow> Inr h | Some n \<Rightarrow> writeUInt32BE n off h)"

text \<open>The \<open>id\<close> is injected first, so a payload that carries its own keeps it.\<close>

definition inject_id :: "int \<Rightarrow> (string \<times> json) list \<Rightarrow> (string \<times> json) list" where
  "inject_id now_ms payload = obj_spread [(''id'', JNum (now_ms div 1000))] payload"

definition OutgoingPacket :: "runtime \<Rightarrow> int \<Rightarrow> outgoing_config option \<Rightarrow> thrown + outgoing_packet" where
  "OutgoingPacket rt now_ms config =
     (case BasePacket rt (case config of None \<Rightarrow> None | Some c \<Rightarrow> cfg_token c) of
        Inl e \<Rightarrow> Inl e
      | Inr b \<Rightarrow>
          (case config of
             None \<Rightarrow> Inr (base_packet.extend b \<lparr>pkt_payload = None\<rparr>)
           | Some c \<Rightarrow>
               (case write_optional (cfg_deviceId c) 8 (pkt_header b) of
                  Inl e \<Rightarrow> Inl e
                | Inr h1 \<Rightarrow>
                    (case write_optional (cfg_stamp c) 12 h1 of
                       Inl e \<Rightarrow> Inl e
                     | Inr h2 \<Rightarrow>
                         Inr (base_packet.extend (b\<lparr>pkt_header := h2\<rparr>)
                           \<lparr>pkt_payload = map_option (inject_id now_ms) (cfg_payload c)\<rparr>)))))"

definition buildCommandPacket ::
  "runtime \<Rightarrow> outgoing_packet \<Rightarrow> (string \<times> json) list \<Rightarrow> thrown + (outgoing_packet \<times> byte list)" where
  "buildCommandPacket rt p payload =
     (case (pkt_token p, pkt_tokenKey p, pkt_tokenIV p) of
        (Some token, Some key, Some iv) \<Rightarrow>
          (case writeUInt32BE 0 4 (pkt_header p) of
             Inl e \<Rightarrow> Inl e
           | Inr h1 \<Rightarrow>
               (let plaintext = utf8_bytes (json_stringify rt (JObj payload));
                    encrypted = aes_cbc_encrypt rt key iv plaintext
                in case writeUInt16BE (int HEADER_SIZE + int (length encrypted)) 2 h1 of
                     Inl e \<Rightarrow> Inl e
                   | Inr h2 \<Rightarrow>
                       (let digest = md5 rt (subarray 0 16 h2 @ token @ encrypted);
                            h3 = put_bytes 16 (take 16 digest) h2
                        in Inr (p\<lparr>pkt_header := h3\<rparr>, h3 @ encrypted))))
      | _ \<Rightarrow> Inl (JsError ''Error'' ''Token is required to send command packets''))"

definition outgoing_raw :: "runtime \<Rightarrow> outgoing_packet \<Rightarrow> thrown + (outgoing_packet \<times> byte list)" where
  "outgoing_raw rt p =
     (case pkt_payload p of
        Some payload \<Rightarrow> buildCommandPacket rt p payload
      | None \<Rightarrow>
          (case writeUInt16BE (int HEADER_SIZE) 2 (pkt_header p) of
             Inl e \<Rightarrow> Inl e
           | Inr h \<Rightarrow> Inr (p\<lparr>pkt_header := h\<rparr>, h)))"

subsection \<open>Incoming packets\<close>

record incoming_packet = base_packet +
  pkt_data :: "byte list option"

record hello_info =
  hello_deviceId :: int
  hello_stamp :: int
  hello_token :: "byte list"

definition hex_char :: "nat \<Rightarrow> char" where
  "hex_char d = (if d < 10 then char_of (48 + d) else char_of (87 + d))"

fun show_hex :: "nat \<Rightarrow> string" where
  "show_hex n = (if n < 16 then [hex_char n] else show_hex (n div 16) @ [hex_char (n mod 16)])"

declare show_hex.simps [simp del]

definition parseHello :: "byte list \<Rightarrow> thrown + hello_info" where
  "parseHello msg =
     (if length msg < HEADER_SIZE
      then Inl (JsError ''Error'' (''Response too short: '' @ show_nat (length msg) @ '' bytes''))
      else let magic = readUInt16BE msg 0 in
        if magic \<noteq> MAGIC
        then Inl (JsError ''Error'' (''Invalid magic number: 0x'' @ show_hex (nat magic)))
        else Inr \<lparr>hello_deviceId = readUInt32BE msg 8, hello_stamp = readUInt32BE msg 12,
                   hello_token = subarray 16 32 msg\<rparr>)"

definition parseAndDecrypt :: "runtime \<Rightarrow> base_packet \<Rightarrow> byte list \<Rightarrow> thrown + (base_packet \<times> byte list option)" where
  "parseAndDecrypt rt b msg =
     (if length msg < HEADER_SIZE
      then Inl (JsError ''Error'' (''Packet too short: '' @ show_nat (length msg) @ '' bytes''))
      else
        (let b' = b\<lparr>pkt_header := take HEADER_SIZE msg\<rparr>; encrypted = drop HEADER_SIZE msg in
         if encrypted = [] then Inr (b', None)
         else case (pkt_token b', pkt_tokenKey b', pkt_tokenIV b') of
             (Some token, Some key, Some iv) \<Rightarrow>
               (let expected = md5 rt (subarray 0 16 (pkt_header b') @ token @ encrypted) in
                if packet_checksum b' \<noteq> expected
                then Inl (JsError ''Error'' (''Invalid packet checksum '' @ em_dash @ '' token may be wrong''))
                else case aes_cbc_decrypt rt key iv encrypted of
                    Inl e \<Rightarrow> Inl e
                  | Inr d \<Rightarrow> Inr (b', Some d))
           | _ \<Rightarrow> Inl (JsError ''Error'' ''Token is required to decrypt response packets'')))"

definition IncomingPacket :: "runtime \<Rightarrow> byte list \<Rightarrow> token_input \<Rightarrow> thrown + incoming_packet" where
  "IncomingPacket rt msg token =
     (case BasePacket rt (Some token) of
        Inl e \<Rightarrow> Inl e
      | Inr b \<Rightarrow>
          (case parseAndDecrypt rt b msg of
             Inl e \<Rightarrow> Inl e
           | Inr (b', d) \<Rightarrow> Inr (base_packet.extend b' \<lparr>pkt_data = d\<rparr>)))"

definition strip_trailing_nuls :: "string \<Rightarrow> string" where
  "strip_trailing_nuls s = rev (dropWhile (\<lambda>c. c = CHR 0x00) (rev s))"

definition incoming_json :: "runtime \<Rightarrow> incoming_packet \<Rightarrow> thrown + json option" where
  "incoming_json rt p =
     (case pkt_data p of
        None \<Rightarrow> Inr None
      | Some d \<Rightarrow>
          (case json_parse rt (strip_trailing_nuls (utf8_string d)) of
             Inl e \<Rightarrow> Inl e
           | Inr j \<Rightarrow> Inr (Some j)))"

subsection \<open>Header layout\<close>

lemma length_initial_header [simp]: "length initial_header = 32"
  by (simp add: initial_header_def HEADER_SIZE_def u16be_def)

lemma BasePacket_header: "BasePacket rt t = Inr b \<Longrightarrow> pkt_header b = initial_header"
  by (auto simp: BasePacket_def Let_def split: option.splits if_splits)

lemma BasePacket_Some:
  "length (token_bytes t) = 16 \<Longrightarrow>
    BasePacket rt (Some t) = Inr \<lparr>pkt_header = initial_header, pkt_token = Some (token_bytes t),
      pkt_tokenKey = Some (md5 rt (token_bytes t)),
      pkt_tokenIV = Some (md5 rt (md5 rt (token_bytes t) @ token_bytes t))\<rparr>"
  by (simp add: BasePacket_def Let_def)

lemma BasePacket_bad_token:
  "length (token_bytes t) \<noteq> 16 \<Longrightarrow> \<exists>e. BasePacket rt (Some t) = Inl e"
  by (simp add: BasePacket_def Let_def)

definition u32_ok :: "int \<Rightarrow> bool" where
  "u32_ok v \<longleftrightarrow> 0 \<le> v \<and> v \<le> 4294967295"

lemma writeUInt32BE_ok: "u32_ok v \<Longrightarrow> writeUInt32BE v off buf = Inr (put_bytes off (u32be v) buf)"
  by (simp add: u32_ok_def writeUInt32BE_def)

lemma writeUInt32BE_bad: "\<not> u32_ok v \<Longrightarrow> writeUInt32BE v off buf = Inl out_of_range"
  by (auto simp: u32_ok_def writeUInt32BE_def)

lemma read_u32be_other:
  assumes "off + length bs \<le> length buf" and "i + 4 \<le> length buf"
    and "i + 4 \<le> off \<or> off + length bs \<le> i"
  shows "readUInt32BE (put_bytes off bs buf) i = readUInt32BE buf i"
  using assms by (auto simp: readUInt32BE_def nth_put_bytes)

text \<open>The header fields of a command packet.\<close>

definition command_header :: "int \<Rightarrow> int \<Rightarrow> byte list" where
  "command_header deviceId stamp = put_bytes 12 (u32be stamp) (put_bytes 8 (u32be deviceId) initial_header)"

lemma length_command_header [simp]: "length (command_header d s) = 32"
  by (simp add: command_header_def)

lemma read_command_header:
  assumes "u32_ok d" and "u32_ok s"
  shows "readUInt32BE (command_header d s) 8 = d" and "readUInt32BE (command_header d s) 12 = s"
  using assms by (simp_all add: command_header_def u32_ok_def read_u32be read_u32be_other)

lemma OutgoingPacket_command:
  assumes "length (token_bytes t) = 16" and "u32_ok d" and "u32_ok s"
  shows "OutgoingPacket rt now (Some \<lparr>cfg_token = Some t, cfg_payload = Some pl,
      cfg_deviceId = Some d, cfg_stamp = Some s\<rparr>)
    = Inr \<lparr>pkt_header = command_header d s, pkt_token = Some (token_bytes t),
        pkt_tokenKey = Some (md5 rt (token_bytes t)),
        pkt_tokenIV = Some (md5 rt (md5 rt (token_bytes t) @ token_bytes t)),
        pkt_payload = Some (inject_id now pl)\<rparr>"
  using assms
  by (simp add: OutgoingPacket_def BasePacket_Some write_optional_def writeUInt32BE_ok
      command_header_def base_packet.defs)

text \<open>The finished header of a command packet, and the buffer sent.\<close>

definition sealed_header :: "runtime \<Rightarrow> byte list \<Rightarrow> byte list \<Rightarrow> byte list \<Rightarrow> byte list" where
  "sealed_header rt token encrypted h =
     (let h2 = put_bytes 2 (u16be (int HEADER_SIZE + int (length encrypted))) (put_bytes 4 (u32be 0) h)
      in put_bytes 16 (take 16 (md5 rt (subarray 0 16 h2 @ token @ encrypted))) h2)"

lemma buildCommandPacket_eq:
  assumes "pkt_token p = Some token" and "pkt_tokenKey p = Some key" and "pkt_tokenIV p = Some iv"
    and "encrypted = aes_cbc_encrypt rt key iv (utf8_bytes (json_stringify rt (JObj pl)))"
  shows "buildCommandPacket rt p pl =
     (if length encrypted \<le> 65503
      then Inr (p\<lparr>pkt_header := sealed_header rt token encrypted (pkt_header p)\<rparr>,
                sealed_header rt token encrypted (pkt_header p) @ encrypted)
      else Inl out_of_range)"
  using assms
  by (auto simp: buildCommandPacket_def sealed_header_def writeUInt32BE_def writeUInt16BE_def
      Let_def HEADER_SIZE_def)

lemma sealed_header_facts:
  assumes "length h = 32" and "length (md5 rt (subarray 0 16 (put_bytes 2 (u16be (int HEADER_SIZE + int (length enc))) (put_bytes 4 (u32be 0) h)) @ token @ enc)) = 16"
  shows "length (sealed_header rt token enc h) = 32"
    and "subarray 16 32 (sealed_header rt token enc h)
      = md5 rt (subarray 0 16 (sealed_header rt token enc h) @ token @ enc)"
    and "readUInt32BE (sealed_header rt token enc h) 8 = readUInt32BE h 8"
    and "readUInt32BE (sealed_header rt token enc h) 12 = readUInt32BE h 12"
proof -
  let ?h2 = "put_bytes 2 (u16be (int HEADER_SIZE + int (length enc))) (put_bytes 4 (u32be 0) h)"
  let ?d = "md5 rt (subarray 0 16 ?h2 @ token @ enc)"
  have eq: "sealed_header rt token enc h = put_bytes 16 ?d ?h2"
    using assms(2) by (simp add: sealed_header_def Let_def)
  have l2: "length ?h2 = 32" using assms(1) by simp
  show "length (sealed_header rt token enc h) = 32" using l2 assms(2) by (simp add: eq)
  have "subarray 0 16 (put_bytes 16 ?d ?h2) = subarray 0 16 ?h2"
    using l2 by (simp add: subarray_def take_put_bytes_before)
  moreover have "subarray 16 32 (put_bytes 16 ?d ?h2) = ?d"
    using subarray_put_bytes [of 16 ?d ?h2] l2 assms(2) by simp
  ultimately show "subarray 16 32 (sealed_header rt token enc h)
      = md5 rt (subarray 0 16 (sealed_header rt token enc h) @ token @ enc)"
    by (simp add: eq)
  show "readUInt32BE (sealed_header rt token enc h) 8 = readUInt32BE h 8"
    "readUInt32BE (sealed_header rt token enc h) 12 = readUInt32BE h 12"
    using assms by (simp_all add: eq read_u32be_other)
qed

lemma put_bytes_same:
  assumes "off + length bs \<le> length buf" and "subarray off (off + length bs) buf = bs"
  shows "put_bytes off bs buf = buf"
  using assms(1) by (subst assms(2) [symmetric], simp add: put_bytes_def subarray_def)
    (metis add.commute append_take_drop_id drop_drop)

lemma subarray_put_bytes_other:
  assumes "off + length bs \<le> length buf" and "b \<le> off \<or> off + length bs \<le> a" and "b \<le> length buf"
  shows "subarray a b (put_bytes off bs buf) = subarray a b buf"
  using assms by (auto intro!: nth_equalityI simp: subarray_def nth_put_bytes)

lemma sealed_header_idem:
  assumes "length h = 32"
  shows "sealed_header rt token enc (sealed_header rt token enc h) = sealed_header rt token enc h"
proof -
  let ?len = "u16be (int HEADER_SIZE + int (length enc))"
  let ?h2 = "put_bytes 2 ?len (put_bytes 4 (u32be 0) h)"
  let ?d = "take 16 (md5 rt (subarray 0 16 ?h2 @ token @ enc))"
  let ?h3 = "put_bytes 16 ?d ?h2"
  have l: "length ?h2 = 32" "length ?h3 = 32" using assms by simp_all
  have zeros: "subarray 4 8 ?h3 = u32be 0"
    using assms subarray_put_bytes [of 4 "u32be 0" h] by (simp add: subarray_put_bytes_other)
  have len: "subarray 2 4 ?h3 = ?len"
    using assms subarray_put_bytes [of 2 ?len "put_bytes 4 (u32be 0) h"] by (simp add: subarray_put_bytes_other)
  have same: "put_bytes 2 ?len (put_bytes 4 (u32be 0) ?h3) = ?h3"
    using zeros len l(2) by (simp add: put_bytes_same)
  have pre: "subarray 0 16 ?h3 = subarray 0 16 ?h2"
    using l by (simp add: subarray_put_bytes_other)
  have dig: "subarray 16 (16 + length ?d) ?h3 = ?d"
    using l by (intro subarray_put_bytes) simp
  have "put_bytes 16 ?d ?h3 = ?h3"
    using dig l(2) by (intro put_bytes_same) auto
  then show ?thesis
    unfolding sealed_header_def Let_def same pre .
qed

subsection \<open>What the transport puts on the wire\<close>

definition hello_raw :: "runtime \<Rightarrow> int \<Rightarrow> thrown + byte list" where
  "hello_raw rt now_ms =
     (case OutgoingPacket rt now_ms None of
        Inl e \<Rightarrow> Inl e
      | Inr p \<Rightarrow> (case outgoing_raw rt p of Inl e \<Rightarrow> Inl e | Inr (_, buf) \<Rightarrow> Inr buf))"

definition command_raw ::
  "runtime \<Rightarrow> int \<Rightarrow> token_input \<Rightarrow> int \<Rightarrow> int \<Rightarrow> (string \<times> json) list \<Rightarrow> thrown + byte list" where
  "command_raw rt now_ms token deviceId stamp payload =
     (case OutgoingPacket rt now_ms (Some \<lparr>cfg_token = Some token, cfg_payload = Some payload,
             cfg_deviceId = Some deviceId, cfg_stamp = Some stamp\<rparr>) of
        Inl e \<Rightarrow> Inl e
      | Inr p \<Rightarrow> (case outgoing_raw rt p of Inl e \<Rightarrow> Inl e | Inr (_, buf) \<Rightarrow> Inr buf))"

lemma command_raw_bad_stamp:
  assumes "length (token_bytes t) = 16" and "u32_ok d" and "\<not> u32_ok s"
  shows "command_raw rt now t d s pl = Inl out_of_range"
  using assms by (simp add: command_raw_def OutgoingPacket_def BasePacket_Some write_optional_def
      writeUInt32BE_ok writeUInt32BE_bad)

text \<open>
  Property C6. A command packet the bridge builds is read back by the device-side parser with the
  same key: \<open>IncomingPacket\<close> accepts the checksum and yields the device id, the stamp and the JSON
  payload, with the \<open>id\<close> injected. MD5 digests have 16 bytes, AES decryption inverts encryption,
  padding makes a ciphertext non-empty, and the JSON text parses back.
\<close>

theorem packet_roundtrip:
  assumes token: "length (token_bytes t) = 16" and d: "u32_ok d" and s: "u32_ok s"
    and md5: "\<And>x. length (md5 rt x) = 16"
    and aes: "\<And>k iv x. length k = 16 \<Longrightarrow> length iv = 16 \<Longrightarrow>
      aes_cbc_decrypt rt k iv (aes_cbc_encrypt rt k iv x) = Inr x \<and> aes_cbc_encrypt rt k iv x \<noteq> []"
    and fits: "\<And>k iv. length (aes_cbc_encrypt rt k iv (utf8_bytes (json_stringify rt (JObj (inject_id now pl))))) \<le> 65503"
    and json: "json_parse rt (strip_trailing_nuls (json_stringify rt (JObj (inject_id now pl)))) = Inr (JObj (inject_id now pl))"
  shows "\<exists>buf p. command_raw rt now t d s pl = Inr buf \<and> IncomingPacket rt buf t = Inr p
    \<and> packet_deviceId p = d \<and> packet_stamp p = s
    \<and> incoming_json rt p = Inr (Some (JObj (inject_id now pl)))"
proof -
  let ?tok = "token_bytes t"
  let ?key = "md5 rt ?tok"
  let ?iv = "md5 rt (?key @ ?tok)"
  let ?plain = "utf8_bytes (json_stringify rt (JObj (inject_id now pl)))"
  let ?enc = "aes_cbc_encrypt rt ?key ?iv ?plain"
  let ?h = "sealed_header rt ?tok ?enc (command_header d s)"
  note facts = sealed_header_facts [of "command_header d s" rt ?enc ?tok, OF length_command_header md5]
  have raw: "command_raw rt now t d s pl = Inr (?h @ ?enc)"
    using fits [of ?key ?iv] token d s
    by (simp add: command_raw_def OutgoingPacket_command outgoing_raw_def buildCommandPacket_eq)
  let ?p = "\<lparr>pkt_header = ?h, pkt_token = Some ?tok, pkt_tokenKey = Some ?key, pkt_tokenIV = Some ?iv,
      pkt_data = Some ?plain\<rparr>"
  have inc: "IncomingPacket rt (?h @ ?enc) t = Inr ?p"
    using facts(1,2) aes [of ?key ?iv ?plain] md5 token
    by (simp add: IncomingPacket_def BasePacket_Some parseAndDecrypt_def HEADER_SIZE_def
        packet_checksum_def base_packet.defs)
  have "packet_deviceId ?p = d" "packet_stamp ?p = s"
    using facts(3,4) d s by (simp_all add: packet_deviceId_def packet_stamp_def read_command_header)
  moreover have "incoming_json rt ?p = Inr (Some (JObj (inject_id now pl)))"
    using json by (simp add: incoming_json_def)
  ultimately show ?thesis using raw inc by blast
qed

definition sample_runtime :: runtime where
  "sample_runtime = \<lparr>md5 = (\<lambda>x. take 16 (x @ replicate 16 0)), aes_cbc_encrypt = (\<lambda>k iv x. 1 # x),
     aes_cbc_decrypt = (\<lambda>k iv x. Inr (tl x)), json_stringify = show_js,
     json_parse = (\<lambda>s. Inr (JObj [(''id'', JNum 5), (''method'', JStr ''action'')]))\<rparr>"

lemma packet_roundtrip_witness:
  "\<exists>buf p. command_raw sample_runtime 5000 (BufferToken (replicate 16 7)) 1234 52460 [(''method'', JStr ''action'')] = Inr buf
    \<and> IncomingPacket sample_runtime buf (BufferToken (replicate 16 7)) = Inr p
    \<and> packet_deviceId p = 1234 \<and> packet_stamp p = 52460
    \<and> incoming_json sample_runtime p = Inr (Some (JObj (inject_id 5000 [(''method'', JStr ''action'')])))"
  by (rule packet_roundtrip)
    (simp_all add: sample_runtime_def u32_ok_def inject_id_def obj_spread_def utf8_bytes_def)

text \<open>
  Property C7. A response is only decrypted when it is authentic: whenever \<open>IncomingPacket\<close> yields
  data, bytes 16 to 31 of the datagram are the MD5 of its first 16 bytes, the device token and the
  ciphertext, and the data is the ciphertext decrypted under the keys derived from that token.
\<close>

theorem incoming_authentic:
  assumes "IncomingPacket rt msg t = Inr p" and "pkt_data p = Some x"
  shows "length (token_bytes t) = 16 \<and> 32 < length msg
    \<and> subarray 16 32 msg = md5 rt (take 16 msg @ token_bytes t @ drop 32 msg)
    \<and> aes_cbc_decrypt rt (md5 rt (token_bytes t)) (md5 rt (md5 rt (token_bytes t) @ token_bytes t)) (drop 32 msg) = Inr x"
proof -
  have len: "length (token_bytes t) = 16"
    using assms(1) by (auto simp: IncomingPacket_def BasePacket_def Let_def split: if_splits)
  let ?b = "\<lparr>pkt_header = initial_header, pkt_token = Some (token_bytes t),
      pkt_tokenKey = Some (md5 rt (token_bytes t)),
      pkt_tokenIV = Some (md5 rt (md5 rt (token_bytes t) @ token_bytes t))\<rparr>"
  obtain b' where "parseAndDecrypt rt ?b msg = Inr (b', Some x)"
    using assms len by (auto simp: IncomingPacket_def BasePacket_Some base_packet.defs split: sum.splits)
  then have "32 \<le> length msg" "drop 32 msg \<noteq> []"
    and "subarray 16 32 (take 32 msg) = md5 rt (subarray 0 16 (take 32 msg) @ token_bytes t @ drop 32 msg)"
    and dec: "aes_cbc_decrypt rt (md5 rt (token_bytes t)) (md5 rt (md5 rt (token_bytes t) @ token_bytes t)) (drop 32 msg) = Inr x"
    by (auto simp: parseAndDecrypt_def Let_def HEADER_SIZE_def packet_checksum_def split: if_splits sum.splits)
  moreover have "subarray 16 32 (take 32 msg) = subarray 16 32 msg" "subarray 0 16 (take 32 msg) = take 16 msg"
    by (simp_all add: subarray_def take_drop min_def)
  ultimately show ?thesis using len by auto
qed

lemma sample_decrypt: "aes_cbc_decrypt sample_runtime k iv x = Inr (tl x)"
  by (simp add: sample_runtime_def)

definition sample_response :: "byte list" where
  "sample_response = sealed_header sample_runtime (replicate 16 7) [1, 2] (command_header 1 2) @ [1, 2]"

lemma incoming_authentic_witness:
  "\<exists>p. IncomingPacket sample_runtime sample_response (BufferToken (replicate 16 7)) = Inr p \<and> pkt_data p = Some [2]
    \<and> subarray 16 32 sample_response
      = md5 sample_runtime (take 16 sample_response @ replicate 16 7 @ drop 32 sample_response)"
proof -
  let ?t = "BufferToken (replicate 16 7)"
  let ?h = "sealed_header sample_runtime (replicate 16 7) [1, 2] (command_header 1 2)"
  have md5: "length (md5 sample_runtime x) = 16" for x by (simp add: sample_runtime_def)
  note facts = sealed_header_facts [of "command_header 1 2" sample_runtime "[1, 2]" "replicate 16 7",
      OF length_command_header md5]
  have "\<exists>p. IncomingPacket sample_runtime (?h @ [1, 2]) ?t = Inr p \<and> pkt_data p = Some [2]"
    using facts(1,2) by (simp add: IncomingPacket_def BasePacket_Some parseAndDecrypt_def HEADER_SIZE_def
        packet_checksum_def base_packet.defs sample_decrypt)
  then obtain p where p: "IncomingPacket sample_runtime sample_response ?t = Inr p" "pkt_data p = Some [2]"
    by (auto simp: sample_response_def)
  show ?thesis using p incoming_authentic [OF p] by auto
qed

text \<open>
  Reading \<open>raw\<close> has an effect on the packet's header but is idempotent: a packet whose
  bytes were already taken yields the same bytes again and is unchanged by it.
\<close>

theorem outgoing_raw_idempotent:
  assumes "length (pkt_header p) = 32" and "outgoing_raw rt p = Inr (p', buf)"
  shows "outgoing_raw rt p' = Inr (p', buf)"
proof (cases "pkt_payload p")
  case None
  with assms have p': "p' = p\<lparr>pkt_header := put_bytes 2 (u16be 32) (pkt_header p)\<rparr>"
    and buf: "buf = put_bytes 2 (u16be 32) (pkt_header p)"
    by (auto simp: outgoing_raw_def writeUInt16BE_def HEADER_SIZE_def)
  have "put_bytes 2 (u16be 32) buf = buf"
    using assms(1) subarray_put_bytes [of 2 "u16be 32" "pkt_header p"]
    by (intro put_bytes_same) (simp_all add: buf)
  with None p' buf show ?thesis by (simp add: outgoing_raw_def writeUInt16BE_def HEADER_SIZE_def)
next
  case (Some pl)
  with assms(2) obtain token key iv where k: "pkt_token p = Some token" "pkt_tokenKey p = Some key" "pkt_tokenIV p = Some iv"
    by (auto simp: outgoing_raw_def buildCommandPacket_def split: option.splits)
  note build = buildCommandPacket_eq [where encrypted = "aes_cbc_encrypt rt key iv (utf8_bytes (json_stringify rt (JObj pl)))"]
  from assms(2) Some k show ?thesis
    by (auto simp: outgoing_raw_def build [where token = token and key = key and iv = iv]
        sealed_header_idem [OF assms(1)] split: if_splits)
qed

lemma outgoing_raw_idempotent_witness:
  "outgoing_raw sample_runtime
      \<lparr>pkt_header = put_bytes 2 (u16be 32) initial_header, pkt_token = None, pkt_tokenKey = None,
       pkt_tokenIV = None, pkt_payload = None\<rparr>
    = Inr (\<lparr>pkt_header = put_bytes 2 (u16be 32) initial_header, pkt_token = None, pkt_tokenKey = None,
        pkt_tokenIV = None, pkt_payload = None\<rparr>, put_bytes 2 (u16be 32) initial_header)"
  by (rule outgoing_raw_idempotent [of "\<lparr>pkt_header = initial_header, pkt_token = None,
        pkt_tokenKey = None, pkt_tokenIV = None, pkt_payload = None\<rparr>"])
    (simp_all add: outgoing_raw_def writeUInt16BE_def HEADER_SIZE_def)

lemma magic_bytes: "u16be MAGIC = [0x21, 0x31]" "u16be (int HEADER_SIZE) = [0x00, 0x20]"
  by (simp_all only: u16be_def MAGIC_def HEADER_SIZE_def list.inject word_uint_eq_iff uint_byte) simp_all

lemma u16be_32: "u16be 32 = [0x00, 0x20]"
  using magic_bytes(2) by (simp add: HEADER_SIZE_def)

lemma initial_header_bytes: "initial_header = [0x21, 0x31, 0x00, 0x00] @ replicate 28 0xFF"
proof -
  have "replicate 32 (0 :: byte) = 0 # 0 # 0 # 0 # replicate 28 0"
    by (simp add: replicate_Suc [symmetric] del: replicate_Suc)
  then show ?thesis by (simp add: initial_header_def put_bytes_def magic_bytes HEADER_SIZE_def)
qed

text \<open>
  The hello packet is the fixed 32-byte datagram of the protocol: the magic number,
  the length 0x0020, and 28 bytes 0xFF.
\<close>

theorem hello_raw_bytes:
  "hello_raw rt now = Inr ([0x21, 0x31, 0x00, 0x20] @ replicate 28 0xFF)"
  by (simp add: hello_raw_def OutgoingPacket_def BasePacket_def outgoing_raw_def writeUInt16BE_def
      base_packet.defs put_bytes_def u16be_32 initial_header_bytes HEADER_SIZE_def)

text \<open>
  A hello response is accepted exactly when it has a whole header and the magic
  number; the device id and the stamp read from it are unsigned 32-bit values, so the stamp can be
  written back into a command packet unchanged.
\<close>

theorem parseHello_range:
  "(case parseHello msg of
      Inl e \<Rightarrow> (length msg < 32 \<or> take 2 msg \<noteq> [0x21, 0x31]) \<and> \<not> is_miot_error e
    | Inr i \<Rightarrow> 32 \<le> length msg \<and> take 2 msg = [0x21, 0x31] \<and> u32_ok (hello_deviceId i) \<and> u32_ok (hello_stamp i)
        \<and> length (hello_token i) = 16)"
proof -
  have u: "u32_ok (readUInt32BE buf i)" for buf i
  proof -
    have b: "0 \<le> uint b \<and> uint b \<le> 255" for b :: byte
      using uint_lt2p [of b] by simp
    show ?thesis
      using b [of "buf ! i"] b [of "buf ! (i + 1)"] b [of "buf ! (i + 2)"] b [of "buf ! (i + 3)"]
      unfolding u32_ok_def readUInt32BE_def by linarith
  qed
  have magic: "readUInt16BE msg 0 = MAGIC \<longleftrightarrow> take 2 msg = [0x21, 0x31]" if len: "32 \<le> length msg"
  proof -
    obtain a b r where m: "msg = a # b # r"
      using len by (cases msg; cases "tl msg") auto
    have ab: "uint a * 256 + uint b = 8497 \<longleftrightarrow> uint a = 33 \<and> uint b = 49"
    proof -
      have "x * 256 + y = 8497 \<longleftrightarrow> x = 33 \<and> y = 49" if y: "0 \<le> y" "y < 256" for x y :: int
      proof
        assume e: "x * 256 + y = 8497"
        then have "x = 33" using y by linarith
        with e show "x = 33 \<and> y = 49" by linarith
      qed simp
      then show ?thesis using uint_lt2p [of b] by simp
    qed
    show ?thesis by (simp only: m readUInt16BE_def MAGIC_def nth_Cons_0 add_0 One_nat_def nth_Cons_Suc)
        (simp only: ab take_Suc_Cons numeral_2_eq_2 take_0 list.inject word_uint_eq_iff; simp)
  qed
  show ?thesis
  proof (cases "length msg < 32")
    case True
    then show ?thesis by (simp add: parseHello_def HEADER_SIZE_def)
  next
    case False
    then have len: "32 \<le> length msg" "\<not> length msg < 32" by simp_all
    then have tok: "length (subarray 16 32 msg) = 16" by (simp add: subarray_def)
    show ?thesis
    proof (cases "take 2 msg = [0x21, 0x31]")
      case True
      with len(1) have "readUInt16BE msg 0 = MAGIC" using magic by blast
      then have "parseHello msg = Inr \<lparr>hello_deviceId = readUInt32BE msg 8, hello_stamp = readUInt32BE msg 12,
          hello_token = subarray 16 32 msg\<rparr>"
        using len(2) unfolding parseHello_def HEADER_SIZE_def Let_def by presburger
      with u len(1) tok True show ?thesis by simp
    next
      case False
      with len(1) have "readUInt16BE msg 0 \<noteq> MAGIC" using magic by blast
      then have "\<exists>m. parseHello msg = Inl (JsError ''Error'' m)"
        using len(2) unfolding parseHello_def HEADER_SIZE_def Let_def by metis
      with False show ?thesis by (elim exE) (simp del: One_nat_def)
    qed
  qed
qed

end
