(* ===== verification/Auth.thy ===== *)
theory Auth
  imports Auth_Config Miot_Packet
begin

text \<open>
  \<^verbatim>\<open>packages/auth\<close>: key sources, the JWT verifier and the authenticator that runs a chain of verifiers.
  The JOSE library is a parameter: decoding a token, verifying a signature with its claims, importing
  a PEM key and resolving a key in a remote key set, as it answers at the time of the call. So is
  the string predicate of the utilities package.
\<close>

datatype 'k verification_key = Secret_Bytes "byte list" | Imported_Key 'k

datatype jwt_failure = Claim_Failed string string | Jwt_Failed string

datatype jwks_failure = No_Matching_Key string | Multiple_Matching_Keys string | Jwks_Failed thrown

record jwks_resolver =
  rv_uri :: string
  rv_authenticated :: bool
  rv_timeoutDuration :: int
  rv_cooldownDuration :: int
  rv_cacheMaxAge :: int

record 'k auth_env =
  ae_decodeJwt :: "string \<Rightarrow> thrown + (string \<times> json) list"
  ae_decodeHeader :: "string \<Rightarrow> thrown + (string option \<times> string option)"
  ae_jwtVerify :: "string \<Rightarrow> 'k verification_key \<Rightarrow> string \<Rightarrow> string \<Rightarrow> string list \<Rightarrow> jwt_failure + (string \<times> json) list"
  ae_importSPKI :: "string \<Rightarrow> string \<Rightarrow> thrown + 'k"
  ae_resolve :: "jwks_resolver \<Rightarrow> string option \<Rightarrow> string option \<Rightarrow> jwks_failure + 'k"
  ae_isNotEmpty :: "string \<Rightarrow> bool"

text \<open>\<^verbatim>\<open>new Map(entries).get(key)\<close>: the last entry of a key wins.\<close>

definition map_get :: "('k \<times> 'v) list \<Rightarrow> 'k \<Rightarrow> 'v option" where
  "map_get entries k = map_of (rev entries) k"

lemma map_get_SomeD: "map_get entries k = Some v \<Longrightarrow> (k, v) \<in> set entries"
  unfolding map_get_def using map_of_SomeD by fastforce

subsection \<open>Where a credential comes from\<close>

type_synonym credential_source = "string \<Rightarrow> string option"

definition credentialSourceOf :: "(string \<times> string option) list \<Rightarrow> credential_source" where
  "credentialSourceOf headers =
     (\<lambda>name. Option.bind (map_get (map (\<lambda>(k, v). (to_lower k, v)) headers) (to_lower name)) id)"

text \<open>\<^verbatim>\<open>s.split(/\s+/)\<close>\<close>

function split_ws :: "string \<Rightarrow> string list" where
  "split_ws s =
     (case dropWhile (\<lambda>c. \<not> is_space c) s of
        [] \<Rightarrow> [takeWhile (\<lambda>c. \<not> is_space c) s]
      | rest \<Rightarrow> takeWhile (\<lambda>c. \<not> is_space c) s # split_ws (dropWhile is_space rest))"
  by pat_completeness auto
termination
proof (relation "measure length")
  fix s :: string and c cs
  assume e: "dropWhile (\<lambda>c. \<not> is_space c) s = c # cs"
  then have "is_space c" by (metis dropWhile_eq_Cons_conv)
  then have "length (dropWhile is_space (c # cs)) \<le> length cs" by (simp add: length_dropWhile_le)
  moreover have "length (c # cs) \<le> length s" using length_dropWhile_le [of "\<lambda>c. \<not> is_space c" s] e by simp
  ultimately show "(dropWhile is_space (c # cs), s) \<in> measure length" by simp
qed simp

declare split_ws.simps [simp del]

definition jwt_extract :: "'k auth_env \<Rightarrow> credential_source \<Rightarrow> string option" where
  "jwt_extract env source =
     (case source ''authorization'' of
        None \<Rightarrow> None
      | Some header \<Rightarrow>
          if \<not> ae_isNotEmpty env header then None
          else (case split_ws (trim header) of
              [] \<Rightarrow> None
            | scheme # rest \<Rightarrow> if to_lower scheme \<noteq> ''bearer'' \<or> rest = [] then None else Some (join '' '' rest)))"

subsection \<open>Key sources\<close>

record key_lookup =
  kl_issuer :: string
  kl_kid :: "string option"
  kl_algorithm :: "string option"

datatype key_failure = Unresolvable string | Unavailable thrown

definition static_rows :: "trusted_issuer list \<Rightarrow> (string \<times> static_key) list" where
  "static_rows issuers =
     List.map_filter (\<lambda>row. case ti_key row of Static_Key k \<Rightarrow> Some (ti_issuer row, k) | Jwks_Key _ \<Rightarrow> None) issuers"

definition static_handles :: "trusted_issuer list \<Rightarrow> string \<Rightarrow> bool" where
  "static_handles issuers issuer \<longleftrightarrow> map_get (static_rows issuers) issuer \<noteq> None"

definition import_static :: "'k auth_env \<Rightarrow> static_key \<Rightarrow> thrown + 'k verification_key" where
  "import_static env key =
     (if starts_with ''HS'' (sk_algorithm key) then Inr (Secret_Bytes (utf8_bytes (sk_value key)))
      else (case ae_importSPKI env (sk_value key) (sk_algorithm key) of
          Inl e \<Rightarrow> Inl e | Inr k \<Rightarrow> Inr (Imported_Key k)))"

text \<open>The cache of imported keys, by issuer.\<close>

type_synonym 'k import_cache = "(string, 'k verification_key) js_map"

definition cached_import ::
  "'k auth_env \<Rightarrow> (string \<Rightarrow> static_key) \<Rightarrow> string \<Rightarrow> 'k import_cache \<Rightarrow> (thrown + 'k verification_key) \<times> 'k import_cache" where
  "cached_import env key_of issuer cache =
     (case map_of cache issuer of
        Some k \<Rightarrow> (Inr k, cache)
      | None \<Rightarrow>
          (case import_static env (key_of issuer) of
             Inl e \<Rightarrow> (Inl e, cache)
           | Inr k \<Rightarrow> (Inr k, AList.update issuer k cache)))"

definition static_getKey_cached ::
  "'k auth_env \<Rightarrow> trusted_issuer list \<Rightarrow> key_lookup \<Rightarrow> 'k import_cache
     \<Rightarrow> (key_failure + 'k verification_key) \<times> 'k import_cache" where
  "static_getKey_cached env issuers lookup cache =
     (case map_get (static_rows issuers) (kl_issuer lookup) of
        None \<Rightarrow> (Inl (Unresolvable (''No static key configured for issuer '' @ kl_issuer lookup @ ''.'')), cache)
      | Some key \<Rightarrow>
          (case kl_algorithm lookup of
             Some alg \<Rightarrow>
               if alg \<noteq> sk_algorithm key
               then (Inl (Unresolvable (''Issuer '' @ kl_issuer lookup @ '' is configured for '' @ sk_algorithm key
                       @ '', token used '' @ alg @ ''.'')), cache)
               else (case cached_import env (\<lambda>_. key) (kl_issuer lookup) cache of
                   (Inl e, c) \<Rightarrow> (Inl (Unavailable e), c) | (Inr k, c) \<Rightarrow> (Inr k, c))
           | None \<Rightarrow> (case cached_import env (\<lambda>_. key) (kl_issuer lookup) cache of
                   (Inl e, c) \<Rightarrow> (Inl (Unavailable e), c) | (Inr k, c) \<Rightarrow> (Inr k, c))))"

text \<open>The same lookup as a function: what it answers does not depend on the cache.\<close>

definition static_getKey :: "'k auth_env \<Rightarrow> trusted_issuer list \<Rightarrow> key_lookup \<Rightarrow> key_failure + 'k verification_key" where
  "static_getKey env issuers lookup = fst (static_getKey_cached env issuers lookup [])"

definition jwks_rows :: "trusted_issuer list \<Rightarrow> (string \<times> jwks_key) list" where
  "jwks_rows issuers =
     List.map_filter (\<lambda>row. case ti_key row of Jwks_Key k \<Rightarrow> Some (ti_issuer row, k) | Static_Key _ \<Rightarrow> None) issuers"

definition resolverFor :: "jwks_key \<Rightarrow> jwks_resolver" where
  "resolverFor key =
     \<lparr>rv_uri = jk_uri key, rv_authenticated = (jk_auth key = Jwks_ServiceAccountToken),
      rv_timeoutDuration = jk_timeoutMs key, rv_cooldownDuration = jk_refreshCooldownMs key,
      rv_cacheMaxAge = jk_cacheTtlSeconds key * 1000\<rparr>"

text \<open>
  The fetch of a key set behind the apiserver: the projected token is read for every fetch, so one that the kubelet
  has rotated is the one that is sent. Header names are lower case.
\<close>

definition readProjectedToken :: "('w \<Rightarrow> (thrown + string) \<times> 'w) \<Rightarrow> 'w \<Rightarrow> (thrown + string) \<times> 'w" where
  "readProjectedToken readFile w = (case readFile w of (Inl e, w') \<Rightarrow> (Inl e, w') | (Inr t, w') \<Rightarrow> (Inr (trim t), w'))"

definition serviceAccountFetch ::
  "('w \<Rightarrow> (thrown + string) \<times> 'w) \<Rightarrow> ((string, string) js_map \<Rightarrow> 'w \<Rightarrow> (thrown + 'r) \<times> 'w) \<Rightarrow> (string, string) js_map
     \<Rightarrow> 'w \<Rightarrow> (thrown + 'r) \<times> 'w" where
  "serviceAccountFetch readToken fetch headers w = (case readToken w of
       (Inl e, w') \<Rightarrow> (Inl e, w')
     | (Inr t, w') \<Rightarrow> fetch (AList.update ''authorization'' (''Bearer '' @ t) headers) w')"

lemma fetched_with_current_token:
  assumes "readFile w = (Inr t, w)"
  shows "\<exists>headers'. serviceAccountFetch (readProjectedToken readFile) fetch headers w = fetch headers' w
    \<and> map_of headers' = (map_of headers)(''authorization'' \<mapsto> ''Bearer '' @ trim t)"
  using assms by (auto simp: serviceAccountFetch_def readProjectedToken_def update_conv')

definition remote_handles :: "trusted_issuer list \<Rightarrow> string \<Rightarrow> bool" where
  "remote_handles issuers issuer \<longleftrightarrow> issuer \<in> set (map fst (jwks_rows issuers))"

definition remote_getKey :: "'k auth_env \<Rightarrow> trusted_issuer list \<Rightarrow> key_lookup \<Rightarrow> key_failure + 'k verification_key" where
  "remote_getKey env issuers lookup =
     (case map_get (jwks_rows issuers) (kl_issuer lookup) of
        None \<Rightarrow> Inl (Unresolvable (''No JWKS configured for issuer '' @ kl_issuer lookup @ ''.''))
      | Some key \<Rightarrow>
          (case ae_resolve env (resolverFor key) (kl_algorithm lookup) (kl_kid lookup) of
             Inr k \<Rightarrow> Inr (Imported_Key k)
           | Inl (No_Matching_Key m) \<Rightarrow> Inl (Unresolvable m)
           | Inl (Multiple_Matching_Keys m) \<Rightarrow> Inl (Unresolvable m)
           | Inl (Jwks_Failed e) \<Rightarrow> Inl (Unavailable e)))"

definition composite_handles :: "trusted_issuer list \<Rightarrow> string \<Rightarrow> bool" where
  "composite_handles issuers issuer \<longleftrightarrow> static_handles issuers issuer \<or> remote_handles issuers issuer"

definition composite_getKey :: "'k auth_env \<Rightarrow> trusted_issuer list \<Rightarrow> key_lookup \<Rightarrow> key_failure + 'k verification_key" where
  "composite_getKey env issuers lookup =
     (if static_handles issuers (kl_issuer lookup) then static_getKey env issuers lookup
      else if remote_handles issuers (kl_issuer lookup) then remote_getKey env issuers lookup
      else Inl (Unresolvable (''No key source configured for issuer '' @ kl_issuer lookup @ ''.'')))"

text \<open>What the verifier relies on: an issuer a source does not handle is the credential's fault.\<close>

locale key_source =
  fixes handles :: "string \<Rightarrow> bool"
    and getKey :: "key_lookup \<Rightarrow> key_failure + 'k verification_key"
  assumes unhandled: "\<not> handles (kl_issuer l) \<Longrightarrow> \<exists>m. getKey l = Inl (Unresolvable m)"
begin

lemma available_handled: "getKey l = Inr k \<Longrightarrow> handles (kl_issuer l)"
  using unhandled [of l] by auto

lemma outage_handled: "getKey l = Inl (Unavailable e) \<Longrightarrow> handles (kl_issuer l)"
  using unhandled [of l] by auto

end

interpretation static_source: key_source "static_handles issuers" "static_getKey env issuers" for issuers env
  by unfold_locales (simp add: static_handles_def static_getKey_def static_getKey_cached_def)

interpretation remote_source: key_source "remote_handles issuers" "remote_getKey env issuers" for issuers env
proof
  fix l :: key_lookup assume "\<not> remote_handles issuers (kl_issuer l)"
  then have "map_get (jwks_rows issuers) (kl_issuer l) = None"
    unfolding remote_handles_def map_get_def map_of_eq_None_iff by simp
  then show "\<exists>m. remote_getKey env issuers l = Inl (Unresolvable m)" by (simp add: remote_getKey_def)
qed

interpretation composite_source: key_source "composite_handles issuers" "composite_getKey env issuers" for issuers env
  by unfold_locales (simp add: composite_handles_def composite_getKey_def)

text \<open>The cache: it builds once per issuer, and only what an import without it gives.\<close>

interpretation import_memo: memo_factory "cached_import env key_of" map_of for env key_of
  by unfold_locales (auto simp: cached_import_def update_conv' split: option.splits sum.splits)

definition cache_ok :: "'k auth_env \<Rightarrow> trusted_issuer list \<Rightarrow> 'k import_cache \<Rightarrow> bool" where
  "cache_ok env issuers cache \<longleftrightarrow>
     (\<forall>issuer k. map_of cache issuer = Some k \<longrightarrow>
        (\<exists>key. map_get (static_rows issuers) issuer = Some key \<and> import_static env key = Inr k))"

text \<open>
  The cache of imported keys is unobservable: from the empty cache, every lookup keeps
  it sound and answers what the lookup without a cache answers, key or failure.
\<close>

theorem static_cache_unobservable:
  assumes "cache_ok env issuers cache"
  shows "fst (static_getKey_cached env issuers l cache) = static_getKey env issuers l
    \<and> cache_ok env issuers (snd (static_getKey_cached env issuers l cache)) \<and> cache_ok env issuers []"
proof (cases "map_get (static_rows issuers) (kl_issuer l)")
  case None
  with assms show ?thesis by (simp add: static_getKey_cached_def static_getKey_def cache_ok_def)
next
  case (Some key)
  have same: "fst (cached_import env (\<lambda>_. key) (kl_issuer l) cache) = fst (cached_import env (\<lambda>_. key) (kl_issuer l) [])"
  proof (cases "map_of cache (kl_issuer l)")
    case None
    then show ?thesis by (simp add: cached_import_def split: sum.splits)
  next
    case hit: (Some k)
    with assms obtain key' where "map_get (static_rows issuers) (kl_issuer l) = Some key'" "import_static env key' = Inr k"
      unfolding cache_ok_def by blast
    with Some have "import_static env key = Inr k" by simp
    with hit show ?thesis by (simp add: cached_import_def)
  qed
  have ok: "cache_ok env issuers (snd (cached_import env (\<lambda>_. key) (kl_issuer l) cache))"
    using assms Some by (auto simp: cached_import_def cache_ok_def update_conv' split: option.splits sum.splits if_splits)
  show ?thesis
    using Some same ok assms
    by (auto simp: static_getKey_cached_def static_getKey_def cache_ok_def split: option.splits prod.splits sum.splits)
qed

definition sample_auth_env :: "unit auth_env" where
  "sample_auth_env = \<lparr>ae_decodeJwt = (\<lambda>_. Inr [(''iss'', JStr ''dev''), (''sub'', JStr ''alice'')]),
     ae_decodeHeader = (\<lambda>_. Inr (Some ''HS256'', None)),
     ae_jwtVerify = (\<lambda>c _ _ _ _. if c = ''good'' then Inr [(''iss'', JStr ''dev''), (''sub'', JStr ''alice''),
        (''roles'', JArr [JStr ''admin'', JNum 1])] else Inl (Jwt_Failed ''signature verification failed'')),
     ae_importSPKI = (\<lambda>_ _. Inr ()), ae_resolve = (\<lambda>_ _ _. Inl (Jwks_Failed (JsError ''JWKSTimeout'' ''timed out''))),
     ae_isNotEmpty = (\<lambda>s. s \<noteq> [])\<rparr>"

lemma static_cache_unobservable_witness:
  "fst (static_getKey_cached sample_auth_env [sample_issuer] \<lparr>kl_issuer = ''dev'', kl_kid = None, kl_algorithm = Some ''HS256''\<rparr> [])
    = Inr (Secret_Bytes (utf8_bytes ''secret''))"
proof -
  have "static_getKey sample_auth_env [sample_issuer] \<lparr>kl_issuer = ''dev'', kl_kid = None, kl_algorithm = Some ''HS256''\<rparr>
      = Inr (Secret_Bytes (utf8_bytes ''secret''))"
    by (simp add: static_getKey_def static_getKey_cached_def static_rows_def map_get_def sample_issuer_def
        List.map_filter_def cached_import_def import_static_def starts_with_def)
  with static_cache_unobservable [of sample_auth_env "[sample_issuer]" "[]"] show ?thesis by (simp add: cache_ok_def)
qed

subsection \<open>Verifying a token\<close>

record principal =
  p_subject :: string
  p_kind :: subject_kind
  p_displayName :: "string option"
  p_roles :: "string list"
  p_issuer :: string

datatype refusal = Missing | Invalid | Wrong_Audience | Unknown_Issuer | Indeterminate

datatype outcome = Verified principal | Refused refusal "string option"

definition invalid_outcome :: "string \<Rightarrow> outcome" where
  "invalid_outcome message = Refused Invalid (Some message)"

definition algorithmsFor :: "trusted_issuer \<Rightarrow> string list" where
  "algorithmsFor row = (case ti_key row of Static_Key k \<Rightarrow> [sk_algorithm k] | Jwks_Key k \<Rightarrow> jk_algorithms k)"

definition rolesFrom :: "(string \<times> json) list \<Rightarrow> string \<Rightarrow> string list" where
  "rolesFrom payload claim =
     (case map_of payload claim of
        Some (JArr xs) \<Rightarrow> List.map_filter (\<lambda>x. case x of JStr s \<Rightarrow> Some s | _ \<Rightarrow> None) xs
      | _ \<Rightarrow> [])"

definition toPrincipal :: "(string \<times> json) list \<Rightarrow> string \<Rightarrow> trusted_issuer \<Rightarrow> principal" where
  "toPrincipal payload subject row =
     \<lparr>p_subject = subject, p_kind = ti_subjectKind row,
      p_displayName = (case map_of payload ''preferred_username'' of Some (JStr s) \<Rightarrow> Some s | _ \<Rightarrow> None),
      p_roles = rolesFrom payload (ti_rolesClaim row), p_issuer = ti_issuer row\<rparr>"

definition issuer_row :: "trusted_issuer list \<Rightarrow> json \<Rightarrow> trusted_issuer option" where
  "issuer_row issuers iss = (case iss of JStr s \<Rightarrow> map_get (map (\<lambda>row. (ti_issuer row, row)) issuers) s | _ \<Rightarrow> None)"

text \<open>The signature check, once the trust source and its key are known.\<close>

definition check_signature :: "'k auth_env \<Rightarrow> trusted_issuer \<Rightarrow> 'k verification_key \<Rightarrow> string \<Rightarrow> outcome" where
  "check_signature env row key credential =
     (case ae_jwtVerify env credential key (ti_issuer row) (ti_audience row) (algorithmsFor row) of
        Inr payload \<Rightarrow>
          (case map_of payload ''sub'' of
             Some (JStr s) \<Rightarrow>
               if ae_isNotEmpty env s then Verified (toPrincipal payload s row)
               else Refused Invalid (Some ''token carries no sub claim'')
           | _ \<Rightarrow> Refused Invalid (Some ''token carries no sub claim''))
      | Inl (Claim_Failed claim message) \<Rightarrow>
          if claim = ''aud'' then Refused Wrong_Audience (Some message) else invalid_outcome message
      | Inl (Jwt_Failed message) \<Rightarrow> invalid_outcome message)"

definition jwt_verify ::
  "'k auth_env \<Rightarrow> (key_lookup \<Rightarrow> key_failure + 'k verification_key) \<Rightarrow> trusted_issuer list \<Rightarrow> string \<Rightarrow> outcome" where
  "jwt_verify env getKey issuers credential =
     (if trim credential = [] then Refused Missing None
      else case ae_decodeJwt env credential of
          Inl e \<Rightarrow> invalid_outcome (error_text e)
        | Inr claims \<Rightarrow>
            (case ae_decodeHeader env credential of
               Inl e \<Rightarrow> invalid_outcome (error_text e)
             | Inr (algorithm, kid) \<Rightarrow>
                 (case map_of claims ''iss'' of
                    None \<Rightarrow> Refused Invalid (Some ''token carries no iss claim'')
                  | Some iss \<Rightarrow>
                      (case issuer_row issuers iss of
                         None \<Rightarrow> Refused Unknown_Issuer (Some (''no trusted issuer matches '' @ show_js iss))
                       | Some row \<Rightarrow>
                           (case getKey \<lparr>kl_issuer = ti_issuer row, kl_kid = kid, kl_algorithm = algorithm\<rparr> of
                              Inl (Unresolvable m) \<Rightarrow> invalid_outcome m
                            | Inl (Unavailable e) \<Rightarrow> Refused Indeterminate (Some (error_text e))
                            | Inr key \<Rightarrow> check_signature env row key credential)))))"

lemma issuer_row_Some:
  assumes "issuer_row issuers iss = Some row"
  shows "row \<in> set issuers \<and> iss = JStr (ti_issuer row)"
proof -
  obtain s where s: "iss = JStr s" and "map_get (map (\<lambda>row. (ti_issuer row, row)) issuers) s = Some row"
    using assms by (auto simp: issuer_row_def split: json.splits)
  then have "(s, row) \<in> set (map (\<lambda>row. (ti_issuer row, row)) issuers)" by (intro map_get_SomeD)
  with s show ?thesis by auto
qed

text \<open>
  Property C15. A principal is never made up: the verifier yields one only for a token whose issuer is
  a configured row, under the key that row's source gave for the token's header, when the library
  accepted the signature and the claims against that row's issuer, audience and configured
  algorithms; its subject is the token's non-empty \<open>sub\<close>, its issuer and kind are the row's, and
  its roles are strings of the row's roles claim.
\<close>

theorem verified_sound:
  assumes "jwt_verify env getKey issuers credential = Verified p"
  shows "\<exists>row key payload alg kid. row \<in> set issuers \<and> p_issuer p = ti_issuer row \<and> p_kind p = ti_subjectKind row
    \<and> ae_decodeHeader env credential = Inr (alg, kid)
    \<and> getKey \<lparr>kl_issuer = ti_issuer row, kl_kid = kid, kl_algorithm = alg\<rparr> = Inr key
    \<and> ae_jwtVerify env credential key (ti_issuer row) (ti_audience row) (algorithmsFor row) = Inr payload
    \<and> map_of payload ''sub'' = Some (JStr (p_subject p)) \<and> ae_isNotEmpty env (p_subject p)
    \<and> (p_roles p \<noteq> [] \<longrightarrow> (\<exists>xs. map_of payload (ti_rolesClaim row) = Some (JArr xs) \<and> JStr ` set (p_roles p) \<subseteq> set xs))"
proof -
  obtain claims alg kid iss row key where parts:
    "ae_decodeHeader env credential = Inr (alg, kid)" "issuer_row issuers iss = Some row"
    "getKey \<lparr>kl_issuer = ti_issuer row, kl_kid = kid, kl_algorithm = alg\<rparr> = Inr key"
    "check_signature env row key credential = Verified p"
    using assms by (auto simp: jwt_verify_def invalid_outcome_def
        split: if_splits sum.splits prod.splits option.splits key_failure.splits)
  obtain payload where payload:
    "ae_jwtVerify env credential key (ti_issuer row) (ti_audience row) (algorithmsFor row) = Inr payload"
    "map_of payload ''sub'' = Some (JStr (p_subject p))" "ae_isNotEmpty env (p_subject p)"
    "p = toPrincipal payload (p_subject p) row"
    using parts(4) by (auto simp: check_signature_def invalid_outcome_def toPrincipal_def
        split: sum.splits jwt_failure.splits option.splits json.splits if_splits)
  have fields: "p_issuer p = ti_issuer row" "p_kind p = ti_subjectKind row" "p_roles p = rolesFrom payload (ti_rolesClaim row)"
    by (subst payload(4), simp add: toPrincipal_def)+
  have "p_roles p \<noteq> [] \<longrightarrow> (\<exists>xs. map_of payload (ti_rolesClaim row) = Some (JArr xs) \<and> JStr ` set (p_roles p) \<subseteq> set xs)"
    unfolding fields(3) by (auto simp: rolesFrom_def List.map_filter_def split: option.splits json.splits)
  with parts payload fields issuer_row_Some [OF parts(2)] show ?thesis by blast
qed

lemma sample_verified:
  "jwt_verify sample_auth_env (composite_getKey sample_auth_env [sample_issuer]) [sample_issuer] ''good''
    = Verified \<lparr>p_subject = ''alice'', p_kind = Human, p_displayName = None, p_roles = [''admin''], p_issuer = ''dev''\<rparr>"
  by (simp add: jwt_verify_def sample_auth_env_def trim_def is_space_def issuer_row_def map_get_def sample_issuer_def
      composite_getKey_def static_handles_def static_rows_def static_getKey_def static_getKey_cached_def
      List.map_filter_def cached_import_def import_static_def starts_with_def check_signature_def
      toPrincipal_def rolesFrom_def)

lemma verified_sound_witness:
  "\<exists>row. row \<in> set [sample_issuer] \<and> ti_issuer row = ''dev''"
  using verified_sound [OF sample_verified] by auto

text \<open>
  Whose fault it is. For a token that can be read and whose issuer is configured, the
  outcome is \<open>Indeterminate\<close> exactly when the key source could not be consulted; and for an issuer
  with an inline key, a token whose header names any other algorithm is \<open>Invalid\<close> whatever its
  signature, so neither algorithm confusion nor an outage is ever taken for the other.
\<close>

theorem failure_attribution:
  assumes cred: "trim credential \<noteq> []" and jwt: "ae_decodeJwt env credential = Inr claims"
    and header: "ae_decodeHeader env credential = Inr (alg, kid)"
    and iss: "map_of claims ''iss'' = Some iss" and row: "issuer_row issuers iss = Some row"
  shows "((\<exists>d. jwt_verify env (composite_getKey env issuers) issuers credential = Refused Indeterminate d)
      \<longleftrightarrow> (\<exists>e. composite_getKey env issuers \<lparr>kl_issuer = ti_issuer row, kl_kid = kid, kl_algorithm = alg\<rparr> = Inl (Unavailable e)))
    \<and> (\<forall>key a. map_get (static_rows issuers) (ti_issuer row) = Some key \<and> alg = Some a \<and> a \<noteq> sk_algorithm key
        \<longrightarrow> (\<exists>d. jwt_verify env (composite_getKey env issuers) issuers credential = Refused Invalid d))"
proof -
  let ?l = "\<lparr>kl_issuer = ti_issuer row, kl_kid = kid, kl_algorithm = alg\<rparr>"
  have sig: "check_signature env row key credential \<noteq> Refused Indeterminate d" for key d
    by (simp add: check_signature_def invalid_outcome_def split: sum.splits jwt_failure.splits option.splits json.splits)
  have run: "jwt_verify env (composite_getKey env issuers) issuers credential =
      (case composite_getKey env issuers ?l of
         Inl (Unresolvable m) \<Rightarrow> invalid_outcome m
       | Inl (Unavailable e) \<Rightarrow> Refused Indeterminate (Some (error_text e))
       | Inr key \<Rightarrow> check_signature env row key credential)"
    using assms by (simp add: jwt_verify_def)
  have ind: "(\<exists>d. jwt_verify env (composite_getKey env issuers) issuers credential = Refused Indeterminate d)
      \<longleftrightarrow> (\<exists>e. composite_getKey env issuers ?l = Inl (Unavailable e))"
    unfolding run using sig by (auto simp: invalid_outcome_def split: sum.splits key_failure.splits)
  have "\<exists>m. composite_getKey env issuers ?l = Inl (Unresolvable m)"
    if "map_get (static_rows issuers) (ti_issuer row) = Some key" "alg = Some a" "a \<noteq> sk_algorithm key" for key a
    using that by (simp add: composite_getKey_def static_handles_def static_getKey_def static_getKey_cached_def)
  then show ?thesis using ind unfolding run by (fastforce simp: invalid_outcome_def)
qed

lemma failure_attribution_witness:
  "\<exists>d. jwt_verify (sample_auth_env\<lparr>ae_decodeHeader := (\<lambda>_. Inr (Some ''none'', None))\<rparr>)
      (composite_getKey (sample_auth_env\<lparr>ae_decodeHeader := (\<lambda>_. Inr (Some ''none'', None))\<rparr>) [sample_issuer]) [sample_issuer] ''good''
    = Refused Invalid d"
proof -
  let ?env = "sample_auth_env\<lparr>ae_decodeHeader := (\<lambda>_. Inr (Some ''none'', None))\<rparr>"
  have row: "issuer_row [sample_issuer] (JStr ''dev'') = Some sample_issuer"
    by (simp add: issuer_row_def map_get_def sample_issuer_def)
  have "map_get (static_rows [sample_issuer]) (ti_issuer sample_issuer) = Some \<lparr>sk_algorithm = ''HS256'', sk_value = ''secret''\<rparr>"
    by (simp add: static_rows_def List.map_filter_def map_get_def sample_issuer_def)
  with failure_attribution [of "''good''" ?env "[(''iss'', JStr ''dev''), (''sub'', JStr ''alice'')]" "Some ''none''" None,
      OF _ _ _ _ row]
  show ?thesis by (simp add: sample_auth_env_def trim_def is_space_def)
qed

end
