(* ===== verification/Auth_Guard.thy ===== *)
theory Auth_Guard
  imports Auth
begin

text \<open>
  \<^verbatim>\<open>packages/auth/src/Authenticator.ts\<close> and \<^verbatim>\<open>packages/tsed-auth\<close>: the chain of verifiers a route
  admits, the guard that turns its decision into an HTTP outcome, the role check and what the
  decorators put into the OpenAPI document.
\<close>

subsection \<open>The verifier interface\<close>

record token_verifier =
  tv_extract :: "credential_source \<Rightarrow> string option"
  tv_verify :: "string \<Rightarrow> outcome"

text \<open>\<^verbatim>\<open>verifier.verify(verifier.extract(source) ?? '')\<close>\<close>

definition consult :: "token_verifier \<Rightarrow> credential_source \<Rightarrow> outcome" where
  "consult v source = tv_verify v (case tv_extract v source of None \<Rightarrow> [] | Some c \<Rightarrow> c)"

text \<open>What the chain relies on: a verifier that finds no credential answers \<open>Missing\<close>.\<close>

locale blank_is_missing =
  fixes v :: token_verifier
  assumes blank: "trim c = [] \<Longrightarrow> tv_verify v c = Refused Missing None"
begin

lemma absent_missing: "tv_extract v source = None \<Longrightarrow> consult v source = Refused Missing None"
  by (simp add: consult_def blank trim_def)

lemma verified_had_credential: "consult v source = Verified p \<Longrightarrow> tv_extract v source \<noteq> None"
  using absent_missing by force

end

definition jwt_verifier :: "'k auth_env \<Rightarrow> trusted_issuer list \<Rightarrow> token_verifier" where
  "jwt_verifier env issuers =
     \<lparr>tv_extract = jwt_extract env, tv_verify = jwt_verify env (composite_getKey env issuers) issuers\<rparr>"

interpretation jwt: blank_is_missing "jwt_verifier env issuers" for env issuers
  by unfold_locales (simp add: jwt_verifier_def jwt_verify_def)

subsection \<open>The authenticator\<close>

datatype decision = Allowed principal | Denied refusal int "string option"

definition auth_configuration_error :: "string \<Rightarrow> thrown" where
  "auth_configuration_error message = JsError ''AuthConfigurationError'' message"

definition buildVerifiers :: "'k auth_env \<Rightarrow> auth_config \<Rightarrow> (string, token_verifier) js_map" where
  "buildVerifiers env config =
     fold (\<lambda>(method, entry). case entry of Bearer_Jwt rows \<Rightarrow> AList.update method (jwt_verifier env rows)) config []"

definition statusForReason :: "refusal option \<Rightarrow> int" where
  "statusForReason reason =
     (case reason of None \<Rightarrow> 200 | Some Indeterminate \<Rightarrow> 503 | Some _ \<Rightarrow> 401)"

type_synonym refused_outcome = "refusal \<times> string option"

definition mostTelling :: "refused_outcome list \<Rightarrow> refused_outcome" where
  "mostTelling failures =
     (case find (\<lambda>f. fst f = Indeterminate) failures of
        Some f \<Rightarrow> f
      | None \<Rightarrow> (case find (\<lambda>f. fst f \<noteq> Missing) failures of Some f \<Rightarrow> f | None \<Rightarrow> hd failures))"

text \<open>What is counted for an outcome: the reason (\<open>None\<close> is \<open>ok\<close>), and the issuer if it verified.\<close>

definition verification_label :: "outcome \<Rightarrow> refusal option \<times> string option" where
  "verification_label out = (case out of Verified p \<Rightarrow> (None, Some (p_issuer p)) | Refused r _ \<Rightarrow> (Some r, None))"

fun resolve_chain :: "(string, token_verifier) js_map \<Rightarrow> string list \<Rightarrow> thrown + token_verifier list" where
  "resolve_chain verifiers [] = Inr []"
| "resolve_chain verifiers (m # ms) =
     (case map_of verifiers m of
        None \<Rightarrow> Inl (auth_configuration_error (''No verifier is configured for auth method '' @ [CHR 0x27] @ m @ [CHR 0x27] @ ''.''))
      | Some v \<Rightarrow> (case resolve_chain verifiers ms of Inl e \<Rightarrow> Inl e | Inr vs \<Rightarrow> Inr (v # vs)))"

fun run_chain ::
  "token_verifier list \<Rightarrow> credential_source \<Rightarrow> refused_outcome list \<Rightarrow> (refusal option \<times> string option) list
     \<Rightarrow> decision \<times> (refusal option \<times> string option) list" where
  "run_chain [] source failures counted =
     (let worst = mostTelling failures
      in (Denied (fst worst) (statusForReason (Some (fst worst))) (snd worst), counted))"
| "run_chain (v # vs) source failures counted =
     (let out = consult v source; counted' = counted @ [verification_label out] in
      case out of
        Verified p \<Rightarrow> (Allowed p, counted')
      | Refused r d \<Rightarrow> run_chain vs source (failures @ [(r, d)]) counted')"

definition authenticate ::
  "(string, token_verifier) js_map \<Rightarrow> credential_source \<Rightarrow> string list
     \<Rightarrow> (thrown + decision) \<times> (refusal option \<times> string option) list" where
  "authenticate verifiers source methods =
     (if methods = [] then (Inl (auth_configuration_error ''A guarded endpoint named no auth method.''), [])
      else case resolve_chain verifiers methods of
          Inl e \<Rightarrow> (Inl e, [])
        | Inr chain \<Rightarrow> (let (d, counted) = run_chain chain source [] [] in (Inr d, counted)))"

lemma resolve_chain_Inr:
  "resolve_chain verifiers ms = Inr vs \<longleftrightarrow> map (map_of verifiers) ms = map Some vs"
proof (induction ms arbitrary: vs)
  case (Cons m ms)
  show ?case
  proof (cases "resolve_chain verifiers ms")
    case (Inl e)
    then have "map (map_of verifiers) ms \<noteq> map Some us" for us using Cons.IH [of us] by simp
    then show ?thesis using Inl by (cases vs) (auto split: option.splits)
  next
    case (Inr us)
    then have "map (map_of verifiers) ms = map Some us" using Cons.IH [of us] by simp
    then show ?thesis using Inr by (cases vs) (auto simp: inj_map_eq_map split: option.splits)
  qed
qed auto

lemma mostTelling_spec:
  assumes "fs \<noteq> []"
  shows "mostTelling fs \<in> set fs \<and> (fst (mostTelling fs) = Indeterminate \<longleftrightarrow> (\<exists>f \<in> set fs. fst f = Indeterminate))
    \<and> (fst (mostTelling fs) = Missing \<longleftrightarrow> (\<forall>f \<in> set fs. fst f = Missing))"
proof (cases "find (\<lambda>f. fst f = Indeterminate) fs")
  case (Some f)
  then have "f \<in> set fs" "fst f = Indeterminate" by (auto simp: find_Some_iff)
  with Some show ?thesis by (force simp: mostTelling_def)
next
  case None
  then have no: "\<forall>f \<in> set fs. fst f \<noteq> Indeterminate" by (auto simp: find_None_iff)
  show ?thesis
  proof (cases "find (\<lambda>f. fst f \<noteq> Missing) fs")
    case (Some f)
    then have "f \<in> set fs" "fst f \<noteq> Missing" by (auto simp: find_Some_iff)
    with Some None no show ?thesis by (force simp: mostTelling_def)
  next
    case none: None
    then have "\<forall>f \<in> set fs. fst f = Missing" by (auto simp: find_None_iff)
    with none None no assms show ?thesis by (auto simp: mostTelling_def)
  qed
qed

text \<open>The refusals of a chain none of whose verifiers verifies.\<close>

definition refusals :: "token_verifier list \<Rightarrow> credential_source \<Rightarrow> refused_outcome list" where
  "refusals vs source = List.map_filter (\<lambda>v. case consult v source of Verified _ \<Rightarrow> None | Refused r d \<Rightarrow> Some (r, d)) vs"

lemma first_in_Cons:
  assumes "\<not> P x"
  shows "(\<exists>pre v post. x # xs = pre @ v # post \<and> P v \<and> (\<forall>u \<in> set pre. R u))
    \<longleftrightarrow> R x \<and> (\<exists>pre v post. xs = pre @ v # post \<and> P v \<and> (\<forall>u \<in> set pre. R u))"
    (is "?L \<longleftrightarrow> ?R")
proof
  assume ?L
  then obtain pre v post where h: "x # xs = pre @ v # post" "P v" "\<forall>u \<in> set pre. R u" by blast
  then show ?R using assms by (cases pre) auto
next
  assume ?R
  then obtain pre v post where "xs = pre @ v # post" "P v" "\<forall>u \<in> set pre. R u" "R x" by blast
  then show ?L by (intro exI [of _ "x # pre"] exI [of _ v] exI [of _ post]) simp
qed

lemma run_chain_allowed:
  "fst (run_chain vs source fs counted) = Allowed p
    \<longleftrightarrow> (\<exists>pre v post. vs = pre @ v # post \<and> consult v source = Verified p
          \<and> (\<forall>u \<in> set pre. \<forall>q. consult u source \<noteq> Verified q))"
proof (induction vs arbitrary: fs counted)
  case Nil
  then show ?case by (simp add: Let_def)
next
  case (Cons v vs)
  show ?case
  proof (cases "consult v source")
    case (Verified q)
    then show ?thesis
      by (auto simp: Let_def Cons_eq_append_conv intro: exI [of _ "[]"])
  next
    case (Refused r d)
    then show ?thesis
      using first_in_Cons [of "\<lambda>v. consult v source = Verified p" v vs "\<lambda>u. \<forall>q. consult u source \<noteq> Verified q"]
        Cons [of "fs @ [(r, d)]" "counted @ [verification_label (Refused r d)]"]
      by (simp add: Let_def)
  qed
qed

lemma run_chain_denied:
  assumes "\<forall>v \<in> set vs. \<forall>p. consult v source \<noteq> Verified p"
  shows "fst (run_chain vs source fs counted)
    = (let worst = mostTelling (fs @ refusals vs source)
       in Denied (fst worst) (statusForReason (Some (fst worst))) (snd worst))"
  using assms
proof (induction vs arbitrary: fs counted)
  case Nil
  then show ?case by (simp add: Let_def refusals_def List.map_filter_def)
next
  case (Cons v vs)
  then obtain r d where "consult v source = Refused r d" by (cases "consult v source") auto
  with Cons show ?case by (simp add: Let_def refusals_def List.map_filter_def)
qed

lemma refusals_mem:
  "f \<in> set (refusals vs source) \<longleftrightarrow> (\<exists>v \<in> set vs. consult v source = Refused (fst f) (snd f))"
  by (cases f) (force simp: refusals_def List.map_filter_def split: outcome.splits)

text \<open>
  The decision over the methods a route admits: it is \<open>Allowed\<close> with the principal of
  the first verifier that verifies, and otherwise a refusal one of them gave, chosen by severity:
  \<open>Indeterminate\<close> (and status 503) exactly when some verifier could not decide, \<open>Missing\<close> exactly
  when no verifier was offered anything, and 401 for all but the first. So an outage is not
  overwritten by a later method that found no credential.
\<close>

theorem authenticate_decision:
  assumes "methods \<noteq> []" and "map (map_of verifiers) methods = map Some vs"
  shows "case fst (authenticate verifiers source methods) of
      Inl e \<Rightarrow> False
    | Inr (Allowed p) \<Rightarrow> \<exists>pre v post. vs = pre @ v # post \<and> consult v source = Verified p
        \<and> (\<forall>u \<in> set pre. \<forall>q. consult u source \<noteq> Verified q)
    | Inr (Denied r status d) \<Rightarrow> (\<exists>v \<in> set vs. consult v source = Refused r d)
        \<and> (\<forall>v \<in> set vs. \<forall>p. consult v source \<noteq> Verified p)
        \<and> (r = Indeterminate \<longleftrightarrow> (\<exists>v \<in> set vs. \<exists>x. consult v source = Refused Indeterminate x))
        \<and> (r = Missing \<longleftrightarrow> (\<forall>v \<in> set vs. \<exists>x. consult v source = Refused Missing x))
        \<and> status = (if r = Indeterminate then 503 else 401)"
proof -
  have chain: "resolve_chain verifiers methods = Inr vs" using assms(2) by (simp add: resolve_chain_Inr)
  have run: "fst (authenticate verifiers source methods) = Inr (fst (run_chain vs source [] []))"
    using assms(1) chain by (simp add: authenticate_def split: prod.splits)
  show ?thesis
  proof (cases "\<forall>v \<in> set vs. \<forall>p. consult v source \<noteq> Verified p")
    case True
    let ?fs = "refusals vs source"
    have "vs \<noteq> []" using assms by auto
    then obtain v0 where v0: "v0 \<in> set vs" by (cases vs) auto
    obtain r0 d0 where "consult v0 source = Refused r0 d0" using True v0 by (cases "consult v0 source") auto
    with v0 have ne: "?fs \<noteq> []" using refusals_mem [of "(r0, d0)" vs source] by fastforce
    have all: "(\<forall>f \<in> set ?fs. fst f = Missing) \<longleftrightarrow> (\<forall>v \<in> set vs. \<exists>x. consult v source = Refused Missing x)"
    proof
      assume h: "\<forall>f \<in> set ?fs. fst f = Missing"
      show "\<forall>v \<in> set vs. \<exists>x. consult v source = Refused Missing x"
      proof
        fix v assume v: "v \<in> set vs"
        with True obtain r d where rd: "consult v source = Refused r d" by (cases "consult v source") auto
        then have "(r, d) \<in> set ?fs" using v by (auto simp: refusals_mem)
        with h rd show "\<exists>x. consult v source = Refused Missing x" by auto
      qed
    qed (fastforce simp: refusals_mem)
    have any: "(\<exists>f \<in> set ?fs. fst f = Indeterminate) \<longleftrightarrow> (\<exists>v \<in> set vs. \<exists>x. consult v source = Refused Indeterminate x)"
      unfolding Bex_def refusals_mem by (metis fst_conv snd_conv)
    have stat: "statusForReason (Some r) = (if r = Indeterminate then 503 else 401)" for r
      by (cases r) (auto simp: statusForReason_def)
    from mostTelling_spec [OF ne] all any stat True show ?thesis
      by (simp add: run run_chain_denied Let_def refusals_mem)
  next
    case False
    obtain p where p: "fst (run_chain vs source [] []) = Allowed p"
    proof -
      from False have "\<exists>x \<in> set vs. \<exists>p. consult x source = Verified p" by blast
      then obtain pre v post where split: "vs = pre @ v # post" "\<exists>p. consult v source = Verified p"
        "\<forall>u \<in> set pre. \<not> (\<exists>p. consult u source = Verified p)" by (elim split_list_first_propE)
      then obtain q where "consult v source = Verified q" by blast
      with split have "fst (run_chain vs source [] []) = Allowed q" unfolding run_chain_allowed by blast
      then show thesis by (rule that)
    qed
    then show ?thesis using run_chain_allowed [of vs source "[]" "[]" p] by (simp add: run)
  qed
qed

definition outage_verifier :: token_verifier where
  "outage_verifier = \<lparr>tv_extract = (\<lambda>s. s ''authorization''), tv_verify = (\<lambda>_. Refused Indeterminate (Some ''timed out''))\<rparr>"

definition absent_verifier :: token_verifier where
  "absent_verifier = \<lparr>tv_extract = (\<lambda>s. s ''x-api-key''), tv_verify = (\<lambda>c. if c = [] then Refused Missing None else Refused Invalid None)\<rparr>"

lemma authenticate_decision_witness:
  "fst (authenticate [(''IDP'', outage_verifier), (''KEY'', absent_verifier)] (\<lambda>_. None) [''IDP'', ''KEY''])
    = Inr (Denied Indeterminate 503 (Some ''timed out''))"
  using authenticate_decision [of "[''IDP'', ''KEY'']" "[(''IDP'', outage_verifier), (''KEY'', absent_verifier)]"
      "[outage_verifier, absent_verifier]" "\<lambda>_. None"]
  by (auto simp: consult_def outage_verifier_def absent_verifier_def Cons_eq_append_conv split: sum.splits decision.splits)

subsection \<open>The guard\<close>

record guard_options =
  go_anonymous :: "bool option"
  go_methods :: "string option"
  go_roles :: "string list list option"

datatype guard_error = Configuration_Error thrown | Http_Exception int string

definition decodeMethods :: "(string \<Rightarrow> bool) \<Rightarrow> (string \<Rightarrow> thrown + json) \<Rightarrow> string option \<Rightarrow> string list" where
  "decodeMethods isNotEmpty parse encoded =
     (case encoded of
        None \<Rightarrow> []
      | Some s \<Rightarrow>
          if \<not> isNotEmpty s then []
          else (case parse s of
              Inr (JArr xs) \<Rightarrow>
                List.map_filter (\<lambda>x. case x of JStr m \<Rightarrow> if isNotEmpty m then Some m else None | _ \<Rightarrow> None) xs
            | _ \<Rightarrow> []))"

definition encodeMethods :: "(json \<Rightarrow> string) \<Rightarrow> string list \<Rightarrow> string" where
  "encodeMethods stringify methods = stringify (JArr (map JStr methods))"

definition satisfies :: "principal \<Rightarrow> string list list \<Rightarrow> bool" where
  "satisfies p requirements = list_all (\<lambda>anyOf. anyOf = [] \<or> list_ex (\<lambda>role. role \<in> set (p_roles p)) anyOf) requirements"

definition exceptionFor :: "refusal \<Rightarrow> guard_error" where
  "exceptionFor reason =
     (if reason = Indeterminate then Http_Exception 503 ''Authentication is temporarily unavailable.''
      else Http_Exception 401 ''Authentication required.'')"

text \<open>The guard's result and the principal it parked on the request's context.\<close>

definition guard_use ::
  "(string \<Rightarrow> bool) \<Rightarrow> (string \<Rightarrow> thrown + json) \<Rightarrow> (string, token_verifier) js_map \<Rightarrow> guard_options option
     \<Rightarrow> credential_source \<Rightarrow> (guard_error + unit) \<times> principal option" where
  "guard_use isNotEmpty parse verifiers options source =
     (if Option.bind options go_anonymous = Some True then (Inr (), None)
      else
        (let methods = decodeMethods isNotEmpty parse (Option.bind options go_methods) in
         if methods = []
         then (Inl (Configuration_Error (auth_configuration_error
                 ''AuthGuard ran on an endpoint with no auth method; use @Authenticate(method) or @Anonymous().'')), None)
         else case fst (authenticate verifiers source methods) of
             Inl e \<Rightarrow> (Inl (Configuration_Error e), None)
           | Inr (Denied reason _ _) \<Rightarrow> (Inl (exceptionFor reason), None)
           | Inr (Allowed p) \<Rightarrow>
               (case Option.bind options go_roles of
                  Some roles \<Rightarrow> if \<not> satisfies p roles then (Inl (Http_Exception 403 ''Insufficient permissions.''), Some p)
                                else (Inr (), Some p)
                | None \<Rightarrow> (Inr (), Some p))))"

text \<open>What a request that the guard lets through has shown.\<close>

lemma guard_passes:
  assumes "guard_use isNotEmpty parse verifiers options source = (Inr (), parked)"
  shows "(Option.bind options go_anonymous = Some True \<and> parked = None)
    \<or> (\<exists>p vs. parked = Some p \<and> vs \<noteq> []
        \<and> map (map_of verifiers) (decodeMethods isNotEmpty parse (Option.bind options go_methods)) = map Some vs
        \<and> (\<exists>v \<in> set vs. consult v source = Verified p)
        \<and> (\<forall>roles. Option.bind options go_roles = Some roles \<longrightarrow>
             (\<forall>anyOf \<in> set roles. anyOf = [] \<or> (\<exists>role \<in> set anyOf. role \<in> set (p_roles p)))))"
proof (cases "Option.bind options go_anonymous = Some True")
  case True
  with assms show ?thesis by (simp add: guard_use_def)
next
  case False
  let ?ms = "decodeMethods isNotEmpty parse (Option.bind options go_methods)"
  have ne: "?ms \<noteq> []" using assms False by (auto simp: guard_use_def Let_def)
  obtain p where auth: "fst (authenticate verifiers source ?ms) = Inr (Allowed p)" and parked: "parked = Some p"
    and roles: "\<forall>rs. Option.bind options go_roles = Some rs \<longrightarrow> satisfies p rs"
    using assms False ne
    by (auto simp: guard_use_def Let_def exceptionFor_def split: sum.splits decision.splits option.splits if_splits)
  obtain vs where vs: "resolve_chain verifiers ?ms = Inr vs"
    using auth ne by (auto simp: authenticate_def split: sum.splits)
  then have chain: "map (map_of verifiers) ?ms = map Some vs" by (simp add: resolve_chain_Inr)
  then have "vs \<noteq> []" using ne by auto
  moreover have "\<exists>v \<in> set vs. consult v source = Verified p"
    using authenticate_decision [OF ne chain, of source] auth by auto
  ultimately show ?thesis
    using parked chain roles by (auto simp: satisfies_def list_all_iff list_ex_iff)
qed

text \<open>
  Property C10. The guard fails closed. A request reaches the handler only in two ways: its endpoint is
  marked anonymous, and then there is no principal; or every method the endpoint names is
  configured, one of them verified the request, and the principal it gave satisfies every role
  requirement. In particular an endpoint with no readable method list is never open.
\<close>

theorem guard_fail_closed:
  assumes "guard_use isNotEmpty parse verifiers options source = (Inr (), parked)"
  shows "(Option.bind options go_anonymous = Some True \<and> parked = None)
    \<or> (\<exists>p vs. parked = Some p \<and> vs \<noteq> []
        \<and> map (map_of verifiers) (decodeMethods isNotEmpty parse (Option.bind options go_methods)) = map Some vs
        \<and> (\<exists>v \<in> set vs. consult v source = Verified p)
        \<and> (\<forall>roles. Option.bind options go_roles = Some roles \<longrightarrow>
             (\<forall>anyOf \<in> set roles. anyOf = [] \<or> (\<exists>role \<in> set anyOf. role \<in> set (p_roles p)))))"
  using assms by (rule guard_passes)

definition trusting_verifier :: token_verifier where
  "trusting_verifier = \<lparr>tv_extract = (\<lambda>s. s ''authorization''), tv_verify = (\<lambda>c. if c = ''t''
     then Verified \<lparr>p_subject = ''alice'', p_kind = Human, p_displayName = None, p_roles = [''admin''], p_issuer = ''dev''\<rparr>
     else Refused Missing None)\<rparr>"

lemma guard_fail_closed_witness:
  "\<exists>p. snd (guard_use (\<lambda>s. s \<noteq> []) (\<lambda>_. Inr (JArr [JStr ''IDP''])) [(''IDP'', trusting_verifier)]
      (Some \<lparr>go_anonymous = None, go_methods = Some ''x'', go_roles = Some [[''admin'', ''ops'']]\<rparr>) (\<lambda>_. Some ''t'')) = Some p
    \<and> p_subject p = ''alice'' \<and> ''admin'' \<in> set (p_roles p)"
proof -
  let ?opts = "Some \<lparr>go_anonymous = None, go_methods = Some ''x'', go_roles = Some [[''admin'', ''ops'']]\<rparr>"
  let ?p = "\<lparr>p_subject = ''alice'', p_kind = Human, p_displayName = None, p_roles = [''admin''], p_issuer = ''dev''\<rparr>"
  have run: "guard_use (\<lambda>s. s \<noteq> []) (\<lambda>_. Inr (JArr [JStr ''IDP''])) [(''IDP'', trusting_verifier)] ?opts (\<lambda>_. Some ''t'')
      = (Inr (), Some ?p)"
    by (simp add: guard_use_def decodeMethods_def List.map_filter_def authenticate_def consult_def
        trusting_verifier_def Let_def satisfies_def)
  from guard_fail_closed [OF run] run show ?thesis by auto
qed

text \<open>
  Stacking role requirements only narrows: endpoint options concatenate the decorators'
  requirements, and a principal satisfies the concatenation exactly when it satisfies each part, so
  a method-level requirement never admits a caller its class refuses.
\<close>

theorem roles_only_narrow:
  "satisfies p (class_roles @ method_roles) \<longleftrightarrow> satisfies p class_roles \<and> satisfies p method_roles"
  by (simp add: satisfies_def)

text \<open>
  The methods a decorator encodes are the methods the guard reads, in order, for every
  list of non-empty names, given a JSON codec that reads back what it wrote and never writes the
  empty string for an array.
\<close>

theorem methods_roundtrip:
  assumes "parse (stringify (JArr (map JStr methods))) = Inr (JArr (map JStr methods))"
    and "isNotEmpty (stringify (JArr (map JStr methods)))" and "list_all isNotEmpty methods"
  shows "decodeMethods isNotEmpty parse (Some (encodeMethods stringify methods)) = methods"
proof -
  have "List.map_filter (\<lambda>x. case x of JStr m \<Rightarrow> if isNotEmpty m then Some m else None | _ \<Rightarrow> None) (map JStr methods) = methods"
    using assms(3) by (induction methods) (auto simp: List.map_filter_def)
  with assms(1,2) show ?thesis by (simp add: decodeMethods_def encodeMethods_def)
qed

lemma methods_roundtrip_witness:
  "decodeMethods (\<lambda>s. s \<noteq> []) (\<lambda>_. Inr (JArr [JStr ''IDP'', JStr ''KEY''])) (Some (encodeMethods show_js [''IDP'', ''KEY'']))
    = [''IDP'', ''KEY'']"
  by (rule methods_roundtrip) simp_all

subsection \<open>What the decorators document\<close>

definition describeRoles :: "string list list \<Rightarrow> string" where
  "describeRoles requirements =
     (case requirements of
        [only] \<Rightarrow> if length only = 1 then ''Requires role '' @ hd only @ ''.'' else ''Requires one of: '' @ join '', '' only @ ''.''
      | _ \<Rightarrow> ''Requires '' @ join '' and '' (map (\<lambda>anyOf. ''('' @ join '' or '' anyOf @ '')'') requirements) @ ''.'')"

text \<open>The responses the two documenting decorators add to an operation.\<close>

definition documentRolesMethod :: "guard_options option \<Rightarrow> (int \<times> string) list" where
  "documentRolesMethod options =
     (if Option.bind options go_anonymous = Some True then []
      else
        (let requirements = filter (\<lambda>anyOf. anyOf \<noteq> []) (case Option.bind options go_roles of None \<Rightarrow> [] | Some rs \<Rightarrow> rs)
         in if requirements = [] then [] else [(403, describeRoles requirements)]))"

definition documentMethod :: "guard_options option \<Rightarrow> (string option \<times> (int \<times> string) list)" where
  "documentMethod options =
     (if Option.bind options go_anonymous = Some True then (None, [])
      else (Some ''BEARER_JWT'',
            [(401, ''Authentication required, or the credential was refused.''),
             (503, ''The credential could not be verified '' @ em_dash @ '' try again.'')]))"

text \<open>A 403 is documented exactly where the guard can answer one.\<close>

lemma documented_403:
  assumes "Option.bind options go_anonymous \<noteq> Some True"
  shows "documentRolesMethod options = [] \<longleftrightarrow>
    (\<forall>p rs. Option.bind options go_roles = Some rs \<longrightarrow> satisfies p rs)"
proof
  assume "documentRolesMethod options = []"
  with assms have "\<forall>rs. Option.bind options go_roles = Some rs \<longrightarrow> (\<forall>anyOf \<in> set rs. anyOf = [])"
    by (auto simp: documentRolesMethod_def Let_def filter_empty_conv split: if_splits option.splits)
  then show "\<forall>p rs. Option.bind options go_roles = Some rs \<longrightarrow> satisfies p rs"
    by (auto simp: satisfies_def list_all_iff)
next
  assume h: "\<forall>p rs. Option.bind options go_roles = Some rs \<longrightarrow> satisfies p rs"
  have "satisfies \<lparr>p_subject = s, p_kind = k, p_displayName = n, p_roles = [], p_issuer = i\<rparr> rs \<longleftrightarrow> (\<forall>anyOf \<in> set rs. anyOf = [])"
    for rs s k n i by (auto simp: satisfies_def list_all_iff list_ex_iff)
  note none = this [of "[]" Human None "[]"]
  have "\<forall>anyOf \<in> set rs. anyOf = []" if "Option.bind options go_roles = Some rs" for rs
    using h that none [of rs] by blast
  with assms show "documentRolesMethod options = []"
    by (cases "Option.bind options go_roles") (simp_all add: documentRolesMethod_def Let_def filter_empty_conv)
qed

end
