(* ===== verification/Effect.thy ===== *)
theory Effect
  imports Miot_Error
begin

text \<open>
  Asynchronous methods of the services: a state in, a result or a thrown value and the state out.
  An \<^verbatim>\<open>await\<close> is \<open>and_then\<close>, a \<^verbatim>\<open>throw\<close> is \<open>throwing\<close>, and \<^verbatim>\<open>try/catch\<close> is \<open>catching\<close>. The
  exceptions the services raise for the HTTP layer are errors with a name of their own.
\<close>

type_synonym ('e, 'a, 's) action = "'s \<Rightarrow> ('e + 'a) \<times> 's"
type_synonym ('a, 's) effect = "(thrown, 'a, 's) action"

definition returning :: "'a \<Rightarrow> ('e, 'a, 's) action" where
  "returning a s = (Inr a, s)"

definition throwing :: "'e \<Rightarrow> ('e, 'a, 's) action" where
  "throwing e s = (Inl e, s)"

definition and_then :: "('e, 'a, 's) action \<Rightarrow> ('a \<Rightarrow> ('e, 'b, 's) action) \<Rightarrow> ('e, 'b, 's) action" where
  "and_then m k s = (case m s of (Inl e, s') \<Rightarrow> (Inl e, s') | (Inr a, s') \<Rightarrow> k a s')"

definition catching :: "('e, 'a, 's) action \<Rightarrow> ('e \<Rightarrow> ('f, 'a, 's) action) \<Rightarrow> ('f, 'a, 's) action" where
  "catching m h s = (case m s of (Inl e, s') \<Rightarrow> h e s' | (Inr a, s') \<Rightarrow> (Inr a, s'))"

text \<open>A change of state that does not throw.\<close>

definition doing :: "('s \<Rightarrow> 's) \<Rightarrow> ('e, unit, 's) action" where
  "doing f s = (Inr (), f s)"

text \<open>A result that was computed without touching the state.\<close>

definition lifted :: "'e + 'a \<Rightarrow> ('e, 'a, 's) action" where
  "lifted r = (case r of Inl e \<Rightarrow> throwing e | Inr a \<Rightarrow> returning a)"

text \<open>An operation on one part of the state, read with \<open>g\<close> and written back with \<open>p\<close>.\<close>

definition within :: "('s \<Rightarrow> 't) \<Rightarrow> ('t \<Rightarrow> 's \<Rightarrow> 's) \<Rightarrow> ('e, 'a, 't) action \<Rightarrow> ('e, 'a, 's) action" where
  "within g p m s = (case m (g s) of (r, t) \<Rightarrow> (r, p t s))"

lemma effect_simps [simp, js_simps]:
  "returning a s = (Inr a, s)"
  "throwing e s = (Inl e, s)"
  "doing f s = (Inr (), f s)"
  "m s = (Inr a, s') \<Longrightarrow> and_then m k s = k a s'"
  "m s = (Inl e, s') \<Longrightarrow> and_then m k' s = (Inl e, s')"
  "m s = (Inr a, s') \<Longrightarrow> catching m h s = (Inr a, s')"
  "m s = (Inl e, s') \<Longrightarrow> catching m h s = h e s'"
  by (simp_all add: returning_def throwing_def doing_def and_then_def catching_def)

lemma and_then_Inr:
  "and_then m k s = (Inr b, s'') \<longleftrightarrow> (\<exists>a s'. m s = (Inr a, s') \<and> k a s' = (Inr b, s''))"
  by (auto simp: and_then_def split: prod.splits sum.splits)

lemma and_then_Inl:
  "and_then m k s = (Inl e, s'') \<longleftrightarrow> m s = (Inl e, s'') \<or> (\<exists>a s'. m s = (Inr a, s') \<and> k a s' = (Inl e, s''))"
  by (auto simp: and_then_def split: prod.splits sum.splits)

text \<open>A state predicate every step of a composition keeps is kept by the composition.\<close>

definition preserves :: "('s \<Rightarrow> bool) \<Rightarrow> ('e, 'a, 's) action \<Rightarrow> bool" where
  "preserves P m \<longleftrightarrow> (\<forall>s. P s \<longrightarrow> P (snd (m s)))"

lemma preservesD: "preserves P m \<Longrightarrow> P s \<Longrightarrow> m s = (r, s') \<Longrightarrow> P s'"
  unfolding preserves_def by (metis snd_conv)

lemma preserves_returning [intro, simp]: "preserves P (returning a)"
  and preserves_throwing [intro, simp]: "preserves P (throwing e)"
  by (simp_all add: preserves_def)

lemma preserves_doing [intro]: "(\<And>s. P s \<Longrightarrow> P (f s)) \<Longrightarrow> preserves P (doing f)"
  by (simp add: preserves_def)

lemma preserves_and_then [intro]:
  "preserves P m \<Longrightarrow> (\<And>a. preserves P (k a)) \<Longrightarrow> preserves P (and_then m k)"
  by (fastforce simp: preserves_def and_then_def split: prod.splits sum.splits)

lemma preserves_catching [intro]:
  "preserves P m \<Longrightarrow> (\<And>e. preserves P (h e)) \<Longrightarrow> preserves P (catching m h)"
  by (fastforce simp: preserves_def catching_def split: prod.splits sum.splits)

text \<open>A text between single quotes, as the messages have it.\<close>

definition quoted :: "string \<Rightarrow> string" where
  "quoted s = CHR 0x27 # s @ [CHR 0x27]"

definition NotFound :: "string \<Rightarrow> thrown" where "NotFound message = JsError ''NOT_FOUND'' message"
definition BadRequest :: "string \<Rightarrow> thrown" where "BadRequest message = JsError ''BAD_REQUEST'' message"
definition Conflict :: "string \<Rightarrow> thrown" where "Conflict message = JsError ''CONFLICT'' message"
definition PlainError :: "string \<Rightarrow> thrown" where "PlainError message = JsError ''Error'' message"

lemma error_text_exceptions [simp, js_simps]:
  "error_text (NotFound m) = m" "error_text (BadRequest m) = m" "error_text (Conflict m) = m"
  "error_text (PlainError m) = m"
  "\<not> is_miot_error (NotFound m)" "\<not> is_miot_error (BadRequest m)" "\<not> is_miot_error (Conflict m)"
  "\<not> is_miot_error (PlainError m)"
  by (simp_all add: NotFound_def BadRequest_def Conflict_def PlainError_def)

end
