(* ===== verification/Endpoints.thy ===== *)
theory Endpoints
  imports Auth_Guard Effect
begin

text \<open>
  The decorators of \<^verbatim>\<open>packages/tsed-auth/src/decorators.ts\<close> on an endpoint: what each puts into the
  endpoint's options and into its OpenAPI operation, in the order they run, and a request served by
  an endpoint they guard. The merge of endpoint options is the framework's and a parameter.
\<close>

subsection \<open>The decorators\<close>

datatype auth_decorator =
    Use_Authenticate "string list"
  | Use_RequireRoles "string list"
  | Use_Anonymous

text \<open>
  What the guard runs on: the codec of the method list, the framework's merge of a contribution into
  the options an endpoint already has, and the configured verifiers.
\<close>

record guard_env =
  ge_isNotEmpty :: "string \<Rightarrow> bool"
  ge_parse :: "string \<Rightarrow> thrown + json"
  ge_stringify :: "json \<Rightarrow> string"
  ge_merge :: "guard_options \<Rightarrow> guard_options option \<Rightarrow> guard_options"
  ge_verifiers :: "(string, token_verifier) js_map"

record endpoint =
  ed_options :: "guard_options option"
  ed_security :: "string list option"
  ed_responses :: "(int \<times> string) list"

text \<open>The options handed to \<^verbatim>\<open>UseAuth\<close>.\<close>

fun contribution :: "guard_env \<Rightarrow> auth_decorator \<Rightarrow> guard_options" where
  "contribution g (Use_Authenticate methods) =
     \<lparr>go_anonymous = None, go_methods = Some (encodeMethods (ge_stringify g) methods), go_roles = None\<rparr>"
| "contribution g (Use_RequireRoles roles) = \<lparr>go_anonymous = None, go_methods = None, go_roles = Some [roles]\<rparr>"
| "contribution g Use_Anonymous = \<lparr>go_anonymous = Some True, go_methods = None, go_roles = None\<rparr>"

definition add_responses :: "(int \<times> string) list \<Rightarrow> endpoint \<Rightarrow> endpoint" where
  "add_responses rs e = e\<lparr>ed_responses := fold (\<lambda>(status, description). AList.update status description) rs (ed_responses e)\<rparr>"

text \<open>What each documents, read off the options as they are once its own are merged.\<close>

definition documentAuth :: "endpoint \<Rightarrow> endpoint" where
  "documentAuth e =
     (case documentMethod (ed_options e) of
        (None, _) \<Rightarrow> e
      | (Some scheme, rs) \<Rightarrow> add_responses rs (e\<lparr>ed_security := Some [scheme]\<rparr>))"

definition documentRoles :: "endpoint \<Rightarrow> endpoint" where
  "documentRoles e = add_responses (documentRolesMethod (ed_options e)) e"

definition Authenticate :: "guard_env \<Rightarrow> string list \<Rightarrow> endpoint \<Rightarrow> endpoint" where
  "Authenticate g methods e =
     documentAuth (e\<lparr>ed_options := Some (ge_merge g (contribution g (Use_Authenticate methods)) (ed_options e))\<rparr>)"

definition RequireRoles :: "guard_env \<Rightarrow> string list \<Rightarrow> endpoint \<Rightarrow> endpoint" where
  "RequireRoles g roles e =
     documentRoles (e\<lparr>ed_options := Some (ge_merge g (contribution g (Use_RequireRoles roles)) (ed_options e))\<rparr>)"

definition AnonymousDecorator :: "guard_env \<Rightarrow> endpoint \<Rightarrow> endpoint" where
  "AnonymousDecorator g e =
     e\<lparr>ed_options := Some (ge_merge g (contribution g Use_Anonymous) (ed_options e)), ed_security := Some []\<rparr>"

fun decorate :: "guard_env \<Rightarrow> auth_decorator \<Rightarrow> endpoint \<Rightarrow> endpoint" where
  "decorate g (Use_Authenticate methods) e = Authenticate g methods e"
| "decorate g (Use_RequireRoles roles) e = RequireRoles g roles e"
| "decorate g Use_Anonymous e = AnonymousDecorator g e"

text \<open>
  Decorators run from the declaration outwards: those of the method before those of its class, and
  the lowest of a stack first. \<open>ds\<close> lists them as they are written, the class's above the method's.
\<close>

definition undecorated :: endpoint where
  "undecorated = \<lparr>ed_options = None, ed_security = None, ed_responses = []\<rparr>"

definition decorated :: "guard_env \<Rightarrow> auth_decorator list \<Rightarrow> endpoint" where
  "decorated g ds = foldr (decorate g) ds undecorated"

lemma decorated_Cons: "decorated g (d # ds) = decorate g d (decorated g ds)"
  by (simp add: decorated_def)

subsection \<open>Serving a request\<close>

datatype ('e, 'a) reply = Rejected guard_error | Invalid_Request | Failing 'e | Answered 'a

text \<open>\<^verbatim>\<open>principalOf\<close> reads what the guard parked; \<open>valid\<close> is the verdict on the declared parameters.\<close>

definition serve ::
  "guard_env \<Rightarrow> credential_source \<Rightarrow> auth_decorator list \<Rightarrow> bool \<Rightarrow> ('e, 'a, 's) action \<Rightarrow> 's \<Rightarrow> ('e, 'a) reply \<times> 's" where
  "serve g source ds valid handler s =
     (case (case ed_options (decorated g ds) of
              None \<Rightarrow> Inr ()
            | Some opts \<Rightarrow> fst (guard_use (ge_isNotEmpty g) (ge_parse g) (ge_verifiers g) (Some opts) source)) of
        Inl e \<Rightarrow> (Rejected e, s)
      | Inr () \<Rightarrow>
          if \<not> valid then (Invalid_Request, s)
          else (case handler s of (Inl e, s') \<Rightarrow> (Failing e, s') | (Inr a, s') \<Rightarrow> (Answered a, s')))"

text \<open>
  The framework's merge: a value an inner decorator has set stays, so the method's replaces the
  class's; role requirements, being arrays, are collected.
\<close>

definition keep_inner :: "'a option \<Rightarrow> 'a option \<Rightarrow> 'a option" where
  "keep_inner inner new = (case inner of None \<Rightarrow> new | Some a \<Rightarrow> Some a)"

definition role_sets :: "guard_options option \<Rightarrow> string list set" where
  "role_sets opts = (case Option.bind opts go_roles of None \<Rightarrow> {} | Some rs \<Rightarrow> set rs)"

definition merges_options :: "guard_env \<Rightarrow> bool" where
  "merges_options g \<longleftrightarrow> (\<forall>new old.
      go_anonymous (ge_merge g new old) = keep_inner (Option.bind old go_anonymous) (go_anonymous new)
    \<and> go_methods (ge_merge g new old) = keep_inner (Option.bind old go_methods) (go_methods new)
    \<and> role_sets (Some (ge_merge g new old)) = role_sets old \<union> role_sets (Some new))"

text \<open>The options of a decorated endpoint.\<close>

definition is_open :: "guard_options option \<Rightarrow> bool" where
  "is_open opts \<longleftrightarrow> Option.bind opts go_anonymous = Some True"

lemma decorate_options:
  "ed_options (decorate g d e) = Some (ge_merge g (contribution g d) (ed_options e))"
  by (cases d) (simp_all add: Authenticate_def RequireRoles_def AnonymousDecorator_def documentAuth_def documentRoles_def
      add_responses_def split: prod.splits option.splits)

lemma decorated_none: "ed_options (decorated g ds) = None \<longleftrightarrow> ds = []"
  by (cases ds) (simp_all add: decorated_def decorate_options undecorated_def)

lemma decorated_step:
  "ed_options (decorated g (d # ds)) = Some (ge_merge g (contribution g d) (ed_options (decorated g ds)))"
  by (simp add: decorated_Cons decorate_options del: decorate.simps)

lemma undecorated_options: "ed_options (decorated g []) = None"
  by (simp add: decorated_def undecorated_def)

lemma decorated_fields:
  assumes "merges_options g"
  shows "Option.bind (ed_options (decorated g (d # ds))) go_anonymous
      = keep_inner (Option.bind (ed_options (decorated g ds)) go_anonymous) (go_anonymous (contribution g d))"
    and "Option.bind (ed_options (decorated g (d # ds))) go_methods
      = keep_inner (Option.bind (ed_options (decorated g ds)) go_methods) (go_methods (contribution g d))"
    and "role_sets (ed_options (decorated g (d # ds)))
      = role_sets (ed_options (decorated g ds)) \<union> role_sets (Some (contribution g d))"
  using assms by (simp_all add: decorated_step merges_options_def)

lemma decorated_anonymous:
  assumes "merges_options g"
  shows "Option.bind (ed_options (decorated g ds)) go_anonymous = (if Use_Anonymous \<in> set ds then Some True else None)"
proof (induction ds)
  case Nil
  then show ?case by (simp add: undecorated_options)
next
  case (Cons d ds)
  then show ?case by (cases d) (simp_all add: decorated_fields [OF assms] keep_inner_def)
qed

lemma decorated_roles:
  assumes "merges_options g"
  shows "role_sets (ed_options (decorated g ds)) = {rs. Use_RequireRoles rs \<in> set ds}"
proof (induction ds)
  case Nil
  then show ?case by (simp add: undecorated_options role_sets_def)
next
  case (Cons d ds)
  have own: "role_sets (Some (contribution g d)) = {rs. d = Use_RequireRoles rs}" by (cases d) (auto simp: role_sets_def)
  show ?case unfolding decorated_fields(3) [OF assms] Cons own by auto
qed

lemma decorated_methods:
  assumes "merges_options g" and "\<forall>ms. Use_Authenticate ms \<in> set ds \<longrightarrow> ms = methods"
  shows "Option.bind (ed_options (decorated g ds)) go_methods
    = (if Use_Authenticate methods \<in> set ds then Some (encodeMethods (ge_stringify g) methods) else None)"
  using assms(2)
proof (induction ds)
  case Nil
  then show ?case by (simp add: undecorated_options)
next
  case (Cons d ds)
  have own: "d = Use_Authenticate ms \<Longrightarrow> ms = methods" for ms using Cons.prems by simp
  have IH: "Option.bind (ed_options (decorated g ds)) go_methods
      = (if Use_Authenticate methods \<in> set ds then Some (encodeMethods (ge_stringify g) methods) else None)"
    by (rule Cons.IH) (use Cons.prems in simp)
  show ?case using own by (cases d) (simp_all add: decorated_fields [OF assms(1)] IH keep_inner_def)
qed

lemma satisfies_sets: "satisfies p rs \<longleftrightarrow> (\<forall>anyOf \<in> set rs. anyOf = [] \<or> (\<exists>role \<in> set anyOf. role \<in> set (p_roles p)))"
  by (auto simp: satisfies_def list_all_iff list_ex_iff)

text \<open>
  Who gets past an endpoint all whose \<^verbatim>\<open>@Authenticate\<close> name one list of methods: a caller one of the
  methods verified, with a role of every \<^verbatim>\<open>@RequireRoles\<close> around it.
\<close>

definition reads_methods :: "guard_env \<Rightarrow> string list \<Rightarrow> bool" where
  "reads_methods g methods \<longleftrightarrow> decodeMethods (ge_isNotEmpty g) (ge_parse g) (Some (encodeMethods (ge_stringify g) methods)) = methods"

definition admitted :: "guard_env \<Rightarrow> credential_source \<Rightarrow> string list \<Rightarrow> auth_decorator list \<Rightarrow> principal \<Rightarrow> bool" where
  "admitted g source methods ds p \<longleftrightarrow>
     (\<exists>m v. m \<in> set methods \<and> map_of (ge_verifiers g) m = Some v \<and> consult v source = Verified p)
   \<and> (\<forall>roles. Use_RequireRoles roles \<in> set ds \<longrightarrow> roles = [] \<or> (\<exists>role \<in> set roles. role \<in> set (p_roles p)))"

lemma served_admitted:
  assumes laws: "merges_options g" "reads_methods g methods"
    and ds: "\<forall>ms. Use_Authenticate ms \<in> set ds \<longrightarrow> ms = methods" "Use_Authenticate methods \<in> set ds" "Use_Anonymous \<notin> set ds"
    and run: "\<not> (\<exists>e. serve g source ds valid handler s = (Rejected e, s))"
  shows "\<exists>p. admitted g source methods ds p"
proof -
  obtain opts where opts: "ed_options (decorated g ds) = Some opts" using decorated_none [of g ds] ds(2) by fastforce
  obtain parked where pass: "guard_use (ge_isNotEmpty g) (ge_parse g) (ge_verifiers g) (Some opts) source = (Inr (), parked)"
  proof (cases "guard_use (ge_isNotEmpty g) (ge_parse g) (ge_verifiers g) (Some opts) source")
    case (Pair r parked)
    with run show ?thesis using that by (cases r) (simp_all add: serve_def opts)
  qed
  from decorated_anonymous [OF laws(1), of ds] opts ds(3) have closed: "Option.bind (Some opts) go_anonymous \<noteq> Some True" by simp
  from decorated_methods [OF laws(1) ds(1)] opts ds(2) laws(2)
  have named: "decodeMethods (ge_isNotEmpty g) (ge_parse g) (Option.bind (Some opts) go_methods) = methods"
    by (simp add: reads_methods_def)
  from guard_passes [OF pass] closed named obtain p vs where
    vs: "map (map_of (ge_verifiers g)) methods = map Some vs" "\<exists>v \<in> set vs. consult v source = Verified p"
    and roles: "\<forall>rs. go_roles opts = Some rs \<longrightarrow> (\<forall>anyOf \<in> set rs. anyOf = [] \<or> (\<exists>role \<in> set anyOf. role \<in> set (p_roles p)))"
    by auto
  from vs obtain v where v: "v \<in> set vs" "consult v source = Verified p" by blast
  then have "Some v \<in> set (map (map_of (ge_verifiers g)) methods)" unfolding vs(1) by simp
  with v(2) have "\<exists>m v. m \<in> set methods \<and> map_of (ge_verifiers g) m = Some v \<and> consult v source = Verified p"
    by (metis (no_types, lifting) imageE list.set_map)
  moreover have "roles = [] \<or> (\<exists>role \<in> set roles. role \<in> set (p_roles p))" if "Use_RequireRoles roles \<in> set ds" for roles
  proof -
    from that have "roles \<in> role_sets (Some opts)" using decorated_roles [OF laws(1), of ds] opts by simp
    then obtain rs where "go_roles opts = Some rs" "roles \<in> set rs" by (auto simp: role_sets_def split: option.splits)
    with roles show ?thesis by blast
  qed
  ultimately show ?thesis by (auto simp: admitted_def)
qed

lemma served_state:
  assumes "serve g source ds valid handler s = (r, s')" and "s' \<noteq> s"
  shows "(\<nexists>e. r = Rejected e) \<and> s' = snd (handler s)"
  using assms by (auto simp: serve_def split: sum.splits if_splits prod.splits unit.splits)

subsection \<open>The document and the guard\<close>

text \<open>
  The document of an endpoint says what its guard does, on the endpoints the services write:
  \<^verbatim>\<open>@Anonymous\<close>, where there is one, is the only one of these decorators on its method.
\<close>

definition documented :: "endpoint \<Rightarrow> int set" where
  "documented e = fst ` set (ed_responses e)"

lemma update_keys: "fst ` set (AList.update k v xs) = insert k (fst ` set xs)"
  by (simp add: dom_map_of_conv_image_fst [symmetric] update_conv')

lemma documented_add: "documented (add_responses rs e) = documented e \<union> fst ` set rs"
proof -
  have "fst ` set (fold (\<lambda>(k, v). AList.update k v) rs xs) = fst ` set xs \<union> fst ` set rs" for xs
    by (induction rs arbitrary: xs) (simp_all add: update_keys case_prod_beta)
  then show ?thesis by (simp add: documented_def add_responses_def)
qed

lemma endpoint_parts [simp]:
  "documented (e\<lparr>ed_options := opts\<rparr>) = documented e" "documented (e\<lparr>ed_security := sec\<rparr>) = documented e"
  "ed_security (add_responses rs e) = ed_security e" "ed_options (add_responses rs e) = ed_options e"
  by (simp_all add: documented_def add_responses_def)

lemma roles_documented:
  assumes "\<not> is_open opts"
  shows "fst ` set (documentRolesMethod opts) = {status. status = 403 \<and> (\<exists>rs \<in> role_sets opts. rs \<noteq> [])}"
  using assms by (auto simp: documentRolesMethod_def is_open_def role_sets_def Let_def filter_empty_conv split: option.splits)

text \<open>One more decorator outside.\<close>

lemma Authenticate_documents:
  "ed_security (decorated g (Use_Authenticate ms # ds)) = (if is_open (ed_options (decorated g (Use_Authenticate ms # ds)))
     then ed_security (decorated g ds) else Some [''BEARER_JWT''])"
  "documented (decorated g (Use_Authenticate ms # ds)) = documented (decorated g ds)
     \<union> (if is_open (ed_options (decorated g (Use_Authenticate ms # ds))) then {} else {401, 503})"
  by (simp_all add: decorated_step) (simp_all add: decorated_Cons Authenticate_def documentAuth_def documentMethod_def
      is_open_def documented_add)

lemma RequireRoles_documents:
  "ed_security (decorated g (Use_RequireRoles rs # ds)) = ed_security (decorated g ds)"
  "\<not> is_open (ed_options (decorated g (Use_RequireRoles rs # ds))) \<Longrightarrow>
     documented (decorated g (Use_RequireRoles rs # ds)) = documented (decorated g ds)
       \<union> {status. status = 403 \<and> (\<exists>rs \<in> role_sets (ed_options (decorated g (Use_RequireRoles rs # ds))). rs \<noteq> [])}"
  "is_open (ed_options (decorated g (Use_RequireRoles rs # ds))) \<Longrightarrow>
     documented (decorated g (Use_RequireRoles rs # ds)) = documented (decorated g ds)"
  by (simp_all add: decorated_Cons RequireRoles_def documentRoles_def documented_add roles_documented)
    (simp add: documentRolesMethod_def is_open_def)

lemma open_iff: "merges_options g \<Longrightarrow> is_open (ed_options (decorated g ds)) \<longleftrightarrow> Use_Anonymous \<in> set ds"
  by (simp add: is_open_def decorated_anonymous)

lemma closed_document:
  assumes "merges_options g" and "Use_Anonymous \<notin> set ds"
  shows "ed_security (decorated g ds) = (if \<exists>ms. Use_Authenticate ms \<in> set ds then Some [''BEARER_JWT''] else None)
    \<and> documented (decorated g ds) = {status. status \<in> {401, 503} \<and> (\<exists>ms. Use_Authenticate ms \<in> set ds)}
        \<union> {status. status = 403 \<and> (\<exists>rs. rs \<noteq> [] \<and> Use_RequireRoles rs \<in> set ds)}"
  using assms(2)
proof (induction ds)
  case Nil
  then show ?case by (simp add: decorated_def undecorated_def documented_def)
next
  case (Cons d ds)
  have shut: "\<not> is_open (ed_options (decorated g (d # ds)))" using Cons.prems by (simp add: open_iff [OF assms(1)])
  have IH: "ed_security (decorated g ds) = (if \<exists>ms. Use_Authenticate ms \<in> set ds then Some [''BEARER_JWT''] else None)"
    "documented (decorated g ds) = {status. status \<in> {401, 503} \<and> (\<exists>ms. Use_Authenticate ms \<in> set ds)}
        \<union> {status. status = 403 \<and> (\<exists>rs. rs \<noteq> [] \<and> Use_RequireRoles rs \<in> set ds)}"
    using Cons by simp_all
  show ?case
  proof (cases d)
    case (Use_Authenticate ms)
    then show ?thesis using shut IH by (auto simp: Authenticate_documents)
  next
    case (Use_RequireRoles rs)
    have "\<exists>rs' \<in> role_sets (ed_options (decorated g (d # ds))). rs' \<noteq> []" if "\<exists>rs'. rs' \<noteq> [] \<and> Use_RequireRoles rs' \<in> set (d # ds)"
      using that unfolding decorated_roles [OF assms(1)] by blast
    moreover have "\<exists>rs'. rs' \<noteq> [] \<and> Use_RequireRoles rs' \<in> set (d # ds)"
      if "\<exists>rs' \<in> role_sets (ed_options (decorated g (d # ds))). rs' \<noteq> []"
      using that unfolding decorated_roles [OF assms(1)] by blast
    ultimately show ?thesis using shut IH unfolding Use_RequireRoles
      by (simp add: RequireRoles_documents) blast
  next
    case Use_Anonymous
    with Cons.prems show ?thesis by simp
  qed
qed

lemma open_document:
  assumes "merges_options g" and "Use_Anonymous \<notin> set ds"
  shows "ed_security (decorated g (ds @ [Use_Anonymous])) = Some [] \<and> documented (decorated g (ds @ [Use_Anonymous])) = {}"
  using assms(2)
proof (induction ds)
  case Nil
  then show ?case by (simp add: decorated_def undecorated_def documented_def AnonymousDecorator_def)
next
  case (Cons d ds)
  have "is_open (ed_options (decorated g (d # ds @ [Use_Anonymous])))" by (simp add: open_iff [OF assms(1)])
  with Cons show ?case by (cases d) (simp_all add: Authenticate_documents RequireRoles_documents)
qed

text \<open>A guard with no verifier at all lets a request without credentials through.\<close>

definition lets_in :: "guard_env \<Rightarrow> endpoint \<Rightarrow> bool" where
  "lets_in g e \<longleftrightarrow> fst (guard_use (ge_isNotEmpty g) (ge_parse g) [] (ed_options e) (\<lambda>_. None)) = Inr ()"

lemma lets_in_open: "lets_in g e \<longleftrightarrow> is_open (ed_options e)"
proof -
  have "fst (authenticate [] source methods) \<noteq> Inr d" for source methods d
    by (cases methods) (simp_all add: authenticate_def)
  then show ?thesis
    by (auto simp: lets_in_def guard_use_def is_open_def Let_def split: sum.splits)
qed

text \<open>
  Property C13. An operation is documented the way its guard behaves. Where the class authenticates without
  \<^verbatim>\<open>@Anonymous\<close>, and its method carries \<^verbatim>\<open>@Anonymous\<close> alone or not at all, the operation says that it needs nothing exactly when
  a request without credentials gets through, names the bearer scheme and the 401 and 503 otherwise,
  and a 403 exactly when some verified caller would be refused for its roles.
\<close>

theorem document_matches_guard:
  assumes "merges_options g" and "Use_Authenticate ms \<in> set class_ds" and "Use_Anonymous \<notin> set class_ds"
    and "method_ds = [Use_Anonymous] \<or> Use_Anonymous \<notin> set method_ds" and "e = decorated g (class_ds @ method_ds)"
  shows "ed_security e = Some (if lets_in g e then [] else [''BEARER_JWT''])
    \<and> documented e = (if lets_in g e then {} else {401, 503}
        \<union> {status. status = 403 \<and> (\<exists>p rs. Option.bind (ed_options e) go_roles = Some rs \<and> \<not> satisfies p rs)})"
proof (cases "Use_Anonymous \<in> set method_ds")
  case True
  with assms have "method_ds = [Use_Anonymous]" by auto
  with open_document [OF assms(1,3)] assms(5) open_iff [OF assms(1), of "class_ds @ method_ds"] show ?thesis
    by (simp add: lets_in_open)
next
  case False
  then have shut: "Use_Anonymous \<notin> set (class_ds @ method_ds)" using assms(3) by simp
  have "(\<exists>rs. rs \<noteq> [] \<and> Use_RequireRoles rs \<in> set (class_ds @ method_ds))
    \<longleftrightarrow> (\<exists>rs \<in> role_sets (ed_options e). rs \<noteq> [])" unfolding assms(5) decorated_roles [OF assms(1)] by blast
  also have "\<dots> \<longleftrightarrow> (\<exists>rs. Option.bind (ed_options e) go_roles = Some rs \<and> (\<exists>anyOf \<in> set rs. anyOf \<noteq> []))"
    by (auto simp: role_sets_def split: option.splits)
  also have "\<dots> \<longleftrightarrow> (\<exists>p rs. Option.bind (ed_options e) go_roles = Some rs \<and> \<not> satisfies p rs)"
  proof -
    have "\<not> satisfies \<lparr>p_subject = [], p_kind = Human, p_displayName = None, p_roles = [], p_issuer = []\<rparr> rs"
      if "\<exists>anyOf \<in> set rs. anyOf \<noteq> []" for rs using that by (auto simp: satisfies_sets)
    moreover have "\<exists>anyOf \<in> set rs. anyOf \<noteq> []" if "\<not> satisfies p rs" for p rs using that by (auto simp: satisfies_sets)
    ultimately show ?thesis by blast
  qed
  finally show ?thesis
    using closed_document [OF assms(1) shut] assms(2,5) open_iff [OF assms(1), of "class_ds @ method_ds"] shut
    by (auto simp: lets_in_open)
qed

text \<open>A framework that merges this way, and a codec for the one method list the services name.\<close>

definition merged_options :: "guard_options \<Rightarrow> guard_options option \<Rightarrow> guard_options" where
  "merged_options new old =
     \<lparr>go_anonymous = keep_inner (Option.bind old go_anonymous) (go_anonymous new),
      go_methods = keep_inner (Option.bind old go_methods) (go_methods new),
      go_roles = (case Option.bind old go_roles of
          None \<Rightarrow> go_roles new
        | Some rs \<Rightarrow> Some (rs @ (case go_roles new of None \<Rightarrow> [] | Some rs' \<Rightarrow> rs')))\<rparr>"

definition sample_guard :: guard_env where
  "sample_guard = \<lparr>ge_isNotEmpty = (\<lambda>s. s \<noteq> []), ge_parse = (\<lambda>_. Inr (JArr [JStr ''IDP''])), ge_stringify = (\<lambda>_. ''x''),
     ge_merge = merged_options, ge_verifiers = [(''IDP'', trusting_verifier)]\<rparr>"

lemma sample_guard_merges: "merges_options sample_guard"
  by (auto simp: merges_options_def sample_guard_def merged_options_def role_sets_def split: option.splits)

lemma sample_guard_reads: "reads_methods sample_guard [''IDP'']"
  by (simp add: reads_methods_def sample_guard_def decodeMethods_def encodeMethods_def List.map_filter_def)

lemma document_matches_guard_witness:
  "ed_security (decorated sample_guard [Use_Authenticate [''IDP''], Use_RequireRoles [''admin'']])
    = Some (if lets_in sample_guard (decorated sample_guard [Use_Authenticate [''IDP''], Use_RequireRoles [''admin'']])
        then [] else [''BEARER_JWT''])"
  using document_matches_guard [OF sample_guard_merges, of "[''IDP'']" "[Use_Authenticate [''IDP''], Use_RequireRoles [''admin'']]" "[]"]
  by simp

end
