(* ===== verification/Miot_Transport.thy ===== *)
theory Miot_Transport
  imports Miot_Packet
begin

text \<open>
  \<^verbatim>\<open>packages/miot-device/src/MiotTransport.ts\<close>: one UDP exchange per call, and the four miIO calls
  built on it. The events a socket and its timer deliver to one exchange are a list: what a
  datagram provokes is the parameter \<open>net_exchange\<close>, over an arbitrary world \<open>'w\<close>, together with
  the clock \<open>Date.now()\<close>. The timer was armed before, so it fires last unless it was cleared.
  Log lines carry no state and are left out.
\<close>

definition MIOT_DEFAULT_PORT :: int where "MIOT_DEFAULT_PORT = 54321"
definition MIOT_TIMEOUT_MS :: int where "MIOT_TIMEOUT_MS = 10000"

record miot_transport =
  tr_address :: string
  tr_token :: token_input
  tr_port :: int

definition MiotTransport :: "string \<Rightarrow> token_input \<Rightarrow> int option \<Rightarrow> miot_transport" where
  "MiotTransport address token port =
     \<lparr>tr_address = address, tr_token = token,
      tr_port = (case port of None \<Rightarrow> MIOT_DEFAULT_PORT | Some p \<Rightarrow> p)\<rparr>"

datatype udp_event =
    Timer_Fired
  | Message_Received "byte list"
  | Socket_Error thrown
  | Send_Done "thrown option"

record 'w network =
  net_exchange :: "string \<Rightarrow> int \<Rightarrow> byte list \<Rightarrow> 'w \<Rightarrow> udp_event list \<times> 'w"
  net_now :: "'w \<Rightarrow> int"

definition transportError :: "miot_method \<Rightarrow> thrown \<Rightarrow> thrown" where
  "transportError method cause =
     MiotError (error_text cause) MIOT_ERROR_TRANSPORT_ERROR method None (Some cause) False"

definition propertyError :: "miot_method \<Rightarrow> json option \<Rightarrow> thrown" where
  "propertyError method code =
     MiotError (miot_method_text method @ '' failed: code ''
         @ (if is_nil code then ''unknown'' else show_undef code))
       MIOT_ERROR_DEVICE_ERROR method code None False"

definition timeoutError :: "string \<Rightarrow> miot_transport \<Rightarrow> miot_method \<Rightarrow> thrown" where
  "timeoutError what tr method =
     MiotError (what @ '' timeout: no response from '' @ tr_address tr @ '':'' @ show_int (tr_port tr))
       MIOT_ERROR_TIMEOUT method None None False"

subsection \<open>One exchange\<close>

text \<open>\<open>ex_closes\<close> counts the calls of \<open>socket.close()\<close>; a second one would throw.\<close>

record 'a exchange =
  ex_settled :: bool
  ex_timer_cleared :: bool
  ex_closes :: nat
  ex_outcome :: "(thrown + 'a) option"

definition exchange_start :: "'a exchange" where
  "exchange_start = \<lparr>ex_settled = False, ex_timer_cleared = False, ex_closes = 0, ex_outcome = None\<rparr>"

definition clear_timer :: "'a exchange \<Rightarrow> 'a exchange" where
  "clear_timer st = st\<lparr>ex_timer_cleared := True\<rparr>"

definition done_with :: "thrown \<Rightarrow> 'a exchange \<Rightarrow> 'a exchange" where
  "done_with err st =
     (if ex_settled st then st
      else st\<lparr>ex_settled := True, ex_closes := ex_closes st + 1, ex_outcome := Some (Inl err)\<rparr>)"

definition on_message :: "(byte list \<Rightarrow> thrown + 'a) \<Rightarrow> byte list \<Rightarrow> 'a exchange \<Rightarrow> 'a exchange" where
  "on_message read msg st =
     (let st = clear_timer st in
      if ex_settled st then st
      else st\<lparr>ex_settled := True, ex_closes := ex_closes st + 1, ex_outcome := Some (read msg)\<rparr>)"

definition exchange_step ::
  "thrown \<Rightarrow> miot_method \<Rightarrow> (byte list \<Rightarrow> thrown + 'a) \<Rightarrow> udp_event \<Rightarrow> 'a exchange \<Rightarrow> 'a exchange" where
  "exchange_step timeout_err method read ev st =
     (case ev of
        Timer_Fired \<Rightarrow> if ex_timer_cleared st then st else done_with timeout_err st
      | Message_Received msg \<Rightarrow> on_message read msg st
      | Socket_Error e \<Rightarrow> done_with (transportError method e) (clear_timer st)
      | Send_Done None \<Rightarrow> st
      | Send_Done (Some e) \<Rightarrow> done_with (transportError method e) (clear_timer st))"

text \<open>What the code does with an event that finds the exchange open.\<close>

fun exchange_verdict ::
  "thrown \<Rightarrow> miot_method \<Rightarrow> (byte list \<Rightarrow> thrown + 'a) \<Rightarrow> udp_event \<Rightarrow> (thrown + 'a) option" where
  "exchange_verdict t m read Timer_Fired = Some (Inl t)"
| "exchange_verdict t m read (Message_Received msg) = Some (read msg)"
| "exchange_verdict t m read (Socket_Error e) = Some (Inl (transportError m e))"
| "exchange_verdict t m read (Send_Done None) = None"
| "exchange_verdict t m read (Send_Done (Some e)) = Some (Inl (transportError m e))"

definition exchange_ok :: "'a exchange \<Rightarrow> bool" where
  "exchange_ok st \<longleftrightarrow> (ex_settled st \<longleftrightarrow> ex_outcome st \<noteq> None)
     \<and> ex_closes st = (if ex_settled st then 1 else 0) \<and> (ex_timer_cleared st \<longrightarrow> ex_settled st)"

lemma exchange_start_ok [simp]: "exchange_ok exchange_start" "ex_outcome exchange_start = None"
  by (simp_all add: exchange_ok_def exchange_start_def)

lemma exchange_step_ok: "exchange_ok st \<Longrightarrow> exchange_ok (exchange_step t m read ev st)"
  by (auto simp: exchange_ok_def exchange_step_def done_with_def on_message_def clear_timer_def
      split: udp_event.splits option.splits)

interpretation exchange: one_shot "exchange_step t m read" ex_outcome exchange_ok "exchange_verdict t m read"
  for t m and read :: "byte list \<Rightarrow> thrown + 'a"
proof
  fix st :: "'a exchange" and r e
  assume ok: "exchange_ok st"
  show "exchange_ok (exchange_step t m read e st)" by (rule exchange_step_ok [OF ok])
  show "ex_outcome (exchange_step t m read e st) = Some r" if "ex_outcome st = Some r"
    using ok that by (auto simp: exchange_ok_def exchange_step_def done_with_def on_message_def
        clear_timer_def Let_def split: udp_event.splits option.splits)
  show "ex_outcome (exchange_step t m read e st) = exchange_verdict t m read e" if "ex_outcome st = None"
  proof (cases e)
    case (Send_Done x)
    with ok that show ?thesis
      by (cases x) (auto simp: exchange_ok_def exchange_step_def done_with_def clear_timer_def)
  qed (use ok that in \<open>auto simp: exchange_ok_def exchange_step_def done_with_def on_message_def clear_timer_def Let_def\<close>)
qed

definition exchange_run ::
  "thrown \<Rightarrow> miot_method \<Rightarrow> (byte list \<Rightarrow> thrown + 'a) \<Rightarrow> udp_event list \<Rightarrow> 'a exchange" where
  "exchange_run t m read evs = fold (exchange_step t m read) (evs @ [Timer_Fired]) exchange_start"

definition await_exchange ::
  "thrown \<Rightarrow> miot_method \<Rightarrow> (byte list \<Rightarrow> thrown + 'a) \<Rightarrow> udp_event list \<Rightarrow> thrown + 'a" where
  "await_exchange t m read evs =
     (case ex_outcome (exchange_run t m read evs) of Some r \<Rightarrow> r | None \<Rightarrow> Inl t)"

lemma await_exchange_eq:
  "await_exchange t m read evs =
     (case first_some (exchange_verdict t m read) evs of Some r \<Rightarrow> r | None \<Rightarrow> Inl t)"
  by (simp add: await_exchange_def exchange_run_def exchange.outcome_run first_some_append
      del: fold_append split: option.splits)

text \<open>
  Property C8. One exchange settles exactly once, whatever events arrive and in whatever order:
  the socket is closed exactly one time, the first decisive event (a datagram, a socket error, a
  failed send, the timer) gives the outcome, and everything that arrives later changes nothing.
\<close>

theorem exchange_settles_once:
  "ex_settled (exchange_run t m read evs) \<and> ex_closes (exchange_run t m read evs) = 1
    \<and> ex_outcome (exchange_run t m read evs)
      = Some (case first_some (exchange_verdict t m read) evs of Some r \<Rightarrow> r | None \<Rightarrow> Inl t)"
proof -
  have out: "ex_outcome (exchange_run t m read evs)
      = Some (case first_some (exchange_verdict t m read) evs of Some r \<Rightarrow> r | None \<Rightarrow> Inl t)"
    by (simp add: exchange_run_def exchange.outcome_run first_some_append del: fold_append split: option.splits)
  have "exchange_ok (exchange_run t m read evs)"
    unfolding exchange_run_def by (rule exchange.invar_run) simp
  then show ?thesis using out by (simp add: exchange_ok_def)
qed

subsection \<open>The hello exchange\<close>

record discover_result =
  dr_deviceId :: int
  dr_stamp :: int

definition read_hello :: "byte list \<Rightarrow> thrown + discover_result" where
  "read_hello msg =
     (case parseHello msg of
        Inl e \<Rightarrow> Inl (transportError MIOT_METHOD_HANDSHAKE e)
      | Inr i \<Rightarrow> Inr \<lparr>dr_deviceId = hello_deviceId i, dr_stamp = hello_stamp i\<rparr>)"

definition handshake ::
  "runtime \<Rightarrow> 'w network \<Rightarrow> miot_transport \<Rightarrow> 'w \<Rightarrow> (thrown + discover_result) \<times> 'w" where
  "handshake rt net tr w =
     (case hello_raw rt (net_now net w) of
        Inl e \<Rightarrow> (Inl e, w)
      | Inr hello \<Rightarrow>
          (let (evs, w') = net_exchange net (tr_address tr) (tr_port tr) hello w
           in (await_exchange (timeoutError ''Handshake'' tr MIOT_METHOD_HANDSHAKE)
                 MIOT_METHOD_HANDSHAKE read_hello evs, w')))"

subsection \<open>A command\<close>

definition device_error :: "miot_method \<Rightarrow> json \<Rightarrow> thrown" where
  "device_error method err =
     MiotError (''Device error '' @ show_undef (js_get ''code'' err) @ '': '' @ show_undef (js_get ''message'' err))
       MIOT_ERROR_DEVICE_ERROR method (js_get ''code'' err) None False"

definition read_response :: "runtime \<Rightarrow> miot_transport \<Rightarrow> miot_method \<Rightarrow> byte list \<Rightarrow> thrown + json" where
  "read_response rt tr method msg =
     (case IncomingPacket rt msg (tr_token tr) of
        Inl e \<Rightarrow> Inl (transportError method e)
      | Inr packet \<Rightarrow>
          (case incoming_json rt packet of
             Inl e \<Rightarrow> Inl (transportError method e)
           | Inr None \<Rightarrow> Inl (MiotError ''Empty response from device'' MIOT_ERROR_TRANSPORT_ERROR method None None False)
           | Inr (Some j) \<Rightarrow>
               if j = JNull
               then Inl (MiotError ''Empty response from device'' MIOT_ERROR_TRANSPORT_ERROR method None None False)
               else case js_get ''error'' j of
                   Some err \<Rightarrow> if err = JNull then Inr j else Inl (device_error method err)
                 | None \<Rightarrow> Inr j))"

definition sendCommand ::
  "runtime \<Rightarrow> 'w network \<Rightarrow> miot_transport \<Rightarrow> int \<Rightarrow> int \<Rightarrow> miot_method \<Rightarrow> json \<Rightarrow> 'w
     \<Rightarrow> (thrown + json) \<times> 'w" where
  "sendCommand rt net tr deviceId stamp method params w =
     (case command_raw rt (net_now net w) (tr_token tr) deviceId stamp
             [(''method'', JStr (miot_method_text method)), (''params'', params)] of
        Inl e \<Rightarrow> (Inl e, w)
      | Inr raw \<Rightarrow>
          (let (evs, w') = net_exchange net (tr_address tr) (tr_port tr) raw w
           in (await_exchange (timeoutError ''Command'' tr method) method (read_response rt tr method) evs, w')))"

subsection \<open>The four calls\<close>

text \<open>\<open>checked_item\<close> is the check both single-property calls make of \<open>response.result\<close>.\<close>

definition checked_item :: "miot_method \<Rightarrow> json \<Rightarrow> thrown + json" where
  "checked_item method response =
     (let item = js_first (js_get ''result'' response) in
      case item of
        None \<Rightarrow> Inl (propertyError method None)
      | Some i \<Rightarrow>
          if i = JNull \<or> js_get ''code'' i \<noteq> Some (JNum 0)
          then Inl (propertyError method (js_get ''code'' i)) else Inr i)"

definition did_params :: "int \<Rightarrow> int \<Rightarrow> int \<Rightarrow> (string \<times> json) list" where
  "did_params deviceId siid piid =
     [(''did'', JStr (show_int deviceId)), (''siid'', JNum siid), (''piid'', JNum piid)]"

definition getProperty ::
  "runtime \<Rightarrow> 'w network \<Rightarrow> miot_transport \<Rightarrow> int \<Rightarrow> int \<Rightarrow> int \<Rightarrow> int \<Rightarrow> 'w \<Rightarrow> (thrown + json option) \<times> 'w" where
  "getProperty rt net tr deviceId stamp siid piid w =
     (case sendCommand rt net tr deviceId stamp MIOT_METHOD_GET_PROPERTIES
             (JArr [JObj (did_params deviceId siid piid)]) w of
        (Inl e, w') \<Rightarrow> (Inl e, w')
      | (Inr response, w') \<Rightarrow>
          (case checked_item MIOT_METHOD_GET_PROPERTIES response of
             Inl e \<Rightarrow> (Inl e, w')
           | Inr item \<Rightarrow> (Inr (js_get ''value'' item), w')))"

record property_result =
  pr_siid :: "json option"
  pr_piid :: "json option"
  pr_value :: "json option"
  pr_code :: "json option"

definition result_entry :: "json \<Rightarrow> thrown + property_result" where
  "result_entry item =
     (if item = JNull
      then Inl (JsError ''TypeError'' ''Cannot read properties of null (reading 'siid')'')
      else Inr \<lparr>pr_siid = js_get ''siid'' item, pr_piid = js_get ''piid'' item,
                pr_value = js_get ''value'' item, pr_code = js_get ''code'' item\<rparr>)"

fun result_entries :: "json list \<Rightarrow> thrown + property_result list" where
  "result_entries [] = Inr []"
| "result_entries (i # is) =
     (case result_entry i of
        Inl e \<Rightarrow> Inl e
      | Inr r \<Rightarrow> (case result_entries is of Inl e \<Rightarrow> Inl e | Inr rs \<Rightarrow> Inr (r # rs)))"

text \<open>\<^verbatim>\<open>for (const item of raw ?? [])\<close>: a string iterates over its characters, any other value that is
no array is not iterable.\<close>

definition response_entries :: "json \<Rightarrow> thrown + property_result list" where
  "response_entries response =
     (case js_get ''result'' response of
        None \<Rightarrow> Inr []
      | Some JNull \<Rightarrow> Inr []
      | Some (JArr items) \<Rightarrow> result_entries items
      | Some (JStr s) \<Rightarrow> result_entries (map (\<lambda>c. JStr [c]) s)
      | Some _ \<Rightarrow> Inl (JsError ''TypeError'' ''(raw ?? []) is not iterable''))"

text \<open>The loop: \<open>props\<close> not yet read, the stamp of the next packet, the results so far.\<close>

fun getProperties_loop ::
  "runtime \<Rightarrow> 'w network \<Rightarrow> miot_transport \<Rightarrow> int \<Rightarrow> int \<Rightarrow> (int \<times> int) list \<Rightarrow> property_result list \<Rightarrow> 'w
     \<Rightarrow> (thrown + (property_result list \<times> int)) \<times> 'w" where
  "getProperties_loop rt net tr deviceId currentStamp [] results w = (Inr (results, currentStamp), w)"
| "getProperties_loop rt net tr deviceId currentStamp ((siid, piid) # props) results w =
     (case sendCommand rt net tr deviceId currentStamp MIOT_METHOD_GET_PROPERTIES
             (JArr [JObj (did_params deviceId siid piid)]) w of
        (Inl e, w') \<Rightarrow> (Inl e, w')
      | (Inr response, w') \<Rightarrow>
          (case response_entries response of
             Inl e \<Rightarrow> (Inl e, w')
           | Inr rs \<Rightarrow> getProperties_loop rt net tr deviceId
                (if props \<noteq> [] then currentStamp + 1 else currentStamp) props (results @ rs) w'))"

definition getProperties ::
  "runtime \<Rightarrow> 'w network \<Rightarrow> miot_transport \<Rightarrow> int \<Rightarrow> int \<Rightarrow> (int \<times> int) list \<Rightarrow> 'w
     \<Rightarrow> (thrown + (property_result list \<times> int)) \<times> 'w" where
  "getProperties rt net tr deviceId stamp props w = getProperties_loop rt net tr deviceId stamp props [] w"

definition setProperty ::
  "runtime \<Rightarrow> 'w network \<Rightarrow> miot_transport \<Rightarrow> int \<Rightarrow> int \<Rightarrow> int \<Rightarrow> int \<Rightarrow> json option \<Rightarrow> 'w \<Rightarrow> (thrown + unit) \<times> 'w" where
  "setProperty rt net tr deviceId stamp siid piid value w =
     (case sendCommand rt net tr deviceId stamp MIOT_METHOD_SET_PROPERTIES
             (JArr [JObj (did_params deviceId siid piid @ (case value of None \<Rightarrow> [] | Some v \<Rightarrow> [(''value'', v)]))]) w of
        (Inl e, w') \<Rightarrow> (Inl e, w')
      | (Inr response, w') \<Rightarrow>
          (case checked_item MIOT_METHOD_SET_PROPERTIES response of
             Inl e \<Rightarrow> (Inl e, w') | Inr _ \<Rightarrow> (Inr (), w')))"

definition action_args :: "json option \<Rightarrow> json list" where
  "action_args args = (case args of None \<Rightarrow> [] | Some (JArr xs) \<Rightarrow> xs | Some v \<Rightarrow> [v])"

definition callAction ::
  "runtime \<Rightarrow> 'w network \<Rightarrow> miot_transport \<Rightarrow> int \<Rightarrow> int \<Rightarrow> int \<Rightarrow> int \<Rightarrow> json option \<Rightarrow> 'w
     \<Rightarrow> (thrown + unit) \<times> 'w" where
  "callAction rt net tr deviceId stamp siid aiid args w =
     (case sendCommand rt net tr deviceId stamp MIOT_METHOD_ACTION
             (JObj [(''did'', JStr (show_int deviceId)), (''siid'', JNum siid), (''aiid'', JNum aiid),
                    (''in'', JArr (action_args args))]) w of
        (Inl e, w') \<Rightarrow> (Inl e, w') | (Inr _, w') \<Rightarrow> (Inr (), w'))"

subsection \<open>How a command can fail\<close>

fun decisive :: "udp_event \<Rightarrow> bool" where
  "decisive (Send_Done None) = False"
| "decisive _ = True"

lemma exchange_verdict_decisive: "exchange_verdict t m read ev = None \<longleftrightarrow> \<not> decisive ev"
  by (cases ev rule: decisive.cases) auto

lemma first_verdict:
  "first_some (exchange_verdict t m read) evs =
     (case find decisive evs of None \<Rightarrow> None | Some ev \<Rightarrow> exchange_verdict t m read ev)"
proof (induction evs)
  case (Cons ev evs)
  then show ?case
    using exchange_verdict_decisive [of t m read ev] by (cases "exchange_verdict t m read ev") auto
qed simp

lemma await_exchange_find:
  "await_exchange t m read evs =
     (case find decisive evs of
        None \<Rightarrow> Inl t
      | Some ev \<Rightarrow> (case exchange_verdict t m read ev of None \<Rightarrow> Inl t | Some r \<Rightarrow> r))"
  by (simp add: await_exchange_eq first_verdict split: option.splits)

lemma find_decisive: "find decisive evs = Some ev \<Longrightarrow> ev \<in> set evs \<and> decisive ev"
  by (induction evs) (auto split: if_splits)

text \<open>The two error shapes by their parts.\<close>

lemma transport_error_parts [simp]:
  "error_kind (transportError m e) = Some MIOT_ERROR_TRANSPORT_ERROR" "error_method (transportError m e) = Some m"
  "error_code (transportError m e) = None" "is_miot_error (transportError m e)" "\<not> stamp_refreshed (transportError m e)"
  by (simp_all add: transportError_def)

lemma timeout_error_parts [simp]:
  "error_kind (timeoutError x tr m) = Some MIOT_ERROR_TIMEOUT" "error_method (timeoutError x tr m) = Some m"
  "error_code (timeoutError x tr m) = None" "is_miot_error (timeoutError x tr m)" "\<not> stamp_refreshed (timeoutError x tr m)"
  by (simp_all add: timeoutError_def)

lemma device_error_parts [simp]:
  "error_kind (device_error m e) = Some MIOT_ERROR_DEVICE_ERROR" "error_method (device_error m e) = Some m"
  "error_code (device_error m e) = js_get ''code'' e" "is_miot_error (device_error m e)" "\<not> stamp_refreshed (device_error m e)"
  by (simp_all add: device_error_def)

lemma property_error_parts [simp]:
  "error_kind (propertyError m c) = Some MIOT_ERROR_DEVICE_ERROR" "error_method (propertyError m c) = Some m"
  "error_code (propertyError m c) = c" "is_miot_error (propertyError m c)" "\<not> stamp_refreshed (propertyError m c)"
  by (simp_all add: propertyError_def)

text \<open>The envelope error of a datagram, if it is authentic and has one.\<close>

definition envelope_error :: "runtime \<Rightarrow> miot_transport \<Rightarrow> byte list \<Rightarrow> json option" where
  "envelope_error rt tr msg =
     (case IncomingPacket rt msg (tr_token tr) of
        Inl _ \<Rightarrow> None
      | Inr p \<Rightarrow> (case incoming_json rt p of
            Inr (Some j) \<Rightarrow> (if is_nil (js_get ''error'' j) then None else js_get ''error'' j)
          | _ \<Rightarrow> None))"

lemma read_response_failed:
  assumes "read_response rt tr m msg = Inl e"
  shows "is_miot_error e \<and> error_method e = Some m \<and> \<not> stamp_refreshed e
    \<and> (case envelope_error rt tr msg of
         Some err \<Rightarrow> error_kind e = Some MIOT_ERROR_DEVICE_ERROR \<and> error_code e = js_get ''code'' err
       | None \<Rightarrow> error_kind e = Some MIOT_ERROR_TRANSPORT_ERROR \<and> error_code e = None)"
  using assms by (auto simp: read_response_def envelope_error_def is_nil_def js_get_def
      split: sum.splits option.splits if_splits)

text \<open>
  Property C5. Every way a command that reached the wire can fail is classified, and only by what
  the device did: it is a \<open>MiotError\<close> naming the method; it is a timeout exactly when nothing
  decisive arrived before the timer, a device error exactly when the first decisive event is an
  authentic response with an \<open>error\<close> envelope, whose code it carries, and a transport error in
  every other case; no other failure carries a code.
\<close>

theorem sendCommand_failure_classified:
  assumes raw: "command_raw rt (net_now net w) (tr_token tr) d s
      [(''method'', JStr (miot_method_text m)), (''params'', params)] = Inr raw"
    and wire: "net_exchange net (tr_address tr) (tr_port tr) raw w = (evs, w')"
    and fail: "fst (sendCommand rt net tr d s m params w) = Inl e"
  shows "is_miot_error e \<and> error_method e = Some m \<and> \<not> stamp_refreshed e
    \<and> (error_kind e, error_code e) =
        (case find decisive evs of
           None \<Rightarrow> (Some MIOT_ERROR_TIMEOUT, None)
         | Some Timer_Fired \<Rightarrow> (Some MIOT_ERROR_TIMEOUT, None)
         | Some (Message_Received msg) \<Rightarrow>
             (case envelope_error rt tr msg of
                Some err \<Rightarrow> (Some MIOT_ERROR_DEVICE_ERROR, js_get ''code'' err)
              | None \<Rightarrow> (Some MIOT_ERROR_TRANSPORT_ERROR, None))
         | Some _ \<Rightarrow> (Some MIOT_ERROR_TRANSPORT_ERROR, None))"
proof (cases "find decisive evs")
  case None
  with assms show ?thesis by (auto simp: sendCommand_def await_exchange_find)
next
  case (Some ev)
  then have dec: "decisive ev" by (blast dest: find_decisive)
  show ?thesis
  proof (cases ev)
    case (Message_Received msg)
    with assms Some have "read_response rt tr m msg = Inl e"
      by (simp add: sendCommand_def await_exchange_find)
    from read_response_failed [OF this] Some Message_Received show ?thesis
      by (auto split: option.splits)
  next
    case (Send_Done x)
    with assms Some dec show ?thesis
      by (cases x) (auto simp: sendCommand_def await_exchange_find)
  qed (use assms Some in \<open>auto simp: sendCommand_def await_exchange_find\<close>)
qed

text \<open>
  A network that records every datagram it is given and answers from the history, for statements
  about what goes on the wire.
\<close>

definition recorder ::
  "(byte list list \<Rightarrow> byte list \<Rightarrow> udp_event list) \<Rightarrow> int \<Rightarrow> (byte list list) network" where
  "recorder answer now =
     \<lparr>net_exchange = (\<lambda>_ _ d sent. (answer sent d, sent @ [d])), net_now = (\<lambda>_. now)\<rparr>"

lemma recorder_simps [simp]:
  "net_exchange (recorder answer now) a p d sent = (answer sent d, sent @ [d])"
  "net_now (recorder answer now) sent = now"
  by (simp_all add: recorder_def)

definition sample_transport :: miot_transport where
  "sample_transport = MiotTransport ''10.0.0.9'' (BufferToken (replicate 16 7)) None"

lemma sample_transport_token [simp]: "tr_token sample_transport = BufferToken (replicate 16 7)"
  by (simp add: sample_transport_def MiotTransport_def)

text \<open>The sample runtime serialises small commands into datagrams that fit.\<close>

lemma sample_command_raw:
  assumes "u32_ok d" and "u32_ok s"
    and "length (json_stringify sample_runtime (JObj (inject_id now pl))) \<le> 65000"
  shows "\<exists>raw. command_raw sample_runtime now (BufferToken (replicate 16 7)) d s pl = Inr raw"
  using assms
  by (simp add: command_raw_def OutgoingPacket_command outgoing_raw_def
      buildCommandPacket_eq [where encrypted = "1 # utf8_bytes (json_stringify sample_runtime (JObj (inject_id now pl)))"]
      sample_runtime_def utf8_bytes_def)

lemma sendCommand_failure_classified_witness:
  "\<exists>e. fst (sendCommand sample_runtime (recorder (\<lambda>_ _. [Send_Done None]) 5000) sample_transport 1 2
          MIOT_METHOD_ACTION (JObj []) []) = Inl e
     \<and> error_kind e = Some MIOT_ERROR_TIMEOUT \<and> error_method e = Some MIOT_METHOD_ACTION"
proof -
  let ?net = "recorder (\<lambda>_ _. [Send_Done None]) 5000"
  obtain raw where raw: "command_raw sample_runtime (net_now ?net []) (tr_token sample_transport) 1 2
      [(''method'', JStr (miot_method_text MIOT_METHOD_ACTION)), (''params'', JObj [])] = Inr raw"
    using sample_command_raw [of 1 2 5000 "[(''method'', JStr ''action''), (''params'', JObj [])]"]
    by (auto simp: u32_ok_def sample_runtime_def)
  obtain e where e: "fst (sendCommand sample_runtime ?net sample_transport 1 2 MIOT_METHOD_ACTION (JObj []) []) = Inl e"
    using raw by (simp add: sendCommand_def await_exchange_find)
  from sendCommand_failure_classified [OF raw _ e] e show ?thesis by simp
qed

subsection \<open>Reading properties\<close>

definition get_payload :: "int \<Rightarrow> int \<times> int \<Rightarrow> (string \<times> json) list" where
  "get_payload d p = [(''method'', JStr ''get_properties''),
     (''params'', JArr [JObj (did_params d (fst p) (snd p))])]"

text \<open>\<open>i\<close>-th packet of a read: property \<open>i\<close>, under the \<open>i\<close>-th stamp from the first one.\<close>

definition read_packets ::
  "runtime \<Rightarrow> int \<Rightarrow> token_input \<Rightarrow> int \<Rightarrow> int \<Rightarrow> (int \<times> int) list \<Rightarrow> byte list list \<Rightarrow> bool" where
  "read_packets rt now token d stamp props sent \<longleftrightarrow>
     length sent \<le> length props
     \<and> (\<forall>i < length sent. command_raw rt now token d (stamp + int i) (get_payload d (props ! i)) = Inr (sent ! i))"

lemma read_packets_Nil [simp]: "read_packets rt now token d stamp props []"
  by (simp add: read_packets_def)

lemma read_packets_Cons:
  "read_packets rt now token d stamp (p # props) (x # sent)
    \<longleftrightarrow> command_raw rt now token d stamp (get_payload d p) = Inr x
      \<and> read_packets rt now token d (stamp + 1) props sent"
  by (simp add: read_packets_def All_less_Suc2 add.assoc conj_left_commute)

lemma getProperties_loop_packets:
  assumes "getProperties_loop rt (recorder answer now) tr d stamp props acc sent0 = (r, sent1)"
  shows "\<exists>sent. sent1 = sent0 @ sent \<and> read_packets rt now (tr_token tr) d stamp props sent
    \<and> (\<forall>rs final. r = Inr (rs, final) \<longrightarrow>
         length sent = length props \<and> final = stamp + int (length props - 1))"
  using assms
proof (induction props arbitrary: stamp acc sent0)
  case Nil
  then show ?case by auto
next
  case (Cons p props)
  obtain siid piid where p: "p = (siid, piid)" by (cases p)
  show ?case
  proof (cases "command_raw rt now (tr_token tr) d stamp (get_payload d p)")
    case (Inl e)
    with Cons.prems show ?thesis by (auto simp: p sendCommand_def get_payload_def)
  next
    case (Inr raw)
    let ?res = "sendCommand rt (recorder answer now) tr d stamp MIOT_METHOD_GET_PROPERTIES
          (JArr [JObj (did_params d siid piid)]) sent0"
    have snd: "snd ?res = sent0 @ [raw]" using Inr by (simp add: p sendCommand_def get_payload_def)
    have stop: ?thesis if "sent1 = sent0 @ [raw]" and "\<exists>e. r = Inl e"
      using that Inr by (auto simp: read_packets_Cons)
    show ?thesis
    proof (cases "fst ?res")
      case (Inl e)
      with snd Cons.prems show ?thesis by (intro stop) (auto simp: p split: prod.splits)
    next
      case ok: (Inr response)
      then have res: "?res = (Inr response, sent0 @ [raw])" using snd by (metis prod.collapse)
      show ?thesis
      proof (cases "response_entries response")
        case (Inl e)
        with res Cons.prems show ?thesis by (intro stop) (auto simp: p)
      next
        case (Inr rs)
        let ?next = "if props \<noteq> [] then stamp + 1 else stamp"
        have "getProperties_loop rt (recorder answer now) tr d ?next props (acc @ rs) (sent0 @ [raw]) = (r, sent1)"
          using res Inr Cons.prems by (simp add: p)
        from Cons.IH [OF this] obtain sent where sent: "sent1 = sent0 @ raw # sent"
          "read_packets rt now (tr_token tr) d ?next props sent"
          "\<forall>rs final. r = Inr (rs, final) \<longrightarrow> length sent = length props \<and> final = ?next + int (length props - 1)"
          by auto
        have next_ok: "read_packets rt now (tr_token tr) d (stamp + 1) props sent"
          using sent(2) by (cases "props = []") (auto simp: read_packets_def)
        show ?thesis
        proof (intro exI [of _ "raw # sent"] conjI allI impI)
          show "sent1 = sent0 @ raw # sent" by (rule sent(1))
          show "read_packets rt now (tr_token tr) d stamp (p # props) (raw # sent)"
            using next_ok \<open>command_raw _ _ _ _ _ _ = Inr raw\<close> by (simp add: read_packets_Cons)
          fix rs final assume "r = Inr (rs, final)"
          with sent(3) show "length (raw # sent) = length (p # props)"
            "final = stamp + int (length (p # props) - 1)"
            by (cases props; force)+
        qed
      qed
    qed
  qed
qed

text \<open>
  \<open>getProperties\<close> never batches: whatever the device answers, the datagrams it sends
  are, in order, one \<open>get_properties\<close> command per property, the \<open>i\<close>-th under the stamp
  \<open>stamp + i\<close>, stopping at the first failure; when it returns, every property was asked for and
  the reported final stamp is the last one used.
\<close>

theorem getProperties_one_per_packet:
  assumes "getProperties rt (recorder answer now) tr d stamp props sent0 = (r, sent1)"
  shows "\<exists>sent. sent1 = sent0 @ sent \<and> read_packets rt now (tr_token tr) d stamp props sent
    \<and> (\<forall>rs final. r = Inr (rs, final) \<longrightarrow>
         length sent = length props \<and> final = stamp + int (length props - 1))"
  by (rule getProperties_loop_packets [OF assms [unfolded getProperties_def]])

lemma getProperties_one_per_packet_witness:
  "\<exists>sent. snd (getProperties sample_runtime (recorder (\<lambda>_ _. []) 5000) sample_transport 1 2 [(2, 1), (2, 2)] []) = sent
     \<and> read_packets sample_runtime 5000 (BufferToken (replicate 16 7)) 1 2 [(2, 1), (2, 2)] sent"
proof -
  obtain r sent1 where run: "getProperties sample_runtime (recorder (\<lambda>_ _. []) 5000) sample_transport 1 2 [(2, 1), (2, 2)] [] = (r, sent1)"
    by (meson surj_pair)
  from getProperties_one_per_packet [OF run] run show ?thesis by auto
qed

text \<open>
  A single-property read returns the value of the first result item when that item
  is accepted with code 0, and for an authentic response without an envelope error every other
  outcome is a device error carrying the item's code: a missing or null item, or one without a
  \<open>code\<close>, is never mistaken for a value.
\<close>

theorem getProperty_outcome:
  assumes raw: "command_raw rt (net_now net w) (tr_token tr) d s (get_payload d (siid, piid)) = Inr raw"
    and wire: "net_exchange net (tr_address tr) (tr_port tr) raw w = (evs, w')"
    and msg: "find decisive evs = Some (Message_Received msg)"
    and packet: "IncomingPacket rt msg (tr_token tr) = Inr p"
    and json: "incoming_json rt p = Inr (Some j)" "j \<noteq> JNull" "envelope_error rt tr msg = None"
  shows "getProperty rt net tr d s siid piid w =
    (case js_first (js_get ''result'' j) of
       Some item \<Rightarrow>
         if js_get ''code'' item = Some (JNum 0) then Inr (js_get ''value'' item)
         else Inl (propertyError MIOT_METHOD_GET_PROPERTIES (js_get ''code'' item))
     | None \<Rightarrow> Inl (propertyError MIOT_METHOD_GET_PROPERTIES None), w')"
proof -
  have "read_response rt tr MIOT_METHOD_GET_PROPERTIES msg = Inr j"
    using packet json by (auto simp: read_response_def envelope_error_def is_nil_def split: option.splits if_splits)
  then have "sendCommand rt net tr d s MIOT_METHOD_GET_PROPERTIES (JArr [JObj (did_params d siid piid)]) w = (Inr j, w')"
    using raw wire msg by (simp add: sendCommand_def get_payload_def await_exchange_find)
  then show ?thesis
    by (auto simp: getProperty_def checked_item_def Let_def js_get_def split: option.splits)
qed

text \<open>A runtime whose JSON parser reads every response as \<open>reply\<close>.\<close>

definition replying :: "json \<Rightarrow> runtime" where
  "replying reply = sample_runtime\<lparr>json_parse := (\<lambda>_. Inr reply)\<rparr>"

lemma replying_fields [simp]:
  "md5 (replying reply) = md5 sample_runtime"
  "aes_cbc_encrypt (replying reply) = aes_cbc_encrypt sample_runtime"
  "aes_cbc_decrypt (replying reply) = aes_cbc_decrypt sample_runtime"
  "json_stringify (replying reply) = json_stringify sample_runtime"
  "json_parse (replying reply) x = Inr reply"
  by (simp_all add: replying_def)

lemma replying_sealed [simp]: "sealed_header (replying reply) = sealed_header sample_runtime"
  by (simp add: fun_eq_iff sealed_header_def)

lemma replying_incoming:
  obtains p where "IncomingPacket (replying reply) sample_response (BufferToken (replicate 16 7)) = Inr p"
    and "incoming_json (replying reply) p = Inr (Some reply)"
proof -
  have md5: "length (md5 (replying reply) x) = 16" for x by (simp add: sample_runtime_def)
  note facts = sealed_header_facts [of "command_header 1 2" "replying reply" "[1, 2]" "replicate 16 7",
      OF length_command_header md5]
  have "\<exists>p. IncomingPacket (replying reply) (sealed_header (replying reply) (replicate 16 7) [1, 2] (command_header 1 2) @ [1, 2])
      (BufferToken (replicate 16 7)) = Inr p \<and> pkt_data p = Some [2]"
    using facts(1,2) by (simp add: IncomingPacket_def BasePacket_Some parseAndDecrypt_def HEADER_SIZE_def
        packet_checksum_def base_packet.defs sample_decrypt)
  then show thesis
    using that by (auto simp: sample_response_def incoming_json_def)
qed

lemma replying_command_raw:
  "command_raw (replying reply) = command_raw sample_runtime"
proof -
  have "BasePacket (replying reply) = BasePacket sample_runtime"
    by (intro ext) (unfold BasePacket_def replying_fields, rule refl)
  then have "OutgoingPacket (replying reply) = OutgoingPacket sample_runtime"
    by (intro ext) (unfold OutgoingPacket_def, simp)
  note out = this
  have raw: "outgoing_raw (replying reply) = outgoing_raw sample_runtime"
    by (intro ext) (unfold outgoing_raw_def buildCommandPacket_def replying_fields, rule refl)
  show ?thesis by (intro ext) (unfold command_raw_def out raw, rule refl)
qed

lemma getProperty_outcome_witness:
  "fst (getProperty (replying (JObj [(''result'', JArr [JObj [(''code'', JNum 0), (''value'', JNum 25)]])]))
      (recorder (\<lambda>_ _. [Send_Done None, Message_Received sample_response]) 5000) sample_transport 1 2 2 1 [])
    = Inr (Some (JNum 25))"
proof -
  let ?j = "JObj [(''result'', JArr [JObj [(''code'', JNum 0), (''value'', JNum 25)]])]"
  let ?rt = "replying ?j"
  let ?net = "recorder (\<lambda>_ _. [Send_Done None, Message_Received sample_response]) 5000"
  obtain raw where raw: "command_raw ?rt (net_now ?net []) (tr_token sample_transport) 1 2 (get_payload 1 (2, 1)) = Inr raw"
    using sample_command_raw [of 1 2 5000 "get_payload 1 (2, 1)"]
    by (auto simp: replying_command_raw u32_ok_def sample_runtime_def)
  obtain p where p: "IncomingPacket ?rt sample_response (BufferToken (replicate 16 7)) = Inr p"
    "incoming_json ?rt p = Inr (Some ?j)"
    by (rule replying_incoming)
  have "fst (getProperty ?rt ?net sample_transport 1 2 2 1 []) = Inr (Some (JNum 25))"
    using p by (subst getProperty_outcome [OF raw, where evs = "[Send_Done None, Message_Received sample_response]" and msg = sample_response and p = p and j = ?j])
      (simp_all add: envelope_error_def)
  then show ?thesis .
qed

end
