(* ===== verification/Miot_Device.thy ===== *)
theory Miot_Device
  imports Miot_Transport
begin

text \<open>
  \<^verbatim>\<open>packages/miot-device/src/MiotDevice.ts\<close>: the stateful client of one device and its stamp
  lifecycle. A method takes and returns the instance and the world; the optional external stamp
  store is a record of two functions on the world. One call runs to its end before the next.
\<close>

record stamp_state =
  st_stamp :: int
  st_updatedAt :: int

record 'w stamp_store =
  store_getStamp :: "'w \<Rightarrow> (thrown + stamp_state option) \<times> 'w"
  store_setStamp :: "stamp_state \<Rightarrow> 'w \<Rightarrow> (thrown + unit) \<times> 'w"

record 'w miot_device =
  dev_transport :: miot_transport
  dev_deviceId :: "int option"
  dev_stampState :: "stamp_state option"
  dev_stampStore :: "'w stamp_store option"

definition MiotDevice ::
  "string \<Rightarrow> token_input \<Rightarrow> int option \<Rightarrow> int option \<Rightarrow> 'w stamp_store option \<Rightarrow> 'w miot_device" where
  "MiotDevice address token port deviceId stampStore =
     \<lparr>dev_transport = MiotTransport address token port, dev_deviceId = deviceId,
      dev_stampState = None, dev_stampStore = stampStore\<rparr>"

definition persistStamp :: "'w miot_device \<Rightarrow> stamp_state \<Rightarrow> 'w \<Rightarrow> (thrown + unit) \<times> 'w" where
  "persistStamp dev state w =
     (case dev_stampStore dev of None \<Rightarrow> (Inr (), w) | Some store \<Rightarrow> store_setStamp store state w)"

definition updateStamp ::
  "'w network \<Rightarrow> int \<Rightarrow> 'w miot_device \<times> 'w \<Rightarrow> (thrown + unit) \<times> 'w miot_device \<times> 'w" where
  "updateStamp net stamp s =
     (let (dev, w) = s; state = \<lparr>st_stamp = stamp, st_updatedAt = net_now net w\<rparr>;
          dev' = dev\<lparr>dev_stampState := Some state\<rparr>; (r, w') = persistStamp dev' state w
      in (r, dev', w'))"

definition discover ::
  "runtime \<Rightarrow> 'w network \<Rightarrow> 'w miot_device \<times> 'w \<Rightarrow> (thrown + discover_result) \<times> 'w miot_device \<times> 'w" where
  "discover rt net s =
     (let (dev, w) = s in
      case handshake rt net (dev_transport dev) w of
        (Inl e, w') \<Rightarrow> (Inl e, dev, w')
      | (Inr result, w') \<Rightarrow>
          (let state = \<lparr>st_stamp = dr_stamp result, st_updatedAt = net_now net w'\<rparr>;
               dev' = dev\<lparr>dev_deviceId := Some (dr_deviceId result), dev_stampState := Some state\<rparr>
           in case persistStamp dev' state w' of
                (Inl e, w'') \<Rightarrow> (Inl e, dev', w'')
              | (Inr _, w'') \<Rightarrow> (Inr result, dev', w'')))"

definition connect ::
  "runtime \<Rightarrow> 'w network \<Rightarrow> 'w miot_device \<times> 'w \<Rightarrow> (thrown + unit) \<times> 'w miot_device \<times> 'w" where
  "connect rt net s =
     (case discover rt net s of (Inl e, s') \<Rightarrow> (Inl e, s') | (Inr _, s') \<Rightarrow> (Inr (), s'))"

text \<open>A command: given the stamp and the device id, its result and the last stamp it used.\<close>

type_synonym ('a, 'w) stamped = "int \<Rightarrow> int \<Rightarrow> 'w \<Rightarrow> (thrown + ('a \<times> int option)) \<times> 'w"

text \<open>One attempt: \<^verbatim>\<open>await fn(stamp, deviceId)\<close>, then \<^verbatim>\<open>await this.updateStamp(finalStamp ?? stamp)\<close>.\<close>

definition attempt ::
  "'w network \<Rightarrow> ('a, 'w) stamped \<Rightarrow> int \<Rightarrow> int \<Rightarrow> 'w miot_device \<times> 'w
     \<Rightarrow> (thrown + 'a) \<times> 'w miot_device \<times> 'w" where
  "attempt net fn stamp deviceId s =
     (let (dev, w) = s in
      case fn stamp deviceId w of
        (Inl e, w') \<Rightarrow> (Inl e, dev, w')
      | (Inr (result, finalStamp), w') \<Rightarrow>
          (case updateStamp net (case finalStamp of None \<Rightarrow> stamp | Some f \<Rightarrow> f) (dev, w') of
             (Inl e, s') \<Rightarrow> (Inl e, s')
           | (Inr _, s') \<Rightarrow> (Inr result, s')))"

definition runWithFreshStamp ::
  "runtime \<Rightarrow> 'w network \<Rightarrow> miot_method \<Rightarrow> int \<Rightarrow> ('a, 'w) stamped \<Rightarrow> 'w miot_device \<times> 'w
     \<Rightarrow> (thrown + 'a) \<times> 'w miot_device \<times> 'w" where
  "runWithFreshStamp rt net method deviceId fn s =
     (let (dev, w) = s in
      case handshake rt net (dev_transport dev) w of
        (Inl e, w') \<Rightarrow> (Inl e, dev, w')
      | (Inr fresh, w') \<Rightarrow>
          (case attempt net fn (dr_stamp fresh + 1) deviceId (dev, w') of
             (Inl retryError, s') \<Rightarrow> (Inl (after_stamp_refresh retryError method deviceId), s')
           | (Inr result, s') \<Rightarrow> (Inr result, s')))"

definition not_connected :: thrown where
  "not_connected = JsError ''Error'' ''Device not connected. Call connect() or discover() first.''"

text \<open>The stamp the call starts from: the cached one, else the external store's.\<close>

definition load_stamp :: "'w miot_device \<times> 'w \<Rightarrow> (thrown + unit) \<times> 'w miot_device \<times> 'w" where
  "load_stamp s =
     (let (dev, w) = s in
      case (dev_stampStore dev, dev_stampState dev) of
        (Some store, None) \<Rightarrow>
          (case store_getStamp store w of
             (Inl e, w') \<Rightarrow> (Inl e, dev, w')
           | (Inr None, w') \<Rightarrow> (Inr (), dev, w')
           | (Inr (Some stored), w') \<Rightarrow> (Inr (), dev\<lparr>dev_stampState := Some stored\<rparr>, w'))
      | _ \<Rightarrow> (Inr (), dev, w))"

definition runWithStamp ::
  "runtime \<Rightarrow> 'w network \<Rightarrow> miot_method \<Rightarrow> ('a, 'w) stamped \<Rightarrow> 'w miot_device \<times> 'w
     \<Rightarrow> (thrown + 'a) \<times> 'w miot_device \<times> 'w" where
  "runWithStamp rt net method fn s =
     (case dev_deviceId (fst s) of
        None \<Rightarrow> (Inl not_connected, s)
      | Some deviceId \<Rightarrow>
          (case load_stamp s of
             (Inl e, s1) \<Rightarrow> (Inl e, s1)
           | (Inr _, s1) \<Rightarrow>
               (case dev_stampState (fst s1) of
                  None \<Rightarrow> runWithFreshStamp rt net method deviceId fn s1
                | Some state \<Rightarrow>
                    (case attempt net fn (st_stamp state + 1) deviceId s1 of
                       (Inr result, s2) \<Rightarrow> (Inr result, s2)
                     | (Inl _, (dev2, w2)) \<Rightarrow>
                         runWithFreshStamp rt net method deviceId fn (dev2\<lparr>dev_stampState := None\<rparr>, w2)))))"

subsection \<open>The commands\<close>

text \<open>What the four callbacks return: the result, and the final stamp only \<open>getProperties\<close> reports.\<close>

fun with_result :: "(thrown + 'a) \<times> 'w \<Rightarrow> (thrown + ('a \<times> int option)) \<times> 'w" where
  "with_result (Inl e, w) = (Inl e, w)"
| "with_result (Inr a, w) = (Inr (a, None), w)"

fun with_final_stamp :: "(thrown + ('a \<times> int)) \<times> 'w \<Rightarrow> (thrown + ('a \<times> int option)) \<times> 'w" where
  "with_final_stamp (Inl e, w) = (Inl e, w)"
| "with_final_stamp (Inr (a, f), w) = (Inr (a, Some f), w)"

definition dev_getProperty ::
  "runtime \<Rightarrow> 'w network \<Rightarrow> int \<Rightarrow> int \<Rightarrow> 'w miot_device \<times> 'w \<Rightarrow> (thrown + json option) \<times> 'w miot_device \<times> 'w" where
  "dev_getProperty rt net siid piid s =
     runWithStamp rt net MIOT_METHOD_GET_PROPERTIES
       (\<lambda>stamp deviceId w. with_result (getProperty rt net (dev_transport (fst s)) deviceId stamp siid piid w)) s"

definition dev_setProperty ::
  "runtime \<Rightarrow> 'w network \<Rightarrow> int \<Rightarrow> int \<Rightarrow> json option \<Rightarrow> 'w miot_device \<times> 'w \<Rightarrow> (thrown + unit) \<times> 'w miot_device \<times> 'w" where
  "dev_setProperty rt net siid piid value s =
     runWithStamp rt net MIOT_METHOD_SET_PROPERTIES
       (\<lambda>stamp deviceId w. with_result (setProperty rt net (dev_transport (fst s)) deviceId stamp siid piid value w)) s"

definition dev_callAction ::
  "runtime \<Rightarrow> 'w network \<Rightarrow> int \<Rightarrow> int \<Rightarrow> json option \<Rightarrow> 'w miot_device \<times> 'w \<Rightarrow> (thrown + unit) \<times> 'w miot_device \<times> 'w" where
  "dev_callAction rt net siid aiid args s =
     runWithStamp rt net MIOT_METHOD_ACTION
       (\<lambda>stamp deviceId w. with_result (callAction rt net (dev_transport (fst s)) deviceId stamp siid aiid args w)) s"

definition dev_getProperties ::
  "runtime \<Rightarrow> 'w network \<Rightarrow> (int \<times> int) list \<Rightarrow> 'w miot_device \<times> 'w
     \<Rightarrow> (thrown + property_result list) \<times> 'w miot_device \<times> 'w" where
  "dev_getProperties rt net props s =
     runWithStamp rt net MIOT_METHOD_GET_PROPERTIES
       (\<lambda>stamp deviceId w. with_final_stamp (getProperties rt net (dev_transport (fst s)) deviceId stamp props w)) s"

definition setStampState :: "stamp_state \<Rightarrow> 'w miot_device \<Rightarrow> 'w miot_device" where
  "setStampState state dev = dev\<lparr>dev_stampState := Some state\<rparr>"

definition getStampState :: "'w miot_device \<Rightarrow> stamp_state option" where
  "getStampState dev = dev_stampState dev"

subsection \<open>The stamp lifecycle\<close>

lemma persistStamp_no_store [simp]: "dev_stampStore dev = None \<Longrightarrow> persistStamp dev st w = (Inr (), w)"
  by (simp add: persistStamp_def)

lemma updateStamp_no_store:
  "dev_stampStore dev = None \<Longrightarrow> updateStamp net stamp (dev, w)
     = (Inr (), dev\<lparr>dev_stampState := Some \<lparr>st_stamp = stamp, st_updatedAt = net_now net w\<rparr>\<rparr>, w)"
  by (simp add: updateStamp_def Let_def)

lemma load_stamp_no_store [simp]: "dev_stampStore dev = None \<Longrightarrow> load_stamp (dev, w) = (Inr (), dev, w)"
  by (simp add: load_stamp_def)

lemma attempt_no_store:
  assumes "dev_stampStore dev = None"
  shows "attempt net fn stamp d (dev, w) =
    (case fn stamp d w of
       (Inl e, w') \<Rightarrow> (Inl e, dev, w')
     | (Inr (a, f), w') \<Rightarrow> (Inr a, dev\<lparr>dev_stampState :=
          Some \<lparr>st_stamp = (case f of None \<Rightarrow> stamp | Some x \<Rightarrow> x), st_updatedAt = net_now net w'\<rparr>\<rparr>, w'))"
  using assms by (auto simp: attempt_def updateStamp_no_store split: sum.splits prod.splits)

text \<open>Everything but the stamp is kept.\<close>

definition same_device :: "'w miot_device \<Rightarrow> 'w miot_device \<Rightarrow> bool" where
  "same_device a b \<longleftrightarrow> (\<exists>st. b = a\<lparr>dev_stampState := st\<rparr>)"

lemma same_device_refl [simp, intro]: "same_device a a"
  unfolding same_device_def by (rule exI [of _ "dev_stampState a"]) simp

lemma same_device_update [simp, intro]: "same_device a (a\<lparr>dev_stampState := st\<rparr>)"
  unfolding same_device_def by blast

lemma same_device_trans: "same_device a b \<Longrightarrow> same_device b c \<Longrightarrow> same_device a c"
  unfolding same_device_def by auto

lemma same_device_fields:
  "same_device a b \<Longrightarrow> dev_transport b = dev_transport a \<and> dev_deviceId b = dev_deviceId a
     \<and> dev_stampStore b = dev_stampStore a"
  unfolding same_device_def by auto

lemma attempt_same: "attempt net fn stamp d (dev, w) = (r, dev', w') \<Longrightarrow> same_device dev dev'"
  by (auto simp: attempt_def updateStamp_def Let_def split: sum.splits prod.splits)

lemma runWithFreshStamp_same:
  "runWithFreshStamp rt net m d fn (dev, w) = (r, dev', w') \<Longrightarrow> same_device dev dev'"
  by (auto simp: runWithFreshStamp_def dest: attempt_same split: sum.splits prod.splits)

lemma load_stamp_same: "load_stamp (dev, w) = (r, dev', w') \<Longrightarrow> same_device dev dev'"
  by (auto simp: load_stamp_def split: option.splits sum.splits prod.splits)

lemma runWithStamp_same:
  assumes "runWithStamp rt net m fn (dev, w) = (r, dev', w')"
  shows "same_device dev dev'"
proof (cases "dev_deviceId dev")
  case None
  with assms show ?thesis by (simp add: runWithStamp_def)
next
  case (Some d)
  obtain r1 dev1 w1 where load: "load_stamp (dev, w) = (r1, dev1, w1)" by (metis prod_cases3)
  from load_stamp_same [OF load] have s1: "same_device dev dev1" .
  have "same_device dev1 dev'"
  proof (cases r1)
    case (Inl e)
    with assms Some load show ?thesis by (simp add: runWithStamp_def)
  next
    case (Inr u)
    show ?thesis
    proof (cases "dev_stampState dev1")
      case None
      with assms Some load Inr show ?thesis by (auto simp: runWithStamp_def dest: runWithFreshStamp_same)
    next
      case st: (Some state)
      obtain r2 dev2 w2 where att: "attempt net fn (st_stamp state + 1) d (dev1, w1) = (r2, dev2, w2)"
        by (metis prod_cases3)
      from attempt_same [OF att] have "same_device dev1 dev2" .
      moreover have "same_device dev2 dev'"
        using assms Some load Inr st att
        by (cases r2) (auto simp: runWithStamp_def dest!: runWithFreshStamp_same intro: same_device_trans)
      ultimately show ?thesis by (rule same_device_trans)
    qed
  qed
  with s1 show ?thesis by (rule same_device_trans)
qed

text \<open>The two ways an attempt is reached in a call with no external store.\<close>

lemma runWithStamp_no_store:
  assumes "dev_stampStore dev = None" and "dev_deviceId dev = Some d"
  shows "runWithStamp rt net m fn (dev, w) =
    (case dev_stampState dev of
       None \<Rightarrow> runWithFreshStamp rt net m d fn (dev, w)
     | Some state \<Rightarrow>
         (case attempt net fn (st_stamp state + 1) d (dev, w) of
            (Inr a, s) \<Rightarrow> (Inr a, s)
          | (Inl _, (dev2, w2)) \<Rightarrow> runWithFreshStamp rt net m d fn (dev2\<lparr>dev_stampState := None\<rparr>, w2)))"
  using assms by (simp add: runWithStamp_def)

lemma fresh_no_store:
  assumes store: "dev_stampStore dev = None" and none: "dev_stampState dev = None"
    and run: "runWithFreshStamp rt net m d fn (dev, w) = (r, dev', w')"
  shows "case r of
      Inl e \<Rightarrow> dev_stampState dev' = None
    | Inr a \<Rightarrow> \<exists>fresh w1 f. handshake rt net (dev_transport dev) w = (Inr fresh, w1)
        \<and> fn (dr_stamp fresh + 1) d w1 = (Inr (a, f), w')
        \<and> map_option st_stamp (dev_stampState dev') = Some (case f of None \<Rightarrow> dr_stamp fresh + 1 | Some x \<Rightarrow> x)"
  using none run by (auto simp: runWithFreshStamp_def attempt_no_store [OF store] split: sum.splits prod.splits)

text \<open>
  A command that ran: under a stamp, to a result, with the last stamp it used cached and then written to the
  external store, if there is one, with the given outcome.
\<close>

definition ran_under ::
  "'w network \<Rightarrow> ('a, 'w) stamped \<Rightarrow> 'w miot_device \<Rightarrow> int \<Rightarrow> int \<Rightarrow> 'w \<Rightarrow> 'a \<Rightarrow> thrown + unit \<Rightarrow> 'w miot_device \<Rightarrow> 'w \<Rightarrow> bool" where
  "ran_under net fn dev stamp deviceId w a written dev' w' \<longleftrightarrow>
     (\<exists>f w1 state. fn stamp deviceId w = (Inr (a, f), w1)
       \<and> state = \<lparr>st_stamp = (case f of None \<Rightarrow> stamp | Some x \<Rightarrow> x), st_updatedAt = net_now net w1\<rparr>
       \<and> dev_stampState dev' = Some state \<and> persistStamp dev state w1 = (written, w'))"

lemma attempt_cases:
  assumes "attempt net fn stamp d (dev, w) = (r, dev', w')"
  shows "(\<exists>e. r = Inl e \<and> fn stamp d w = (Inl e, w') \<and> dev' = dev)
    \<or> (\<exists>e a. r = Inl e \<and> ran_under net fn dev stamp d w a (Inl e) dev' w' \<and> same_device dev dev')
    \<or> (\<exists>a. r = Inr a \<and> ran_under net fn dev stamp d w a (Inr ()) dev' w')"
proof -
  have store: "persistStamp (dev\<lparr>dev_stampState := st\<rparr>) = persistStamp dev" for st by (intro ext) (simp add: persistStamp_def)
  show ?thesis
    using assms by (fastforce simp: attempt_def updateStamp_def ran_under_def store Let_def split: sum.splits prod.splits)
qed

lemma same_device_persist: "same_device a b \<Longrightarrow> persistStamp b = persistStamp a"
  by (intro ext) (auto simp: same_device_def persistStamp_def)

lemma ran_under_same: "same_device a b \<Longrightarrow> ran_under net fn b stamp d w x y dev' w' = ran_under net fn a stamp d w x y dev' w'"
  by (simp add: ran_under_def same_device_persist)

text \<open>Behind a fresh handshake, from a device that has no stamp.\<close>

lemma fresh_cases:
  assumes "dev_stampState dev = None" and "runWithFreshStamp rt net m d fn (dev, w) = (r, dev', w')"
  shows "case r of
      Inl e \<Rightarrow> dev_stampState dev' = None \<or> (\<exists>stamp w1 a e'. ran_under net fn dev stamp d w1 a (Inl e') dev' w')
    | Inr a \<Rightarrow> \<exists>fresh w1. handshake rt net (dev_transport dev) w = (Inr fresh, w1)
        \<and> ran_under net fn dev (dr_stamp fresh + 1) d w1 a (Inr ()) dev' w'"
proof (cases "handshake rt net (dev_transport dev) w")
  case (Pair h w1)
  show ?thesis
  proof (cases h)
    case (Inl e)
    with assms Pair show ?thesis by (auto simp: runWithFreshStamp_def)
  next
    case (Inr fresh)
    obtain x dev1 w2 where att: "attempt net fn (dr_stamp fresh + 1) d (dev, w1) = (x, dev1, w2)" by (metis prod_cases3)
    with assms(2) Pair Inr have "dev' = dev1 \<and> w' = w2 \<and> (case x of Inl _ \<Rightarrow> \<exists>e. r = Inl e | Inr a \<Rightarrow> r = Inr a)"
      by (auto simp: runWithFreshStamp_def split: sum.splits)
    with attempt_cases [OF att] assms(1) Pair Inr show ?thesis by (auto split: sum.splits)
  qed
qed


definition sample_device :: "'w miot_device" where
  "sample_device = (MiotDevice ''10.0.0.9'' (BufferToken (replicate 16 7)) None (Some 1) None)
     \<lparr>dev_stampState := Some \<lparr>st_stamp = 41, st_updatedAt = 0\<rparr>\<rparr>"

lemma sample_device_simps [simp]:
  "dev_stampStore sample_device = None" "dev_deviceId sample_device = Some 1"
  "dev_stampState sample_device = Some \<lparr>st_stamp = 41, st_updatedAt = 0\<rparr>"
  "dev_transport sample_device = sample_transport"
  by (simp_all add: sample_device_def MiotDevice_def sample_transport_def)

definition silent :: "(byte list list) network" where
  "silent = recorder (\<lambda>_ _. []) 5000"

lemma silent_handshake:
  "\<exists>w'. handshake rt silent tr w = (Inl (timeoutError ''Handshake'' tr MIOT_METHOD_HANDSHAKE), w')"
  by (auto simp: handshake_def silent_def hello_raw_def OutgoingPacket_def BasePacket_def outgoing_raw_def
      writeUInt16BE_def HEADER_SIZE_def base_packet.defs await_exchange_find split: sum.splits)


text \<open>
  The classification survives the retry. When the command fails under the cached
  stamp and fails again behind the fresh handshake, the caller gets a \<open>MiotError\<close> that says so
  (\<open>stampRefreshed\<close>) and keeps the second failure's code, and its kind and method when it had
  them; anything else is a transport error of the method that was called. A refusal such as
  -4004 still costs the handshake and the second round trip.
\<close>

theorem refusal_survives_retry:
  assumes id: "dev_deviceId dev = Some d" and store: "dev_stampStore dev = None"
    and cached: "dev_stampState dev = Some st"
    and first: "fn (st_stamp st + 1) d w = (Inl e1, w1)"
    and shake: "handshake rt net (dev_transport dev) w1 = (Inr fresh, w2)"
    and second: "fn (dr_stamp fresh + 1) d w2 = (Inl e2, w3)"
  shows "\<exists>e dev'. runWithStamp rt net m fn (dev, w) = (Inl e, dev', w3) \<and> is_miot_error e \<and> stamp_refreshed e
    \<and> error_code e = error_code e2
    \<and> error_kind e = Some (case error_kind e2 of Some k \<Rightarrow> k | None \<Rightarrow> MIOT_ERROR_TRANSPORT_ERROR)
    \<and> error_method e = Some (case error_method e2 of Some x \<Rightarrow> x | None \<Rightarrow> m)"
  using assms
  by (simp add: runWithStamp_no_store attempt_no_store runWithFreshStamp_def)

text \<open>A network that answers a hello with one, and nothing else with anything.\<close>

definition sample_hello :: "byte list" where
  "sample_hello = put_bytes 12 (u32be 700) (put_bytes 8 (u32be 1) initial_header)"

lemma sample_hello_parsed:
  "parseHello sample_hello = Inr \<lparr>hello_deviceId = 1, hello_stamp = 700, hello_token = replicate 16 255\<rparr>"
proof -
  have len: "length sample_hello = 32" by (simp add: sample_hello_def)
  have magic: "readUInt16BE sample_hello 0 = MAGIC"
    by (simp add: sample_hello_def readUInt16BE_def nth_put_bytes initial_header_bytes MAGIC_def)
  have id: "readUInt32BE sample_hello 8 = 1" "readUInt32BE sample_hello 12 = 700"
    using read_command_header [of 1 700] by (simp_all add: sample_hello_def command_header_def u32_ok_def)
  have "subarray 16 32 sample_hello = subarray 16 32 initial_header"
    by (simp add: sample_hello_def subarray_put_bytes_other)
  then have token: "subarray 16 32 sample_hello = replicate 16 255"
    by (simp add: initial_header_bytes subarray_def)
  show ?thesis using len magic id token unfolding parseHello_def Let_def HEADER_SIZE_def by simp
qed

definition awake :: "(byte list list) network" where
  "awake = recorder (\<lambda>_ d. if length d = 32 then [Message_Received sample_hello] else []) 5000"

lemma awake_handshake:
  "handshake rt awake tr w = (Inr \<lparr>dr_deviceId = 1, dr_stamp = 700\<rparr>, w @ [[0x21, 0x31, 0x00, 0x20] @ replicate 28 0xFF])"
proof -
  have raw: "hello_raw rt now = Inr ([0x21, 0x31, 0x00, 0x20] @ replicate 28 0xFF)" for now
    by (simp add: hello_raw_def OutgoingPacket_def BasePacket_def outgoing_raw_def writeUInt16BE_def
      base_packet.defs put_bytes_def u16be_32 initial_header_bytes HEADER_SIZE_def)
  show ?thesis
    unfolding handshake_def raw by (simp add: awake_def await_exchange_find read_hello_def sample_hello_parsed)
qed

lemma refusal_survives_retry_witness:
  "\<exists>e dev'. runWithStamp sample_runtime awake MIOT_METHOD_SET_PROPERTIES
        (\<lambda>st d w. (Inl (propertyError MIOT_METHOD_SET_PROPERTIES (Some (JNum (- 4004)))), w)
           :: (thrown + (unit \<times> int option)) \<times> byte list list) (sample_device, [])
      = (Inl e, dev', [[0x21, 0x31, 0x00, 0x20] @ replicate 28 0xFF])
     \<and> stamp_refreshed e \<and> error_code e = Some (JNum (- 4004)) \<and> error_kind e = Some MIOT_ERROR_DEVICE_ERROR"
proof -
  let ?fn = "\<lambda>st d w. (Inl (propertyError MIOT_METHOD_SET_PROPERTIES (Some (JNum (- 4004)))), w)
           :: (thrown + (unit \<times> int option)) \<times> byte list list"
  from refusal_survives_retry [OF sample_device_simps(2,1,3), where fn = ?fn and w = "[]",
      OF refl awake_handshake refl, of sample_runtime MIOT_METHOD_SET_PROPERTIES]
  show ?thesis by auto
qed

subsection \<open>The external store\<close>

text \<open>
  With an external store whose \<open>setStamp\<close> rejects, a command that the device accepted
  is executed a second time: the store's failure is caught by the same \<open>catch\<close> as the command's,
  so the call falls through to the handshake and runs the command again, and then reports a
  failure although both runs succeeded on the device.
\<close>

theorem store_failure_repeats_command:
  assumes id: "dev_deviceId dev = Some d" and store: "dev_stampStore dev = Some s"
    and broken: "\<And>x w. store_setStamp s x w = (Inl err, w)"
    and cached: "dev_stampState dev = Some st"
    and first: "fn (st_stamp st + 1) d w = (Inr (a1, f1), w1)"
    and shake: "handshake rt net (dev_transport dev) w1 = (Inr fresh, w2)"
    and second: "fn (dr_stamp fresh + 1) d w2 = (Inr (a2, f2), w3)"
  shows "\<exists>dev'. runWithStamp rt net m fn (dev, w) = (Inl (after_stamp_refresh err m d), dev', w3)"
  using assms
  by (simp add: runWithStamp_def load_stamp_def attempt_def updateStamp_def persistStamp_def Let_def
      runWithFreshStamp_def)

lemma store_failure_repeats_command_witness:
  "\<exists>dev'. runWithStamp sample_runtime awake MIOT_METHOD_ACTION
      (\<lambda>st d w. (Inr ((), None), w @ [[7]]))
      (sample_device\<lparr>dev_stampStore := Some \<lparr>store_getStamp = (\<lambda>w. (Inr None, w)),
         store_setStamp = (\<lambda>_ w. (Inl (JsError ''Error'' ''redis down''), w))\<rparr>\<rparr>, [])
    = (Inl (after_stamp_refresh (JsError ''Error'' ''redis down'') MIOT_METHOD_ACTION 1), dev',
       [[7], [0x21, 0x31, 0x00, 0x20] @ replicate 28 0xFF, [7]])"
proof -
  let ?s = "\<lparr>store_getStamp = (\<lambda>w. (Inr None, w)),
         store_setStamp = (\<lambda>_ w. (Inl (JsError ''Error'' ''redis down''), w))\<rparr> :: byte list list stamp_store"
  let ?dev = "sample_device\<lparr>dev_stampStore := Some ?s\<rparr>"
  let ?fn = "\<lambda>(st :: int) (d :: int) w. (Inr ((), None), w @ [[7 :: byte]]) :: (thrown + (unit \<times> int option)) \<times> byte list list"
  have hs: "handshake sample_runtime awake (dev_transport ?dev) [[7]]
      = (Inr \<lparr>dr_deviceId = 1, dr_stamp = 700\<rparr>, [[7], [0x21, 0x31, 0x00, 0x20] @ replicate 28 0xFF])"
    by (simp add: awake_handshake)
  have "\<exists>dev'. runWithStamp sample_runtime awake MIOT_METHOD_ACTION ?fn (?dev, [])
      = (Inl (after_stamp_refresh (JsError ''Error'' ''redis down'') MIOT_METHOD_ACTION 1), dev',
         [[7], [0x21, 0x31, 0x00, 0x20] @ replicate 28 0xFF, [7]])"
    by (rule store_failure_repeats_command [where d = 1 and s = ?s and st = "\<lparr>st_stamp = 41, st_updatedAt = 0\<rparr>"
          and ?w1.0 = "[[7]]" and fresh = "\<lparr>dr_deviceId = 1, dr_stamp = 700\<rparr>", OF _ _ _ _ _ hs]) simp_all
  then show ?thesis .
qed

text \<open>A device whose store answers \<open>getStamp\<close> with \<open>g\<close>.\<close>

definition with_get :: "('w \<Rightarrow> (thrown + stamp_state option) \<times> 'w) \<Rightarrow> 'w miot_device \<Rightarrow> 'w miot_device" where
  "with_get g dev = dev\<lparr>dev_stampStore := map_option (\<lambda>s. s\<lparr>store_getStamp := g\<rparr>) (dev_stampStore dev)\<rparr>"

lemma with_get_simps [simp]:
  "dev_deviceId (with_get g dev) = dev_deviceId dev" "dev_stampState (with_get g dev) = dev_stampState dev"
  "dev_transport (with_get g dev) = dev_transport dev"
  "(with_get g dev)\<lparr>dev_stampState := st\<rparr> = with_get g (dev\<lparr>dev_stampState := st\<rparr>)"
  "persistStamp (with_get g dev) = persistStamp dev"
  by (auto simp: with_get_def persistStamp_def fun_eq_iff split: option.splits)

lemma attempt_with_get:
  "attempt net fn stamp d (with_get g dev, w)
    = (case attempt net fn stamp d (dev, w) of (r, dev', w') \<Rightarrow> (r, with_get g dev', w'))"
  by (simp add: attempt_def updateStamp_def Let_def split: sum.splits prod.splits)

lemma fresh_with_get:
  "runWithFreshStamp rt net m d fn (with_get g dev, w)
    = (case runWithFreshStamp rt net m d fn (dev, w) of (r, dev', w') \<Rightarrow> (r, with_get g dev', w'))"
  by (simp add: runWithFreshStamp_def attempt_with_get split: sum.splits prod.splits)

text \<open>
  Once an instance has a stamp cached, a call never reads the external store: whatever
  \<open>getStamp\<close> would have answered, the call's result, what it sends and the stamp it caches are the
  same. Two instances that share a store therefore do not see each other's stamps.
\<close>

theorem cached_stamp_hides_store:
  assumes cached: "dev_stampState dev = Some st"
  shows "runWithStamp rt net m fn (with_get g dev, w)
    = (case runWithStamp rt net m fn (dev, w) of (r, dev', w') \<Rightarrow> (r, with_get g dev', w'))"
proof (cases "dev_deviceId dev")
  case None
  then show ?thesis by (simp add: runWithStamp_def)
next
  case (Some d)
  have load: "load_stamp (x, w) = (Inr (), x, w)" if "dev_stampState x = Some st" for x :: "'a miot_device"
    using that by (auto simp: load_stamp_def split: option.splits)
  note loads = load [OF cached] load [of "with_get g dev", simplified, OF cached]
  show ?thesis
    using Some cached loads
    by (simp add: runWithStamp_def attempt_with_get fresh_with_get split: sum.splits prod.splits)
qed

lemma cached_stamp_hides_store_witness:
  "runWithStamp sample_runtime silent MIOT_METHOD_ACTION (\<lambda>st d w. (Inr ((), None), w))
      (with_get (\<lambda>w. (Inl not_connected, w)) sample_device, [])
    = (case runWithStamp sample_runtime silent MIOT_METHOD_ACTION (\<lambda>st d w. (Inr ((), None), w)) (sample_device, [])
       of (r, dev', w') \<Rightarrow> (r, with_get (\<lambda>w. (Inl not_connected, w)) dev', w'))"
  by (rule cached_stamp_hides_store) simp

subsection \<open>What a call puts on the wire\<close>

text \<open>A command that sends at most one datagram per attempt sends at most three per call.\<close>

definition sends_at_most :: "nat \<Rightarrow> ('a, byte list list) stamped \<Rightarrow> bool" where
  "sends_at_most k fn \<longleftrightarrow> (\<forall>stamp d sent. \<exists>ds. snd (fn stamp d sent) = sent @ ds \<and> length ds \<le> k)"

lemma sendCommand_sends_one:
  "\<exists>ds. snd (sendCommand rt (recorder answer now) tr d stamp m params sent) = sent @ ds \<and> length ds \<le> 1"
  by (auto simp: sendCommand_def split: sum.splits)

lemma setProperty_sends_one:
  "sends_at_most 1 (\<lambda>stamp d w. with_result (setProperty rt (recorder answer now) tr d stamp siid piid v w))"
proof -
  have "snd (with_result x) = snd x" for x :: "(thrown + unit) \<times> byte list list"
    by (cases x rule: with_result.cases) auto
  moreover have "snd (setProperty rt (recorder answer now) tr d stamp siid piid v sent)
      = snd (sendCommand rt (recorder answer now) tr d stamp MIOT_METHOD_SET_PROPERTIES
          (JArr [JObj (did_params d siid piid @ (case v of None \<Rightarrow> [] | Some x \<Rightarrow> [(''value'', x)]))]) sent)" for d stamp sent
    by (auto simp: setProperty_def split: sum.splits prod.splits)
  ultimately show ?thesis using sendCommand_sends_one by (simp add: sends_at_most_def)
qed

lemma handshake_sends_one:
  "\<exists>ds. snd (handshake rt (recorder answer now) tr sent) = sent @ ds \<and> length ds \<le> 1"
  by (auto simp: handshake_def split: sum.splits)

lemma attempt_sends:
  assumes "sends_at_most k fn" and "dev_stampStore dev = None"
    and "attempt net fn stamp d (dev, sent) = (r, dev', sent')"
  shows "\<exists>ds. sent' = sent @ ds \<and> length ds \<le> k"
proof -
  have "sent' = snd (fn stamp d sent)"
    using assms(2,3) by (auto simp: attempt_no_store split: sum.splits prod.splits)
  then show ?thesis using assms(1) by (simp add: sends_at_most_def)
qed

lemma fresh_sends:
  assumes fn: "sends_at_most k fn" and store: "dev_stampStore dev = None"
    and run: "runWithFreshStamp rt (recorder answer now) m d fn (dev, sent) = (r, dev', sent')"
  shows "\<exists>ds. sent' = sent @ ds \<and> length ds \<le> k + 1"
proof -
  obtain h sent1 where hs: "handshake rt (recorder answer now) (dev_transport dev) sent = (h, sent1)"
    by (meson surj_pair)
  obtain ds1 where ds1: "sent1 = sent @ ds1" "length ds1 \<le> 1"
    using handshake_sends_one [of rt answer now "dev_transport dev" sent] hs by auto
  show ?thesis
  proof (cases h)
    case (Inl e)
    with run hs ds1 show ?thesis by (auto simp: runWithFreshStamp_def)
  next
    case (Inr fresh)
    obtain a dev2 sent2 where att: "attempt (recorder answer now) fn (dr_stamp fresh + 1) d (dev, sent1) = (a, dev2, sent2)"
      by (metis prod_cases3)
    have "sent' = sent2" using run hs Inr att by (cases a) (auto simp: runWithFreshStamp_def)
    with attempt_sends [OF fn store att] ds1 show ?thesis by fastforce
  qed
qed

text \<open>
  A write costs at most three datagrams, whatever the device answers and however
  often it refuses: the command, one hello and the command again. The retry is bounded.
\<close>

theorem setProperty_at_most_three_datagrams:
  assumes store: "dev_stampStore dev = None"
    and run: "dev_setProperty rt (recorder answer now) siid piid v (dev, sent) = (r, dev', sent')"
  shows "\<exists>ds. sent' = sent @ ds \<and> length ds \<le> 3"
proof (cases "dev_deviceId dev")
  case None
  with run show ?thesis by (simp add: dev_setProperty_def runWithStamp_def)
next
  case (Some d)
  let ?net = "recorder answer now"
  let ?fn = "\<lambda>stamp deviceId w. with_result (setProperty rt ?net (dev_transport dev) deviceId stamp siid piid v w)"
  note fn = setProperty_sends_one [of rt answer now "dev_transport dev" siid piid v]
  have run': "runWithStamp rt ?net MIOT_METHOD_SET_PROPERTIES ?fn (dev, sent) = (r, dev', sent')"
    using run by (simp add: dev_setProperty_def)
  show ?thesis
  proof (cases "dev_stampState dev")
    case None
    with run' have "runWithFreshStamp rt ?net MIOT_METHOD_SET_PROPERTIES d ?fn (dev, sent) = (r, dev', sent')"
      by (simp add: runWithStamp_no_store [OF store Some])
    from fresh_sends [OF fn store this] show ?thesis by fastforce
  next
    case st: (Some state)
    obtain a dev2 sent2 where att: "attempt ?net ?fn (st_stamp state + 1) d (dev, sent) = (a, dev2, sent2)"
      by (metis prod_cases3)
    obtain ds where ds: "sent2 = sent @ ds" "length ds \<le> 1" using attempt_sends [OF fn store att] by blast
    show ?thesis
    proof (cases a)
      case (Inr x)
      with run' st att have "sent' = sent2" by (simp add: runWithStamp_no_store [OF store Some])
      with ds show ?thesis by fastforce
    next
      case (Inl e)
      have store2: "dev_stampStore (dev2\<lparr>dev_stampState := None\<rparr>) = None"
        using attempt_same [OF att] store by (simp add: same_device_fields)
      have "runWithFreshStamp rt ?net MIOT_METHOD_SET_PROPERTIES d ?fn (dev2\<lparr>dev_stampState := None\<rparr>, sent2) = (r, dev', sent')"
        using run' st att Inl by (simp add: runWithStamp_no_store [OF store Some])
      from fresh_sends [OF fn store2 this] ds show ?thesis by fastforce
    qed
  qed
qed

lemma setProperty_at_most_three_datagrams_witness:
  "\<exists>ds. snd (snd (dev_setProperty sample_runtime silent 2 1 (Some (JNum 1)) (sample_device, [[1]]))) = [[1]] @ ds \<and> length ds \<le> 3"
proof -
  obtain r dev' sent' where "dev_setProperty sample_runtime silent 2 1 (Some (JNum 1)) (sample_device, [[1]]) = (r, dev', sent')"
    by (metis prod_cases3)
  with setProperty_at_most_three_datagrams [OF sample_device_simps(1) this [unfolded silent_def]] show ?thesis by simp
qed

end
