(* ===== verification/Miot_Spec.thy ===== *)
theory Miot_Spec
  imports Effect "HOL-Library.Multiset"
begin

text \<open>
  The specification of a device model: the raw document of miot-spec.org and its mapper
  (\<^verbatim>\<open>models/miot-spec-v2\<close>, \<^verbatim>\<open>mappers/MiotSpecV2Mapper.ts\<close>, \<^verbatim>\<open>endpoints/miot-spec-v2\<close>), and the
  simplified specification merged with a model's property overrides
  (\<^verbatim>\<open>mappers/SimplifiedMiotSpecV2Mapper.ts\<close>). The DTO and the domain model have the same shape and
  share the records; only the enumerations differ, and those are tables of their key and value.

  \<^verbatim>\<open>MappingUtils\<close> is a package that is not in the repository. \<^verbatim>\<open>mapEnum\<close> is a parameter; \<^verbatim>\<open>mapArray\<close>
  runs its asynchronous callbacks concurrently, so the order in which they reach their \<^verbatim>\<open>set\<close> is a
  parameter as well.
\<close>

subsection \<open>The raw specification\<close>

record spec_value =
  sv_value :: int
  sv_description :: string

record spec_property =
  sp_iid :: int
  sp_type :: string
  sp_description :: string
  sp_format :: string
  sp_access :: "string list"
  sp_unit :: "string option"
  sp_valueList :: "spec_value list option"
  sp_valueRange :: "int list option"
  sp_gattAccess :: "string list option"

record spec_action =
  sa_iid :: int
  sa_type :: string
  sa_description :: string
  sa_in :: "int list"
  sa_out :: "int list"

record spec_event =
  se_iid :: int
  se_type :: string
  se_description :: string
  se_arguments :: "int list"

record spec_service =
  ss_iid :: int
  ss_type :: string
  ss_description :: string
  ss_properties :: "spec_property list option"
  ss_actions :: "spec_action list option"
  ss_events :: "spec_event list option"

record spec_v2 =
  spec_type :: string
  spec_description :: string
  spec_services :: "spec_service list"

type_synonym enum = "(string \<times> string) list"

definition MiotSpecV2PropertyAccessDTO :: enum where
  "MiotSpecV2PropertyAccessDTO = [(''Read'', ''read''), (''Write'', ''write''), (''Notify'', ''notify'')]"

definition MiotSpecV2PropertyAccess :: enum where
  "MiotSpecV2PropertyAccess = [(''Read'', ''READ''), (''Write'', ''WRITE''), (''Notify'', ''NOTIFY'')]"

definition PropertyAccess :: enum where
  "PropertyAccess = [(''Read'', ''READ''), (''Write'', ''WRITE''), (''Notify'', ''NOTIFY'')]"

definition MiotSpecV2PropertyFormatDTO :: enum where
  "MiotSpecV2PropertyFormatDTO =
     [(''String'', ''string''), (''UInt8'', ''uint8''), (''UInt16'', ''uint16''), (''UInt32'', ''uint32''),
      (''Int8'', ''int8''), (''Int16'', ''int16''), (''Int32'', ''int32''), (''Int64'', ''int64''), (''Bool'', ''bool'')]"

definition MiotSpecV2PropertyFormat :: enum where
  "MiotSpecV2PropertyFormat =
     [(''String'', ''STRING''), (''UInt8'', ''UINT8''), (''UInt16'', ''UINT16''), (''UInt32'', ''UINT32''),
      (''Int8'', ''INT8''), (''Int16'', ''INT16''), (''Int32'', ''INT32''), (''Int64'', ''INT64''), (''Bool'', ''BOOL'')]"

text \<open>The documented behaviour of \<^verbatim>\<open>mapEnum\<close>: a member is translated by its key.\<close>

definition maps_by_key :: "(enum \<Rightarrow> enum \<Rightarrow> string \<Rightarrow> string) \<Rightarrow> bool" where
  "maps_by_key mapEnum \<longleftrightarrow> (\<forall>source target k v v'.
     distinct (map snd source) \<and> (k, v) \<in> set source \<and> map_of target k = Some v'
     \<longrightarrow> mapEnum source target v = v')"

subsection \<open>\<^verbatim>\<open>MiotSpecV2Mapper\<close>\<close>

definition map_value :: "spec_value \<Rightarrow> spec_value" where
  "map_value v = \<lparr>sv_value = sv_value v, sv_description = sv_description v\<rparr>"

definition map_property ::
  "(enum \<Rightarrow> enum \<Rightarrow> string \<Rightarrow> string) \<Rightarrow> enum \<Rightarrow> enum \<Rightarrow> enum \<Rightarrow> enum \<Rightarrow> spec_property \<Rightarrow> spec_property" where
  "map_property mapEnum fmt fmt' acc acc' p =
     \<lparr>sp_iid = sp_iid p, sp_type = sp_type p, sp_description = sp_description p,
      sp_format = mapEnum fmt fmt' (sp_format p),
      sp_access = map (mapEnum acc acc') (sp_access p),
      sp_unit = sp_unit p, sp_valueList = map_option (map map_value) (sp_valueList p),
      sp_valueRange = sp_valueRange p, sp_gattAccess = sp_gattAccess p\<rparr>"

definition map_action :: "spec_action \<Rightarrow> spec_action" where
  "map_action a = \<lparr>sa_iid = sa_iid a, sa_type = sa_type a, sa_description = sa_description a,
     sa_in = sa_in a, sa_out = sa_out a\<rparr>"

definition map_event :: "spec_event \<Rightarrow> spec_event" where
  "map_event e = \<lparr>se_iid = se_iid e, se_type = se_type e, se_description = se_description e,
     se_arguments = se_arguments e\<rparr>"

definition map_service :: "(spec_property \<Rightarrow> spec_property) \<Rightarrow> spec_service \<Rightarrow> spec_service" where
  "map_service mp svc =
     \<lparr>ss_iid = ss_iid svc, ss_type = ss_type svc, ss_description = ss_description svc,
      ss_properties = map_option (map mp) (ss_properties svc),
      ss_actions = map_option (map map_action) (ss_actions svc),
      ss_events = map_option (map map_event) (ss_events svc)\<rparr>"

definition mapDTOToModel :: "(enum \<Rightarrow> enum \<Rightarrow> string \<Rightarrow> string) \<Rightarrow> spec_v2 \<Rightarrow> spec_v2" where
  "mapDTOToModel mapEnum dto =
     \<lparr>spec_type = spec_type dto, spec_description = spec_description dto,
      spec_services = map (map_service (map_property mapEnum
        MiotSpecV2PropertyFormatDTO MiotSpecV2PropertyFormat
        MiotSpecV2PropertyAccessDTO MiotSpecV2PropertyAccess)) (spec_services dto)\<rparr>"

definition mapModelToDTO :: "(enum \<Rightarrow> enum \<Rightarrow> string \<Rightarrow> string) \<Rightarrow> spec_v2 \<Rightarrow> spec_v2" where
  "mapModelToDTO mapEnum model =
     \<lparr>spec_type = spec_type model, spec_description = spec_description model,
      spec_services = map (map_service (map_property mapEnum
        MiotSpecV2PropertyFormat MiotSpecV2PropertyFormatDTO
        MiotSpecV2PropertyAccess MiotSpecV2PropertyAccessDTO)) (spec_services model)\<rparr>"

subsection \<open>\<^verbatim>\<open>MiotSpecV2Endpoint\<close>\<close>

record spec_instance =
  si_model :: string
  si_ts :: int
  si_type :: string

definition specUrl :: "string option \<Rightarrow> string \<Rightarrow> string" where
  "specUrl baseURL type = (case baseURL of None \<Rightarrow> '''' | Some u \<Rightarrow> u) @ ''/instance?type='' @ type"

text \<open>\<^verbatim>\<open>sort((a, b) => b.ts - a.ts).find(i => i.model === model)\<close>; the sort is stable.\<close>

definition latest_instance :: "string \<Rightarrow> spec_instance list \<Rightarrow> spec_instance option" where
  "latest_instance model instances =
     find (\<lambda>i. si_model i = model) (sort_key (\<lambda>i. - si_ts i) instances)"

text \<open>The two requests are parameters: the list of instances, and the document of one type.\<close>

definition fetchRaw ::
  "(spec_instance list, 'w) effect \<Rightarrow> (string \<Rightarrow> (spec_v2, 'w) effect) \<Rightarrow> string \<Rightarrow> (spec_v2, 'w) effect" where
  "fetchRaw get_instances get_instance model =
     and_then get_instances (\<lambda>instances.
       case latest_instance model instances of
         None \<Rightarrow> throwing (PlainError (''Model '' @ model @ '' not found in MIoT spec''))
       | Some i \<Rightarrow> get_instance (si_type i))"

subsection \<open>\<^verbatim>\<open>SimplifiedMiotSpecV2Mapper\<close>\<close>

definition MIOT_PROPERTY_SOURCE_VALUE_SPEC :: string where
  "MIOT_PROPERTY_SOURCE_VALUE_SPEC = ''spec''"

definition MIOT_PROPERTY_SOURCE_VALUE_OVERRIDE :: string where
  "MIOT_PROPERTY_SOURCE_VALUE_OVERRIDE = ''override''"

record miot_property =
  mp_source :: string
  mp_siid :: int
  mp_piid :: int
  mp_access :: "string list"
  mp_values :: "spec_value list"

record miot_action =
  ma_siid :: int
  ma_aiid :: int
  ma_in :: "string list"

record simplified_spec =
  simp_name :: string
  simp_type :: string
  simp_properties :: "(string, miot_property) js_map"
  simp_actions :: "(string, miot_action) js_map"

record model_override =
  ov_id :: string
  ov_createdAt :: int
  ov_updatedAt :: int
  ov_model :: string
  ov_key :: string
  ov_siid :: int
  ov_piid :: int
  ov_access :: "string list"
  ov_values :: "spec_value list"

text \<open>\<^verbatim>\<open>urn.split(':')[3]\<close> in a template literal: a part that is not there prints as \<open>undefined\<close>.\<close>

definition urn_part :: "string \<Rightarrow> string" where
  "urn_part urn = (case drop 3 (split_on (CHR '':'') urn) of [] \<Rightarrow> ''undefined'' | p # _ \<Rightarrow> p)"

definition spec_key :: "string \<Rightarrow> string \<Rightarrow> string" where
  "spec_key serviceKey name = serviceKey @ '':'' @ name"

definition published_property ::
  "(enum \<Rightarrow> enum \<Rightarrow> string \<Rightarrow> string) \<Rightarrow> spec_service \<Rightarrow> spec_property \<Rightarrow> miot_property" where
  "published_property mapEnum svc p =
     \<lparr>mp_source = MIOT_PROPERTY_SOURCE_VALUE_SPEC, mp_siid = ss_iid svc, mp_piid = sp_iid p,
      mp_access = map (mapEnum MiotSpecV2PropertyAccess PropertyAccess) (sp_access p),
      mp_values = (case sp_valueList p of None \<Rightarrow> [] | Some vs \<Rightarrow> map map_value vs)\<rparr>"

definition properties_of :: "spec_service \<Rightarrow> spec_property list" where
  "properties_of svc = (case ss_properties svc of None \<Rightarrow> [] | Some ps \<Rightarrow> ps)"

definition actions_of :: "spec_service \<Rightarrow> spec_action list" where
  "actions_of svc = (case ss_actions svc of None \<Rightarrow> [] | Some xs \<Rightarrow> xs)"

text \<open>The \<^verbatim>\<open>properties.set\<close> calls of the published document, in document order.\<close>

definition property_entries ::
  "(enum \<Rightarrow> enum \<Rightarrow> string \<Rightarrow> string) \<Rightarrow> spec_v2 \<Rightarrow> (string \<times> miot_property) list" where
  "property_entries mapEnum data = concat (map (\<lambda>svc.
     map (\<lambda>p. (spec_key (urn_part (ss_type svc)) (urn_part (sp_type p)), published_property mapEnum svc p))
         (properties_of svc)) (spec_services data))"

text \<open>The callback of one action: the names of its inputs, or the error of the first unknown one.\<close>

fun input_keys :: "spec_service \<Rightarrow> spec_action \<Rightarrow> int list \<Rightarrow> thrown + string list" where
  "input_keys svc a [] = Inr []"
| "input_keys svc a (piid # piids) =
     (case find (\<lambda>p. sp_iid p = piid) (properties_of svc) of
        None \<Rightarrow> Inl (PlainError (''Action '' @ quoted (sa_type a)
                  @ '' references non-existent input property with PIID '' @ show_int piid
                  @ '' in service '' @ quoted (ss_type svc) @ ''.''))
      | Some p \<Rightarrow>
          (case input_keys svc a piids of
             Inl e \<Rightarrow> Inl e
           | Inr ks \<Rightarrow> Inr (spec_key (urn_part (ss_type svc)) (urn_part (sp_type p)) # ks)))"

definition action_entry :: "spec_service \<Rightarrow> spec_action \<Rightarrow> thrown + (string \<times> miot_action)" where
  "action_entry svc a =
     (case input_keys svc a (sa_in a) of
        Inl e \<Rightarrow> Inl e
      | Inr ks \<Rightarrow> Inr (spec_key (urn_part (ss_type svc)) (urn_part (sa_type a)),
                      \<lparr>ma_siid = ss_iid svc, ma_aiid = sa_iid a, ma_in = ks\<rparr>))"

fun collect :: "('e + 'a) list \<Rightarrow> 'e + 'a list" where
  "collect [] = Inr []"
| "collect (Inl e # xs) = Inl e"
| "collect (Inr a # xs) = (case collect xs of Inl e \<Rightarrow> Inl e | Inr as \<Rightarrow> Inr (a # as))"

definition action_entries :: "spec_v2 \<Rightarrow> thrown + (string \<times> miot_action) list" where
  "action_entries data = collect (concat (map (\<lambda>svc. map (action_entry svc) (actions_of svc)) (spec_services data)))"

text \<open>The entries in the order their callbacks ran: \<open>order\<close> lists their positions.\<close>

definition in_order :: "nat list \<Rightarrow> 'a list \<Rightarrow> 'a list" where
  "in_order order xs = map (nth xs) (filter (\<lambda>i. i < length xs) order)"

definition set_entries :: "('k \<times> 'v) list \<Rightarrow> ('k, 'v) js_map \<Rightarrow> ('k, 'v) js_map" where
  "set_entries = fold (\<lambda>(k, v). AList.update k v)"

text \<open>One round of the override loop; an override of a service the document lacks is skipped.\<close>

definition override_entry :: "spec_v2 \<Rightarrow> model_override \<Rightarrow> (string \<times> miot_property) option" where
  "override_entry data ov =
     (case find (\<lambda>s. ss_iid s = ov_siid ov) (spec_services data) of
        None \<Rightarrow> None
      | Some svc \<Rightarrow> Some (spec_key (urn_part (ss_type svc)) (ov_key ov),
          \<lparr>mp_source = MIOT_PROPERTY_SOURCE_VALUE_OVERRIDE, mp_siid = ov_siid ov, mp_piid = ov_piid ov,
           mp_access = ov_access ov, mp_values = map map_value (ov_values ov)\<rparr>))"

fun apply_overrides ::
  "spec_v2 \<Rightarrow> model_override list \<Rightarrow> (string, miot_property) js_map \<Rightarrow> (string, miot_property) js_map" where
  "apply_overrides data [] m = m"
| "apply_overrides data (ov # ovs) m =
     (case override_entry data ov of
        None \<Rightarrow> apply_overrides data ovs m
      | Some (k, v) \<Rightarrow> apply_overrides data ovs (AList.update k v m))"

definition simplify_spec ::
  "(enum \<Rightarrow> enum \<Rightarrow> string \<Rightarrow> string) \<Rightarrow> nat list \<Rightarrow> nat list \<Rightarrow> spec_v2 \<Rightarrow> model_override list
     \<Rightarrow> thrown + simplified_spec" where
  "simplify_spec mapEnum porder aorder data overrides =
     (case action_entries data of
        Inl e \<Rightarrow> Inl e
      | Inr entries \<Rightarrow> Inr
          \<lparr>simp_name = spec_description data, simp_type = spec_type data,
           simp_properties = apply_overrides data overrides
             (set_entries (in_order porder (property_entries mapEnum data)) []),
           simp_actions = set_entries (in_order aorder entries) []\<rparr>)"

subsection \<open>Round trip of the raw document\<close>

definition well_typed :: "spec_v2 \<Rightarrow> bool" where
  "well_typed dto \<longleftrightarrow> (\<forall>svc \<in> set (spec_services dto). \<forall>p \<in> set (properties_of svc).
     sp_format p \<in> snd ` set MiotSpecV2PropertyFormatDTO
     \<and> set (sp_access p) \<subseteq> snd ` set MiotSpecV2PropertyAccessDTO)"

lemma map_value_id [simp]: "map_value v = v" and map_action_id [simp]: "map_action a = a"
  and map_event_id [simp]: "map_event e = e"
  by (simp_all add: map_value_def map_action_def map_event_def)

lemma map_option_list_id [simp]: "(\<And>x. f x = x) \<Longrightarrow> map_option (map f) xs = xs"
  by (cases xs) (simp_all add: map_idI)

text \<open>Two enumerations with the same keys, one value per key.\<close>

definition same_members :: "enum \<Rightarrow> enum \<Rightarrow> bool" where
  "same_members source target \<longleftrightarrow> map fst source = map fst target \<and> distinct (map fst source)
     \<and> distinct (map snd source) \<and> distinct (map snd target)"

lemma same_members_enums:
  "same_members MiotSpecV2PropertyFormatDTO MiotSpecV2PropertyFormat"
  "same_members MiotSpecV2PropertyAccessDTO MiotSpecV2PropertyAccess"
  by code_simp+

lemma map_enum_back:
  assumes "maps_by_key mapEnum" and "same_members source target" and "v \<in> snd ` set source"
  shows "mapEnum target source (mapEnum source target v) = v"
proof -
  obtain k where k: "(k, v) \<in> set source" using assms(3) by auto
  have keys: "map fst source = map fst target" and d: "distinct (map fst source)" "distinct (map fst target)"
    and v: "distinct (map snd source)" "distinct (map snd target)"
    using assms(2) by (auto simp: same_members_def)
  have "k \<in> set (map fst target)" using k unfolding keys [symmetric] by force
  then obtain v' where v': "map_of target k = Some v'" by (metis list.set_map map_of_eq_None_iff not_Some_eq)
  have "map_of source k = Some v" using k d(1) by simp
  have "mapEnum source target v = v'"
    using assms(1) k v v' unfolding maps_by_key_def by blast
  moreover have "(k, v') \<in> set target" using v' by (rule map_of_SomeD)
  ultimately show ?thesis
    using assms(1) v \<open>map_of source k = Some v\<close> unfolding maps_by_key_def by blast
qed

lemma map_service_back:
  assumes "\<And>p. p \<in> set (properties_of svc) \<Longrightarrow> g (f p) = p"
  shows "map_service g (map_service f svc) = svc"
proof -
  have "map_option (map g) (map_option (map f) (ss_properties svc)) = ss_properties svc"
    using assms by (cases "ss_properties svc") (auto simp: properties_of_def map_idI)
  then show ?thesis by (simp add: map_service_def)
qed

text \<open>
  The stored form of a specification loses nothing: for a document whose formats and
  access modes are among those the DTO declares, mapping it to the domain model and back gives the
  document again. \<^verbatim>\<open>mapEnum\<close> sends a member of one enumeration to the member of the other with
  the same key.
\<close>

theorem spec_roundtrip:
  assumes "maps_by_key mapEnum" and "well_typed dto"
  shows "mapModelToDTO mapEnum (mapDTOToModel mapEnum dto) = dto"
proof -
  have "map_property mapEnum MiotSpecV2PropertyFormat MiotSpecV2PropertyFormatDTO
          MiotSpecV2PropertyAccess MiotSpecV2PropertyAccessDTO
          (map_property mapEnum MiotSpecV2PropertyFormatDTO MiotSpecV2PropertyFormat
             MiotSpecV2PropertyAccessDTO MiotSpecV2PropertyAccess p) = p"
    if svc: "svc \<in> set (spec_services dto)" "p \<in> set (properties_of svc)" for svc p
  proof -
    have "sp_format p \<in> snd ` set MiotSpecV2PropertyFormatDTO"
      and acc: "set (sp_access p) \<subseteq> snd ` set MiotSpecV2PropertyAccessDTO"
      using assms(2) svc unfolding well_typed_def by blast+
    with assms(1) same_members_enums show ?thesis
      by (auto simp: map_property_def map_enum_back o_def intro!: map_idI)
        (auto simp: map_enum_back subset_iff intro!: spec_property.equality map_idI)
  qed
  then show ?thesis
    by (intro spec_v2.equality) (auto simp: mapModelToDTO_def mapDTOToModel_def intro!: map_idI map_service_back)
qed

subsection \<open>The merged specification\<close>

lemma map_of_set_entries: "map_of (set_entries es m) k = map_of (rev es @ m) k"
  unfolding set_entries_def
  by (induction es arbitrary: m) (auto simp: update_conv' map_add_def split: option.splits)

lemma mset_in_order:
  assumes "mset order = mset [0..<length xs]"
  shows "mset (in_order order xs) = mset xs"
proof -
  have "set order = {0..<length xs}" using mset_eq_setD [OF assms] by simp
  then have "in_order order xs = map (nth xs) order" by (simp add: in_order_def filter_True)
  then have "mset (in_order order xs) = image_mset (nth xs) (mset order)" by simp
  also have "\<dots> = mset (map (nth xs) [0..<length xs])" unfolding assms by (rule mset_map [symmetric])
  finally show ?thesis by (simp only: map_nth)
qed

lemma map_of_set_in_order:
  assumes "mset order = mset [0..<length es]" and "distinct (map fst es)"
  shows "map_of (set_entries (in_order order es) []) = map_of es"
proof -
  have m: "mset (rev (in_order order es)) = mset es" using mset_in_order [OF assms(1)] by simp
  then have "set (rev (in_order order es)) = set es" by (rule mset_eq_setD)
  moreover have "distinct (map fst (rev (in_order order es)))"
    using assms(2) mset_eq_imp_distinct_iff [of "map fst (rev (in_order order es))" "map fst es"] m
    by (metis mset_map)
  ultimately have "map_of (rev (in_order order es)) = map_of es"
    using assms(2) map_of_inject_set by blast
  then show ?thesis by (simp add: fun_eq_iff map_of_set_entries)
qed

lemma keys_set_entries: "fst ` set (set_entries es m) = fst ` set es \<union> fst ` set m"
  unfolding set_entries_def by (induction es arbitrary: m) (simp_all add: keys_update split_beta Un_commute insert_commute)

lemma keys_in_order:
  assumes "mset order = mset [0..<length es]"
  shows "fst ` set (set_entries (in_order order es) []) = fst ` set es"
  using mset_eq_setD [OF mset_in_order [OF assms]] by (simp add: keys_set_entries)

text \<open>The override that decides a key: the last one of the list that yields it.\<close>

definition deciding_override :: "spec_v2 \<Rightarrow> model_override list \<Rightarrow> string \<Rightarrow> miot_property option" where
  "deciding_override data overrides k =
     first_some (\<lambda>ov. case override_entry data ov of
        None \<Rightarrow> None | Some (k', v) \<Rightarrow> if k' = k then Some v else None) (rev overrides)"

lemma map_of_apply_overrides:
  "map_of (apply_overrides data ovs m) k
     = (case deciding_override data ovs k of Some v \<Rightarrow> Some v | None \<Rightarrow> map_of m k)"
  unfolding deciding_override_def
  by (induction ovs arbitrary: m)
     (auto simp: first_some_append update_conv' split: option.splits if_splits)

lemma keys_apply_overrides: "fst ` set m \<subseteq> fst ` set (apply_overrides data ovs m)"
proof (induction ovs arbitrary: m)
  case (Cons ov ovs)
  show ?case
  proof (cases "override_entry data ov")
    case (Some kv)
    then show ?thesis using Cons [of "AList.update (fst kv) (snd kv) m"]
      by (cases kv) (auto simp: keys_update)
  qed (use Cons in simp)
qed simp

lemma map_of_for_key: "map_of (filter (\<lambda>e. fst e = k) es) k = map_of es k"
  by (induction es) auto

lemma mset_short: "mset xs = mset ys \<Longrightarrow> length ys \<le> 1 \<Longrightarrow> xs = ys"
  using mset_eq_length [of xs ys] by (cases xs; cases ys) auto

lemma single_named_in_order:
  assumes "mset order = mset [0..<length es]" and "length (filter (\<lambda>e. fst e = k) es) \<le> 1"
  shows "map_of (rev (in_order order es)) k = map_of es k"
proof -
  let ?named = "filter (\<lambda>e. fst e = k)"
  have same: "mset (?named (rev (in_order order es))) = mset (?named es)"
    using mset_in_order [OF assms(1)] by (simp add: mset_filter)
  then have "?named (rev (in_order order es)) = ?named es"
    using assms(2) by (rule mset_short)
  then show ?thesis by (metis map_of_for_key)
qed

text \<open>
  Property C16. What a property key of the simplified specification means: the last override that matches it
  decides, and otherwise the published property of that key whose concurrent callback reached the map last. So a key
  that names no more than one published property means the same in every order of the callbacks.
\<close>

theorem simplified_lookup:
  assumes "mset porder = mset [0..<length (property_entries mapEnum data)]"
    and "simplify_spec mapEnum porder aorder data overrides = Inr spec"
  shows "map_of (simp_properties spec) k =
      (case deciding_override data overrides k of
         Some property \<Rightarrow> Some property
       | None \<Rightarrow> map_of (rev (in_order porder (property_entries mapEnum data))) k)
    \<and> (length (filter (\<lambda>e. fst e = k) (property_entries mapEnum data)) \<le> 1
       \<longrightarrow> map_of (rev (in_order porder (property_entries mapEnum data))) k = map_of (property_entries mapEnum data) k)"
  using assms(2) single_named_in_order [OF assms(1), of k]
  by (auto simp: simplify_spec_def map_of_apply_overrides map_of_set_entries split: sum.splits option.splits)

lemma set_update_subset: "set (AList.update k v m) \<subseteq> insert (k, v) (set m)"
  by (induction m) auto

lemma set_set_entries: "set (set_entries es m) \<subseteq> set es \<union> set m"
  unfolding set_entries_def by (induction es arbitrary: m) (use set_update_subset in \<open>fastforce+\<close>)

lemma set_in_order: "set (in_order order xs) \<subseteq> set xs"
  by (auto simp: in_order_def)

text \<open>Every input an action names is a property of the merged specification.\<close>

lemma collect_Inr: "collect xs = Inr ys \<Longrightarrow> xs = map Inr ys"
  by (induction xs arbitrary: ys rule: collect.induct) (auto split: sum.splits)

lemma input_keys_Inr:
  assumes "input_keys svc a piids = Inr ks" and "i \<in> set ks"
  shows "\<exists>p \<in> set (properties_of svc). i = spec_key (urn_part (ss_type svc)) (urn_part (sp_type p))"
  using assms
proof (induction piids arbitrary: ks)
  case (Cons piid piids)
  then obtain p ks' where p: "find (\<lambda>p. sp_iid p = piid) (properties_of svc) = Some p"
    and ks': "input_keys svc a piids = Inr ks'"
    and ks: "ks = spec_key (urn_part (ss_type svc)) (urn_part (sp_type p)) # ks'"
    by (auto split: option.splits sum.splits)
  have "p \<in> set (properties_of svc)" using p by (auto simp: find_Some_iff)
  with Cons.IH [OF ks'] Cons.prems(2) ks show ?case by auto
qed simp

lemma property_key_published:
  assumes "svc \<in> set (spec_services data)" and "p \<in> set (properties_of svc)"
  shows "spec_key (urn_part (ss_type svc)) (urn_part (sp_type p)) \<in> fst ` set (property_entries mapEnum data)"
  using assms by (force simp: property_entries_def)

text \<open>
  The inputs of every action of the simplified specification are keys of properties it
  lists, so a client that reads an action can look each of its inputs up.
\<close>

theorem action_inputs_resolve:
  assumes "mset porder = mset [0..<length (property_entries mapEnum data)]"
    and "simplify_spec mapEnum porder aorder data overrides = Inr spec"
    and "(k, action) \<in> set (simp_actions spec)" and "i \<in> set (ma_in action)"
  shows "i \<in> fst ` set (simp_properties spec)"
proof -
  obtain entries where entries: "action_entries data = Inr entries"
    and props: "simp_properties spec = apply_overrides data overrides
      (set_entries (in_order porder (property_entries mapEnum data)) [])"
    and acts: "simp_actions spec = set_entries (in_order aorder entries) []"
    using assms(2) by (auto simp: simplify_spec_def split: sum.splits)
  have "(k, action) \<in> set entries"
    using assms(3) set_set_entries [of "in_order aorder entries" "[]"] set_in_order [of aorder entries]
    by (auto simp: acts)
  then have "Inr (k, action) \<in> set (concat (map (\<lambda>svc. map (action_entry svc) (actions_of svc)) (spec_services data)))"
    unfolding collect_Inr [OF entries [unfolded action_entries_def]] by simp
  then obtain svc a where svc: "svc \<in> set (spec_services data)" and "action_entry svc a = Inr (k, action)"
    by (auto dest: sym)
  then have "input_keys svc a (sa_in a) = Inr (ma_in action)"
    by (auto simp: action_entry_def split: sum.splits)
  from input_keys_Inr [OF this assms(4)] property_key_published [OF svc]
  have "i \<in> fst ` set (property_entries mapEnum data)" by blast
  then show ?thesis unfolding props using keys_in_order [OF assms(1)] keys_apply_overrides by blast
qed


subsection \<open>A sample document\<close>

definition sample_mapEnum :: "enum \<Rightarrow> enum \<Rightarrow> string \<Rightarrow> string" where
  "sample_mapEnum source target v =
     (case find (\<lambda>(k, u). u = v) source of
        None \<Rightarrow> v
      | Some (k, u) \<Rightarrow> (case map_of target k of None \<Rightarrow> v | Some v' \<Rightarrow> v'))"

definition sample_spec :: spec_v2 where
  "sample_spec = \<lparr>spec_type = ''urn:x:device:vacuum:1'', spec_description = ''Vacuum'', spec_services =
     [\<lparr>ss_iid = 2, ss_type = ''urn:x:service:vacuum:1'', ss_description = ''Vacuum'',
       ss_properties = Some
         [\<lparr>sp_iid = 1, sp_type = ''urn:x:property:status:1'', sp_description = ''Status'', sp_format = ''UINT8'',
           sp_access = [''READ'', ''NOTIFY''], sp_unit = None, sp_valueList = None, sp_valueRange = None,
           sp_gattAccess = None\<rparr>,
          \<lparr>sp_iid = 4, sp_type = ''urn:x:property:mode:1'', sp_description = ''Mode'', sp_format = ''UINT8'',
           sp_access = [''READ'', ''WRITE''], sp_unit = None,
           sp_valueList = Some [\<lparr>sv_value = 1, sv_description = ''Quiet''\<rparr>], sp_valueRange = None,
           sp_gattAccess = None\<rparr>],
       ss_actions = Some [\<lparr>sa_iid = 1, sa_type = ''urn:x:action:start:1'', sa_description = ''Start'',
         sa_in = [4], sa_out = []\<rparr>],
       ss_events = None\<rparr>]\<rparr>"

definition sample_override :: model_override where
  "sample_override = \<lparr>ov_id = ''o1'', ov_createdAt = 0, ov_updatedAt = 0, ov_model = ''m'', ov_key = ''mode'', ov_siid = 2, ov_piid = 9,
     ov_access = [''READ'', ''WRITE''], ov_values = [\<lparr>sv_value = 3, sv_description = ''Turbo''\<rparr>]\<rparr>"

lemma sample_property_entries:
  "property_entries mapEnum sample_spec =
     [(''vacuum:status'', published_property mapEnum (hd (spec_services sample_spec))
         (properties_of (hd (spec_services sample_spec)) ! 0)),
      (''vacuum:mode'', published_property mapEnum (hd (spec_services sample_spec))
         (properties_of (hd (spec_services sample_spec)) ! 1))]"
  by (simp add: property_entries_def sample_spec_def properties_of_def urn_part_def spec_key_def)

lemma sample_simplified: "case simplify_spec sample_mapEnum [1, 0] [0] sample_spec [sample_override] of
    Inl _ \<Rightarrow> False
  | Inr spec \<Rightarrow> map (\<lambda>(k, a). (k, ma_in a)) (simp_actions spec) = [(''vacuum:start'', [''vacuum:mode''])]"
  by code_simp

lemma find_by_value:
  "distinct (map snd xs) \<Longrightarrow> (k, v) \<in> set xs \<Longrightarrow> find (\<lambda>(k, u). u = v) xs = Some (k, v)"
  by (induction xs) (force split: prod.splits)+

lemma sample_maps_by_key: "maps_by_key sample_mapEnum"
  by (auto simp: maps_by_key_def sample_mapEnum_def find_by_value)

lemma spec_roundtrip_witness:
  "let dto = mapModelToDTO sample_mapEnum sample_spec
   in dto \<noteq> sample_spec \<and> mapModelToDTO sample_mapEnum (mapDTOToModel sample_mapEnum dto) = dto"
proof -
  have "well_typed (mapModelToDTO sample_mapEnum sample_spec)" and "mapModelToDTO sample_mapEnum sample_spec \<noteq> sample_spec"
    by code_simp+
  with spec_roundtrip [OF sample_maps_by_key] show ?thesis by (simp add: Let_def)
qed

lemma simplified_lookup_witness:
  "\<exists>spec. simplify_spec sample_mapEnum [1, 0] [0] sample_spec [sample_override] = Inr spec
     \<and> map_option mp_source (map_of (simp_properties spec) ''vacuum:mode'') = Some ''override''
     \<and> map_option mp_source (map_of (simp_properties spec) ''vacuum:status'') = Some ''spec''"
proof -
  obtain spec where spec: "simplify_spec sample_mapEnum [1, 0] [0] sample_spec [sample_override] = Inr spec"
    using sample_simplified by (auto split: sum.splits)
  have order: "mset [1, 0] = mset [0..<length (property_entries sample_mapEnum sample_spec)]"
    and single: "length (filter (\<lambda>e. fst e = ''vacuum:status'') (property_entries sample_mapEnum sample_spec)) \<le> 1"
    by (simp_all add: sample_property_entries upt_rec)
  have "map_option mp_source (deciding_override sample_spec [sample_override] ''vacuum:mode'') = Some ''override''"
    and "deciding_override sample_spec [sample_override] ''vacuum:status'' = None"
    by code_simp+
  moreover have "map_option mp_source (map_of (property_entries sample_mapEnum sample_spec) ''vacuum:status'') = Some ''spec''"
    by (simp add: sample_property_entries published_property_def MIOT_PROPERTY_SOURCE_VALUE_SPEC_def)
  ultimately show ?thesis
    using spec single simplified_lookup [OF order spec, of "''vacuum:mode''"]
      simplified_lookup [OF order spec, of "''vacuum:status''"]
    by (auto split: option.splits)
qed

lemma action_inputs_resolve_witness:
  "\<exists>spec a. simplify_spec sample_mapEnum [1, 0] [0] sample_spec [sample_override] = Inr spec
     \<and> (''vacuum:start'', a) \<in> set (simp_actions spec) \<and> ''vacuum:mode'' \<in> fst ` set (simp_properties spec)"
proof -
  obtain spec where spec: "simplify_spec sample_mapEnum [1, 0] [0] sample_spec [sample_override] = Inr spec"
    and names: "map (\<lambda>(k, a). (k, ma_in a)) (simp_actions spec) = [(''vacuum:start'', [''vacuum:mode''])]"
    using sample_simplified by (auto split: sum.splits)
  obtain a where a: "(''vacuum:start'', a) \<in> set (simp_actions spec)" and ins: "ma_in a = [''vacuum:mode'']"
    using names by (cases "simp_actions spec") auto
  have order: "mset [1, 0] = mset [0..<length (property_entries sample_mapEnum sample_spec)]"
    by (simp add: sample_property_entries upt_rec)
  have "''vacuum:mode'' \<in> set (ma_in a)" using ins by simp
  with action_inputs_resolve [OF order spec a] spec a show ?thesis by blast
qed

end
