(* ===== verification/Telemetry.thy ===== *)
theory Telemetry
  imports Effect
begin

text \<open>
  Spans and job metrics (\<^verbatim>\<open>packages/otel/src/spanTracing.ts\<close> and \<^verbatim>\<open>jobTelemetry.ts\<close>). The part of
  the state they keep is a record the services extend: the stack of open spans, the spans that
  ended, and the measurements recorded. A span handed to a callback is the innermost open one.
  Durations are not kept; the attributes of a measurement are.
\<close>

datatype attribute = AStr string | ABool bool | ANum int | AStrs "string list"

text \<open>A trace context that came from outside, as the text map the propagator reads it from.\<close>

type_synonym carrier = "(string \<times> string) list"

record span =
  sn_name :: string
  sn_tracer :: string
  sn_kind :: string
  sn_root :: bool
  sn_parent :: "carrier option"
  sn_recording :: bool
  sn_attributes :: "(string, attribute) js_map"
  sn_error :: "string option"

datatype metric =
    MiotCall miot_method "string option"
  | PropertyRejection miot_method string "string option"
  | PropertyUnresolved miot_method nat
  | JobRun string string
  | JobSkip string string
  | JobItem string string nat

record telemetry =
  te_open :: "span list"
  te_ended :: "span list"
  te_metrics :: "metric list"

record span_options =
  so_name :: string
  so_tracer :: string
  so_kind :: "string option"
  so_attributes :: "(string \<times> attribute option) list"
  so_parent :: "carrier option"
  so_root :: bool
  so_suppress :: bool

text \<open>\<^verbatim>\<open>setAttributes\<close>: a key that maps to \<open>undefined\<close> is left out.\<close>

definition put_attributes ::
  "(string \<times> attribute option) list \<Rightarrow> (string, attribute) js_map \<Rightarrow> (string, attribute) js_map" where
  "put_attributes as m = fold (\<lambda>(k, a). case a of None \<Rightarrow> id | Some v \<Rightarrow> AList.update k v) as m"

definition setAttributes :: "(string \<times> attribute option) list \<Rightarrow> 's telemetry_scheme \<Rightarrow> 's telemetry_scheme" where
  "setAttributes as s =
     (case te_open s of
        [] \<Rightarrow> s
      | sp # rest \<Rightarrow> s\<lparr>te_open := sp\<lparr>sn_attributes := put_attributes as (sn_attributes sp)\<rparr> # rest\<rparr>)"

definition setStatusError :: "string \<Rightarrow> 's telemetry_scheme \<Rightarrow> 's telemetry_scheme" where
  "setStatusError message s =
     (case te_open s of [] \<Rightarrow> s | sp # rest \<Rightarrow> s\<lparr>te_open := sp\<lparr>sn_error := Some message\<rparr> # rest\<rparr>)"

definition recordSpanError :: "thrown \<Rightarrow> 's telemetry_scheme \<Rightarrow> 's telemetry_scheme" where
  "recordSpanError e = setStatusError (error_text e)"

text \<open>A span inside a suppressed context does not record either.\<close>

definition start_span :: "span_options \<Rightarrow> 's telemetry_scheme \<Rightarrow> 's telemetry_scheme" where
  "start_span opts s = s\<lparr>te_open :=
     \<lparr>sn_name = so_name opts, sn_tracer = so_tracer opts,
      sn_kind = (case so_kind opts of None \<Rightarrow> ''INTERNAL'' | Some k \<Rightarrow> k), sn_root = so_root opts, sn_parent = so_parent opts,
      sn_recording = (\<not> so_suppress opts \<and> list_all sn_recording (te_open s)),
      sn_attributes = put_attributes (so_attributes opts) [], sn_error = None\<rparr> # te_open s\<rparr>"

definition end_span :: "'s telemetry_scheme \<Rightarrow> 's telemetry_scheme" where
  "end_span s =
     (case te_open s of
        [] \<Rightarrow> s
      | sp # rest \<Rightarrow> s\<lparr>te_open := rest, te_ended := te_ended s @ (if sn_recording sp then [sp] else [])\<rparr>)"

text \<open>A suppressed call gets an invalid span: what is set on it goes nowhere.\<close>

definition withSpan :: "span_options \<Rightarrow> ('a, 's telemetry_scheme) effect \<Rightarrow> ('a, 's telemetry_scheme) effect" where
  "withSpan opts fn s =
     (case fn (start_span opts s) of
        (Inl e, s') \<Rightarrow> (Inl e, end_span (recordSpanError e s'))
      | (Inr a, s') \<Rightarrow> (Inr a, end_span s'))"

definition withClientSpan :: "span_options \<Rightarrow> ('a, 's telemetry_scheme) effect \<Rightarrow> ('a, 's telemetry_scheme) effect" where
  "withClientSpan opts = withSpan (opts\<lparr>so_kind := Some ''CLIENT''\<rparr>)"

text \<open>An entry point is a root unless an inbound carrier gave it a parent.\<close>

definition withEntryPointSpan :: "span_options \<Rightarrow> ('a, 's telemetry_scheme) effect \<Rightarrow> ('a, 's telemetry_scheme) effect" where
  "withEntryPointSpan opts = withSpan (opts\<lparr>so_root := (so_parent opts = None)\<rparr>)"

definition count_metric :: "metric \<Rightarrow> 's telemetry_scheme \<Rightarrow> 's telemetry_scheme" where
  "count_metric m s = s\<lparr>te_metrics := te_metrics s @ [m]\<rparr>"

subsection \<open>Jobs\<close>

definition JOB_OUTCOME_VALUE_SUCCESS :: string where "JOB_OUTCOME_VALUE_SUCCESS = ''success''"
definition JOB_OUTCOME_VALUE_FAILURE :: string where "JOB_OUTCOME_VALUE_FAILURE = ''failure''"
definition JOB_SKIP_REASON_VALUE_NOTHING_DUE :: string where "JOB_SKIP_REASON_VALUE_NOTHING_DUE = ''nothing_due''"

record job_options =
  jo_name :: string
  jo_tracer :: string
  jo_spanName :: "string option"
  jo_attributes :: "(string \<times> attribute option) list"
  jo_suppressTrace :: bool

definition recordItem :: "string \<Rightarrow> string \<Rightarrow> nat \<Rightarrow> 's telemetry_scheme \<Rightarrow> 's telemetry_scheme" where
  "recordItem name outcome count = count_metric (JobItem name outcome count)"

definition recordRun :: "string \<Rightarrow> string \<Rightarrow> 's telemetry_scheme \<Rightarrow> 's telemetry_scheme" where
  "recordRun name outcome = count_metric (JobRun name outcome)"

definition recordJobSkip :: "string \<Rightarrow> string \<Rightarrow> 's telemetry_scheme \<Rightarrow> 's telemetry_scheme" where
  "recordJobSkip name reason = count_metric (JobSkip name reason)"

definition recordOnSettle :: "string \<Rightarrow> ('a, 's telemetry_scheme) effect \<Rightarrow> ('a, 's telemetry_scheme) effect" where
  "recordOnSettle name fn s =
     (case fn s of
        (Inl e, s') \<Rightarrow> (Inl e, recordRun name JOB_OUTCOME_VALUE_FAILURE s')
      | (Inr a, s') \<Rightarrow> (Inr a, recordRun name JOB_OUTCOME_VALUE_SUCCESS s'))"

definition runJob :: "job_options \<Rightarrow> ('a, 's telemetry_scheme) effect \<Rightarrow> ('a, 's telemetry_scheme) effect" where
  "runJob opts fn =
     withEntryPointSpan
       \<lparr>so_name = (case jo_spanName opts of None \<Rightarrow> jo_name opts | Some n \<Rightarrow> n), so_tracer = jo_tracer opts,
        so_kind = None, so_attributes = jo_attributes opts, so_parent = None, so_root = False, so_suppress = jo_suppressTrace opts\<rparr>
       (recordOnSettle (jo_name opts) fn)"

subsection \<open>Spans nest and end once\<close>

text \<open>What every callback leaves as it found it: the spans that were open before it, but for what it
  set on the innermost one.\<close>

definition span_frame :: "span \<Rightarrow> span \<Rightarrow> bool" where
  "span_frame a b \<longleftrightarrow> (\<exists>as e. b = a\<lparr>sn_attributes := as, sn_error := e\<rparr>)"

lemma span_frame_refl [simp, intro]: "span_frame a a"
  unfolding span_frame_def by (rule exI [of _ "sn_attributes a"], rule exI [of _ "sn_error a"]) simp

lemma span_frame_updates [simp, intro]:
  "span_frame a (a\<lparr>sn_attributes := as\<rparr>)" "span_frame a (a\<lparr>sn_error := e\<rparr>)"
  unfolding span_frame_def
  by (rule exI [of _ as], rule exI [of _ "sn_error a"], simp)
     (rule exI [of _ "sn_attributes a"], rule exI [of _ e], simp)

lemma span_frame_recording: "span_frame a b \<Longrightarrow> sn_recording b = sn_recording a \<and> sn_name b = sn_name a"
  unfolding span_frame_def by auto

fun same_stack :: "span list \<Rightarrow> span list \<Rightarrow> bool" where
  "same_stack [] ys \<longleftrightarrow> ys = []"
| "same_stack (x # xs) ys \<longleftrightarrow> (\<exists>y. ys = y # xs \<and> span_frame x y)"

definition balanced :: "('a, 's telemetry_scheme) effect \<Rightarrow> bool" where
  "balanced fn \<longleftrightarrow> (\<forall>s. same_stack (te_open s) (te_open (snd (fn s))))"

lemma same_stack_refl [simp, intro]: "same_stack xs xs"
  by (cases xs) auto

lemma same_stack_trans: "same_stack xs ys \<Longrightarrow> same_stack ys zs \<Longrightarrow> same_stack xs zs"
  by (cases xs) (auto simp: span_frame_def)

lemma balanced_returning [simp, intro]: "balanced (returning a)"
  and balanced_throwing [simp, intro]: "balanced (throwing e)"
  by (auto simp: balanced_def)

lemma balanced_and_then [intro]:
  assumes "balanced m" and "\<And>a. balanced (k a)"
  shows "balanced (and_then m k)"
proof -
  have "same_stack (te_open s) (te_open (snd (and_then m k s)))" for s
  proof (cases "m s")
    case (Pair r s')
    have m: "same_stack (te_open s) (te_open s')" using assms(1) Pair unfolding balanced_def by (metis snd_conv)
    show ?thesis
    proof (cases r)
      case (Inl e)
      with Pair m show ?thesis by simp
    next
      case (Inr a)
      have "same_stack (te_open s') (te_open (snd (k a s')))" using assms(2) unfolding balanced_def by blast
      with Pair Inr m show ?thesis using same_stack_trans by simp
    qed
  qed
  then show ?thesis by (simp add: balanced_def)
qed

lemma balanced_doing [intro]: "(\<And>s. same_stack (te_open s) (te_open (f s))) \<Longrightarrow> balanced (doing f)"
  by (simp add: balanced_def)

lemma setAttributes_stack [simp, intro]: "same_stack (te_open s) (te_open (setAttributes as s))"
  by (cases "te_open s") (simp_all add: setAttributes_def)

lemma setStatusError_stack [simp, intro]: "same_stack (te_open s) (te_open (setStatusError m s))"
  by (cases "te_open s") (simp_all add: setStatusError_def)

lemma count_metric_simps [simp]:
  "te_open (count_metric m s) = te_open s" "te_ended (count_metric m s) = te_ended s"
  "te_metrics (count_metric m s) = te_metrics s @ [m]"
  by (simp_all add: count_metric_def)

lemma set_metrics [simp]:
  "te_metrics (setAttributes as s) = te_metrics s" "te_metrics (setStatusError m s) = te_metrics s"
  "te_metrics (start_span opts s) = te_metrics s" "te_metrics (end_span s) = te_metrics s"
  by (simp_all add: setAttributes_def setStatusError_def start_span_def end_span_def split: list.splits)

lemma withSpan_ends:
  assumes "balanced fn" and "withSpan opts fn s = (r, s')"
  shows "te_open s' = te_open s
    \<and> (\<exists>inner. te_ended (snd (fn (start_span opts s))) = inner \<and>
         (if so_suppress opts \<or> \<not> list_all sn_recording (te_open s) then te_ended s' = inner
          else \<exists>sp. te_ended s' = inner @ [sp] \<and> sn_name sp = so_name opts
               \<and> (\<forall>e. r = Inl e \<longrightarrow> sn_error sp = Some (error_text e))))"
proof -
  obtain r1 s1 where fn: "fn (start_span opts s) = (r1, s1)" by (cases "fn (start_span opts s)")
  have "same_stack (te_open (start_span opts s)) (te_open s1)"
    using assms(1) fn unfolding balanced_def by (metis snd_conv)
  then obtain sp where top: "te_open s1 = sp # te_open s" and frame: "span_frame (hd (te_open (start_span opts s))) sp"
    by (auto simp: start_span_def)
  have "sn_recording sp \<longleftrightarrow> \<not> so_suppress opts \<and> list_all sn_recording (te_open s)" and "sn_name sp = so_name opts"
    using span_frame_recording [OF frame] by (simp_all add: start_span_def)
  with assms(2) fn top show ?thesis
    by (auto simp: withSpan_def end_span_def recordSpanError_def setStatusError_def split: sum.splits)
qed

lemma withSpan_balanced [intro]: "balanced fn \<Longrightarrow> balanced (withSpan opts fn)"
  using withSpan_ends by (metis balanced_def same_stack_refl surj_pair snd_conv)

text \<open>
  A job run is measured once, with the outcome it had and after whatever its body
  recorded, whether its trace is kept or suppressed.
\<close>

theorem runJob_measures_once:
  assumes "balanced fn" and "runJob opts fn s = (r, s')"
  shows "\<exists>s1. te_metrics s' = te_metrics s1
      @ [JobRun (jo_name opts) (if isl r then JOB_OUTCOME_VALUE_FAILURE else JOB_OUTCOME_VALUE_SUCCESS)]
    \<and> (\<exists>s0. fn s0 = (r, s1) \<and> te_metrics s0 = te_metrics s) \<and> te_open s' = te_open s"
proof -
  obtain opts' where run: "withSpan opts' (recordOnSettle (jo_name opts) fn) s = (r, s')"
    using assms(2) by (auto simp: runJob_def withEntryPointSpan_def)
  have "balanced (recordOnSettle (jo_name opts) fn)"
    using assms(1) unfolding balanced_def recordOnSettle_def recordRun_def
    by (auto split: prod.splits sum.splits) (metis snd_conv)+
  with withSpan_ends [OF _ run] have "te_open s' = te_open s" by blast
  with run show ?thesis
    by (force simp: withSpan_def recordOnSettle_def recordRun_def recordSpanError_def split: prod.splits sum.splits)
qed

text \<open>
  A span opened by \<^verbatim>\<open>withSpan\<close> ends exactly once, whether the callback returns or
  throws: the spans open before are open again, unchanged, and when the call is not suppressed and
  no enclosing span is, one span with the name is exported after those the callback exported, carrying the
  message of the error it threw. A suppressed call exports nothing of its own.
\<close>

theorem withSpan_ends_once:
  assumes "balanced fn" and "withSpan opts fn s = (r, s')"
  shows "te_open s' = te_open s
    \<and> (\<exists>inner. te_ended (snd (fn (start_span opts s))) = inner \<and>
         (if so_suppress opts \<or> \<not> list_all sn_recording (te_open s) then te_ended s' = inner
          else \<exists>sp. te_ended s' = inner @ [sp] \<and> sn_name sp = so_name opts
               \<and> (\<forall>e. r = Inl e \<longrightarrow> sn_error sp = Some (error_text e))))"
  by (rule withSpan_ends [OF assms])

subsection \<open>What does not depend on telemetry\<close>

text \<open>A state predicate that reads none of the telemetry is kept by spans and job runs.\<close>

locale telemetry_frame =
  fixes P :: "'z telemetry_scheme \<Rightarrow> bool"
  assumes telemetry: "P s \<Longrightarrow> P (s\<lparr>te_open := oo, te_ended := ee, te_metrics := mm\<rparr>)"
begin

lemma open_only: "P s \<Longrightarrow> P (s\<lparr>te_open := oo\<rparr>)"
  using telemetry [where s = s and oo = oo and ee = "te_ended s" and mm = "te_metrics s"] by simp

lemma metrics_only: "P s \<Longrightarrow> P (count_metric m s)"
  using telemetry [where s = s and oo = "te_open s" and ee = "te_ended s" and mm = "te_metrics s @ [m]"]
  by (simp add: count_metric_def)

lemma attributes: "P s \<Longrightarrow> P (setAttributes as s)"
  by (auto simp: setAttributes_def open_only split: list.splits)

lemma span_error: "P s \<Longrightarrow> P (recordSpanError e s)"
  by (auto simp: recordSpanError_def setStatusError_def open_only split: list.splits)

lemma span_start: "P s \<Longrightarrow> P (start_span opts s)"
  by (auto simp: start_span_def open_only)

lemma span_end: "P s \<Longrightarrow> P (end_span s)"
  using telemetry [where s = s and mm = "te_metrics s"] by (auto simp: end_span_def split: list.splits)

lemma kept_withSpan [intro]: "preserves P fn \<Longrightarrow> preserves P (withSpan opts fn)"
  unfolding preserves_def [of P "withSpan opts fn"] withSpan_def
  by (auto intro!: span_end span_error dest: preservesD span_start split: prod.splits sum.splits)

lemma kept_runJob [intro]: "preserves P fn \<Longrightarrow> preserves P (runJob opts fn)"
  unfolding runJob_def withEntryPointSpan_def
  by (rule kept_withSpan, subst preserves_def)
    (auto simp: recordOnSettle_def recordRun_def intro!: metrics_only dest: preservesD split: prod.splits sum.splits)

end

definition no_telemetry :: telemetry where
  "no_telemetry = \<lparr>te_open = [], te_ended = [], te_metrics = []\<rparr>"

definition sample_span :: span_options where
  "sample_span = \<lparr>so_name = ''work'', so_tracer = ''test'', so_kind = None, so_attributes = [],
     so_parent = None, so_root = False, so_suppress = False\<rparr>"

lemma withSpan_ends_once_witness:
  "\<exists>s' sp. withSpan sample_span (throwing (PlainError ''bad'') :: (unit, telemetry) effect) no_telemetry
       = (Inl (PlainError ''bad''), s')
     \<and> te_open s' = [] \<and> te_ended s' = [sp] \<and> sn_error sp = Some ''bad''"
proof -
  let ?fn = "throwing (PlainError ''bad'') :: (unit, telemetry) effect"
  obtain r s' where run: "withSpan sample_span ?fn no_telemetry = (r, s')" by (meson surj_pair)
  then have r: "r = Inl (PlainError ''bad'')" by (simp add: withSpan_def)
  from withSpan_ends_once [OF balanced_throwing run] run r show ?thesis
    by (auto simp: no_telemetry_def sample_span_def start_span_def)
qed

lemma runJob_measures_once_witness:
  "\<exists>s'. runJob \<lparr>jo_name = ''poll'', jo_tracer = ''t'', jo_spanName = None, jo_attributes = [], jo_suppressTrace = True\<rparr>
       (returning () :: (unit, telemetry) effect) no_telemetry = (Inr (), s')
     \<and> te_metrics s' = [JobRun ''poll'' ''success'']"
proof -
  let ?opts = "\<lparr>jo_name = ''poll'', jo_tracer = ''t'', jo_spanName = None, jo_attributes = [], jo_suppressTrace = True\<rparr>"
  obtain r s' where run: "runJob ?opts (returning () :: (unit, telemetry) effect) no_telemetry = (r, s')"
    by (meson surj_pair)
  then have r: "r = Inr ()"
    by (auto simp: runJob_def withEntryPointSpan_def withSpan_def recordOnSettle_def)
  from runJob_measures_once [OF balanced_returning run]
  have "te_metrics s' = te_metrics no_telemetry @ [JobRun ''poll'' ''success'']"
    using r by (auto simp: JOB_OUTCOME_VALUE_SUCCESS_def)
  with run r show ?thesis by (simp add: no_telemetry_def)
qed

end
