(* ===== verification/Device_Command.thy ===== *)
theory Device_Command
  imports Miot_Device Miot_Spec Telemetry
begin

text \<open>
  The command path of the bridge: the pool of device instances
  (\<^verbatim>\<open>services/MiotDeviceRegistry.ts\<close>), the span and the metrics of a device call
  (\<^verbatim>\<open>otel/miotTracing.ts\<close>, \<^verbatim>\<open>otel/telemetry.ts\<close>), and the service that validates and dispatches
  commands (\<^verbatim>\<open>services/DeviceCommandService.ts\<close>). The storage services, the network and the
  notification sink are what a command calls; the first two are parameters, the observations handed
  to the sink are kept in order.
\<close>

subsection \<open>State\<close>

record device_cache =
  dc_id :: string
  dc_createdAt :: int
  dc_updatedAt :: int
  dc_deviceId :: int
  dc_address :: string
  dc_token :: string
  dc_stamp :: "int option"
  dc_model :: string
  dc_specURL :: string
  dc_stampUpdatedAt :: "int option"
  dc_rawSpec :: spec_v2

record property_change =
  pc_deviceId :: string
  pc_miotDeviceId :: int
  pc_property :: string
  pc_oldValue :: "json option"
  pc_newValue :: "json option"
  pc_timestamp :: int

datatype log_entry =
    Log_Unresolved string string string
  | Log_Refused int string int int string string
  | Log_Rejected_Command int string string miot_method string
  | Log_Other string

record 'w bridge = telemetry +
  br_world :: 'w
  br_registry :: "(int, 'w miot_device) js_map"
  br_unresolvedLogged :: "string list"
  br_log :: "log_entry list"
  br_received :: "property_change list"

type_synonym ('a, 'w) service = "('a, 'w bridge) effect"

record 'w bridge_env =
  env_runtime :: runtime
  env_network :: "'w network"
  env_mapEnum :: "enum \<Rightarrow> enum \<Rightarrow> string \<Rightarrow> string"
  env_property_order :: "spec_v2 \<Rightarrow> nat list"
  env_action_order :: "spec_v2 \<Rightarrow> nat list"
  env_getById :: "string \<Rightarrow> (device_cache option, 'w) effect"
  env_getByDeviceId :: "int \<Rightarrow> (device_cache option, 'w) effect"
  env_getByModel :: "string \<Rightarrow> (model_override list, 'w) effect"

definition in_world :: "('a, 'w) effect \<Rightarrow> ('a, 'w) service" where
  "in_world = within br_world (\<lambda>w s. s\<lparr>br_world := w\<rparr>)"

definition log_line :: "log_entry \<Rightarrow> ('w, 'z) bridge_scheme \<Rightarrow> ('w, 'z) bridge_scheme" where
  "log_line l s = s\<lparr>br_log := br_log s @ [l]\<rparr>"

subsection \<open>\<^verbatim>\<open>MiotDeviceRegistry\<close>\<close>

definition new_instance :: "device_cache \<Rightarrow> 'w miot_device" where
  "new_instance device =
     (let instance = MiotDevice (dc_address device) (HexToken (dc_token device)) None (Some (dc_deviceId device)) None
      in case dc_stamp device of
           None \<Rightarrow> instance
         | Some stamp \<Rightarrow> setStampState
             \<lparr>st_stamp = stamp, st_updatedAt = (case dc_stampUpdatedAt device of None \<Rightarrow> 0 | Some t \<Rightarrow> t)\<rparr> instance)"

definition getOrCreate ::
  "device_cache \<Rightarrow> (int, 'w miot_device) js_map \<Rightarrow> 'w miot_device \<times> (int, 'w miot_device) js_map" where
  "getOrCreate device registry =
     (case map_of registry (dc_deviceId device) of
        Some existing \<Rightarrow> (existing, registry)
      | None \<Rightarrow> (let instance = new_instance device
                in (instance, AList.update (dc_deviceId device) instance registry)))"

definition registry_remove :: "int \<Rightarrow> (int, 'w miot_device) js_map \<Rightarrow> (int, 'w miot_device) js_map" where
  "registry_remove = AList.delete"

text \<open>
  A method of the instance: the instance is shared, so what the method leaves in it is what the
  registry's next caller finds.
\<close>

definition with_device ::
  "device_cache \<Rightarrow> ('w miot_device \<times> 'w \<Rightarrow> (thrown + 'a) \<times> 'w miot_device \<times> 'w) \<Rightarrow> ('a, 'w) service" where
  "with_device device method s =
     (let (dev, registry) = getOrCreate device (br_registry s); (r, dev', w') = method (dev, br_world s)
      in (r, s\<lparr>br_registry := AList.update (dc_deviceId device) dev' registry, br_world := w'\<rparr>))"

subsection \<open>The span and the metrics of a call\<close>

definition identifierAttribute :: "string option \<Rightarrow> attribute option" where
  "identifierAttribute value = map_option AStr value"

fun error_kind_text :: "miot_error_kind \<Rightarrow> string" where
  "error_kind_text MIOT_ERROR_TIMEOUT = ''timeout''"
| "error_kind_text MIOT_ERROR_DEVICE_ERROR = ''device_error''"
| "error_kind_text MIOT_ERROR_TRANSPORT_ERROR = ''transport_error''"

definition ERROR_TYPE_VALUE_OTHER :: string where "ERROR_TYPE_VALUE_OTHER = ''_OTHER''"
definition MIOT_ERROR_TYPE_VALUE_REJECTED_LOCALLY :: string where
  "MIOT_ERROR_TYPE_VALUE_REJECTED_LOCALLY = ''rejected_locally''"
definition MIOT_STATUS_CODE_VALUE_MISSING :: string where "MIOT_STATUS_CODE_VALUE_MISSING = ''_MISSING''"
definition MIOT_PROPERTY_CODE_MISSING :: int where "MIOT_PROPERTY_CODE_MISSING = -1"

definition miotErrorType :: "thrown \<Rightarrow> string option" where
  "miotErrorType e = map_option error_kind_text (error_kind e)"

definition miotStatusCode :: "thrown \<Rightarrow> string option" where
  "miotStatusCode e = map_option show_js (error_code e)"

definition miotSpanName :: "miot_method \<Rightarrow> string" where
  "miotSpanName method = ''miot '' @ miot_method_text method"

definition recordMiotLocalRejection :: "miot_method \<Rightarrow> 's telemetry_scheme \<Rightarrow> 's telemetry_scheme" where
  "recordMiotLocalRejection method = count_metric (MiotCall method (Some MIOT_ERROR_TYPE_VALUE_REJECTED_LOCALLY))"

definition recordPropertyRejection ::
  "miot_method \<Rightarrow> string \<Rightarrow> string option \<Rightarrow> 's telemetry_scheme \<Rightarrow> 's telemetry_scheme" where
  "recordPropertyRejection method source statusCode = count_metric (PropertyRejection method source statusCode)"

definition recordPropertyUnresolved :: "miot_method \<Rightarrow> nat \<Rightarrow> 's telemetry_scheme \<Rightarrow> 's telemetry_scheme" where
  "recordPropertyUnresolved method n = count_metric (PropertyUnresolved method n)"

definition recordCall :: "miot_method \<Rightarrow> string option \<Rightarrow> 's telemetry_scheme \<Rightarrow> 's telemetry_scheme" where
  "recordCall method errorType = count_metric (MiotCall method errorType)"

record miot_call =
  mc_method :: miot_method
  mc_address :: string
  mc_deviceId :: "int option"
  mc_attributes :: "(string \<times> attribute option) list"
  mc_propertySource :: "string option"

definition call_span :: "miot_call \<Rightarrow> span_options" where
  "call_span call =
     \<lparr>so_name = miotSpanName (mc_method call), so_tracer = ''miot'', so_kind = None,
      so_attributes =
        [(''rpc.system.name'', Some (AStr ''jsonrpc'')),
         (''rpc.method'', Some (AStr (miot_method_text (mc_method call)))),
         (''network.transport'', Some (AStr ''udp'')),
         (''server.address'', Some (AStr (mc_address call))),
         (''server.port'', Some (ANum MIOT_DEFAULT_PORT)),
         (''miot.device.id'', identifierAttribute (map_option show_int (mc_deviceId call))),
         (''miot.property.source'', map_option AStr (mc_propertySource call))] @ mc_attributes call,
      so_parent = None, so_root = False, so_suppress = False\<rparr>"

text \<open>What the failure of a call leaves on its span and in the metrics.\<close>

definition on_call_failed :: "miot_call \<Rightarrow> thrown \<Rightarrow> 's telemetry_scheme \<Rightarrow> 's telemetry_scheme" where
  "on_call_failed call e s =
     (let errorType = (case miotErrorType e of None \<Rightarrow> ERROR_TYPE_VALUE_OTHER | Some t \<Rightarrow> t);
          statusCode = miotStatusCode e;
          s1 = setAttributes
            [(''error.type'', Some (AStr errorType)), (''rpc.response.status_code'', map_option AStr statusCode),
             (''miot.stamp.refreshed'', if is_miot_error e
                then Some (ABool (stamp_refreshed e)) else None)] s;
          s2 = recordCall (mc_method call) (Some errorType) s1
      in case mc_propertySource call of
           Some source \<Rightarrow>
             if is_miot_error e \<and> error_kind e = Some MIOT_ERROR_DEVICE_ERROR
             then recordPropertyRejection (mc_method call) source statusCode s2 else s2
         | None \<Rightarrow> s2)"

definition withMiotCallSpan ::
  "miot_call \<Rightarrow> ('a, 's telemetry_scheme) effect \<Rightarrow> ('a, 's telemetry_scheme) effect" where
  "withMiotCallSpan call fn =
     withClientSpan (call_span call) (\<lambda>s.
       case fn s of
         (Inr result, s') \<Rightarrow> (Inr result, recordCall (mc_method call) None s')
       | (Inl e, s') \<Rightarrow> (Inl e, on_call_failed call e s'))"

subsection \<open>Requests\<close>

datatype operation = GetProperty | SetProperty | Action | UnknownOperation string

fun operation_text :: "operation \<Rightarrow> string" where
  "operation_text GetProperty = ''GET_PROPERTY''"
| "operation_text SetProperty = ''SET_PROPERTY''"
| "operation_text Action = ''ACTION''"
| "operation_text (UnknownOperation s) = s"

record command_request =
  rq_deviceId :: int
  rq_command :: string
  rq_operation :: operation
  rq_value :: "json option"

record raw_request =
  raw_deviceId :: int
  raw_operation :: operation
  raw_siid :: int
  raw_piid :: "int option"
  raw_aiid :: "int option"
  raw_value :: "json option"

record command_response =
  cr_deviceId :: int
  cr_command :: string
  cr_operation :: operation
  cr_success :: bool
  cr_value :: "json option"

record keyed_result =
  kr_key :: string
  kr_siid :: int
  kr_piid :: int
  kr_source :: string
  kr_value :: "json option"
  kr_code :: json

text \<open>A validated command.\<close>

datatype resolved = Resolved_Get miot_property | Resolved_Set miot_property | Resolved_Action miot_action

definition iidAttributes :: "int \<Rightarrow> int \<Rightarrow> (string \<times> attribute option) list" where
  "iidAttributes siid piid =
     [(''miot.siid'', identifierAttribute (Some (show_int siid))), (''miot.piid'', identifierAttribute (Some (show_int piid)))]"

definition aiidAttributes :: "int \<Rightarrow> int option \<Rightarrow> (string \<times> attribute option) list" where
  "aiidAttributes siid aiid =
     [(''miot.siid'', identifierAttribute (Some (show_int siid))), (''miot.aiid'', identifierAttribute (map_option show_int aiid))]"

fun miotMethodOf :: "operation \<Rightarrow> miot_method" where
  "miotMethodOf SetProperty = MIOT_METHOD_SET_PROPERTIES"
| "miotMethodOf Action = MIOT_METHOD_ACTION"
| "miotMethodOf _ = MIOT_METHOD_GET_PROPERTIES"

definition device_call ::
  "miot_method \<Rightarrow> device_cache \<Rightarrow> string option \<Rightarrow> (string \<times> attribute option) list \<Rightarrow> miot_call" where
  "device_call method device source as =
     \<lparr>mc_method = method, mc_address = dc_address device, mc_deviceId = Some (dc_deviceId device),
      mc_attributes = as, mc_propertySource = source\<rparr>"

definition require_found :: "string \<Rightarrow> 'a option \<Rightarrow> ('a, 's) effect" where
  "require_found message v = (case v of None \<Rightarrow> throwing (NotFound message) | Some a \<Rightarrow> returning a)"

definition require :: "bool \<Rightarrow> string \<Rightarrow> (unit, 's) effect" where
  "require ok message = (if ok then returning () else throwing (BadRequest message))"

subsection \<open>Validation\<close>

definition validatePropertyValue ::
  "runtime \<Rightarrow> string \<Rightarrow> json option \<Rightarrow> miot_property \<Rightarrow> thrown + unit" where
  "validatePropertyValue rt command value property =
     (if \<exists>v \<in> set (mp_values property). value = Some (JNum (sv_value v)) then Inr ()
      else Inl (BadRequest (''Property '' @ quoted command @ '' value ''
        @ (case value of None \<Rightarrow> ''undefined'' | Some v \<Rightarrow> json_stringify rt v) @ '' is not allowed. Allowed values: ''
        @ join '', '' (map (\<lambda>v. show_int (sv_value v) @ '' ('' @ sv_description v @ '')'') (mp_values property)))))"

definition resolveCommand :: "runtime \<Rightarrow> command_request \<Rightarrow> int \<Rightarrow> simplified_spec \<Rightarrow> thrown + resolved" where
  "resolveCommand rt request deviceId spec =
     (let command = rq_command request;
          missing = (\<lambda>what. Inl (BadRequest (what @ '' '' @ quoted command @ '' not found in spec for device ''
                      @ show_int deviceId @ ''.'')))
      in case rq_operation request of
           GetProperty \<Rightarrow>
             (case map_of (simp_properties spec) command of
                None \<Rightarrow> missing ''Property''
              | Some property \<Rightarrow>
                  if ''READ'' \<notin> set (mp_access property) \<and> ''NOTIFY'' \<notin> set (mp_access property)
                  then Inl (BadRequest (''Property '' @ quoted command @ '' does not support read or notify access.''))
                  else Inr (Resolved_Get property))
         | SetProperty \<Rightarrow>
             (case map_of (simp_properties spec) command of
                None \<Rightarrow> missing ''Property''
              | Some property \<Rightarrow>
                  if ''WRITE'' \<notin> set (mp_access property)
                  then Inl (BadRequest (''Property '' @ quoted command @ '' does not support write access.''))
                  else (case validatePropertyValue rt command (rq_value request) property of
                          Inl e \<Rightarrow> Inl e | Inr _ \<Rightarrow> Inr (Resolved_Set property)))
         | Action \<Rightarrow>
             (case map_of (simp_actions spec) command of
                None \<Rightarrow> missing ''Action''
              | Some action \<Rightarrow> Inr (Resolved_Action action))
         | UnknownOperation oper \<Rightarrow> Inl (BadRequest (''Unsupported operation: '' @ oper @ ''.'')))"

definition resolveOrRecordRejection ::
  "runtime \<Rightarrow> command_request \<Rightarrow> int \<Rightarrow> simplified_spec \<Rightarrow> (resolved, 'w) service" where
  "resolveOrRecordRejection rt request deviceId spec =
     catching (lifted (resolveCommand rt request deviceId spec)) (\<lambda>e.
       let method = miotMethodOf (rq_operation request)
       in and_then (doing (recordMiotLocalRejection method)) (\<lambda>_.
          and_then (doing (log_line (Log_Rejected_Command deviceId (rq_command request)
             (operation_text (rq_operation request)) method (error_text e)))) (\<lambda>_.
          throwing e)))"

subsection \<open>\<^verbatim>\<open>DeviceCommandService\<close>\<close>

definition getByModel :: "'w bridge_env \<Rightarrow> string \<Rightarrow> (model_override list, 'w) service" where
  "getByModel env model = in_world (env_getByModel env model)"

definition simplified :: "'w bridge_env \<Rightarrow> device_cache \<Rightarrow> model_override list \<Rightarrow> thrown + simplified_spec" where
  "simplified env device overrides =
     simplify_spec (env_mapEnum env) (env_property_order env (dc_rawSpec device))
       (env_action_order env (dc_rawSpec device)) (dc_rawSpec device) overrides"

definition log_unresolved :: "string \<Rightarrow> string \<Rightarrow> string \<Rightarrow> 'w bridge \<Rightarrow> 'w bridge" where
  "log_unresolved storageId model key s =
     (let seen = storageId @ '':'' @ key
      in if seen \<in> set (br_unresolvedLogged s) then s
         else log_line (Log_Unresolved storageId key model)
                (s\<lparr>br_unresolvedLogged := br_unresolvedLogged s @ [seen]\<rparr>))"

definition reportUnresolvedProperties :: "string \<Rightarrow> string \<Rightarrow> string list \<Rightarrow> 'w bridge \<Rightarrow> 'w bridge" where
  "reportUnresolvedProperties storageId model unresolved s =
     (if unresolved = [] then s
      else fold (log_unresolved storageId model) unresolved
             (recordPropertyUnresolved MIOT_METHOD_GET_PROPERTIES (length unresolved) s))"

definition rejection_status :: "keyed_result \<Rightarrow> string" where
  "rejection_status r = (if kr_code r = JNum MIOT_PROPERTY_CODE_MISSING then MIOT_STATUS_CODE_VALUE_MISSING
     else show_js (kr_code r))"

definition report_rejected :: "int \<Rightarrow> keyed_result \<Rightarrow> 'w bridge \<Rightarrow> 'w bridge" where
  "report_rejected miotDeviceId r s =
     log_line (Log_Refused miotDeviceId (kr_key r) (kr_siid r) (kr_piid r) (kr_source r) (rejection_status r))
       (recordPropertyRejection MIOT_METHOD_GET_PROPERTIES (kr_source r) (Some (rejection_status r)) s)"

definition reportRejectedProperties :: "int \<Rightarrow> keyed_result list \<Rightarrow> 'w bridge \<Rightarrow> 'w bridge" where
  "reportRejectedProperties miotDeviceId results s =
     (let rejected = filter (\<lambda>r. kr_code r \<noteq> JNum 0) results
      in if rejected = [] then s
         else fold (report_rejected miotDeviceId) rejected
                (setAttributes [(''miot.property.rejected'', Some (AStrs (map kr_key rejected))),
                                (''miot.property.rejected.count'', Some (ANum (int (length rejected))))] s))"

text \<open>The keys the specification resolves, with their property, and those it does not.\<close>

definition resolved_keys :: "simplified_spec \<Rightarrow> string list \<Rightarrow> (string \<times> miot_property) list" where
  "resolved_keys spec keys =
     List.map_filter (\<lambda>key. map_option (Pair key) (map_of (simp_properties spec) key)) keys"

definition unresolved_keys :: "simplified_spec \<Rightarrow> string list \<Rightarrow> string list" where
  "unresolved_keys spec keys = filter (\<lambda>key. map_of (simp_properties spec) key = None) keys"

definition keyed_result_of :: "property_result list \<Rightarrow> string \<times> miot_property \<Rightarrow> keyed_result" where
  "keyed_result_of raw kp =
     (let (key, p) = kp;
          r = find (\<lambda>x. pr_siid x = Some (JNum (mp_siid p)) \<and> pr_piid x = Some (JNum (mp_piid p))) raw
      in \<lparr>kr_key = key, kr_siid = mp_siid p, kr_piid = mp_piid p, kr_source = mp_source p,
          kr_value = Option.bind r pr_value,
          kr_code = (case Option.bind r pr_code of
             Some c \<Rightarrow> if c = JNull then JNum MIOT_PROPERTY_CODE_MISSING else c
           | None \<Rightarrow> JNum MIOT_PROPERTY_CODE_MISSING)\<rparr>)"

definition bulk_read ::
  "'w bridge_env \<Rightarrow> device_cache \<Rightarrow> (string \<times> miot_property) list \<Rightarrow> (keyed_result list, 'w) service" where
  "bulk_read env device props =
     and_then (with_device device (dev_getProperties (env_runtime env) (env_network env)
                 (map (\<lambda>(k, p). (mp_siid p, mp_piid p)) props))) (\<lambda>rawResults.
       let mapped = map (keyed_result_of rawResults) props
       in and_then (doing (reportRejectedProperties (dc_deviceId device) mapped)) (\<lambda>_. returning mapped))"

definition svc_getProperties ::
  "'w bridge_env \<Rightarrow> string \<Rightarrow> string list \<Rightarrow> (int \<times> keyed_result list, 'w) service" where
  "svc_getProperties env storageId keys =
     and_then (in_world (env_getById env storageId)) (\<lambda>found.
     and_then (require_found (''Device '' @ storageId @ '' not found.'') found) (\<lambda>device.
     and_then (getByModel env (dc_model device)) (\<lambda>overrides.
     and_then (lifted (simplified env device overrides)) (\<lambda>spec.
       let props = resolved_keys spec keys; unresolved = unresolved_keys spec keys
       in and_then (doing (reportUnresolvedProperties storageId (dc_model device) unresolved)) (\<lambda>_.
          if props = [] then returning (dc_deviceId device, [])
          else and_then (withMiotCallSpan
                 (device_call MIOT_METHOD_GET_PROPERTIES device None
                    [(''miot.property.count'', Some (ANum (int (length props)))),
                     (''miot.property.unresolved'', if unresolved = [] then None else Some (AStrs unresolved)),
                     (''miot.property.unresolved.count'',
                        if unresolved = [] then None else Some (ANum (int (length unresolved))))])
                 (bulk_read env device props)) (\<lambda>results.
               returning (dc_deviceId device, results)))))))"

text \<open>The call of one command, its value, and the observation it passes on.\<close>

definition read_value :: "'w bridge_env \<Rightarrow> device_cache \<Rightarrow> int \<Rightarrow> int \<Rightarrow> (json option, 'w) service" where
  "read_value env device siid piid =
     with_device device (dev_getProperty (env_runtime env) (env_network env) siid piid)"

definition write_value ::
  "'w bridge_env \<Rightarrow> device_cache \<Rightarrow> int \<Rightarrow> int \<Rightarrow> json option \<Rightarrow> (unit, 'w) service" where
  "write_value env device siid piid value =
     with_device device (dev_setProperty (env_runtime env) (env_network env) siid piid value)"

definition call_action ::
  "'w bridge_env \<Rightarrow> device_cache \<Rightarrow> int \<Rightarrow> int \<Rightarrow> json option \<Rightarrow> (unit, 'w) service" where
  "call_action env device siid aiid args =
     with_device device (dev_callAction (env_runtime env) (env_network env) siid aiid args)"

definition receive :: "property_change \<Rightarrow> ('w, 'z) bridge_scheme \<Rightarrow> ('w, 'z) bridge_scheme" where
  "receive event s = s\<lparr>br_received := br_received s @ [event]\<rparr>"

definition observed :: "'w bridge_env \<Rightarrow> device_cache \<Rightarrow> string \<Rightarrow> json option \<Rightarrow> 'w bridge \<Rightarrow> 'w bridge" where
  "observed env device property value s =
     receive \<lparr>pc_deviceId = dc_id device, pc_miotDeviceId = dc_deviceId device, pc_property = property,
       pc_oldValue = None, pc_newValue = value, pc_timestamp = net_now (env_network env) (br_world s)\<rparr> s"

definition no_device :: "int \<Rightarrow> string" where
  "no_device deviceId = ''Device '' @ show_int deviceId @ '' not found in cache. Register the device first.''"

definition response_to :: "int \<Rightarrow> string \<Rightarrow> operation \<Rightarrow> json option \<Rightarrow> command_response" where
  "response_to deviceId command oper value =
     \<lparr>cr_deviceId = deviceId, cr_command = command, cr_operation = oper, cr_success = True, cr_value = value\<rparr>"

definition run_resolved ::
  "'w bridge_env \<Rightarrow> device_cache \<Rightarrow> command_request \<Rightarrow> resolved \<Rightarrow> (json option, 'w) service" where
  "run_resolved env device request resolved =
     (let command = (''miot.command'', Some (AStr (rq_command request)))
      in case resolved of
           Resolved_Get p \<Rightarrow>
             and_then (withMiotCallSpan (device_call MIOT_METHOD_GET_PROPERTIES device (Some (mp_source p))
                         (iidAttributes (mp_siid p) (mp_piid p) @ [command]))
                       (read_value env device (mp_siid p) (mp_piid p))) (\<lambda>value.
             and_then (doing (observed env device (rq_command request) value)) (\<lambda>_. returning value))
         | Resolved_Set p \<Rightarrow>
             and_then (withMiotCallSpan (device_call MIOT_METHOD_SET_PROPERTIES device (Some (mp_source p))
                         (iidAttributes (mp_siid p) (mp_piid p) @ [command]))
                       (write_value env device (mp_siid p) (mp_piid p) (rq_value request))) (\<lambda>_.
             and_then (doing (observed env device (rq_command request) (rq_value request))) (\<lambda>_. returning None))
         | Resolved_Action a \<Rightarrow>
             and_then (withMiotCallSpan (device_call MIOT_METHOD_ACTION device None
                         (aiidAttributes (ma_siid a) (Some (ma_aiid a)) @ [command]))
                       (call_action env device (ma_siid a) (ma_aiid a) (rq_value request))) (\<lambda>_.
             returning None))"

definition svc_execute :: "'w bridge_env \<Rightarrow> command_request \<Rightarrow> (command_response, 'w) service" where
  "svc_execute env request =
     and_then (in_world (env_getByDeviceId env (rq_deviceId request))) (\<lambda>found.
     and_then (require_found (no_device (rq_deviceId request)) found) (\<lambda>device.
     and_then (getByModel env (dc_model device)) (\<lambda>overrides.
     and_then (lifted (simplified env device overrides)) (\<lambda>spec.
     and_then (resolveOrRecordRejection (env_runtime env) request (dc_deviceId device) spec) (\<lambda>resolved.
     and_then (run_resolved env device request resolved) (\<lambda>value.
     returning (response_to (rq_deviceId request) (rq_command request) (rq_operation request) value)))))))"

definition run_raw :: "'w bridge_env \<Rightarrow> device_cache \<Rightarrow> raw_request \<Rightarrow> (json option, 'w) service" where
  "run_raw env device request =
     (let siid = raw_siid request
      in case (raw_operation request, raw_piid request, raw_aiid request) of
           (GetProperty, Some piid, _) \<Rightarrow>
             withMiotCallSpan (device_call MIOT_METHOD_GET_PROPERTIES device None (iidAttributes siid piid))
               (read_value env device siid piid)
         | (SetProperty, Some piid, _) \<Rightarrow>
             and_then (withMiotCallSpan (device_call MIOT_METHOD_SET_PROPERTIES device None (iidAttributes siid piid))
               (write_value env device siid piid (raw_value request))) (\<lambda>_. returning None)
         | (Action, _, Some aiid) \<Rightarrow>
             and_then (withMiotCallSpan (device_call MIOT_METHOD_ACTION device None (aiidAttributes siid (Some aiid)))
               (call_action env device siid aiid (raw_value request))) (\<lambda>_. returning None)
         | (UnknownOperation oper, _, _) \<Rightarrow>
             with_device device (\<lambda>st. (Inl (BadRequest (''Unsupported operation: '' @ oper @ ''.'')), st))
         | _ \<Rightarrow> throwing (BadRequest ''unreachable: guarded by svc_executeRaw''))"

definition svc_executeRaw :: "'w bridge_env \<Rightarrow> raw_request \<Rightarrow> (command_response, 'w) service" where
  "svc_executeRaw env request =
     and_then (in_world (env_getByDeviceId env (raw_deviceId request))) (\<lambda>found.
     and_then (require_found (no_device (raw_deviceId request)) found) (\<lambda>device.
     and_then (require (\<not> (raw_operation request \<in> {GetProperty, SetProperty} \<and> raw_piid request = None))
       (''piid is required for '' @ operation_text (raw_operation request) @ '' operations.'')) (\<lambda>_.
     and_then (require (\<not> (raw_operation request = Action \<and> raw_aiid request = None))
       ''aiid is required for ACTION operations.'') (\<lambda>_.
     and_then (run_raw env device request) (\<lambda>value.
     returning (response_to (raw_deviceId request)
       (''siid='' @ show_int (raw_siid request) @ '',piid='' @
          (case raw_piid request of Some p \<Rightarrow> show_int p
           | None \<Rightarrow> (case raw_aiid request of Some a \<Rightarrow> show_int a | None \<Rightarrow> ''undefined'')))
       (raw_operation request) value))))))"

subsection \<open>What every operation of the service keeps\<close>

text \<open>
  The contract of an invariant of the bridge: telemetry and the outside world do not enter it, and
  the few steps that change the rest keep it. Then every operation of the service keeps it.
\<close>

definition is_unresolved :: "log_entry \<Rightarrow> bool" where
  "is_unresolved l = (case l of Log_Unresolved _ _ _ \<Rightarrow> True | _ \<Rightarrow> False)"

definition keeps_device ::
  "('w miot_device \<times> 'w \<Rightarrow> (thrown + 'a) \<times> 'w miot_device \<times> 'w) \<Rightarrow> bool" where
  "keeps_device m \<longleftrightarrow> (\<forall>dev w. same_device dev (fst (snd (m (dev, w)))))"

context telemetry_frame
begin

lemma call_failed: "P s \<Longrightarrow> P (on_call_failed call e s)"
  by (auto simp: on_call_failed_def Let_def recordCall_def recordPropertyRejection_def
      intro: attributes metrics_only split: option.splits)

lemma kept_withMiotCallSpan [intro]: "preserves P fn \<Longrightarrow> preserves P (withMiotCallSpan call fn)"
  unfolding withMiotCallSpan_def withClientSpan_def
  by (rule kept_withSpan, subst preserves_def)
    (auto simp: recordCall_def intro!: call_failed metrics_only dest: preservesD split: prod.splits sum.splits)

end

locale service_invariant = telemetry_frame P for P :: "'w bridge \<Rightarrow> bool" +
  assumes world: "P s \<Longrightarrow> P (s\<lparr>br_world := w\<rparr>)"
    and device: "P s \<Longrightarrow> same_device (fst (getOrCreate d (br_registry s))) dev \<Longrightarrow>
      P (s\<lparr>br_registry := AList.update (dc_deviceId d) dev (snd (getOrCreate d (br_registry s)))\<rparr>)"
    and unresolved: "P s \<Longrightarrow> P (log_unresolved i m k s)"
    and logged: "P s \<Longrightarrow> \<not> is_unresolved l \<Longrightarrow> P (log_line l s)"
    and received: "P s \<Longrightarrow> P (receive e s)"
begin

lemma kept_in_world [intro]: "preserves P (in_world m)"
  by (auto simp: preserves_def in_world_def within_def world split: prod.splits)

lemma kept_with_device [intro]: "keeps_device m \<Longrightarrow> preserves P (with_device d m)"
  unfolding preserves_def with_device_def keeps_device_def
  by (auto simp: Let_def split: prod.splits)
    (metis (no_types, lifting) bridge.surjective bridge.update_convs(1,2) device fst_conv snd_conv world)

lemma kept_require [intro]: "preserves P (require ok m)" "preserves P (require_found m v)" "preserves P (lifted x)"
  by (auto simp: require_def require_found_def lifted_def split: option.splits sum.splits)

lemma kept_fold: "(\<And>x s. P s \<Longrightarrow> P (f x s)) \<Longrightarrow> P s \<Longrightarrow> P (fold f xs s)"
  by (induction xs arbitrary: s) auto

lemma kept_report_unresolved: "P s \<Longrightarrow> P (reportUnresolvedProperties i m us s)"
  unfolding reportUnresolvedProperties_def recordPropertyUnresolved_def
  by (auto intro!: kept_fold unresolved metrics_only)

lemma kept_report_rejected: "P s \<Longrightarrow> P (reportRejectedProperties d rs s)"
  unfolding reportRejectedProperties_def report_rejected_def recordPropertyRejection_def Let_def
  by (auto intro!: kept_fold logged metrics_only attributes simp: is_unresolved_def)

end

lemma keeps_device_methods [simp, intro]:
  "keeps_device (dev_getProperties rt net ps)" "keeps_device (dev_getProperty rt net i j)"
  "keeps_device (dev_setProperty rt net i j v)" "keeps_device (dev_callAction rt net i a v)"
  unfolding keeps_device_def dev_getProperties_def dev_getProperty_def dev_setProperty_def dev_callAction_def
  by (metis prod.collapse runWithStamp_same)+

lemma keeps_device_Pair [simp, intro]: "keeps_device (Pair r)"
  by (simp add: keeps_device_def same_device_refl)

context service_invariant
begin

lemmas kept = preserves_and_then preserves_catching preserves_doing kept_withMiotCallSpan kept_with_device
  kept_in_world kept_require kept_report_unresolved kept_report_rejected received

lemma kept_getProperties: "preserves P (svc_getProperties env i keys)"
  unfolding svc_getProperties_def getByModel_def bulk_read_def Let_def
  by (auto intro!: kept)

lemma kept_resolve: "preserves P (resolveOrRecordRejection rt request d spec)"
  unfolding resolveOrRecordRejection_def Let_def recordMiotLocalRejection_def
  by (intro preserves_catching preserves_and_then preserves_doing kept_require)
    (auto intro: metrics_only logged simp: is_unresolved_def)

lemma kept_execute: "preserves P (svc_execute env request)"
  unfolding svc_execute_def getByModel_def run_resolved_def Let_def read_value_def write_value_def call_action_def
  by (auto intro!: kept kept_resolve simp: observed_def split: resolved.splits)

lemma kept_executeRaw: "preserves P (svc_executeRaw env request)"
  unfolding svc_executeRaw_def run_raw_def Let_def read_value_def write_value_def call_action_def
  by (auto intro!: kept split: operation.splits option.splits)

end

text \<open>The operations a transport or the poller asks of the service, in any order.\<close>

datatype 'w service_call =
    Bulk_Read "'w bridge_env" string "string list"
  | Command "'w bridge_env" command_request
  | Raw_Command "'w bridge_env" raw_request

fun after_call :: "'w service_call \<Rightarrow> 'w bridge \<Rightarrow> 'w bridge" where
  "after_call (Bulk_Read env storageId keys) s = snd (svc_getProperties env storageId keys s)"
| "after_call (Command env request) s = snd (svc_execute env request s)"
| "after_call (Raw_Command env request) s = snd (svc_executeRaw env request s)"

context service_invariant
begin

lemma kept_call: "P s \<Longrightarrow> P (after_call c s)"
  using kept_getProperties kept_execute kept_executeRaw by (cases c) (auto simp: preserves_def)

lemma kept_calls: "P s \<Longrightarrow> P (fold after_call cs s)"
  by (rule kept_fold [OF kept_call])

end

subsection \<open>The pool of instances\<close>

interpretation pool: memo_factory "\<lambda>k r. (case getOrCreate (d\<lparr>dc_deviceId := k\<rparr>) r of (i, r') \<Rightarrow> (Inr i, r'))" map_of
  for d :: device_cache
  by unfold_locales (auto simp: getOrCreate_def Let_def update_conv' split: option.splits)

definition pinned :: "int \<Rightarrow> miot_transport \<Rightarrow> 'w bridge \<Rightarrow> bool" where
  "pinned deviceId tr s \<longleftrightarrow> (\<exists>dev. map_of (br_registry s) deviceId = Some dev \<and> dev_transport dev = tr)"

lemma log_unresolved_registry [simp]: "br_registry (log_unresolved i m k s) = br_registry s"
  by (simp add: log_unresolved_def log_line_def Let_def)

interpretation pinned: service_invariant "pinned deviceId tr" for deviceId tr
proof unfold_locales
  fix s :: "'a bridge" and d dev
  assume p: "pinned deviceId tr s" and same: "same_device (fst (getOrCreate d (br_registry s))) dev"
  from p obtain dev0 where dev0: "map_of (br_registry s) deviceId = Some dev0" "dev_transport dev0 = tr"
    by (auto simp: pinned_def)
  show "pinned deviceId tr (s\<lparr>br_registry := AList.update (dc_deviceId d) dev (snd (getOrCreate d (br_registry s)))\<rparr>)"
  proof (cases "dc_deviceId d = deviceId")
    case True
    with dev0 same_device_fields [OF same] show ?thesis
      by (auto simp: pinned_def getOrCreate_def update_conv')
  next
    case False
    with dev0 show ?thesis
      by (auto simp: pinned_def getOrCreate_def update_conv' Let_def split: option.splits)
  qed
qed (auto simp: pinned_def log_line_def receive_def)

text \<open>
  The pool does not follow the stored record: once an instance exists for a device id,
  every later command, raw command or bulk read is sent through the address and token the instance
  was built with, whatever address and token the storage now returns for that id.
\<close>

theorem instance_outlives_record:
  assumes "map_of (br_registry s) deviceId = Some dev"
  shows "\<exists>dev'. map_of (br_registry (fold after_call calls s)) deviceId = Some dev'
    \<and> dev_transport dev' = dev_transport dev
    \<and> (\<forall>record. dc_deviceId record = deviceId \<longrightarrow> fst (getOrCreate record (br_registry (fold after_call calls s))) = dev')"
proof -
  have "pinned deviceId (dev_transport dev) s" using assms by (simp add: pinned_def)
  from pinned.kept_calls [OF this, of calls] show ?thesis by (auto simp: pinned_def getOrCreate_def)
qed

subsection \<open>An unresolved key is logged once\<close>

fun seen_key :: "log_entry \<Rightarrow> string" where
  "seen_key (Log_Unresolved i k m) = i @ '':'' @ k"
| "seen_key _ = []"

definition logged_once :: "'w bridge \<Rightarrow> bool" where
  "logged_once s \<longleftrightarrow> br_unresolvedLogged s = map seen_key (filter is_unresolved (br_log s))
     \<and> distinct (br_unresolvedLogged s)"

interpretation dedupe: service_invariant logged_once
  by unfold_locales
    (auto simp: logged_once_def log_unresolved_def log_line_def receive_def Let_def is_unresolved_def)

text \<open>
  However many bulk reads and commands run, no key of a device is reported as
  unresolved in the log twice.
\<close>

theorem unresolved_logged_once:
  assumes "br_log s = []" and "br_unresolvedLogged s = []"
  shows "distinct (map seen_key (filter is_unresolved (br_log (fold after_call calls s))))"
proof -
  have "logged_once s" using assms by (simp add: logged_once_def)
  from dedupe.kept_calls [OF this, of calls] show ?thesis unfolding logged_once_def by metis
qed

subsection \<open>What a call measures\<close>

text \<open>
  Every device call is measured once under its method: a call that returns counts as a
  success, a call that fails counts under the class of its failure, \<^verbatim>\<open>_OTHER\<close> for an error the
  transport did not classify. A refusal counter moves for a failed call of a single property that
  the device refused, and for no other; the outcome of the call is passed on as it was.
\<close>

theorem call_measured:
  assumes "withMiotCallSpan call fn s = (r, s')"
  shows "\<exists>s0 s1. fn s0 = (r, s1) \<and> te_metrics s0 = te_metrics s
    \<and> te_metrics s' = te_metrics s1 @
      (case r of
         Inr _ \<Rightarrow> [MiotCall (mc_method call) None]
       | Inl e \<Rightarrow> MiotCall (mc_method call) (Some (case error_kind e of None \<Rightarrow> ''_OTHER'' | Some k \<Rightarrow> error_kind_text k))
           # (case (mc_propertySource call, error_kind e) of
                (Some source, Some MIOT_ERROR_DEVICE_ERROR) \<Rightarrow>
                  [PropertyRejection (mc_method call) source (map_option show_js (error_code e))]
              | _ \<Rightarrow> []))"
proof -
  obtain r1 s1 where fn: "fn (start_span (call_span call\<lparr>so_kind := Some ''CLIENT''\<rparr>) s) = (r1, s1)"
    by (meson surj_pair)
  have kind: "is_miot_error e" if "error_kind e = Some k" for e k using that by (cases e) auto
  from fn assms have r: "r1 = r"
    by (auto simp: withMiotCallSpan_def withClientSpan_def withSpan_def split: sum.splits)
  show ?thesis
  proof (intro exI conjI)
    show "fn (start_span (call_span call\<lparr>so_kind := Some ''CLIENT''\<rparr>) s) = (r, s1)" using fn r by simp
    show "te_metrics (start_span (call_span call\<lparr>so_kind := Some ''CLIENT''\<rparr>) s) = te_metrics s" by simp
    show "te_metrics s' = te_metrics s1 @
      (case r of
         Inr _ \<Rightarrow> [MiotCall (mc_method call) None]
       | Inl e \<Rightarrow> MiotCall (mc_method call) (Some (case error_kind e of None \<Rightarrow> ''_OTHER'' | Some k \<Rightarrow> error_kind_text k))
           # (case (mc_propertySource call, error_kind e) of
                (Some source, Some MIOT_ERROR_DEVICE_ERROR) \<Rightarrow>
                  [PropertyRejection (mc_method call) source (map_option show_js (error_code e))]
              | _ \<Rightarrow> []))"
    proof (cases r)
      case (Inr a)
      with fn r assms show ?thesis
        by (auto simp: withMiotCallSpan_def withClientSpan_def withSpan_def recordCall_def)
    next
      case (Inl e)
      with fn r assms have s': "s' = end_span (recordSpanError e (on_call_failed call e s1))"
        by (simp add: withMiotCallSpan_def withClientSpan_def withSpan_def)
      show ?thesis unfolding s' Inl
        by (cases "mc_propertySource call"; cases "error_kind e")
          (auto simp: on_call_failed_def recordSpanError_def recordCall_def recordPropertyRejection_def Let_def
            miotErrorType_def miotStatusCode_def ERROR_TYPE_VALUE_OTHER_def kind split: miot_error_kind.splits)
    qed
  qed
qed

subsection \<open>A command is validated before a device is addressed\<close>

text \<open>What the specification must allow for a resolved command.\<close>

fun permitted :: "simplified_spec \<Rightarrow> command_request \<Rightarrow> resolved \<Rightarrow> bool" where
  "permitted spec request (Resolved_Get p) \<longleftrightarrow> rq_operation request = GetProperty
     \<and> map_of (simp_properties spec) (rq_command request) = Some p
     \<and> (''READ'' \<in> set (mp_access p) \<or> ''NOTIFY'' \<in> set (mp_access p))"
| "permitted spec request (Resolved_Set p) \<longleftrightarrow> rq_operation request = SetProperty
     \<and> map_of (simp_properties spec) (rq_command request) = Some p
     \<and> ''WRITE'' \<in> set (mp_access p)
     \<and> (\<exists>v \<in> set (mp_values p). rq_value request = Some (JNum (sv_value v)))"
| "permitted spec request (Resolved_Action a) \<longleftrightarrow> rq_operation request = Action
     \<and> map_of (simp_actions spec) (rq_command request) = Some a"

lemma resolveCommand_iff:
  "resolveCommand rt request d spec = Inr resolved \<longleftrightarrow> permitted spec request resolved"
  by (cases resolved; cases "rq_operation request")
    (auto simp: resolveCommand_def Let_def validatePropertyValue_def split: option.splits if_splits)

lemma within_world_simps [simp]:
  "in_world m s = (case m (br_world s) of (r, w) \<Rightarrow> (r, s\<lparr>br_world := w\<rparr>))"
  by (simp add: in_world_def within_def)

lemma in_world_Inr: "in_world m s = (Inr a, s') \<longleftrightarrow> (\<exists>w. m (br_world s) = (Inr a, w) \<and> s' = s\<lparr>br_world := w\<rparr>)"
  by (auto split: prod.splits)

lemma step_Inr:
  "require_found m v s = (Inr b, s') \<longleftrightarrow> v = Some b \<and> s' = s"
  "lifted r s = (Inr b, s') \<longleftrightarrow> r = Inr b \<and> s' = s"
  "returning c s = (Inr b, s') \<longleftrightarrow> b = c \<and> s' = s"
  "doing f s = (Inr u, s') \<longleftrightarrow> s' = f s"
  "throwing e s \<noteq> (Inr b, s')"
  by (auto simp: require_found_def lifted_def split: option.splits sum.splits)

lemmas chain_Inr = and_then_Inr in_world_Inr step_Inr

lemma lifted_simps [simp]: "lifted (Inr a) = returning a" "lifted (Inl e) = throwing e"
  "require_found m (Some a) = returning a" "require_found m None = throwing (NotFound m)"
  "require True m = returning ()" "require False m = throwing (BadRequest m)"
  by (simp_all add: lifted_def require_found_def require_def fun_eq_iff)

text \<open>
  Property C1. A command the specification does not permit, an unknown key, a missing access mode, a
  value outside the allowed list or an unknown operation, is refused before the device is
  addressed: the error is the validation's, no instance is created or used, no span is opened and
  no observation is passed on; one measurement \<^verbatim>\<open>rejected_locally\<close> under the method the command
  would have used and one log line are all it leaves.
\<close>

theorem refused_before_sending:
  assumes "env_getByDeviceId env (rq_deviceId request) (br_world s) = (Inr (Some device), w1)"
    and "env_getByModel env (dc_model device) w1 = (Inr overrides, w2)"
    and "simplified env device overrides = Inr spec"
    and "\<And>resolved. \<not> permitted spec request resolved"
  shows "\<exists>e. resolveCommand (env_runtime env) request (dc_deviceId device) spec = Inl e
    \<and> svc_execute env request s = (Inl e, s\<lparr>br_world := w2,
        te_metrics := te_metrics s @ [MiotCall (miotMethodOf (rq_operation request)) (Some ''rejected_locally'')],
        br_log := br_log s @ [Log_Rejected_Command (dc_deviceId device) (rq_command request)
          (operation_text (rq_operation request)) (miotMethodOf (rq_operation request)) (error_text e)]\<rparr>)"
proof -
  obtain e where e: "resolveCommand (env_runtime env) request (dc_deviceId device) spec = Inl e"
    using assms(4) resolveCommand_iff by (metis obj_sumE)
  have "resolveOrRecordRejection (env_runtime env) request (dc_deviceId device) spec (s\<lparr>br_world := w2\<rparr>)
    = (Inl e, s\<lparr>br_world := w2,
        te_metrics := te_metrics s @ [MiotCall (miotMethodOf (rq_operation request)) (Some ''rejected_locally'')],
        br_log := br_log s @ [Log_Rejected_Command (dc_deviceId device) (rq_command request)
          (operation_text (rq_operation request)) (miotMethodOf (rq_operation request)) (error_text e)]\<rparr>)"
    by (simp add: resolveOrRecordRejection_def e Let_def recordMiotLocalRejection_def count_metric_def
        log_line_def MIOT_ERROR_TYPE_VALUE_REJECTED_LOCALLY_def catching_def and_then_def)
  with e assms(1-3) show ?thesis by (simp add: svc_execute_def getByModel_def and_then_def)
qed

text \<open>
  Property C2. A command that succeeds was permitted by the specification merged from the stored
  document and the overrides of the model: a read needs read or notify access, a write needs write
  access and one of the listed values, an action is one of the document; and the response reports
  success with the device, the command and the operation of the request, and carries a value only
  for a read.
\<close>

theorem executed_was_permitted:
  assumes "svc_execute env request s = (Inr response, s')"
  shows "\<exists>device w1 overrides w2 spec resolved.
    env_getByDeviceId env (rq_deviceId request) (br_world s) = (Inr (Some device), w1)
    \<and> env_getByModel env (dc_model device) w1 = (Inr overrides, w2)
    \<and> simplified env device overrides = Inr spec \<and> permitted spec request resolved
    \<and> cr_deviceId response = rq_deviceId request \<and> cr_command response = rq_command request
    \<and> cr_operation response = rq_operation request \<and> cr_success response
    \<and> (rq_operation request \<noteq> GetProperty \<longrightarrow> cr_value response = None)"
proof -
  have resolve: "permitted spec request resolved"
    if "resolveOrRecordRejection rt request d spec t = (Inr resolved, t')" for rt d spec t resolved t'
    using that resolveCommand_iff [of rt request d spec resolved]
    by (cases "resolveCommand rt request d spec")
      (auto simp: resolveOrRecordRejection_def catching_def and_then_def Let_def)
  have none: "v = None"
    if "run_resolved env device request resolved t = (Inr v, t')" "permitted spec request resolved"
      "rq_operation request \<noteq> GetProperty" for device resolved t v t' spec
    using that by (cases resolved) (auto simp: run_resolved_def Let_def and_then_Inr)
  from assms obtain device w1 overrides w2 spec resolved t1 v where
    lookup: "env_getByDeviceId env (rq_deviceId request) (br_world s) = (Inr (Some device), w1)"
    and ovs: "env_getByModel env (dc_model device) w1 = (Inr overrides, w2)"
    and spec: "simplified env device overrides = Inr spec"
    and res: "resolveOrRecordRejection (env_runtime env) request (dc_deviceId device) spec
        (s\<lparr>br_world := w1\<rparr>\<lparr>br_world := w2\<rparr>) = (Inr resolved, t1)"
    and run: "run_resolved env device request resolved t1 = (Inr v, s')"
    and response: "response = response_to (rq_deviceId request) (rq_command request) (rq_operation request) v"
    unfolding svc_execute_def getByModel_def chain_Inr by fastforce
  show ?thesis using lookup ovs spec resolve [OF res] none [OF run resolve [OF res]]
    by (auto simp: response response_to_def)
qed

subsection \<open>A bulk read accounts for every key\<close>

lemma log_unresolved_metrics [simp]: "te_metrics (log_unresolved i m k s) = te_metrics s"
  by (simp add: log_unresolved_def log_line_def Let_def)

lemma report_unresolved_metrics [simp]:
  "te_metrics (reportUnresolvedProperties i m us s)
     = te_metrics s @ (if us = [] then [] else [PropertyUnresolved MIOT_METHOD_GET_PROPERTIES (length us)])"
proof -
  have "te_metrics (fold (log_unresolved i m) us t) = te_metrics t" for t :: "'a bridge"
    by (induction us arbitrary: t) simp_all
  then show ?thesis by (simp add: reportUnresolvedProperties_def recordPropertyUnresolved_def)
qed

definition rejection :: "keyed_result \<Rightarrow> metric" where
  "rejection r = PropertyRejection MIOT_METHOD_GET_PROPERTIES (kr_source r) (Some (rejection_status r))"

lemma report_rejected_metrics [simp]:
  "te_metrics (reportRejectedProperties d rs s) = te_metrics s @ map rejection (filter (\<lambda>r. kr_code r \<noteq> JNum 0) rs)"
proof -
  have "te_metrics (fold (report_rejected d) xs t) = te_metrics t @ map rejection xs" for xs and t :: "'a bridge"
    by (induction xs arbitrary: t)
      (simp_all add: report_rejected_def recordPropertyRejection_def log_line_def rejection_def count_metric_def)
  then show ?thesis by (simp add: reportRejectedProperties_def Let_def)
qed

lemma with_device_metrics: "with_device device m s = (r, s') \<Longrightarrow> te_metrics s' = te_metrics s"
  by (auto simp: with_device_def Let_def split: prod.splits)

lemma bulk_read_Inr:
  assumes "bulk_read env device props s = (Inr results, s')"
  shows "\<exists>raw. results = map (keyed_result_of raw) props"
    and "te_metrics s' = te_metrics s @ map rejection (filter (\<lambda>r. kr_code r \<noteq> JNum 0) results)"
  using assms unfolding bulk_read_def Let_def chain_Inr by (auto dest: with_device_metrics)

lemma keyed_result_simps [simp]:
  "kr_key (keyed_result_of raw kp) = fst kp" "kr_siid (keyed_result_of raw kp) = mp_siid (snd kp)"
  "kr_piid (keyed_result_of raw kp) = mp_piid (snd kp)" "kr_source (keyed_result_of raw kp) = mp_source (snd kp)"
  by (simp_all add: keyed_result_of_def Let_def split: prod.splits)

lemma resolved_keys_simps:
  "map fst (resolved_keys spec keys) = filter (\<lambda>k. map_of (simp_properties spec) k \<noteq> None) keys"
  "kp \<in> set (resolved_keys spec keys) \<Longrightarrow> map_of (simp_properties spec) (fst kp) = Some (snd kp)"
  unfolding resolved_keys_def
  by (induction keys) (auto simp: List.map_filter_simps split: option.splits)

lemma getProperties_chain:
  assumes "svc_getProperties env storageId keys s = (Inr (d, results), s')"
  obtains device w1 overrides w2 spec as where
    "env_getById env storageId (br_world s) = (Inr (Some device), w1)" "d = dc_deviceId device"
    "env_getByModel env (dc_model device) w1 = (Inr overrides, w2)" "simplified env device overrides = Inr spec"
    "if resolved_keys spec keys = [] then results = []
        \<and> s' = reportUnresolvedProperties storageId (dc_model device) (unresolved_keys spec keys) (s\<lparr>br_world := w2\<rparr>)
     else withMiotCallSpan (device_call MIOT_METHOD_GET_PROPERTIES device None as)
         (bulk_read env device (resolved_keys spec keys))
         (reportUnresolvedProperties storageId (dc_model device) (unresolved_keys spec keys) (s\<lparr>br_world := w2\<rparr>)) = (Inr results, s')"
proof -
  from assms obtain device w1 overrides w2 spec where
    found: "env_getById env storageId (br_world s) = (Inr (Some device), w1)"
      "env_getByModel env (dc_model device) w1 = (Inr overrides, w2)" "simplified env device overrides = Inr spec"
    and rest: "(if resolved_keys spec keys = [] then returning (dc_deviceId device, [])
      else and_then (withMiotCallSpan
             (device_call MIOT_METHOD_GET_PROPERTIES device None
                [(''miot.property.count'', Some (ANum (int (length (resolved_keys spec keys))))),
                 (''miot.property.unresolved'',
                    if unresolved_keys spec keys = [] then None else Some (AStrs (unresolved_keys spec keys))),
                 (''miot.property.unresolved.count'',
                    if unresolved_keys spec keys = [] then None
                    else Some (ANum (int (length (unresolved_keys spec keys)))))])
             (bulk_read env device (resolved_keys spec keys))) (\<lambda>results. returning (dc_deviceId device, results)))
      (reportUnresolvedProperties storageId (dc_model device) (unresolved_keys spec keys)
         (s\<lparr>br_world := w2\<rparr>)) = (Inr (d, results), s')"
    unfolding svc_getProperties_def getByModel_def Let_def chain_Inr by fastforce
  show thesis
    by (cases "resolved_keys spec keys = []")
      (use rest in \<open>auto simp: chain_Inr intro: that [OF found(1) _ found(2,3)]\<close>)
qed

lemma measured_bulk_read:
  assumes "withMiotCallSpan (device_call MIOT_METHOD_GET_PROPERTIES device None as) (bulk_read env device props) t = (Inr results, s')"
  shows "\<exists>raw. results = map (keyed_result_of raw) props"
    and "te_metrics s' = te_metrics t @ map rejection (filter (\<lambda>r. kr_code r \<noteq> JNum 0) results) @ [MiotCall MIOT_METHOD_GET_PROPERTIES None]"
proof -
  have m: "mc_method (device_call MIOT_METHOD_GET_PROPERTIES device None as) = MIOT_METHOD_GET_PROPERTIES"
    by (simp add: device_call_def)
  from call_measured [OF assms] obtain s0 s1 where body: "bulk_read env device props s0 = (Inr results, s1)"
    and counts: "te_metrics s0 = te_metrics t" "te_metrics s' = te_metrics s1 @ [MiotCall MIOT_METHOD_GET_PROPERTIES None]"
    using m by auto
  show "\<exists>raw. results = map (keyed_result_of raw) props" by (rule bulk_read_Inr(1) [OF body])
  show "te_metrics s' = te_metrics t @ map rejection (filter (\<lambda>r. kr_code r \<noteq> JNum 0) results) @ [MiotCall MIOT_METHOD_GET_PROPERTIES None]"
    by (simp add: counts bulk_read_Inr(2) [OF body])
qed

text \<open>
  Property C3. A bulk read that succeeds answers exactly the keys the merged specification resolves,
  in the order asked, each with the coordinates and the provenance of its entry, even when the
  device left it out of its answer. The measurements tell the rest: one count of the keys that do
  not resolve, one refusal with its provenance for every answer whose code is not zero, a missing
  one included, and one successful call, or no call at all when nothing resolved.
\<close>

theorem bulk_read_accounts:
  assumes "svc_getProperties env storageId keys s = (Inr (d, results), s')"
  shows "\<exists>device w1 overrides w2 spec.
    env_getById env storageId (br_world s) = (Inr (Some device), w1) \<and> d = dc_deviceId device
    \<and> env_getByModel env (dc_model device) w1 = (Inr overrides, w2)
    \<and> simplified env device overrides = Inr spec
    \<and> map kr_key results = filter (\<lambda>k. map_of (simp_properties spec) k \<noteq> None) keys
    \<and> (\<forall>r \<in> set results. \<exists>p. map_of (simp_properties spec) (kr_key r) = Some p \<and> kr_siid r = mp_siid p
        \<and> kr_piid r = mp_piid p \<and> kr_source r = mp_source p)
    \<and> te_metrics s' = te_metrics s
        @ (if unresolved_keys spec keys = [] then []
           else [PropertyUnresolved MIOT_METHOD_GET_PROPERTIES (length (unresolved_keys spec keys))])
        @ (if results = [] then []
           else map rejection (filter (\<lambda>r. kr_code r \<noteq> JNum 0) results) @ [MiotCall MIOT_METHOD_GET_PROPERTIES None])"
proof -
  from getProperties_chain [OF assms] obtain device w1 overrides w2 spec as where
    found: "env_getById env storageId (br_world s) = (Inr (Some device), w1)" "d = dc_deviceId device"
      "env_getByModel env (dc_model device) w1 = (Inr overrides, w2)" "simplified env device overrides = Inr spec"
    and run: "if resolved_keys spec keys = [] then results = []
        \<and> s' = reportUnresolvedProperties storageId (dc_model device) (unresolved_keys spec keys) (s\<lparr>br_world := w2\<rparr>)
     else withMiotCallSpan (device_call MIOT_METHOD_GET_PROPERTIES device None as)
         (bulk_read env device (resolved_keys spec keys))
         (reportUnresolvedProperties storageId (dc_model device) (unresolved_keys spec keys) (s\<lparr>br_world := w2\<rparr>)) = (Inr results, s')" .
  show ?thesis
  proof (cases "resolved_keys spec keys = []")
    case True
    with run found resolved_keys_simps(1) [of spec keys] show ?thesis by (auto simp: filter_empty_conv)
  next
    case False
    note measured = measured_bulk_read [OF run [unfolded if_not_P [OF False]]]
    from measured(1) obtain raw where results: "results = map (keyed_result_of raw) (resolved_keys spec keys)" ..
    have keys: "map kr_key results = map fst (resolved_keys spec keys)" by (simp add: results)
    have entries: "\<forall>r \<in> set results. \<exists>p. map_of (simp_properties spec) (kr_key r) = Some p \<and> kr_siid r = mp_siid p
        \<and> kr_piid r = mp_piid p \<and> kr_source r = mp_source p"
      by (auto simp: results dest: resolved_keys_simps(2))
    show ?thesis
      using found keys entries measured(2) resolved_keys_simps(1) [of spec keys] False results by auto
  qed
qed

subsection \<open>A sample bridge\<close>

definition sample_cache :: device_cache where
  "sample_cache = \<lparr>dc_id = ''d'', dc_createdAt = 0, dc_updatedAt = 0, dc_deviceId = 1, dc_address = ''10.0.0.9'',
     dc_token = concat (replicate 16 ''07''), dc_stamp = Some 1, dc_model = ''m'', dc_specURL = '''',
     dc_stampUpdatedAt = Some 0, dc_rawSpec = sample_spec\<rparr>"

definition sample_env :: "json \<Rightarrow> (byte list list) bridge_env" where
  "sample_env reply = \<lparr>env_runtime = replying reply,
     env_network = recorder (\<lambda>_ _. [Send_Done None, Message_Received sample_response]) 5000,
     env_mapEnum = sample_mapEnum, env_property_order = (\<lambda>_. [0, 1]), env_action_order = (\<lambda>_. [0]),
     env_getById = (\<lambda>i. returning (if i = ''d'' then Some sample_cache else None)),
     env_getByDeviceId = (\<lambda>i. returning (if i = 1 then Some sample_cache else None)),
     env_getByModel = (\<lambda>m. returning [])\<rparr>"

definition sample_bridge :: "(byte list list) bridge" where
  "sample_bridge = \<lparr>te_open = [], te_ended = [], te_metrics = [], br_world = [], br_registry = [(1, sample_device)],
     br_unresolvedLogged = [], br_log = [], br_received = []\<rparr>"

lemma sample_env_simps [simp]:
  "env_runtime (sample_env reply) = replying reply"
  "env_network (sample_env reply) = recorder (\<lambda>_ _. [Send_Done None, Message_Received sample_response]) 5000"
  "env_getById (sample_env reply) ''d'' w = (Inr (Some sample_cache), w)"
  "env_getByDeviceId (sample_env reply) 1 w = (Inr (Some sample_cache), w)"
  "env_getByModel (sample_env reply) m w = (Inr [], w)"
  "dc_deviceId sample_cache = 1" "dc_model sample_cache = ''m''"
  by (auto simp: sample_env_def sample_cache_def)

lemma replying_sendCommand:
  assumes "u32_ok d" and "u32_ok stamp" and "reply \<noteq> JNull" and "is_nil (js_get ''error'' reply)"
    and token: "tr_token tr = BufferToken (replicate 16 7)"
  shows "\<exists>w'. sendCommand (replying reply) (recorder (\<lambda>_ _. [Send_Done None, Message_Received sample_response]) 5000)
      tr d stamp m params w = (Inr reply, w')"
proof -
  obtain raw where raw: "command_raw (replying reply) 5000 (BufferToken (replicate 16 7)) d stamp
      [(''method'', JStr (miot_method_text m)), (''params'', params)] = Inr raw"
    using sample_command_raw [of d stamp 5000 "[(''method'', JStr (miot_method_text m)), (''params'', params)]"] assms(1,2)
    by (auto simp: replying_command_raw sample_runtime_def)
  obtain p where p: "IncomingPacket (replying reply) sample_response (BufferToken (replicate 16 7)) = Inr p"
    "incoming_json (replying reply) p = Inr (Some reply)"
    by (rule replying_incoming)
  with token assms(3,4) have "read_response (replying reply) tr m sample_response = Inr reply"
    by (auto simp: read_response_def is_nil_def split: option.splits)
  with raw token show ?thesis by (simp add: sendCommand_def await_exchange_find)
qed

lemma withMiotCallSpan_Inr:
  "fn (start_span (call_span call\<lparr>so_kind := Some ''CLIENT''\<rparr>) s) = (Inr a, s1)
     \<Longrightarrow> withMiotCallSpan call fn s = (Inr a, end_span (recordCall (mc_method call) None s1))"
  by (simp add: withMiotCallSpan_def withClientSpan_def withSpan_def)

lemma sample_call:
  assumes "fn 42 1 w = (Inr (a, f), w')"
  shows "runWithStamp rt net m fn (sample_device, w) = (Inr a, sample_device\<lparr>dev_stampState :=
      Some \<lparr>st_stamp = (case f of None \<Rightarrow> 42 | Some x \<Rightarrow> x), st_updatedAt = net_now net w'\<rparr>\<rparr>, w')"
  using assms by (simp add: runWithStamp_no_store attempt_no_store)

lemma sample_spec_simplified:
  "\<exists>spec. simplified (sample_env reply) sample_cache [] = Inr spec
    \<and> map_of (simp_properties spec) ''vacuum:status'' = Some (published_property sample_mapEnum
        (hd (spec_services sample_spec)) (properties_of (hd (spec_services sample_spec)) ! 0))
    \<and> map_of (simp_properties spec) ''vacuum:x'' = None"
proof -
  have "case action_entries sample_spec of Inr _ \<Rightarrow> True | _ \<Rightarrow> False" by code_simp
  then obtain as where as: "action_entries sample_spec = Inr as" by (auto split: sum.splits)
  have "mset [0, 1] = mset [0..<length (property_entries sample_mapEnum sample_spec)]"
    by (simp add: sample_property_entries upt_rec)
  from map_of_set_in_order [OF this] as show ?thesis
    by (simp add: simplified_def simplify_spec_def sample_env_def sample_cache_def sample_property_entries)
qed

lemma sample_status [simp]:
  "mp_siid (published_property me (hd (spec_services sample_spec)) (properties_of (hd (spec_services sample_spec)) ! 0)) = 2"
  "mp_piid (published_property me (hd (spec_services sample_spec)) (properties_of (hd (spec_services sample_spec)) ! 0)) = 1"
  by (simp_all add: published_property_def sample_spec_def properties_of_def)

definition refused_reply :: json where
  "refused_reply = JObj [(''result'', JArr [JObj [(''siid'', JNum 2), (''piid'', JNum 1), (''code'', JNum (-4004))]])]"

lemma refused_entries: "response_entries refused_reply = Inr [\<lparr>pr_siid = Some (JNum 2), pr_piid = Some (JNum 1),
    pr_value = None, pr_code = Some (JNum (-4004))\<rparr>]"
  by (simp add: response_entries_def refused_reply_def js_get_def result_entry_def)

lemma sample_bulk_read:
  "\<exists>s' r. svc_getProperties (sample_env refused_reply) ''d'' [''vacuum:status'', ''vacuum:x''] sample_bridge = (Inr (1, [r]), s')
     \<and> kr_code r = JNum (-4004)"
proof -
  let ?env = "sample_env refused_reply"
  obtain spec where spec: "simplified ?env sample_cache [] = Inr spec"
    and st: "map_of (simp_properties spec) ''vacuum:status'' = Some (published_property sample_mapEnum
        (hd (spec_services sample_spec)) (properties_of (hd (spec_services sample_spec)) ! 0))"
    and x: "map_of (simp_properties spec) ''vacuum:x'' = None"
    using sample_spec_simplified by blast
  have read: "\<exists>dev' w'. dev_getProperties (replying refused_reply) (env_network ?env) [(2, 1)] (sample_device, w)
      = (Inr [\<lparr>pr_siid = Some (JNum 2), pr_piid = Some (JNum 1), pr_value = None, pr_code = Some (JNum (-4004))\<rparr>], dev', w')" for w
  proof -
    obtain w' where "sendCommand (replying refused_reply) (env_network ?env) sample_transport 1 42
        MIOT_METHOD_GET_PROPERTIES (JArr [JObj (did_params 1 2 1)]) w = (Inr refused_reply, w')"
      using replying_sendCommand [of 1 42 refused_reply sample_transport]
      by (fastforce simp: u32_ok_def refused_reply_def js_get_def)
    then show ?thesis unfolding dev_getProperties_def
      by (subst sample_call [where a = "[\<lparr>pr_siid = Some (JNum 2), pr_piid = Some (JNum 1), pr_value = None,
            pr_code = Some (JNum (-4004))\<rparr>]" and f = "Some 42" and w' = w'])
        (auto simp: getProperties_def refused_entries)
  qed
  let ?p = "published_property sample_mapEnum (hd (spec_services sample_spec)) (properties_of (hd (spec_services sample_spec)) ! 0)"
  have keys: "resolved_keys spec [''vacuum:status'', ''vacuum:x''] = [(''vacuum:status'', ?p)]"
    using st x by (simp add: resolved_keys_def List.map_filter_simps)
  have bulk: "\<exists>r s'. bulk_read ?env sample_cache [(''vacuum:status'', ?p)] t = (Inr [r], s') \<and> kr_code r = JNum (-4004)"
    if registry: "br_registry t = [(1, sample_device)]" for t
  proof -
    obtain dev' w' where "dev_getProperties (replying refused_reply) (env_network ?env) [(2, 1)] (sample_device, br_world t)
      = (Inr [\<lparr>pr_siid = Some (JNum 2), pr_piid = Some (JNum 1), pr_value = None, pr_code = Some (JNum (-4004))\<rparr>], dev', w')"
      using read by blast
    with registry show ?thesis
      by (auto simp: bulk_read_def with_device_def getOrCreate_def and_then_def keyed_result_of_def Let_def)
  qed
  let ?t = "reportUnresolvedProperties ''d'' ''m'' (unresolved_keys spec [''vacuum:status'', ''vacuum:x'']) sample_bridge"
  have registry: "br_registry ?t = [(1, sample_device)]"
  proof -
    have "br_registry (fold (log_unresolved i m) us t) = br_registry t" for i m us and t :: "byte list list bridge"
      by (induction us arbitrary: t) auto
    then show ?thesis
      by (simp add: reportUnresolvedProperties_def recordPropertyUnresolved_def count_metric_def sample_bridge_def)
  qed
  have sample: "\<exists>r s'. withMiotCallSpan call (bulk_read ?env sample_cache [(''vacuum:status'', ?p)]) ?t = (Inr [r], s')
      \<and> kr_code r = JNum (-4004)" for call
  proof -
    have "br_registry (start_span opts ?t) = [(1, sample_device)]" for opts
      using registry by (simp add: start_span_def)
    from bulk [OF this] obtain r s1 where
      body: "bulk_read ?env sample_cache [(''vacuum:status'', ?p)] (start_span (call_span call\<lparr>so_kind := Some ''CLIENT''\<rparr>) ?t)
         = (Inr [r], s1)" and code: "kr_code r = JNum (-4004)"
      by blast
    note withMiotCallSpan_Inr [where fn = "bulk_read ?env sample_cache [(''vacuum:status'', ?p)]" and call = call
        and s = ?t and a = "[r]" and ?s1.0 = s1, OF body]
    with code show ?thesis by (intro exI conjI)
  qed
  have lookup: "in_world (env_getById ?env ''d'') sample_bridge = (Inr (Some sample_cache), sample_bridge)"
    and ovs: "in_world (env_getByModel ?env ''m'') sample_bridge = (Inr [], sample_bridge)" by simp_all
  define call where "call = device_call MIOT_METHOD_GET_PROPERTIES sample_cache None
    [(''miot.property.count'', Some (ANum 1)),
     (''miot.property.unresolved'', if unresolved_keys spec [''vacuum:status'', ''vacuum:x''] = [] then None
        else Some (AStrs (unresolved_keys spec [''vacuum:status'', ''vacuum:x'']))),
     (''miot.property.unresolved.count'', if unresolved_keys spec [''vacuum:status'', ''vacuum:x''] = [] then None
        else Some (ANum (int (length (unresolved_keys spec [''vacuum:status'', ''vacuum:x''])))))]"
  have "svc_getProperties ?env ''d'' [''vacuum:status'', ''vacuum:x''] sample_bridge
      = and_then (withMiotCallSpan call (bulk_read ?env sample_cache [(''vacuum:status'', ?p)]))
          (\<lambda>results. returning (1, results)) ?t"
    by (simp only: svc_getProperties_def getByModel_def call_def Let_def and_then_def lookup lifted_simps
        effect_simps(1-3) prod.case sum.case sample_env_simps ovs spec keys list.size list.distinct if_False)
      simp
  with sample [of call] show ?thesis by auto
qed

lemma bulk_read_accounts_witness:
  "\<exists>s' r. svc_getProperties (sample_env refused_reply) ''d'' [''vacuum:status'', ''vacuum:x''] sample_bridge = (Inr (1, [r]), s')
     \<and> rejection r \<in> set (te_metrics s') \<and> kr_key r \<in> {''vacuum:status'', ''vacuum:x''}"
proof -
  obtain s' r where run: "svc_getProperties (sample_env refused_reply) ''d'' [''vacuum:status'', ''vacuum:x''] sample_bridge
      = (Inr (1, [r]), s')" and code: "kr_code r = JNum (-4004)"
    using sample_bulk_read by blast
  obtain spec where keys: "map kr_key [r] = filter (\<lambda>k. map_of (simp_properties spec) k \<noteq> None) [''vacuum:status'', ''vacuum:x'']"
    and m: "te_metrics s' = te_metrics sample_bridge
      @ (if unresolved_keys spec [''vacuum:status'', ''vacuum:x''] = [] then []
         else [PropertyUnresolved MIOT_METHOD_GET_PROPERTIES (length (unresolved_keys spec [''vacuum:status'', ''vacuum:x'']))])
      @ (if [r] = [] then []
         else map rejection (filter (\<lambda>r. kr_code r \<noteq> JNum 0) [r]) @ [MiotCall MIOT_METHOD_GET_PROPERTIES None])"
    using bulk_read_accounts [OF run] by blast
  have "rejection r \<in> set (te_metrics s')" unfolding m using code by simp
  moreover have "kr_key r \<in> set (map kr_key [r])" by simp
  then have "kr_key r \<in> set [''vacuum:status'', ''vacuum:x'']" unfolding keys by (rule filter_is_subset [THEN subsetD])
  ultimately show ?thesis using run by auto
qed

definition sample_request :: "operation \<Rightarrow> string \<Rightarrow> json option \<Rightarrow> command_request" where
  "sample_request oper command v = \<lparr>rq_deviceId = 1, rq_command = command, rq_operation = oper, rq_value = v\<rparr>"

lemma refused_before_sending_witness:
  "\<exists>e s'. svc_execute (sample_env refused_reply) (sample_request SetProperty ''vacuum:x'' (Some (JNum 1))) sample_bridge = (Inl e, s')
     \<and> te_metrics s' = [MiotCall MIOT_METHOD_SET_PROPERTIES (Some ''rejected_locally'')] \<and> br_world s' = []"
proof -
  let ?env = "sample_env refused_reply" and ?rq = "sample_request SetProperty ''vacuum:x'' (Some (JNum 1))"
  obtain spec where spec: "simplified ?env sample_cache [] = Inr spec"
    and x: "map_of (simp_properties spec) ''vacuum:x'' = None"
    using sample_spec_simplified by blast
  have lookup: "env_getByDeviceId ?env (rq_deviceId ?rq) (br_world sample_bridge) = (Inr (Some sample_cache), [])"
    and ovs: "env_getByModel ?env (dc_model sample_cache) [] = (Inr [], [])"
    by (simp_all add: sample_request_def sample_bridge_def)
  have "\<not> permitted spec ?rq resolved" for resolved
    using x by (cases resolved) (simp_all add: sample_request_def)
  from refused_before_sending [OF lookup ovs spec this] show ?thesis
    by (auto simp: sample_request_def sample_bridge_def)
qed

lemma sample_start:
  "case simplify_spec sample_mapEnum [0, 1] [0] sample_spec [] of
     Inl _ \<Rightarrow> False
   | Inr spec \<Rightarrow> (case map_of (simp_actions spec) ''vacuum:start'' of None \<Rightarrow> False | Some a \<Rightarrow> ma_siid a = 2 \<and> ma_aiid a = 1)"
  by code_simp

lemma sample_start_run:
  "\<exists>s'. svc_execute (sample_env (JObj [])) (sample_request Action ''vacuum:start'' None) sample_bridge
     = (Inr (response_to 1 ''vacuum:start'' Action None), s')"
proof -
  let ?env = "sample_env (JObj [])" and ?rq = "sample_request Action ''vacuum:start'' None"
  obtain spec a where spec: "simplified ?env sample_cache [] = Inr spec"
    and a: "map_of (simp_actions spec) ''vacuum:start'' = Some a" and ids: "ma_siid a = 2" "ma_aiid a = 1"
    using sample_start by (auto simp: simplified_def sample_env_def sample_cache_def split: sum.splits option.splits)
  have resolved: "resolveCommand (env_runtime ?env) ?rq 1 spec = Inr (Resolved_Action a)"
    using a by (simp add: resolveCommand_iff sample_request_def)
  have act: "\<exists>s1. call_action ?env sample_cache 2 1 None t = (Inr (), s1)"
    if registry: "br_registry t = [(1, sample_device)]" for t
  proof -
    obtain w' where "sendCommand (replying (JObj [])) (env_network ?env) sample_transport 1 42 MIOT_METHOD_ACTION
        (JObj [(''did'', JStr (show_int 1)), (''siid'', JNum 2), (''aiid'', JNum 1), (''in'', JArr (action_args None))])
        (br_world t) = (Inr (JObj []), w')"
      using replying_sendCommand [of 1 42 "JObj []" sample_transport] by (fastforce simp: u32_ok_def js_get_def)
    then have "dev_callAction (replying (JObj [])) (env_network ?env) 2 1 None (sample_device, br_world t)
        = (Inr (), sample_device\<lparr>dev_stampState := Some \<lparr>st_stamp = 42, st_updatedAt = net_now (env_network ?env) w'\<rparr>\<rparr>, w')"
      unfolding dev_callAction_def
      by (subst sample_call [where a = "()" and f = None and w' = w']) (auto simp: callAction_def)
    with registry show ?thesis
      by (auto simp: call_action_def with_device_def getOrCreate_def Let_def)
  qed
  obtain s1 where body: "call_action ?env sample_cache 2 1 None (start_span (call_span (device_call MIOT_METHOD_ACTION
      sample_cache None (aiidAttributes 2 (Some 1) @ [(''miot.command'', Some (AStr ''vacuum:start''))]))
      \<lparr>so_kind := Some ''CLIENT''\<rparr>) sample_bridge) = (Inr (), s1)"
    using act by (fastforce simp: start_span_def sample_bridge_def)
  note call = withMiotCallSpan_Inr [where fn = "call_action ?env sample_cache 2 1 None" and s = sample_bridge
      and a = "()" and ?s1.0 = s1, OF body]
  have world: "in_world (env_getByDeviceId ?env 1) sample_bridge = (Inr (Some sample_cache), sample_bridge)"
    "in_world (env_getByModel ?env ''m'') sample_bridge = (Inr [], sample_bridge)" by simp_all
  have rq: "rq_deviceId ?rq = 1" "rq_command ?rq = ''vacuum:start''" "rq_operation ?rq = Action" "rq_value ?rq = None"
    by (simp_all add: sample_request_def)
  have "resolveOrRecordRejection (env_runtime ?env) ?rq 1 spec sample_bridge = (Inr (Resolved_Action a), sample_bridge)"
    using resolved by (simp add: resolveOrRecordRejection_def catching_def)
  then show ?thesis
    by (simp only: svc_execute_def getByModel_def run_resolved_def resolved.case Let_def and_then_def rq world lifted_simps
        effect_simps(1-3) prod.case sum.case sample_env_simps spec ids call) simp
qed

lemma executed_was_permitted_witness:
  "\<exists>response s'. svc_execute (sample_env (JObj [])) (sample_request Action ''vacuum:start'' None) sample_bridge
     = (Inr response, s') \<and> cr_command response = ''vacuum:start'' \<and> cr_operation response = Action
   \<and> cr_success response \<and> cr_value response = None"
proof -
  obtain s' where run: "svc_execute (sample_env (JObj [])) (sample_request Action ''vacuum:start'' None) sample_bridge
     = (Inr (response_to 1 ''vacuum:start'' Action None), s')" using sample_start_run by blast
  from executed_was_permitted [OF run] run show ?thesis by (auto simp: sample_request_def)
qed

lemma call_measured_witness:
  "\<exists>s'. withMiotCallSpan (device_call MIOT_METHOD_SET_PROPERTIES sample_cache (Some ''override'') [])
       (throwing (MiotError ''no'' MIOT_ERROR_DEVICE_ERROR MIOT_METHOD_SET_PROPERTIES (Some (JNum (-4004))) None True)
         :: (unit, telemetry) effect) no_telemetry
     = (Inl (MiotError ''no'' MIOT_ERROR_DEVICE_ERROR MIOT_METHOD_SET_PROPERTIES (Some (JNum (-4004))) None True), s')
   \<and> length (te_metrics s') = 2
   \<and> last (te_metrics s') = PropertyRejection MIOT_METHOD_SET_PROPERTIES ''override'' (Some (show_int (-4004)))"
proof -
  let ?e = "MiotError ''no'' MIOT_ERROR_DEVICE_ERROR MIOT_METHOD_SET_PROPERTIES (Some (JNum (-4004))) None True"
  let ?call = "device_call MIOT_METHOD_SET_PROPERTIES sample_cache (Some ''override'') []"
  obtain r s' where run: "withMiotCallSpan ?call (throwing ?e :: (unit, telemetry) effect) no_telemetry = (r, s')"
    by (meson surj_pair)
  then have r: "r = Inl ?e" by (simp add: withMiotCallSpan_def withClientSpan_def withSpan_def)
  from call_measured [OF run] r have "te_metrics s' = [MiotCall MIOT_METHOD_SET_PROPERTIES (Some ''device_error''),
      PropertyRejection MIOT_METHOD_SET_PROPERTIES ''override'' (Some (show_int (-4004)))]"
    by (auto simp: device_call_def no_telemetry_def)
  with run r show ?thesis by simp
qed

lemma instance_outlives_record_witness:
  "\<exists>dev'. map_of (br_registry (fold after_call [Bulk_Read (sample_env refused_reply) ''d'' [''vacuum:status'']] sample_bridge)) 1
       = Some dev' \<and> tr_address (dev_transport dev') = ''10.0.0.9''"
proof -
  have "map_of (br_registry sample_bridge) 1 = Some sample_device" by (simp add: sample_bridge_def)
  from instance_outlives_record [OF this, of "[Bulk_Read (sample_env refused_reply) ''d'' [''vacuum:status'']]"]
  show ?thesis by (auto simp: sample_transport_def MiotTransport_def)
qed

lemma unresolved_logged_once_witness:
  "distinct (map seen_key (filter is_unresolved (br_log (fold after_call
     (replicate 2 (Bulk_Read (sample_env refused_reply) ''d'' [''vacuum:x''])) sample_bridge))))"
  by (rule unresolved_logged_once) (simp_all add: sample_bridge_def)

end
