(* ===== verification/Poller.thy ===== *)
theory Poller
  imports Device_Command
begin

text \<open>
  The property poller of the bridge (\<^verbatim>\<open>services/DevicePropertyPollerService.ts\<close>): the subscription
  cache, the back-off of failing devices, the sampling of its traces, one tick and its timer, and
  the detection of changes. Its state extends the bridge's; the bulk read is the command service's.
\<close>

record polling_config =
  pl_enabled :: bool
  pl_intervalMs :: int
  pl_dispatchOnChange :: bool
  pl_maxErrorCount :: "int option"
  pl_errorSkipCycles :: "int option"
  pl_traceIntervalMs :: "int option"

record 'w app = "'w bridge" +
  po_timer :: "int option"
  po_ticking :: bool
  po_listening :: bool
  po_subscriptions :: "(string, string list) js_map"
  po_lastValues :: "(string, json option) js_map"
  po_errorCounts :: "(string, int) js_map"
  po_skipCycles :: "(string, int) js_map"
  po_lastTracedAt :: int

definition DEFAULT_POLL_TRACE_INTERVAL_MS :: int where "DEFAULT_POLL_TRACE_INTERVAL_MS = 60000"

text \<open>A method of the command service, called on the bridge inside the poller's state.\<close>

definition on_bridge :: "('a, 'w) service \<Rightarrow> ('a, ('w, 'z) bridge_scheme) effect" where
  "on_bridge = within bridge.truncate (\<lambda>b s. bridge.extend b (bridge.more s))"

definition polling_enabled :: "polling_config option \<Rightarrow> bool" where
  "polling_enabled cfg \<longleftrightarrow> (case cfg of None \<Rightarrow> False | Some c \<Rightarrow> pl_enabled c)"

definition config_or :: "(polling_config \<Rightarrow> 'a option) \<Rightarrow> 'a \<Rightarrow> polling_config option \<Rightarrow> 'a" where
  "config_or f d cfg = (case Option.bind cfg f of None \<Rightarrow> d | Some v \<Rightarrow> v)"

definition value_key :: "string \<Rightarrow> string \<Rightarrow> string" where
  "value_key deviceId property = deviceId @ '':'' @ property"

subsection \<open>The subscription cache\<close>

definition properties_subscribed :: "string \<Rightarrow> (string, string list) js_map \<Rightarrow> string list" where
  "properties_subscribed deviceId subs = (case map_of subs deviceId of None \<Rightarrow> [] | Some ps \<Rightarrow> ps)"

definition add_subscriptions ::
  "string \<Rightarrow> string list \<Rightarrow> (string, string list) js_map \<Rightarrow> (string, string list) js_map" where
  "add_subscriptions deviceId properties subs =
     AList.update deviceId (set_add_all properties (properties_subscribed deviceId subs)) subs"

definition addSubscriptions :: "string \<Rightarrow> string list \<Rightarrow> 'w app \<Rightarrow> 'w app" where
  "addSubscriptions deviceId properties s =
     s\<lparr>po_subscriptions := add_subscriptions deviceId properties (po_subscriptions s)\<rparr>"

definition remove_subscription ::
  "string \<Rightarrow> string \<Rightarrow> (string, string list) js_map \<Rightarrow> (string, string list) js_map" where
  "remove_subscription deviceId property subs =
     (case map_of subs deviceId of
        None \<Rightarrow> subs
      | Some ps \<Rightarrow> (let ps' = filter (\<lambda>p. p \<noteq> property) ps
                   in if ps' = [] then AList.delete deviceId subs else AList.update deviceId ps' subs))"

definition removeSubscription :: "string \<Rightarrow> string \<Rightarrow> 'w app \<Rightarrow> 'w app" where
  "removeSubscription deviceId property s =
     s\<lparr>po_subscriptions := remove_subscription deviceId property (po_subscriptions s),
       po_lastValues := AList.delete (value_key deviceId property) (po_lastValues s)\<rparr>"

definition removeAllSubscriptions :: "string \<Rightarrow> 'w app \<Rightarrow> 'w app" where
  "removeAllSubscriptions deviceId s =
     s\<lparr>po_subscriptions := AList.delete deviceId (po_subscriptions s),
       po_lastValues := filter (\<lambda>(k, v). \<not> starts_with (deviceId @ '':'') k) (po_lastValues s)\<rparr>"

subsection \<open>Starting and stopping\<close>

record notification =
  no_id :: string
  no_createdAt :: int
  no_updatedAt :: int
  no_deviceId :: string
  no_property :: string

definition scheduleNext :: "int \<Rightarrow> 'w app \<Rightarrow> 'w app" where
  "scheduleNext intervalMs s = s\<lparr>po_timer := Some intervalMs\<rparr>"

definition stop :: "'w app \<Rightarrow> 'w app" where
  "stop s = (case po_timer s of None \<Rightarrow> s | Some _ \<Rightarrow> s\<lparr>po_timer := None\<rparr>)"

definition loadSubscriptions :: "(notification list, 'w app) effect \<Rightarrow> (unit, 'w app) effect" where
  "loadSubscriptions getAll =
     and_then getAll (\<lambda>rows.
     and_then (doing (\<lambda>s. s\<lparr>po_subscriptions := fold (\<lambda>n subs. add_subscriptions (no_deviceId n) [no_property n] subs)
                                rows (po_subscriptions s)\<rparr>)) (\<lambda>_.
     doing (\<lambda>s. setAttributes [(''miot.poll.subscription.count'', Some (ANum (int (length rows)))),
                             (''miot.poll.device.count'', Some (ANum (int (length (po_subscriptions s)))))] s)))"

definition start :: "polling_config option \<Rightarrow> (notification list, 'w app) effect \<Rightarrow> (unit, 'w app) effect" where
  "start cfg getAll =
     (case cfg of
        Some c \<Rightarrow>
          if pl_enabled c
          then and_then (runJob \<lparr>jo_name = ''load_poll_subscriptions'', jo_tracer = ''device-poller'',
                   jo_spanName = Some ''load poll subscriptions'', jo_attributes = [], jo_suppressTrace = False\<rparr>
                 (loadSubscriptions getAll)) (\<lambda>_.
               doing (scheduleNext (pl_intervalMs c)))
          else returning ()
      | None \<Rightarrow> returning ())"

definition on_init :: "polling_config option \<Rightarrow> (notification list, 'w app) effect \<Rightarrow> (unit, 'w app) effect" where
  "on_init cfg getAll = and_then (start cfg getAll) (\<lambda>_. doing (\<lambda>s. s\<lparr>po_listening := True\<rparr>))"

text \<open>
  What else can run while a tick awaits: the calls of the request handlers and \<^verbatim>\<open>$onDestroy\<close>. A schedule names the
  calls that run at each of a tick's awaits, in order.
\<close>

datatype poller_call =
    Call_Stop
  | Call_Add string "string list"
  | Call_Remove string string
  | Call_Remove_All string

fun poller_call_step :: "poller_call \<Rightarrow> 'w app \<Rightarrow> 'w app" where
  "poller_call_step Call_Stop s = stop s"
| "poller_call_step (Call_Add deviceId properties) s = addSubscriptions deviceId properties s"
| "poller_call_step (Call_Remove deviceId property) s = removeSubscription deviceId property s"
| "poller_call_step (Call_Remove_All deviceId) s = removeAllSubscriptions deviceId s"

definition run_others :: "poller_call list \<Rightarrow> 'w app \<Rightarrow> 'w app" where
  "run_others calls = fold poller_call_step calls"

text \<open>An \<^verbatim>\<open>await\<close>: the others run between the work and what follows it, however the work ends.\<close>

definition awaited :: "poller_call list \<Rightarrow> ('a, 'w app) effect \<Rightarrow> ('a, 'w app) effect" where
  "awaited others m s = (case m s of (r, s') \<Rightarrow> (r, run_others others s'))"

subsection \<open>One device\<close>

text \<open>\<^verbatim>\<open>!==\<close> between the value kept and the value read: two parsed objects are never identical.\<close>

definition same_value :: "json option \<Rightarrow> json option \<Rightarrow> bool" where
  "same_value a b \<longleftrightarrow> a = b \<and> (case a of Some (JArr _) \<Rightarrow> False | Some (JObj _) \<Rightarrow> False | _ \<Rightarrow> True)"

definition last_value :: "string \<Rightarrow> 'w app \<Rightarrow> json option" where
  "last_value k s = (case map_of (po_lastValues s) k of None \<Rightarrow> None | Some v \<Rightarrow> v)"

definition emit :: "property_change \<Rightarrow> 'w app \<Rightarrow> 'w app" where
  "emit event s = (if po_listening s then receive event s else s)"

definition observe_result :: "bool \<Rightarrow> string \<Rightarrow> int \<Rightarrow> int \<Rightarrow> keyed_result \<Rightarrow> 'w app \<Rightarrow> 'w app" where
  "observe_result dispatchOnChange deviceId miotDeviceId now r s =
     (if kr_code r \<noteq> JNum 0 then s
      else (let cacheKey = value_key deviceId (kr_key r); oldValue = last_value cacheKey s;
                hasChanged = \<not> same_value oldValue (kr_value r)
            in if hasChanged \<or> \<not> dispatchOnChange
               then emit \<lparr>pc_deviceId = deviceId, pc_miotDeviceId = miotDeviceId, pc_property = kr_key r,
                      pc_oldValue = (if hasChanged then oldValue else kr_value r), pc_newValue = kr_value r,
                      pc_timestamp = now\<rparr>
                      (s\<lparr>po_lastValues := AList.update cacheKey (kr_value r) (po_lastValues s)\<rparr>)
               else s))"

definition on_read ::
  "polling_config option \<Rightarrow> ('w \<Rightarrow> int) \<Rightarrow> string \<Rightarrow> int \<times> keyed_result list \<Rightarrow> 'w app \<Rightarrow> 'w app" where
  "on_read cfg now deviceId response s =
     (let (miotDeviceId, results) = response;
          s1 = setAttributes [(''miot.device.id'', identifierAttribute (Some (show_int miotDeviceId)))] s
      in case cfg of
           Some c \<Rightarrow>
             if pl_enabled c
             then (let s2 = fold (observe_result (pl_dispatchOnChange c) deviceId miotDeviceId (now (br_world s1))) results s1
                   in if map_of (po_errorCounts s2) deviceId \<noteq> None
                      then s2\<lparr>po_errorCounts := AList.delete deviceId (po_errorCounts s2)\<rparr> else s2)
             else s1
         | None \<Rightarrow> s1)"

definition on_device_failed :: "polling_config option \<Rightarrow> string \<Rightarrow> thrown \<Rightarrow> 'w app \<Rightarrow> 'w app" where
  "on_device_failed cfg deviceId e s =
     (let s1 = recordSpanError e s;
          maxErrors = config_or pl_maxErrorCount 3 cfg;
          skipCycles = config_or pl_errorSkipCycles 20 cfg;
          n = (case map_of (po_errorCounts s1) deviceId of None \<Rightarrow> 0 | Some c \<Rightarrow> c) + 1;
          s2 = s1\<lparr>po_errorCounts := AList.update deviceId n (po_errorCounts s1)\<rparr>
      in if n \<ge> maxErrors
         then s2\<lparr>po_errorCounts := AList.delete deviceId (po_errorCounts s2),
                 po_skipCycles := AList.update deviceId skipCycles (po_skipCycles s2)\<rparr>
         else s2)"

definition readDevice ::
  "'w bridge_env \<Rightarrow> polling_config option \<Rightarrow> poller_call list \<Rightarrow> string \<Rightarrow> string list \<Rightarrow> (string, 'w app) effect" where
  "readDevice env cfg others deviceId properties =
     catching
       (and_then (awaited others (on_bridge (svc_getProperties env deviceId properties))) (\<lambda>response.
        and_then (doing (on_read cfg (net_now (env_network env)) deviceId response)) (\<lambda>_.
        returning JOB_OUTCOME_VALUE_SUCCESS)))
       (\<lambda>e. and_then (doing (on_device_failed cfg deviceId e)) (\<lambda>_. returning JOB_OUTCOME_VALUE_FAILURE))"

definition pollDevice ::
  "'w bridge_env \<Rightarrow> polling_config option \<Rightarrow> poller_call list \<Rightarrow> string \<Rightarrow> string list \<Rightarrow> (string, 'w app) effect" where
  "pollDevice env cfg others deviceId properties =
     withSpan \<lparr>so_name = ''poll device'', so_tracer = ''device-poller'', so_kind = None,
         so_attributes = [(''miot.device.storage_id'', identifierAttribute (Some deviceId)),
                          (''miot.property.count'', Some (ANum (int (length properties))))],
         so_parent = None, so_root = False, so_suppress = False\<rparr>
       (readDevice env cfg others deviceId properties)"

subsection \<open>One tick\<close>

text \<open>The loop over the subscriptions: what is due, and the counters of the devices skipped.\<close>

fun due_loop ::
  "(string \<times> string list) list \<Rightarrow> (string, int) js_map \<Rightarrow> (string \<times> string list) list \<times> (string, int) js_map" where
  "due_loop [] skips = ([], skips)"
| "due_loop ((deviceId, ps) # subs) skips =
     (let skipRemaining = (case map_of skips deviceId of None \<Rightarrow> 0 | Some n \<Rightarrow> n)
      in if skipRemaining > 0 then due_loop subs (AList.update deviceId (skipRemaining - 1) skips)
         else (let (due, skips') = due_loop subs skips in ((deviceId, ps) # due, skips')))"

definition dueDevices :: "'w app \<Rightarrow> (string \<times> string list) list \<times> 'w app" where
  "dueDevices s = (let (due, skips) = due_loop (po_subscriptions s) (po_skipCycles s)
     in (due, s\<lparr>po_skipCycles := skips\<rparr>))"

definition failingCount :: "(string \<times> string list) list \<Rightarrow> 'w app \<Rightarrow> nat" where
  "failingCount due s = length (filter (\<lambda>(deviceId, ps).
     (case map_of (po_errorCounts s) deviceId of None \<Rightarrow> 0 | Some n \<Rightarrow> n) > 0) due)"

definition shouldTrace :: "polling_config option \<Rightarrow> (string \<times> string list) list \<Rightarrow> int \<Rightarrow> 'w app \<Rightarrow> bool \<times> 'w app" where
  "shouldTrace cfg due now s =
     (let interval = config_or pl_traceIntervalMs DEFAULT_POLL_TRACE_INTERVAL_MS cfg;
          traced = failingCount due s > 0 \<or> interval \<le> 0 \<or> now - po_lastTracedAt s \<ge> interval
      in (traced, if traced then s\<lparr>po_lastTracedAt := now\<rparr> else s))"

fun poll_each ::
  "'w bridge_env \<Rightarrow> polling_config option \<Rightarrow> (nat \<Rightarrow> poller_call list) \<Rightarrow> nat \<Rightarrow> (string \<times> string list) list
     \<Rightarrow> (unit, 'w app) effect" where
  "poll_each env cfg others k [] = returning ()"
| "poll_each env cfg others k ((deviceId, ps) # due) =
     and_then (pollDevice env cfg (others k) deviceId ps) (\<lambda>outcome.
     and_then (doing (recordItem ''poll_device_properties'' outcome 1)) (\<lambda>_.
     poll_each env cfg others (Suc k) due))"

definition pollDueDevices ::
  "'w bridge_env \<Rightarrow> polling_config option \<Rightarrow> (nat \<Rightarrow> poller_call list) \<Rightarrow> int \<Rightarrow> (unit, 'w app) effect" where
  "pollDueDevices env cfg others intervalMs s =
     (let (due, s1) = dueDevices s
      in if due = [] then (Inr (), recordJobSkip ''poll_device_properties'' JOB_SKIP_REASON_VALUE_NOTHING_DUE s1)
         else (let (traced, s2) = shouldTrace cfg due (net_now (env_network env) (br_world s1)) s1
               in runJob \<lparr>jo_name = ''poll_device_properties'', jo_tracer = ''device-poller'',
                      jo_spanName = Some ''poll device properties'',
                      jo_attributes =
                        [(''miot.poll.device.count'', Some (ANum (int (length due)))),
                         (''miot.poll.failing.count'', Some (ANum (int (failingCount due s1)))),
                         (''miot.poll.interval_ms'', Some (ANum intervalMs))],
                      jo_suppressTrace = (\<not> traced)\<rparr>
                    (poll_each env cfg others 0 due) s2))"

text \<open>
  The timer of the tick that runs is the one \<open>po_timer\<close> still names; a \<open>stop\<close> in between clears it. \<open>others k\<close> runs
  while the \<open>k\<close>-th due device is read, and \<open>others\<close> of their number while the job settles.
\<close>

definition tick ::
  "'w bridge_env \<Rightarrow> polling_config option \<Rightarrow> (nat \<Rightarrow> poller_call list) \<Rightarrow> int \<Rightarrow> (unit, 'w app) effect" where
  "tick env cfg others intervalMs s =
     (if po_ticking s then (Inr (), s)
      else (let (r, s1) = awaited (others (length (fst (dueDevices s)))) (pollDueDevices env cfg others intervalMs) (s\<lparr>po_ticking := True\<rparr>);
                s2 = s1\<lparr>po_ticking := False\<rparr>
            in (r, case po_timer s2 of None \<Rightarrow> s2 | Some _ \<Rightarrow> scheduleNext intervalMs s2)))"

subsection \<open>Changes are dispatched\<close>

lemma value_key_inject [simp]: "value_key d k = value_key d k' \<longleftrightarrow> k = k'"
  by (simp add: value_key_def)

text \<open>The event one result causes, if any, read off the state before the tick's loop.\<close>

definition change_event :: "polling_config \<Rightarrow> string \<Rightarrow> int \<Rightarrow> int \<Rightarrow> 'w app \<Rightarrow> keyed_result \<Rightarrow> property_change option" where
  "change_event c deviceId miotDeviceId now s r =
     (let old = last_value (value_key deviceId (kr_key r)) s; changed = \<not> same_value old (kr_value r)
      in if kr_code r = JNum 0 \<and> (changed \<or> \<not> pl_dispatchOnChange c)
         then Some \<lparr>pc_deviceId = deviceId, pc_miotDeviceId = miotDeviceId, pc_property = kr_key r,
           pc_oldValue = (if changed then old else kr_value r), pc_newValue = kr_value r, pc_timestamp = now\<rparr>
         else None)"

lemma last_value_update:
  "last_value k (s\<lparr>po_lastValues := AList.update k' v (po_lastValues s)\<rparr>) = (if k = k' then v else last_value k s)"
  by (simp add: last_value_def update_conv')

lemma last_value_emit [simp]: "last_value k (emit e s) = last_value k s"
  and listening_emit [simp]: "po_listening (emit e s) = po_listening s"
  by (simp_all add: last_value_def emit_def receive_def)

lemma observe_result_step:
  assumes "po_listening s"
  shows "br_received (observe_result (pl_dispatchOnChange c) d m now r s)
      = br_received s @ (case change_event c d m now s r of None \<Rightarrow> [] | Some e \<Rightarrow> [e])"
    and "po_listening (observe_result b d m now r s)"
    and "k \<noteq> value_key d (kr_key r) \<Longrightarrow> last_value k (observe_result b d m now r s) = last_value k s"
    and "kr_code r = JNum 0 \<Longrightarrow> last_value (value_key d (kr_key r)) (observe_result b d m now r s) = kr_value r"
  using assms
  by (auto simp: observe_result_def change_event_def Let_def last_value_update emit_def receive_def same_value_def)
    (auto simp: last_value_def update_conv')

lemma observe_results:
  assumes "distinct (map kr_key results)" and "po_listening s"
  shows "br_received (fold (observe_result (pl_dispatchOnChange c) d m now) results s)
      = br_received s @ List.map_filter (change_event c d m now s) results
    \<and> po_listening (fold (observe_result (pl_dispatchOnChange c) d m now) results s)
    \<and> (\<forall>k. k \<notin> value_key d ` kr_key ` set results \<longrightarrow>
         last_value k (fold (observe_result (pl_dispatchOnChange c) d m now) results s) = last_value k s)
    \<and> (\<forall>r \<in> set results. kr_code r = JNum 0 \<longrightarrow>
         last_value (value_key d (kr_key r)) (fold (observe_result (pl_dispatchOnChange c) d m now) results s) = kr_value r)"
  using assms
proof (induction results arbitrary: s)
  case Nil
  then show ?case by (simp add: List.map_filter_simps)
next
  case (Cons r rs)
  let ?s = "observe_result (pl_dispatchOnChange c) d m now r s"
  have step: "br_received ?s = br_received s @ (case change_event c d m now s r of None \<Rightarrow> [] | Some e \<Rightarrow> [e])"
    "po_listening ?s" "k \<noteq> value_key d (kr_key r) \<Longrightarrow> last_value k ?s = last_value k s"
    "kr_code r = JNum 0 \<Longrightarrow> last_value (value_key d (kr_key r)) ?s = kr_value r" for k
    by (rule observe_result_step [OF Cons.prems(2)], assumption?)+
  have same: "change_event c d m now ?s x = change_event c d m now s x" if "x \<in> set rs" for x
  proof -
    have "kr_key r \<notin> kr_key ` set rs" using Cons.prems(1) by simp
    then have "kr_key x \<noteq> kr_key r" using that by (metis imageI)
    then show ?thesis by (simp add: change_event_def step(3))
  qed
  have "List.map_filter (change_event c d m now ?s) rs = List.map_filter (change_event c d m now s) rs"
    using same by (simp add: List.map_filter_def cong: filter_cong map_cong)
  moreover have "kr_key r \<notin> kr_key ` set rs" "distinct (map kr_key rs)" using Cons.prems(1) by auto
  ultimately show ?case
    using Cons.IH [of ?s] step
    by (auto simp: List.map_filter_simps image_iff split: option.splits)
qed


subsection \<open>Back-off\<close>

lemma failed_step:
  assumes "s' = on_device_failed cfg d e s"
    and "n = (case map_of (po_errorCounts s) d of None \<Rightarrow> 0 | Some c \<Rightarrow> c) + 1"
  shows "if n \<ge> config_or pl_maxErrorCount 3 cfg
    then map_of (po_errorCounts s') d = None \<and> map_of (po_skipCycles s') d = Some (config_or pl_errorSkipCycles 20 cfg)
    else map_of (po_errorCounts s') d = Some n \<and> map_of (po_skipCycles s') d = map_of (po_skipCycles s) d"
proof -
  have "po_skipCycles (recordSpanError e s) = po_skipCycles s" "po_errorCounts (recordSpanError e s) = po_errorCounts s"
    by (simp_all add: recordSpanError_def setStatusError_def split: list.splits)
  with assms show ?thesis
    by (auto simp: on_device_failed_def Let_def update_conv' AList.delete_conv')
qed

text \<open>
  A streak of failures of one device is counted until it reaches the configured
  maximum; then, and not before, the device is put aside for the configured number of cycles and
  its count starts afresh.
\<close>

theorem failure_streak:
  assumes "config_or pl_maxErrorCount 3 cfg = int m" and "0 < m" and "map_of (po_errorCounts s) d = None"
    and "s' = fold (on_device_failed cfg d) es s" and "length es \<le> m"
  shows "if length es < m
    then map_of (po_skipCycles s') d = map_of (po_skipCycles s) d
      \<and> map_of (po_errorCounts s') d = (if es = [] then None else Some (int (length es)))
    else map_of (po_skipCycles s') d = Some (config_or pl_errorSkipCycles 20 cfg)
      \<and> map_of (po_errorCounts s') d = None"
  using assms(4,5)
proof (induction es arbitrary: s' rule: rev_induct)
  case Nil
  with assms(2,3) show ?case by simp
next
  case (snoc e es)
  let ?t = "fold (on_device_failed cfg d) es s"
  have "map_of (po_skipCycles ?t) d = map_of (po_skipCycles s) d"
    and "map_of (po_errorCounts ?t) d = (if es = [] then None else Some (int (length es)))"
    using snoc.IH [of ?t] snoc.prems by auto
  moreover have "s' = on_device_failed cfg d e ?t" using snoc.prems by simp
  ultimately show ?case
    using failed_step [of s' cfg d e ?t "int (length (es @ [e]))"] snoc.prems(2) assms(1)
    by (auto split: if_splits)
qed

lemma due_loop_spec:
  assumes "distinct (map fst subs)"
  shows "fst (due_loop subs skips) = filter (\<lambda>(d, ps). (case map_of skips d of None \<Rightarrow> 0 | Some n \<Rightarrow> n) \<le> 0) subs
    \<and> map_of (snd (due_loop subs skips)) d
      = (case map_of skips d of None \<Rightarrow> None
         | Some n \<Rightarrow> Some (if n > 0 \<and> d \<in> fst ` set subs then n - 1 else n))"
  using assms
proof (induction subs arbitrary: skips)
  case (Cons x subs)
  obtain d' ps where x: "x = (d', ps)" by (cases x)
  let ?n = "case map_of skips d' of None \<Rightarrow> 0 | Some n \<Rightarrow> n"
  show ?case
  proof (cases "?n > 0")
    case True
    have other: "a \<noteq> d'" if "(a, b) \<in> set subs" for a b using Cons.prems x that by force
    then have "filter (\<lambda>(d, ps). (case map_of (AList.update d' (?n - 1) skips) d of None \<Rightarrow> 0 | Some n \<Rightarrow> n) \<le> 0) subs
        = filter (\<lambda>(d, ps). (case map_of skips d of None \<Rightarrow> 0 | Some n \<Rightarrow> n) \<le> 0) subs"
      by (auto simp: update_conv' intro!: filter_cong)
    with Cons.IH [of "AList.update d' (?n - 1) skips"] Cons.prems True x show ?thesis
      by (auto simp: update_conv' split: option.splits)
  next
    case False
    with Cons.IH [of skips] Cons.prems x show ?thesis
      by (auto simp: case_prod_beta split: option.splits)
  qed
qed (simp split: option.splits)

text \<open>
  A device put aside for a number of cycles is left out of exactly that many ticks and
  is due in the next one, as long as it stays subscribed.
\<close>

theorem backoff_cycles:
  assumes "distinct (map fst (po_subscriptions s))" and "(d, ps) \<in> set (po_subscriptions s)"
    and "map_of (po_skipCycles s) d = Some (int n)"
  shows "(d, ps) \<in> set (fst (dueDevices (((\<lambda>s. snd (dueDevices s)) ^^ k) s))) \<longleftrightarrow> n \<le> k"
proof -
  let ?t = "((\<lambda>s. snd (dueDevices s)) ^^ k) s"
  have "po_subscriptions ?t = po_subscriptions s \<and> map_of (po_skipCycles ?t) d = Some (int (n - k))"
  proof (induction k)
    case 0
    with assms(3) show ?case by simp
  next
    case (Suc k)
    with due_loop_spec [OF assms(1), of "po_skipCycles (((\<lambda>s. snd (dueDevices s)) ^^ k) s)" d] assms(2) show ?case
      by (force simp: dueDevices_def split: prod.splits)
  qed
  with due_loop_spec [OF assms(1), of "po_skipCycles ?t"] assms(2) show ?thesis
    by (auto simp: dueDevices_def split: prod.splits)
qed

subsection \<open>A tick never fails\<close>

lemma on_bridge_more: "on_bridge m s = (r, s') \<Longrightarrow> bridge.more s' = bridge.more s"
  by (auto simp: on_bridge_def within_def bridge.defs split: prod.splits)

lemma poller_fields:
  "bridge.more s' = bridge.more s \<Longrightarrow> po_timer s' = po_timer s \<and> po_ticking s' = po_ticking s"
  by (cases s; cases s') (simp add: app.defs)

text \<open>What the work of a tick does to its guard and timer: only a \<open>stop\<close> among the others clears the timer.\<close>

definition timer_after :: "bool \<Rightarrow> 'w app \<Rightarrow> 'w app \<Rightarrow> bool" where
  "timer_after stopped s s' \<longleftrightarrow> po_ticking s' = po_ticking s \<and> po_timer s' = (if stopped then None else po_timer s)"

abbreviation timer_kept :: "'w app \<Rightarrow> 'w app \<Rightarrow> bool" where
  "timer_kept \<equiv> timer_after False"

definition stops :: "poller_call list \<Rightarrow> bool" where
  "stops calls \<longleftrightarrow> Call_Stop \<in> set calls"

lemma timer_kept_telemetry [simp]:
  "timer_kept s (setAttributes as s)" "timer_kept s (recordSpanError e s)" "timer_kept s (start_span o' s)"
  "timer_kept s (end_span s)" "timer_kept s (count_metric m s)"
  by (auto simp: timer_after_def setAttributes_def recordSpanError_def setStatusError_def start_span_def end_span_def
      count_metric_def split: list.splits)

lemma timer_after_trans: "timer_after a s t \<Longrightarrow> timer_after b t u \<Longrightarrow> timer_after (a \<or> b) s u"
  by (auto simp: timer_after_def)

lemmas timer_then_kept = timer_after_trans [where b = False, simplified]
  and timer_kept_then = timer_after_trans [where a = False, simplified]

lemma timer_kept_refl [simp]: "timer_kept s s"
  by (simp add: timer_after_def)

lemma others_timer: "timer_after (stops calls) s (run_others calls s)"
  unfolding run_others_def
proof (induction calls arbitrary: s)
  case (Cons c calls)
  have "timer_after (c = Call_Stop) s (poller_call_step c s)"
    by (cases c) (auto simp: timer_after_def stop_def addSubscriptions_def removeSubscription_def removeAllSubscriptions_def
        split: option.splits)
  from timer_after_trans [OF this Cons.IH] show ?case by (auto simp: stops_def timer_after_def)
qed (simp add: stops_def)

lemma awaited_timer:
  assumes "awaited others m s = (r, s')" and "\<And>r t. m s = (r, t) \<Longrightarrow> timer_after b s t"
  shows "timer_after (b \<or> stops others) s s' \<and> fst (m s) = r"
  using assms others_timer by (auto simp: awaited_def split: prod.splits intro!: timer_after_trans)

lemma observe_timer: "timer_kept s (fold (observe_result b d m now) rs s)"
proof (induction rs arbitrary: s)
  case (Cons r rs)
  have "timer_kept s (observe_result b d m now r s)"
    by (simp add: timer_after_def observe_result_def Let_def emit_def receive_def)
  with Cons show ?case using timer_then_kept by fastforce
qed simp

lemma on_bridge_timer: "on_bridge m s = (r, s') \<Longrightarrow> timer_kept s s'"
  using on_bridge_more [THEN poller_fields] by (fastforce simp: timer_after_def)

lemma on_read_timer: "timer_kept s (on_read cfg now d response s)"
proof -
  let ?s1 = "setAttributes [(''miot.device.id'', identifierAttribute (Some (show_int (fst response))))] s"
  have "timer_kept s (fold (observe_result b d m n) rs ?s1)" for b m n rs
    using timer_then_kept [OF timer_kept_telemetry(1) observe_timer] by blast
  then show ?thesis
    by (auto simp: on_read_def Let_def timer_after_def [of False s "_\<lparr>po_errorCounts := _\<rparr>"]
        split: prod.splits option.splits) (auto simp: timer_after_def)
qed

lemma on_device_failed_timer: "timer_kept s (on_device_failed cfg d e s)"
  using timer_kept_telemetry(2) [of s e] by (auto simp: on_device_failed_def Let_def timer_after_def)

lemma readDevice_outcome:
  assumes "readDevice env cfg others d ps s = (r, s')"
  shows "timer_after (stops others) s s'
    \<and> r = Inr (if isl (fst (on_bridge (svc_getProperties env d ps) s)) then JOB_OUTCOME_VALUE_FAILURE
              else JOB_OUTCOME_VALUE_SUCCESS)"
proof -
  obtain x s1 where read: "awaited others (on_bridge (svc_getProperties env d ps)) s = (x, s1)" by (meson surj_pair)
  from awaited_timer [OF this, of False] on_bridge_timer [of "svc_getProperties env d ps" s]
  have kept: "timer_after (stops others) s s1" and x: "fst (on_bridge (svc_getProperties env d ps) s) = x" by auto
  from assms read x show ?thesis
    using timer_then_kept [OF kept on_read_timer] timer_then_kept [OF kept on_device_failed_timer]
    by (cases x) (auto simp: readDevice_def catching_def and_then_def)
qed

lemma pollDevice_outcome:
  assumes "pollDevice env cfg others d ps s = (r, s')"
  shows "timer_after (stops others) s s' \<and> r \<in> {Inr JOB_OUTCOME_VALUE_SUCCESS, Inr JOB_OUTCOME_VALUE_FAILURE}"
proof -
  obtain opts where withs: "withSpan opts (readDevice env cfg others d ps) s = (r, s')"
    using assms by (auto simp: pollDevice_def)
  obtain r1 s1 where read: "readDevice env cfg others d ps (start_span opts s) = (r1, s1)" by (meson surj_pair)
  from readDevice_outcome [OF this] have "timer_after (stops others) s s1"
    and r1: "r1 \<in> {Inr JOB_OUTCOME_VALUE_SUCCESS, Inr JOB_OUTCOME_VALUE_FAILURE}"
    using timer_kept_then [OF timer_kept_telemetry(3)] by auto
  with withs read show ?thesis
    using timer_then_kept [OF \<open>timer_after (stops others) s s1\<close> timer_kept_telemetry(4)] by (auto simp: withSpan_def)
qed

lemma poll_each_outcome:
  assumes "poll_each env cfg others k due s = (r, s')"
  shows "timer_after (\<exists>i < length due. stops (others (k + i))) s s' \<and> r = Inr ()"
  using assms
proof (induction due arbitrary: k s)
  case (Cons x due)
  obtain d ps where x: "x = (d, ps)" by (cases x)
  obtain r1 s1 where poll: "pollDevice env cfg (others k) d ps s = (r1, s1)" by (meson surj_pair)
  from pollDevice_outcome [OF poll] obtain out where "r1 = Inr out" and kept: "timer_after (stops (others k)) s s1" by auto
  with Cons.prems poll x
  have "poll_each env cfg others (Suc k) due (recordItem ''poll_device_properties'' out 1 s1) = (r, s')"
    by (simp add: and_then_def)
  from Cons.IH [OF this] have rest: "timer_after (\<exists>i < length due. stops (others (Suc k + i)))
      (recordItem ''poll_device_properties'' out 1 s1) s'" and "r = Inr ()" by auto
  have "timer_after (stops (others k)) s (recordItem ''poll_device_properties'' out 1 s1)"
    using timer_then_kept [OF kept timer_kept_telemetry(5)] by (simp add: recordItem_def)
  from timer_after_trans [OF this rest]
  have "timer_after (stops (others k) \<or> (\<exists>i < length due. stops (others (Suc k + i)))) s s'" .
  moreover have "(\<exists>i < length (x # due). stops (others (k + i)))
      \<longleftrightarrow> stops (others k) \<or> (\<exists>i < length due. stops (others (Suc k + i)))"
    by (simp only: length_Cons less_Suc_eq_0_disj) auto
  ultimately show ?case using \<open>r = Inr ()\<close> by simp
qed simp

lemma runJob_total:
  assumes "runJob opts fn s = (r, s')" and "\<And>t r t'. fn t = (r, t') \<Longrightarrow> timer_after b t t' \<and> r = Inr a"
  shows "timer_after b s s' \<and> r = Inr a"
proof -
  obtain opts' where withs: "withSpan opts' (recordOnSettle (jo_name opts) fn) s = (r, s')"
    using assms(1) by (auto simp: runJob_def withEntryPointSpan_def)
  obtain r1 s1 where fn: "fn (start_span opts' s) = (r1, s1)" by (meson surj_pair)
  from assms(2) [OF fn] have "timer_after b s s1" and r1: "r1 = Inr a"
    using timer_kept_then [OF timer_kept_telemetry(3)] by auto
  moreover have "timer_kept s1 (end_span (recordRun n out s1))" for n out
    using timer_then_kept [OF timer_kept_telemetry(5) timer_kept_telemetry(4)] by (simp add: recordRun_def)
  ultimately show ?thesis
    using withs fn by (auto simp: withSpan_def recordOnSettle_def intro: timer_then_kept)
qed

lemma pollDueDevices_outcome:
  assumes "pollDueDevices env cfg others i s = (r, s')"
  shows "timer_after (\<exists>k < length (fst (dueDevices s)). stops (others k)) s s' \<and> r = Inr ()"
proof -
  obtain due s1 where due: "dueDevices s = (due, s1)" by (meson surj_pair)
  have kept1: "timer_kept s s1" using due by (auto simp: dueDevices_def timer_after_def split: prod.splits)
  show ?thesis
  proof (cases "due = []")
    case True
    with assms due kept1 show ?thesis
      by (auto simp: pollDueDevices_def recordJobSkip_def intro: timer_then_kept)
  next
    case False
    obtain traced s2 where trace: "shouldTrace cfg due (net_now (env_network env) (br_world s1)) s1 = (traced, s2)"
      by (meson surj_pair)
    have "timer_kept s1 s2" using trace by (auto simp: shouldTrace_def timer_after_def Let_def split: if_splits)
    moreover obtain opts where "runJob opts (poll_each env cfg others 0 due) s2 = (r, s')"
      using assms due False trace by (auto simp: pollDueDevices_def)
    from runJob_total [OF this, of "\<exists>k < length due. stops (others k)"] poll_each_outcome [of env cfg others 0 due]
    have "timer_after (\<exists>k < length due. stops (others k)) s2 s' \<and> r = Inr ()" by simp
    ultimately show ?thesis using kept1 due timer_kept_then by (metis fst_conv)
  qed
qed

text \<open>A \<open>stop\<close> while a tick awaits: among the calls that run at one of its awaits.\<close>

definition stopped_during :: "(nat \<Rightarrow> poller_call list) \<Rightarrow> 'w app \<Rightarrow> bool" where
  "stopped_during others s \<longleftrightarrow> (\<exists>k \<le> length (fst (dueDevices s)). stops (others k))"

text \<open>
  Property C17. A tick never rejects, whatever the devices and the storage do and whatever other calls of the poller
  run at its awaits: failures become back-off. It ends with the guard released, and it arms the next timer exactly
  when the poller was not stopped before it or while it ran, so a stop is never undone; a second tick that fires
  while one runs does nothing.
\<close>

theorem tick_always_rearms:
  "\<exists>s'. tick env cfg others i s = (Inr (), s')
    \<and> (if po_ticking s then s' = s
       else \<not> po_ticking s' \<and> po_timer s' = (if po_timer s = None \<or> stopped_during others s then None else Some i))"
proof (cases "po_ticking s")
  case False
  let ?s = "s\<lparr>po_ticking := True\<rparr>" and ?n = "length (fst (dueDevices s))"
  have due: "fst (dueDevices ?s) = fst (dueDevices s)" by (simp add: dueDevices_def split: prod.splits)
  obtain r s1 where run: "awaited (others ?n) (pollDueDevices env cfg others i) ?s = (r, s1)" by (meson surj_pair)
  have "timer_after ((\<exists>k < ?n. stops (others k)) \<or> stops (others ?n)) ?s s1 \<and> fst (pollDueDevices env cfg others i ?s) = r"
    by (rule awaited_timer [OF run]) (metis due pollDueDevices_outcome)
  moreover have "fst (pollDueDevices env cfg others i ?s) = Inr ()" by (metis fst_conv pollDueDevices_outcome surj_pair)
  moreover have "(\<exists>k < ?n. stops (others k)) \<or> stops (others ?n) \<longleftrightarrow> stopped_during others s"
    by (auto simp: stopped_during_def le_less)
  ultimately show ?thesis using False run
    by (auto simp: tick_def timer_after_def scheduleNext_def Let_def split: option.splits)
qed (simp add: tick_def)

subsection \<open>A sample poller\<close>

definition sample_app :: "unit app" where
  "sample_app = \<lparr>te_open = [], te_ended = [], te_metrics = [], br_world = (), br_registry = [],
     br_unresolvedLogged = [], br_log = [], br_received = [],
     po_timer = Some 5000, po_ticking = False, po_listening = True,
     po_subscriptions = [(''d'', [''a'', ''b''])], po_lastValues = [(''d:a'', Some (JNum 1))],
     po_errorCounts = [], po_skipCycles = [(''d'', 2)], po_lastTracedAt = 0\<rparr>"

definition sample_polling :: polling_config where
  "sample_polling = \<lparr>pl_enabled = True, pl_intervalMs = 5000, pl_dispatchOnChange = True,
     pl_maxErrorCount = Some 2, pl_errorSkipCycles = Some 7, pl_traceIntervalMs = None\<rparr>"

definition sample_result :: "string \<Rightarrow> int \<Rightarrow> int \<Rightarrow> keyed_result" where
  "sample_result k v code = \<lparr>kr_key = k, kr_siid = 2, kr_piid = 1, kr_source = ''spec'', kr_value = Some (JNum v),
     kr_code = JNum code\<rparr>"


lemma failure_streak_witness:
  "map_of (po_skipCycles (fold (on_device_failed (Some sample_polling) ''d'') [NotFound ''x'', NotFound ''y''] sample_app)) ''d'' = Some 7"
proof -
  have "config_or pl_maxErrorCount 3 (Some sample_polling) = int 2" "map_of (po_errorCounts sample_app) ''d'' = None"
    "config_or pl_errorSkipCycles 20 (Some sample_polling) = 7"
    by (simp_all add: config_or_def sample_polling_def sample_app_def)
  with failure_streak [OF this(1) _ this(2) refl, of "[NotFound ''x'', NotFound ''y'']"] show ?thesis by simp
qed

lemma backoff_cycles_witness:
  "(''d'', [''a'', ''b'']) \<in> set (fst (dueDevices (((\<lambda>s. snd (dueDevices s)) ^^ 2) sample_app)))
   \<and> (''d'', [''a'', ''b'']) \<notin> set (fst (dueDevices (((\<lambda>s. snd (dueDevices s)) ^^ 1) sample_app)))"
proof -
  have pre: "distinct (map fst (po_subscriptions sample_app))" "(''d'', [''a'', ''b'']) \<in> set (po_subscriptions sample_app)"
    "map_of (po_skipCycles sample_app) ''d'' = Some (int 2)"
    by (simp_all add: sample_app_def)
  from backoff_cycles [OF pre, of 2] backoff_cycles [OF pre, of 1] show ?thesis by simp
qed

end
