(* ===== verification/Storage.thy ===== *)
theory Storage
  imports Poller
begin

text \<open>
  The file-backed storage of the bridge: the three repositories
  (\<^verbatim>\<open>storage/device-local-storage\<close>, \<^verbatim>\<open>storage/notification-local-storage\<close>,
  \<^verbatim>\<open>storage/model-property-override\<close>) and the services over them. A file that does not exist reads
  as an empty list. The text of a file and the failures of the file system are left out: the content
  is the list of records \<^verbatim>\<open>Serializer\<close> reads back. \<^verbatim>\<open>crypto.randomUUID()\<close> takes the next of a
  sequence of identifiers; that they differ is part of the well-formedness of the state.
\<close>

record files =
  fs_devices :: "device_cache list option"
  fs_notifications :: "notification list option"
  fs_overrides :: "model_override list option"
  fs_uuid :: "nat \<Rightarrow> string"
  fs_issued :: nat
  fs_clock :: int

definition randomUUID :: "files \<Rightarrow> string \<times> files" where
  "randomUUID fs = (fs_uuid fs (fs_issued fs), fs\<lparr>fs_issued := Suc (fs_issued fs)\<rparr>)"

definition content :: "'a list option \<Rightarrow> 'a list" where
  "content file = (case file of None \<Rightarrow> [] | Some xs \<Rightarrow> xs)"

subsection \<open>Devices\<close>

definition dev_read :: "files \<Rightarrow> device_cache list" where
  "dev_read fs = content (fs_devices fs)"

definition dev_getById :: "string \<Rightarrow> files \<Rightarrow> device_cache option" where
  "dev_getById i fs = find (\<lambda>d. dc_id d = i) (dev_read fs)"

definition dev_getByDeviceId :: "int \<Rightarrow> files \<Rightarrow> device_cache option" where
  "dev_getByDeviceId i fs = find (\<lambda>d. dc_deviceId d = i) (dev_read fs)"

text \<open>A write replaces the file by the list read before, extended: the two halves of \<open>create\<close>.\<close>

definition dev_create_from :: "device_cache list \<Rightarrow> device_cache \<Rightarrow> files \<Rightarrow> device_cache \<times> files" where
  "dev_create_from devices dto fs =
     (let (i, fs1) = randomUUID fs; persisted = dto\<lparr>dc_id := i, dc_createdAt := fs_clock fs, dc_updatedAt := fs_clock fs\<rparr>
      in (persisted, fs1\<lparr>fs_devices := Some (devices @ [persisted])\<rparr>))"

definition dev_create :: "device_cache \<Rightarrow> files \<Rightarrow> device_cache \<times> files" where
  "dev_create dto fs = dev_create_from (dev_read fs) dto fs"

fun replace_first :: "('a \<Rightarrow> bool) \<Rightarrow> 'a \<Rightarrow> 'a list \<Rightarrow> 'a list" where
  "replace_first P y [] = []"
| "replace_first P y (x # xs) = (if P x then y # xs else x # replace_first P y xs)"

text \<open>\<^verbatim>\<open>devices[index] = persisted\<close>: with index -1 no element of the array changes.\<close>

definition dev_update :: "device_cache \<Rightarrow> files \<Rightarrow> device_cache \<times> files" where
  "dev_update dto fs =
     (let persisted = dto\<lparr>dc_updatedAt := fs_clock fs\<rparr>
      in (persisted, fs\<lparr>fs_devices := Some (replace_first (\<lambda>d. dc_id d = dc_id dto) persisted (dev_read fs))\<rparr>))"

definition dev_delete :: "string \<Rightarrow> files \<Rightarrow> files" where
  "dev_delete i fs = fs\<lparr>fs_devices := Some (filter (\<lambda>d. dc_id d \<noteq> i) (dev_read fs))\<rparr>"

subsection \<open>Notification subscriptions\<close>

definition not_read :: "files \<Rightarrow> notification list" where
  "not_read fs = content (fs_notifications fs)"

definition not_getById :: "string \<Rightarrow> files \<Rightarrow> notification option" where
  "not_getById i fs = find (\<lambda>n. no_id n = i) (not_read fs)"

definition not_getAllByDeviceId :: "string \<Rightarrow> files \<Rightarrow> notification list" where
  "not_getAllByDeviceId d fs = filter (\<lambda>n. no_deviceId n = d) (not_read fs)"

definition not_create :: "string \<Rightarrow> string \<Rightarrow> files \<Rightarrow> notification \<times> files" where
  "not_create d property fs =
     (let items = not_read fs; (i, fs1) = randomUUID fs;
          created = \<lparr>no_id = i, no_createdAt = fs_clock fs, no_updatedAt = fs_clock fs, no_deviceId = d, no_property = property\<rparr>
      in (created, fs1\<lparr>fs_notifications := Some (items @ [created])\<rparr>))"

definition not_deleteById :: "string \<Rightarrow> files \<Rightarrow> files" where
  "not_deleteById i fs = fs\<lparr>fs_notifications := Some (filter (\<lambda>n. no_id n \<noteq> i) (not_read fs))\<rparr>"

definition not_deleteAllByDeviceId :: "string \<Rightarrow> files \<Rightarrow> files" where
  "not_deleteAllByDeviceId d fs = fs\<lparr>fs_notifications := Some (filter (\<lambda>n. no_deviceId n \<noteq> d) (not_read fs))\<rparr>"

subsection \<open>Property overrides\<close>

definition ovr_read :: "files \<Rightarrow> model_override list" where
  "ovr_read fs = content (fs_overrides fs)"

definition ovr_getById :: "string \<Rightarrow> files \<Rightarrow> model_override option" where
  "ovr_getById i fs = find (\<lambda>v. ov_id v = i) (ovr_read fs)"

definition ovr_getByModel :: "string \<Rightarrow> files \<Rightarrow> model_override list" where
  "ovr_getByModel model fs = filter (\<lambda>v. ov_model v = model) (ovr_read fs)"

definition ovr_create :: "model_override \<Rightarrow> files \<Rightarrow> model_override \<times> files" where
  "ovr_create dto fs =
     (let items = ovr_read fs; (i, fs1) = randomUUID fs;
          created = dto\<lparr>ov_id := i, ov_createdAt := fs_clock fs, ov_updatedAt := fs_clock fs\<rparr>
      in (created, fs1\<lparr>fs_overrides := Some (items @ [created])\<rparr>))"

definition ovr_delete :: "string \<Rightarrow> files \<Rightarrow> files" where
  "ovr_delete i fs = fs\<lparr>fs_overrides := Some (filter (\<lambda>v. ov_id v \<noteq> i) (ovr_read fs))\<rparr>"

subsection \<open>The contract of a repository\<close>

lemma find_append: "find P (xs @ ys) = (case find P xs of Some x \<Rightarrow> Some x | None \<Rightarrow> find P ys)"
  by (induction xs) auto

lemma find_filter_implied: "(\<And>x. P x \<Longrightarrow> Q x) \<Longrightarrow> find P (filter Q xs) = find P xs"
  by (induction xs) auto

locale record_store =
  fixes rows :: "'s \<Rightarrow> 'r list"
    and ident :: "'r \<Rightarrow> string"
    and create :: "'d \<Rightarrow> 's \<Rightarrow> 'r \<times> 's"
    and remove :: "string \<Rightarrow> 's \<Rightarrow> 's"
    and invar :: "'s \<Rightarrow> bool"
  assumes created: "invar s \<Longrightarrow> create d s = (r, s') \<Longrightarrow>
      rows s' = rows s @ [r] \<and> ident r \<notin> ident ` set (rows s) \<and> invar s'"
    and removed: "invar s \<Longrightarrow> rows (remove i s) = filter (\<lambda>r. ident r \<noteq> i) (rows s) \<and> invar (remove i s)"
    and idents: "invar s \<Longrightarrow> distinct (map ident (rows s))"
begin

lemma find_created:
  assumes "invar s" and "create d s = (r, s')"
  shows "find (\<lambda>x. ident x = ident r) (rows s') = Some r"
proof -
  have "find (\<lambda>x. ident x = ident r) (rows s) = None"
    using created [OF assms] by (auto simp: find_None_iff image_iff)
  then show ?thesis using created [OF assms] by (simp add: find_append)
qed

lemma find_other:
  "invar s \<Longrightarrow> create d s = (r, s') \<Longrightarrow> i \<noteq> ident r \<Longrightarrow> find (\<lambda>x. ident x = i) (rows s') = find (\<lambda>x. ident x = i) (rows s)"
  using created [of s d r s'] by (auto simp: find_append split: option.splits)

lemma find_removed: "invar s \<Longrightarrow> find (\<lambda>x. ident x = i) (rows (remove i s)) = None"
  using removed [of s i] by (auto simp: find_None_iff)

lemma find_kept:
  "invar s \<Longrightarrow> i' \<noteq> i \<Longrightarrow> find (\<lambda>x. ident x = i') (rows (remove i s)) = find (\<lambda>x. ident x = i') (rows s)"
  using removed [of s i] by (auto simp: intro!: find_filter_implied)

lemma records_apart:
  assumes "invar s"
  shows "(case create d s of (r, s') \<Rightarrow>
        find (\<lambda>x. ident x = i) (rows s') = (if i = ident r then Some r else find (\<lambda>x. ident x = i) (rows s)) \<and> invar s')
    \<and> find (\<lambda>x. ident x = i) (rows (remove j s)) = (if i = j then None else find (\<lambda>x. ident x = i) (rows s))
    \<and> invar (remove j s)"
proof -
  obtain r s' where c: "create d s = (r, s')" by (meson surj_pair)
  show ?thesis
    using created [OF assms c] find_created [OF assms c] find_other [OF assms c, of i]
      removed [OF assms, of j] find_removed [OF assms, of j] find_kept [OF assms, of i j]
    by (cases "i = ident r"; cases "i = j") (simp_all add: c)
qed

lemma remove_create:
  assumes "invar s" and "create d s = (r, s')"
  shows "rows (remove (ident r) s') = rows s"
proof -
  have "filter (\<lambda>x. ident x \<noteq> ident r) (rows s) = rows s"
    using created [OF assms] by (intro filter_True) (auto simp: image_iff)
  then show ?thesis using created [OF assms] removed [of s' "ident r"] by simp
qed

end

definition files_ok :: "files \<Rightarrow> bool" where
  "files_ok fs \<longleftrightarrow> inj (fs_uuid fs)
     \<and> dc_id ` set (dev_read fs) \<subseteq> fs_uuid fs ` {..<fs_issued fs} \<and> distinct (map dc_id (dev_read fs))
     \<and> no_id ` set (not_read fs) \<subseteq> fs_uuid fs ` {..<fs_issued fs} \<and> distinct (map no_id (not_read fs))
     \<and> ov_id ` set (ovr_read fs) \<subseteq> fs_uuid fs ` {..<fs_issued fs} \<and> distinct (map ov_id (ovr_read fs))"

lemma uuid_fresh: "files_ok fs \<Longrightarrow> fs_uuid fs (fs_issued fs) \<notin> fs_uuid fs ` {..<fs_issued fs}"
  by (auto simp: files_ok_def dest: injD)

lemma issued_mono: "fs_uuid fs ` {..<fs_issued fs} \<subseteq> fs_uuid fs ` {..<Suc (fs_issued fs)}"
  by auto

lemma read_simps [simp]:
  "dev_read (fs\<lparr>fs_devices := Some ds\<rparr>) = ds" "dev_read (fs\<lparr>fs_notifications := x\<rparr>) = dev_read fs"
  "dev_read (fs\<lparr>fs_overrides := y\<rparr>) = dev_read fs" "dev_read (fs\<lparr>fs_issued := n\<rparr>) = dev_read fs"
  "not_read (fs\<lparr>fs_notifications := Some ns\<rparr>) = ns" "not_read (fs\<lparr>fs_devices := z\<rparr>) = not_read fs"
  "not_read (fs\<lparr>fs_overrides := y\<rparr>) = not_read fs" "not_read (fs\<lparr>fs_issued := n\<rparr>) = not_read fs"
  "ovr_read (fs\<lparr>fs_overrides := Some os\<rparr>) = os" "ovr_read (fs\<lparr>fs_devices := z\<rparr>) = ovr_read fs"
  "ovr_read (fs\<lparr>fs_notifications := x\<rparr>) = ovr_read fs" "ovr_read (fs\<lparr>fs_issued := n\<rparr>) = ovr_read fs"
  by (simp_all add: dev_read_def not_read_def ovr_read_def content_def)

interpretation devices: record_store dev_read dc_id dev_create dev_delete files_ok
proof
  fix s d r s' assume ok: "files_ok s" and c: "dev_create d s = (r, s')"
  have r: "dc_id r = fs_uuid s (fs_issued s)" and s': "s' = s\<lparr>fs_issued := Suc (fs_issued s), fs_devices := Some (dev_read s @ [r])\<rparr>"
    using c by (auto simp: dev_create_def dev_create_from_def randomUUID_def Let_def)
  show "dev_read s' = dev_read s @ [r] \<and> dc_id r \<notin> dc_id ` set (dev_read s) \<and> files_ok s'"
    using ok uuid_fresh [OF ok] issued_mono [of s] r by (auto simp: s' files_ok_def)
qed (auto simp: files_ok_def dev_delete_def distinct_map_filter)

interpretation notifications: record_store not_read no_id "\<lambda>(d, p). not_create d p" not_deleteById files_ok
proof
  fix s and d :: "string \<times> string" and r s' assume ok: "files_ok s" and c: "(case d of (d, p) \<Rightarrow> not_create d p) s = (r, s')"
  have r: "no_id r = fs_uuid s (fs_issued s)" and s': "s' = s\<lparr>fs_issued := Suc (fs_issued s), fs_notifications := Some (not_read s @ [r])\<rparr>"
    using c by (auto simp: not_create_def randomUUID_def Let_def split: prod.splits)
  show "not_read s' = not_read s @ [r] \<and> no_id r \<notin> no_id ` set (not_read s) \<and> files_ok s'"
    using ok uuid_fresh [OF ok] issued_mono [of s] r by (auto simp: s' files_ok_def)
qed (auto simp: files_ok_def not_deleteById_def distinct_map_filter)

interpretation overrides: record_store ovr_read ov_id ovr_create ovr_delete files_ok
proof
  fix s d r s' assume ok: "files_ok s" and c: "ovr_create d s = (r, s')"
  have r: "ov_id r = fs_uuid s (fs_issued s)" and s': "s' = s\<lparr>fs_issued := Suc (fs_issued s), fs_overrides := Some (ovr_read s @ [r])\<rparr>"
    using c by (auto simp: ovr_create_def randomUUID_def Let_def)
  show "ovr_read s' = ovr_read s @ [r] \<and> ov_id r \<notin> ov_id ` set (ovr_read s) \<and> files_ok s'"
    using ok uuid_fresh [OF ok] issued_mono [of s] r by (auto simp: s' files_ok_def)
qed (auto simp: files_ok_def ovr_delete_def distinct_map_filter)

text \<open>
  The repositories keep their records apart: after a create every lookup by identifier
  finds the new record under its own fresh identifier and every other record as before, and after a
  delete the identifier finds nothing and every other one what it found before.
\<close>

theorem repositories_keep_records:
  assumes "files_ok fs"
  shows "(case dev_create d fs of (r, fs') \<Rightarrow>
        dev_getById i fs' = (if i = dc_id r then Some r else dev_getById i fs) \<and> files_ok fs')
    \<and> dev_getById i (dev_delete j fs) = (if i = j then None else dev_getById i fs) \<and> files_ok (dev_delete j fs)
    \<and> (case not_create e p fs of (n, fs') \<Rightarrow>
        not_getById i fs' = (if i = no_id n then Some n else not_getById i fs) \<and> files_ok fs')
    \<and> not_getById i (not_deleteById j fs) = (if i = j then None else not_getById i fs) \<and> files_ok (not_deleteById j fs)
    \<and> (case ovr_create v fs of (x, fs') \<Rightarrow>
        ovr_getById i fs' = (if i = ov_id x then Some x else ovr_getById i fs) \<and> files_ok fs')
    \<and> ovr_getById i (ovr_delete j fs) = (if i = j then None else ovr_getById i fs) \<and> files_ok (ovr_delete j fs)"
  using devices.records_apart [OF assms, where d = d and i = i and j = j]
    notifications.records_apart [OF assms, where d = "(e, p)" and i = i and j = j]
    overrides.records_apart [OF assms, where d = v and i = i and j = j]
  unfolding dev_getById_def not_getById_def ovr_getById_def prod.case by (elim conjE) (intro conjI)

text \<open>
  A create reads the file and then replaces it, and nothing makes the two one step.
  When two requests both read before either writes, both are answered with the record they created,
  and the file keeps only the second one.
\<close>

theorem concurrent_create_loses_one:
  assumes "files_ok fs" and "seen = dev_read fs"
    and "dev_create_from seen d1 fs = (r1, fs1)" and "dev_create_from seen d2 fs1 = (r2, fs2)"
  shows "dev_read fs2 = seen @ [r2] \<and> dc_id r1 \<noteq> dc_id r2 \<and> dev_getById (dc_id r1) fs2 = None"
proof -
  have "inj (fs_uuid fs)" using assms(1) by (simp add: files_ok_def)
  then have "fs_uuid fs (fs_issued fs) \<noteq> fs_uuid fs (Suc (fs_issued fs))" by (simp add: inj_eq)
  then have "dc_id r1 \<noteq> dc_id r2"
    using assms(3,4) by (auto simp: dev_create_from_def randomUUID_def Let_def)
  moreover have "dc_id r1 \<notin> dc_id ` set seen"
    using uuid_fresh [OF assms(1)] assms(1-3)
    by (auto simp: dev_create_from_def randomUUID_def Let_def files_ok_def)
  moreover have "dev_read fs2 = seen @ [r2]"
    using assms(4) by (auto simp: dev_create_from_def randomUUID_def Let_def)
  ultimately show ?thesis by (auto simp: dev_getById_def find_None_iff image_iff)
qed

lemma replace_first_absent: "\<forall>x \<in> set xs. \<not> P x \<Longrightarrow> replace_first P y xs = xs"
  by (induction xs) auto

text \<open>
  An update of a record the file does not have is answered as if it had been stored:
  the record is returned with a new time of update, and the file does not contain it.
\<close>

theorem update_of_unknown_is_silent:
  assumes "dev_getById (dc_id dto) fs = None"
  shows "\<exists>fs'. dev_update dto fs = (dto\<lparr>dc_updatedAt := fs_clock fs\<rparr>, fs') \<and> dev_read fs' = dev_read fs"
  using assms by (auto simp: dev_update_def Let_def dev_getById_def find_None_iff intro!: replace_first_absent)

subsection \<open>Sample files\<close>

definition sample_files :: files where
  "sample_files = \<lparr>fs_devices = None, fs_notifications = None, fs_overrides = None,
     fs_uuid = (\<lambda>n. replicate n (CHR ''u'')), fs_issued = 0, fs_clock = 7\<rparr>"

lemma sample_files_ok: "files_ok sample_files"
  by (auto simp: files_ok_def sample_files_def dev_read_def not_read_def ovr_read_def content_def inj_def)

lemma repositories_keep_records_witness:
  "case dev_create sample_cache sample_files of (r, fs') \<Rightarrow> dev_getById (dc_id r) fs' = Some r \<and> files_ok fs'"
  using repositories_keep_records [where d = sample_cache and i = "dc_id (fst (dev_create sample_cache sample_files))",
      OF sample_files_ok]
  by (cases "dev_create sample_cache sample_files") simp

lemma concurrent_create_loses_one_witness:
  "\<exists>r1 fs1 r2 fs2. dev_create_from [] sample_cache sample_files = (r1, fs1)
     \<and> dev_create_from [] sample_cache fs1 = (r2, fs2) \<and> dev_getById (dc_id r1) fs2 = None \<and> length (dev_read fs2) = 1"
proof -
  obtain r1 fs1 where c1: "dev_create_from [] sample_cache sample_files = (r1, fs1)" by (meson surj_pair)
  obtain r2 fs2 where c2: "dev_create_from [] sample_cache fs1 = (r2, fs2)" by (meson surj_pair)
  have seen: "[] = dev_read sample_files" by (simp add: dev_read_def content_def sample_files_def)
  from concurrent_create_loses_one [OF sample_files_ok seen c1 c2] c1 c2 show ?thesis by auto
qed

lemma update_of_unknown_is_silent_witness:
  "\<exists>fs'. dev_update sample_cache sample_files = (sample_cache\<lparr>dc_updatedAt := 7\<rparr>, fs') \<and> dev_read fs' = []"
proof -
  have "dev_getById (dc_id sample_cache) sample_files = None"
    by (simp add: dev_getById_def dev_read_def content_def sample_files_def)
  from update_of_unknown_is_silent [OF this] show ?thesis
    by (simp add: sample_files_def dev_read_def content_def)
qed

end
