(* ===== verification/Handlers.thy ===== *)
theory Handlers
  imports Storage
begin

text \<open>
  The request handlers of the bridge (\<^verbatim>\<open>handlers/\<close>), the discovery service
  (\<^verbatim>\<open>services/DeviceDiscoveryService.ts\<close>) and the facades that route storage to the file services
  (\<^verbatim>\<open>services/DeviceStorageService.ts\<close>, \<^verbatim>\<open>NotificationStorageService.ts\<close>,
  \<^verbatim>\<open>ModelPropertyOverrideService.ts\<close>), for a configuration without MongoDB. The outside world of the
  bridge is the files and the network; the two requests to miot-spec.org are parameters.
\<close>

record 'n host =
  h_files :: files
  h_net :: 'n

type_synonym ('a, 'n) handler = "('a, 'n host app) effect"

record 'n host_env =
  he_runtime :: runtime
  he_network :: "'n network"
  he_mapEnum :: "enum \<Rightarrow> enum \<Rightarrow> string \<Rightarrow> string"
  he_property_order :: "spec_v2 \<Rightarrow> nat list"
  he_action_order :: "spec_v2 \<Rightarrow> nat list"
  he_instances :: "(spec_instance list, 'n) effect"
  he_instance :: "string \<Rightarrow> (spec_v2, 'n) effect"
  he_baseURL :: "string option"

subsection \<open>The storage services\<close>

definition on_host :: "('a, 'w) effect \<Rightarrow> ('a, ('w, 'z) bridge_scheme) effect" where
  "on_host = within br_world (\<lambda>w s. s\<lparr>br_world := w\<rparr>)"

definition on_files :: "(files \<Rightarrow> 'a \<times> files) \<Rightarrow> ('a, 'n host) effect" where
  "on_files f w = (case f (h_files w) of (a, fs) \<Rightarrow> (Inr a, w\<lparr>h_files := fs\<rparr>))"

definition reading :: "(files \<Rightarrow> 'a) \<Rightarrow> ('a, 'n host) effect" where
  "reading f w = (Inr (f (h_files w)), w)"

text \<open>The mappers of \<^verbatim>\<open>FileDeviceMapper\<close>: the raw document is stored in its DTO form.\<close>

definition device_of_dto :: "(enum \<Rightarrow> enum \<Rightarrow> string \<Rightarrow> string) \<Rightarrow> device_cache \<Rightarrow> device_cache" where
  "device_of_dto mapEnum dto = dto\<lparr>dc_rawSpec := mapDTOToModel mapEnum (dc_rawSpec dto)\<rparr>"

definition dto_of_device :: "(enum \<Rightarrow> enum \<Rightarrow> string \<Rightarrow> string) \<Rightarrow> device_cache \<Rightarrow> device_cache" where
  "dto_of_device mapEnum d = d\<lparr>dc_rawSpec := mapModelToDTO mapEnum (dc_rawSpec d)\<rparr>"

definition storage_getAll :: "'n host_env \<Rightarrow> (device_cache list, 'n host) effect" where
  "storage_getAll env = reading (\<lambda>fs. map (device_of_dto (he_mapEnum env)) (dev_read fs))"

definition storage_getById :: "'n host_env \<Rightarrow> string \<Rightarrow> (device_cache option, 'n host) effect" where
  "storage_getById env i = reading (\<lambda>fs. map_option (device_of_dto (he_mapEnum env)) (dev_getById i fs))"

definition storage_getByDeviceId :: "'n host_env \<Rightarrow> int \<Rightarrow> (device_cache option, 'n host) effect" where
  "storage_getByDeviceId env i = reading (\<lambda>fs. map_option (device_of_dto (he_mapEnum env)) (dev_getByDeviceId i fs))"

definition storage_create :: "'n host_env \<Rightarrow> device_cache \<Rightarrow> (device_cache, 'n host) effect" where
  "storage_create env d = on_files (\<lambda>fs. case dev_create (dto_of_device (he_mapEnum env) d) fs of
     (dto, fs') \<Rightarrow> (device_of_dto (he_mapEnum env) dto, fs'))"

definition storage_update :: "'n host_env \<Rightarrow> device_cache \<Rightarrow> (device_cache, 'n host) effect" where
  "storage_update env d = on_files (\<lambda>fs. case dev_update (dto_of_device (he_mapEnum env) d) fs of
     (dto, fs') \<Rightarrow> (device_of_dto (he_mapEnum env) dto, fs'))"

definition storage_delete :: "string \<Rightarrow> (unit, 'n host) effect" where
  "storage_delete i = on_files (\<lambda>fs. ((), dev_delete i fs))"

definition ModelPropertyOverrideAccessDTO :: enum where
  "ModelPropertyOverrideAccessDTO = [(''Read'', ''READ''), (''Write'', ''WRITE''), (''Notify'', ''NOTIFY'')]"

definition override_of_dto :: "(enum \<Rightarrow> enum \<Rightarrow> string \<Rightarrow> string) \<Rightarrow> model_override \<Rightarrow> model_override" where
  "override_of_dto mapEnum dto =
     dto\<lparr>ov_access := map (mapEnum ModelPropertyOverrideAccessDTO PropertyAccess) (ov_access dto),
         ov_values := map map_value (ov_values dto)\<rparr>"

definition dto_of_override :: "(enum \<Rightarrow> enum \<Rightarrow> string \<Rightarrow> string) \<Rightarrow> model_override \<Rightarrow> model_override" where
  "dto_of_override mapEnum v =
     v\<lparr>ov_access := map (mapEnum PropertyAccess ModelPropertyOverrideAccessDTO) (ov_access v),
       ov_values := map map_value (ov_values v)\<rparr>"

definition overrides_getAll :: "'n host_env \<Rightarrow> (model_override list, 'n host) effect" where
  "overrides_getAll env = reading (\<lambda>fs. map (override_of_dto (he_mapEnum env)) (ovr_read fs))"

definition overrides_getByModel :: "'n host_env \<Rightarrow> string \<Rightarrow> (model_override list, 'n host) effect" where
  "overrides_getByModel env model = reading (\<lambda>fs. map (override_of_dto (he_mapEnum env)) (ovr_getByModel model fs))"

definition overrides_create :: "'n host_env \<Rightarrow> model_override \<Rightarrow> (model_override, 'n host) effect" where
  "overrides_create env v = on_files (\<lambda>fs. case ovr_create (dto_of_override (he_mapEnum env) v) fs of
     (dto, fs') \<Rightarrow> (override_of_dto (he_mapEnum env) dto, fs'))"

definition overrides_delete :: "string \<Rightarrow> (unit, 'n host) effect" where
  "overrides_delete i = on_files (\<lambda>fs. ((), ovr_delete i fs))"

text \<open>The sockets and the requests of the bridge act on the network and leave its files alone.\<close>

definition on_network :: "'n network \<Rightarrow> 'n host network" where
  "on_network net = \<lparr>net_exchange = (\<lambda>a p raw w. case net_exchange net a p raw (h_net w) of (evs, n) \<Rightarrow> (evs, w\<lparr>h_net := n\<rparr>)),
     net_now = (\<lambda>w. net_now net (h_net w))\<rparr>"

definition requesting :: "('a, 'n) effect \<Rightarrow> ('a, 'n host) effect" where
  "requesting = within h_net (\<lambda>n w. w\<lparr>h_net := n\<rparr>)"

text \<open>The command service of a bridge over this storage.\<close>

definition command_env :: "'n host_env \<Rightarrow> 'n host bridge_env" where
  "command_env env =
     \<lparr>env_runtime = he_runtime env, env_network = on_network (he_network env), env_mapEnum = he_mapEnum env,
      env_property_order = he_property_order env, env_action_order = he_action_order env,
      env_getById = storage_getById env, env_getByDeviceId = storage_getByDeviceId env,
      env_getByModel = overrides_getByModel env\<rparr>"

definition simplify_for :: "'n host_env \<Rightarrow> spec_v2 \<Rightarrow> model_override list \<Rightarrow> thrown + simplified_spec" where
  "simplify_for env raw overrides =
     simplify_spec (he_mapEnum env) (he_property_order env raw) (he_action_order env raw) raw overrides"

subsection \<open>Notifications\<close>

definition NotificationGetAll :: "string \<Rightarrow> (notification list, 'n) handler" where
  "NotificationGetAll deviceId = on_host (reading (not_getAllByDeviceId deviceId))"

fun check_subscribable :: "string \<Rightarrow> simplified_spec \<Rightarrow> string list \<Rightarrow> thrown + unit" where
  "check_subscribable deviceId spec [] = Inr ()"
| "check_subscribable deviceId spec (key # keys) =
     (case map_of (simp_properties spec) key of
        None \<Rightarrow> Inl (BadRequest (''Property '' @ quoted key @ '' not found in spec for device '' @ deviceId @ ''.''))
      | Some prop \<Rightarrow>
          if ''READ'' \<notin> set (mp_access prop) \<and> ''WRITE'' \<notin> set (mp_access prop)
          then Inl (BadRequest (''Property '' @ quoted key @ '' does not have READ or WRITE access and cannot be subscribed.''))
          else check_subscribable deviceId spec keys)"

fun create_rows :: "string \<Rightarrow> string list \<Rightarrow> (notification list, 'n) handler" where
  "create_rows deviceId [] = returning []"
| "create_rows deviceId (property # properties) =
     and_then (on_host (on_files (not_create deviceId property))) (\<lambda>n.
     and_then (create_rows deviceId properties) (\<lambda>ns. returning (n # ns)))"

definition NotificationPost :: "'n host_env \<Rightarrow> string \<Rightarrow> string list \<Rightarrow> (notification list, 'n) handler" where
  "NotificationPost env deviceId properties =
     and_then (on_host (storage_getById env deviceId)) (\<lambda>found.
     and_then (require_found (''Device '' @ deviceId @ '' not found.'') found) (\<lambda>device.
     and_then (on_host (overrides_getByModel env (dc_model device))) (\<lambda>overrides.
     and_then (lifted (simplify_for env (dc_rawSpec device) overrides)) (\<lambda>spec.
     and_then (lifted (check_subscribable deviceId spec properties)) (\<lambda>_.
     and_then (create_rows deviceId properties) (\<lambda>created.
     and_then (doing (addSubscriptions deviceId properties)) (\<lambda>_.
     returning created)))))))"

definition Forbidden :: "string \<Rightarrow> thrown" where "Forbidden message = JsError ''FORBIDDEN'' message"

definition NotificationDelete :: "string \<Rightarrow> string \<Rightarrow> (unit, 'n) handler" where
  "NotificationDelete deviceId i =
     and_then (on_host (reading (not_getById i))) (\<lambda>found.
     and_then (require_found (''Notification '' @ i @ '' not found.'') found) (\<lambda>n.
     if no_deviceId n \<noteq> deviceId
     then throwing (Forbidden (''Notification '' @ i @ '' does not belong to device '' @ deviceId @ ''.''))
     else and_then (on_host (on_files (\<lambda>fs. ((), not_deleteById i fs)))) (\<lambda>_.
          doing (removeSubscription deviceId (no_property n)))))"

definition NotificationDeleteAll :: "string \<Rightarrow> (unit, 'n) handler" where
  "NotificationDeleteAll deviceId =
     and_then (on_host (on_files (\<lambda>fs. ((), not_deleteAllByDeviceId deviceId fs)))) (\<lambda>_.
     doing (removeAllSubscriptions deviceId))"

subsection \<open>Devices\<close>

record discovery =
  di_deviceId :: int
  di_stamp :: int
  di_specUrl :: string
  di_rawSpec :: spec_v2
  di_deviceSpec :: simplified_spec

record device_request =
  req_address :: string
  req_token :: string
  req_model :: string

definition handshake_call :: "string \<Rightarrow> miot_call" where
  "handshake_call address =
     \<lparr>mc_method = MIOT_METHOD_HANDSHAKE, mc_address = address, mc_deviceId = None, mc_attributes = [],
      mc_propertySource = None\<rparr>"

definition fresh_discover :: "'n host_env \<Rightarrow> device_request \<Rightarrow> (discover_result, 'n) handler" where
  "fresh_discover env request =
     on_host (\<lambda>w. case Miot_Device.discover (he_runtime env) (on_network (he_network env))
         (MiotDevice (req_address request) (HexToken (req_token request)) None None None, w) of
       (r, _, w') \<Rightarrow> (r, w'))"

definition discover_device :: "'n host_env \<Rightarrow> device_request \<Rightarrow> (discovery, 'n) handler" where
  "discover_device env request =
     and_then (withMiotCallSpan (handshake_call (req_address request)) (fresh_discover env request)) (\<lambda>hello.
     and_then (on_host (requesting (fetchRaw (he_instances env) (he_instance env) (req_model request)))) (\<lambda>rawDto.
     and_then (on_host (overrides_getByModel env (req_model request))) (\<lambda>overrides.
     and_then (lifted (simplify_for env (mapDTOToModel (he_mapEnum env) rawDto) overrides)) (\<lambda>spec.
     returning \<lparr>di_deviceId = dr_deviceId hello, di_stamp = dr_stamp hello,
       di_specUrl = specUrl (he_baseURL env) (spec_type rawDto),
       di_rawSpec = mapDTOToModel (he_mapEnum env) rawDto, di_deviceSpec = spec\<rparr>))))"

definition new_device :: "device_request \<Rightarrow> discovery \<Rightarrow> device_cache" where
  "new_device request d =
     \<lparr>dc_id = [], dc_createdAt = 0, dc_updatedAt = 0, dc_deviceId = di_deviceId d, dc_address = req_address request,
      dc_token = req_token request, dc_stamp = Some (di_stamp d), dc_model = req_model request,
      dc_specURL = di_specUrl d, dc_stampUpdatedAt = Some 0, dc_rawSpec = di_rawSpec d\<rparr>"

definition DevicePost :: "'n host_env \<Rightarrow> device_request \<Rightarrow> (device_cache \<times> simplified_spec, 'n) handler" where
  "DevicePost env request =
     and_then (discover_device env request) (\<lambda>d.
     and_then (on_host (storage_getByDeviceId env (di_deviceId d))) (\<lambda>existing.
     if existing \<noteq> None
     then throwing (Conflict (''Device with deviceId '' @ show_int (di_deviceId d) @ '' is already registered.''))
     else and_then (on_host (storage_create env (new_device request d))) (\<lambda>saved.
          returning (saved, di_deviceSpec d))))"

text \<open>\<^verbatim>\<open>DeviceDiscoveryHandler\<close>: the address and the token of the request, and nothing is stored.\<close>

definition DeviceDiscovery :: "'n host_env \<Rightarrow> device_request \<Rightarrow> (device_request \<times> int \<times> string \<times> simplified_spec, 'n) handler" where
  "DeviceDiscovery env request =
     and_then (discover_device env request) (\<lambda>d.
     returning (request, di_deviceId d, di_specUrl d, di_deviceSpec d))"

definition DeviceGet :: "'n host_env \<Rightarrow> string \<Rightarrow> (device_cache \<times> simplified_spec, 'n) handler" where
  "DeviceGet env i =
     and_then (on_host (storage_getById env i)) (\<lambda>found.
     and_then (require_found (''Device '' @ i @ '' not found.'') found) (\<lambda>device.
     and_then (on_host (overrides_getByModel env (dc_model device))) (\<lambda>overrides.
     and_then (lifted (simplify_for env (dc_rawSpec device) overrides)) (\<lambda>spec.
     returning (device, spec)))))"

fun with_specs :: "'n host_env \<Rightarrow> device_cache list \<Rightarrow> ((device_cache \<times> simplified_spec) list, 'n) handler" where
  "with_specs env [] = returning []"
| "with_specs env (device # devices) =
     and_then (on_host (overrides_getByModel env (dc_model device))) (\<lambda>overrides.
     and_then (lifted (simplify_for env (dc_rawSpec device) overrides)) (\<lambda>spec.
     and_then (with_specs env devices) (\<lambda>rest. returning ((device, spec) # rest))))"

definition DeviceGetAll :: "'n host_env \<Rightarrow> ((device_cache \<times> simplified_spec) list, 'n) handler" where
  "DeviceGetAll env = and_then (on_host (storage_getAll env)) (with_specs env)"

definition DeviceDelete :: "'n host_env \<Rightarrow> string \<Rightarrow> (unit, 'n) handler" where
  "DeviceDelete env i =
     and_then (on_host (storage_getById env i)) (\<lambda>found.
     and_then (require_found (''Device '' @ i @ '' not found.'') found) (\<lambda>device.
     and_then (NotificationDeleteAll i) (\<lambda>_.
     on_host (storage_delete i))))"

subsection \<open>Overrides\<close>

definition OverrideGetAll :: "'n host_env \<Rightarrow> string option \<Rightarrow> (model_override list, 'n) handler" where
  "OverrideGetAll env model =
     (case model of
        Some m \<Rightarrow> if m = [] then on_host (overrides_getAll env) else on_host (overrides_getByModel env m)
      | None \<Rightarrow> on_host (overrides_getAll env))"

definition OverrideCreate :: "'n host_env \<Rightarrow> model_override \<Rightarrow> (model_override, 'n) handler" where
  "OverrideCreate env request = on_host (overrides_create env request)"

definition OverrideDelete :: "'n host_env \<Rightarrow> string \<Rightarrow> (unit, 'n) handler" where
  "OverrideDelete env i =
     and_then (on_host (overrides_getAll env)) (\<lambda>rows.
     if find (\<lambda>v. ov_id v = i) rows = None
     then throwing (NotFound (''Model property override '' @ i @ '' not found.''))
     else on_host (overrides_delete i))"

subsection \<open>Subscriptions: the rows of the file and the cache of the poller\<close>

abbreviation app_files :: "'n host app \<Rightarrow> files" where
  "app_files s \<equiv> h_files (br_world s)"

lemma on_host_reading [simp]: "on_host (reading f) s = (Inr (f (app_files s)), s)"
  by (simp add: on_host_def within_def reading_def)

definition set_files :: "files \<Rightarrow> 'n host app \<Rightarrow> 'n host app" where
  "set_files fs s = s\<lparr>br_world := (br_world s)\<lparr>h_files := fs\<rparr>\<rparr>"

lemma on_host_files [simp]:
  "on_host (on_files f) s = (case f (app_files s) of (a, fs) \<Rightarrow> (Inr a, set_files fs s))"
  by (simp add: on_host_def within_def on_files_def set_files_def split: prod.splits)

lemma set_files_simps [simp]:
  "app_files (set_files fs s) = fs" "po_subscriptions (set_files fs s) = po_subscriptions s"
  "br_registry (set_files fs s) = br_registry s" "set_files fs (set_files gs s) = set_files fs s"
  "app_files (addSubscriptions d ps s) = app_files s" "app_files (removeSubscription d p s) = app_files s"
  "app_files (removeAllSubscriptions d s) = app_files s" "br_registry (removeAllSubscriptions d s) = br_registry s"
  by (simp_all add: set_files_def addSubscriptions_def removeSubscription_def removeAllSubscriptions_def)

text \<open>The cache as a set of pairs, and the rows of the file as such a set.\<close>

definition cached_pairs :: "'w app \<Rightarrow> (string \<times> string) set" where
  "cached_pairs s = {(d, p). p \<in> set (properties_subscribed d (po_subscriptions s))}"

definition row_pair :: "notification \<Rightarrow> string \<times> string" where
  "row_pair n = (no_deviceId n, no_property n)"

definition stored_pairs :: "'n host app \<Rightarrow> (string \<times> string) set" where
  "stored_pairs s = row_pair ` set (not_read (app_files s))"

lemma subscribed_after_add:
  "set (properties_subscribed d (add_subscriptions d' ps subs)) =
     (if d = d' then set (properties_subscribed d subs) \<union> set ps else set (properties_subscribed d subs))"
  by (auto simp: properties_subscribed_def add_subscriptions_def update_conv')

lemma cached_addSubscriptions: "cached_pairs (addSubscriptions d ps s) = cached_pairs s \<union> {d} \<times> set ps"
  by (auto simp: cached_pairs_def addSubscriptions_def subscribed_after_add split: if_splits)

lemma cached_removeSubscription: "cached_pairs (removeSubscription d p s) = cached_pairs s - {(d, p)}"
  by (auto simp: cached_pairs_def removeSubscription_def remove_subscription_def properties_subscribed_def Let_def
      update_conv' AList.delete_conv' filter_empty_conv split: option.splits if_splits)

lemma cached_removeAll: "cached_pairs (removeAllSubscriptions d s) = cached_pairs s - {d} \<times> UNIV"
  by (auto simp: cached_pairs_def removeAllSubscriptions_def properties_subscribed_def AList.delete_conv'
      split: option.splits if_splits)

lemma cached_set_files [simp]: "cached_pairs (set_files fs s) = cached_pairs s"
  by (simp add: cached_pairs_def)

lemma create_rows_spec:
  assumes "create_rows d ps s = (r, s')"
  shows "\<exists>ns fs. r = Inr ns \<and> map row_pair ns = map (Pair d) ps \<and> s' = set_files fs s
    \<and> not_read fs = not_read (app_files s) @ ns
    \<and> dev_read fs = dev_read (app_files s) \<and> ovr_read fs = ovr_read (app_files s)
    \<and> (files_ok (app_files s) \<longrightarrow> files_ok fs)"
  using assms
proof (induction ps arbitrary: r s s')
  case Nil
  moreover have "s = set_files (app_files s) s" by (simp add: set_files_def)
  ultimately show ?case by force
next
  case (Cons p ps)
  obtain n fs1 where new: "not_create d p (app_files s) = (n, fs1)" by (cases "not_create d p (app_files s)")
  have n: "row_pair n = (d, p)" and rows: "not_read fs1 = not_read (app_files s) @ [n]"
    and devs: "dev_read fs1 = dev_read (app_files s)" "ovr_read fs1 = ovr_read (app_files s)"
    using new by (auto simp: not_create_def randomUUID_def Let_def row_pair_def)
  have ok: "files_ok (app_files s) \<longrightarrow> files_ok fs1"
    using notifications.created [of "app_files s" "(d, p)" n fs1] new by auto
  obtain r2 s2 where rest: "create_rows d ps (set_files fs1 s) = (r2, s2)" by (cases "create_rows d ps (set_files fs1 s)")
  from Cons.IH [OF rest] obtain ns fs where "r2 = Inr ns" "map row_pair ns = map (Pair d) ps" "s2 = set_files fs s"
    "not_read fs = not_read fs1 @ ns" "dev_read fs = dev_read fs1" "ovr_read fs = ovr_read fs1" "files_ok fs1 \<longrightarrow> files_ok fs"
    by auto
  moreover have "r = Inr (n # ns)" "s' = s2" if "r2 = Inr ns"
    using Cons.prems new rest that by (simp_all add: and_then_def)
  ultimately show ?case using n rows devs ok by auto
qed

lemma NotificationPost_spec:
  assumes "NotificationPost env d ps s = (r, s')"
  shows "case r of
      Inl e \<Rightarrow> s' = s
    | Inr ns \<Rightarrow> map row_pair ns = map (Pair d) ps \<and> not_read (app_files s') = not_read (app_files s) @ ns
        \<and> dev_read (app_files s') = dev_read (app_files s) \<and> ovr_read (app_files s') = ovr_read (app_files s)
        \<and> (files_ok (app_files s) \<longrightarrow> files_ok (app_files s')) \<and> cached_pairs s' = cached_pairs s \<union> {d} \<times> set ps"
proof (cases r)
  case (Inl e)
  have "False" if "create_rows d ps t = (Inl e', t')" for t t' e'
    using create_rows_spec [OF that] by auto
  with Inl assms show ?thesis
    by (auto simp: NotificationPost_def and_then_Inl require_found_def lifted_def storage_getById_def
        overrides_getByModel_def split: option.splits sum.splits)
next
  case (Inr ns)
  with assms obtain t where "create_rows d ps s = (Inr ns, t)" and s': "s' = addSubscriptions d ps t"
    by (auto simp: NotificationPost_def and_then_Inr require_found_def lifted_def storage_getById_def
        overrides_getByModel_def split: option.splits sum.splits)
  from create_rows_spec [OF this(1)] Inr show ?thesis by (auto simp: s' cached_addSubscriptions)
qed

lemma find_ident: "find (\<lambda>x. f x = i) xs = Some n \<Longrightarrow> n \<in> set xs \<and> f n = i"
  by (auto simp: find_Some_iff)

lemma NotificationDelete_spec:
  assumes "NotificationDelete d i s = (r, s')"
  shows "case r of
      Inl e \<Rightarrow> s' = s
    | Inr _ \<Rightarrow> \<exists>n \<in> set (not_read (app_files s)). no_id n = i \<and> no_deviceId n = d
        \<and> not_read (app_files s') = filter (\<lambda>m. no_id m \<noteq> i) (not_read (app_files s))
        \<and> dev_read (app_files s') = dev_read (app_files s) \<and> (files_ok (app_files s) \<longrightarrow> files_ok (app_files s'))
        \<and> cached_pairs s' = cached_pairs s - {row_pair n}"
proof (cases r)
  case (Inl e)
  with assms show ?thesis
    by (auto simp: NotificationDelete_def and_then_Inl require_found_def split: option.splits if_splits)
next
  case (Inr u)
  with assms obtain n where n: "not_getById i (app_files s) = Some n" "no_deviceId n = d"
    and s': "s' = removeSubscription d (no_property n) (set_files (not_deleteById i (app_files s)) s)"
    by (auto simp: NotificationDelete_def and_then_Inr require_found_def split: option.splits if_splits)
  from n have "n \<in> set (not_read (app_files s))" "no_id n = i" by (auto simp: not_getById_def dest: find_ident)
  with Inr n(2) notifications.removed [of "app_files s" i] show ?thesis
    by (auto simp: s' not_deleteById_def cached_removeSubscription row_pair_def intro!: bexI [of _ n])
qed

lemma deleteAll_ok: "files_ok fs \<Longrightarrow> files_ok (not_deleteAllByDeviceId d fs)"
  unfolding files_ok_def not_deleteAllByDeviceId_def by (simp add: distinct_map_filter) auto

lemma NotificationDeleteAll_spec:
  assumes "NotificationDeleteAll d s = (r, s')"
  shows "r = Inr () \<and> not_read (app_files s') = filter (\<lambda>m. no_deviceId m \<noteq> d) (not_read (app_files s))
    \<and> dev_read (app_files s') = dev_read (app_files s) \<and> (files_ok (app_files s) \<longrightarrow> files_ok (app_files s'))
    \<and> cached_pairs s' = cached_pairs s - {d} \<times> UNIV \<and> br_registry s' = br_registry s"
  using assms
  using deleteAll_ok [of "app_files s" d]
  by (auto simp: NotificationDeleteAll_def and_then_def cached_removeAll) (auto simp: not_deleteAllByDeviceId_def)

lemma DeviceDelete_spec:
  assumes "DeviceDelete env i s = (r, s')"
  shows "case r of
      Inl e \<Rightarrow> s' = s \<and> dev_getById i (app_files s) = None
    | Inr _ \<Rightarrow> not_read (app_files s') = filter (\<lambda>m. no_deviceId m \<noteq> i) (not_read (app_files s))
        \<and> dev_read (app_files s') = filter (\<lambda>d. dc_id d \<noteq> i) (dev_read (app_files s))
        \<and> (files_ok (app_files s) \<longrightarrow> files_ok (app_files s'))
        \<and> cached_pairs s' = cached_pairs s - {i} \<times> UNIV \<and> br_registry s' = br_registry s"
proof (cases r)
  case (Inl e)
  have "False" if "NotificationDeleteAll i s = (Inl e', t)" for e' t
    using NotificationDeleteAll_spec [OF that] by simp
  with Inl assms show ?thesis
    by (auto simp: DeviceDelete_def and_then_Inl require_found_def storage_getById_def storage_delete_def split: option.splits)
next
  case (Inr u)
  with assms obtain t where all: "NotificationDeleteAll i s = (Inr (), t)"
    and s': "s' = set_files (dev_delete i (app_files t)) t"
    by (auto simp: DeviceDelete_def and_then_Inr require_found_def storage_getById_def storage_delete_def split: option.splits)
  from NotificationDeleteAll_spec [OF all] Inr devices.removed [of "app_files t" i] show ?thesis
    by (auto simp: s' dev_delete_def)
qed

text \<open>Discovery and registration: the network is asked, and the files change only at the end.\<close>

definition host_kept :: "'n host app \<Rightarrow> 'n host app \<Rightarrow> bool" where
  "host_kept s0 s \<longleftrightarrow> app_files s = app_files s0 \<and> po_subscriptions s = po_subscriptions s0 \<and> br_registry s = br_registry s0"

interpretation kept: telemetry_frame "host_kept s0" for s0
  by unfold_locales (simp add: host_kept_def)

lemma host_kept_on_host: "(\<And>w. h_files (snd (m w)) = h_files w) \<Longrightarrow> preserves (host_kept s0) (on_host m)"
  by (auto simp: preserves_def host_kept_def on_host_def within_def split: prod.splits) (metis snd_conv)+

lemma host_kept_pure: "preserves (host_kept s0) (on_host (reading f))" "preserves (host_kept s0) (lifted x)"
  "preserves (host_kept s0) (require_found m v)"
  by (auto simp: preserves_def lifted_def require_found_def split: sum.splits option.splits)

lemma net_exchange_files: "net_exchange (on_network net) a p raw w = (evs, w') \<Longrightarrow> h_files w' = h_files w"
  by (auto simp: on_network_def split: prod.splits)

lemma discover_files: "h_files (snd (snd (Miot_Device.discover rt (on_network net) (MiotDevice a t None d None, w)))) = h_files w"
  by (auto simp: Miot_Device.discover_def handshake_def persistStamp_def MiotDevice_def Let_def
      dest: net_exchange_files split: sum.splits prod.splits option.splits)

lemma discover_device_kept: "preserves (host_kept s0) (discover_device env request)"
  unfolding discover_device_def fresh_discover_def overrides_getByModel_def
proof (intro preserves_and_then kept.kept_withMiotCallSpan host_kept_pure preserves_returning host_kept_on_host)
  show "h_files (snd (case Miot_Device.discover (he_runtime env) (on_network (he_network env))
      (MiotDevice (req_address request) (HexToken (req_token request)) None None None, w) of (r, x, w') \<Rightarrow> (r, w'))) = h_files w" for w
    using discover_files [of "he_runtime env" "he_network env"] by (auto split: prod.splits) (metis snd_conv)
  show "h_files (snd (requesting m w)) = h_files w" for m :: "(spec_v2, 'a) effect" and w
    by (simp add: requesting_def within_def split: prod.splits)
qed

lemma DevicePost_spec:
  assumes "DevicePost env request s = (r, s')"
  shows "po_subscriptions s' = po_subscriptions s \<and> not_read (app_files s') = not_read (app_files s)
    \<and> (files_ok (app_files s) \<longrightarrow> files_ok (app_files s'))
    \<and> (case r of
         Inl e \<Rightarrow> dev_read (app_files s') = dev_read (app_files s)
       | Inr _ \<Rightarrow> \<exists>d. dev_read (app_files s') = dev_read (app_files s) @ [d]
           \<and> dc_deviceId d \<notin> dc_deviceId ` set (dev_read (app_files s)))"
proof -
  obtain x t where disc: "discover_device env request s = (x, t)" by (meson surj_pair)
  have "host_kept s s" by (simp add: host_kept_def)
  from preservesD [OF discover_device_kept this disc]
  have t: "app_files t = app_files s" "po_subscriptions t = po_subscriptions s" by (simp_all add: host_kept_def)
  show ?thesis
  proof (cases x)
    case (Inl e)
    with assms disc t show ?thesis by (auto simp: DevicePost_def)
  next
    case (Inr d)
    show ?thesis
    proof (cases "dev_getByDeviceId (di_deviceId d) (app_files t)")
      case None
      let ?dto = "dto_of_device (he_mapEnum env) (new_device request d)"
      obtain row fs where new: "dev_create ?dto (app_files t) = (row, fs)" by (meson surj_pair)
      have row: "dc_deviceId row = di_deviceId d" "not_read fs = not_read (app_files t)"
        "dev_read fs = dev_read (app_files t) @ [row]"
        using new by (auto simp: dev_create_def dev_create_from_def randomUUID_def Let_def dto_of_device_def new_device_def)
      have s': "s' = set_files fs t" and r: "\<not> isl r"
        using assms disc Inr None new
        by (auto simp: DevicePost_def storage_getByDeviceId_def storage_create_def)
      have fresh: "di_deviceId d \<notin> dc_deviceId ` set (dev_read (app_files t))"
        using None by (auto simp: dev_getByDeviceId_def find_None_iff image_iff)
      show ?thesis using row t s' fresh r devices.created [OF _ new] by (cases r) auto
    next
      case (Some other)
      with assms disc Inr t show ?thesis
        by (auto simp: DevicePost_def storage_getByDeviceId_def)
    qed
  qed
qed

lemma override_requests_spec:
  "snd (OverrideCreate env v s) = s' \<or> snd (OverrideDelete env i s) = s' \<Longrightarrow>
     not_read (app_files s') = not_read (app_files s) \<and> dev_read (app_files s') = dev_read (app_files s)
     \<and> cached_pairs s' = cached_pairs s \<and> (files_ok (app_files s) \<longrightarrow> files_ok (app_files s'))"
proof (elim disjE)
  assume run: "snd (OverrideCreate env v s) = s'"
  obtain row fs where new: "ovr_create (dto_of_override (he_mapEnum env) v) (app_files s) = (row, fs)" by (meson surj_pair)
  have "not_read fs = not_read (app_files s)" "dev_read fs = dev_read (app_files s)"
    using new by (auto simp: ovr_create_def randomUUID_def Let_def)
  with run new overrides.created [OF _ new] show ?thesis by (auto simp: OverrideCreate_def overrides_create_def)
next
  assume run: "snd (OverrideDelete env i s) = s'"
  then have "s' = s \<or> s' = set_files (ovr_delete i (app_files s)) s"
    by (auto simp: OverrideDelete_def overrides_getAll_def overrides_delete_def and_then_def)
  with overrides.removed [of "app_files s" i] show ?thesis by (auto simp: ovr_delete_def)
qed

text \<open>The requests that change what is stored, in any order.\<close>

datatype write_request =
    Register device_request
  | Create_Override model_override
  | Delete_Override string
  | Subscribe string "string list"
  | Unsubscribe string string
  | Unsubscribe_All string
  | Delete_Device string

fun after_request :: "'n host_env \<Rightarrow> write_request \<Rightarrow> 'n host app \<Rightarrow> 'n host app" where
  "after_request env (Register request) s = snd (DevicePost env request s)"
| "after_request env (Create_Override v) s = snd (OverrideCreate env v s)"
| "after_request env (Delete_Override i) s = snd (OverrideDelete env i s)"
| "after_request env (Subscribe d ps) s = snd (NotificationPost env d ps s)"
| "after_request env (Unsubscribe d i) s = snd (NotificationDelete d i s)"
| "after_request env (Unsubscribe_All d) s = snd (NotificationDeleteAll d s)"
| "after_request env (Delete_Device i) s = snd (DeviceDelete env i s)"

text \<open>What one request does to the rows and to the cache.\<close>

lemma after_request_effect:
  assumes "files_ok (app_files s)" and "s' = after_request env c s"
  shows "files_ok (app_files s') \<and>
    ((not_read (app_files s') = not_read (app_files s) \<and> cached_pairs s' = cached_pairs s)
     \<or> (\<exists>ns. not_read (app_files s') = not_read (app_files s) @ ns \<and> cached_pairs s' = cached_pairs s \<union> row_pair ` set ns)
     \<or> (\<exists>n \<in> set (not_read (app_files s)). not_read (app_files s') = filter (\<lambda>m. no_id m \<noteq> no_id n) (not_read (app_files s))
          \<and> cached_pairs s' = cached_pairs s - {row_pair n})
     \<or> (\<exists>d. not_read (app_files s') = filter (\<lambda>m. no_deviceId m \<noteq> d) (not_read (app_files s))
          \<and> cached_pairs s' = cached_pairs s - {d} \<times> UNIV))"
proof (cases c)
  case (Register request)
  obtain r t where run: "DevicePost env request s = (r, t)" by (meson surj_pair)
  from DevicePost_spec [OF run] assms Register run show ?thesis by (simp add: cached_pairs_def)
next
  case (Create_Override v)
  with assms override_requests_spec [of env v s s'] show ?thesis by auto
next
  case (Delete_Override i)
  with assms override_requests_spec [of env _ s s' i] show ?thesis by auto
next
  case (Subscribe d ps)
  obtain r t where run: "NotificationPost env d ps s = (r, t)" by (meson surj_pair)
  have "row_pair ` set ns = {d} \<times> set ps" if "map row_pair ns = map (Pair d) ps" for ns
    using arg_cong [OF that, of set] by auto
  with NotificationPost_spec [OF run] assms Subscribe run show ?thesis by (auto split: sum.splits)
next
  case (Unsubscribe d i)
  obtain r t where run: "NotificationDelete d i s = (r, t)" by (meson surj_pair)
  from NotificationDelete_spec [OF run] assms Unsubscribe run show ?thesis by (auto split: sum.splits)
next
  case (Unsubscribe_All d)
  obtain r t where run: "NotificationDeleteAll d s = (r, t)" by (meson surj_pair)
  from NotificationDeleteAll_spec [OF run] assms Unsubscribe_All run show ?thesis by auto
next
  case (Delete_Device i)
  obtain r t where run: "DeviceDelete env i s = (r, t)" by (meson surj_pair)
  from DeviceDelete_spec [OF run] assms Delete_Device run show ?thesis by (auto split: sum.splits)
qed

lemma stored_pairs_filter_id:
  assumes "distinct (map no_id rows)" and "n \<in> set rows"
  shows "row_pair ` set rows - {row_pair n} \<subseteq> row_pair ` set (filter (\<lambda>m. no_id m \<noteq> no_id n) rows)"
    and "distinct (map row_pair rows) \<Longrightarrow>
      row_pair ` set (filter (\<lambda>m. no_id m \<noteq> no_id n) rows) = row_pair ` set rows - {row_pair n}"
proof -
  have inj: "inj_on no_id (set rows)" using assms(1) by (simp add: distinct_map)
  then have set: "set (filter (\<lambda>m. no_id m \<noteq> no_id n) rows) = set rows - {n}"
    using assms(2) by (auto dest: inj_onD)
  show "row_pair ` set rows - {row_pair n} \<subseteq> row_pair ` set (filter (\<lambda>m. no_id m \<noteq> no_id n) rows)"
    unfolding set by auto
  assume "distinct (map row_pair rows)"
  then have "inj_on row_pair (set rows)" by (simp add: distinct_map)
  then show "row_pair ` set (filter (\<lambda>m. no_id m \<noteq> no_id n) rows) = row_pair ` set rows - {row_pair n}"
    unfolding set using assms(2) by (auto dest: inj_onD)
qed

lemma stored_pairs_filter_device:
  "row_pair ` set (filter (\<lambda>m. no_deviceId m \<noteq> d) rows) = row_pair ` set rows - {d} \<times> UNIV"
  by (auto simp: row_pair_def)

lemma request_cases:
  assumes ok: "files_ok (app_files s)"
  obtains
    (same) "stored_pairs (after_request env c s) = stored_pairs s" "cached_pairs (after_request env c s) = cached_pairs s"
  | (added) ps where "stored_pairs (after_request env c s) = stored_pairs s \<union> ps"
      "cached_pairs (after_request env c s) = cached_pairs s \<union> ps"
  | (removed) p where "stored_pairs s - {p} \<subseteq> stored_pairs (after_request env c s)"
      "stored_pairs (after_request env c s) \<subseteq> stored_pairs s"
      "distinct (map row_pair (not_read (app_files s))) \<Longrightarrow> stored_pairs (after_request env c s) = stored_pairs s - {p}"
      "cached_pairs (after_request env c s) = cached_pairs s - {p}"
  | (cleared) d where "stored_pairs (after_request env c s) = stored_pairs s - {d} \<times> UNIV"
      "cached_pairs (after_request env c s) = cached_pairs s - {d} \<times> UNIV"
proof -
  let ?t = "after_request env c s"
  note ids = notifications.idents [OF ok]
  from after_request_effect [OF ok, of ?t env c]
  consider "not_read (app_files ?t) = not_read (app_files s)" "cached_pairs ?t = cached_pairs s"
    | ns where "not_read (app_files ?t) = not_read (app_files s) @ ns" "cached_pairs ?t = cached_pairs s \<union> row_pair ` set ns"
    | n where "n \<in> set (not_read (app_files s))" "cached_pairs ?t = cached_pairs s - {row_pair n}"
        "not_read (app_files ?t) = filter (\<lambda>m. no_id m \<noteq> no_id n) (not_read (app_files s))"
    | d where "not_read (app_files ?t) = filter (\<lambda>m. no_deviceId m \<noteq> d) (not_read (app_files s))"
        "cached_pairs ?t = cached_pairs s - {d} \<times> UNIV"
    by blast
  then show thesis
  proof cases
    case 1 then show thesis by (intro same) (simp_all add: stored_pairs_def)
  next
    case (2 ns) then show thesis by (intro added) (simp_all add: stored_pairs_def image_Un)
  next
    case (3 n)
    show thesis
      using stored_pairs_filter_id [OF ids 3(1)] 3 by (intro removed [of "row_pair n"]) (auto simp: stored_pairs_def)
  next
    case (4 d)
    then show thesis
      by (intro cleared [of d]) (simp_all only: stored_pairs_def stored_pairs_filter_device)
  qed
qed

lemma after_request_phantom:
  assumes "files_ok (app_files s)" and "cached_pairs s \<subseteq> stored_pairs s"
  shows "cached_pairs (after_request env c s) \<subseteq> stored_pairs (after_request env c s)"
  using assms(1) by (cases rule: request_cases [where env = env and c = c]) (use assms(2) in blast)+

text \<open>
  Nobody is polled without a subscription: whatever requests arrive in whatever order, every property
  the poller reads for a device has a row in the file, if that was so at the start.
\<close>

theorem no_phantom_subscription:
  assumes "files_ok (app_files s)" and "cached_pairs s \<subseteq> stored_pairs s"
  shows "cached_pairs (fold (after_request env) cs s) \<subseteq> stored_pairs (fold (after_request env) cs s)"
  using assms
proof (induction cs arbitrary: s)
  case (Cons c cs)
  have "cached_pairs (after_request env c s) \<subseteq> stored_pairs (after_request env c s)"
    using Cons.prems by (rule after_request_phantom)
  with after_request_effect [OF Cons.prems(1) refl, of env c] Cons.IH [of "after_request env c s"] show ?case by simp
qed simp

lemma after_request_sync:
  assumes "files_ok (app_files s)" and "cached_pairs s = stored_pairs s"
    and "distinct (map row_pair (not_read (app_files s)))"
  shows "cached_pairs (after_request env c s) = stored_pairs (after_request env c s)"
  using assms(1) by (cases rule: request_cases [where env = env and c = c]) (use assms(2,3) in auto)

text \<open>The cache the poller builds at its start.\<close>

lemma load_pairs:
  "{(d, p). p \<in> set (properties_subscribed d (fold (\<lambda>n subs. add_subscriptions (no_deviceId n) [no_property n] subs) ns subs))}
     = {(d, p). p \<in> set (properties_subscribed d subs)} \<union> row_pair ` set ns"
proof (induction ns arbitrary: subs)
  case (Cons n ns)
  show ?case unfolding fold.simps comp_def Cons.IH by (auto simp: subscribed_after_add row_pair_def split: if_splits)
qed simp

lemma start_pairs:
  assumes "pl_enabled c" and "start (Some c) (on_host (reading not_read)) s = (r, s0)"
  shows "r = Inr () \<and> cached_pairs s0 = cached_pairs s \<union> stored_pairs s \<and> app_files s0 = app_files s"
proof -
  have "r = Inr () \<and> app_files s0 = app_files s \<and> po_subscriptions s0 =
      fold (\<lambda>n subs. add_subscriptions (no_deviceId n) [no_property n] subs) (not_read (app_files s)) (po_subscriptions s)"
    using assms(2)
    by (auto simp: start_def assms(1) runJob_def withEntryPointSpan_def withSpan_def recordOnSettle_def recordRun_def
        loadSubscriptions_def and_then_def count_metric_def start_span_def end_span_def setAttributes_def
        on_host_def within_def reading_def scheduleNext_def)
  then show ?thesis
    using load_pairs [of "not_read (app_files s)" "po_subscriptions s"] by (simp add: cached_pairs_def stored_pairs_def)
qed

lemma after_requests_ok: "files_ok (app_files s) \<Longrightarrow> files_ok (app_files (fold (after_request env) cs s))"
proof (induction cs arbitrary: s)
  case (Cons c cs)
  from after_request_effect [OF Cons.prems refl, of env c] have "files_ok (app_files (after_request env c s))" ..
  from Cons.IH [OF this] show ?case by simp
qed simp

text \<open>
  Property C24. The poller reads what is subscribed. From the cache built at the start, and as long as no property
  of a device is subscribed twice, the cache names exactly the pairs the file has a row for, whatever
  requests arrive.
\<close>

theorem subscriptions_in_sync:
  assumes "files_ok (app_files s)" and "po_subscriptions s = []" and "pl_enabled c"
    and "start (Some c) (on_host (reading not_read)) s = (r, s0)"
    and "\<And>k. k < length cs \<Longrightarrow> distinct (map row_pair (not_read (app_files (fold (after_request env) (take k cs) s0))))"
  shows "cached_pairs (fold (after_request env) cs s0) = stored_pairs (fold (after_request env) cs s0)"
proof -
  have "cached_pairs s = {}" using assms(2) by (simp add: cached_pairs_def properties_subscribed_def)
  with start_pairs [OF assms(3,4)] assms(1)
  have base: "files_ok (app_files s0)" "cached_pairs s0 = stored_pairs s0" by (simp_all add: stored_pairs_def)
  show ?thesis using assms(5)
  proof (induction cs rule: rev_induct)
    case (snoc c cs)
    have "files_ok (app_files (fold (after_request env) xs s0))" for xs
      using base(1) by (rule after_requests_ok)
    moreover have "distinct (map row_pair (not_read (app_files (fold (after_request env) cs s0))))"
      using snoc.prems [of "length cs"] by simp
    moreover have "cached_pairs (fold (after_request env) cs s0) = stored_pairs (fold (after_request env) cs s0)"
    proof (rule snoc.IH)
      fix k assume "k < length cs"
      then show "distinct (map row_pair (not_read (app_files (fold (after_request env) (take k cs) s0))))"
        using snoc.prems [of k] by simp
    qed
    ultimately show ?case by (simp add: after_request_sync)
  qed (use base in simp)
qed

lemma post_again:
  assumes "NotificationPost env d ps s = (Inr ns, s1)"
    and "dev_read (app_files t) = dev_read (app_files s)" and "ovr_read (app_files t) = ovr_read (app_files s)"
  shows "\<exists>ms t1. NotificationPost env d ps t = (Inr ms, t1)"
proof -
  have "\<exists>ms t2. create_rows d ps t = (Inr ms, t2)"
    using create_rows_spec [of d ps t] by (metis surj_pair)
  with assms show ?thesis
    by (fastforce simp: NotificationPost_def and_then_Inr require_found_def lifted_def storage_getById_def dev_getById_def
        overrides_getByModel_def ovr_getByModel_def split: option.splits sum.splits)
qed

text \<open>
  A second subscription to the same property is accepted, and withdrawing either of the two stops
  the poller from reading the property although the other row is still in the file.
\<close>

theorem duplicate_subscription_lost:
  assumes "files_ok (app_files s)" and "NotificationPost env d [p] s = (Inr [n1], s1)"
  shows "\<exists>n2 s2 s3. NotificationPost env d [p] s1 = (Inr [n2], s2)
    \<and> NotificationDelete d (no_id n1) s2 = (Inr (), s3)
    \<and> n2 \<in> set (not_read (app_files s3)) \<and> row_pair n2 = (d, p) \<and> (d, p) \<notin> cached_pairs s3"
proof -
  have post: "row_pair n1 = (d, p)" "not_read (app_files s1) = not_read (app_files s) @ [n1]"
    "dev_read (app_files s1) = dev_read (app_files s)" "files_ok (app_files s1)" "ovr_read (app_files s1) = ovr_read (app_files s)"
    using NotificationPost_spec [OF assms(2)] assms(1) by auto
  from post_again [OF assms(2) post(3,5)] obtain ms s2 where again: "NotificationPost env d [p] s1 = (Inr ms, s2)" by blast
  from NotificationPost_spec [OF again] obtain n2 where ms: "ms = [n2]" "row_pair n2 = (d, p)"
    and rows: "not_read (app_files s2) = not_read (app_files s1) @ [n2]" and ok: "files_ok (app_files s2)"
    using post(4) by (cases ms) auto
  have ids: "distinct (map no_id (not_read (app_files s2)))" using ok by (rule notifications.idents)
  then have "no_id n1 \<noteq> no_id n2" by (auto simp: rows post(2))
  obtain r s3 where del: "NotificationDelete d (no_id n1) s2 = (r, s3)" by (meson surj_pair)
  have "not_getById (no_id n1) (app_files s2) \<noteq> None"
    by (auto simp: not_getById_def find_None_iff rows post(2))
  moreover have "no_deviceId n = d" if "not_getById (no_id n1) (app_files s2) = Some n" for n
  proof -
    have "n \<in> set (not_read (app_files s2))" "no_id n = no_id n1" using that by (auto simp: not_getById_def dest: find_ident)
    then have "n = n1" using ids by (auto simp: rows post(2) image_iff)
    then show ?thesis using post(1) by (simp add: row_pair_def)
  qed
  ultimately have "r = Inr ()"
    using del by (auto simp: NotificationDelete_def and_then_def require_found_def split: option.splits if_splits)
  with NotificationDelete_spec [OF del] obtain n where n: "no_id n = no_id n1" "n \<in> set (not_read (app_files s2))"
    and gone: "not_read (app_files s3) = filter (\<lambda>m. no_id m \<noteq> no_id n1) (not_read (app_files s2))"
      "cached_pairs s3 = cached_pairs s2 - {row_pair n}"
    by auto
  from n ids have "n = n1" by (auto simp: rows post(2) image_iff)
  with gone show ?thesis
    using again ms del \<open>r = Inr ()\<close> \<open>no_id n1 \<noteq> no_id n2\<close> post(1) by (auto simp: rows)
qed

text \<open>
  No two stored devices have the same hardware id: a registration that would repeat one is refused
  before it is stored, and no other request adds a device.
\<close>

lemma after_request_devices:
  assumes "distinct (map dc_deviceId (dev_read (app_files s)))"
  shows "distinct (map dc_deviceId (dev_read (app_files (after_request env c s))))"
proof (cases c)
  case (Register request)
  obtain r t where run: "DevicePost env request s = (r, t)" by (meson surj_pair)
  from DevicePost_spec [OF run] assms Register run show ?thesis by (cases r) auto
next
  case (Create_Override v)
  with assms override_requests_spec [of env v s] show ?thesis by simp
next
  case (Delete_Override i)
  with assms override_requests_spec [of env _ s _ i] show ?thesis by simp
next
  case (Subscribe d ps)
  obtain r t where run: "NotificationPost env d ps s = (r, t)" by (meson surj_pair)
  from NotificationPost_spec [OF run] have "dev_read (app_files t) = dev_read (app_files s)" by (cases r) auto
  with assms Subscribe run show ?thesis by simp
next
  case (Unsubscribe d i)
  obtain r t where run: "NotificationDelete d i s = (r, t)" by (meson surj_pair)
  from NotificationDelete_spec [OF run] have "dev_read (app_files t) = dev_read (app_files s)" by (cases r) auto
  with assms Unsubscribe run show ?thesis by simp
next
  case (Unsubscribe_All d)
  obtain r t where run: "NotificationDeleteAll d s = (r, t)" by (meson surj_pair)
  from NotificationDeleteAll_spec [OF run] assms Unsubscribe_All run show ?thesis by simp
next
  case (Delete_Device i)
  obtain r t where run: "DeviceDelete env i s = (r, t)" by (meson surj_pair)
  from DeviceDelete_spec [OF run] have "t = s \<or> dev_read (app_files t) = filter (\<lambda>d. dc_id d \<noteq> i) (dev_read (app_files s))"
    by (cases r) auto
  with assms Delete_Device run show ?thesis by (auto simp: distinct_map_filter)
qed

text \<open>
  \<^verbatim>\<open>DevicePostHandler\<close> looks a hardware id up before it creates a record, so hardware ids stay unique
  however requests that follow each other are mixed. (Requests that overlap are another matter: see
  the theory \<open>Storage\<close>.)
\<close>

theorem device_ids_unique:
  assumes "distinct (map dc_deviceId (dev_read (app_files s)))"
  shows "distinct (map dc_deviceId (dev_read (app_files (fold (after_request env) cs s))))"
  using assms by (induction cs arbitrary: s) (auto intro: after_request_devices)

text \<open>
  A deleted device is gone from the storage with every row and every cached subscription that names
  it. What stays is the pool of instances: the handler leaves the instance it had for the device, and a
  later registration of the same hardware id is driven through it.
\<close>

theorem device_delete_cascades:
  assumes "DeviceDelete env i s = (Inr (), s')"
  shows "dev_getById i (app_files s') = None
    \<and> (\<forall>n \<in> set (not_read (app_files s')). no_deviceId n \<noteq> i) \<and> (\<forall>p. (i, p) \<notin> cached_pairs s')
    \<and> (\<forall>record dev. map_of (br_registry s) (dc_deviceId record) = Some dev
         \<longrightarrow> fst (getOrCreate record (br_registry s')) = dev)"
  using DeviceDelete_spec [OF assms] by (auto simp: dev_getById_def find_None_iff getOrCreate_def)

subsection \<open>A sample host\<close>

definition sample_host_env :: "unit host_env" where
  "sample_host_env = \<lparr>he_runtime = sample_runtime, he_network = \<lparr>net_exchange = (\<lambda>_ _ _ u. ([], u)), net_now = (\<lambda>_. 0)\<rparr>,
     he_mapEnum = sample_mapEnum, he_property_order = (\<lambda>_. [0, 1]), he_action_order = (\<lambda>_. [0]),
     he_instances = returning [], he_instance = (\<lambda>_. throwing (PlainError ''offline'')), he_baseURL = None\<rparr>"

definition sample_host :: "unit host app" where
  "sample_host =
     \<lparr>te_open = [], te_ended = [], te_metrics = [],
      br_world = \<lparr>h_files = sample_files\<lparr>fs_issued := 2,
          fs_devices := Some [\<lparr>dc_id = ''u'', dc_createdAt = 0, dc_updatedAt = 0, dc_deviceId = 77, dc_address = ''10.0.0.2'',
            dc_token = ''00'', dc_stamp = None, dc_model = ''m'', dc_specURL = '''', dc_stampUpdatedAt = None,
            dc_rawSpec = mapModelToDTO sample_mapEnum sample_spec\<rparr>]\<rparr>, h_net = ()\<rparr>,
      br_registry = [(77, MiotDevice ''10.0.0.9'' (HexToken ''00'') None (Some 77) None)],
      br_unresolvedLogged = [], br_log = [], br_received = [], po_timer = None, po_ticking = False, po_listening = True,
      po_subscriptions = [], po_lastValues = [], po_errorCounts = [], po_skipCycles = [], po_lastTracedAt = 0\<rparr>"

lemma sample_host_ok: "files_ok (app_files sample_host)"
  by (auto simp: files_ok_def sample_host_def sample_files_def dev_read_def not_read_def ovr_read_def content_def inj_def
      image_iff lessThan_Suc numeral_2_eq_2)

lemma sample_post:
  "case NotificationPost sample_host_env ''u'' [''vacuum:status''] sample_host of
     (Inr [n], s) \<Rightarrow> n = \<lparr>no_id = ''uu'', no_createdAt = 7, no_updatedAt = 7, no_deviceId = ''u'', no_property = ''vacuum:status''\<rparr>
   | _ \<Rightarrow> False"
  by code_simp

lemma sample_post_run:
  obtains s where "NotificationPost sample_host_env ''u'' [''vacuum:status''] sample_host
    = (Inr [\<lparr>no_id = ''uu'', no_createdAt = 7, no_updatedAt = 7, no_deviceId = ''u'', no_property = ''vacuum:status''\<rparr>], s)"
  using sample_post by (auto split: prod.splits sum.splits list.splits)

lemma duplicate_subscription_lost_witness:
  "\<exists>n1 n2 s1 s2 s3. NotificationPost sample_host_env ''u'' [''vacuum:status''] sample_host = (Inr [n1], s1)
     \<and> NotificationPost sample_host_env ''u'' [''vacuum:status''] s1 = (Inr [n2], s2)
     \<and> NotificationDelete ''u'' (no_id n1) s2 = (Inr (), s3)
     \<and> n2 \<in> set (not_read (app_files s3)) \<and> (''u'', ''vacuum:status'') \<notin> cached_pairs s3"
  using sample_post_run duplicate_subscription_lost [OF sample_host_ok] by metis

lemma no_phantom_subscription_witness:
  "cached_pairs (fold (after_request sample_host_env) [Subscribe ''u'' [''vacuum:status''], Unsubscribe ''u'' ''uu''] sample_host)
     \<subseteq> stored_pairs (fold (after_request sample_host_env) [Subscribe ''u'' [''vacuum:status''], Unsubscribe ''u'' ''uu''] sample_host)"
proof (rule no_phantom_subscription [OF sample_host_ok])
  show "cached_pairs sample_host \<subseteq> stored_pairs sample_host"
    by (simp add: cached_pairs_def properties_subscribed_def sample_host_def)
qed

lemma subscriptions_in_sync_witness:
  "\<exists>s0. start (Some sample_polling) (on_host (reading not_read)) sample_host = (Inr (), s0)
     \<and> cached_pairs (after_request sample_host_env (Subscribe ''u'' [''vacuum:status'']) s0)
       = stored_pairs (after_request sample_host_env (Subscribe ''u'' [''vacuum:status'']) s0)"
proof -
  obtain r s0 where start: "start (Some sample_polling) (on_host (reading not_read)) sample_host = (r, s0)" by (meson surj_pair)
  have on: "pl_enabled sample_polling" by (simp add: sample_polling_def)
  have empty: "po_subscriptions sample_host = []" by (simp add: sample_host_def)
  from start_pairs [OF on start] have r: "r = Inr ()" and fs: "app_files s0 = app_files sample_host" by simp_all
  have none: "not_read (app_files sample_host) = []"
    by (simp add: sample_host_def sample_files_def not_read_def content_def)
  have "cached_pairs (fold (after_request sample_host_env) [Subscribe ''u'' [''vacuum:status'']] s0)
      = stored_pairs (fold (after_request sample_host_env) [Subscribe ''u'' [''vacuum:status'']] s0)"
    by (rule subscriptions_in_sync [OF sample_host_ok empty on start]) (simp add: fs none)
  with start r show ?thesis by auto
qed

lemma device_ids_unique_witness:
  "distinct (map dc_deviceId (dev_read (app_files (fold (after_request sample_host_env)
     [Register \<lparr>req_address = ''10.0.0.3'', req_token = ''00'', req_model = ''m''\<rparr>, Delete_Device ''u''] sample_host))))"
  by (rule device_ids_unique) (simp add: sample_host_def dev_read_def content_def)

lemma device_delete_cascades_witness:
  "\<exists>s'. DeviceDelete sample_host_env ''u'' sample_host = (Inr (), s') \<and> dev_getById ''u'' (app_files s') = None
     \<and> (\<forall>record. dc_deviceId record = 77 \<longrightarrow>
          fst (getOrCreate record (br_registry s')) = MiotDevice ''10.0.0.9'' (HexToken ''00'') None (Some 77) None)"
proof -
  obtain r s' where run: "DeviceDelete sample_host_env ''u'' sample_host = (r, s')" by (meson surj_pair)
  have "dev_getById ''u'' (app_files sample_host) \<noteq> None"
    by (simp add: dev_getById_def dev_read_def content_def sample_host_def)
  with DeviceDelete_spec [OF run] have r: "r = Inr ()" by (cases r) auto
  have "map_of (br_registry sample_host) 77 = Some (MiotDevice ''10.0.0.9'' (HexToken ''00'') None (Some 77) None)"
    by (simp add: sample_host_def)
  with device_delete_cascades [OF run [unfolded r]] run r show ?thesis by auto
qed

end
