(* ===== verification/Resilience.thy ===== *)
theory Resilience
  imports Complex_Main Miot_Error
begin

text \<open>
  \<^verbatim>\<open>packages/resilience\<close> and \<^verbatim>\<open>packages/tsed-resilience\<close>: cancellation signals, the retry loop with its
  two event machines, the composition of a policy and the factory. The circuit breaker and the
  timeout are the library cockatiel's: one attempt under them is a parameter of the loop, and the
  breaker's state one of its filter.
\<close>

subsection \<open>Signals\<close>

text \<open>A signal is a source's own or one built by \<^verbatim>\<open>AbortSignal.any\<close>.\<close>

datatype signal = Source nat | Any "signal list"

fun signal_aborted :: "(nat \<Rightarrow> bool) \<Rightarrow> signal \<Rightarrow> bool" where
  "signal_aborted ab (Source i) = ab i"
| "signal_aborted ab (Any ss) = list_ex (signal_aborted ab) ss"

definition combineSignals :: "signal option list \<Rightarrow> signal option" where
  "combineSignals signals =
     (let present = List.map_filter id signals in
      case present of [] \<Rightarrow> None | [s] \<Rightarrow> Some s | _ \<Rightarrow> Some (Any present))"

lemma combineSignals_aborted:
  "(case combineSignals signals of None \<Rightarrow> False | Some s \<Rightarrow> signal_aborted ab s)
    = (\<exists>s. Some s \<in> set signals \<and> signal_aborted ab s)"
proof -
  have mem: "(\<exists>s. Some s \<in> set signals \<and> signal_aborted ab s)
      \<longleftrightarrow> (\<exists>s \<in> set (List.map_filter id signals). signal_aborted ab s)"
    by (force simp: List.map_filter_def)
  show ?thesis
    unfolding mem by (cases "List.map_filter id signals" rule: remdups_adj.cases)
      (auto simp: combineSignals_def list_ex_iff)
qed

subsection \<open>Configuration\<close>

record timeout_config = to_ms :: int
record retry_config = rc_count :: int  rc_backoffMs :: int
record breaker_config =
  cb_halfOpenAfterMs :: int
  cb_threshold :: rat
  cb_samplingDurationMs :: int
  cb_minimumThroughput :: int

record resilience_config =
  cf_timeout :: "timeout_config option"
  cf_retry :: "retry_config option"
  cf_circuitBreaker :: "breaker_config option"

text \<open>The schema's input: every field of a section may be omitted.\<close>

record resilience_input =
  in_timeout :: "int option option"
  in_retry :: "(int option \<times> int option) option"
  in_circuitBreaker :: "(int option \<times> rat option \<times> int option \<times> int option) option"

definition with_default :: "'a \<Rightarrow> 'a option \<Rightarrow> 'a" where
  "with_default d x = (case x of None \<Rightarrow> d | Some v \<Rightarrow> v)"

text \<open>\<open>z.number().int().min(lo).default(d)\<close>\<close>

definition int_field :: "int \<Rightarrow> int \<Rightarrow> int option \<Rightarrow> int option" where
  "int_field lo d x = (let v = with_default d x in if lo \<le> v then Some v else None)"

definition parse_timeout :: "int option \<Rightarrow> timeout_config option" where
  "parse_timeout ms = map_option (\<lambda>v. \<lparr>to_ms = v\<rparr>) (int_field 0 5000 ms)"

definition parse_retry :: "int option \<times> int option \<Rightarrow> retry_config option" where
  "parse_retry r = (case r of (count, backoffMs) \<Rightarrow>
     (case (int_field 0 0 count, int_field 0 250 backoffMs) of
        (Some c, Some b) \<Rightarrow> Some \<lparr>rc_count = c, rc_backoffMs = b\<rparr>
      | _ \<Rightarrow> None))"

definition parse_breaker :: "int option \<times> rat option \<times> int option \<times> int option \<Rightarrow> breaker_config option" where
  "parse_breaker r = (case r of (halfOpen, threshold, sampling, throughput) \<Rightarrow>
     (let t = with_default (1 / 2) threshold in
      case (int_field 0 10000 halfOpen, int_field 1 10000 sampling, int_field 1 5 throughput) of
        (Some h, Some s, Some m) \<Rightarrow>
          if 0 < t \<and> t < 1
          then Some \<lparr>cb_halfOpenAfterMs = h, cb_threshold = t, cb_samplingDurationMs = s, cb_minimumThroughput = m\<rparr>
          else None
      | _ \<Rightarrow> None))"

text \<open>An optional section: absent, or present and parsed; \<open>None\<close> is a validation failure.\<close>

definition optional_section :: "('i \<Rightarrow> 'c option) \<Rightarrow> 'i option \<Rightarrow> 'c option option" where
  "optional_section p x = (case x of None \<Rightarrow> Some None | Some i \<Rightarrow> map_option Some (p i))"

definition parse_config :: "resilience_input \<Rightarrow> resilience_config option" where
  "parse_config inp =
     (case (optional_section parse_timeout (in_timeout inp), optional_section parse_retry (in_retry inp),
            optional_section parse_breaker (in_circuitBreaker inp)) of
        (Some t, Some r, Some b) \<Rightarrow> Some \<lparr>cf_timeout = t, cf_retry = r, cf_circuitBreaker = b\<rparr>
      | _ \<Rightarrow> None)"

subsection \<open>One attempt under a parent signal\<close>

text \<open>A failure is the private \<open>ParentCancellationError\<close>, or anything else the work threw.\<close>

datatype 'e failure = ParentCancelled | Failed 'e

text \<open>
  The promise of \<open>executeWithParentCancellation\<close> when there is a parent signal: which listeners are
  attached, whether its microtask is still queued, whether \<open>fn\<close> was called and is running, and the
  outcome. \<open>at_calls\<close> counts the calls of \<open>fn\<close>.
\<close>

record ('e, 'a) attempt_state =
  at_parent_aborted :: bool
  at_parent_listener :: bool
  at_timeout_listener :: bool
  at_queued :: bool
  at_running :: bool
  at_calls :: nat
  at_outcome :: "('e failure + 'a) option"

definition cleanup :: "('e, 'a) attempt_state \<Rightarrow> ('e, 'a) attempt_state" where
  "cleanup st = st\<lparr>at_parent_listener := False, at_timeout_listener := False\<rparr>"

definition settle :: "'e failure + 'a \<Rightarrow> ('e, 'a) attempt_state \<Rightarrow> ('e, 'a) attempt_state" where
  "settle r st = (case at_outcome st of None \<Rightarrow> st\<lparr>at_outcome := Some r\<rparr> | Some _ \<Rightarrow> st)"

definition attempt_start :: "bool \<Rightarrow> bool \<Rightarrow> ('e, 'a) attempt_state" where
  "attempt_start parent_aborted has_timeout =
     (let st = \<lparr>at_parent_aborted = parent_aborted, at_parent_listener = True, at_timeout_listener = has_timeout,
                at_queued = False, at_running = False, at_calls = 0, at_outcome = None\<rparr>
      in if parent_aborted then settle (Inl ParentCancelled) (cleanup st) else st\<lparr>at_queued := True\<rparr>)"

datatype ('e, 'a) attempt_event = Parent_Abort | Timeout_Abort | Microtask | Work_Done "'e + 'a"

inductive attempt_step ::
  "('e, 'a) attempt_state \<Rightarrow> ('e, 'a) attempt_event \<Rightarrow> ('e, 'a) attempt_state \<Rightarrow> bool" where
  parent_heard: "\<not> at_parent_aborted st \<Longrightarrow> at_parent_listener st \<Longrightarrow>
    attempt_step st Parent_Abort (settle (Inl ParentCancelled) (cleanup (st\<lparr>at_parent_aborted := True\<rparr>)))"
| parent_unheard: "\<not> at_parent_aborted st \<Longrightarrow> \<not> at_parent_listener st \<Longrightarrow>
    attempt_step st Parent_Abort (st\<lparr>at_parent_aborted := True\<rparr>)"
| timeout_heard: "at_timeout_listener st \<Longrightarrow> attempt_step st Timeout_Abort (cleanup st)"
| microtask_cancelled: "at_queued st \<Longrightarrow> at_parent_aborted st \<Longrightarrow>
    attempt_step st Microtask (settle (Inl ParentCancelled) (cleanup (st\<lparr>at_queued := False\<rparr>)))"
| microtask_runs: "at_queued st \<Longrightarrow> \<not> at_parent_aborted st \<Longrightarrow>
    attempt_step st Microtask (st\<lparr>at_queued := False, at_running := True, at_calls := at_calls st + 1\<rparr>)"
| work_resolves: "at_running st \<Longrightarrow>
    attempt_step st (Work_Done (Inr a)) (settle (Inr a) (cleanup (st\<lparr>at_running := False\<rparr>)))"
| work_rejects: "at_running st \<Longrightarrow>
    attempt_step st (Work_Done (Inl e))
      (settle (Inl (if at_parent_aborted st then ParentCancelled else Failed e)) (cleanup (st\<lparr>at_running := False\<rparr>)))"

inductive attempt_reachable :: "('e, 'a) attempt_state \<Rightarrow> bool" where
  start: "attempt_reachable (attempt_start pa ht)"
| step: "attempt_reachable st \<Longrightarrow> attempt_step st ev st' \<Longrightarrow> attempt_reachable st'"

inductive_cases attempt_stepE: "attempt_step st ev st'"

definition attempt_inv :: "('e, 'a) attempt_state \<Rightarrow> bool" where
  "attempt_inv st \<longleftrightarrow>
     at_calls st \<le> 1 \<and> (at_queued st \<longrightarrow> at_calls st = 0) \<and> (at_running st \<longrightarrow> at_calls st = 1 \<and> \<not> at_queued st)
     \<and> (at_outcome st \<noteq> None \<longrightarrow> \<not> at_parent_listener st \<and> \<not> at_timeout_listener st)
     \<and> (at_outcome st = Some (Inl ParentCancelled) \<longrightarrow> at_parent_aborted st)
     \<and> (at_parent_aborted st \<and> at_parent_listener st \<longrightarrow> False)
     \<and> (at_outcome st = None \<longrightarrow> at_queued st \<or> at_running st)
     \<and> (\<forall>r. at_outcome st = Some r \<and> r \<noteq> Inl ParentCancelled \<longrightarrow> at_calls st = 1)"

lemma attempt_inv_start: "attempt_inv (attempt_start pa ht)"
  by (simp add: attempt_inv_def attempt_start_def settle_def cleanup_def Let_def)

lemma attempt_inv_step:
  assumes "attempt_step st ev st'" and "attempt_inv st"
  shows "attempt_inv st'"
  using assms by (cases rule: attempt_step.cases)
    (auto simp: attempt_inv_def settle_def cleanup_def split: option.splits)

lemma attempt_inv_reachable: "attempt_reachable st \<Longrightarrow> attempt_inv st"
  by (induction rule: attempt_reachable.induct) (auto intro: attempt_inv_start attempt_inv_step)

text \<open>An open attempt goes on: its microtask can run, and when its work ends it settles.\<close>

lemma attempt_open:
  assumes "attempt_inv st" and "at_outcome st = None"
  shows "at_queued st \<and> (\<exists>st'. attempt_step st Microtask st' \<and> (at_outcome st' \<noteq> None \<or> at_running st'))
    \<or> at_running st \<and> (\<forall>w. \<exists>st'. attempt_step st (Work_Done w) st' \<and> at_outcome st' \<noteq> None)"
proof (cases "at_queued st")
  case True
  show ?thesis
  proof (cases "at_parent_aborted st")
    case True
    with \<open>at_queued st\<close> microtask_cancelled [OF \<open>at_queued st\<close> True] assms(2) show ?thesis
      by (intro disjI1 conjI exI) (assumption+, simp add: settle_def cleanup_def)
  next
    case False
    have "at_running (st\<lparr>at_queued := False, at_running := True, at_calls := at_calls st + 1\<rparr>)" by simp
    with \<open>at_queued st\<close> microtask_runs [OF \<open>at_queued st\<close> False] show ?thesis by blast
  qed
next
  case False
  with assms have run: "at_running st" by (simp add: attempt_inv_def)
  have "\<exists>st'. attempt_step st (Work_Done w) st' \<and> at_outcome st' \<noteq> None" for w
    using work_resolves [OF run] work_rejects [OF run] assms(2)
    by (cases w) (auto simp: settle_def cleanup_def intro!: exI conjI)
  with run show ?thesis by blast
qed

lemma attempt_settles_by:
  assumes "attempt_step st ev st'" and "at_outcome st = None" and "at_outcome st' = Some r"
  shows "r = Inl ParentCancelled \<or> (\<exists>w. ev = Work_Done w \<and> r = (case w of Inl e \<Rightarrow> Inl (Failed e) | Inr a \<Rightarrow> Inr a))"
  using assms by (cases rule: attempt_step.cases) (auto simp: settle_def cleanup_def split: if_splits)

text \<open>
  Property C19. In every reachable state of an attempt: the work was started at most once; a promise
  that has settled left no listener on either signal; one that is open is never forgotten: it still has its
  microtask queued, and the microtask can run, or its work running, and it settles when the work ends; it
  was cancelled only if the parent did abort; and any other outcome is the work's own.
\<close>

theorem attempt_safe:
  assumes "attempt_reachable st"
  shows "at_calls st \<le> 1
    \<and> (at_outcome st \<noteq> None \<longrightarrow> \<not> at_parent_listener st \<and> \<not> at_timeout_listener st)
    \<and> (at_outcome st = None \<longrightarrow>
         at_queued st \<and> (\<exists>st'. attempt_step st Microtask st' \<and> (at_outcome st' \<noteq> None \<or> at_running st'))
       \<or> at_running st \<and> (\<forall>w. \<exists>st'. attempt_step st (Work_Done w) st' \<and> at_outcome st' \<noteq> None))
    \<and> (at_outcome st = Some (Inl ParentCancelled) \<longrightarrow> at_parent_aborted st)
    \<and> (\<forall>r. at_outcome st = Some r \<and> r \<noteq> Inl ParentCancelled \<longrightarrow> at_calls st = 1)
    \<and> (\<forall>ev st' r. at_outcome st = None \<and> attempt_step st ev st' \<and> at_outcome st' = Some r \<longrightarrow>
         r = Inl ParentCancelled \<or> (\<exists>w. ev = Work_Done w \<and> r = (case w of Inl e \<Rightarrow> Inl (Failed e) | Inr a \<Rightarrow> Inr a)))"
  using attempt_inv_reachable [OF assms] attempt_open [OF attempt_inv_reachable [OF assms]] attempt_settles_by [of st]
  unfolding attempt_inv_def by blast

lemma attempt_safe_witness:
  "at_calls (settle (Inr (5 :: int)) (cleanup ((attempt_start False True :: (string, int) attempt_state)
      \<lparr>at_queued := False, at_running := False, at_calls := 1\<rparr>))) \<le> 1"
proof -
  let ?s0 = "attempt_start False True :: (string, int) attempt_state"
  let ?s1 = "?s0\<lparr>at_queued := False, at_running := True, at_calls := at_calls ?s0 + 1\<rparr>"
  have "attempt_step ?s0 Microtask ?s1"
    by (rule microtask_runs) (simp_all add: attempt_start_def Let_def)
  then have r1: "attempt_reachable ?s1" by (meson attempt_reachable.intros)
  have "attempt_step ?s1 (Work_Done (Inr 5)) (settle (Inr 5) (cleanup (?s1\<lparr>at_running := False\<rparr>)))"
    by (rule work_resolves) simp
  with r1 have "attempt_reachable (settle (Inr 5) (cleanup (?s1\<lparr>at_running := False\<rparr>)))"
    by (rule attempt_reachable.step)
  from attempt_safe [OF this] show ?thesis by (simp add: attempt_start_def Let_def)
qed

subsection \<open>The pause before a retry\<close>

record backoff_state =
  bo_timer :: bool
  bo_listener :: bool
  bo_outcome :: "(unit failure + unit) option"

datatype backoff_event = Backoff_Timer | Backoff_Abort

definition backoff_abort :: "backoff_state \<Rightarrow> backoff_state" where
  "backoff_abort st = \<lparr>bo_timer = False, bo_listener = False,
     bo_outcome = (case bo_outcome st of None \<Rightarrow> Some (Inl ParentCancelled) | Some r \<Rightarrow> Some r)\<rparr>"

text \<open>\<open>parent\<close> is \<open>None\<close> without a parent signal, else whether it has aborted.\<close>

definition backoff_start :: "bool option \<Rightarrow> backoff_state" where
  "backoff_start parent =
     (if parent = Some True
      then \<lparr>bo_timer = False, bo_listener = False, bo_outcome = Some (Inl ParentCancelled)\<rparr>
      else \<lparr>bo_timer = True, bo_listener = (parent \<noteq> None), bo_outcome = None\<rparr>)"

definition backoff_step :: "backoff_event \<Rightarrow> backoff_state \<Rightarrow> backoff_state" where
  "backoff_step ev st =
     (case ev of
        Backoff_Timer \<Rightarrow>
          if bo_timer st
          then st\<lparr>bo_timer := False, bo_listener := False,
                  bo_outcome := (case bo_outcome st of None \<Rightarrow> Some (Inr ()) | Some r \<Rightarrow> Some r)\<rparr>
          else st
      | Backoff_Abort \<Rightarrow> if bo_listener st then backoff_abort st else st)"

definition backoff_ok :: "bool \<Rightarrow> backoff_state \<Rightarrow> bool" where
  "backoff_ok has_parent st \<longleftrightarrow>
     (if bo_outcome st = None then bo_timer st \<and> bo_listener st = has_parent
      else \<not> bo_timer st \<and> \<not> bo_listener st)"

fun backoff_verdict :: "bool \<Rightarrow> backoff_event \<Rightarrow> (unit failure + unit) option" where
  "backoff_verdict has_parent Backoff_Timer = Some (Inr ())"
| "backoff_verdict has_parent Backoff_Abort = (if has_parent then Some (Inl ParentCancelled) else None)"

interpretation backoff: one_shot backoff_step bo_outcome "backoff_ok has_parent" "backoff_verdict has_parent"
  for has_parent
proof
  fix st :: backoff_state and e r
  assume ok: "backoff_ok has_parent st"
  show "bo_outcome (backoff_step e st) = Some r" if "bo_outcome st = Some r"
    using ok that by (cases e) (auto simp: backoff_ok_def backoff_step_def)
  show "bo_outcome (backoff_step e st) = backoff_verdict has_parent e" if "bo_outcome st = None"
    using ok that by (cases e) (auto simp: backoff_ok_def backoff_step_def backoff_abort_def)
  show "backoff_ok has_parent (backoff_step e st)"
    using ok by (cases e) (auto simp: backoff_ok_def backoff_step_def backoff_abort_def split: if_splits option.splits)
qed

text \<open>The timer fires last, unless it was cleared.\<close>

definition waitForRetryBackoff :: "bool option \<Rightarrow> backoff_event list \<Rightarrow> unit failure + unit" where
  "waitForRetryBackoff parent evs =
     (case bo_outcome (fold backoff_step (evs @ [Backoff_Timer]) (backoff_start parent)) of
        Some r \<Rightarrow> r | None \<Rightarrow> Inr ())"

lemma waitForRetryBackoff_eq:
  "waitForRetryBackoff parent evs =
     (if parent = Some True \<or> parent \<noteq> None \<and> takeWhile (\<lambda>e. e \<noteq> Backoff_Timer) evs \<noteq> []
      then Inl ParentCancelled else Inr ())"
proof (cases "parent = Some True")
  case True
  have "backoff_ok True (backoff_start parent)" "bo_outcome (backoff_start parent) = Some (Inl ParentCancelled)"
    using True by (simp_all add: backoff_start_def backoff_ok_def)
  from backoff.run_settled [OF this] True show ?thesis by (simp add: waitForRetryBackoff_def del: fold_append)
next
  case False
  let ?hp = "parent \<noteq> None"
  have ok: "backoff_ok ?hp (backoff_start parent)" "bo_outcome (backoff_start parent) = None"
    using False by (simp_all add: backoff_start_def backoff_ok_def)
  have "first_some (backoff_verdict hp) (evs @ [Backoff_Timer])
      = Some (if hp \<and> takeWhile (\<lambda>e. e \<noteq> Backoff_Timer) evs \<noteq> [] then Inl ParentCancelled else Inr ())" for hp
  proof (induction evs)
    case (Cons e evs)
    then show ?case by (cases e) auto
  qed simp
  with backoff.outcome_fresh [OF ok] False show ?thesis by (simp add: waitForRetryBackoff_def del: fold_append)
qed

subsection \<open>The composed policy\<close>

datatype circuit_state = Circuit_Closed | Circuit_Open | Circuit_HalfOpen | Circuit_Isolated

definition should_handle :: "('e \<Rightarrow> bool) option \<Rightarrow> 'e \<Rightarrow> bool" where
  "should_handle opt e = (case opt of None \<Rightarrow> True | Some f \<Rightarrow> f e)"

text \<open>The breaker's failure filter; \<open>state\<close> is the state of the breaker, when there is one.\<close>

definition breaker_filter :: "('e \<Rightarrow> bool) option \<Rightarrow> circuit_state option \<Rightarrow> 'e failure \<Rightarrow> bool" where
  "breaker_filter opt state err =
     (case err of ParentCancelled \<Rightarrow> state = Some Circuit_HalfOpen | Failed e \<Rightarrow> should_handle opt e)"

datatype policy_layer = Breaker_Layer breaker_config | Timeout_Layer int

datatype attempt_policy = Noop | Single policy_layer | Wrap "policy_layer list"

definition policy_layers :: "resilience_config \<Rightarrow> policy_layer list" where
  "policy_layers cfg = List.map_filter id
     [map_option Breaker_Layer (cf_circuitBreaker cfg), map_option (\<lambda>t. Timeout_Layer (to_ms t)) (cf_timeout cfg)]"

definition compose_layers :: "policy_layer list \<Rightarrow> attempt_policy" where
  "compose_layers ordered = (case ordered of [] \<Rightarrow> Noop | [p] \<Rightarrow> Single p | _ \<Rightarrow> Wrap ordered)"

record 'e policy =
  pol_attempt :: attempt_policy
  pol_maxRetries :: nat
  pol_backoffMs :: int
  pol_handle :: "('e \<Rightarrow> bool) option"

definition createResiliencePolicy :: "resilience_input \<Rightarrow> ('e \<Rightarrow> bool) option \<Rightarrow> thrown + 'e policy" where
  "createResiliencePolicy config opt =
     (case parse_config config of
        None \<Rightarrow> Inl (JsError ''ZodError'' ''Invalid input'')
      | Some cfg \<Rightarrow> Inr \<lparr>pol_attempt = compose_layers (policy_layers cfg),
          pol_maxRetries = (case cf_retry cfg of None \<Rightarrow> 0 | Some r \<Rightarrow> nat (rc_count r)),
          pol_backoffMs = (case cf_retry cfg of None \<Rightarrow> 0 | Some r \<Rightarrow> rc_backoffMs r),
          pol_handle = opt\<rparr>)"

text \<open>
  What one call of \<open>execute\<close> runs in: \<open>env_attempt\<close> is \<^verbatim>\<open>attemptPolicy.execute(...)\<close> on the given
  work, \<open>env_parent\<close> reads the parent signal, \<open>env_onRetry\<close> is the hook, and \<open>env_pause\<close> delivers
  the events of a pause.
\<close>

record ('e, 'a, 'w) execution =
  env_attempt :: "attempt_policy \<Rightarrow> 'w \<Rightarrow> ('e failure + 'a) \<times> 'w"
  env_parent :: "'w \<Rightarrow> bool option"
  env_onRetry :: "nat \<Rightarrow> int \<Rightarrow> 'w \<Rightarrow> 'w"
  env_pause :: "int \<Rightarrow> 'w \<Rightarrow> backoff_event list \<times> 'w"

definition parent_aborted :: "('e, 'a, 'w) execution \<Rightarrow> 'w \<Rightarrow> bool" where
  "parent_aborted env w \<longleftrightarrow> env_parent env w = Some True"

function (sequential) execute_from ::
  "'e policy \<Rightarrow> ('e, 'a, 'w) execution \<Rightarrow> nat \<Rightarrow> 'w \<Rightarrow> ('e failure + 'a) \<times> 'w" where
  "execute_from pol env attempt w =
     (if parent_aborted env w then (Inl ParentCancelled, w)
      else case env_attempt env (pol_attempt pol) w of
          (Inr a, w1) \<Rightarrow> (Inr a, w1)
        | (Inl error, w1) \<Rightarrow>
            if error = ParentCancelled \<or> parent_aborted env w1 then (Inl ParentCancelled, w1)
            else if attempt \<ge> pol_maxRetries pol
                \<or> \<not> (case error of Failed e \<Rightarrow> should_handle (pol_handle pol) e | ParentCancelled \<Rightarrow> True)
            then (Inl error, w1)
            else
              (let w2 = env_onRetry env (attempt + 1) (pol_backoffMs pol) w1;
                   (evs, w3) = env_pause env (pol_backoffMs pol) w2
               in case waitForRetryBackoff (env_parent env w2) evs of
                    Inl _ \<Rightarrow> (Inl ParentCancelled, w3)
                  | Inr _ \<Rightarrow> execute_from pol env (attempt + 1) w3))"
  by pat_completeness auto
termination
  by (relation "measure (\<lambda>(pol, env, attempt, w). pol_maxRetries pol - attempt)") auto

declare execute_from.simps [simp del]

definition execute :: "'e policy \<Rightarrow> ('e, 'a, 'w) execution \<Rightarrow> 'w \<Rightarrow> ('e failure + 'a) \<times> 'w" where
  "execute pol env w = execute_from pol env 0 w"

text \<open>
  One pass of the loop: it returns, or it goes on with the next attempt in the world after the pause.
\<close>

definition loop_pass ::
  "'e policy \<Rightarrow> ('e, 'a, 'w) execution \<Rightarrow> nat \<Rightarrow> 'w \<Rightarrow> ('e failure + 'a) option \<times> 'w" where
  "loop_pass pol env attempt w =
     (if parent_aborted env w then (Some (Inl ParentCancelled), w)
      else case env_attempt env (pol_attempt pol) w of
          (Inr a, w1) \<Rightarrow> (Some (Inr a), w1)
        | (Inl error, w1) \<Rightarrow>
            if error = ParentCancelled \<or> parent_aborted env w1 then (Some (Inl ParentCancelled), w1)
            else if attempt \<ge> pol_maxRetries pol
                \<or> \<not> (case error of Failed e \<Rightarrow> should_handle (pol_handle pol) e | ParentCancelled \<Rightarrow> True)
            then (Some (Inl error), w1)
            else
              (let w2 = env_onRetry env (attempt + 1) (pol_backoffMs pol) w1;
                   (evs, w3) = env_pause env (pol_backoffMs pol) w2
               in case waitForRetryBackoff (env_parent env w2) evs of
                    Inl _ \<Rightarrow> (Some (Inl ParentCancelled), w3)
                  | Inr _ \<Rightarrow> (None, w3)))"

lemma execute_from_pass:
  "execute_from pol env attempt w =
     (case loop_pass pol env attempt w of
        (Some r, w') \<Rightarrow> (r, w') | (None, w') \<Rightarrow> execute_from pol env (attempt + 1) w')"
  by (subst execute_from.simps) (simp add: loop_pass_def Let_def split: prod.splits sum.splits failure.splits)

lemma loop_pass_continues:
  "loop_pass pol env attempt w = (None, w') \<Longrightarrow> attempt < pol_maxRetries pol"
  by (auto simp: loop_pass_def Let_def split: if_splits prod.splits sum.splits failure.splits)

lemma execute_from_induct:
  assumes step: "\<And>attempt w. (\<And>w'. loop_pass pol env attempt w = (None, w') \<Longrightarrow> P (attempt + 1) w') \<Longrightarrow> P attempt w"
  shows "P attempt w"
proof (induction "pol_maxRetries pol - attempt" arbitrary: attempt w rule: less_induct)
  case (less attempt w)
  have later: "P (attempt + 1) w'" if "loop_pass pol env attempt w = (None, w')" for w'
    using loop_pass_continues [OF that] by (intro less.hyps) simp
  show ?case by (rule step) (rule later)
qed

text \<open>A counter in the world that every attempt, and nothing else, advances.\<close>

definition counts_attempts :: "('w \<Rightarrow> nat) \<Rightarrow> ('e, 'a, 'w) execution \<Rightarrow> bool" where
  "counts_attempts count env \<longleftrightarrow>
     (\<forall>p w. count (snd (env_attempt env p w)) = count w + 1)
     \<and> (\<forall>n d w. count (env_onRetry env n d w) = count w)
     \<and> (\<forall>d w. count (snd (env_pause env d w)) = count w)"

lemma loop_pass_count:
  assumes "counts_attempts count env" and "loop_pass pol env attempt w = (r, w')"
  shows "if parent_aborted env w then r = Some (Inl ParentCancelled) \<and> w' = w else count w' = count w + 1"
proof -
  have a: "count w1 = count w + 1" if "env_attempt env p w = (x, w1)" for p x w1 w
    using assms(1) that unfolding counts_attempts_def by (metis snd_conv)
  have b: "count w3 = count w2" if "env_pause env d w2 = (evs, w3)" for d evs w2 w3
    using assms(1) that unfolding counts_attempts_def by (metis snd_conv)
  have c: "count (env_onRetry env n d w) = count w" for n d w
    using assms(1) unfolding counts_attempts_def by blast
  show ?thesis
  proof (cases "parent_aborted env w")
    case False
    obtain x w1 where att: "env_attempt env (pol_attempt pol) w = (x, w1)" by (meson surj_pair)
    obtain evs w3 where pause: "env_pause env (pol_backoffMs pol) (env_onRetry env (attempt + 1) (pol_backoffMs pol) w1) = (evs, w3)"
      by (meson surj_pair)
    have "w' = w1 \<or> w' = w3"
      using assms(2) False att pause
      by (auto simp: loop_pass_def Let_def split: if_splits prod.splits sum.splits failure.splits)
    then show ?thesis using False a [OF att] b [OF pause] c by auto
  qed (use assms(2) in \<open>simp add: loop_pass_def\<close>)
qed

lemma loop_pass_result:
  assumes "loop_pass pol env attempt w = (Some (Inl (Failed e)), w')"
  shows "\<not> parent_aborted env w' \<and> \<not> parent_aborted env w
    \<and> (attempt \<ge> pol_maxRetries pol \<or> \<not> should_handle (pol_handle pol) e)"
  using assms by (auto simp: loop_pass_def Let_def split: if_splits prod.splits sum.splits failure.splits)

lemma loop_pass_returned:
  assumes "loop_pass pol env attempt w = (Some (Inr a), w')"
  shows "\<not> parent_aborted env w"
  using assms by (auto simp: loop_pass_def split: if_splits)

lemma execute_from_count:
  assumes count: "counts_attempts count env"
    and run: "execute_from pol env attempt w = (r, w')" and bound: "attempt \<le> pol_maxRetries pol"
  shows "count w' + attempt \<le> count w + pol_maxRetries pol + 1
    \<and> (case r of
         Inr a \<Rightarrow> count w < count w'
       | Inl (Failed e) \<Rightarrow> \<not> parent_aborted env w'
           \<and> (should_handle (pol_handle pol) e \<longrightarrow> count w' + attempt = count w + pol_maxRetries pol + 1)
       | Inl ParentCancelled \<Rightarrow> True)"
  using run bound
proof (induction attempt w arbitrary: r rule: execute_from_induct [where pol = pol and env = env])
  case (1 attempt w)
  obtain x w1 where pass: "loop_pass pol env attempt w = (x, w1)" by (meson surj_pair)
  note cnt = loop_pass_count [OF count pass]
  show ?case
  proof (cases x)
    case None
    have run': "execute_from pol env (attempt + 1) w1 = (r, w')"
      using "1.prems"(1) pass None by (simp add: execute_from_pass [of pol env attempt])
    have lt: "attempt < pol_maxRetries pol" by (rule loop_pass_continues [OF pass [unfolded None]])
    have c1: "count w1 = count w + 1" using cnt None by (simp split: if_splits)
    from "1.IH" [OF pass [unfolded None] run'] lt c1 show ?thesis
      by (auto split: sum.splits failure.splits)
  next
    case (Some y)
    then have eq: "r = y" "w' = w1"
      using "1.prems"(1) pass by (simp_all add: execute_from_pass [of pol env attempt])
    show ?thesis
    proof (cases y)
      case (Inr a)
      with loop_pass_returned pass Some cnt "1.prems"(2) eq show ?thesis by fastforce
    next
      case (Inl z)
      show ?thesis
      proof (cases z)
        case ParentCancelled
        with cnt "1.prems"(2) eq Inl show ?thesis by (auto split: if_splits)
      next
        case (Failed e)
        from loop_pass_result [OF pass [unfolded Some Inl Failed]] cnt "1.prems"(2) eq Inl Failed
        show ?thesis by auto
      qed
    qed
  qed
qed

text \<open>
  Retries are bounded and selective: one call of \<open>execute\<close> makes at most
  \<open>count + 1\<close> attempts; it returns only after at least one; it reports a failure the policy handles
  only after exactly \<open>count + 1\<close>, so every retry was spent; and it reports a failure of the work
  only while the parent signal is not aborted, since cancellation wins over it.
\<close>

theorem execute_attempts:
  assumes "counts_attempts count env" and "execute pol env w = (r, w')"
  shows "count w' \<le> count w + pol_maxRetries pol + 1
    \<and> (case r of
         Inr a \<Rightarrow> count w < count w'
       | Inl (Failed e) \<Rightarrow> \<not> parent_aborted env w'
           \<and> (should_handle (pol_handle pol) e \<longrightarrow> count w' = count w + pol_maxRetries pol + 1)
       | Inl ParentCancelled \<Rightarrow> True)"
  using execute_from_count [OF assms(1) assms(2) [unfolded execute_def]]
  by (simp add: algebra_simps split: sum.splits failure.splits)

definition failing_execution :: "(string, unit, nat) execution" where
  "failing_execution = \<lparr>env_attempt = (\<lambda>_ w. (Inl (Failed ''boom''), w + 1)), env_parent = (\<lambda>_. None),
     env_onRetry = (\<lambda>_ _ w. w), env_pause = (\<lambda>_ w. ([], w))\<rparr>"

definition retry_twice :: "string policy" where
  "retry_twice = \<lparr>pol_attempt = Noop, pol_maxRetries = 2, pol_backoffMs = 250, pol_handle = None\<rparr>"

lemma failing_execution_run: "execute retry_twice failing_execution 0 = (Inl (Failed ''boom''), 3)"
  by (simp add: execute_def execute_from_pass loop_pass_def failing_execution_def retry_twice_def
      parent_aborted_def should_handle_def waitForRetryBackoff_eq Let_def numeral_3_eq_3)

lemma execute_attempts_witness:
  "execute retry_twice failing_execution 0 = (Inl (Failed ''boom''), 3) \<and> (3 :: nat) = pol_maxRetries retry_twice + 1"
proof -
  have "counts_attempts (\<lambda>w. w) failing_execution"
    by (simp add: counts_attempts_def failing_execution_def)
  from execute_attempts [OF this failing_execution_run] failing_execution_run show ?thesis
    by (simp add: retry_twice_def should_handle_def)
qed

text \<open>
  A parent that has already aborted, or aborts while the policy waits to retry, stops
  the call: no attempt is made in an aborted state, and whenever the attempt under way ends after
  the abort with a failure, or the pause is interrupted, the result is the cancellation.
\<close>

theorem execute_cancelled:
  "(parent_aborted env w \<longrightarrow> execute pol env w = (Inl ParentCancelled, w))
   \<and> (\<not> parent_aborted env w \<and> env_attempt env (pol_attempt pol) w = (Inl f, w1) \<and> parent_aborted env w1
        \<longrightarrow> execute pol env w = (Inl ParentCancelled, w1))
   \<and> (\<not> parent_aborted env w \<and> env_attempt env (pol_attempt pol) w = (Inl (Failed e), w1) \<and> \<not> parent_aborted env w1
        \<and> 0 < pol_maxRetries pol \<and> should_handle (pol_handle pol) e
        \<and> w2 = env_onRetry env 1 (pol_backoffMs pol) w1 \<and> env_parent env w2 \<noteq> None
        \<and> env_pause env (pol_backoffMs pol) w2 = (Backoff_Abort # evs, w3)
        \<longrightarrow> execute pol env w = (Inl ParentCancelled, w3))"
proof (intro conjI impI; (elim conjE)?)
  assume "parent_aborted env w"
  then show "execute pol env w = (Inl ParentCancelled, w)"
    by (simp add: execute_def execute_from_pass loop_pass_def)
next
  assume "\<not> parent_aborted env w" "env_attempt env (pol_attempt pol) w = (Inl f, w1)" "parent_aborted env w1"
  then show "execute pol env w = (Inl ParentCancelled, w1)"
    by (simp add: execute_def execute_from_pass loop_pass_def)
next
  assume h: "\<not> parent_aborted env w" "env_attempt env (pol_attempt pol) w = (Inl (Failed e), w1)"
    "\<not> parent_aborted env w1" "0 < pol_maxRetries pol" "should_handle (pol_handle pol) e"
    "w2 = env_onRetry env 1 (pol_backoffMs pol) w1" "env_parent env w2 \<noteq> None"
    "env_pause env (pol_backoffMs pol) w2 = (Backoff_Abort # evs, w3)"
  have "waitForRetryBackoff (env_parent env w2) (Backoff_Abort # evs) = Inl ParentCancelled"
    using h(7) by (auto simp: waitForRetryBackoff_eq)
  with h show "execute pol env w = (Inl ParentCancelled, w3)"
    by (simp add: execute_def execute_from_pass loop_pass_def)
qed

lemma execute_cancelled_witness:
  "execute retry_twice (failing_execution\<lparr>env_parent := (\<lambda>w. Some (w \<ge> 1))\<rparr>) 0 = (Inl ParentCancelled, 1)"
  using execute_cancelled [of "failing_execution\<lparr>env_parent := (\<lambda>w. Some (w \<ge> 1))\<rparr>" 0 retry_twice "Failed ''boom''" 1]
  by (simp add: failing_execution_def parent_aborted_def)

subsection \<open>The factory\<close>

text \<open>
  A policy built by the factory carries the number of policies built before it: the identity of
  the breaker its calls share.
\<close>

record ('k, 'e) policy_factory =
  pf_policies :: "('k, nat \<times> 'e policy) js_map"
  pf_config :: "'k \<Rightarrow> resilience_input option"
  pf_options :: "'k \<Rightarrow> ('e \<Rightarrow> bool) option"
  pf_created :: nat

definition ResiliencePolicyFactory ::
  "('k \<Rightarrow> resilience_input option) \<Rightarrow> ('k \<Rightarrow> ('e \<Rightarrow> bool) option) \<Rightarrow> ('k, 'e) policy_factory" where
  "ResiliencePolicyFactory config options =
     \<lparr>pf_policies = [], pf_config = config, pf_options = options, pf_created = 0\<rparr>"

definition policy_get ::
  "('k \<Rightarrow> string) \<Rightarrow> 'k \<Rightarrow> ('k, 'e) policy_factory \<Rightarrow> (thrown + (nat \<times> 'e policy)) \<times> ('k, 'e) policy_factory" where
  "policy_get name key f =
     (case map_of (pf_policies f) key of
        Some p \<Rightarrow> (Inr p, f)
      | None \<Rightarrow>
          (case pf_config f key of
             None \<Rightarrow> (Inl (JsError ''Error'' (''Resilience policy \"'' @ name key @ ''\" is not configured'')), f)
           | Some config \<Rightarrow>
               (case createResiliencePolicy config (pf_options f key) of
                  Inl e \<Rightarrow> (Inl e, f)
                | Inr pol \<Rightarrow>
                    (Inr (pf_created f, pol),
                     f\<lparr>pf_policies := AList.update key (pf_created f, pol) (pf_policies f),
                       pf_created := pf_created f + 1\<rparr>))))"

interpretation policies: memo_factory "policy_get name" "\<lambda>f. map_of (pf_policies f)" for name
  by unfold_locales (auto simp: policy_get_def update_conv' split: option.splits sum.splits)

text \<open>
  A key always resolves to one policy, so its breaker is shared: whatever keys are
  asked for between two requests, and whichever of those requests fail, the second request for a
  key returns the instance the first one returned.
\<close>

theorem policy_shared:
  assumes "policy_get name k f = (Inr p, f')"
  shows "fst (policy_get name k (fold (\<lambda>k' f. snd (policy_get name k' f)) ks f')) = Inr p"
  by (rule policies.get_stable [OF assms])

lemma policy_shared_witness:
  "fst (policy_get id ''db'' (fold (\<lambda>k' f. snd (policy_get id k' f)) [''api'', ''db'', ''x'']
      (snd (policy_get id ''db'' (ResiliencePolicyFactory
        (\<lambda>k. if k = ''x'' then None else Some \<lparr>in_timeout = Some None, in_retry = None, in_circuitBreaker = None\<rparr>)
        (\<lambda>_. None :: (string \<Rightarrow> bool) option))))))
    = Inr (0, \<lparr>pol_attempt = Single (Timeout_Layer 5000), pol_maxRetries = 0, pol_backoffMs = 0, pol_handle = None\<rparr>)"
proof -
  let ?f = "ResiliencePolicyFactory
        (\<lambda>k. if k = ''x'' then None else Some \<lparr>in_timeout = Some None, in_retry = None, in_circuitBreaker = None\<rparr>)
        (\<lambda>_. None :: (string \<Rightarrow> bool) option)"
  have "fst (policy_get id ''db'' ?f)
      = Inr (0, \<lparr>pol_attempt = Single (Timeout_Layer 5000), pol_maxRetries = 0, pol_backoffMs = 0, pol_handle = None\<rparr>)"
    by (simp add: policy_get_def ResiliencePolicyFactory_def createResiliencePolicy_def parse_config_def
        optional_section_def parse_timeout_def int_field_def with_default_def policy_layers_def
        compose_layers_def List.map_filter_def)
  then show ?thesis by (intro policy_shared [where f = ?f]) (simp add: prod_eq_iff)
qed

subsection \<open>The signal of a request\<close>

text \<open>
  \<^verbatim>\<open>packages/tsed-resilience/src/getRequestSignal.ts\<close>: the controller memoised on the request's context,
  its two listeners on the raw request, and the disconnect events.
\<close>

record request_context =
  rq_controller :: "nat option"
  rq_has_once :: bool
  rq_listeners :: "string list"
  rq_aborted :: bool

text \<open>\<open>fresh\<close> is the identity of the controller the call creates.\<close>

definition getRequestSignal :: "nat \<Rightarrow> request_context \<Rightarrow> nat \<times> request_context" where
  "getRequestSignal fresh ctx =
     (case rq_controller ctx of
        Some c \<Rightarrow> (c, ctx)
      | None \<Rightarrow>
          (let ctx' = ctx\<lparr>rq_controller := Some fresh\<rparr> in
           if rq_has_once ctx
           then (fresh, ctx'\<lparr>rq_listeners := rq_listeners ctx @ [''aborted'', ''close'']\<rparr>)
           else (fresh, ctx')))"

text \<open>The raw request emits an event: a \<open>once\<close> listener runs and is removed.\<close>

definition request_emits :: "string \<Rightarrow> request_context \<Rightarrow> request_context" where
  "request_emits ev ctx =
     (if ev \<in> set (rq_listeners ctx)
      then ctx\<lparr>rq_listeners := remove1 ev (rq_listeners ctx), rq_aborted := True\<rparr> else ctx)"

datatype request_step = Asks nat | Emits string

fun request_run :: "request_step \<Rightarrow> request_context \<Rightarrow> request_context" where
  "request_run (Asks fresh) ctx = snd (getRequestSignal fresh ctx)"
| "request_run (Emits ev) ctx = request_emits ev ctx"

text \<open>
  The signal of a request: once asked for, every later caller of the same request gets
  the same controller; it aborts as soon as the request emits \<open>aborted\<close> or \<open>close\<close>, and not before.
\<close>

theorem request_signal:
  assumes "rq_controller ctx = None" and "rq_has_once ctx" and "rq_listeners ctx = []" and "\<not> rq_aborted ctx"
    and "ctx' = fold request_run steps (snd (getRequestSignal c ctx))"
  shows "(\<forall>fresh. fst (getRequestSignal fresh ctx') = c)
    \<and> (rq_aborted ctx' \<longleftrightarrow> Emits ''aborted'' \<in> set steps \<or> Emits ''close'' \<in> set steps)"
proof -
  have inv: "rq_controller (fold request_run steps x) = Some c
      \<and> (rq_aborted (fold request_run steps x) \<longleftrightarrow>
          rq_aborted x \<or> (\<exists>ev \<in> set (rq_listeners x). Emits ev \<in> set steps))"
    if "rq_controller x = Some c" "\<not> rq_aborted x \<longrightarrow> rq_listeners x = [''aborted'', ''close'']" for x
    using that
  proof (induction steps arbitrary: x)
    case (Cons s steps)
    show ?case
    proof (cases s)
      case (Asks n)
      with Cons show ?thesis by (simp add: getRequestSignal_def)
    next
      case (Emits ev)
      let ?x = "request_emits ev x"
      have "rq_controller ?x = Some c" "\<not> rq_aborted ?x \<longrightarrow> rq_listeners ?x = [''aborted'', ''close'']"
        using Cons.prems by (auto simp: request_emits_def)
      from Cons.IH [OF this] show ?thesis
        using Cons.prems Emits by (auto simp: request_emits_def)
    qed
  qed simp
  let ?x = "snd (getRequestSignal c ctx)"
  have "rq_controller ?x = Some c" "rq_listeners ?x = [''aborted'', ''close'']" "\<not> rq_aborted ?x"
    using assms(1-4) by (simp_all add: getRequestSignal_def Let_def)
  with inv [of ?x] show ?thesis unfolding assms(5) by (simp add: getRequestSignal_def)
qed

lemma request_signal_witness:
  "rq_aborted (fold request_run [Asks 9, Emits ''close''] (snd (getRequestSignal 1
      \<lparr>rq_controller = None, rq_has_once = True, rq_listeners = [], rq_aborted = False\<rparr>)))"
  using request_signal [of "\<lparr>rq_controller = None, rq_has_once = True, rq_listeners = [], rq_aborted = False\<rparr>",
      OF _ _ _ _ refl, of "[Asks 9, Emits ''close'']" 1] by simp

end
