(* ===== verification/Health.thy ===== *)
theory Health
  imports Resilience "HOL-Library.Multiset"
begin

text \<open>
  \<^verbatim>\<open>packages/health\<close> and \<^verbatim>\<open>packages/tsed-health\<close>: checks, their evaluation and roll-up, the registry
  with its result window and its single flight, the probe endpoints and the shutdown sequence.
  A check is its name, whether it is critical, and what one run of it comes to.
\<close>

subsection \<open>Checks and reports\<close>

datatype health_status = Pass | Warn | Fail

definition MAX_DETAIL_LENGTH :: nat where "MAX_DETAIL_LENGTH = 120"

record check_result =
  cr_status :: health_status
  cr_detail :: "string option"
  cr_observed :: "int option"

record health_check =
  hc_name :: string
  hc_critical :: bool

type_synonym evaluated_check = "health_check \<times> check_result"

record health_report =
  rp_status :: health_status
  rp_checks :: "(string \<times> check_result) list option"

definition status_only :: "health_status \<Rightarrow> check_result" where
  "status_only s = \<lparr>cr_status = s, cr_detail = None, cr_observed = None\<rparr>"

definition status_detail :: "health_status \<Rightarrow> string \<Rightarrow> check_result" where
  "status_detail s d = \<lparr>cr_status = s, cr_detail = Some d, cr_observed = None\<rparr>"

definition isReady :: "evaluated_check list \<Rightarrow> bool" where
  "isReady evaluated = list_all (\<lambda>(check, result). \<not> hc_critical check \<or> cr_status result \<noteq> Fail) evaluated"

definition rollUp :: "evaluated_check list \<Rightarrow> health_status" where
  "rollUp evaluated =
     (if \<not> isReady evaluated then Fail
      else if list_ex (\<lambda>(_, result). cr_status result = Warn \<or> cr_status result = Fail) evaluated
      then Warn else Pass)"

definition buildReport :: "evaluated_check list \<Rightarrow> bool \<Rightarrow> health_report" where
  "buildReport evaluated includeChecks =
     (if \<not> includeChecks then \<lparr>rp_status = rollUp evaluated, rp_checks = None\<rparr>
      else \<lparr>rp_status = rollUp evaluated,
            rp_checks = Some (fold (\<lambda>(check, result). AList.update (hc_name check) result) evaluated [])\<rparr>)"

subsection \<open>One check\<close>

definition truncate_detail :: "string \<Rightarrow> string" where
  "truncate_detail detail = (if length detail \<le> MAX_DETAIL_LENGTH then detail else take MAX_DETAIL_LENGTH detail)"

definition sanitise :: "check_result \<Rightarrow> check_result" where
  "sanitise result = \<lparr>cr_status = cr_status result, cr_detail = map_option truncate_detail (cr_detail result),
     cr_observed = cr_observed result\<rparr>"

text \<open>Which side of \<^verbatim>\<open>Promise.race\<close> settled first: the check, with a value or an error, or its deadline.\<close>

datatype check_outcome = Check_Settled "thrown + check_result" | Deadline_First

fun error_name :: "thrown \<Rightarrow> string" where
  "error_name (MiotError _ _ _ _ _ _) = ''MiotError''"
| "error_name (JsError n _) = n"
| "error_name (ThrownValue _) = ''Error''"

definition runOne :: "health_check \<Rightarrow> check_outcome \<Rightarrow> evaluated_check" where
  "runOne check outcome =
     (case outcome of
        Check_Settled (Inr result) \<Rightarrow> (check, sanitise result)
      | Deadline_First \<Rightarrow> (check, sanitise (status_detail Fail ''timeout''))
      | Check_Settled (Inl err) \<Rightarrow> (check, status_detail Fail (truncate_detail (error_name err))))"

text \<open>\<^verbatim>\<open>packages/health/src/checks/breakerCheck.ts\<close> and \<^verbatim>\<open>packages/tsed-health/src/mongoose.ts\<close>.\<close>

fun circuit_mapping :: "circuit_state \<Rightarrow> string \<times> health_status" where
  "circuit_mapping Circuit_Closed = (''closed'', Pass)"
| "circuit_mapping Circuit_Open = (''open'', Fail)"
| "circuit_mapping Circuit_HalfOpen = (''half-open'', Warn)"
| "circuit_mapping Circuit_Isolated = (''isolated'', Fail)"

definition breakerCheck :: "circuit_state option \<Rightarrow> check_result" where
  "breakerCheck state =
     (case state of
        None \<Rightarrow> status_detail Warn ''circuit-unknown''
      | Some s \<Rightarrow>
          (case circuit_mapping s of (name, status) \<Rightarrow>
             if status = Pass then status_only Pass else status_detail status (''circuit-'' @ name)))"

definition breaker_health_check :: "string \<Rightarrow> bool option \<Rightarrow> health_check" where
  "breaker_health_check name critical = \<lparr>hc_name = name, hc_critical = with_default False critical\<rparr>"

definition ready_state_name :: "int \<Rightarrow> string" where
  "ready_state_name n =
     (if n = 0 then ''disconnected'' else if n = 1 then ''connected'' else if n = 2 then ''connecting''
      else if n = 3 then ''disconnecting'' else if n = 99 then ''uninitialized'' else ''unknown'')"

definition mongo_health_check :: health_check where
  "mongo_health_check = \<lparr>hc_name = ''mongodb'', hc_critical = True\<rparr>"

definition mongo_check :: "int option \<Rightarrow> check_result" where
  "mongo_check readyState =
     (case readyState of
        None \<Rightarrow> status_detail Pass ''disabled''
      | Some n \<Rightarrow> if n = 1 then status_only Pass else status_detail Fail (ready_state_name n))"

subsection \<open>The registry\<close>

record health_config =
  hf_checkTimeoutMs :: int
  hf_cacheTtlMs :: int
  hf_exposeDetail :: bool

definition parse_health_config :: "int option \<Rightarrow> int option \<Rightarrow> bool option \<Rightarrow> health_config option" where
  "parse_health_config timeout ttl expose =
     (case (int_field 1 2000 timeout, int_field 0 1000 ttl) of
        (Some t, Some c) \<Rightarrow> Some \<lparr>hf_checkTimeoutMs = t, hf_cacheTtlMs = c, hf_exposeDetail = with_default True expose\<rparr>
      | _ \<Rightarrow> None)"

record health_evaluation =
  ev_ready :: bool
  ev_evaluated :: "evaluated_check list"

definition run_all :: "health_check list \<Rightarrow> check_outcome list \<Rightarrow> health_evaluation" where
  "run_all checks outcomes =
     (let evaluated = map (\<lambda>(check, outcome). runOne check outcome) (zip checks outcomes)
      in \<lparr>ev_ready = isReady evaluated, ev_evaluated = evaluated\<rparr>)"

text \<open>
  The registry under concurrent callers. \<open>hr_inFlight\<close> holds the callers that await the shared
  promise; \<open>hr_started\<close> and \<open>hr_finished\<close> count passes, \<open>hr_answered\<close> is what callers were given.
\<close>

record health_registry =
  hr_checks :: "health_check list"
  hr_config :: health_config
  hr_inFlight :: "nat list option"
  hr_cached :: "(int \<times> health_evaluation) option"
  hr_started :: nat
  hr_finished :: nat
  hr_answered :: "(nat \<times> health_evaluation) list"

definition HealthRegistry :: "health_check list \<Rightarrow> health_config \<Rightarrow> health_registry" where
  "HealthRegistry checks config =
     \<lparr>hr_checks = checks, hr_config = config, hr_inFlight = None, hr_cached = None,
      hr_started = 0, hr_finished = 0, hr_answered = []\<rparr>"

definition cache_fresh :: "int \<Rightarrow> health_registry \<Rightarrow> health_evaluation option" where
  "cache_fresh now reg =
     (case hr_cached reg of
        Some (since, v) \<Rightarrow> if now - since < hf_cacheTtlMs (hr_config reg) then Some v else None
      | None \<Rightarrow> None)"

definition evaluate_called :: "nat \<Rightarrow> int \<Rightarrow> health_registry \<Rightarrow> health_registry" where
  "evaluate_called caller now reg =
     (case cache_fresh now reg of
        Some v \<Rightarrow> reg\<lparr>hr_answered := hr_answered reg @ [(caller, v)]\<rparr>
      | None \<Rightarrow>
          (case hr_inFlight reg of
             Some callers \<Rightarrow> reg\<lparr>hr_inFlight := Some (callers @ [caller])\<rparr>
           | None \<Rightarrow> reg\<lparr>hr_inFlight := Some [caller], hr_started := hr_started reg + 1\<rparr>))"

definition run_finished :: "check_outcome list \<Rightarrow> int \<Rightarrow> health_registry \<Rightarrow> health_registry" where
  "run_finished outcomes now reg =
     (case hr_inFlight reg of
        None \<Rightarrow> reg
      | Some callers \<Rightarrow>
          (let v = run_all (hr_checks reg) outcomes
           in reg\<lparr>hr_cached := Some (now, v), hr_inFlight := None, hr_finished := hr_finished reg + 1,
                  hr_answered := hr_answered reg @ map (\<lambda>c. (c, v)) callers\<rparr>))"

datatype registry_event = Evaluate_Call nat int | Run_Finished "check_outcome list" int

fun registry_step :: "registry_event \<Rightarrow> health_registry \<Rightarrow> health_registry" where
  "registry_step (Evaluate_Call caller now) reg = evaluate_called caller now reg"
| "registry_step (Run_Finished outcomes now) reg = run_finished outcomes now reg"

text \<open>\<open>evaluate\<close> for a caller that awaits it with nobody else around, and \<open>report\<close>.\<close>

record 'w health_world =
  hw_now :: "'w \<Rightarrow> int"
  hw_run :: "health_check list \<Rightarrow> 'w \<Rightarrow> check_outcome list \<times> 'w"

definition evaluate ::
  "'w health_world \<Rightarrow> health_registry \<times> 'w \<Rightarrow> health_evaluation \<times> health_registry \<times> 'w" where
  "evaluate hw s =
     (let (reg, w) = s in
      case cache_fresh (hw_now hw w) reg of
        Some v \<Rightarrow> (v, evaluate_called 0 (hw_now hw w) reg, w)
      | None \<Rightarrow>
          (let (outcomes, w') = hw_run hw (hr_checks reg) w
           in (run_all (hr_checks reg) outcomes,
               run_finished outcomes (hw_now hw w') (evaluate_called 0 (hw_now hw w) reg), w')))"

definition report ::
  "'w health_world \<Rightarrow> health_registry \<times> 'w \<Rightarrow> health_report \<times> health_registry \<times> 'w" where
  "report hw s =
     (let (v, reg, w) = evaluate hw s
      in (buildReport (ev_evaluated v) (hf_exposeDetail (hr_config reg)), reg, w))"

text \<open>\<^verbatim>\<open>HealthCheckService.evaluate\<close> of \<^verbatim>\<open>packages/tsed-health\<close>.\<close>

definition service_evaluate ::
  "'w health_world \<Rightarrow> health_registry \<times> 'w \<Rightarrow> (bool \<times> health_report) \<times> health_registry \<times> 'w" where
  "service_evaluate hw s =
     (let (v, s1) = evaluate hw s; (rep, s2) = report hw s1 in ((ev_ready v, rep), s2))"

subsection \<open>The probe endpoints\<close>

record probe_response =
  pb_status :: int
  pb_contentType :: string
  pb_body :: health_report

definition HEALTH_CONTENT_TYPE :: string where
  "HEALTH_CONTENT_TYPE = ''application/health+json''"

definition respond :: "int \<Rightarrow> health_report \<Rightarrow> probe_response" where
  "respond status body = \<lparr>pb_status = status, pb_contentType = HEALTH_CONTENT_TYPE, pb_body = body\<rparr>"

definition bare_report :: "health_status \<Rightarrow> health_report" where
  "bare_report s = \<lparr>rp_status = s, rp_checks = None\<rparr>"

definition probe_live :: probe_response where
  "probe_live = respond 200 (bare_report Pass)"

definition probe_ready ::
  "'w health_world \<Rightarrow> bool \<Rightarrow> health_registry \<times> 'w \<Rightarrow> probe_response \<times> health_registry \<times> 'w" where
  "probe_ready hw draining s =
     (if draining then (respond 503 (bare_report Fail), s)
      else let ((ready, rep), s') = service_evaluate hw s
           in (respond (if ready then 200 else 503) (bare_report (rp_status rep)), s'))"

definition probe_detail ::
  "'w health_world \<Rightarrow> bool \<Rightarrow> health_registry \<times> 'w \<Rightarrow> probe_response \<times> health_registry \<times> 'w" where
  "probe_detail hw draining s =
     (if draining then (respond 503 (bare_report Fail), s)
      else let (rep, s') = report hw s
           in (respond (if rp_status rep = Fail then 503 else 200) rep, s'))"

subsection \<open>What a report says\<close>

lemma isReady_iff: "isReady evs \<longleftrightarrow> (\<forall>(c, r) \<in> set evs. hc_critical c \<longrightarrow> cr_status r \<noteq> Fail)"
  by (auto simp: isReady_def list_all_iff)

text \<open>
  The roll-up is a function of what was found, in whatever order: \<open>Fail\<close> exactly when a
  critical check failed, which is exactly when the pod is not ready; else \<open>Warn\<close> exactly when some
  result is not \<open>Pass\<close>. So a check that is not critical never takes the pod out of service.
\<close>

theorem rollUp_spec:
  "(rollUp evs = Fail \<longleftrightarrow> (\<exists>(c, r) \<in> set evs. hc_critical c \<and> cr_status r = Fail))
   \<and> (rollUp evs = Warn \<longleftrightarrow> (\<forall>(c, r) \<in> set evs. hc_critical c \<longrightarrow> cr_status r \<noteq> Fail)
        \<and> (\<exists>(c, r) \<in> set evs. cr_status r \<noteq> Pass))
   \<and> (isReady evs \<longleftrightarrow> rollUp evs \<noteq> Fail)
   \<and> isReady evs = isReady (filter (\<lambda>(c, r). hc_critical c) evs)"
proof -
  have st: "cr_status r = Warn \<or> cr_status r = Fail \<longleftrightarrow> cr_status r \<noteq> Pass" for r
    by (cases "cr_status r") auto
  have ready: "isReady evs \<longleftrightarrow> rollUp evs \<noteq> Fail" by (simp add: rollUp_def)
  have crit: "isReady evs = isReady (filter (\<lambda>(c, r). hc_critical c) evs)" by (fastforce simp: isReady_iff)
  have fail: "rollUp evs = Fail \<longleftrightarrow> (\<exists>(c, r) \<in> set evs. hc_critical c \<and> cr_status r = Fail)"
    using ready by (fastforce simp: isReady_iff)
  have warn: "rollUp evs = Warn \<longleftrightarrow> isReady evs \<and> (\<exists>(c, r) \<in> set evs. cr_status r \<noteq> Pass)"
    by (auto simp: rollUp_def list_ex_iff st)
  show ?thesis using ready crit fail warn by (simp add: isReady_iff)
qed

lemma rollUp_spec_witness:
  "rollUp [(breaker_health_check ''api'' None, breakerCheck (Some Circuit_Open))] = Warn"
  using rollUp_spec [of "[(breaker_health_check ''api'' None, breakerCheck (Some Circuit_Open))]"]
  by (simp add: breaker_health_check_def with_default_def breakerCheck_def status_detail_def)

text \<open>
  The statuses in the order of severity. What a check contributes is its status, a failure of a check that is not
  critical no more than a warning; the roll-up is the worst contribution, so parts of a report roll up separately.
\<close>

fun severity :: "health_status \<Rightarrow> nat" where
  "severity Pass = 0" | "severity Warn = 1" | "severity Fail = 2"

instantiation health_status :: linorder
begin

definition less_eq_health_status :: "health_status \<Rightarrow> health_status \<Rightarrow> bool" where
  "less_eq_health_status a b \<longleftrightarrow> severity a \<le> severity b"

definition less_health_status :: "health_status \<Rightarrow> health_status \<Rightarrow> bool" where
  "less_health_status a b \<longleftrightarrow> severity a < severity b"

instance
proof
  fix a b :: health_status
  show "a \<le> b \<Longrightarrow> b \<le> a \<Longrightarrow> a = b" by (cases a; cases b) (simp_all add: less_eq_health_status_def)
qed (auto simp: less_eq_health_status_def less_health_status_def)

end

definition contribution :: "evaluated_check \<Rightarrow> health_status" where
  "contribution e = (case e of (c, r) \<Rightarrow> if cr_status r = Fail \<and> \<not> hc_critical c then Warn else cr_status r)"

lemma status_order [simp]: "Pass \<le> s" "max Pass s = s" "max s Pass = s" "max Fail s = Fail" "max s Fail = Fail"
  by (cases s; simp add: less_eq_health_status_def max_def)+

lemma isReady_Cons: "isReady (e # es) \<longleftrightarrow> contribution e \<noteq> Fail \<and> isReady es"
  by (cases e) (auto simp: isReady_def contribution_def)

lemma rollUp_Cons: "rollUp (e # es) = max (contribution e) (rollUp es)"
proof (cases "contribution e")
  case Pass
  then have "cr_status (snd e) = Pass" by (cases e) (auto simp: contribution_def split: if_splits)
  then show ?thesis using Pass by (cases e) (simp add: rollUp_def isReady_Cons)
next
  case Warn
  then have "cr_status (snd e) \<noteq> Pass" by (cases e) (auto simp: contribution_def)
  moreover have "max Warn s = (if s = Fail then Fail else Warn)" for s by (cases s) (simp_all add: max_def less_eq_health_status_def)
  ultimately show ?thesis using Warn by (cases e; cases "cr_status (snd e)") (simp_all add: rollUp_def isReady_Cons)
qed (simp add: rollUp_def isReady_Cons)

theorem rollUp_worst:
  "rollUp evs = fold (max \<circ> contribution) evs Pass"
proof -
  have "fold (max \<circ> contribution) evs s = max s (rollUp evs)" for s
    by (induction evs arbitrary: s) (simp_all add: rollUp_Cons max.assoc max.left_commute, simp add: rollUp_def isReady_def)
  then show ?thesis by simp
qed

text \<open>Two parts of a report roll up separately, and the order of the checks does not matter.\<close>

corollary rollUp_append: "rollUp (es @ fs) = max (rollUp es) (rollUp fs)"
  by (induction es) (simp_all add: rollUp_Cons max.assoc, simp add: rollUp_def isReady_def)

definition detail_ok :: "check_result \<Rightarrow> bool" where
  "detail_ok r \<longleftrightarrow> (case cr_detail r of None \<Rightarrow> True | Some d \<Rightarrow> length d \<le> MAX_DETAIL_LENGTH)"

lemma truncate_detail_length [simp]: "length (truncate_detail d) \<le> MAX_DETAIL_LENGTH"
  by (simp add: truncate_detail_def)

lemma runOne_detail: "detail_ok (snd (runOne c out))"
  by (auto simp: runOne_def detail_ok_def sanitise_def status_detail_def split: check_outcome.splits sum.splits option.splits)

lemma update_value: "(n, r) \<in> set (AList.update k x m) \<Longrightarrow> r = x \<or> (n, r) \<in> set m"
  by (induction m) (auto split: if_splits)

lemma update_all_values:
  assumes "\<forall>(c, r) \<in> set evs. P r" and "\<forall>(n, r) \<in> set m. P r" and "(n, r) \<in> set (fold (\<lambda>(c, r). AList.update (hc_name c) r) evs m)"
  shows "P r"
  using assms
proof (induction evs arbitrary: m)
  case Nil
  then show ?case by auto
next
  case (Cons e evs)
  obtain c x where e: "e = (c, x)" by (cases e)
  have "\<forall>(n, r) \<in> set (AList.update (hc_name c) x m). P r"
    using Cons.prems(1,2) e by (fastforce dest: update_value)
  with Cons e show ?case by simp
qed

text \<open>The same outcome, its error reworded.\<close>

fun reword_error :: "(string \<Rightarrow> string) \<Rightarrow> thrown \<Rightarrow> thrown" where
  "reword_error f (MiotError m k me c ca r) = MiotError (f m) k me c ca r"
| "reword_error f (JsError n m) = JsError n (f m)"
| "reword_error f (ThrownValue v) = ThrownValue (f v)"

fun reword :: "(string \<Rightarrow> string) \<Rightarrow> check_outcome \<Rightarrow> check_outcome" where
  "reword f (Check_Settled (Inl e)) = Check_Settled (Inl (reword_error f e))"
| "reword f (Check_Settled (Inr r)) = Check_Settled (Inr r)"
| "reword f Deadline_First = Deadline_First"

lemma runOne_reword: "runOne c (reword f out) = runOne c out"
proof -
  have "error_name (reword_error f e) = error_name e" for e by (cases e) auto
  then show ?thesis by (cases "(f, out)" rule: reword.cases) (auto simp: runOne_def)
qed

text \<open>
  No report leaks an error: every detail in it has at most 120 characters, and what a
  failing check contributes depends on the name of the error only: two runs that differ in error
  messages produce the same report.
\<close>

theorem report_leaks_no_message:
  "(\<forall>n r cs. rp_checks (buildReport (ev_evaluated (run_all checks outcomes)) True) = Some cs \<longrightarrow> (n, r) \<in> set cs \<longrightarrow> detail_ok r)
   \<and> run_all checks (map (reword other) outcomes) = run_all checks outcomes"
proof (intro conjI allI impI)
  fix n r cs
  assume "rp_checks (buildReport (ev_evaluated (run_all checks outcomes)) True) = Some cs" and mem: "(n, r) \<in> set cs"
  then have cs: "cs = fold (\<lambda>(c, r). AList.update (hc_name c) r) (ev_evaluated (run_all checks outcomes)) []"
    by (simp add: buildReport_def)
  have "\<forall>(c, r) \<in> set (ev_evaluated (run_all checks outcomes)). detail_ok r"
    using runOne_detail by (auto simp: run_all_def Let_def) (metis snd_conv)
  from update_all_values [OF this _ mem [unfolded cs]] show "detail_ok r" by simp
next
  show "run_all checks (map (reword other) outcomes) = run_all checks outcomes"
    by (simp add: run_all_def zip_map2 case_prod_unfold runOne_reword comp_def)
qed

lemma report_leaks_no_message_witness:
  "run_all [mongo_health_check] [Check_Settled (Inl (JsError ''MongooseError'' ''mongodb://user:pw@db''))]
    = run_all [mongo_health_check] [Check_Settled (Inl (JsError ''MongooseError'' []))]"
  using conjunct2 [OF report_leaks_no_message [of "[mongo_health_check]"
      "[Check_Settled (Inl (JsError ''MongooseError'' ''mongodb://user:pw@db''))]" "\<lambda>_. []"]] by simp

subsection \<open>Single flight\<close>

definition registry_inv :: "health_registry \<Rightarrow> bool" where
  "registry_inv reg \<longleftrightarrow> hr_started reg = hr_finished reg + (if hr_inFlight reg = None then 0 else 1)
     \<and> hr_inFlight reg \<noteq> Some []"

lemma registry_inv_step: "registry_inv reg \<Longrightarrow> registry_inv (registry_step ev reg)"
  by (cases ev) (auto simp: registry_inv_def evaluate_called_def run_finished_def Let_def split: option.splits)

lemma registry_inv_run: "registry_inv reg \<Longrightarrow> registry_inv (fold registry_step evs reg)"
  by (induction evs arbitrary: reg) (auto simp: registry_inv_step)

definition calls_of :: "registry_event list \<Rightarrow> nat list" where
  "calls_of evs = List.map_filter (\<lambda>e. case e of Evaluate_Call c _ \<Rightarrow> Some c | Run_Finished _ _ \<Rightarrow> None) evs"

definition awaiting :: "health_registry \<Rightarrow> nat list" where
  "awaiting reg = (case hr_inFlight reg of None \<Rightarrow> [] | Some cs \<Rightarrow> cs)"

lemma callers_conserved_step:
  "mset (map fst (hr_answered (registry_step ev reg))) + mset (awaiting (registry_step ev reg))
    = mset (map fst (hr_answered reg)) + mset (awaiting reg) + mset (calls_of [ev])"
  by (cases ev) (auto simp: awaiting_def calls_of_def evaluate_called_def run_finished_def Let_def
      List.map_filter_def comp_def image_mset.compositionality split: option.splits)

lemma callers_conserved:
  "mset (map fst (hr_answered (fold registry_step evs reg))) + mset (awaiting (fold registry_step evs reg))
    = mset (map fst (hr_answered reg)) + mset (awaiting reg) + mset (calls_of evs)"
proof (induction evs arbitrary: reg)
  case Nil
  then show ?case by (simp add: calls_of_def List.map_filter_def)
next
  case (Cons ev evs)
  have "calls_of (ev # evs) = calls_of [ev] @ calls_of evs"
    by (simp add: calls_of_def List.map_filter_def)
  with Cons.IH [of "registry_step ev reg"] callers_conserved_step [of ev reg] show ?case
    by (simp add: union_assoc)
qed

text \<open>
  Property C20. Single flight: however calls and completions interleave, at most one pass over the
  checks runs at a time, every call is either answered exactly once or still waits for the pass
  under way, and once that pass ends no call is left waiting.
\<close>

theorem single_flight:
  assumes "reg = fold registry_step evs (HealthRegistry checks config)"
  shows "hr_started reg \<le> hr_finished reg + 1
    \<and> mset (map fst (hr_answered reg)) + mset (awaiting reg) = mset (calls_of evs)
    \<and> awaiting (registry_step (Run_Finished outcomes now) reg) = []
    \<and> (hr_started reg = hr_finished reg \<longrightarrow> mset (map fst (hr_answered reg)) = mset (calls_of evs))"
proof -
  have inv: "registry_inv reg" unfolding assms
    by (rule registry_inv_run) (simp add: registry_inv_def HealthRegistry_def)
  have cons: "mset (map fst (hr_answered reg)) + mset (awaiting reg) = mset (calls_of evs)"
    using callers_conserved [of evs "HealthRegistry checks config"]
    by (simp add: assms HealthRegistry_def awaiting_def)
  have fin: "awaiting (registry_step (Run_Finished outcomes now) reg) = []"
    by (simp add: awaiting_def run_finished_def Let_def split: option.splits)
  show ?thesis using inv cons fin by (auto simp: registry_inv_def awaiting_def split: if_splits option.splits)
qed

lemma single_flight_witness:
  "hr_started (fold registry_step [Evaluate_Call 1 0, Evaluate_Call 2 1, Evaluate_Call 3 2, Run_Finished [] 9]
      (HealthRegistry [] \<lparr>hf_checkTimeoutMs = 2000, hf_cacheTtlMs = 1000, hf_exposeDetail = True\<rparr>)) = 1
   \<and> length (hr_answered (fold registry_step [Evaluate_Call 1 0, Evaluate_Call 2 1, Evaluate_Call 3 2, Run_Finished [] 9]
      (HealthRegistry [] \<lparr>hf_checkTimeoutMs = 2000, hf_cacheTtlMs = 1000, hf_exposeDetail = True\<rparr>))) = 3"
proof -
  let ?reg = "fold registry_step [Evaluate_Call 1 0, Evaluate_Call 2 1, Evaluate_Call 3 2, Run_Finished [] 9]
      (HealthRegistry [] \<lparr>hf_checkTimeoutMs = 2000, hf_cacheTtlMs = 1000, hf_exposeDetail = True\<rparr>)"
  have one: "hr_started ?reg = 1 \<and> hr_finished ?reg = 1"
    by (simp add: HealthRegistry_def evaluate_called_def run_finished_def cache_fresh_def Let_def)
  from single_flight [of ?reg "[Evaluate_Call 1 0, Evaluate_Call 2 1, Evaluate_Call 3 2, Run_Finished [] 9]" "[]"
      "\<lparr>hf_checkTimeoutMs = 2000, hf_cacheTtlMs = 1000, hf_exposeDetail = True\<rparr>", OF refl] one
  have "mset (map fst (hr_answered ?reg)) = mset [1, 2, 3]"
    by (simp add: calls_of_def List.map_filter_def)
  then have "size (mset (map fst (hr_answered ?reg))) = 3" by simp
  with one show ?thesis by simp
qed

text \<open>The caller on its own is the event machine's two steps.\<close>

lemma evaluate_refines:
  assumes "hr_inFlight reg = None" and "evaluate hw (reg, w) = (v, reg', w')"
  shows "hr_answered reg' = hr_answered reg @ [(0, v)] \<and> hr_inFlight reg' = None"
  using assms by (auto simp: evaluate_def Let_def evaluate_called_def run_finished_def split: option.splits prod.splits)

text \<open>
  \<open>HealthCheckService.evaluate\<close> does not evaluate every check once: with the result
  window switched off (\<open>cacheTtlMs: 0\<close>) the readiness verdict comes from one pass over the checks and
  the report from another, so \<open>/health/ready\<close> can answer 200 with the body \<open>fail\<close>, or 503 with
  \<open>pass\<close>, when a critical check changes in between.
\<close>

theorem ready_and_report_disagree:
  assumes ttl: "hf_cacheTtlMs (hr_config reg) = 0" and idle: "hr_inFlight reg = None" and old: "hr_cached reg = None"
    and run1: "hw_run hw (hr_checks reg) w = (out1, w1)" and run2: "hw_run hw (hr_checks reg) w1 = (out2, w2)"
    and clock: "hw_now hw w1 \<ge> hw_now hw w"
  shows "\<exists>reg'. probe_ready hw False (reg, w)
    = (respond (if isReady (ev_evaluated (run_all (hr_checks reg) out1)) then 200 else 503)
         (bare_report (rollUp (ev_evaluated (run_all (hr_checks reg) out2)))), reg', w2)"
proof -
  let ?v1 = "run_all (hr_checks reg) out1"
  have ready: "ev_ready ?v1 = isReady (ev_evaluated ?v1)" by (simp add: run_all_def Let_def)
  obtain reg1 where e1: "evaluate hw (reg, w) = (?v1, reg1, w1)"
    and keep: "hr_checks reg1 = hr_checks reg" "hr_config reg1 = hr_config reg" "hr_cached reg1 = Some (hw_now hw w1, ?v1)"
    using old idle run1
    by (simp add: evaluate_def cache_fresh_def evaluate_called_def run_finished_def Let_def)
  have stale: "cache_fresh (hw_now hw w1) reg1 = None" using keep ttl by (simp add: cache_fresh_def)
  obtain reg2 where e2: "evaluate hw (reg1, w1) = (run_all (hr_checks reg) out2, reg2, w2)"
    using stale run2 keep by (simp add: evaluate_def Let_def)
  have "rp_status (buildReport evs b) = rollUp evs" for evs b by (simp add: buildReport_def)
  then show ?thesis
    using e1 e2 ready by (simp add: probe_ready_def service_evaluate_def report_def Let_def split_def)
qed

definition flapping :: "nat health_world" where
  "flapping = \<lparr>hw_now = int, hw_run = (\<lambda>_ w. ([Check_Settled (Inr (mongo_check (Some (if w = 0 then 1 else 0))))], w + 1))\<rparr>"

lemma ready_and_report_disagree_witness:
  "\<exists>reg'. probe_ready flapping False
      (HealthRegistry [mongo_health_check] \<lparr>hf_checkTimeoutMs = 2000, hf_cacheTtlMs = 0, hf_exposeDetail = True\<rparr>, 0)
    = (respond 200 (bare_report Fail), reg', 2)"
proof -
  let ?reg = "HealthRegistry [mongo_health_check] \<lparr>hf_checkTimeoutMs = 2000, hf_cacheTtlMs = 0, hf_exposeDetail = True\<rparr>"
  from ready_and_report_disagree [of ?reg flapping 0 "[Check_Settled (Inr (mongo_check (Some 1)))]" 1
      "[Check_Settled (Inr (mongo_check (Some 0)))]" 2]
  show ?thesis
    by (simp add: HealthRegistry_def flapping_def run_all_def runOne_def mongo_check_def status_only_def
        status_detail_def sanitise_def isReady_def rollUp_def mongo_health_check_def)
qed

subsection \<open>The registry of a service\<close>

text \<open>
  \<^verbatim>\<open>HealthCheckService\<close>: the registry is built when it is first needed, from the checks the container holds at that
  moment; \<open>hc_providers\<close> are those registered so far.
\<close>

record health_service =
  hv_config :: health_config
  hv_registry :: "health_registry option"

record 'w health_container =
  hc_providers :: "health_check list"
  hc_service :: health_service
  hc_world :: 'w

definition new_health_service :: "health_config \<Rightarrow> health_service" where
  "new_health_service config = \<lparr>hv_config = config, hv_registry = None\<rparr>"

definition service_registry :: "health_check list \<Rightarrow> health_service \<Rightarrow> health_registry \<times> health_service" where
  "service_registry checks sv = (case hv_registry sv of
       Some registry \<Rightarrow> (registry, sv)
     | None \<Rightarrow> let registry = HealthRegistry checks (hv_config sv) in (registry, sv\<lparr>hv_registry := Some registry\<rparr>))"

text \<open>A call of the service: the registry it works on is the one it keeps.\<close>

definition with_registry ::
  "(health_registry \<times> 'w \<Rightarrow> 'a \<times> health_registry \<times> 'w) \<Rightarrow> 'w health_container \<Rightarrow> 'a \<times> 'w health_container" where
  "with_registry call c =
     (let (registry, sv) = service_registry (hc_providers c) (hc_service c);
          (answer, registry', w) = call (registry, hc_world c)
      in (answer, c\<lparr>hc_service := sv\<lparr>hv_registry := Some registry'\<rparr>, hc_world := w\<rparr>))"

definition service_report :: "'w health_world \<Rightarrow> 'w health_container \<Rightarrow> health_report \<times> 'w health_container" where
  "service_report hw = with_registry (report hw)"

definition service_ready :: "'w health_world \<Rightarrow> 'w health_container \<Rightarrow> (bool \<times> health_report) \<times> 'w health_container" where
  "service_ready hw = with_registry (service_evaluate hw)"

datatype container_event = Check_Provided health_check | Report_Asked | Readiness_Asked

fun container_step :: "'w health_world \<Rightarrow> container_event \<Rightarrow> 'w health_container \<Rightarrow> 'w health_container" where
  "container_step hw (Check_Provided check) c = c\<lparr>hc_providers := hc_providers c @ [check]\<rparr>"
| "container_step hw Report_Asked c = snd (service_report hw c)"
| "container_step hw Readiness_Asked c = snd (service_ready hw c)"

definition is_provision :: "container_event \<Rightarrow> bool" where
  "is_provision e = (case e of Check_Provided _ \<Rightarrow> True | _ \<Rightarrow> False)"

definition provided :: "container_event list \<Rightarrow> health_check list" where
  "provided es = List.map_filter (\<lambda>e. case e of Check_Provided check \<Rightarrow> Some check | _ \<Rightarrow> None) es"

lemma evaluate_checks: "hr_checks (fst (snd (evaluate hw s))) = hr_checks (fst s)"
  by (cases s) (simp add: evaluate_def evaluate_called_def run_finished_def Let_def split: option.splits prod.splits)

lemma report_checks: "hr_checks (fst (snd (report hw s))) = hr_checks (fst s)"
  using evaluate_checks [of hw s] by (simp add: report_def Let_def case_prod_beta)

lemma service_evaluate_checks: "hr_checks (fst (snd (service_evaluate hw s))) = hr_checks (fst s)"
  using evaluate_checks [of hw s] report_checks [of hw] by (simp add: service_evaluate_def Let_def case_prod_beta)

definition registry_checks :: "'w health_container \<Rightarrow> health_check list option" where
  "registry_checks c = map_option hr_checks (hv_registry (hc_service c))"

lemma with_registry_checks:
  assumes "\<And>s. hr_checks (fst (snd (call s))) = hr_checks (fst s)"
  shows "registry_checks (snd (with_registry call c)) = Some (case registry_checks c of Some checks \<Rightarrow> checks | None \<Rightarrow> hc_providers c)"
  using assms [of "(fst (service_registry (hc_providers c) (hc_service c)), hc_world c)"]
  by (simp add: with_registry_def service_registry_def registry_checks_def HealthRegistry_def Let_def case_prod_beta
      split: option.splits)

lemma container_run:
  "registry_checks (fold (container_step hw) es c) =
     (case registry_checks c of
        Some checks \<Rightarrow> Some checks
      | None \<Rightarrow> if list_all is_provision es then None else Some (hc_providers c @ provided (takeWhile is_provision es)))"
proof (induction es arbitrary: c)
  case (Cons e es)
  show ?case
  proof (cases e)
    case (Check_Provided check)
    then show ?thesis
      using Cons.IH [of "c\<lparr>hc_providers := hc_providers c @ [check]\<rparr>"]
      by (simp add: registry_checks_def is_provision_def provided_def List.map_filter_simps split: option.splits)
  next
    case Report_Asked
    then show ?thesis
      using Cons.IH [of "snd (service_report hw c)"] with_registry_checks [of "report hw" c, OF report_checks]
      by (simp add: service_report_def is_provision_def provided_def List.map_filter_simps split: option.splits)
  next
    case Readiness_Asked
    then show ?thesis
      using Cons.IH [of "snd (service_ready hw c)"] with_registry_checks [of "service_evaluate hw" c, OF service_evaluate_checks]
      by (simp add: service_ready_def is_provision_def provided_def List.map_filter_simps split: option.splits)
  qed
qed (simp split: option.splits)

text \<open>
  The checks a service evaluates are those registered before it was first asked, whatever is registered later and
  however often it is asked; before the first question there is no registry.
\<close>

theorem checks_fixed_when_first_asked:
  "registry_checks (fold (container_step hw) es \<lparr>hc_providers = [], hc_service = new_health_service config, hc_world = w\<rparr>)
     = (if list_all is_provision es then None else Some (provided (takeWhile is_provision es)))"
  by (simp add: container_run) (simp add: registry_checks_def new_health_service_def)

end
