(* ===== verification/Mqtt.thy ===== *)
theory Mqtt
  imports Telemetry Health
begin

text \<open>
  MQTT: the topics of the bridge (\<^verbatim>\<open>apis/miot-bridge-api/src/services/MqttTopicService.ts\<close>), the spans
  around a message (\<^verbatim>\<open>packages/otel/src/mqttTracing.ts\<close>, \<^verbatim>\<open>services/MqttTracingService.ts\<close>), the
  start-up of the client (\<^verbatim>\<open>providers/MqttClientProvider.ts\<close>) and its health check
  (\<^verbatim>\<open>health/MqttHealthCheck.ts\<close>). The broker, the client library, \<^verbatim>\<open>new URL\<close> and the propagator
  are parameters. A device id read from a topic is an integer; ids beyond \<^verbatim>\<open>2^53\<close>, which JavaScript
  would round, are outside the model.
\<close>

record mqtt_config =
  mq_enabled :: bool
  mq_url :: string
  mq_clientId :: "string option"
  mq_topicPrefix :: "string option"
  mq_notifications :: bool

subsection \<open>Topics\<close>

definition getPrefix :: "mqtt_config option \<Rightarrow> string" where
  "getPrefix mqtt = (case Option.bind mqtt mq_topicPrefix of None \<Rightarrow> [] | Some raw \<Rightarrow> strip_trailing_slashes raw)"

definition build_topic :: "mqtt_config option \<Rightarrow> string \<Rightarrow> string" where
  "build_topic mqtt path = (let prefix = getPrefix mqtt in if prefix = [] then path else prefix @ ''/'' @ path)"

definition DEVICE_ID_PLACEHOLDER :: string where "DEVICE_ID_PLACEHOLDER = ''{deviceId}''"

definition getCommandSubscriptionPattern :: "mqtt_config option \<Rightarrow> string" where
  "getCommandSubscriptionPattern mqtt = build_topic mqtt ''miot-bridge/device/+/command''"

definition getCommandTopic :: "mqtt_config option \<Rightarrow> int \<Rightarrow> string" where
  "getCommandTopic mqtt d = build_topic mqtt (''miot-bridge/device/'' @ show_int d @ ''/command'')"

definition getCommandTopicTemplate :: "mqtt_config option \<Rightarrow> string" where
  "getCommandTopicTemplate mqtt = build_topic mqtt (''miot-bridge/device/'' @ DEVICE_ID_PLACEHOLDER @ ''/command'')"

definition getResponseTopic :: "mqtt_config option \<Rightarrow> int \<Rightarrow> string" where
  "getResponseTopic mqtt d = build_topic mqtt (''miot-bridge/device/'' @ show_int d @ ''/response'')"

definition getResponseTopicTemplate :: "mqtt_config option \<Rightarrow> string" where
  "getResponseTopicTemplate mqtt = build_topic mqtt (''miot-bridge/device/'' @ DEVICE_ID_PLACEHOLDER @ ''/response'')"

definition getNotificationsTopic :: "mqtt_config option \<Rightarrow> int \<Rightarrow> string" where
  "getNotificationsTopic mqtt d = build_topic mqtt (''miot-bridge/device/'' @ show_int d @ ''/notifications'')"

definition getNotificationsTopicTemplate :: "mqtt_config option \<Rightarrow> string" where
  "getNotificationsTopicTemplate mqtt =
     build_topic mqtt (''miot-bridge/device/'' @ DEVICE_ID_PLACEHOLDER @ ''/notifications'')"

text \<open>\<^verbatim>\<open>topic.slice(a, b)\<close> with \<open>b\<close> before \<open>a\<close> is the empty string, and \<^verbatim>\<open>parseInt\<close> of it is \<^verbatim>\<open>NaN\<close>.\<close>

definition extractDeviceIdFromCommandTopic :: "mqtt_config option \<Rightarrow> string \<Rightarrow> int option" where
  "extractDeviceIdFromCommandTopic mqtt topic =
     (let prefix = getPrefix mqtt;
          before = (if prefix = [] then ''miot-bridge/device/'' else prefix @ ''/miot-bridge/device/'');
          after = ''/command''
      in if \<not> starts_with before topic \<or> \<not> ends_with after topic then None
         else parseInt (drop (length before) (take (length topic - length after) topic)))"

lemma before_build:
  "(if getPrefix mqtt = [] then ''miot-bridge/device/'' else getPrefix mqtt @ ''/miot-bridge/device/'') @ rest
     = build_topic mqtt (''miot-bridge/device/'' @ rest)"
  by (simp add: build_topic_def Let_def)

lemma extract_build:
  "extractDeviceIdFromCommandTopic mqtt (build_topic mqtt (''miot-bridge/device/'' @ idStr @ ''/command'')) = parseInt idStr"
proof -
  define before where "before = (if getPrefix mqtt = [] then ''miot-bridge/device/'' else getPrefix mqtt @ ''/miot-bridge/device/'')"
  have topic: "build_topic mqtt (''miot-bridge/device/'' @ idStr @ ''/command'') = (before @ idStr) @ ''/command''"
    using before_build [of mqtt "idStr @ ''/command''"] by (simp add: before_def)
  have "drop (length before) (take (length ((before @ idStr) @ ''/command'') - length ''/command'') ((before @ idStr) @ ''/command'')) = idStr"
    by simp
  moreover have "starts_with before ((before @ idStr) @ ''/command'')" by simp
  moreover have "ends_with ''/command'' ((before @ idStr) @ ''/command'')" by (rule ends_with_append)
  ultimately show ?thesis
    unfolding topic extractDeviceIdFromCommandTopic_def Let_def before_def [symmetric] by presburger
qed

lemma extract_needs_suffix:
  "\<not> ends_with ''/command'' topic \<Longrightarrow> extractDeviceIdFromCommandTopic mqtt topic = None"
  by (simp add: extractDeviceIdFromCommandTopic_def Let_def)

lemma build_topic_inject [simp]: "build_topic mqtt p = build_topic mqtt q \<longleftrightarrow> p = q"
  by (simp add: build_topic_def Let_def)

lemma not_command_suffix:
  "\<not> ends_with ''/command'' (build_topic mqtt (p @ ''/response''))"
  "\<not> ends_with ''/command'' (build_topic mqtt (p @ ''/notifications''))"
proof -
  have last: "ends_with ''/command'' x \<Longrightarrow> last x = CHR ''d''" for x
    unfolding ends_with_def by (metis append_take_drop_id last_appendR last.simps list.distinct(1))
  show "\<not> ends_with ''/command'' (build_topic mqtt (p @ ''/response''))"
    "\<not> ends_with ''/command'' (build_topic mqtt (p @ ''/notifications''))"
    using last [of "build_topic mqtt (p @ ''/response'')"] last [of "build_topic mqtt (p @ ''/notifications'')"]
    by (auto simp: build_topic_def Let_def)
qed

text \<open>
  The listener recognises exactly the device its topics name: whatever prefix is configured, and
  with or without slashes at its end, the id read from a command topic is the id the topic was built
  for; what the bridge publishes, responses and notifications, is never taken for a command; and two
  devices never share a response topic.
\<close>

theorem topics_identify_device:
  "extractDeviceIdFromCommandTopic mqtt (getCommandTopic mqtt d) = Some d
   \<and> extractDeviceIdFromCommandTopic mqtt (getResponseTopic mqtt d) = None
   \<and> extractDeviceIdFromCommandTopic mqtt (getNotificationsTopic mqtt d) = None
   \<and> (getResponseTopic mqtt d = getResponseTopic mqtt e \<longleftrightarrow> d = e)
   \<and> getCommandTopic (Some (cfg\<lparr>mq_topicPrefix := Some (p @ replicate n (CHR ''/''))\<rparr>)) d
       = getCommandTopic (Some (cfg\<lparr>mq_topicPrefix := Some p\<rparr>)) d"
proof (intro conjI)
  show "extractDeviceIdFromCommandTopic mqtt (getResponseTopic mqtt d) = None"
    using not_command_suffix(1) [of mqtt "''miot-bridge/device/'' @ show_int d"]
    by (intro extract_needs_suffix) (simp add: getResponseTopic_def)
  show "extractDeviceIdFromCommandTopic mqtt (getNotificationsTopic mqtt d) = None"
    using not_command_suffix(2) [of mqtt "''miot-bridge/device/'' @ show_int d"]
    by (intro extract_needs_suffix) (simp add: getNotificationsTopic_def)
  show "getResponseTopic mqtt d = getResponseTopic mqtt e \<longleftrightarrow> d = e"
    by (simp add: getResponseTopic_def)
  show "getCommandTopic (Some (cfg\<lparr>mq_topicPrefix := Some (p @ replicate n (CHR ''/''))\<rparr>)) d
       = getCommandTopic (Some (cfg\<lparr>mq_topicPrefix := Some p\<rparr>)) d"
    by (simp add: getCommandTopic_def build_topic_def getPrefix_def strip_trailing_slashes_append)
qed (simp only: getCommandTopic_def extract_build parseInt_show_int)

lemma read_digits_stop: "\<not> starts_with_digit 10 rest \<Longrightarrow> read_digits 10 acc rest = acc"
  by (auto simp: starts_with_digit_def split: list.splits option.splits)

lemma read_digits_append:
  assumes "\<And>c. c \<in> set xs \<Longrightarrow> \<exists>d < 10. c = digit_char d"
  shows "read_digits 10 acc (xs @ rest) = read_digits 10 (read_digits 10 acc xs) rest"
  using assms
proof (induction xs arbitrary: acc)
  case (Cons c xs)
  then obtain e where "e < 10" and "c = digit_char e" by (metis list.set_intros(1))
  with Cons show ?case by simp
qed simp

lemma hd_show_nat_pos: "0 < n \<Longrightarrow> hd (show_nat n) \<noteq> CHR ''0''"
proof (induction n rule: show_nat.induct)
  case (1 n)
  show ?case
  proof (cases "n < 10")
    case True
    with 1 show ?thesis
      by (subst show_nat.simps) (auto simp: digit_char_def dest: arg_cong [where f = "of_char :: char \<Rightarrow> nat"])
  next
    case False
    then have "hd (show_nat (n div 10)) \<noteq> CHR ''0''" using 1 by simp
    with False show ?thesis by (subst show_nat.simps) simp
  qed
qed

lemma parseInt_prefix:
  assumes "0 < n" and "\<not> starts_with_digit 10 rest"
  shows "parseInt (show_nat n @ rest) = Some (int n)"
proof -
  obtain d cs where eq: "show_nat n = digit_char d # cs" and d: "d < 10" using show_nat_Cons [of n] by blast
  have zero: "digit_char d \<noteq> CHR ''0''" using hd_show_nat_pos [OF assms(1)] by (simp add: eq)
  have "read_digits 10 0 (show_nat n @ rest) = n"
    using read_digits_append [of "show_nat n" 0 rest] show_nat_digits read_digits_stop [OF assms(2)]
    by (simp add: read_digits_show_nat)
  moreover have "starts_with_digit 10 (show_nat n @ rest)" using d by (simp add: eq starts_with_digit_def)
  moreover have "take 2 (show_nat n @ rest) \<noteq> ''0x'' \<and> take 2 (show_nat n @ rest) \<noteq> ''0X''"
    using zero by (simp add: eq numeral_2_eq_2)
  ultimately have "parse_nat_prefix (show_nat n @ rest) = Some n" by (simp add: parse_nat_prefix_def)
  with d show ?thesis by (simp add: parseInt_def eq Let_def)
qed

text \<open>
  A topic the documented pattern excludes is still taken for a device: whatever follows the digits,
  letters or further levels, is ignored, so a message on \<^verbatim>\<open>miot-bridge/device/12abc/command\<close> or
  \<^verbatim>\<open>miot-bridge/device/12/other/command\<close> is run against device 12.
\<close>

theorem malformed_topic_accepted:
  assumes "0 < n" and "\<not> starts_with_digit 10 rest"
  shows "extractDeviceIdFromCommandTopic mqtt
    (build_topic mqtt (''miot-bridge/device/'' @ (show_nat n @ rest) @ ''/command'')) = Some (int n)"
  by (simp only: extract_build parseInt_prefix [OF assms])

lemma malformed_topic_accepted_witness:
  "extractDeviceIdFromCommandTopic None
     (build_topic None (''miot-bridge/device/'' @ (show_nat 12 @ ''abc'') @ ''/command'')) = Some 12"
  using malformed_topic_accepted [of 12 "''abc''" None]
  by (simp add: starts_with_digit_def digit_value_def)

subsection \<open>The spans around a message\<close>

text \<open>A user property arrives as an array when its key occurs more than once.\<close>

datatype user_value = One string | Many "string list"

definition toTextMap :: "(string, user_value) js_map \<Rightarrow> carrier" where
  "toTextMap userProperties = fold (\<lambda>(key, value) carrier.
     case (case value of One v \<Rightarrow> Some v | Many [] \<Rightarrow> None | Many (v # _) \<Rightarrow> Some v) of
       None \<Rightarrow> carrier
     | Some first \<Rightarrow> AList.update key first carrier) userProperties []"

definition extractMqttContext :: "(string, user_value) js_map option \<Rightarrow> carrier option" where
  "extractMqttContext userProperties = map_option toTextMap userProperties"

record mqtt_span =
  ms_topic :: string
  ms_topicTemplate :: string
  ms_qos :: "int option"
  ms_bodySize :: "int option"
  ms_clientId :: "string option"
  ms_brokerUrl :: "string option"
  ms_attributes :: "(string, attribute option) js_map"

text \<open>\<^verbatim>\<open>{ ...base, ...ext }\<close> on attributes; a key may map to \<^verbatim>\<open>undefined\<close>.\<close>

definition spread :: "(string, 'v) js_map \<Rightarrow> (string, 'v) js_map \<Rightarrow> (string, 'v) js_map" where
  "spread base ext = fold (\<lambda>(k, v). AList.update k v) ext base"

text \<open>\<open>parseUrl\<close> is \<^verbatim>\<open>new URL\<close>: host name and port, or nothing when it throws.\<close>

definition parseBroker :: "(string \<Rightarrow> (string \<times> string) option) \<Rightarrow> string option \<Rightarrow> (string, attribute option) js_map" where
  "parseBroker parseUrl brokerUrl =
     (case Option.bind brokerUrl parseUrl of
        None \<Rightarrow> []
      | Some (hostname, port) \<Rightarrow>
          [(''server.address'', Some (AStr hostname)),
           (''server.port'', if port = [] then None else map_option ANum (parseInt port))])"

definition buildAttributes ::
  "(string \<Rightarrow> (string \<times> string) option) \<Rightarrow> mqtt_span \<Rightarrow> string \<Rightarrow> string \<Rightarrow> (string, attribute option) js_map" where
  "buildAttributes parseUrl m operationName operationType =
     spread (spread
       [(''messaging.system'', Some (AStr ''mqtt'')),
        (''messaging.operation.name'', Some (AStr operationName)),
        (''messaging.operation.type'', Some (AStr operationType)),
        (''messaging.destination.name'', Some (AStr (ms_topic m))),
        (''messaging.destination.template'', Some (AStr (ms_topicTemplate m))),
        (''messaging.message.body.size'', map_option ANum (ms_bodySize m)),
        (''messaging.client.id'', map_option AStr (ms_clientId m)),
        (''messaging.mqtt.qos'', map_option ANum (ms_qos m))]
       (parseBroker parseUrl (ms_brokerUrl m)))
       (ms_attributes m)"

text \<open>The callback of a publish gets what the propagator puts in for the span that is open then.\<close>

definition withMqttPublishSpan ::
  "(string \<Rightarrow> (string \<times> string) option) \<Rightarrow> ('s telemetry_scheme \<Rightarrow> carrier) \<Rightarrow> mqtt_span
     \<Rightarrow> (carrier \<Rightarrow> ('a, 's telemetry_scheme) effect) \<Rightarrow> ('a, 's telemetry_scheme) effect" where
  "withMqttPublishSpan parseUrl inject m fn =
     withSpan \<lparr>so_name = ''publish '' @ ms_topicTemplate m, so_tracer = ''mqtt'', so_kind = Some ''PRODUCER'',
         so_attributes = buildAttributes parseUrl m ''publish'' ''send'', so_parent = None, so_root = False,
         so_suppress = False\<rparr>
       (\<lambda>s. fn (inject s) s)"

definition withMqttConsumeSpan ::
  "(string \<Rightarrow> (string \<times> string) option) \<Rightarrow> mqtt_span \<Rightarrow> (string, user_value) js_map option
     \<Rightarrow> ('a, 's telemetry_scheme) effect \<Rightarrow> ('a, 's telemetry_scheme) effect" where
  "withMqttConsumeSpan parseUrl m userProperties fn =
     withSpan \<lparr>so_name = ''process '' @ ms_topicTemplate m, so_tracer = ''mqtt'', so_kind = Some ''CONSUMER'',
         so_attributes = buildAttributes parseUrl m ''process'' ''process'',
         so_parent = extractMqttContext userProperties, so_root = False, so_suppress = False\<rparr>
       fn"

text \<open>\<^verbatim>\<open>MqttTracingService\<close>: the broker's identity comes from the configuration.\<close>

definition broker :: "mqtt_config option \<Rightarrow> mqtt_span \<Rightarrow> mqtt_span" where
  "broker mqtt m = m\<lparr>ms_clientId := Option.bind mqtt mq_clientId, ms_brokerUrl := map_option mq_url mqtt\<rparr>"

definition mqtt_consume ::
  "(string \<Rightarrow> (string \<times> string) option) \<Rightarrow> mqtt_config option \<Rightarrow> mqtt_span \<Rightarrow> (string, user_value) js_map option
     \<Rightarrow> ('a, 's telemetry_scheme) effect \<Rightarrow> ('a, 's telemetry_scheme) effect" where
  "mqtt_consume parseUrl mqtt m userProperties fn = withMqttConsumeSpan parseUrl (broker mqtt m) userProperties fn"

definition mqtt_publish ::
  "(string \<Rightarrow> (string \<times> string) option) \<Rightarrow> ('s telemetry_scheme \<Rightarrow> carrier) \<Rightarrow> mqtt_config option \<Rightarrow> mqtt_span
     \<Rightarrow> (carrier \<Rightarrow> ('a, 's telemetry_scheme) effect) \<Rightarrow> ('a, 's telemetry_scheme) effect" where
  "mqtt_publish parseUrl inject mqtt m fn = withMqttPublishSpan parseUrl inject (broker mqtt m) fn"

subsection \<open>The start-up of the client\<close>

definition MAX_STARTUP_ERRORS :: nat where "MAX_STARTUP_ERRORS = 5"

datatype client_event = Client_Connect | Client_Error string | Client_Disconnect | Client_Reconnect

text \<open>\<open>cs_outcome\<close> is the bootstrap promise, \<open>cs_ended\<close> counts the calls of \<^verbatim>\<open>client.end(true)\<close>.\<close>

record client_startup =
  cs_bootstrapped :: bool
  cs_everConnected :: bool
  cs_errorCount :: nat
  cs_outcome :: "(thrown + unit) option"
  cs_ended :: nat

definition client_start :: client_startup where
  "client_start = \<lparr>cs_bootstrapped = False, cs_everConnected = False, cs_errorCount = 0, cs_outcome = None, cs_ended = 0\<rparr>"

definition connection_failed :: "string \<Rightarrow> thrown" where
  "connection_failed message =
     PlainError (''MQTT connection failed after '' @ show_nat MAX_STARTUP_ERRORS @ '' attempts: '' @ message)"

text \<open>A promise keeps the first value it is settled with.\<close>

definition settle_startup :: "thrown + unit \<Rightarrow> client_startup \<Rightarrow> client_startup" where
  "settle_startup r st = (case cs_outcome st of None \<Rightarrow> st\<lparr>cs_outcome := Some r\<rparr> | Some _ \<Rightarrow> st)"

fun client_step :: "client_event \<Rightarrow> client_startup \<Rightarrow> client_startup" where
  "client_step Client_Connect st =
     (let st1 = st\<lparr>cs_everConnected := True\<rparr>
      in if cs_bootstrapped st1 then st1 else settle_startup (Inr ()) (st1\<lparr>cs_bootstrapped := True\<rparr>))"
| "client_step (Client_Error message) st =
     (if cs_bootstrapped st then st
      else (let st1 = st\<lparr>cs_errorCount := cs_errorCount st + 1\<rparr>
            in if cs_errorCount st1 \<ge> MAX_STARTUP_ERRORS
               then settle_startup (Inl (connection_failed message)) (st1\<lparr>cs_ended := cs_ended st1 + 1\<rparr>)
               else st1))"
| "client_step Client_Disconnect st = st"
| "client_step Client_Reconnect st = st"

text \<open>What decides the start-up: a connection, or the fifth error before one.\<close>

fun startup_verdict :: "nat \<Rightarrow> client_event list \<Rightarrow> (thrown + unit) option" where
  "startup_verdict n [] = None"
| "startup_verdict n (Client_Connect # evs) = Some (Inr ())"
| "startup_verdict n (Client_Error message # evs) =
     (if Suc n \<ge> MAX_STARTUP_ERRORS then Some (Inl (connection_failed message)) else startup_verdict (Suc n) evs)"
| "startup_verdict n (Client_Disconnect # evs) = startup_verdict n evs"
| "startup_verdict n (Client_Reconnect # evs) = startup_verdict n evs"

lemma client_step_settled:
  "cs_outcome st = Some r \<Longrightarrow> cs_outcome (client_step ev st) = Some r"
  by (cases ev) (auto simp: settle_startup_def Let_def)

lemma client_run_settled:
  "cs_outcome st = Some r \<Longrightarrow> cs_outcome (fold client_step evs st) = Some r"
  by (induction evs arbitrary: st) (auto simp: client_step_settled)

lemma client_run_live:
  "cs_bootstrapped st \<Longrightarrow> cs_ended (fold client_step evs st) = cs_ended st"
proof (induction evs arbitrary: st)
  case (Cons ev evs)
  have "cs_bootstrapped (client_step ev st) \<and> cs_ended (client_step ev st) = cs_ended st"
    using Cons.prems by (cases ev) (auto simp: Let_def)
  then show ?case using Cons.IH [of "client_step ev st"] by simp
qed simp

lemma client_run_ended_mono: "cs_ended st \<le> cs_ended (fold client_step evs st)"
proof (induction evs arbitrary: st)
  case (Cons ev evs)
  have "cs_ended st \<le> cs_ended (client_step ev st)"
    by (cases ev) (auto simp: Let_def settle_startup_def split: option.splits)
  then show ?case using Cons.IH [of "client_step ev st"] by simp
qed simp

lemma client_run_fresh:
  assumes "cs_outcome st = None" and "\<not> cs_bootstrapped st" and "cs_ended st = 0"
  shows "cs_outcome (fold client_step evs st) = startup_verdict (cs_errorCount st) evs
    \<and> (0 < cs_ended (fold client_step evs st) \<longleftrightarrow> (\<exists>e. startup_verdict (cs_errorCount st) evs = Some (Inl e)))"
  using assms
proof (induction evs arbitrary: st)
  case (Cons ev evs)
  show ?case
  proof (cases ev)
    case Client_Connect
    let ?t = "client_step ev st"
    have t: "cs_outcome ?t = Some (Inr ())" "cs_bootstrapped ?t" "cs_ended ?t = 0"
      using Cons.prems Client_Connect by (simp_all add: settle_startup_def Let_def)
    show ?thesis using client_run_settled [OF t(1), of evs] client_run_live [OF t(2), of evs] t(3) Client_Connect by simp
  next
    case (Client_Error m)
    let ?t = "client_step ev st"
    show ?thesis
    proof (cases "cs_errorCount st + 1 \<ge> MAX_STARTUP_ERRORS")
      case True
      have t: "cs_outcome ?t = Some (Inl (connection_failed m))" "cs_ended ?t = 1"
        using Cons.prems Client_Error True by (simp_all add: settle_startup_def Let_def)
      show ?thesis
        using client_run_settled [OF t(1), of evs] client_run_ended_mono [of ?t evs] t(2) True Client_Error by simp
    next
      case False
      have t: "cs_outcome ?t = None" "\<not> cs_bootstrapped ?t" "cs_ended ?t = 0" "cs_errorCount ?t = Suc (cs_errorCount st)"
        using Cons.prems Client_Error False by (simp_all add: Let_def)
      show ?thesis using Cons.IH [OF t(1-3)] t(4) False Client_Error by simp
    qed
  qed (use Cons in simp_all)
qed simp

text \<open>
  The bootstrap of the client settles once, by whatever decides first: a connection resolves it, the
  fifth error before one rejects it with that error's message. The client is torn down only in the
  second case: one that has connected is never ended, however many errors follow.
\<close>

theorem mqtt_startup_decides_once:
  "cs_outcome (fold client_step evs client_start) = startup_verdict 0 evs
    \<and> (0 < cs_ended (fold client_step evs client_start) \<longleftrightarrow> (\<exists>e. startup_verdict 0 evs = Some (Inl e)))"
  using client_run_fresh [of client_start evs] by (simp add: client_start_def)

subsection \<open>The health of the connection\<close>

definition mqtt_health_check :: health_check where
  "mqtt_health_check = \<lparr>hc_name = ''mqtt'', hc_critical = True\<rparr>"

text \<open>The client, \<^verbatim>\<open>null\<close> when MQTT is disabled, by its \<^verbatim>\<open>connected\<close> flag.\<close>

definition mqtt_check :: "bool option \<Rightarrow> check_result" where
  "mqtt_check client =
     (case client of
        None \<Rightarrow> status_detail Pass ''disabled''
      | Some up \<Rightarrow> if up then status_only Pass else status_detail Fail ''disconnected'')"

lemma mqtt_check_ready:
  "isReady ((mqtt_health_check, mqtt_check client) # evs) \<longleftrightarrow> client \<noteq> Some False \<and> isReady evs"
  by (auto simp: isReady_def mqtt_check_def mqtt_health_check_def status_detail_def status_only_def
      split: option.splits if_splits)

end
