(* ===== verification/Transports.thy ===== *)
theory Transports
  imports Device_Command Mqtt
begin

text \<open>
  The two transports of a command over the command service: the HTTP handlers
  (\<^verbatim>\<open>handlers/CommandHandler.ts\<close>, \<^verbatim>\<open>handlers/RawCommandHandler.ts\<close>, \<^verbatim>\<open>filters/CommandResponseFilter.ts\<close>)
  and the MQTT listener (\<^verbatim>\<open>services/MqttListenerService.ts\<close>), and the outbound side, the dispatch of
  observations (\<^verbatim>\<open>services/NotificationDispatchService.ts\<close>). The client's \<^verbatim>\<open>publishAsync\<close>, \<^verbatim>\<open>fetch\<close>, the
  schema validator and the propagator are parameters.
\<close>

record 'w transport_env =
  tp_bridge :: "'w bridge_env"
  tp_mqtt :: "mqtt_config option"
  tp_httpNotifications :: "string option"
  tp_parseUrl :: "string \<Rightarrow> (string \<times> string) option"
  tp_inject :: "'w bridge \<Rightarrow> carrier"
  tp_validate :: "json \<Rightarrow> thrown + (string \<times> operation \<times> json option)"
  tp_stringifyThrown :: "string \<Rightarrow> string"
  tp_publishAsync :: "string \<Rightarrow> string \<Rightarrow> carrier \<Rightarrow> (unit, 'w) effect"
  tp_fetch :: "string \<Rightarrow> json \<Rightarrow> (int, 'w) effect"

subsection \<open>HTTP\<close>

text \<open>What a handler sets on the response and returns; the body is the value of the answer.\<close>

record http_answer =
  an_status :: int
  an_body :: "json option option"

definition answer_of :: "command_response \<Rightarrow> http_answer" where
  "answer_of response =
     (if cr_operation response = Action then \<lparr>an_status = 204, an_body = None\<rparr>
      else \<lparr>an_status = 200, an_body = Some (cr_value response)\<rparr>)"

definition CommandHandler :: "'w bridge_env \<Rightarrow> command_request \<Rightarrow> (http_answer, 'w) service" where
  "CommandHandler env request = and_then (svc_execute env request) (\<lambda>response. returning (answer_of response))"

definition RawCommandHandler :: "'w bridge_env \<Rightarrow> raw_request \<Rightarrow> (http_answer, 'w) service" where
  "RawCommandHandler env request =
     and_then (require (\<not> (raw_operation request \<in> {GetProperty, SetProperty} \<and> raw_piid request = None))
       (''piid is required for '' @ operation_text (raw_operation request) @ '' operations.'')) (\<lambda>_.
     and_then (require (\<not> (raw_operation request = Action \<and> raw_aiid request = None))
       ''aiid is required for ACTION operations.'') (\<lambda>_.
     and_then (svc_executeRaw env request) (\<lambda>response. returning (answer_of response))))"

text \<open>The serialised body, and the filter a \<^verbatim>\<open>text/plain\<close> consumer gets it through.\<close>

definition body_json :: "json option \<Rightarrow> json" where
  "body_json value = JObj (case value of None \<Rightarrow> [] | Some v \<Rightarrow> [(''value'', v)])"

definition CommandResponseFilter_transform :: "json \<Rightarrow> string" where
  "CommandResponseFilter_transform data =
     (case data of
        JObj m \<Rightarrow> if is_nil (map_of m ''value'') then [] else show_undef (map_of m ''value'')
      | _ \<Rightarrow> [])"

definition answer_text :: "http_answer \<Rightarrow> string" where
  "answer_text a = (case an_body a of None \<Rightarrow> [] | Some v \<Rightarrow> CommandResponseFilter_transform (body_json v))"

subsection \<open>MQTT: one inbound message\<close>

definition stringifyError :: "'w transport_env \<Rightarrow> thrown \<Rightarrow> string" where
  "stringifyError env e = (case e of ThrownValue s \<Rightarrow> tp_stringifyThrown env s | _ \<Rightarrow> error_text e)"

definition device_attribute :: "int \<Rightarrow> (string, attribute option) js_map" where
  "device_attribute d = [(''miot.device.id'', identifierAttribute (Some (show_int d)))]"

definition handleMessage :: "'w transport_env \<Rightarrow> int \<Rightarrow> byte list \<Rightarrow> (string option, 'w) service" where
  "handleMessage env deviceId payload =
     (if payload = [] then returning None
      else case json_parse (env_runtime (tp_bridge env)) (utf8_string payload) of
        Inl _ \<Rightarrow> and_then (doing (setStatusError ''Invalid JSON.'')) (\<lambda>_. returning (Some ''error: Invalid JSON.''))
      | Inr parsed \<Rightarrow>
          (case tp_validate env parsed of
             Inl e \<Rightarrow>
               and_then (doing (setStatusError (''Validation failed. '' @ stringifyError env e))) (\<lambda>_.
               returning (Some (''error: Validation failed. '' @ stringifyError env e)))
           | Inr (command, oper, value) \<Rightarrow>
               and_then (doing (setAttributes [(''miot.command'', Some (AStr command)),
                                               (''miot.operation'', Some (AStr (operation_text oper)))])) (\<lambda>_.
               catching
                 (and_then (svc_execute (tp_bridge env)
                    \<lparr>rq_deviceId = deviceId, rq_command = command, rq_operation = oper, rq_value = value\<rparr>) (\<lambda>response.
                  returning (Some (if cr_operation response = Action then []
                                   else if is_nil (cr_value response) then [] else show_undef (cr_value response)))))
                 (\<lambda>e. and_then (doing (setStatusError (stringifyError env e))) (\<lambda>_.
                      returning (Some (''error: '' @ stringifyError env e)))))))"

definition publishResponse :: "'w transport_env \<Rightarrow> int \<Rightarrow> string \<Rightarrow> (unit, 'w) service" where
  "publishResponse env deviceId result =
     (let topic = getResponseTopic (tp_mqtt env) deviceId
      in mqtt_publish (tp_parseUrl env) (tp_inject env) (tp_mqtt env)
           \<lparr>ms_topic = topic, ms_topicTemplate = getResponseTopicTemplate (tp_mqtt env), ms_qos = Some 1,
            ms_bodySize = Some (int (length (utf8_bytes result))), ms_clientId = None, ms_brokerUrl = None,
            ms_attributes = device_attribute deviceId\<rparr>
           (\<lambda>userProperties. catching (in_world (tp_publishAsync env topic result userProperties))
              (\<lambda>e. doing (setStatusError (stringifyError env e)))))"

definition onMessage ::
  "'w transport_env \<Rightarrow> string \<Rightarrow> int \<Rightarrow> byte list \<Rightarrow> int \<Rightarrow> (string, user_value) js_map option \<Rightarrow> (unit, 'w) service" where
  "onMessage env topic deviceId payload qos userProperties =
     mqtt_consume (tp_parseUrl env) (tp_mqtt env)
       \<lparr>ms_topic = topic, ms_topicTemplate = getCommandTopicTemplate (tp_mqtt env), ms_qos = Some qos,
        ms_bodySize = Some (int (length payload)), ms_clientId = None, ms_brokerUrl = None,
        ms_attributes = device_attribute deviceId\<rparr>
       userProperties
       (and_then (handleMessage env deviceId payload) (\<lambda>result.
          case result of None \<Rightarrow> returning () | Some text \<Rightarrow> publishResponse env deviceId text))"

text \<open>The handler of the client's \<^verbatim>\<open>message\<close> event.\<close>

definition on_message_event ::
  "'w transport_env \<Rightarrow> string \<Rightarrow> byte list \<Rightarrow> int \<Rightarrow> (string, user_value) js_map option \<Rightarrow> (unit, 'w) service" where
  "on_message_event env topic payload qos userProperties =
     (case extractDeviceIdFromCommandTopic (tp_mqtt env) topic of
        None \<Rightarrow> returning ()
      | Some deviceId \<Rightarrow> onMessage env topic deviceId payload qos userProperties)"

text \<open>The subscriptions the listener has issued and the handlers it has registered.\<close>

record listener =
  ls_subscribed :: "string list"
  ls_handlers :: nat

definition listener_subscribe :: "mqtt_config option \<Rightarrow> listener \<Rightarrow> listener" where
  "listener_subscribe mqtt l = l\<lparr>ls_subscribed := ls_subscribed l @ [getCommandSubscriptionPattern mqtt]\<rparr>"

definition listener_start :: "mqtt_config option \<Rightarrow> bool option \<Rightarrow> listener" where
  "listener_start mqtt client =
     (let idle = \<lparr>ls_subscribed = [], ls_handlers = 0\<rparr>
      in case client of None \<Rightarrow> idle | Some _ \<Rightarrow> (listener_subscribe mqtt idle)\<lparr>ls_handlers := 1\<rparr>)"

definition listener_step :: "mqtt_config option \<Rightarrow> client_event \<Rightarrow> listener \<Rightarrow> listener" where
  "listener_step mqtt ev l = (case ev of Client_Connect \<Rightarrow> listener_subscribe mqtt l | _ \<Rightarrow> l)"

subsection \<open>Outbound notifications\<close>

definition payload_json :: "property_change \<Rightarrow> json" where
  "payload_json event = JObj ([(''deviceId'', JNum (pc_miotDeviceId event)), (''property'', JStr (pc_property event))]
     @ (case pc_newValue event of None \<Rightarrow> [] | Some v \<Rightarrow> [(''value'', v)]))"

definition sendHttp :: "'w transport_env \<Rightarrow> string \<Rightarrow> property_change \<Rightarrow> (unit, 'w) service" where
  "sendHttp env address event =
     catching (and_then (in_world (tp_fetch env address (payload_json event))) (\<lambda>status. returning ())) (\<lambda>e. returning ())"

definition sendMqtt :: "'w transport_env \<Rightarrow> property_change \<Rightarrow> (unit, 'w) service" where
  "sendMqtt env event =
     (let topic = getNotificationsTopic (tp_mqtt env) (pc_miotDeviceId event);
          message = json_stringify (env_runtime (tp_bridge env))
            (JObj [(pc_property event, case pc_newValue event of None \<Rightarrow> JNull | Some v \<Rightarrow> v)])
      in mqtt_publish (tp_parseUrl env) (tp_inject env) (tp_mqtt env)
           \<lparr>ms_topic = topic, ms_topicTemplate = getNotificationsTopicTemplate (tp_mqtt env), ms_qos = Some 1,
            ms_bodySize = Some (int (length (utf8_bytes message))), ms_clientId = None, ms_brokerUrl = None,
            ms_attributes = device_attribute (pc_miotDeviceId event)
              @ [(''miot.property'', Some (AStr (pc_property event)))]\<rparr>
           (\<lambda>userProperties. catching (in_world (tp_publishAsync env topic message userProperties))
              (\<lambda>e. doing (setStatusError (error_text e)))))"

text \<open>
  \<^verbatim>\<open>NotificationDispatchService.receive\<close> starts both sends and waits for neither; here they run one
  after the other in the order they are started. The client exists when MQTT is enabled.
\<close>

definition dispatch_receive :: "'w transport_env \<Rightarrow> property_change \<Rightarrow> (unit, 'w) service" where
  "dispatch_receive env event =
     and_then (case tp_httpNotifications env of None \<Rightarrow> returning () | Some address \<Rightarrow> sendHttp env address event) (\<lambda>_.
       case tp_mqtt env of
         None \<Rightarrow> returning ()
       | Some m \<Rightarrow> if mq_notifications m \<and> mq_enabled m then sendMqtt env event else returning ())"

subsection \<open>What the transports promise\<close>

lemma withSpan_split:
  assumes "fn (start_span opts s) = (r, s1)"
  obtains s' where "withSpan opts fn s = (r, s')" "br_world s' = br_world (s1 :: 'w bridge)"
proof (cases r)
  case (Inl e)
  with assms that show thesis
    by (force simp: withSpan_def end_span_def recordSpanError_def setStatusError_def split: list.splits)
next
  case (Inr a)
  with assms that show thesis by (force simp: withSpan_def end_span_def split: list.splits)
qed

lemma world_telemetry [simp]:
  "br_world (start_span opts s) = br_world (s :: 'w bridge)" "br_world (setAttributes as s) = br_world s"
  "br_world (setStatusError m s) = br_world s"
  by (simp_all add: start_span_def setAttributes_def setStatusError_def split: list.splits)

lemma in_world_catching:
  "\<exists>s'. (catching (in_world m) (\<lambda>e. doing (f e)) :: (unit, 'w bridge) effect) s = (Inr (), s') \<and> ((\<forall>e t. br_world (f e t) = br_world t) \<longrightarrow> br_world s' = snd (m (br_world s)))"
  for m :: "(unit, 'w) effect"
  by (auto simp: catching_def in_world_def within_def split: prod.splits sum.splits)

lemma mqtt_publish_world:
  fixes m :: "carrier \<Rightarrow> (unit, 'w) effect" and s :: "'w bridge"
  shows "\<exists>s' props. mqtt_publish parseUrl inject mqtt sp (\<lambda>props. catching (in_world (m props)) (\<lambda>e. doing (setStatusError (f e)))) s
      = (Inr (), s') \<and> br_world s' = snd (m props (br_world s))"
proof -
  define opts where "opts = \<lparr>so_name = ''publish '' @ ms_topicTemplate (broker mqtt sp), so_tracer = ''mqtt'', so_kind = Some ''PRODUCER'',
    so_attributes = buildAttributes parseUrl (broker mqtt sp) ''publish'' ''send'', so_parent = None, so_root = False, so_suppress = False\<rparr>"
  have publish: "mqtt_publish parseUrl inject mqtt sp fn s = withSpan opts (\<lambda>t. fn (inject t) t) s"
    for fn :: "carrier \<Rightarrow> (unit, 'w bridge) effect"
    by (simp add: mqtt_publish_def withMqttPublishSpan_def opts_def)
  let ?props = "inject (start_span opts s)"
  let ?fn = "\<lambda>props. catching (in_world (m props)) (\<lambda>e. doing (setStatusError (f e))) :: (unit, 'w bridge) effect"
  obtain s1 where "?fn ?props (start_span opts s) = (Inr (), s1)" and w: "br_world s1 = snd (m ?props (br_world s))"
    using in_world_catching [of "m ?props" "\<lambda>e. setStatusError (f e)" "start_span opts s"] by auto
  from withSpan_split [where fn = "\<lambda>t. ?fn (inject t) t", OF this(1)]
  obtain s' where "withSpan opts (\<lambda>t. ?fn (inject t) t) s = (Inr (), s')" "br_world s' = br_world s1" .
  with w show ?thesis unfolding publish by auto
qed

lemma publishResponse_world:
  "\<exists>s' props. publishResponse env d reply s = (Inr (), s')
     \<and> br_world s' = snd (tp_publishAsync env (getResponseTopic (tp_mqtt env) d) reply props (br_world s))"
  unfolding publishResponse_def Let_def by (rule mqtt_publish_world)

lemma sendMqtt_world:
  "\<exists>s' props. sendMqtt env event s = (Inr (), s')
     \<and> br_world s' = snd (tp_publishAsync env (getNotificationsTopic (tp_mqtt env) (pc_miotDeviceId event))
         (json_stringify (env_runtime (tp_bridge env))
           (JObj [(pc_property event, case pc_newValue event of None \<Rightarrow> JNull | Some v \<Rightarrow> v)])) props (br_world s))"
  unfolding sendMqtt_def Let_def by (rule mqtt_publish_world)

text \<open>What the listener answers to a command that ran.\<close>

definition command_reply :: "'w transport_env \<Rightarrow> thrown + command_response \<Rightarrow> string" where
  "command_reply env x =
     (case x of
        Inl e \<Rightarrow> ''error: '' @ stringifyError env e
      | Inr response \<Rightarrow> if cr_operation response = Action \<or> is_nil (cr_value response) then [] else show_undef (cr_value response))"

text \<open>A message that is not empty: the answer, and the world the command leaves, which ran once when the message is valid.\<close>

definition message_handled :: "'w transport_env \<Rightarrow> int \<Rightarrow> byte list \<Rightarrow> 'w bridge \<Rightarrow> string \<Rightarrow> 'w \<Rightarrow> bool" where
  "message_handled env d payload s answer w \<longleftrightarrow>
     (case json_parse (env_runtime (tp_bridge env)) (utf8_string payload) of
        Inl _ \<Rightarrow> answer = ''error: Invalid JSON.'' \<and> w = br_world s
      | Inr parsed \<Rightarrow>
          (case tp_validate env parsed of
             Inl e \<Rightarrow> answer = ''error: Validation failed. '' @ stringifyError env e \<and> w = br_world s
           | Inr (command, oper, value) \<Rightarrow>
               (case svc_execute (tp_bridge env) \<lparr>rq_deviceId = d, rq_command = command, rq_operation = oper, rq_value = value\<rparr>
                   (setAttributes [(''miot.command'', Some (AStr command)), (''miot.operation'', Some (AStr (operation_text oper)))] s) of
                  (x, t) \<Rightarrow> answer = command_reply env x \<and> w = br_world t)))"

lemma handleMessage_handled:
  assumes "payload \<noteq> []"
  obtains answer s1 where "handleMessage env d payload s = (Inr (Some answer), s1)" and "message_handled env d payload s answer (br_world s1)"
  using assms that
  by (fastforce simp: handleMessage_def message_handled_def command_reply_def catching_def and_then_def split: sum.splits prod.splits)

text \<open>
  Property C22. Every inbound command is answered exactly once and the handler never rejects. A message whose topic
  names no device does nothing, and an empty one nothing outside the bridge: no command runs and nothing is
  published. For any other, a command runs exactly when the message is JSON the model accepts, and once;
  one publish follows, of what the command answered or of the error, to the response topic of the device the
  topic named; and a failure of that publish stays inside.
\<close>

theorem mqtt_command_answered:
  "\<exists>s'. on_message_event env topic payload qos userProperties s = (Inr (), s') \<and>
     (case extractDeviceIdFromCommandTopic (tp_mqtt env) topic of
        None \<Rightarrow> s' = s
      | Some d \<Rightarrow>
          if payload = [] then br_world s' = br_world s
          else \<exists>opts answer w props. message_handled env d payload (start_span opts s) answer w \<and>
            br_world s' = snd (tp_publishAsync env (getResponseTopic (tp_mqtt env) d) answer props w))"
proof (cases "extractDeviceIdFromCommandTopic (tp_mqtt env) topic")
  case (Some d)
  let ?rest = "\<lambda>result. case result of None \<Rightarrow> returning () | Some text \<Rightarrow> publishResponse env d text"
  obtain opts where run: "on_message_event env topic payload qos userProperties s
      = withSpan opts (and_then (handleMessage env d payload) ?rest) s"
    by (simp add: on_message_event_def Some onMessage_def mqtt_consume_def withMqttConsumeSpan_def)
  have "\<exists>s2. and_then (handleMessage env d payload) ?rest (start_span opts s) = (Inr (), s2)
      \<and> (if payload = [] then br_world s2 = br_world s
         else \<exists>answer w props. message_handled env d payload (start_span opts s) answer w \<and>
           br_world s2 = snd (tp_publishAsync env (getResponseTopic (tp_mqtt env) d) answer props w))"
  proof (cases "payload = []")
    case True
    then show ?thesis by (simp add: handleMessage_def and_then_def)
  next
    case False
    then obtain answer s1 where handled: "handleMessage env d payload (start_span opts s) = (Inr (Some answer), s1)"
      "message_handled env d payload (start_span opts s) answer (br_world s1)" by (rule handleMessage_handled)
    with publishResponse_world [of env d answer s1] False show ?thesis by (auto simp: and_then_def)
  qed
  then obtain s2 where rest: "and_then (handleMessage env d payload) ?rest (start_span opts s) = (Inr (), s2)"
    and w: "if payload = [] then br_world s2 = br_world s
         else \<exists>answer w props. message_handled env d payload (start_span opts s) answer w \<and>
           br_world s2 = snd (tp_publishAsync env (getResponseTopic (tp_mqtt env) d) answer props w)" by blast
  from withSpan_split [where fn = "and_then (handleMessage env d payload) ?rest", OF rest] obtain s' where
    "withSpan opts (and_then (handleMessage env d payload) ?rest) s = (Inr (), s')" "br_world s' = br_world s2" .
  with run w Some show ?thesis by (auto split: if_splits)
qed (simp add: on_message_event_def)

text \<open>
  Property C23. The two transports agree. A command that arrives as a readable MQTT message is answered with the
  text an HTTP client that asks for \<^verbatim>\<open>text/plain\<close> gets for the same request from the same state, and
  a command that HTTP refuses with an error is answered with that error's message.
\<close>

theorem transports_agree:
  assumes "json_parse (env_runtime (tp_bridge env)) (utf8_string payload) = Inr parsed" and "payload \<noteq> []"
    and "tp_validate env parsed = Inr (command, oper, value)"
    and "t = setAttributes [(''miot.command'', Some (AStr command)), (''miot.operation'', Some (AStr (operation_text oper)))] s"
  shows "case CommandHandler (tp_bridge env)
        \<lparr>rq_deviceId = d, rq_command = command, rq_operation = oper, rq_value = value\<rparr> t of
      (Inl e, t') \<Rightarrow> handleMessage env d payload s =
        (Inr (Some (''error: '' @ stringifyError env e)), setStatusError (stringifyError env e) t')
    | (Inr answer, t') \<Rightarrow> handleMessage env d payload s = (Inr (Some (answer_text answer)), t')"
  using assms
  by (auto simp: handleMessage_def CommandHandler_def and_then_def catching_def answer_of_def answer_text_def
      CommandResponseFilter_transform_def body_json_def split: sum.splits prod.splits option.splits)

text \<open>
  Notifications fan out and no sink can stop another: the dispatch never rejects; the HTTP sink is
  posted to exactly when its notifications are enabled, whatever comes back, and then the message is
  published to the device's topic exactly when MQTT and its notifications are enabled.
\<close>

theorem notification_fan_out:
  "\<exists>s'. dispatch_receive env event s = (Inr (), s') \<and>
     (let w1 = (case tp_httpNotifications env of
          None \<Rightarrow> br_world s
        | Some address \<Rightarrow> snd (tp_fetch env address (payload_json event) (br_world s)));
        message = json_stringify (env_runtime (tp_bridge env))
          (JObj [(pc_property event, case pc_newValue event of None \<Rightarrow> JNull | Some v \<Rightarrow> v)])
      in if \<exists>m. tp_mqtt env = Some m \<and> mq_notifications m \<and> mq_enabled m
         then \<exists>props. br_world s' =
           snd (tp_publishAsync env (getNotificationsTopic (tp_mqtt env) (pc_miotDeviceId event)) message props w1)
         else br_world s' = w1)"
proof -
  let ?first = "case tp_httpNotifications env of None \<Rightarrow> returning () | Some address \<Rightarrow> sendHttp env address event"
  have "\<exists>t. sendHttp env address event s = (Inr (), t)
      \<and> br_world t = snd (tp_fetch env address (payload_json event) (br_world s))" for address
    by (cases "tp_fetch env address (payload_json event) (br_world s)"; cases "fst (tp_fetch env address (payload_json event) (br_world s))")
      (simp_all add: sendHttp_def catching_def and_then_def in_world_def within_def)
  then obtain s1 where first: "?first s = (Inr (), s1)" and w1: "br_world s1 = (case tp_httpNotifications env of
          None \<Rightarrow> br_world s
        | Some address \<Rightarrow> snd (tp_fetch env address (payload_json event) (br_world s)))"
    by (cases "tp_httpNotifications env") auto
  obtain s2 props where "sendMqtt env event s1 = (Inr (), s2)" "br_world s2 =
      snd (tp_publishAsync env (getNotificationsTopic (tp_mqtt env) (pc_miotDeviceId event))
         (json_stringify (env_runtime (tp_bridge env))
           (JObj [(pc_property event, case pc_newValue event of None \<Rightarrow> JNull | Some v \<Rightarrow> v)])) props (br_world s1))"
    using sendMqtt_world by blast
  with first w1 show ?thesis
    by (auto simp: dispatch_receive_def and_then_def Let_def split: option.splits)
qed

subsection \<open>A sample transport\<close>

definition sample_channel :: "(byte list list) transport_env" where
  "sample_channel = \<lparr>tp_bridge = sample_env refused_reply,
     tp_mqtt = Some \<lparr>mq_enabled = True, mq_url = ''mqtt://broker'', mq_clientId = None, mq_topicPrefix = Some ''home/'',
       mq_notifications = True\<rparr>,
     tp_httpNotifications = None, tp_parseUrl = (\<lambda>_. None), tp_inject = (\<lambda>_. []),
     tp_validate = (\<lambda>_. Inr (''vacuum:status'', GetProperty, None)), tp_stringifyThrown = id,
     tp_publishAsync = (\<lambda>_ _ _. returning ()), tp_fetch = (\<lambda>_ _. returning 200)\<rparr>"

lemma transports_agree_witness:
  "fst (handleMessage sample_channel 2 [123, 125] sample_bridge)
     = Inr (Some (''error: '' @ no_device 2))"
proof -
  let ?t = "setAttributes [(''miot.command'', Some (AStr ''vacuum:status'')),
      (''miot.operation'', Some (AStr (operation_text GetProperty)))] sample_bridge"
  obtain parsed where parsed: "json_parse (env_runtime (tp_bridge sample_channel)) (utf8_string [123, 125]) = Inr parsed"
    by (simp add: sample_channel_def replying_def)
  have valid: "tp_validate sample_channel parsed = Inr (''vacuum:status'', GetProperty, None)"
    by (simp add: sample_channel_def)
  have none: "env_getByDeviceId (tp_bridge sample_channel) 2 w = (Inr None, w)" for w
    by (simp add: sample_channel_def sample_env_def)
  have message: "stringifyError sample_channel (NotFound (no_device 2)) = no_device 2"
    by (simp add: stringifyError_def NotFound_def)
  obtain t' where "CommandHandler (tp_bridge sample_channel)
      \<lparr>rq_deviceId = 2, rq_command = ''vacuum:status'', rq_operation = GetProperty, rq_value = None\<rparr> ?t
      = (Inl (NotFound (no_device 2)), t')"
    by (simp add: CommandHandler_def svc_execute_def and_then_def in_world_def within_def none require_found_def)
  with transports_agree [OF parsed _ valid refl, of 2 sample_bridge] message
  show ?thesis by simp
qed

end
