(* ===== verification/Qr_Manager.thy ===== *)
theory Qr_Manager
  imports Effect Resilience
begin

text \<open>
  \<^verbatim>\<open>apis/qr-manager-api\<close>: the allocation of a slug with its collision retry, the repository with the
  policy of the slug lookup, the mappers, and the handlers of the administration routes, the image
  and the public redirect. The MongoDB driver, nanoid and the \<^verbatim>\<open>qrcode\<close> renderer are parameters.
\<close>

subsection \<open>Records\<close>

datatype qr_type = IOT_DEVICE | PLANT | OTHER

record qr_code =
  qr_id :: string
  qr_createdAt :: int
  qr_updatedAt :: int
  qr_slug :: string
  qr_targetURL :: string
  qr_label :: string
  qr_type :: qr_type
  qr_active :: bool

text \<open>The response adds \<open>qrURL\<close>; the document has the model's fields under the driver's names.\<close>

record qr_response = qr_code +
  qr_qrURL :: string

record qr_dto =
  qd_id :: string
  qd_createdAt :: int
  qd_updatedAt :: int
  qd_slug :: string
  qd_targetURL :: string
  qd_label :: string
  qd_type :: qr_type
  qd_active :: bool

record qr_entity =
  qc_targetURL :: string
  qc_label :: string
  qc_type :: qr_type
  qc_active :: bool

record qr_partial =
  qp_targetURL :: "string option"
  qp_label :: "string option"
  qp_type :: "qr_type option"
  qp_active :: "bool option"

record qr_filter =
  qf_type :: "qr_type option"
  qf_active :: "bool option"

text \<open>
  What the mapper hands to the driver: the fields of a new document, and those of an update, of which it
  passes the ones it was given. The typed partial of the service has no slug; the mapper's has.
\<close>

record qr_payload = qr_entity +
  qc_slug :: string

record qr_changes = qr_partial +
  qp_slug :: "string option"

datatype mongo_update = Set_Fields qr_changes

definition buildMongoCreate :: "qr_payload \<Rightarrow> qr_payload" where
  "buildMongoCreate entity = \<lparr>qc_targetURL = qc_targetURL entity, qc_label = qc_label entity, qc_type = qc_type entity,
     qc_active = qc_active entity, qc_slug = qc_slug entity\<rparr>"

definition buildMongoUpdate :: "qr_changes \<Rightarrow> qr_changes" where
  "buildMongoUpdate entity = entity"

text \<open>What a call of the driver rejects with, and what the lookup's policy adds.\<close>

datatype qr_error =
    Mongo_Error "int option" "(string \<times> json) list option"
  | Lookup_Failed
  | Thrown thrown

definition INSERT_ATTEMPTS :: nat where "INSERT_ATTEMPTS = 5"
definition MONGO_DUPLICATE_KEY :: int where "MONGO_DUPLICATE_KEY = 11000"
definition SLUG_LENGTH :: nat where "SLUG_LENGTH = 4"
definition SLUG_ALPHABET :: string where "SLUG_ALPHABET = ''0123456789abcdefghijklmnopqrstuvwxyz''"

text \<open>The pattern \<^verbatim>\<open>^[a-z0-9]{4}$\<close> the route validates its parameter with.\<close>

definition SLUG_REGEX :: "string \<Rightarrow> bool" where
  "SLUG_REGEX s \<longleftrightarrow> length s = SLUG_LENGTH \<and> list_all (\<lambda>c. c \<in> set SLUG_ALPHABET) s"

subsection \<open>Repository and service\<close>

text \<open>
  The driver on one collection and the libraries around it. \<open>qe_attempt\<close> is cockatiel's run of the
  work under the attempt policy, with the driver's rejection as the failure of the work.
\<close>

record 's qr_env =
  qe_generator :: "'s \<Rightarrow> string \<times> 's"
  qe_find :: "qr_filter \<Rightarrow> (qr_error, qr_dto list, 's) action"
  qe_findById :: "string \<Rightarrow> (qr_error, qr_dto option, 's) action"
  qe_findOne :: "string \<Rightarrow> (qr_error, qr_dto option, 's) action"
  qe_create :: "qr_payload \<Rightarrow> (qr_error, qr_dto, 's) action"
  qe_findByIdAndUpdate :: "string \<Rightarrow> mongo_update \<Rightarrow> (qr_error, qr_dto option, 's) action"
  qe_findByIdAndDelete :: "string \<Rightarrow> (qr_error, unit, 's) action"
  qe_attempt :: "attempt_policy \<Rightarrow> (qr_error, qr_dto option, 's) action \<Rightarrow> 's \<Rightarrow> (qr_error failure + qr_dto option) \<times> 's"
  qe_pause :: "int \<Rightarrow> 's \<Rightarrow> backoff_event list \<times> 's"
  qe_baseURL :: string

text \<open>The filter's fields are copied into the query only when they are defined.\<close>

definition findAll :: "'s qr_env \<Rightarrow> qr_filter \<Rightarrow> (qr_error, qr_dto list, 's) action" where
  "findAll env flt = qe_find env \<lparr>qf_type = qf_type flt, qf_active = qf_active flt\<rparr>"

definition SLUG_LOOKUP_TIMEOUT_MS :: int where "SLUG_LOOKUP_TIMEOUT_MS = 2000"

definition slugLookup :: "thrown + qr_error policy" where
  "slugLookup = createResiliencePolicy
     \<lparr>in_timeout = Some (Some SLUG_LOOKUP_TIMEOUT_MS), in_retry = None, in_circuitBreaker = Some (None, None, None, None)\<rparr> None"

definition findBySlug ::
  "'s qr_env \<Rightarrow> string \<Rightarrow> ('s \<Rightarrow> bool option) \<Rightarrow> (qr_error, qr_dto option, 's) action" where
  "findBySlug env slug signal s =
     (case slugLookup of
        Inl e \<Rightarrow> (Inl (Thrown e), s)
      | Inr pol \<Rightarrow>
          (case execute pol \<lparr>env_attempt = (\<lambda>p. qe_attempt env p (qe_findOne env slug)), env_parent = signal,
                  env_onRetry = (\<lambda>_ _ s. s), env_pause = qe_pause env\<rparr> s of
             (Inr found, s') \<Rightarrow> (Inr found, s')
           | (Inl (Failed e), s') \<Rightarrow> (Inl e, s')
           | (Inl ParentCancelled, s') \<Rightarrow> (Inl Lookup_Failed, s')))"

definition updateById :: "'s qr_env \<Rightarrow> string \<Rightarrow> qr_changes \<Rightarrow> (qr_error, qr_dto option, 's) action" where
  "updateById env i data = qe_findByIdAndUpdate env i (Set_Fields data)"

definition mongoToModel :: "qr_dto \<Rightarrow> qr_code" where
  "mongoToModel d = \<lparr>qr_id = qd_id d, qr_createdAt = qd_createdAt d, qr_updatedAt = qd_updatedAt d, qr_slug = qd_slug d,
     qr_targetURL = qd_targetURL d, qr_label = qd_label d, qr_type = qd_type d, qr_active = qd_active d\<rparr>"

definition qr_list :: "'s qr_env \<Rightarrow> qr_filter \<Rightarrow> (qr_error, qr_code list, 's) action" where
  "qr_list env flt = and_then (findAll env flt) (\<lambda>dtos. returning (map mongoToModel dtos))"

definition qr_getById :: "'s qr_env \<Rightarrow> string \<Rightarrow> (qr_error, qr_code option, 's) action" where
  "qr_getById env i = and_then (qe_findById env i) (\<lambda>d. returning (map_option mongoToModel d))"

definition qr_getBySlug ::
  "'s qr_env \<Rightarrow> string \<Rightarrow> ('s \<Rightarrow> bool option) \<Rightarrow> (qr_error, qr_code option, 's) action" where
  "qr_getBySlug env slug signal = and_then (findBySlug env slug signal) (\<lambda>d. returning (map_option mongoToModel d))"

definition truthy :: "json option \<Rightarrow> bool" where
  "truthy v \<longleftrightarrow> v \<noteq> None \<and> v \<noteq> Some JNull \<and> v \<noteq> Some (JBool False) \<and> v \<noteq> Some (JNum 0) \<and> v \<noteq> Some (JStr [])"

definition isSlugCollision :: "qr_error \<Rightarrow> bool" where
  "isSlugCollision err = (case err of
       Mongo_Error code keyPattern \<Rightarrow> code = Some MONGO_DUPLICATE_KEY
         \<and> truthy (Option.bind keyPattern (\<lambda>m. map_of m ''slug''))
     | _ \<Rightarrow> False)"

definition insert_once :: "'s qr_env \<Rightarrow> qr_entity \<Rightarrow> (qr_error, qr_code, 's) action" where
  "insert_once env entity s = (case qe_generator env s of (slug, s1) \<Rightarrow>
     and_then (qe_create env (buildMongoCreate (qr_entity.extend entity \<lparr>qc_slug = slug\<rparr>))) (\<lambda>d. returning (mongoToModel d)) s1)"

definition allocation_failed :: qr_error where
  "allocation_failed = Thrown (Conflict (''Failed to allocate a unique slug after '' @ show_nat INSERT_ATTEMPTS @ '' attempts.''))"

fun create_loop :: "'s qr_env \<Rightarrow> qr_entity \<Rightarrow> nat \<Rightarrow> (qr_error, qr_code, 's) action" where
  "create_loop env entity 0 s = (Inl allocation_failed, s)"
| "create_loop env entity (Suc left) s =
     (case insert_once env entity s of
        (Inr model, s') \<Rightarrow> (Inr model, s')
      | (Inl error, s') \<Rightarrow> if isSlugCollision error then create_loop env entity left s' else (Inl error, s'))"

definition qr_create :: "'s qr_env \<Rightarrow> qr_entity \<Rightarrow> (qr_error, qr_code, 's) action" where
  "qr_create env entity = create_loop env entity INSERT_ATTEMPTS"

definition qr_update :: "'s qr_env \<Rightarrow> string \<Rightarrow> qr_partial \<Rightarrow> (qr_error, qr_code option, 's) action" where
  "qr_update env i partial =
     and_then (updateById env i (buildMongoUpdate (qr_partial.extend partial \<lparr>qp_slug = None\<rparr>))) (\<lambda>d. returning (map_option mongoToModel d))"

definition qr_delete :: "'s qr_env \<Rightarrow> string \<Rightarrow> (qr_error, unit, 's) action" where
  "qr_delete env i = qe_findByIdAndDelete env i"

subsection \<open>Handlers\<close>

definition composeQrURL :: "string \<Rightarrow> string \<Rightarrow> string" where
  "composeQrURL baseURL slug = strip_trailing_slashes baseURL @ ''/'' @ slug"

definition toResponse :: "'s qr_env \<Rightarrow> qr_code \<Rightarrow> qr_response" where
  "toResponse env m = \<lparr>qr_id = qr_id m, qr_createdAt = qr_createdAt m, qr_updatedAt = qr_updatedAt m, qr_slug = qr_slug m,
     qr_targetURL = qr_targetURL m, qr_label = qr_label m, qr_type = qr_type m, qr_active = qr_active m,
     qr_qrURL = composeQrURL (qe_baseURL env) (qr_slug m)\<rparr>"

definition not_found :: "string \<Rightarrow> qr_error" where
  "not_found i = Thrown (NotFound (''QR code '' @ i @ '' not found.''))"

definition QrCodeCreate ::
  "'s qr_env \<Rightarrow> string \<Rightarrow> string \<Rightarrow> qr_type \<Rightarrow> (qr_error, qr_response, 's) action" where
  "QrCodeCreate env targetURL label category =
     and_then (qr_create env \<lparr>qc_targetURL = targetURL, qc_label = label, qc_type = category, qc_active = True\<rparr>)
       (\<lambda>created. returning (toResponse env created))"

definition QrCodeList :: "'s qr_env \<Rightarrow> qr_filter \<Rightarrow> (qr_error, qr_response list, 's) action" where
  "QrCodeList env query = and_then (qr_list env query) (\<lambda>items. returning (map (toResponse env) items))"

definition QrCodeGet :: "'s qr_env \<Rightarrow> string \<Rightarrow> (qr_error, qr_response, 's) action" where
  "QrCodeGet env i = and_then (qr_getById env i) (\<lambda>m. case m of
       None \<Rightarrow> throwing (not_found i) | Some model \<Rightarrow> returning (toResponse env model))"

definition QrCodeUpdate :: "'s qr_env \<Rightarrow> string \<Rightarrow> qr_partial \<Rightarrow> (qr_error, qr_response, 's) action" where
  "QrCodeUpdate env i request = and_then (qr_update env i request) (\<lambda>m. case m of
       None \<Rightarrow> throwing (not_found i) | Some model \<Rightarrow> returning (toResponse env model))"

definition QrCodeDelete :: "'s qr_env \<Rightarrow> string \<Rightarrow> (qr_error, unit, 's) action" where
  "QrCodeDelete env i = and_then (qr_getById env i) (\<lambda>m. case m of
       None \<Rightarrow> throwing (not_found i) | Some _ \<Rightarrow> qr_delete env i)"

definition RedirectHandler ::
  "'s qr_env \<Rightarrow> string \<Rightarrow> ('s \<Rightarrow> bool option) \<Rightarrow> (qr_error, string, 's) action" where
  "RedirectHandler env slug signal = and_then (qr_getBySlug env slug signal) (\<lambda>m. case m of
       None \<Rightarrow> throwing (not_found slug)
     | Some model \<Rightarrow> if qr_active model then returning (qr_targetURL model) else throwing (not_found slug))"

text \<open>The image: format, size and error correction go to the renderer, the level with its default.\<close>

datatype image_format = PNG | SVG
datatype error_correction = EC_L | EC_M | EC_Q | EC_H

record render_call =
  rn_value :: string
  rn_format :: image_format
  rn_ecLevel :: error_correction
  rn_width :: "int option"

definition render :: "(render_call \<Rightarrow> (qr_error, 'b, 's) action) \<Rightarrow> string \<Rightarrow> image_format \<Rightarrow> int option
    \<Rightarrow> error_correction option \<Rightarrow> (qr_error, string \<times> 'b, 's) action" where
  "render qrcode value format width ecLevel =
     (let level = (case ecLevel of None \<Rightarrow> EC_M | Some l \<Rightarrow> l) in
      if format = SVG
      then and_then (qrcode \<lparr>rn_value = value, rn_format = SVG, rn_ecLevel = level, rn_width = None\<rparr>)
             (\<lambda>body. returning (''image/svg+xml'', body))
      else and_then (qrcode \<lparr>rn_value = value, rn_format = PNG, rn_ecLevel = level, rn_width = width\<rparr>)
             (\<lambda>body. returning (''image/png'', body)))"

definition QrCodeImage :: "'s qr_env \<Rightarrow> (render_call \<Rightarrow> (qr_error, 'b, 's) action) \<Rightarrow> string \<Rightarrow> image_format
    \<Rightarrow> int option \<Rightarrow> error_correction option \<Rightarrow> (qr_error, string \<times> 'b, 's) action" where
  "QrCodeImage env qrcode i format width ecLevel = and_then (qr_getById env i) (\<lambda>m. case m of
       None \<Rightarrow> throwing (not_found i)
     | Some model \<Rightarrow> render qrcode (strip_trailing_slashes (qe_baseURL env) @ ''/'' @ qr_slug model) format width ecLevel)"

subsection \<open>Allocation\<close>

text \<open>One attempt that the unique index refused.\<close>

definition collides :: "'s qr_env \<Rightarrow> qr_entity \<Rightarrow> ('s \<times> 's) set" where
  "collides env entity = {(s, s'). \<exists>e. insert_once env entity s = (Inl e, s') \<and> isSlugCollision e}"

lemma create_loop_spec:
  "create_loop env entity n s = (r, s') \<Longrightarrow>
     r = Inl allocation_failed \<and> (s, s') \<in> collides env entity ^^ n
   \<or> (\<exists>k < n. \<exists>t. (s, t) \<in> collides env entity ^^ k \<and> insert_once env entity t = (r, s')
        \<and> (case r of Inl e \<Rightarrow> \<not> isSlugCollision e | Inr _ \<Rightarrow> True))"
proof (induction n arbitrary: s)
  case (Suc n)
  obtain x s1 where first: "insert_once env entity s = (x, s1)" by (meson surj_pair)
  show ?case
  proof (cases "\<exists>e. x = Inl e \<and> isSlugCollision e")
    case True
    then have step: "(s, s1) \<in> collides env entity" and rest: "create_loop env entity n s1 = (r, s')"
      using first Suc.prems by (auto simp: collides_def)
    from Suc.IH [OF rest] show ?thesis
    proof (elim disjE exE conjE)
      assume "r = Inl allocation_failed" "(s1, s') \<in> collides env entity ^^ n"
      with step show ?thesis by (auto simp: relpow_commute [symmetric] intro: relpow_Suc_I2)
    next
      fix k t assume "k < n" "(s1, t) \<in> collides env entity ^^ k" "insert_once env entity t = (r, s')"
        "case r of Inl e \<Rightarrow> \<not> isSlugCollision e | Inr _ \<Rightarrow> True"
      with relpow_Suc_I2 [OF step this(2)] show ?thesis by (intro disjI2 exI [of _ "Suc k"]) blast
    qed
  next
    case False
    with first Suc.prems have "x = r" "s1 = s'" by (auto split: sum.splits)
    with first False show ?thesis by (intro disjI2 exI [of _ 0]) (auto split: sum.splits)
  qed
qed simp

text \<open>
  Property C32. The allocation of a slug. Every attempt inserts under a newly generated slug; an attempt is only
  followed by another when the unique index on the slug refused it, and there are five at most. The
  call reports a conflict exactly after five refusals, and otherwise what the last attempt came to:
  the stored record, or the driver's own error at its first occurrence.
\<close>

theorem slug_allocation:
  "case qr_create env entity s of (r, s') \<Rightarrow>
     r = Inl allocation_failed \<and> (s, s') \<in> collides env entity ^^ 5
   \<or> (\<exists>k < 5. \<exists>t. (s, t) \<in> collides env entity ^^ k \<and> insert_once env entity t = (r, s')
        \<and> (case r of Inl e \<Rightarrow> \<not> isSlugCollision e | Inr _ \<Rightarrow> True))"
proof -
  obtain r s' where run: "qr_create env entity s = (r, s')" by (meson surj_pair)
  from create_loop_spec [OF this [unfolded qr_create_def INSERT_ATTEMPTS_def]] run show ?thesis by simp
qed

subsection \<open>The lookup of a slug\<close>

lemma slugLookup_eq:
  "slugLookup = Inr \<lparr>pol_attempt = Wrap [Breaker_Layer \<lparr>cb_halfOpenAfterMs = 10000, cb_threshold = 1 / 2,
       cb_samplingDurationMs = 10000, cb_minimumThroughput = 5\<rparr>, Timeout_Layer 2000],
     pol_maxRetries = 0, pol_backoffMs = 0, pol_handle = None\<rparr>"
  by (simp add: slugLookup_def createResiliencePolicy_def parse_config_def optional_section_def parse_timeout_def
      parse_breaker_def int_field_def with_default_def policy_layers_def compose_layers_def List.map_filter_def
      SLUG_LOOKUP_TIMEOUT_MS_def Let_def)

text \<open>
  A scan costs one lookup. Under the policy the repository builds, the lookup of a slug is not made
  at all for a caller that is gone, and otherwise attempted once, never retried; a failure is the
  driver's own unless the caller went away meanwhile.
\<close>

theorem slug_looked_up_once:
  "findBySlug env slug signal s =
     (if signal s = Some True then (Inl Lookup_Failed, s)
      else case qe_attempt env (Wrap [Breaker_Layer \<lparr>cb_halfOpenAfterMs = 10000, cb_threshold = 1 / 2,
                 cb_samplingDurationMs = 10000, cb_minimumThroughput = 5\<rparr>, Timeout_Layer 2000]) (qe_findOne env slug) s of
          (Inr found, s') \<Rightarrow> (Inr found, s')
        | (Inl (Failed e), s') \<Rightarrow> (Inl (if signal s' = Some True then Lookup_Failed else e), s')
        | (Inl ParentCancelled, s') \<Rightarrow> (Inl Lookup_Failed, s'))"
  by (auto simp: findBySlug_def slugLookup_eq execute_def execute_from_pass loop_pass_def parent_aborted_def
      should_handle_def split: prod.splits sum.splits failure.splits)

subsection \<open>A printed code and its record\<close>

text \<open>
  What the collection does, with \<open>docs\<close> its documents, in no order, and \<open>cast\<close> how the driver reads the
  identifier a call names. Lookups answer from them; an insert adds a document with the payload's fields
  under a new identifier, and there is a unique index on the slug; \<^verbatim>\<open>$set\<close> replaces the fields it is given
  and the time of the update and leaves the others. A write that is rejected may have been done or not.
  An attempt that resolves gives what the lookup does.
\<close>

definition set_fields :: "qr_changes \<Rightarrow> qr_dto \<Rightarrow> qr_dto" where
  "set_fields u d = d\<lparr>qd_slug := with_default (qd_slug d) (qp_slug u),
     qd_targetURL := with_default (qd_targetURL d) (qp_targetURL u), qd_label := with_default (qd_label d) (qp_label u),
     qd_type := with_default (qd_type d) (qp_type u), qd_active := with_default (qd_active d) (qp_active u)\<rparr>"

definition doc_inserted :: "qr_payload \<Rightarrow> qr_dto set \<Rightarrow> qr_dto \<Rightarrow> qr_dto set \<Rightarrow> bool" where
  "doc_inserted c ds d ds' \<longleftrightarrow> ds' = insert d ds \<and> qd_id d \<notin> qd_id ` ds \<and> qd_slug d \<notin> qd_slug ` ds
     \<and> qd_slug d = qc_slug c \<and> qd_targetURL d = qc_targetURL c \<and> qd_label d = qc_label c \<and> qd_type d = qc_type c
     \<and> qd_active d = qc_active c"

definition doc_updated :: "(string \<Rightarrow> string option) \<Rightarrow> string \<Rightarrow> mongo_update \<Rightarrow> qr_dto set \<Rightarrow> qr_dto \<Rightarrow> qr_dto set \<Rightarrow> bool" where
  "doc_updated cast i u ds d' ds' \<longleftrightarrow> (case u of Set_Fields changes \<Rightarrow>
     \<exists>d \<in> ds. \<exists>now. cast i = Some (qd_id d) \<and> d' = (set_fields changes d)\<lparr>qd_updatedAt := now\<rparr> \<and> ds' = insert d' (ds - {d}))"

definition docs_removed :: "(string \<Rightarrow> string option) \<Rightarrow> string \<Rightarrow> qr_dto set \<Rightarrow> qr_dto set" where
  "docs_removed cast i ds = {d \<in> ds. cast i \<noteq> Some (qd_id d)}"

definition doc_found :: "(qr_dto \<Rightarrow> bool) \<Rightarrow> qr_dto set \<Rightarrow> qr_dto option \<Rightarrow> bool" where
  "doc_found P ds x \<longleftrightarrow> (case x of None \<Rightarrow> \<forall>d \<in> ds. \<not> P d | Some d \<Rightarrow> d \<in> ds \<and> P d)"

definition mongo_collection :: "'s qr_env \<Rightarrow> (string \<Rightarrow> string option) \<Rightarrow> ('s \<Rightarrow> qr_dto set) \<Rightarrow> bool" where
  "mongo_collection env cast docs \<longleftrightarrow>
     (\<forall>s. docs (snd (qe_generator env s)) = docs s)
   \<and> (\<forall>i s. docs (snd (qe_findById env i s)) = docs s
        \<and> (\<forall>d. fst (qe_findById env i s) = Inr d \<longrightarrow> doc_found (\<lambda>d. cast i = Some (qd_id d)) (docs s) d))
   \<and> (\<forall>p slug s. docs (snd (qe_attempt env p (qe_findOne env slug) s)) = docs s
        \<and> (\<forall>d. fst (qe_attempt env p (qe_findOne env slug) s) = Inr d \<longrightarrow> doc_found (\<lambda>d. qd_slug d = slug) (docs s) d))
   \<and> (\<forall>c s. case qe_create env c s of
          (Inl _, s') \<Rightarrow> docs s' = docs s \<or> (\<exists>d. doc_inserted c (docs s) d (docs s'))
        | (Inr d, s') \<Rightarrow> doc_inserted c (docs s) d (docs s'))
   \<and> (\<forall>i u s. case qe_findByIdAndUpdate env i u s of
          (Inl _, s') \<Rightarrow> docs s' = docs s \<or> (\<exists>d. doc_updated cast i u (docs s) d (docs s'))
        | (Inr None, s') \<Rightarrow> docs s' = docs s
        | (Inr (Some d), s') \<Rightarrow> doc_updated cast i u (docs s) d (docs s'))
   \<and> (\<forall>i s. case qe_findByIdAndDelete env i s of
          (Inl _, s') \<Rightarrow> docs s' = docs s \<or> docs s' = docs_removed cast i (docs s)
        | (Inr _, s') \<Rightarrow> docs s' = docs_removed cast i (docs s))"

lemma law_generator: "mongo_collection env cast docs \<Longrightarrow> docs (snd (qe_generator env s)) = docs s"
  unfolding mongo_collection_def by (elim conjE) (rule spec)

lemma law_findById: "mongo_collection env cast docs \<Longrightarrow> docs (snd (qe_findById env i s)) = docs s
    \<and> (\<forall>d. fst (qe_findById env i s) = Inr d \<longrightarrow> doc_found (\<lambda>d. cast i = Some (qd_id d)) (docs s) d)"
  unfolding mongo_collection_def by (elim conjE) (erule allE [of _ i], erule allE [of _ s], assumption)

lemma law_lookup: "mongo_collection env cast docs \<Longrightarrow> docs (snd (qe_attempt env p (qe_findOne env slug) s)) = docs s
    \<and> (\<forall>d. fst (qe_attempt env p (qe_findOne env slug) s) = Inr d \<longrightarrow> doc_found (\<lambda>d. qd_slug d = slug) (docs s) d)"
  unfolding mongo_collection_def by (elim conjE) blast

lemma law_create:
  assumes "mongo_collection env cast docs" and "qe_create env c s = (x, s')"
  shows "docs s' = docs s \<or> (\<exists>d. doc_inserted c (docs s) d (docs s'))"
  using assms(1) [unfolded mongo_collection_def, THEN conjunct2, THEN conjunct2, THEN conjunct2, THEN conjunct1, THEN spec [of _ c], THEN spec [of _ s]] assms(2)
  by (auto split: sum.splits)

lemma law_update:
  assumes "mongo_collection env cast docs" and "qe_findByIdAndUpdate env i u s = (x, s')"
  shows "docs s' = docs s \<or> (\<exists>d. doc_updated cast i u (docs s) d (docs s'))"
  using assms(1) [unfolded mongo_collection_def, THEN conjunct2, THEN conjunct2, THEN conjunct2, THEN conjunct2, THEN conjunct1,
      THEN spec [of _ i], THEN spec [of _ u], THEN spec [of _ s]] assms(2)
  by (auto split: sum.splits option.splits)

lemma law_delete:
  assumes "mongo_collection env cast docs" and "qe_findByIdAndDelete env i s = (x, s')"
  shows "docs s' = docs s \<or> docs s' = docs_removed cast i (docs s)"
  using assms(1) [unfolded mongo_collection_def, THEN conjunct2, THEN conjunct2, THEN conjunct2, THEN conjunct2, THEN conjunct2,
      THEN spec [of _ i], THEN spec [of _ s]] assms(2)
  by (auto split: sum.splits)

datatype qr_request = Create_Code string string qr_type | Update_Code string qr_partial | Delete_Code string

fun after_code_request :: "'s qr_env \<Rightarrow> qr_request \<Rightarrow> 's \<Rightarrow> 's" where
  "after_code_request env (Create_Code url label category) s = snd (QrCodeCreate env url label category s)"
| "after_code_request env (Update_Code i p) s = snd (QrCodeUpdate env i p s)"
| "after_code_request env (Delete_Code i) s = snd (QrCodeDelete env i s)"

lemma snd_and_then_pure:
  "(\<And>a s. snd (k a s) = s) \<Longrightarrow> snd (and_then m k s) = snd (m s)"
  by (auto simp: and_then_def split: prod.splits sum.splits)

text \<open>
  One write, whether it was answered or not: each document that a delete did not name is still there
  under its identifier and its slug, and neither is ever shared.
\<close>

definition identified :: "qr_dto set \<Rightarrow> bool" where
  "identified ds \<longleftrightarrow> inj_on qd_id ds \<and> inj_on qd_slug ds"

definition doc_follows :: "qr_dto \<Rightarrow> qr_dto \<Rightarrow> bool" where
  "doc_follows d d' \<longleftrightarrow> qd_id d' = qd_id d \<and> qd_slug d' = qd_slug d"

definition keeps_codes :: "(qr_dto \<Rightarrow> bool) \<Rightarrow> qr_dto set \<Rightarrow> qr_dto set \<Rightarrow> bool" where
  "keeps_codes gone ds ds' \<longleftrightarrow> (identified ds \<longrightarrow> identified ds' \<and> (\<forall>d \<in> ds. gone d \<or> (\<exists>d' \<in> ds'. doc_follows d d')))"

lemma keeps_codes_refl [simp]: "keeps_codes gone ds ds"
  by (auto simp: keeps_codes_def doc_follows_def)

lemma keeps_codes_trans:
  assumes "keeps_codes gone ds ds1" and "keeps_codes gone ds1 ds2" and "\<And>d d'. doc_follows d d' \<Longrightarrow> gone d' \<Longrightarrow> gone d"
  shows "keeps_codes gone ds ds2"
proof -
  have "gone d \<or> (\<exists>d2 \<in> ds2. doc_follows d d2)" if ok: "identified ds" and d: "d \<in> ds" for d
  proof (cases "gone d")
    case False
    with assms(1) ok d obtain d1 where d1: "d1 \<in> ds1" "doc_follows d d1" by (auto simp: keeps_codes_def)
    with assms(3) False have "\<not> gone d1" by blast
    moreover have "identified ds1" using assms(1) ok by (simp add: keeps_codes_def)
    ultimately obtain d2 where "d2 \<in> ds2" "doc_follows d1 d2" using assms(2) d1(1) by (auto simp: keeps_codes_def)
    with d1(2) show ?thesis by (auto simp: doc_follows_def)
  qed simp
  with assms(1,2) show ?thesis by (auto simp: keeps_codes_def)
qed

lemma inserted_keeps: "doc_inserted c ds d ds' \<Longrightarrow> keeps_codes gone ds ds'"
  by (auto simp: doc_inserted_def keeps_codes_def identified_def doc_follows_def)

lemma removed_keeps: "(\<And>d. cast i = Some (qd_id d) \<Longrightarrow> gone d) \<Longrightarrow> keeps_codes gone ds (docs_removed cast i ds)"
  by (auto simp: docs_removed_def keeps_codes_def identified_def doc_follows_def intro: inj_on_subset)

lemma updated_keeps:
  assumes "doc_updated cast i (Set_Fields u) ds d' ds'" and "qp_slug u = None"
  shows "keeps_codes gone ds ds'"
proof -
  from assms obtain d where d: "d \<in> ds" "doc_follows d d'" "ds' = insert d' (ds - {d})"
    by (auto simp: doc_updated_def doc_follows_def set_fields_def with_default_def)
  have "identified ds'" if "identified ds"
    using that d by (auto simp: identified_def doc_follows_def inj_on_def)
  with d show ?thesis by (auto simp: keeps_codes_def doc_follows_def)
qed

lemma insert_once_keeps:
  assumes col: "mongo_collection env cast docs"
  shows "keeps_codes gone (docs s) (docs (snd (insert_once env entity s)))"
proof -
  obtain slug s1 where gen: "qe_generator env s = (slug, s1)" by (meson surj_pair)
  let ?c = "buildMongoCreate (qr_entity.extend entity \<lparr>qc_slug = slug\<rparr>)"
  obtain x s2 where ins: "qe_create env ?c s1 = (x, s2)" by (meson surj_pair)
  have "docs s1 = docs s" using law_generator [OF col, of s] gen by simp
  then have "keeps_codes gone (docs s) (docs s2)"
    using law_create [OF col ins] by (auto intro: inserted_keeps)
  with gen ins show ?thesis by (simp add: insert_once_def snd_and_then_pure)
qed

lemma create_keeps:
  assumes col: "mongo_collection env cast docs" and stays: "\<And>d d'. doc_follows d d' \<Longrightarrow> gone d' \<Longrightarrow> gone d"
  shows "keeps_codes gone (docs s) (docs (snd (create_loop env entity n s)))"
proof (induction n arbitrary: s)
  case (Suc n)
  obtain x s1 where first: "insert_once env entity s = (x, s1)" by (meson surj_pair)
  have one: "keeps_codes gone (docs s) (docs s1)" using insert_once_keeps [OF col, of gone s entity] first by simp
  with Suc.IH [of s1] first keeps_codes_trans [OF one _ stays] show ?case by (auto split: sum.split)
qed simp

text \<open>What a request does, with \<open>deletes\<close> the documents it names for deletion.\<close>

definition deletes :: "(string \<Rightarrow> string option) \<Rightarrow> qr_request \<Rightarrow> qr_dto \<Rightarrow> bool" where
  "deletes cast c d \<longleftrightarrow> (case c of Delete_Code i \<Rightarrow> cast i = Some (qd_id d) | _ \<Rightarrow> False)"

lemma deletes_follows: "doc_follows d d' \<Longrightarrow> deletes cast c d' = deletes cast c d"
  by (simp add: deletes_def doc_follows_def split: qr_request.split)

lemma request_keeps:
  assumes col: "mongo_collection env cast docs"
  shows "keeps_codes (deletes cast c) (docs s) (docs (after_code_request env c s))"
proof (cases c)
  case (Create_Code url label category)
  have "keeps_codes (deletes cast c) (docs s) (docs (snd (create_loop env
      \<lparr>qc_targetURL = url, qc_label = label, qc_type = category, qc_active = True\<rparr> INSERT_ATTEMPTS s)))"
    by (rule create_keeps [OF col]) (simp add: deletes_follows)
  then show ?thesis by (simp add: Create_Code QrCodeCreate_def snd_and_then_pure qr_create_def)
next
  case (Update_Code i p)
  let ?u = "qr_partial.extend p \<lparr>qp_slug = None\<rparr>"
  obtain r s' where run: "qe_findByIdAndUpdate env i (Set_Fields (buildMongoUpdate ?u)) s = (r, s')" by (meson surj_pair)
  have after: "after_code_request env c s = s'"
    by (simp add: Update_Code QrCodeUpdate_def qr_update_def updateById_def snd_and_then_pure run split: option.split)
  have "qp_slug (buildMongoUpdate ?u) = None" by (simp add: buildMongoUpdate_def qr_partial.defs)
  with law_update [OF col run] have "keeps_codes (deletes cast c) (docs s) (docs s')" by (auto intro: updated_keeps)
  with after show ?thesis by simp
next
  case (Delete_Code i)
  obtain r s1 where find: "qe_findById env i s = (r, s1)" by (meson surj_pair)
  have s1: "docs s1 = docs s" using law_findById [OF col, where i = i and s = s] find by simp
  obtain x s2 where del: "qe_findByIdAndDelete env i s1 = (x, s2)" by (meson surj_pair)
  have "after_code_request env c s = (case r of Inr (Some _) \<Rightarrow> s2 | _ \<Rightarrow> s1)"
    using find del by (auto simp: Delete_Code QrCodeDelete_def qr_getById_def qr_delete_def and_then_def
        split: sum.splits option.splits)
  moreover have "keeps_codes (deletes cast c) (docs s) (docs s2)"
    using law_delete [OF col del] s1 by (auto intro!: removed_keeps simp: Delete_Code deletes_def)
  ultimately show ?thesis using s1 by (auto split: sum.split option.split)
qed

lemma requests_keep:
  assumes col: "mongo_collection env cast docs"
  shows "identified (docs s) \<Longrightarrow> d \<in> docs s \<Longrightarrow> \<forall>c \<in> set cs. \<not> deletes cast c d \<Longrightarrow>
    identified (docs (fold (after_code_request env) cs s))
    \<and> (\<exists>d' \<in> docs (fold (after_code_request env) cs s). doc_follows d d')"
proof (induction cs arbitrary: s d)
  case Nil
  then show ?case by (auto simp: doc_follows_def)
next
  case (Cons c cs)
  from request_keeps [OF col, of c s] Cons.prems obtain d1 where
    d1: "identified (docs (after_code_request env c s))" "d1 \<in> docs (after_code_request env c s)" "doc_follows d d1"
    by (auto simp: keeps_codes_def)
  have "\<forall>c \<in> set cs. \<not> deletes cast c d1" using Cons.prems(3) deletes_follows [OF d1(3)] by simp
  from Cons.IH [OF d1(1,2) this] d1(3) show ?case by (auto simp: doc_follows_def)
qed

text \<open>
  Property C33. A printed code keeps addressing its record. Through any sequence of creations, updates and deletions
  of other records, one after the other, refused and half-done ones included, the record keeps the slug
  that was printed and no other record gets it; so a scan, when the lookup answers, is redirected to the
  target the record has by then, or told there is no such code when the record was deactivated.
\<close>

theorem printed_code_follows_record:
  assumes col: "mongo_collection env cast docs"
    and start: "inj_on qd_id (docs s)" "inj_on qd_slug (docs s)" and d: "d \<in> docs s"
    and kept: "\<forall>i. Delete_Code i \<in> set cs \<longrightarrow> cast i \<noteq> Some (qd_id d)"
    and answered: "findBySlug env (qd_slug d) signal (fold (after_code_request env) cs s) = (Inr x, s')"
  shows "\<exists>d' \<in> docs (fold (after_code_request env) cs s). qd_id d' = qd_id d \<and> qd_slug d' = qd_slug d
    \<and> (\<forall>e \<in> docs (fold (after_code_request env) cs s). qd_slug e = qd_slug d \<longrightarrow> e = d')
    \<and> RedirectHandler env (qd_slug d) signal (fold (after_code_request env) cs s)
        = (if qd_active d' then Inr (qd_targetURL d') else Inl (not_found (qd_slug d)), s')"
proof -
  let ?s = "fold (after_code_request env) cs s"
  have "\<forall>c \<in> set cs. \<not> deletes cast c d" using kept by (auto simp: deletes_def split: qr_request.split)
  with requests_keep [OF col _ d, of cs] start obtain d' where
    d': "d' \<in> docs ?s" "qd_id d' = qd_id d" "qd_slug d' = qd_slug d" and ok: "identified (docs ?s)"
    by (auto simp: identified_def doc_follows_def)
  have only: "\<forall>e \<in> docs ?s. qd_slug e = qd_slug d \<longrightarrow> e = d'"
    using ok d' by (auto simp: identified_def inj_on_def)
  from slug_looked_up_once [of env "qd_slug d" signal ?s] answered obtain p where
    "qe_attempt env p (qe_findOne env (qd_slug d)) ?s = (Inr x, s')"
    by (auto split: if_splits prod.splits sum.splits failure.splits)
  with law_lookup [OF col, where p = p and slug = "qd_slug d" and s = ?s] have "doc_found (\<lambda>e. qd_slug e = qd_slug d) (docs ?s) x" by simp
  then have "x = Some d'"
  proof (cases x)
    case None
    with \<open>doc_found _ _ x\<close> d'(1,3) show ?thesis by (simp add: doc_found_def)
  next
    case (Some e)
    with \<open>doc_found _ _ x\<close> only show ?thesis by (simp add: doc_found_def)
  qed
  then have "RedirectHandler env (qd_slug d) signal ?s
      = (if qd_active d' then Inr (qd_targetURL d') else Inl (not_found (qd_slug d)), s')"
    using answered by (simp add: RedirectHandler_def qr_getBySlug_def and_then_def mongoToModel_def)
  with d' only show ?thesis by blast
qed

text \<open>
  The image of a record encodes the URL its response shows, although the two are composed in
  different places.
\<close>

lemma image_encodes_response_url:
  assumes "QrCodeGet env i s = (Inr response, s1)"
  shows "QrCodeImage env qrcode i format width ecLevel s = render qrcode (qr_qrURL response) format width ecLevel s1"
  using assms by (auto simp: QrCodeGet_def QrCodeImage_def and_then_Inr toResponse_def composeQrURL_def
      returning_def throwing_def split: option.splits)

subsection \<open>A collection in memory\<close>

definition memory_update :: "string \<Rightarrow> mongo_update \<Rightarrow> qr_dto list \<Rightarrow> qr_dto option \<times> qr_dto list" where
  "memory_update i u ds = (case (u, find (\<lambda>d. qd_id d = i) ds) of
       (Set_Fields changes, Some d) \<Rightarrow> let d' = set_fields changes d in (Some d', map (\<lambda>x. if x = d then d' else x) ds)
     | _ \<Rightarrow> (None, ds))"

definition memory_qr_env :: "(nat \<times> qr_dto list) qr_env" where
  "memory_qr_env = \<lparr>
     qe_generator = (\<lambda>(n, ds). (show_nat n, (Suc n, ds))),
     qe_find = (\<lambda>_ s. (Inr (snd s), s)),
     qe_findById = (\<lambda>i s. (Inr (find (\<lambda>d. qd_id d = i) (snd s)), s)),
     qe_findOne = (\<lambda>slug s. (Inr (find (\<lambda>d. qd_slug d = slug) (snd s)), s)),
     qe_create = (\<lambda>c (n, ds).
        if qc_slug c \<in> set (map qd_slug ds) then (Inl (Mongo_Error (Some 11000) (Some [(''slug'', JNum 1)])), (n, ds))
        else (let d = \<lparr>qd_id = concat (map qd_id ds) @ ''x'', qd_createdAt = 0, qd_updatedAt = 0, qd_slug = qc_slug c,
                qd_targetURL = qc_targetURL c, qd_label = qc_label c, qd_type = qc_type c, qd_active = qc_active c\<rparr>
              in (Inr d, (n, ds @ [d])))),
     qe_findByIdAndUpdate = (\<lambda>i u (n, ds). case memory_update i u ds of (d, ds') \<Rightarrow> (Inr d, (n, ds'))),
     qe_findByIdAndDelete = (\<lambda>i (n, ds). (Inr (), (n, filter (\<lambda>d. qd_id d \<noteq> i) ds))),
     qe_attempt = (\<lambda>_ work s. case work s of (Inr d, s') \<Rightarrow> (Inr d, s') | (Inl e, s') \<Rightarrow> (Inl (Failed e), s')),
     qe_pause = (\<lambda>_ s. ([], s)), qe_baseURL = ''http://qr.home/''\<rparr>"

lemma concat_longer: "d \<in> set ds \<Longrightarrow> qd_id d \<noteq> concat (map qd_id ds) @ ''x''"
proof
  assume d: "d \<in> set ds" and eq: "qd_id d = concat (map qd_id ds) @ ''x''"
  have "length (qd_id d) \<le> length (concat (map qd_id ds))" using d by (induction ds) auto
  with eq show False by simp
qed

lemma found_find: "doc_found P (set ds) (find P ds)"
  unfolding doc_found_def by (auto simp: find_None_iff find_Some_iff split: option.split)

lemma memory_updated:
  assumes "memory_update i u ds = (Some d', ds')"
  shows "doc_updated Some i u (set ds) d' (set ds')"
proof -
  obtain changes where u: "u = Set_Fields changes" by (cases u)
  from assms u obtain d where d: "find (\<lambda>d. qd_id d = i) ds = Some d" "d' = set_fields changes d" "ds' = map (\<lambda>x. if x = d then d' else x) ds"
    by (auto simp: memory_update_def Let_def split: option.splits)
  then have "d \<in> set ds" "qd_id d = i" by (auto simp: find_Some_iff)
  moreover have "d' = (set_fields changes d)\<lparr>qd_updatedAt := qd_updatedAt d\<rparr>" by (simp add: d(2) set_fields_def)
  moreover have "set ds' = insert d' (set ds - {d})" using calculation(1) d(3) by auto
  ultimately show ?thesis by (auto simp: doc_updated_def u)
qed

lemma memory_collection: "mongo_collection memory_qr_env Some (\<lambda>s. set (snd s))"
proof -
  have same: "memory_update i u ds = (None, ds') \<Longrightarrow> ds' = ds" for i u ds ds'
    by (auto simp: memory_update_def Let_def split: mongo_update.splits option.splits)
  have byId: "doc_found (\<lambda>d. i = qd_id d) (set ds) (find (\<lambda>d. qd_id d = i) ds)" for i ds
    using found_find [of "\<lambda>d. qd_id d = i" ds] by (simp add: eq_commute)
  show ?thesis
    unfolding mongo_collection_def memory_qr_env_def qr_env.simps
    by (intro conjI) (auto simp: Let_def found_find byId doc_inserted_def docs_removed_def memory_updated image_iff
        dest!: same dest: concat_longer split: prod.split sum.split option.split)
qed

definition sample_code :: qr_dto where
  "sample_code = \<lparr>qd_id = ''a'', qd_createdAt = 0, qd_updatedAt = 0, qd_slug = ''x7k2'', qd_targetURL = ''https://old'',
     qd_label = ''Shelf'', qd_type = PLANT, qd_active = True\<rparr>"

definition retarget :: qr_request where
  "retarget = Update_Code ''a'' \<lparr>qp_targetURL = Some ''https://new'', qp_label = None, qp_type = None, qp_active = None\<rparr>"

lemma retargeted: "snd (after_code_request memory_qr_env retarget (0, [sample_code])) = [sample_code\<lparr>qd_targetURL := ''https://new''\<rparr>]"
  by (simp add: retarget_def QrCodeUpdate_def qr_update_def updateById_def and_then_def memory_qr_env_def sample_code_def
      memory_update_def set_fields_def buildMongoUpdate_def qr_partial.defs with_default_def Let_def)

lemma printed_code_follows_record_witness:
  "\<exists>s'. RedirectHandler memory_qr_env ''x7k2'' (\<lambda>_. None) (after_code_request memory_qr_env retarget (0, [sample_code]))
     = (Inr ''https://new'', s')"
proof -
  let ?s = "fold (after_code_request memory_qr_env) [retarget] (0, [sample_code])"
  have "\<exists>x s'. findBySlug memory_qr_env (qd_slug sample_code) (\<lambda>_. None) ?s = (Inr x, s')"
    by (simp add: slug_looked_up_once) (simp add: memory_qr_env_def)
  then obtain x s' where answered: "findBySlug memory_qr_env (qd_slug sample_code) (\<lambda>_. None) ?s = (Inr x, s')" by blast
  have "inj_on qd_id (set (snd (0 :: nat, [sample_code])))" "inj_on qd_slug (set (snd (0 :: nat, [sample_code])))"
    "sample_code \<in> set (snd (0 :: nat, [sample_code]))" "\<forall>i. Delete_Code i \<in> set [retarget] \<longrightarrow> Some i \<noteq> Some (qd_id sample_code)"
    by (simp_all add: retarget_def)
  from printed_code_follows_record [OF memory_collection this answered] obtain d' where
    d': "d' \<in> set (snd ?s)" and r: "RedirectHandler memory_qr_env (qd_slug sample_code) (\<lambda>_. None) ?s
        = (if qd_active d' then Inr (qd_targetURL d') else Inl (not_found (qd_slug sample_code)), s')" by blast
  from d' have "d' = sample_code\<lparr>qd_targetURL := ''https://new''\<rparr>" by (simp add: retargeted)
  with r show ?thesis by (simp add: sample_code_def)
qed

end
