(* ===== verification/Raster.thy ===== *)
theory Raster
  imports Complex_Main Effect
begin

text \<open>
  \<^verbatim>\<open>apis/interactive-map-feeder-api/src/v1\<close>: the cities, where a coordinate lies on a radar image, the
  colour around it, and the layer with a dot per city. Image decoding (\<^verbatim>\<open>sharp\<close>), the number helpers
  (\<^verbatim>\<open>NumberUtils\<close>) and the distance of two coordinates (\<^verbatim>\<open>GeoUtils\<close>) are parameters. The source computes
  coordinates in floating point: they are of any type \<open>'n\<close> with the four operations, and only
  hypotheses tie them to exact arithmetic. Pixel positions, which are rounded, are integers.
\<close>

subsection \<open>Coordinates, cities and colours\<close>

record 'n coordinates =
  latitude :: 'n
  longitude :: 'n

record 'n city = "'n coordinates" +
  city_id :: int
  city_name :: string

record 'n bbox =
  topLeft :: "'n coordinates"
  bottomRight :: "'n coordinates"

record position =
  pos_x :: int
  pos_y :: int

record 'c rgba =
  red :: 'c
  green :: 'c
  blue :: 'c
  alpha :: 'c

record 'n city_led = "'n city" +
  color_r :: int
  color_g :: int
  color_b :: int

text \<open>The helpers a service is built on. \<open>number\<close> is an integer as a number of the source.\<close>

record 'n num_utils =
  number :: "int \<Rightarrow> 'n"
  nu_round :: "'n \<Rightarrow> int"
  nu_floor :: "'n \<Rightarrow> int"
  nu_mean :: "byte option list \<Rightarrow> 'n"
  nu_min :: "int list \<Rightarrow> int option"
  nu_max :: "int list \<Rightarrow> int option"
  nu_getValueFromPercent :: "'n \<Rightarrow> 'n \<Rightarrow> 'n"
  nu_getPercentFromValue :: "'n \<Rightarrow> 'n \<Rightarrow> 'n"
  geo_km :: "'n \<Rightarrow> 'n \<Rightarrow> 'n \<Rightarrow> 'n \<Rightarrow> 'n"

text \<open>A decimal literal: its digits over a power of ten.\<close>

definition decimal :: "'n num_utils \<Rightarrow> int \<times> int \<Rightarrow> 'n::inverse" where
  "decimal nu d = number nu (fst d) / number nu (snd d)"

type_synonym city_entry = "int \<times> string \<times> (int \<times> int) \<times> (int \<times> int)"

text \<open>The cities of the display; a name is the UTF-8 bytes of the text.\<close>

definition CITIES :: "city_entry list" where
  "CITIES =
    [(0, ''D'' @ [CHR 0xC4, CHR 0x9B, CHR 0xC4, CHR 0x8D, CHR 0xC3, CHR 0xAD] @ ''n'', (50772656, 1000000), (14212861, 1000000)),
     (1, ''Liberec'', (5076638, 100000), (15054439, 1000000)),
     (2, ''Jablonec nad Nisou'', (50722153, 1000000), (15170414, 1000000)),
     (3, [CHR 0xC3, CHR 0x9A] @ ''st'' @ [CHR 0xC3, CHR 0xAD] @ '' nad Labem'', (50661216, 1000000), (14053246, 1000000)),
     (4, [CHR 0xC4, CHR 0x8C] @ ''esk'' @ [CHR 0xC3, CHR 0xA1] @ '' L'' @ [CHR 0xC3, CHR 0xAD] @ ''pa'', (5067862, 100000), (14539799, 1000000)),
     (5, ''Semily'', (50605258, 1000000), (15328241, 1000000)),
     (6, ''Teplice'', (50644558, 1000000), (13835384, 1000000)),
     (7, ''Trutnov'', (50565484, 1000000), (15909192, 1000000)),
     (8, ''Litom'' @ [CHR 0xC4, CHR 0x9B, CHR 0xC5, CHR 0x99] @ ''ice'', (5053852, 100000), (14130646, 1000000)),
     (9, ''Most'', (50501655, 1000000), (13633012, 1000000)),
     (10, ''Chomutov'', (50463598, 1000000), (13410837, 1000000)),
     (11, ''Ji'' @ [CHR 0xC4, CHR 0x8D, CHR 0xC3, CHR 0xAD] @ ''n'', (50435433, 1000000), (15361144, 1000000)),
     (12, ''N'' @ [CHR 0xC3, CHR 0xA1] @ ''chod'', (50414672, 1000000), (16165735, 1000000)),
     (13, ''Mlad'' @ [CHR 0xC3, CHR 0xA1] @ '' Boleslav'', (50413525, 1000000), (14908538, 1000000)),
     (14, ''M'' @ [CHR 0xC4, CHR 0x9B] @ ''ln'' @ [CHR 0xC3, CHR 0xAD] @ ''k'', (50354002, 1000000), (14481881, 1000000)),
     (15, ''Louny'', (50354081, 1000000), (13803455, 1000000)),
     (16, ''Karlovy Vary'', (50231952, 1000000), (12872062, 1000000)),
     (17, ''Jesen'' @ [CHR 0xC3, CHR 0xAD] @ ''k'', (50224725, 1000000), (17198147, 1000000)),
     (18, ''Hradec Kr'' @ [CHR 0xC3, CHR 0xA1] @ ''lov'' @ [CHR 0xC3, CHR 0xA9], (50210461, 1000000), (15825311, 1000000)),
     (19, ''Sokolov'', (50174629, 1000000), (12659992, 1000000)),
     (20, ''Nymburk'', (50185682, 1000000), (1504376, 100000)),
     (21, ''Rychnov nad Kn'' @ [CHR 0xC4, CHR 0x9B, CHR 0xC5, CHR 0xBE] @ ''nou'', (50166065, 1000000), (16277784, 1000000)),
     (22, ''Kladno'', (501473358, 10000000), (141028503, 10000000)),
     (23, ''Rakovn'' @ [CHR 0xC3, CHR 0xAD] @ ''k'', (50106223, 1000000), (13739762, 1000000)),
     (24, ''Cheb'', (50079633, 1000000), (12369964, 1000000)),
     (25, ''Brunt'' @ [CHR 0xC3, CHR 0xA1] @ ''l'', (49988277, 1000000), (17463794, 1000000)),
     (26, ''Praha'', (50075638, 1000000), (144379, 10000)),
     (27, ''Pardubice'', (50034409, 1000000), (15781299, 1000000)),
     (28, ''Kol'' @ [CHR 0xC3, CHR 0xAD] @ ''n'', (50027429, 1000000), (15202828, 1000000)),
     (29, [CHR 0xC3, CHR 0x9A] @ ''st'' @ [CHR 0xC3, CHR 0xAD] @ '' nad Orlic'' @ [CHR 0xC3, CHR 0xAD], (4997228, 100000), (16399762, 1000000)),
     (30, ''Opava'', (4994076, 100000), (17894899, 1000000)),
     (31, [CHR 0xC5, CHR 0xA0] @ ''umperk'', (49977941, 1000000), (16971875, 1000000)),
     (32, ''Beroun'', (49967305, 1000000), (14086384, 1000000)),
     (33, ''Kutn'' @ [CHR 0xC3, CHR 0xA1] @ '' Hora'', (49952531, 1000000), (15268754, 1000000)),
     (34, ''Chrudim'', (49949824, 1000000), (15795158, 1000000)),
     (35, ''Karvin'' @ [CHR 0xC3, CHR 0xA1], (49856752, 1000000), (18543319, 1000000)),
     (36, ''Ostrava'', (49821023, 1000000), (18262624, 1000000)),
     (37, ''Tachov'', (497952786, 10000000), (126336519, 10000000)),
     (38, ''Svitavy'', (49755263, 1000000), (16469286, 1000000)),
     (39, ''Bene'' @ [CHR 0xC5, CHR 0xA1] @ ''ov'', (497816247, 10000000), (146869667, 10000000)),
     (40, ''Plze'' @ [CHR 0xC5, CHR 0x88], (49738531, 1000000), (13373737, 1000000)),
     (41, ''Rokycany'', (49738197, 1000000), (13592993, 1000000)),
     (42, ''Fr'' @ [CHR 0xC3, CHR 0xBD] @ ''dek-M'' @ [CHR 0xC3, CHR 0xAD] @ ''stek'', (49682031, 1000000), (18367422, 1000000)),
     (43, ''P'' @ [CHR 0xC5, CHR 0x99, CHR 0xC3, CHR 0xAD] @ ''bram'', (49685532, 1000000), (13999045, 1000000)),
     (44, ''Nov'' @ [CHR 0xC3, CHR 0xBD] @ '' Ji'' @ [CHR 0xC4, CHR 0x8D, CHR 0xC3, CHR 0xAD] @ ''n'', (49594425, 1000000), (18013636, 1000000)),
     (45, ''Olomouc'', (49593878, 1000000), (17250979, 1000000)),
     (46, ''Havl'' @ [CHR 0xC3, CHR 0xAD, CHR 0xC4, CHR 0x8D] @ ''k'' @ [CHR 0xC5, CHR 0xAF] @ ''v Brod'', (49604436, 1000000), (15579755, 1000000)),
     (47, [CHR 0xC5, CHR 0xBD, CHR 0xC4, CHR 0x8F, CHR 0xC3, CHR 0xA1] @ ''r nad S'' @ [CHR 0xC3, CHR 0xA1] @ ''zavou'', (49564288, 1000000), (15939507, 1000000)),
     (48, ''P'' @ [CHR 0xC5, CHR 0x99] @ ''erov'', (49456579, 1000000), (1745033, 100000)),
     (49, ''Prost'' @ [CHR 0xC4, CHR 0x9B] @ ''jov'', (49472549, 1000000), (17106851, 1000000)),
     (50, ''Doma'' @ [CHR 0xC5, CHR 0xBE] @ ''lice'', (49439803, 1000000), (12931243, 1000000)),
     (51, ''Pelh'' @ [CHR 0xC5, CHR 0x99] @ ''imov'', (49430721, 1000000), (15223083, 1000000)),
     (52, ''T'' @ [CHR 0xC3, CHR 0xA1] @ ''bor'', (49413089, 1000000), (14677566, 1000000)),
     (53, ''Jihlava'', (4941586, 100000), (15595469, 1000000)),
     (54, ''Klatovy'', (49395655, 1000000), (13295194, 1000000)),
     (55, ''Blansko'', (4936495, 100000), (16647855, 1000000)),
     (56, ''Vset'' @ [CHR 0xC3, CHR 0xAD] @ ''n'', (49339025, 1000000), (17993952, 1000000)),
     (57, ''Krom'' @ [CHR 0xC4, CHR 0x9B, CHR 0xC5, CHR 0x99, CHR 0xC3, CHR 0xAD, CHR 0xC5, CHR 0xBE], (49291758, 1000000), (1739948, 100000)),
     (58, ''P'' @ [CHR 0xC3, CHR 0xAD] @ ''sek'', (49303554, 1000000), (14158129, 1000000)),
     (59, ''Vy'' @ [CHR 0xC5, CHR 0xA1] @ ''kov'', (49277552, 1000000), (16996199, 1000000)),
     (60, ''Strakonice'', (49260504, 1000000), (13910408, 1000000)),
     (61, ''Zl'' @ [CHR 0xC3, CHR 0xAD] @ ''n'', (49224537, 1000000), (17662863, 1000000)),
     (62, ''T'' @ [CHR 0xC5, CHR 0x99] @ ''eb'' @ [CHR 0xC3, CHR 0xAD, CHR 0xC4, CHR 0x8D], (49214887, 1000000), (15879652, 1000000)),
     (63, ''Brno'', (4919516, 100000), (16606937, 1000000)),
     (64, ''Jind'' @ [CHR 0xC5, CHR 0x99] @ ''ich'' @ [CHR 0xC5, CHR 0xAF] @ ''v Hradec'', (49144582, 1000000), (15006239, 1000000)),
     (65, ''Uhersk'' @ [CHR 0xC3, CHR 0xA9] @ '' Hradi'' @ [CHR 0xC5, CHR 0xA1] @ ''t'' @ [CHR 0xC4, CHR 0x9B], (49059897, 1000000), (1749595, 100000)),
     (66, ''Prachatice'', (4901101, 100000), (140001, 10000)),
     (67, [CHR 0xC4, CHR 0x8C] @ ''esk'' @ [CHR 0xC3, CHR 0xA9] @ '' Bud'' @ [CHR 0xC4, CHR 0x9B] @ ''jovice'', (48975758, 1000000), (14480355, 1000000)),
     (68, ''Hodon'' @ [CHR 0xC3, CHR 0xAD] @ ''n'', (488576153, 10000000), (171240233, 10000000)),
     (69, ''Znojmo'', (48856011, 1000000), (16054368, 1000000)),
     (70, [CHR 0xC4, CHR 0x8C] @ ''esk'' @ [CHR 0xC3, CHR 0xBD] @ '' Krumlov'', (48812835, 1000000), (14317566, 1000000)),
     (71, ''B'' @ [CHR 0xC5, CHR 0x99] @ ''eclav'', (4875324, 100000), (16882617, 1000000))]"

definition city_of :: "'n num_utils \<Rightarrow> city_entry \<Rightarrow> 'n::inverse city" where
  "city_of nu e = (case e of (i, name, lat, lon) \<Rightarrow>
     \<lparr>latitude = decimal nu lat, longitude = decimal nu lon, city_id = i, city_name = name\<rparr>)"

definition cities :: "'n num_utils \<Rightarrow> 'n::inverse city list" where
  "cities nu = map (city_of nu) CITIES"

subsection \<open>Images\<close>

text \<open>What a pipeline of \<^verbatim>\<open>sharp\<close> offers; \<open>'i\<close> is an image under construction.\<close>

record raw_info =
  ri_width :: int
  ri_height :: int
  ri_channels :: int

record ('i, 's) sharp =
  sh_create :: "byte list \<Rightarrow> 'i"
  sh_createRaw :: "byte list \<Rightarrow> raw_info \<Rightarrow> 'i"
  sh_clone :: "'i \<Rightarrow> 'i"
  sh_png :: "'i \<Rightarrow> 'i"
  sh_resize :: "'i \<Rightarrow> int \<Rightarrow> int \<Rightarrow> 'i"
  sh_composite :: "'i \<Rightarrow> byte list list \<Rightarrow> 'i"
  sh_metadata :: "'i \<Rightarrow> (int \<times> int, 's) effect"
  sh_raw :: "'i \<Rightarrow> (byte list \<times> raw_info, 's) effect"
  sh_toBuffer :: "'i \<Rightarrow> (byte list, 's) effect"

subsection \<open>Positions and distances\<close>

definition getPositionOnImage ::
  "'n::minus num_utils \<Rightarrow> 'n \<Rightarrow> 'n \<Rightarrow> 'n bbox \<Rightarrow> int \<Rightarrow> int \<Rightarrow> position" where
  "getPositionOnImage nu lat lon bb imageHeight imageWidth =
     (let longitudeDiff = longitude (bottomRight bb) - longitude (topLeft bb);
          latitudeDiff = latitude (topLeft bb) - latitude (bottomRight bb);
          fromLeft = nu_getPercentFromValue nu longitudeDiff (lon - longitude (topLeft bb));
          fromTop = nu_getPercentFromValue nu latitudeDiff (latitude (topLeft bb) - lat)
      in \<lparr>pos_x = nu_round nu (nu_getValueFromPercent nu (number nu imageWidth) fromLeft),
          pos_y = nu_round nu (nu_getValueFromPercent nu (number nu imageHeight) fromTop)\<rparr>)"

definition calculatePixelFromKilometers ::
  "'n::{plus,times,inverse} num_utils \<Rightarrow> 'n \<Rightarrow> 'n bbox \<Rightarrow> int \<Rightarrow> int \<Rightarrow> int" where
  "calculatePixelFromKilometers nu kilometers bb imageHeight imageWidth =
     (let bboxWidthKm = geo_km nu (latitude (topLeft bb)) (longitude (topLeft bb)) (latitude (topLeft bb)) (longitude (bottomRight bb));
          bboxHeightKm = geo_km nu (latitude (topLeft bb)) (longitude (topLeft bb)) (latitude (bottomRight bb)) (longitude (topLeft bb));
          xResolution = number nu imageWidth / bboxWidthKm;
          yResolution = number nu imageHeight / bboxHeightKm;
          averageResolution = (xResolution + yResolution) / number nu 2
      in nu_round nu (kilometers * averageResolution))"

text \<open>
  Half the width of a dot. Both branches divide an even number, so the division is exact. The helper
  for the minimum gives nothing for an empty list, which this one is not.
\<close>

definition getCityPixelOffset :: "'n::inverse num_utils \<Rightarrow> int \<Rightarrow> int \<Rightarrow> int" where
  "getCityPixelOffset nu height width =
     (let percentOfValue = decimal nu (25, 100);
          lower = (case nu_min nu [height, width] of Some m \<Rightarrow> number nu m | None \<Rightarrow> number nu 0);
          dotWidth = nu_round nu (nu_getValueFromPercent nu lower percentOfValue)
      in if js_rem dotWidth 2 = 0 then dotWidth div 2 else (dotWidth - 1) div 2)"

subsection \<open>The pixels around a position\<close>

text \<open>Reading past the end of a buffer gives \<^verbatim>\<open>undefined\<close>.\<close>

definition buffer_at :: "byte list \<Rightarrow> int \<Rightarrow> byte option" where
  "buffer_at data i = (if 0 \<le> i \<and> nat i < length data then Some (data ! nat i) else None)"

definition pixel_at :: "byte list \<Rightarrow> raw_info \<Rightarrow> int \<times> int \<Rightarrow> byte option rgba" where
  "pixel_at data info p = (case p of (i, j) \<Rightarrow>
     let srcIndex = (j * ri_width info + i) * ri_channels info
     in \<lparr>red = buffer_at data srcIndex, green = buffer_at data (srcIndex + 1),
         blue = buffer_at data (srcIndex + 2), alpha = buffer_at data (srcIndex + 3)\<rparr>)"

fun collect_pixels :: "byte list \<Rightarrow> raw_info \<Rightarrow> (int \<times> int) list \<Rightarrow> byte option rgba list \<Rightarrow> thrown + byte option rgba list" where
  "collect_pixels data info [] pixels = Inr pixels"
| "collect_pixels data info (p # ps) pixels =
     (if ri_channels info = 4 then collect_pixels data info ps (pixels @ [pixel_at data info p])
      else Inl (PlainError ''Only 4 channels are supported''))"

text \<open>The two loops, row by row.\<close>

definition positions_of :: "int \<Rightarrow> int \<Rightarrow> int \<Rightarrow> int \<Rightarrow> (int \<times> int) list" where
  "positions_of startX endX startY endY = concat (map (\<lambda>j. map (\<lambda>i. (i, j)) [startX..endX]) [startY..endY])"

definition getPixelsWithRadius ::
  "('i, 's) sharp \<Rightarrow> 'n num_utils \<Rightarrow> position \<Rightarrow> 'i \<Rightarrow> int \<Rightarrow> (byte option rgba list, 's) effect" where
  "getPixelsWithRadius sh nu pos img radius =
     and_then (sh_raw sh img) (\<lambda>(data, info).
       case (nu_max nu [0, pos_x pos - radius], nu_min nu [ri_width info - 1, pos_x pos + radius],
             nu_max nu [0, pos_y pos - radius], nu_min nu [ri_height info - 1, pos_y pos + radius]) of
         (Some startX, Some endX, Some startY, Some endY) \<Rightarrow>
           lifted (collect_pixels data info (positions_of startX endX startY endY) [])
       | _ \<Rightarrow> throwing (PlainError ''Invalid start or end coordinates''))"

definition mean_colour :: "'n num_utils \<Rightarrow> byte option rgba list \<Rightarrow> int rgba" where
  "mean_colour nu pixels =
     \<lparr>red = nu_round nu (nu_mean nu (map red pixels)), green = nu_round nu (nu_mean nu (map green pixels)),
      blue = nu_round nu (nu_mean nu (map blue pixels)), alpha = nu_round nu (nu_mean nu (map alpha pixels))\<rparr>"

text \<open>The radius in kilometres has a default.\<close>

definition getRGBAOnCoordinates ::
  "('i, 's) sharp \<Rightarrow> 'n::{minus,plus,times,inverse} num_utils \<Rightarrow> 'n \<Rightarrow> 'n \<Rightarrow> 'n bbox \<Rightarrow> 'i \<Rightarrow> 'n option \<Rightarrow> (int rgba, 's) effect" where
  "getRGBAOnCoordinates sh nu lat lon bb img radiusInKm =
     and_then (sh_metadata sh img) (\<lambda>(height, width).
       and_then (getPixelsWithRadius sh nu (getPositionOnImage nu lat lon bb height width) img
           (calculatePixelFromKilometers nu (case radiusInKm of Some r \<Rightarrow> r | None \<Rightarrow> decimal nu (25, 10)) bb height width))
         (\<lambda>pixels. returning (mean_colour nu pixels)))"

subsection \<open>The layer of dots\<close>

text \<open>
  The buffer while it is painted. A byte assigned outside a buffer is lost without an error:
  \<open>cv_lost\<close> holds the indices of such assignments.
\<close>

record canvas =
  cv_bytes :: "byte list"
  cv_lost :: "int list"

definition set_byte :: "int \<Rightarrow> byte \<Rightarrow> canvas \<Rightarrow> canvas" where
  "set_byte i v cv =
     (if 0 \<le> i \<and> nat i < length (cv_bytes cv) then cv\<lparr>cv_bytes := (cv_bytes cv)[nat i := v]\<rparr>
      else cv\<lparr>cv_lost := cv_lost cv @ [i]\<rparr>)"

text \<open>One pixel of a dot; what lies outside the image is skipped.\<close>

definition paint :: "int \<Rightarrow> int \<Rightarrow> int \<times> int \<Rightarrow> canvas \<Rightarrow> canvas" where
  "paint height width p buffer = (case p of (x, y) \<Rightarrow>
     if 0 \<le> x \<and> x < width \<and> 0 \<le> y \<and> y < height
     then let index = (y * width + x) * 4
          in set_byte (index + 3) 255 (set_byte (index + 2) 0 (set_byte (index + 1) 0 (set_byte index 255 buffer)))
     else buffer)"

definition dot :: "int \<Rightarrow> position \<Rightarrow> (int \<times> int) list" where
  "dot offset pos = concat (map (\<lambda>dx. map (\<lambda>dy. (pos_x pos + dx, pos_y pos + dy)) [- offset..offset]) [- offset..offset])"

definition paint_city :: "int \<Rightarrow> int \<Rightarrow> int \<Rightarrow> position \<Rightarrow> canvas \<Rightarrow> canvas" where
  "paint_city height width offset pos buffer = fold (paint height width) (dot offset pos) buffer"

definition cities_buffer :: "'n::{minus,inverse} num_utils \<Rightarrow> int \<Rightarrow> int \<Rightarrow> 'n bbox \<Rightarrow> canvas" where
  "cities_buffer nu height width bb =
     (let offset = getCityPixelOffset nu height width
      in fold (\<lambda>c. paint_city height width offset (getPositionOnImage nu (latitude c) (longitude c) bb height width))
           (cities nu) \<lparr>cv_bytes = replicate (nat (width * height * 4)) 0, cv_lost = []\<rparr>)"

definition createCitiesImage ::
  "('i, 's) sharp \<Rightarrow> 'n::{minus,inverse} num_utils \<Rightarrow> int \<Rightarrow> int \<Rightarrow> 'n bbox \<Rightarrow> (byte list, 's) effect" where
  "createCitiesImage sh nu height width bb =
     sh_toBuffer sh (sh_png sh (sh_createRaw sh (cv_bytes (cities_buffer nu height width bb))
       \<lparr>ri_width = width, ri_height = height, ri_channels = 4\<rparr>))"

subsection \<open>What is read\<close>

text \<open>The documented behaviour of the two helpers on two numbers.\<close>

definition extremes :: "'n num_utils \<Rightarrow> bool" where
  "extremes nu \<longleftrightarrow> (\<forall>x y. nu_max nu [x, y] = Some (max x y) \<and> nu_min nu [x, y] = Some (min x y))"

lemma set_positions_of [simp]:
  "set (positions_of startX endX startY endY) = {(i, j). startX \<le> i \<and> i \<le> endX \<and> startY \<le> j \<and> j \<le> endY}"
  by (auto simp: positions_of_def)

lemma distinct_grid: "distinct js \<Longrightarrow> distinct is \<Longrightarrow> distinct (concat (map (\<lambda>j. map (\<lambda>i. (i, j)) is) js))"
  by (induction js) (auto simp: distinct_map inj_on_def)

lemma distinct_positions_of [simp]: "distinct (positions_of startX endX startY endY)"
  by (simp add: positions_of_def distinct_grid)

lemma collect_pixels_all:
  "ri_channels info = 4 \<Longrightarrow> collect_pixels data info ps pixels = Inr (pixels @ map (pixel_at data info) ps)"
  by (induction ps arbitrary: pixels) simp_all

text \<open>The window of an image around a position, and a pixel the buffer holds.\<close>

definition window :: "raw_info \<Rightarrow> position \<Rightarrow> int \<Rightarrow> (int \<times> int) set" where
  "window info pos radius =
     {(i, j). 0 \<le> i \<and> i < ri_width info \<and> 0 \<le> j \<and> j < ri_height info
        \<and> \<bar>i - pos_x pos\<bar> \<le> radius \<and> \<bar>j - pos_y pos\<bar> \<le> radius}"

definition whole_pixel :: "byte option rgba \<Rightarrow> bool" where
  "whole_pixel p \<longleftrightarrow> red p \<noteq> None \<and> green p \<noteq> None \<and> blue p \<noteq> None \<and> alpha p \<noteq> None"

lemma pixel_index:
  fixes i j w h :: int
  assumes "0 \<le> i" "i < w" "0 \<le> j" "j < h"
  shows "0 \<le> (j * w + i) * 4" "(j * w + i) * 4 + 3 < w * h * 4"
proof -
  have "(j + 1) * w \<le> h * w" using assms by (intro mult_right_mono) auto
  then show "(j * w + i) * 4 + 3 < w * h * 4" using assms by (simp add: algebra_simps)
  show "0 \<le> (j * w + i) * 4" using assms by simp
qed

lemma whole_pixel_at:
  assumes "ri_channels info = 4" "int (length data) = ri_width info * ri_height info * 4" "(i, j) \<in> window info pos r"
  shows "whole_pixel (pixel_at data info (i, j))"
proof -
  from assms(3) have b: "0 \<le> i" "i < ri_width info" "0 \<le> j" "j < ri_height info" by (auto simp: window_def)
  from pixel_index [OF b] assms(1, 2) show ?thesis
    by (auto simp: whole_pixel_def pixel_at_def buffer_at_def Let_def)
qed

lemma window_read:
  assumes "extremes nu" and raw: "sh_raw sh img s = (Inr (data, info), s')"
    and fit: "ri_channels info = 4" "int (length data) = ri_width info * ri_height info * 4"
  shows "\<exists>ps. getPixelsWithRadius sh nu pos img radius s = (Inr (map (pixel_at data info) ps), s')
    \<and> distinct ps \<and> set ps = window info pos radius \<and> list_all whole_pixel (map (pixel_at data info) ps)"
proof -
  let ?ps = "positions_of (max 0 (pos_x pos - radius)) (min (ri_width info - 1) (pos_x pos + radius))
    (max 0 (pos_y pos - radius)) (min (ri_height info - 1) (pos_y pos + radius))"
  have set: "set ?ps = window info pos radius" by (auto simp: window_def abs_le_iff)
  have "getPixelsWithRadius sh nu pos img radius s = (Inr (map (pixel_at data info) ?ps), s')"
    using assms by (simp add: getPixelsWithRadius_def extremes_def collect_pixels_all lifted_def)
  moreover have "list_all whole_pixel (map (pixel_at data info) ?ps)"
    using whole_pixel_at [OF fit] set by (auto simp: list_all_iff)
  ultimately show ?thesis using set distinct_positions_of by blast
qed

text \<open>
  The loops of \<^verbatim>\<open>getPixelsWithRadius\<close> visit each pixel of the image within the radius exactly once, and
  no other, and never read past the end of the buffer: whatever the position, also one outside the
  image, the answer is those pixels, each with its four components.
\<close>

theorem pixels_within_radius:
  assumes "extremes nu" and raw: "sh_raw sh img s = (Inr (data, info), s')"
    and fit: "ri_channels info = 4" "int (length data) = ri_width info * ri_height info * 4"
  shows "\<exists>ps. getPixelsWithRadius sh nu pos img radius s = (Inr (map (pixel_at data info) ps), s')
    \<and> distinct ps \<and> set ps = window info pos radius \<and> list_all whole_pixel (map (pixel_at data info) ps)"
  using assms by (rule window_read)

text \<open>A negative radius reads no pixel at all, so the colour is the mean of an empty list.\<close>

lemma negative_radius_reads_nothing:
  assumes "extremes nu" "sh_raw sh img s = (Inr (data, info), s')" "radius < 0"
  shows "getPixelsWithRadius sh nu pos img radius s = (Inr [], s')"
proof -
  have "positions_of (max 0 (pos_x pos - radius)) (min (ri_width info - 1) (pos_x pos + radius)) a b = []" for a b
    using assms(3) by (auto simp: positions_of_def concat_eq_Nil_conv)
  then show ?thesis using assms(1,2) by (simp add: getPixelsWithRadius_def extremes_def lifted_def)
qed

subsection \<open>What is painted\<close>

definition pixel_of :: "int \<Rightarrow> byte list \<Rightarrow> int \<times> int \<Rightarrow> byte list" where
  "pixel_of width buffer p = (case p of (x, y) \<Rightarrow> map (\<lambda>c. buffer ! (nat ((y * width + x) * 4) + c)) [0, 1, 2, 3])"

definition in_image :: "int \<Rightarrow> int \<Rightarrow> int \<times> int \<Rightarrow> bool" where
  "in_image height width p \<longleftrightarrow> (case p of (x, y) \<Rightarrow> 0 \<le> x \<and> x < width \<and> 0 \<le> y \<and> y < height)"

text \<open>A buffer of the image's size in which no assignment was lost.\<close>

definition painted_ok :: "int \<Rightarrow> int \<Rightarrow> canvas \<Rightarrow> bool" where
  "painted_ok h w cv \<longleftrightarrow> int (length (cv_bytes cv)) = w * h * 4 \<and> cv_lost cv = []"

lemma index_inj:
  fixes x y x' y' w :: int
  assumes "0 \<le> x" "x < w" "0 \<le> x'" "x' < w" "y * w + x = y' * w + x'"
  shows "x = x' \<and> y = y'"
proof -
  from assms(5) have "(y * w + x) div w = (y' * w + x') div w" by simp
  moreover have "w \<noteq> 0" "x div w = 0" "x' div w = 0" using assms by auto
  ultimately have "y = y'" by (simp add: div_mult_self3)
  with assms(5) show ?thesis by simp
qed

lemma paint_bytes:
  assumes "0 \<le> x" "x < w" "0 \<le> y" "y < h" and "painted_ok h w cv"
  shows "paint h w (x, y) cv = cv\<lparr>cv_bytes := (cv_bytes cv)[nat ((y * w + x) * 4) := 255,
     nat ((y * w + x) * 4) + 1 := 0, nat ((y * w + x) * 4) + 2 := 0, nat ((y * w + x) * 4) + 3 := 255]\<rparr>"
proof -
  let ?i = "(y * w + x) * 4"
  have "0 \<le> ?i" "?i + 3 < int (length (cv_bytes cv))"
    using pixel_index [OF assms(1-4)] assms(5) by (simp_all add: painted_ok_def)
  then have "nat (?i + int c) = nat ?i + c" "nat ?i + 3 < length (cv_bytes cv)" for c by linarith+
  from this(1) [of 1] this(1) [of 2] this(1) [of 3] this(2) \<open>0 \<le> ?i\<close> show ?thesis
    using assms(1-4) by (simp add: paint_def Let_def set_byte_def)
qed

lemma paint_ok: "painted_ok h w cv \<Longrightarrow> painted_ok h w (paint h w p cv)"
proof (cases "in_image h w p")
  case True
  assume ok: "painted_ok h w cv"
  obtain x y where p: "p = (x, y)" by fastforce
  with True have "0 \<le> x" "x < w" "0 \<le> y" "y < h" by (simp_all add: in_image_def)
  from paint_bytes [OF this ok] ok show ?thesis by (simp add: p painted_ok_def)
next
  case False
  assume "painted_ok h w cv"
  with False show ?thesis by (auto simp: paint_def in_image_def split: prod.splits if_splits)
qed

lemma paint_pixel:
  assumes "in_image h w q" and ok: "painted_ok h w cv"
  shows "pixel_of w (cv_bytes (paint h w p cv)) q = (if p = q then [255, 0, 0, 255] else pixel_of w (cv_bytes cv) q)"
proof (cases "in_image h w p")
  case True
  obtain x y x' y' where pq: "p = (x', y')" "q = (x, y)" by fastforce
  from assms(1) True have b: "0 \<le> x" "x < w" "0 \<le> y" "y < h" "0 \<le> x'" "x' < w" "0 \<le> y'" "y' < h"
    by (simp_all add: in_image_def pq)
  have len: "int (length (cv_bytes cv)) = w * h * 4" using ok by (simp add: painted_ok_def)
  obtain k k' where k: "y * w + x = int k" "y' * w + x' = int k'"
    using pixel_index(1) [OF b(1-4)] pixel_index(1) [OF b(5-8)] by (metis mult_le_0_iff nat_0_le not_numeral_le_zero zero_le_mult_iff)
  have "p = q \<longleftrightarrow> k = k'" using index_inj [of x w x' y y'] b k by (auto simp: pq)
  moreover have "int k * 4 + 3 < int (length (cv_bytes cv))" "int k' * 4 + 3 < int (length (cv_bytes cv))"
    using pixel_index(2) [OF b(1-4)] pixel_index(2) [OF b(5-8)] unfolding k len .
  then have "k * 4 + 3 < length (cv_bytes cv)" "k' * 4 + 3 < length (cv_bytes cv)" by linarith+
  moreover have "nat ((y * w + x) * 4) = k * 4" "nat ((y' * w + x') * 4) = k' * 4" using k by simp_all
  moreover have "k' \<noteq> k \<Longrightarrow> c < 4 \<Longrightarrow> d < 4 \<Longrightarrow> k' * 4 + c \<noteq> k * 4 + d" for c d :: nat by presburger
  ultimately show ?thesis
    unfolding pq(1) paint_bytes [OF b(5-8) ok] by (auto simp: pixel_of_def pq nth_list_update)
next
  case False
  then show ?thesis using assms(1) by (auto simp: paint_def in_image_def split: prod.splits if_splits)
qed

lemma paint_fold_ok: "painted_ok h w cv \<Longrightarrow> painted_ok h w (fold (paint h w) ps cv)"
  by (induction ps arbitrary: cv) (simp_all add: paint_ok)

lemma paint_fold_pixel:
  assumes "in_image h w q" "painted_ok h w cv"
  shows "pixel_of w (cv_bytes (fold (paint h w) ps cv)) q = (if q \<in> set ps then [255, 0, 0, 255] else pixel_of w (cv_bytes cv) q)"
  using assms(2)
proof (induction ps arbitrary: cv)
  case (Cons p ps)
  then show ?case using paint_pixel [OF assms(1) Cons.prems, of p] by (auto simp: Cons.IH paint_ok)
qed simp

lemma set_dot: "set (dot off pos) = {(x, y). \<bar>x - pos_x pos\<bar> \<le> off \<and> \<bar>y - pos_y pos\<bar> \<le> off}"
proof -
  have "(x, y) \<in> set (dot off pos)" if "\<bar>x - pos_x pos\<bar> \<le> off" "\<bar>y - pos_y pos\<bar> \<le> off" for x y
    unfolding dot_def using that
    by (simp, intro bexI [of _ "x - pos_x pos"] image_eqI [of _ _ "y - pos_y pos"]) auto
  then show ?thesis by (auto simp: dot_def)
qed

lemma paint_cities_ok: "painted_ok h w cv \<Longrightarrow> painted_ok h w (fold (\<lambda>c. paint_city h w off (f c)) cs cv)"
  by (induction cs arbitrary: cv) (simp_all add: paint_city_def paint_fold_ok)

lemma paint_cities_pixel:
  assumes "in_image h w q" "painted_ok h w cv"
  shows "pixel_of w (cv_bytes (fold (\<lambda>c. paint_city h w off (f c)) cs cv)) q
    = (if \<exists>c \<in> set cs. q \<in> set (dot off (f c)) then [255, 0, 0, 255] else pixel_of w (cv_bytes cv) q)"
  using assms(2)
proof (induction cs arbitrary: cv)
  case (Cons c cs)
  have "painted_ok h w (paint_city h w off (f c) cv)" using Cons.prems by (simp add: paint_city_def paint_fold_ok)
  from Cons.IH [OF this] paint_fold_pixel [OF assms(1) Cons.prems, of "dot off (f c)"] show ?case
    by (auto simp: paint_city_def)
qed simp

lemma blank_pixel:
  assumes "in_image h w q"
  shows "pixel_of w (replicate (nat (w * h * 4)) 0) q = [0, 0, 0, 0]"
proof -
  obtain x y where q: "q = (x, y)" by fastforce
  from assms have "0 \<le> x" "x < w" "0 \<le> y" "y < h" by (simp_all add: in_image_def q)
  from pixel_index [OF this] have "nat ((y * w + x) * 4) + 3 < nat (w * h * 4)" by linarith
  then show ?thesis by (simp add: pixel_of_def q)
qed

text \<open>
  Property C40. The layer of dots. The image that is encoded has the width and the height asked for, four bytes a
  pixel, and no assignment while it was painted fell outside the buffer. A pixel is opaque red exactly when
  a city's position is within the dot's offset of it in both directions, and transparent otherwise; a city
  near the border, or outside the image, paints the part of its dot that is on it and nothing else.
\<close>

theorem cities_image_painted:
  assumes "0 \<le> height" and "0 \<le> width"
  shows "\<exists>cv. createCitiesImage sh nu height width bb s
        = sh_toBuffer sh (sh_png sh (sh_createRaw sh (cv_bytes cv) \<lparr>ri_width = width, ri_height = height, ri_channels = 4\<rparr>)) s
    \<and> cv = cities_buffer nu height width bb \<and> cv_lost cv = [] \<and> int (length (cv_bytes cv)) = width * height * 4
    \<and> (\<forall>x y. in_image height width (x, y) \<longrightarrow> pixel_of width (cv_bytes cv) (x, y)
        = (if \<exists>c \<in> set (cities nu). \<bar>x - pos_x (getPositionOnImage nu (latitude c) (longitude c) bb height width)\<bar> \<le> getCityPixelOffset nu height width
              \<and> \<bar>y - pos_y (getPositionOnImage nu (latitude c) (longitude c) bb height width)\<bar> \<le> getCityPixelOffset nu height width
           then [255, 0, 0, 255] else [0, 0, 0, 0]))"
proof -
  let ?blank = "\<lparr>cv_bytes = replicate (nat (width * height * 4)) 0, cv_lost = []\<rparr>"
  let ?pos = "\<lambda>c. getPositionOnImage nu (latitude c) (longitude c) bb height width"
  have blank: "painted_ok height width ?blank" using assms by (simp add: painted_ok_def)
  have "painted_ok height width (cities_buffer nu height width bb)"
    unfolding cities_buffer_def Let_def by (rule paint_cities_ok [OF blank])
  moreover have "pixel_of width (cv_bytes (cities_buffer nu height width bb)) (x, y)
      = (if \<exists>c \<in> set (cities nu). \<bar>x - pos_x (?pos c)\<bar> \<le> getCityPixelOffset nu height width
            \<and> \<bar>y - pos_y (?pos c)\<bar> \<le> getCityPixelOffset nu height width
         then [255, 0, 0, 255] else [0, 0, 0, 0])" if q: "in_image height width (x, y)" for x y
    using paint_cities_pixel [OF q blank, of "getCityPixelOffset nu height width" ?pos "cities nu"]
    unfolding cities_buffer_def Let_def canvas.simps blank_pixel [OF q] set_dot by simp
  ultimately show ?thesis by (simp add: createCitiesImage_def painted_ok_def)
qed

subsection \<open>Exact arithmetic\<close>

text \<open>
  The helpers on rational numbers, as their names and their package describe them. This is exact
  arithmetic: the rounding of the source's floating point is not part of it.
\<close>

definition mean_of :: "byte option list \<Rightarrow> rat" where
  "mean_of bs = (\<Sum>b \<leftarrow> bs. case b of Some v \<Rightarrow> of_nat (unat v) | None \<Rightarrow> 0) / of_nat (length bs)"

definition exact_numbers :: "rat num_utils \<Rightarrow> bool" where
  "exact_numbers nu \<longleftrightarrow> extremes nu
     \<and> (\<forall>n. number nu n = of_int n) \<and> (\<forall>q. nu_round nu q = round q) \<and> (\<forall>q. nu_floor nu q = \<lfloor>q\<rfloor>)
     \<and> (\<forall>bs. bs \<noteq> [] \<longrightarrow> nu_mean nu bs = mean_of bs)
     \<and> (\<forall>t p. nu_getValueFromPercent nu t p = t * p / 100)
     \<and> (\<forall>t v. t \<noteq> 0 \<longrightarrow> nu_getPercentFromValue nu t v = v / t * 100)"

lemma exact_numbersD:
  assumes "exact_numbers nu"
  shows "extremes nu" "number nu n = of_int n" "nu_round nu q = round q" "bs \<noteq> [] \<Longrightarrow> nu_mean nu bs = mean_of bs"
    "nu_getValueFromPercent nu t q = t * q / 100" "t \<noteq> 0 \<Longrightarrow> nu_getPercentFromValue nu t v = v / t * 100"
  using assms by (simp_all only: exact_numbers_def) blast+

text \<open>An instance, with the distance counted in degrees.\<close>

definition rational_utils :: "rat num_utils" where
  "rational_utils =
     \<lparr>number = of_int, nu_round = round, nu_floor = floor, nu_mean = mean_of,
      nu_min = (\<lambda>xs. if xs = [] then None else Some (fold min xs (hd xs))),
      nu_max = (\<lambda>xs. if xs = [] then None else Some (fold max xs (hd xs))),
      nu_getValueFromPercent = (\<lambda>t p. t * p / 100), nu_getPercentFromValue = (\<lambda>t v. v / t * 100),
      geo_km = (\<lambda>a b c d. \<bar>a - c\<bar> + \<bar>b - d\<bar>)\<rparr>"

lemma exact_rational_utils: "exact_numbers rational_utils"
  by (simp add: exact_numbers_def extremes_def rational_utils_def min.commute max.commute)

text \<open>An image that is its own buffer, and a window at its corner.\<close>

definition plain_sharp :: "(byte list \<times> raw_info, unit) sharp" where
  "plain_sharp = \<lparr>sh_create = (\<lambda>b. (b, \<lparr>ri_width = 4, ri_height = int (length b) div 16, ri_channels = 4\<rparr>)),
     sh_createRaw = Pair, sh_clone = id, sh_png = id, sh_resize = (\<lambda>i w h. i), sh_composite = (\<lambda>i bs. i),
     sh_metadata = (\<lambda>(b, info). returning (ri_height info, ri_width info)), sh_raw = returning,
     sh_toBuffer = (\<lambda>(b, info). returning b)\<rparr>"

lemma pixels_within_radius_witness:
  "\<exists>ps. getPixelsWithRadius plain_sharp rational_utils \<lparr>pos_x = 0, pos_y = 3\<rparr>
        (replicate 32 7, \<lparr>ri_width = 2, ri_height = 4, ri_channels = 4\<rparr>) 1 ()
      = (Inr (map (pixel_at (replicate 32 7) \<lparr>ri_width = 2, ri_height = 4, ri_channels = 4\<rparr>) ps), ())
    \<and> distinct ps \<and> set ps = window \<lparr>ri_width = 2, ri_height = 4, ri_channels = 4\<rparr> \<lparr>pos_x = 0, pos_y = 3\<rparr> 1
    \<and> list_all whole_pixel (map (pixel_at (replicate 32 7) \<lparr>ri_width = 2, ri_height = 4, ri_channels = 4\<rparr>) ps)"
  using exact_rational_utils
  by (intro pixels_within_radius) (simp_all add: exact_numbers_def plain_sharp_def)

definition sample_bbox :: "rat bbox" where
  "sample_bbox = \<lparr>topLeft = \<lparr>latitude = 52, longitude = 11\<rparr>, bottomRight = \<lparr>latitude = 48, longitude = 20\<rparr>\<rparr>"

lemma cities_image_painted_witness:
  "\<exists>bytes. createCitiesImage plain_sharp rational_utils 3 5 sample_bbox () = (Inr bytes, ()) \<and> int (length bytes) = 60"
proof -
  from cities_image_painted [of 3 5 plain_sharp rational_utils sample_bbox "()"] show ?thesis
    by (auto simp: plain_sharp_def)
qed

end
