(* ===== verification/Http_Auth.thy ===== *)
theory Http_Auth
  imports Schema Effect
begin

text \<open>
  \<^verbatim>\<open>packages/http-provider\<close>, first half: the schemas of an outbound API and its authentication
  (\<^verbatim>\<open>schemas/\<close>), the placement of credentials on a request (\<^verbatim>\<open>utils/\<close>), and the strategies that
  produce them (\<^verbatim>\<open>strategies/\<close>), the two caching ones as machines over the calls and the promises
  they interleave.
\<close>

subsection \<open>Transport\<close>

datatype transport_entry =
    Static_Entry string string
  | Credential_Entry string string "string option" "string option"

record transport_config =
  tc_headers :: "transport_entry list option"
  tc_queryParams :: "transport_entry list option"

definition StaticEntrySchema :: "transport_entry parser" where
  "StaticEntrySchema = z_strict_object [''name'', ''value''] (\<lambda>field. do {
     name \<leftarrow> z_string_min1 (field ''name'');
     value \<leftarrow> z_string (field ''value'');
     Some (Static_Entry name value) })"

definition CredentialEntrySchema :: "transport_entry parser" where
  "CredentialEntrySchema = z_strict_object [''name'', ''credential'', ''prefix'', ''suffix''] (\<lambda>field. do {
     name \<leftarrow> z_string_min1 (field ''name'');
     credential \<leftarrow> z_string_min1 (field ''credential'');
     prefix \<leftarrow> z_optional z_string (field ''prefix'');
     suffix \<leftarrow> z_optional z_string (field ''suffix'');
     Some (Credential_Entry name credential prefix suffix) })"

definition TransportEntrySchema :: "transport_entry parser" where
  "TransportEntrySchema = z_union CredentialEntrySchema StaticEntrySchema"

definition TransportSchema :: "transport_config parser" where
  "TransportSchema = z_object (\<lambda>field. do {
     headers \<leftarrow> z_optional (z_array TransportEntrySchema) (field ''headers'');
     queryParams \<leftarrow> z_optional (z_array TransportEntrySchema) (field ''queryParams'');
     Some \<lparr>tc_headers = headers, tc_queryParams = queryParams\<rparr> })"

subsection \<open>Authentication\<close>

definition bearer_transport :: transport_config where
  "bearer_transport =
     \<lparr>tc_headers = Some [Credential_Entry ''Authorization'' ''value'' (Some ''Bearer '') None], tc_queryParams = None\<rparr>"

definition K8S_DEFAULT_TOKEN_PATH :: string where
  "K8S_DEFAULT_TOKEN_PATH = ''/var/run/secrets/kubernetes.io/serviceaccount/token''"

record token_request =
  tr_method :: string
  tr_url :: string
  tr_headers :: "(string \<times> string) list option"
  tr_queryParams :: "(string \<times> string) list option"
  tr_body :: "(string \<times> json) list option"

datatype jwt_key = Key_File string | Key_Value string

datatype audience = One_Audience string | Audiences "string list"

record jwt_claims =
  jc_iss :: "string option"
  jc_sub :: "string option"
  jc_aud :: "audience option"
  jc_exp :: int
  jc_additionalClaims :: "(string \<times> json) list option"

text \<open>The parsed union, one constructor per strategy; an extractor is its field and its name.\<close>

datatype http_auth =
    Kubernetes_Auth string transport_config
  | Token_Exchange_Auth token_request "(string \<times> string) list" transport_config
  | Jwt_Self_Signed_Auth jwt_key string jwt_claims transport_config
  | No_Auth "unit option" "transport_config option"

definition KubernetesServiceAccountAuthSchema :: "http_auth parser" where
  "KubernetesServiceAccountAuthSchema = z_object (\<lambda>field. do {
     z_literal ''kubernetes-service-account'' (field ''strategy'');
     path \<leftarrow> z_default K8S_DEFAULT_TOKEN_PATH z_string (field ''tokenPath'');
     transport \<leftarrow> z_default bearer_transport TransportSchema (field ''transport'');
     Some (Kubernetes_Auth path transport) })"

definition pair_schema :: "string \<Rightarrow> string \<Rightarrow> (string \<times> string) parser" where
  "pair_schema a b = z_object (\<lambda>field. do { x \<leftarrow> z_string (field a); y \<leftarrow> z_string (field b); Some (x, y) })"

definition TokenExtractorSchema :: "(string \<times> string) list parser" where
  "TokenExtractorSchema = z_union (z_map (\<lambda>s. [(s, ''value'')]) z_string) (z_array (pair_schema ''field'' ''as''))"

definition TokenExchangeRequestSchema :: "(string \<Rightarrow> bool) \<Rightarrow> token_request parser" where
  "TokenExchangeRequestSchema is_url = z_object (\<lambda>field. do {
     meth \<leftarrow> z_default ''POST''
       (z_enum (map (\<lambda>m. (m, m)) [''GET'', ''POST'', ''PUT'', ''PATCH''])) (field ''method'');
     url \<leftarrow> z_url is_url (field ''url'');
     headers \<leftarrow> z_optional (z_array (pair_schema ''name'' ''value'')) (field ''headers'');
     queryParams \<leftarrow> z_optional (z_array (pair_schema ''name'' ''value'')) (field ''queryParams'');
     body \<leftarrow> z_optional z_record (field ''body'');
     Some \<lparr>tr_method = meth, tr_url = url, tr_headers = headers, tr_queryParams = queryParams, tr_body = body\<rparr> })"

definition TokenExchangeAuthSchema :: "(string \<Rightarrow> bool) \<Rightarrow> http_auth parser" where
  "TokenExchangeAuthSchema is_url = z_object (\<lambda>field. do {
     z_literal ''token-exchange'' (field ''strategy'');
     request \<leftarrow> TokenExchangeRequestSchema is_url (field ''request'');
     extractors \<leftarrow> TokenExtractorSchema (field ''tokenExtractor'');
     transport \<leftarrow> TransportSchema (field ''transport'');
     Some (Token_Exchange_Auth request extractors transport) })"

text \<open>A discriminated union reads the alternative off its key.\<close>

definition JwtKeySchema :: "jwt_key parser" where
  "JwtKeySchema = z_object (\<lambda>field. do {
     source \<leftarrow> z_enum [(''file'', True), (''value'', False)] (field ''source'');
     if source then map_option Key_File (z_string (field ''path''))
     else map_option Key_Value (z_string (field ''value'')) })"

definition JwtClaimsSchema :: "jwt_claims parser" where
  "JwtClaimsSchema = z_object (\<lambda>field. do {
     iss \<leftarrow> z_optional z_string (field ''iss'');
     sub \<leftarrow> z_optional z_string (field ''sub'');
     aud \<leftarrow> z_optional (z_union (z_map One_Audience z_string) (z_map Audiences (z_array z_string))) (field ''aud'');
     exp \<leftarrow> z_default 3600 (z_int_min 1) (field ''exp'');
     additional \<leftarrow> z_optional z_record (field ''additionalClaims'');
     Some \<lparr>jc_iss = iss, jc_sub = sub, jc_aud = aud, jc_exp = exp, jc_additionalClaims = additional\<rparr> })"

definition default_claims :: jwt_claims where
  "default_claims = \<lparr>jc_iss = None, jc_sub = None, jc_aud = None, jc_exp = 3600, jc_additionalClaims = None\<rparr>"

definition JwtSelfSignedAuthSchema :: "http_auth parser" where
  "JwtSelfSignedAuthSchema = z_object (\<lambda>field. do {
     z_literal ''jwt-self-signed'' (field ''strategy'');
     key \<leftarrow> JwtKeySchema (field ''key'');
     algorithm \<leftarrow> z_default ''RS256'' (z_enum (map (\<lambda>a. (a, a)) [''RS256'', ''ES256'', ''HS256''])) (field ''algorithm'');
     claims \<leftarrow> z_default default_claims JwtClaimsSchema (field ''claims'');
     transport \<leftarrow> z_default bearer_transport TransportSchema (field ''transport'');
     Some (Jwt_Self_Signed_Auth key algorithm claims transport) })"

definition NoAuthSchema :: "http_auth parser" where
  "NoAuthSchema = z_object (\<lambda>field. do {
     strategy \<leftarrow> z_optional (z_literal ''none'') (field ''strategy'');
     transport \<leftarrow> z_optional TransportSchema (field ''transport'');
     Some (No_Auth strategy transport) })"

definition HttpAuthConfigSchema :: "(string \<Rightarrow> bool) \<Rightarrow> http_auth parser" where
  "HttpAuthConfigSchema is_url =
     z_union KubernetesServiceAccountAuthSchema
       (z_union (TokenExchangeAuthSchema is_url) (z_union JwtSelfSignedAuthSchema NoAuthSchema))"

subsection \<open>Parsed configuration parses to itself\<close>

fun transport_entry_json :: "transport_entry \<Rightarrow> json" where
  "transport_entry_json (Static_Entry name value) = JObj [(''name'', JStr name), (''value'', JStr value)]"
| "transport_entry_json (Credential_Entry name credential prefix suffix) =
     JObj ([(''name'', JStr name), (''credential'', JStr credential)] @ opt_field ''prefix'' JStr prefix @ opt_field ''suffix'' JStr suffix)"

definition transport_json :: "transport_config \<Rightarrow> json" where
  "transport_json t = JObj (opt_field ''headers'' (\<lambda>es. JArr (map transport_entry_json es)) (tc_headers t)
     @ opt_field ''queryParams'' (\<lambda>es. JArr (map transport_entry_json es)) (tc_queryParams t))"

definition pair_json :: "string \<Rightarrow> string \<Rightarrow> string \<times> string \<Rightarrow> json" where
  "pair_json a b p = JObj [(a, JStr (fst p)), (b, JStr (snd p))]"

definition pairs_json :: "string \<Rightarrow> string \<Rightarrow> (string \<times> string) list \<Rightarrow> json" where
  "pairs_json a b ps = JArr (map (pair_json a b) ps)"

definition token_request_json :: "token_request \<Rightarrow> json" where
  "token_request_json r = JObj ([(''method'', JStr (tr_method r)), (''url'', JStr (tr_url r))]
     @ opt_field ''headers'' (pairs_json ''name'' ''value'') (tr_headers r)
     @ opt_field ''queryParams'' (pairs_json ''name'' ''value'') (tr_queryParams r)
     @ opt_field ''body'' JObj (tr_body r))"

fun jwt_key_json :: "jwt_key \<Rightarrow> json" where
  "jwt_key_json (Key_File path) = JObj [(''source'', JStr ''file''), (''path'', JStr path)]"
| "jwt_key_json (Key_Value value) = JObj [(''source'', JStr ''value''), (''value'', JStr value)]"

fun audience_json :: "audience \<Rightarrow> json" where
  "audience_json (One_Audience a) = JStr a"
| "audience_json (Audiences xs) = JArr (map JStr xs)"

definition claims_json :: "jwt_claims \<Rightarrow> json" where
  "claims_json c = JObj (opt_field ''iss'' JStr (jc_iss c) @ opt_field ''sub'' JStr (jc_sub c)
     @ opt_field ''aud'' audience_json (jc_aud c) @ [(''exp'', JNum (jc_exp c))]
     @ opt_field ''additionalClaims'' JObj (jc_additionalClaims c))"

fun http_auth_json :: "http_auth \<Rightarrow> json" where
  "http_auth_json (Kubernetes_Auth path t) =
     JObj [(''strategy'', JStr ''kubernetes-service-account''), (''tokenPath'', JStr path), (''transport'', transport_json t)]"
| "http_auth_json (Token_Exchange_Auth r ex t) =
     JObj [(''strategy'', JStr ''token-exchange''), (''request'', token_request_json r),
       (''tokenExtractor'', pairs_json ''field'' ''as'' ex), (''transport'', transport_json t)]"
| "http_auth_json (Jwt_Self_Signed_Auth key algorithm c t) =
     JObj [(''strategy'', JStr ''jwt-self-signed''), (''key'', jwt_key_json key), (''algorithm'', JStr algorithm),
       (''claims'', claims_json c), (''transport'', transport_json t)]"
| "http_auth_json (No_Auth strategy t) =
     JObj (opt_field ''strategy'' (\<lambda>_. JStr ''none'') strategy @ opt_field ''transport'' transport_json t)"

lemma bind_Some: "Option.bind m f = Some y \<longleftrightarrow> (\<exists>x. m = Some x \<and> f x = Some y)"
  by (cases m) auto

lemma reparses_transport_entry: "reparses TransportEntrySchema transport_entry_json"
  unfolding reparses_def
proof (intro allI impI)
  fix v e assume "TransportEntrySchema v = Some e"
  then consider "CredentialEntrySchema v = Some e" | "StaticEntrySchema v = Some e"
    by (auto simp: TransportEntrySchema_def z_union_def split: option.splits)
  then show "TransportEntrySchema (Some (transport_entry_json e)) = Some e"
  proof cases
    case 1
    then obtain n c p s m where e: "e = Credential_Entry n c p s" and v: "v = Some (JObj m)"
      and ne: "n \<noteq> []" "c \<noteq> []"
      by (auto simp: CredentialEntrySchema_def z_strict_object_def bind_Some z_string_min1_Some
          split: option.splits json.splits if_splits)
    have "z_optional z_string (map_option JStr x) = Some x" for x :: "string option"
      by (cases x) auto
    then show ?thesis
      by (simp add: e ne TransportEntrySchema_def z_union_def CredentialEntrySchema_def cong: option.case_cong)
  next
    case 2
    then obtain n x where "e = Static_Entry n x" "n \<noteq> []"
      by (auto simp: StaticEntrySchema_def z_strict_object_def bind_Some z_string_min1_Some
          split: option.splits json.splits if_splits)
    then show ?thesis
      by (simp add: TransportEntrySchema_def z_union_def CredentialEntrySchema_def StaticEntrySchema_def)
  qed
qed

lemma reparses_transport: "reparses TransportSchema transport_json"
  unfolding reparses_def
proof (intro allI impI)
  fix v t assume "TransportSchema v = Some t"
  then obtain f where "z_optional (z_array TransportEntrySchema) (f ''headers'') = Some (tc_headers t)"
    "z_optional (z_array TransportEntrySchema) (f ''queryParams'') = Some (tc_queryParams t)"
    by (auto simp: TransportSchema_def z_object_Some bind_Some)
  from this [THEN reparses_optional [OF reparses_array [OF reparses_transport_entry]]]
  show "TransportSchema (Some (transport_json t)) = Some t"
    by (simp add: TransportSchema_def transport_json_def z_object_Some bind_Some cong: option.case_cong del: z_simps)
qed

lemma reparses_pair: "a \<noteq> b \<Longrightarrow> reparses (pair_schema a b) (pair_json a b)"
  by (auto simp: reparses_def pair_schema_def pair_json_def z_object_Some bind_Some)

lemma reparses_pairs: "a \<noteq> b \<Longrightarrow> reparses (z_array (pair_schema a b)) (pairs_json a b)"
  using reparses_array [OF reparses_pair] by (simp add: pairs_json_def [abs_def])

lemma reparses_token_request: "reparses (TokenExchangeRequestSchema is_url) token_request_json"
  unfolding reparses_def
proof (intro allI impI)
  fix v r assume "TokenExchangeRequestSchema is_url v = Some r"
  then obtain f where m: "z_default ''POST'' (z_enum (map (\<lambda>m. (m, m)) [''GET'', ''POST'', ''PUT'', ''PATCH''])) (f ''method'') = Some (tr_method r)"
    and u: "z_url is_url (f ''url'') = Some (tr_url r)"
    and h: "z_optional (z_array (pair_schema ''name'' ''value'')) (f ''headers'') = Some (tr_headers r)"
    and q: "z_optional (z_array (pair_schema ''name'' ''value'')) (f ''queryParams'') = Some (tr_queryParams r)"
    and b: "z_optional z_record (f ''body'') = Some (tr_body r)"
    by (auto simp: TokenExchangeRequestSchema_def z_object_Some bind_Some simp del: z_simps list.map)
  have "z_enum (map (\<lambda>m. (m, m)) [''GET'', ''POST'', ''PUT'', ''PATCH'']) (Some (JStr ''POST'')) = Some ''POST''"
    by simp
  note m' = reparsesD [OF reparses_default [OF reparses_enum_same this] m]
  note u' = reparsesD [OF reparses_base(4) u]
  note h' = reparses_optional [OF reparses_pairs h]
  note q' = reparses_optional [OF reparses_pairs q]
  note b' = reparses_optional [OF reparses_base(5) b]
  from m' u' h' q' b' show "TokenExchangeRequestSchema is_url (Some (token_request_json r)) = Some r"
    by (simp add: TokenExchangeRequestSchema_def token_request_json_def z_object_Some bind_Some
        cong: option.case_cong del: z_simps list.map)
qed

lemma reparses_extractor: "TokenExtractorSchema v = Some xs \<Longrightarrow> TokenExtractorSchema (Some (pairs_json ''field'' ''as'' xs)) = Some xs"
proof -
  assume a: "TokenExtractorSchema v = Some xs"
  have n: "z_string (Some (pairs_json ''field'' ''as'' xs)) = None" by (simp add: pairs_json_def z_string_def)
  show ?thesis
  proof (cases "z_string v")
    case None
    with a have "z_array (pair_schema ''field'' ''as'') v = Some xs"
      by (simp add: TokenExtractorSchema_def z_union_def z_map_def)
    then have "z_array (pair_schema ''field'' ''as'') (Some (pairs_json ''field'' ''as'' xs)) = Some xs"
      by (rule reparsesD [OF reparses_pairs, rotated]) simp
    with n show ?thesis by (simp add: TokenExtractorSchema_def z_union_def)
  next
    case (Some s)
    with a have "xs = [(s, ''value'')]" by (simp add: TokenExtractorSchema_def z_union_def z_map_def)
    with n show ?thesis
      by (simp add: TokenExtractorSchema_def z_union_def pairs_json_def pair_json_def pair_schema_def)
  qed
qed

lemma reparses_jwt_key: "reparses JwtKeySchema jwt_key_json"
  by (auto simp: reparses_def JwtKeySchema_def z_object_Some bind_Some split: if_splits)

lemma reparses_audience:
  "reparses (z_union (z_map One_Audience z_string) (z_map Audiences (z_array z_string))) audience_json"
  unfolding reparses_def
proof (intro allI impI)
  fix v a assume a: "z_union (z_map One_Audience z_string) (z_map Audiences (z_array z_string)) v = Some a"
  show "z_union (z_map One_Audience z_string) (z_map Audiences (z_array z_string)) (Some (audience_json a)) = Some a"
  proof (cases a)
    case (One_Audience s)
    then show ?thesis by (simp add: z_union_def)
  next
    case (Audiences xs)
    with a have "z_array z_string v = Some xs" by (auto simp: z_union_def z_map_def split: option.splits)
    from reparsesD [OF reparses_array [OF reparses_base(1)] this]
    show ?thesis by (simp add: Audiences z_union_def z_string_def del: z_simps(10)) 
  qed
qed

lemma reparses_claims: "reparses JwtClaimsSchema claims_json"
  unfolding reparses_def
proof (intro allI impI)
  let ?aud = "z_union (z_map One_Audience z_string) (z_map Audiences (z_array z_string))"
  fix v c assume "JwtClaimsSchema v = Some c"
  then obtain f where i: "z_optional z_string (f ''iss'') = Some (jc_iss c)"
    and s: "z_optional z_string (f ''sub'') = Some (jc_sub c)"
    and a: "z_optional ?aud (f ''aud'') = Some (jc_aud c)"
    and e: "z_default 3600 (z_int_min 1) (f ''exp'') = Some (jc_exp c)"
    and d: "z_optional z_record (f ''additionalClaims'') = Some (jc_additionalClaims c)"
    by (auto simp: JwtClaimsSchema_def z_object_Some bind_Some simp del: z_simps)
  have "z_int_min 1 (Some (JNum 3600)) = Some 3600" by simp
  note e' = reparsesD [OF reparses_default [OF reparses_base(3) this] e]
  note i' = reparses_optional [OF reparses_base(1) i]
  note s' = reparses_optional [OF reparses_base(1) s]
  note a' = reparses_optional [OF reparses_audience a]
  note d' = reparses_optional [OF reparses_base(5) d]
  from i' s' a' e' d' show "JwtClaimsSchema (Some (claims_json c)) = Some c"
    by (simp add: JwtClaimsSchema_def claims_json_def z_object_Some bind_Some cong: option.case_cong del: z_simps)
qed

lemma reparses_http_auth: "reparses (HttpAuthConfigSchema is_url) http_auth_json"
  unfolding reparses_def
proof (intro allI impI)
  fix v a assume "HttpAuthConfigSchema is_url v = Some a"
  then consider (k8s) "KubernetesServiceAccountAuthSchema v = Some a" | (token) "TokenExchangeAuthSchema is_url v = Some a"
    | (jwt) "JwtSelfSignedAuthSchema v = Some a" | (none) "NoAuthSchema v = Some a"
    by (auto simp: HttpAuthConfigSchema_def z_union_def split: option.splits)
  then show "HttpAuthConfigSchema is_url (Some (http_auth_json a)) = Some a"
  proof cases
    case k8s
    have d: "z_string (Some (JStr K8S_DEFAULT_TOKEN_PATH)) = Some K8S_DEFAULT_TOKEN_PATH"
      "TransportSchema (Some (transport_json bearer_transport)) = Some bearer_transport"
      by (simp_all add: bearer_transport_def transport_json_def TransportSchema_def TransportEntrySchema_def
          z_union_def CredentialEntrySchema_def opt_field_def)
    from k8s obtain f path t where a: "a = Kubernetes_Auth path t"
      and p: "z_default K8S_DEFAULT_TOKEN_PATH z_string (f ''tokenPath'') = Some path"
      and t: "z_default bearer_transport TransportSchema (f ''transport'') = Some t"
      by (auto simp: KubernetesServiceAccountAuthSchema_def z_object_Some bind_Some)
    from reparsesD [OF reparses_default [OF reparses_base(1) d(1)] p]
      reparsesD [OF reparses_default [OF reparses_transport d(2)] t]
    show ?thesis by (simp add: a HttpAuthConfigSchema_def z_union_def KubernetesServiceAccountAuthSchema_def z_literal_def)
  next
    case token
    then obtain f r ex t where a: "a = Token_Exchange_Auth r ex t"
      and r: "TokenExchangeRequestSchema is_url (f ''request'') = Some r"
      and x: "TokenExtractorSchema (f ''tokenExtractor'') = Some ex" and t: "TransportSchema (f ''transport'') = Some t"
      by (auto simp: TokenExchangeAuthSchema_def z_object_Some bind_Some)
    from reparsesD [OF reparses_token_request r] reparses_extractor [OF x] reparsesD [OF reparses_transport t]
    show ?thesis
      by (simp add: a HttpAuthConfigSchema_def z_union_def KubernetesServiceAccountAuthSchema_def TokenExchangeAuthSchema_def z_literal_def)
  next
    case jwt
    let ?algs = "z_enum (map (\<lambda>a. (a, a)) [''RS256'', ''ES256'', ''HS256''])"
    have d: "?algs (Some (JStr ''RS256'')) = Some ''RS256''"
      "JwtClaimsSchema (Some (claims_json default_claims)) = Some default_claims"
      "TransportSchema (Some (transport_json bearer_transport)) = Some bearer_transport"
      by (simp_all add: bearer_transport_def transport_json_def TransportSchema_def TransportEntrySchema_def
          z_union_def CredentialEntrySchema_def opt_field_def default_claims_def claims_json_def JwtClaimsSchema_def)
    from jwt obtain f key alg c t where a: "a = Jwt_Self_Signed_Auth key alg c t"
      and k: "JwtKeySchema (f ''key'') = Some key"
      and g: "z_default ''RS256'' ?algs (f ''algorithm'') = Some alg"
      and c: "z_default default_claims JwtClaimsSchema (f ''claims'') = Some c"
      and t: "z_default bearer_transport TransportSchema (f ''transport'') = Some t"
      by (auto simp: JwtSelfSignedAuthSchema_def z_object_Some bind_Some simp del: list.map)
    from reparsesD [OF reparses_jwt_key k] reparsesD [OF reparses_default [OF reparses_enum_same d(1)] g]
      reparsesD [OF reparses_default [OF reparses_claims d(2)] c]
      reparsesD [OF reparses_default [OF reparses_transport d(3)] t]
    show ?thesis
      by (simp add: a HttpAuthConfigSchema_def z_union_def KubernetesServiceAccountAuthSchema_def TokenExchangeAuthSchema_def
          JwtSelfSignedAuthSchema_def z_literal_def del: z_simps(8) list.map)
  next
    case none
    then obtain f s t where a: "a = No_Auth s t" and s: "z_optional (z_literal ''none'') (f ''strategy'') = Some s"
      and t: "z_optional TransportSchema (f ''transport'') = Some t"
      by (auto simp: NoAuthSchema_def z_object_Some bind_Some)
    have "z_optional (z_literal ''none'') (map_option (\<lambda>_. JStr ''none'') s) = Some s"
      by (cases s) (simp_all add: z_literal_def)
    moreover note reparses_optional [OF reparses_transport t]
    moreover have "z_literal k (map_option (\<lambda>_. JStr ''none'') s) = None" if "k \<noteq> ''none''" for k
      using that by (cases s) (simp_all add: z_literal_def)
    ultimately show ?thesis
      by (simp add: a HttpAuthConfigSchema_def z_union_def KubernetesServiceAccountAuthSchema_def TokenExchangeAuthSchema_def
          JwtSelfSignedAuthSchema_def NoAuthSchema_def z_object_def cong: option.case_cong del: z_simps)
  qed
qed

subsection \<open>Credentials on a request\<close>

text \<open>\<open>isNotEmpty\<close> and \<open>isObject\<close> are \<^verbatim>\<open>StringUtils.isNotEmpty\<close> and \<^verbatim>\<open>ObjectUtils.isObject\<close>.\<close>

type_synonym credentials = "(string, string) js_map"

definition resolveEntry :: "(string \<Rightarrow> bool) \<Rightarrow> transport_entry \<Rightarrow> credentials \<Rightarrow> thrown + string" where
  "resolveEntry isNotEmpty entry credentials =
     (case entry of
        Static_Entry _ value \<Rightarrow> Inr value
      | Credential_Entry name credential prefix suffix \<Rightarrow>
          (case map_of credentials credential of
             Some c \<Rightarrow>
               if isNotEmpty c
               then Inr ((case prefix of None \<Rightarrow> [] | Some p \<Rightarrow> p) @ c @ (case suffix of None \<Rightarrow> [] | Some s \<Rightarrow> s))
               else Inl (PlainError (''Transport entry \"'' @ name @ ''\" needs credential \"'' @ credential
                      @ ''\", which the auth strategy did not produce''))
           | None \<Rightarrow> Inl (PlainError (''Transport entry \"'' @ name @ ''\" needs credential \"'' @ credential
                      @ ''\", which the auth strategy did not produce''))))"

definition entry_name :: "transport_entry \<Rightarrow> string" where
  "entry_name entry = (case entry of Static_Entry name _ \<Rightarrow> name | Credential_Entry name _ _ _ \<Rightarrow> name)"

text \<open>
  The entries in order, each set over what is there, until one throws. \<open>put\<close> is how the place takes a
  value: the header object of axios, or a property of the parameters.
\<close>

fun apply_entries ::
  "(string \<Rightarrow> bool) \<Rightarrow> (string \<Rightarrow> string \<Rightarrow> 'm \<Rightarrow> 'm) \<Rightarrow> credentials \<Rightarrow> transport_entry list \<Rightarrow> 'm \<Rightarrow> thrown + 'm" where
  "apply_entries isNotEmpty put credentials [] m = Inr m"
| "apply_entries isNotEmpty put credentials (entry # entries) m =
     (case resolveEntry isNotEmpty entry credentials of
        Inl e \<Rightarrow> Inl e
      | Inr value \<Rightarrow> apply_entries isNotEmpty put credentials entries (put (entry_name entry) value m))"

text \<open>\<^verbatim>\<open>headers.set\<close> of axios is \<open>set_header\<close>; the places are the headers and the query parameters.\<close>

definition applyTransport ::
  "(string \<Rightarrow> bool) \<Rightarrow> (string \<Rightarrow> string \<Rightarrow> 'h \<Rightarrow> 'h) \<Rightarrow> transport_config \<Rightarrow> credentials
     \<Rightarrow> 'h \<times> (string, json) js_map option \<Rightarrow> thrown + 'h \<times> (string, json) js_map option" where
  "applyTransport isNotEmpty set_header transport credentials place =
     (case place of (headers, params) \<Rightarrow>
      (case (case tc_headers transport of None \<Rightarrow> Inr headers
             | Some es \<Rightarrow> apply_entries isNotEmpty set_header credentials es headers) of
         Inl e \<Rightarrow> Inl e
       | Inr headers' \<Rightarrow>
           (case tc_queryParams transport of
              None \<Rightarrow> Inr (headers', params)
            | Some es \<Rightarrow>
                (case apply_entries isNotEmpty (\<lambda>k v. AList.update k (JStr v)) credentials es
                        (case params of None \<Rightarrow> [] | Some ps \<Rightarrow> ps) of
                   Inl e \<Rightarrow> Inl e
                 | Inr ps \<Rightarrow> Inr (headers', Some ps)))))"

definition js_typeof :: "json option \<Rightarrow> string" where
  "js_typeof v = (case v of None \<Rightarrow> ''undefined'' | Some (JBool _) \<Rightarrow> ''boolean'' | Some (JNum _) \<Rightarrow> ''number''
     | Some (JStr _) \<Rightarrow> ''string'' | Some _ \<Rightarrow> ''object'')"

text \<open>An own property of an object or an array.\<close>

definition object_property :: "json \<Rightarrow> string \<Rightarrow> json option" where
  "object_property v key = (case v of
       JObj m \<Rightarrow> map_of m key
     | JArr xs \<Rightarrow> map_of (zip (map show_nat [0..<length xs]) xs @ [(''length'', JNum (int (length xs)))]) key
     | _ \<Rightarrow> None)"

fun walk_path :: "(json option \<Rightarrow> bool) \<Rightarrow> string \<Rightarrow> string list \<Rightarrow> json option \<Rightarrow> thrown + json option" where
  "walk_path isObject path [] current = Inr current"
| "walk_path isObject path (part # parts) current =
     (if \<not> isObject current
      then Inl (PlainError (''Cannot extract path \"'' @ path @ ''\": \"'' @ part @ ''\" is not an object''))
      else walk_path isObject path parts
             (case current of None \<Rightarrow> None | Some v \<Rightarrow> object_property v part))"

definition extractByPath :: "(json option \<Rightarrow> bool) \<Rightarrow> json option \<Rightarrow> string \<Rightarrow> thrown + string" where
  "extractByPath isObject obj path =
     (case walk_path isObject path (split_on (CHR ''.'') path) obj of
        Inl e \<Rightarrow> Inl e
      | Inr (Some (JStr s)) \<Rightarrow> Inr s
      | Inr v \<Rightarrow> Inl (PlainError (''Extracted value at path \"'' @ path @ ''\" is not a string (got ''
                    @ js_typeof v @ '')'')))"

end
