(* ===== verification/Http_Strategies.thy ===== *)
theory Http_Strategies
  imports Http_Auth
begin

text \<open>
  \<^verbatim>\<open>packages/http-provider/src/strategies\<close>: where the credentials of an outbound request come from.
  The two caching strategies are machines: calls, invalidations and the callbacks of the promises
  they started interleave in any order.
\<close>

subsection \<open>The cache with its epoch\<close>

text \<open>
  An acquisition is the promise a strategy starts. \<open>aq_epoch\<close> is the \<^verbatim>\<open>requestEpoch\<close> its callbacks
  closed over, \<open>aq_result\<close> what the request came to, \<open>aq_done\<close> whether its \<^verbatim>\<open>finally\<close> has run, after
  which the callers awaiting it go on. It is referred to by its position.
\<close>

record ('e, 'c) acquisition =
  aq_epoch :: nat
  aq_result :: "('e + 'c) option"
  aq_done :: bool

record ('e, 'c) credential_cache =
  cc_cached :: "'c option"
  cc_expiresAt :: "int option"
  cc_inFlight :: "nat option"
  cc_inFlightEpoch :: "nat option"
  cc_cacheEpoch :: nat
  cc_acquisitions :: "('e, 'c) acquisition list"

definition empty_cache :: "('e, 'c) credential_cache" where
  "empty_cache = \<lparr>cc_cached = None, cc_expiresAt = None, cc_inFlight = None, cc_inFlightEpoch = None,
     cc_cacheEpoch = 0, cc_acquisitions = []\<rparr>"

datatype 'c ask = Given 'c | Awaits nat

definition acquire :: "('e, 'c) credential_cache \<Rightarrow> 'c ask \<times> ('e, 'c) credential_cache" where
  "acquire st = (Awaits (length (cc_acquisitions st)),
     st\<lparr>cc_inFlightEpoch := Some (cc_cacheEpoch st), cc_inFlight := Some (length (cc_acquisitions st)),
        cc_acquisitions := cc_acquisitions st @ [\<lparr>aq_epoch = cc_cacheEpoch st, aq_result = None, aq_done = False\<rparr>]\<rparr>)"

definition join_or_acquire :: "('e, 'c) credential_cache \<Rightarrow> 'c ask \<times> ('e, 'c) credential_cache" where
  "join_or_acquire st = (case cc_inFlight st of
       Some p \<Rightarrow> if cc_inFlightEpoch st = Some (cc_cacheEpoch st) then (Awaits p, st) else acquire st
     | None \<Rightarrow> acquire st)"

text \<open>The \<^verbatim>\<open>finally\<close> callback of an acquisition with the given epoch.\<close>

definition release :: "nat \<Rightarrow> ('e, 'c) credential_cache \<Rightarrow> ('e, 'c) credential_cache" where
  "release requestEpoch st =
     (if cc_inFlightEpoch st = Some requestEpoch then st\<lparr>cc_inFlight := None, cc_inFlightEpoch := None\<rparr> else st)"

text \<open>\<^verbatim>\<open>TokenExchangeStrategy\<close>\<close>

definition token_getCredentials :: "('e, 'c) credential_cache \<Rightarrow> 'c ask \<times> ('e, 'c) credential_cache" where
  "token_getCredentials st = (case cc_cached st of Some c \<Rightarrow> (Given c, st) | None \<Rightarrow> join_or_acquire st)"

definition token_fetched :: "nat \<Rightarrow> 'c \<Rightarrow> ('e, 'c) credential_cache \<Rightarrow> ('e, 'c) credential_cache" where
  "token_fetched requestEpoch credentials st =
     (if cc_cacheEpoch st = requestEpoch then st\<lparr>cc_cached := Some credentials\<rparr> else st)"

definition token_invalidate :: "('e, 'c) credential_cache \<Rightarrow> ('e, 'c) credential_cache" where
  "token_invalidate st = st\<lparr>cc_cacheEpoch := cc_cacheEpoch st + 1, cc_cached := None\<rparr>"

text \<open>\<^verbatim>\<open>JwtSelfSignedStrategy\<close>; times are in seconds.\<close>

definition EXPIRY_BUFFER_SECONDS :: int where "EXPIRY_BUFFER_SECONDS = 30"

definition jwt_getCredentials :: "int \<Rightarrow> ('e, string) credential_cache \<Rightarrow> string ask \<times> ('e, string) credential_cache" where
  "jwt_getCredentials nowSeconds st =
     (let isExpired = (case cc_expiresAt st of None \<Rightarrow> False | Some e \<Rightarrow> e - EXPIRY_BUFFER_SECONDS \<le> nowSeconds) in
      case cc_cached st of
        Some token \<Rightarrow> if token \<noteq> [] \<and> \<not> isExpired then (Given token, st) else join_or_acquire st
      | None \<Rightarrow> join_or_acquire st)"

definition jwt_generated :: "int \<Rightarrow> int \<Rightarrow> nat \<Rightarrow> string \<Rightarrow> ('e, string) credential_cache \<Rightarrow> ('e, string) credential_cache" where
  "jwt_generated exp nowSeconds requestEpoch token st =
     (if cc_cacheEpoch st = requestEpoch
      then st\<lparr>cc_cached := Some token, cc_expiresAt := Some (nowSeconds + exp)\<rparr> else st)"

definition jwt_invalidate :: "('e, string) credential_cache \<Rightarrow> ('e, string) credential_cache" where
  "jwt_invalidate st = st\<lparr>cc_cacheEpoch := cc_cacheEpoch st + 1, cc_cached := None, cc_expiresAt := None\<rparr>"

subsection \<open>Interleaved callers\<close>

text \<open>
  \<open>Acquired\<close> is the settling of the request behind a promise, at a time, with the \<^verbatim>\<open>then\<close> callback
  that a success runs; \<open>Finished\<close> is the \<^verbatim>\<open>finally\<close> after it.
\<close>

datatype ('e, 'c) strategy_event = Asked int | Invalidated | Acquired nat "'e + 'c" int | Finished nat

definition strategy_step ::
  "(int \<Rightarrow> ('e, 'c) credential_cache \<Rightarrow> 'c ask \<times> ('e, 'c) credential_cache)
     \<Rightarrow> (int \<Rightarrow> nat \<Rightarrow> 'c \<Rightarrow> ('e, 'c) credential_cache \<Rightarrow> ('e, 'c) credential_cache)
     \<Rightarrow> (('e, 'c) credential_cache \<Rightarrow> ('e, 'c) credential_cache)
     \<Rightarrow> ('e, 'c) strategy_event \<Rightarrow> ('e, 'c) credential_cache \<Rightarrow> ('e, 'c) credential_cache" where
  "strategy_step getCredentials remember invalidate ev st =
     (case ev of
        Asked now \<Rightarrow> snd (getCredentials now st)
      | Invalidated \<Rightarrow> invalidate st
      | Acquired p r now \<Rightarrow>
          if p < length (cc_acquisitions st) \<and> aq_result (cc_acquisitions st ! p) = None
          then (let st1 = st\<lparr>cc_acquisitions := (cc_acquisitions st)[p := (cc_acquisitions st ! p)\<lparr>aq_result := Some r\<rparr>]\<rparr>
                in case r of Inl _ \<Rightarrow> st1 | Inr c \<Rightarrow> remember now (aq_epoch (cc_acquisitions st ! p)) c st1)
          else st
      | Finished p \<Rightarrow>
          if p < length (cc_acquisitions st) \<and> aq_result (cc_acquisitions st ! p) \<noteq> None \<and> \<not> aq_done (cc_acquisitions st ! p)
          then release (aq_epoch (cc_acquisitions st ! p))
                 (st\<lparr>cc_acquisitions := (cc_acquisitions st)[p := (cc_acquisitions st ! p)\<lparr>aq_done := True\<rparr>]\<rparr>)
          else st)"

definition token_step :: "('e, 'c) strategy_event \<Rightarrow> ('e, 'c) credential_cache \<Rightarrow> ('e, 'c) credential_cache" where
  "token_step = strategy_step (\<lambda>_. token_getCredentials) (\<lambda>_. token_fetched) token_invalidate"

definition jwt_step :: "int \<Rightarrow> ('e, string) strategy_event \<Rightarrow> ('e, string) credential_cache \<Rightarrow> ('e, string) credential_cache" where
  "jwt_step exp = strategy_step jwt_getCredentials (jwt_generated exp) jwt_invalidate"

text \<open>
  What the interleaving relies on: a cached value is only given while it is cached, anything else
  joins or starts an acquisition; a success is kept only under the epoch it was started in; an
  invalidation opens a new epoch with nothing cached.
\<close>

definition cache_frame :: "('e, 'c) credential_cache \<Rightarrow> ('e, 'c) credential_cache \<Rightarrow> bool" where
  "cache_frame st st' \<longleftrightarrow> cc_inFlight st' = cc_inFlight st \<and> cc_inFlightEpoch st' = cc_inFlightEpoch st
     \<and> cc_acquisitions st' = cc_acquisitions st"

definition in_flight_ok :: "('e, 'c) credential_cache \<Rightarrow> bool" where
  "in_flight_ok st \<longleftrightarrow> (case cc_inFlight st of
       None \<Rightarrow> cc_inFlightEpoch st = None
     | Some p \<Rightarrow> p < length (cc_acquisitions st) \<and> \<not> aq_done (cc_acquisitions st ! p)
         \<and> cc_inFlightEpoch st = Some (aq_epoch (cc_acquisitions st ! p)))"

definition epochs_ok :: "('e, 'c) credential_cache \<Rightarrow> bool" where
  "epochs_ok st \<longleftrightarrow> (\<forall>p < length (cc_acquisitions st). aq_epoch (cc_acquisitions st ! p) \<le> cc_cacheEpoch st
     \<and> (\<not> aq_done (cc_acquisitions st ! p) \<longrightarrow> aq_epoch (cc_acquisitions st ! p) = cc_cacheEpoch st \<longrightarrow> cc_inFlight st = Some p))"

definition cached_ok :: "('e, 'c) credential_cache \<Rightarrow> bool" where
  "cached_ok st \<longleftrightarrow> (\<forall>c. cc_cached st = Some c \<longrightarrow> (\<exists>p < length (cc_acquisitions st).
     aq_epoch (cc_acquisitions st ! p) = cc_cacheEpoch st \<and> aq_result (cc_acquisitions st ! p) = Some (Inr c)))"

definition cache_inv :: "('e, 'c) credential_cache \<Rightarrow> bool" where
  "cache_inv st \<longleftrightarrow> in_flight_ok st \<and> epochs_ok st \<and> cached_ok st"

lemma join_or_acquire_cases:
  assumes "in_flight_ok st"
  obtains p where "join_or_acquire st = (Awaits p, st)" "cc_inFlight st = Some p" "p < length (cc_acquisitions st)"
      "aq_epoch (cc_acquisitions st ! p) = cc_cacheEpoch st" "\<not> aq_done (cc_acquisitions st ! p)"
    | "join_or_acquire st = acquire st" "cc_inFlightEpoch st \<noteq> Some (cc_cacheEpoch st)"
  using assms by (auto simp: join_or_acquire_def in_flight_ok_def split: option.splits if_splits)

lemma cache_inv_acquire:
  assumes inv: "cache_inv st" and free: "cc_inFlightEpoch st \<noteq> Some (cc_cacheEpoch st)"
  shows "cache_inv (snd (acquire st))"
proof -
  let ?as = "cc_acquisitions st" and ?new = "\<lparr>aq_epoch = cc_cacheEpoch st, aq_result = None, aq_done = False\<rparr>"
  have old: "aq_epoch (?as ! p) \<le> cc_cacheEpoch st" "aq_epoch (?as ! p) = cc_cacheEpoch st \<Longrightarrow> aq_done (?as ! p)"
    if "p < length ?as" for p
    using inv free that by (auto simp: cache_inv_def epochs_ok_def in_flight_ok_def split: option.splits)
  have "in_flight_ok (snd (acquire st))" by (simp add: acquire_def in_flight_ok_def)
  moreover have "epochs_ok (snd (acquire st))"
    using old by (auto simp: acquire_def epochs_ok_def nth_append less_Suc_eq)
  moreover have "cached_ok (snd (acquire st))"
    unfolding cached_ok_def
  proof (intro allI impI)
    fix c assume "cc_cached (snd (acquire st)) = Some c"
    with inv obtain p where "p < length ?as" "aq_epoch (?as ! p) = cc_cacheEpoch st" "aq_result (?as ! p) = Some (Inr c)"
      by (auto simp: cache_inv_def cached_ok_def acquire_def)
    then show "\<exists>p < length (cc_acquisitions (snd (acquire st))).
        aq_epoch (cc_acquisitions (snd (acquire st)) ! p) = cc_cacheEpoch (snd (acquire st))
        \<and> aq_result (cc_acquisitions (snd (acquire st)) ! p) = Some (Inr c)"
      by (intro exI [of _ p]) (simp add: acquire_def nth_append)
  qed
  ultimately show ?thesis by (simp add: cache_inv_def)
qed

text \<open>The records of the list keep their epochs when one of them is updated.\<close>

definition put_result :: "nat \<Rightarrow> 'e + 'c \<Rightarrow> ('e, 'c) credential_cache \<Rightarrow> ('e, 'c) credential_cache" where
  "put_result p r st = st\<lparr>cc_acquisitions := (cc_acquisitions st)[p := (cc_acquisitions st ! p)\<lparr>aq_result := Some r\<rparr>]\<rparr>"

lemma put_result_nth:
  assumes "p < length (cc_acquisitions st)"
  shows "cc_acquisitions (put_result p r st) ! q =
    (if q = p then (cc_acquisitions st ! p)\<lparr>aq_result := Some r\<rparr> else cc_acquisitions st ! q)"
  using assms by (simp add: put_result_def nth_list_update)

lemma put_result_same [simp]:
  "cc_cached (put_result p r st) = cc_cached st" "cc_inFlight (put_result p r st) = cc_inFlight st"
  "cc_inFlightEpoch (put_result p r st) = cc_inFlightEpoch st" "cc_cacheEpoch (put_result p r st) = cc_cacheEpoch st"
  "cc_expiresAt (put_result p r st) = cc_expiresAt st"
  "length (cc_acquisitions (put_result p r st)) = length (cc_acquisitions st)"
  by (simp_all add: put_result_def)

lemma cache_inv_result:
  assumes inv: "cache_inv st" and p: "p < length (cc_acquisitions st)" and pending: "aq_result (cc_acquisitions st ! p) = None"
  shows "cache_inv (put_result p r st)"
proof -
  have "in_flight_ok (put_result p r st)"
    using inv by (auto simp: cache_inv_def in_flight_ok_def put_result_nth [OF p] split: option.splits)
  moreover have "epochs_ok (put_result p r st)"
    using inv by (auto simp: cache_inv_def epochs_ok_def put_result_nth [OF p])
  moreover have "cached_ok (put_result p r st)"
    unfolding cached_ok_def
  proof (intro allI impI)
    fix c assume "cc_cached (put_result p r st) = Some c"
    with inv obtain q where q: "q < length (cc_acquisitions st)" "aq_epoch (cc_acquisitions st ! q) = cc_cacheEpoch st"
      "aq_result (cc_acquisitions st ! q) = Some (Inr c)" by (auto simp: cache_inv_def cached_ok_def)
    with pending have "q \<noteq> p" by auto
    with q show "\<exists>q < length (cc_acquisitions (put_result p r st)).
        aq_epoch (cc_acquisitions (put_result p r st) ! q) = cc_cacheEpoch (put_result p r st)
        \<and> aq_result (cc_acquisitions (put_result p r st) ! q) = Some (Inr c)"
      by (intro exI [of _ q]) (simp add: put_result_nth [OF p])
  qed
  ultimately show ?thesis by (simp add: cache_inv_def)
qed

definition put_done :: "nat \<Rightarrow> ('e, 'c) credential_cache \<Rightarrow> ('e, 'c) credential_cache" where
  "put_done p st = release (aq_epoch (cc_acquisitions st ! p))
     (st\<lparr>cc_acquisitions := (cc_acquisitions st)[p := (cc_acquisitions st ! p)\<lparr>aq_done := True\<rparr>]\<rparr>)"

lemma put_done_nth:
  assumes "p < length (cc_acquisitions st)"
  shows "cc_acquisitions (put_done p st) ! q =
    (if q = p then (cc_acquisitions st ! p)\<lparr>aq_done := True\<rparr> else cc_acquisitions st ! q)"
  using assms by (simp add: put_done_def release_def nth_list_update)

lemma put_done_same [simp]:
  "cc_cached (put_done p st) = cc_cached st" "cc_cacheEpoch (put_done p st) = cc_cacheEpoch st"
  "cc_expiresAt (put_done p st) = cc_expiresAt st"
  "length (cc_acquisitions (put_done p st)) = length (cc_acquisitions st)"
  by (simp_all add: put_done_def release_def)

lemma put_done_flight:
  "cc_inFlightEpoch (put_done p st) = (if cc_inFlightEpoch st = Some (aq_epoch (cc_acquisitions st ! p)) then None else cc_inFlightEpoch st)"
  "cc_inFlight (put_done p st) = (if cc_inFlightEpoch st = Some (aq_epoch (cc_acquisitions st ! p)) then None else cc_inFlight st)"
  by (simp_all add: put_done_def release_def)

lemma cache_inv_release:
  assumes inv: "cache_inv st" and p: "p < length (cc_acquisitions st)" and nd: "\<not> aq_done (cc_acquisitions st ! p)"
  shows "cache_inv (put_done p st)"
proof -
  have "in_flight_ok (put_done p st)"
    using inv by (auto simp: cache_inv_def in_flight_ok_def put_done_nth [OF p] put_done_flight split: option.splits)
  moreover have "epochs_ok (put_done p st)"
    unfolding epochs_ok_def
  proof (intro allI impI conjI)
    fix q assume q: "q < length (cc_acquisitions (put_done p st))"
    then show "aq_epoch (cc_acquisitions (put_done p st) ! q) \<le> cc_cacheEpoch (put_done p st)"
      using inv by (simp add: cache_inv_def epochs_ok_def put_done_nth [OF p])
    assume "\<not> aq_done (cc_acquisitions (put_done p st) ! q)"
      and "aq_epoch (cc_acquisitions (put_done p st) ! q) = cc_cacheEpoch (put_done p st)"
    then have q': "q \<noteq> p" "\<not> aq_done (cc_acquisitions st ! q)" "aq_epoch (cc_acquisitions st ! q) = cc_cacheEpoch st"
      by (auto simp: put_done_nth [OF p] split: if_splits)
    with inv q have here: "cc_inFlight st = Some q" by (simp add: cache_inv_def epochs_ok_def)
    have "aq_epoch (cc_acquisitions st ! p) \<noteq> cc_cacheEpoch st"
    proof
      assume "aq_epoch (cc_acquisitions st ! p) = cc_cacheEpoch st"
      with inv p nd have "cc_inFlight st = Some p" by (simp add: cache_inv_def epochs_ok_def)
      with here q'(1) show False by simp
    qed
    with here q'(3) inv show "cc_inFlight (put_done p st) = Some q"
      by (simp add: put_done_flight cache_inv_def in_flight_ok_def)
  qed
  moreover have "cached_ok (put_done p st)"
    unfolding cached_ok_def
  proof (intro allI impI)
    fix c assume "cc_cached (put_done p st) = Some c"
    with inv obtain q where "q < length (cc_acquisitions st)" "aq_epoch (cc_acquisitions st ! q) = cc_cacheEpoch st"
      "aq_result (cc_acquisitions st ! q) = Some (Inr c)" by (auto simp: cache_inv_def cached_ok_def)
    then show "\<exists>q < length (cc_acquisitions (put_done p st)).
        aq_epoch (cc_acquisitions (put_done p st) ! q) = cc_cacheEpoch (put_done p st)
        \<and> aq_result (cc_acquisitions (put_done p st) ! q) = Some (Inr c)"
      by (intro exI [of _ q]) (auto simp: put_done_nth [OF p])
  qed
  ultimately show ?thesis by (simp add: cache_inv_def)
qed

lemma strategy_step_simps:
  "strategy_step ask remember forget (Asked now) st = snd (ask now st)"
  "strategy_step ask remember forget Invalidated st = forget st"
  "strategy_step ask remember forget (Acquired p r now) st =
     (if p < length (cc_acquisitions st) \<and> aq_result (cc_acquisitions st ! p) = None
      then case r of Inl _ \<Rightarrow> put_result p r st
        | Inr c \<Rightarrow> remember now (aq_epoch (cc_acquisitions st ! p)) c (put_result p r st)
      else st)"
  "strategy_step ask remember forget (Finished p) st =
     (if p < length (cc_acquisitions st) \<and> aq_result (cc_acquisitions st ! p) \<noteq> None \<and> \<not> aq_done (cc_acquisitions st ! p)
      then put_done p st else st)"
  unfolding strategy_step_def put_result_def put_done_def Let_def by (simp_all only: strategy_event.case)

locale caching_strategy =
  fixes ask :: "int \<Rightarrow> ('e, 'c) credential_cache \<Rightarrow> 'c ask \<times> ('e, 'c) credential_cache"
    and remember :: "int \<Rightarrow> nat \<Rightarrow> 'c \<Rightarrow> ('e, 'c) credential_cache \<Rightarrow> ('e, 'c) credential_cache"
    and forget :: "('e, 'c) credential_cache \<Rightarrow> ('e, 'c) credential_cache"
  assumes asked: "(\<exists>c. ask now st = (Given c, st) \<and> cc_cached st = Some c) \<or> ask now st = join_or_acquire st"
    and remembered: "cache_frame st (remember now e c st)" "cc_cacheEpoch (remember now e c st) = cc_cacheEpoch st"
      "cc_cached (remember now e c st) = (if cc_cacheEpoch st = e then Some c else cc_cached st)"
    and forgotten: "cache_frame st (forget st)" "cc_cacheEpoch (forget st) = cc_cacheEpoch st + 1" "cc_cached (forget st) = None"
begin

abbreviation step :: "('e, 'c) strategy_event \<Rightarrow> ('e, 'c) credential_cache \<Rightarrow> ('e, 'c) credential_cache" where
  "step \<equiv> strategy_step ask remember forget"

lemma frame_simps [simp]:
  "cc_acquisitions (remember now e c st) = cc_acquisitions st" "cc_inFlight (remember now e c st) = cc_inFlight st"
  "cc_inFlightEpoch (remember now e c st) = cc_inFlightEpoch st" "cc_cacheEpoch (remember now e c st) = cc_cacheEpoch st"
  "cc_acquisitions (forget st) = cc_acquisitions st" "cc_inFlight (forget st) = cc_inFlight st"
  "cc_inFlightEpoch (forget st) = cc_inFlightEpoch st" "cc_cacheEpoch (forget st) = Suc (cc_cacheEpoch st)"
  "cc_cached (forget st) = None"
  using remembered(1) [of st now e c] forgotten(1) [of st]
  by (simp_all add: cache_frame_def remembered(2) forgotten(2,3))

lemma forget_inv: "cache_inv st \<Longrightarrow> cache_inv (forget st)"
proof -
  assume inv: "cache_inv st"
  then have le: "aq_epoch (cc_acquisitions st ! p) \<le> cc_cacheEpoch st" if "p < length (cc_acquisitions st)" for p
    using that by (simp add: cache_inv_def epochs_ok_def)
  have "epochs_ok (forget st)" unfolding epochs_ok_def by (auto dest: le)
  with inv show ?thesis by (simp add: cache_inv_def in_flight_ok_def cached_ok_def split: option.splits)
qed

lemma remember_inv:
  assumes inv: "cache_inv st" and p: "p < length (cc_acquisitions st)" "aq_result (cc_acquisitions st ! p) = Some (Inr c)"
  shows "cache_inv (remember now (aq_epoch (cc_acquisitions st ! p)) c st)"
proof -
  have "cached_ok (remember now (aq_epoch (cc_acquisitions st ! p)) c st)"
    using inv p by (auto simp: cache_inv_def cached_ok_def remembered(3))
  with inv show ?thesis by (simp add: cache_inv_def in_flight_ok_def epochs_ok_def split: option.splits)
qed

lemma ask_inv: "cache_inv st \<Longrightarrow> cache_inv (snd (ask now st))"
proof -
  assume inv: "cache_inv st"
  then have "in_flight_ok st" by (simp add: cache_inv_def)
  then have "cache_inv (snd (join_or_acquire st))"
    by (cases rule: join_or_acquire_cases) (simp_all add: inv cache_inv_acquire)
  with inv asked [of now st] show ?thesis by (metis snd_conv)
qed

lemma step_inv: "cache_inv st \<Longrightarrow> cache_inv (step ev st)"
proof (induction ev)
  case (Acquired p r now)
  have "cache_inv (put_result p r st)"
    if "p < length (cc_acquisitions st)" "aq_result (cc_acquisitions st ! p) = None"
    using Acquired that by (rule cache_inv_result)
  then show ?case
    using Acquired remember_inv [of "put_result p r st" p]
    by (auto simp: strategy_step_simps put_result_nth split: sum.splits)
qed (simp_all add: strategy_step_simps ask_inv forget_inv cache_inv_release)

lemma run_inv: "cache_inv st \<Longrightarrow> cache_inv (fold step evs st)"
  by (induction evs arbitrary: st) (simp_all add: step_inv)

text \<open>Acquisitions are only added, and none changes its epoch.\<close>

lemma ask_acquisitions: "\<exists>new. map aq_epoch (cc_acquisitions (snd (ask now st))) = map aq_epoch (cc_acquisitions st) @ new"
proof -
  have "\<exists>new. map aq_epoch (cc_acquisitions (snd (join_or_acquire st))) = map aq_epoch (cc_acquisitions st) @ new"
    by (auto simp: join_or_acquire_def acquire_def split: option.splits)
  with asked [of now st] show ?thesis by (metis append_Nil2 snd_conv)
qed

lemma step_acquisitions: "\<exists>new. map aq_epoch (cc_acquisitions (step ev st)) = map aq_epoch (cc_acquisitions st) @ new"
proof -
  have same: "map aq_epoch (as[p := (as ! p)\<lparr>aq_result := r\<rparr>]) = map aq_epoch as"
    "map aq_epoch (as[p := (as ! p)\<lparr>aq_done := d\<rparr>]) = map aq_epoch as" for as :: "('e, 'c) acquisition list" and p r d
    by (simp_all add: map_update list_update_same_conv list_update_beyond leI)
      (cases "p < length as"; simp add: list_update_same_conv map_update list_update_beyond leI)+
  show ?thesis
    by (cases ev) (auto simp: strategy_step_simps ask_acquisitions put_result_def put_done_def release_def same
        split: sum.splits)
qed

lemma run_acquisitions: "\<exists>new. map aq_epoch (cc_acquisitions (fold step evs st)) = map aq_epoch (cc_acquisitions st) @ new"
proof (induction evs arbitrary: st)
  case (Cons ev evs)
  from step_acquisitions [of ev st] Cons [of "step ev st"] show ?case by auto
qed simp

lemma step_epoch: "cc_cacheEpoch st \<le> cc_cacheEpoch (step ev st)"
proof (cases ev)
  case (Asked now)
  have "cc_cacheEpoch (snd (join_or_acquire st)) = cc_cacheEpoch st"
    by (auto simp: join_or_acquire_def acquire_def split: option.splits)
  with Asked asked [of now st] show ?thesis by (auto simp: strategy_step_simps)
qed (auto simp: strategy_step_simps split: sum.splits)

lemma run_epoch: "cc_cacheEpoch st \<le> cc_cacheEpoch (fold step evs st)"
  by (induction evs arbitrary: st) (auto intro: order_trans [OF step_epoch])

lemma ask_current:
  assumes inv: "cache_inv st"
  shows "case fst (ask now st) of
      Given c \<Rightarrow> \<exists>p < length (cc_acquisitions st). aq_epoch (cc_acquisitions st ! p) = cc_cacheEpoch st
        \<and> aq_result (cc_acquisitions st ! p) = Some (Inr c)
    | Awaits p \<Rightarrow> p < length (cc_acquisitions st) \<and> aq_epoch (cc_acquisitions st ! p) = cc_cacheEpoch st
        \<and> \<not> aq_done (cc_acquisitions st ! p) \<or> p = length (cc_acquisitions st)"
proof -
  have flight: "in_flight_ok st" using inv by (simp add: cache_inv_def)
  have "case fst (join_or_acquire st) of Given c \<Rightarrow> False
    | Awaits p \<Rightarrow> p < length (cc_acquisitions st) \<and> aq_epoch (cc_acquisitions st ! p) = cc_cacheEpoch st
        \<and> \<not> aq_done (cc_acquisitions st ! p) \<or> p = length (cc_acquisitions st)"
    using flight by (cases rule: join_or_acquire_cases) (simp_all add: acquire_def)
  moreover have "\<exists>p < length (cc_acquisitions st). aq_epoch (cc_acquisitions st ! p) = cc_cacheEpoch st
        \<and> aq_result (cc_acquisitions st ! p) = Some (Inr c)" if "cc_cached st = Some c" for c
    using inv that by (simp add: cache_inv_def cached_ok_def)
  ultimately show ?thesis using asked [of now st] by (auto split: ask.splits)
qed

text \<open>Nothing acquired before an invalidation is given or awaited after it.\<close>

lemma fresh_after_forget:
  assumes inv: "cache_inv st" and run: "st' = fold step evs (forget st)"
  shows "case fst (ask now st') of
      Given c \<Rightarrow> \<exists>p \<ge> length (cc_acquisitions st). p < length (cc_acquisitions st')
        \<and> aq_result (cc_acquisitions st' ! p) = Some (Inr c)
    | Awaits p \<Rightarrow> length (cc_acquisitions st) \<le> p"
proof -
  have inv': "cache_inv st'" unfolding run by (intro run_inv forget_inv inv)
  have later: "length (cc_acquisitions st) \<le> p"
    if p: "p < length (cc_acquisitions st')" "aq_epoch (cc_acquisitions st' ! p) = cc_cacheEpoch st'" for p
  proof (rule ccontr)
    assume "\<not> length (cc_acquisitions st) \<le> p"
    then have lt: "p < length (cc_acquisitions st)" by simp
    obtain new where "map aq_epoch (cc_acquisitions st') = map aq_epoch (cc_acquisitions st) @ new"
      using run_acquisitions [of evs "forget st"] run by auto
    then have "map aq_epoch (cc_acquisitions st') ! p = map aq_epoch (cc_acquisitions st) ! p"
      using lt by (simp add: nth_append)
    with lt p(1) have "aq_epoch (cc_acquisitions st' ! p) = aq_epoch (cc_acquisitions st ! p)" by simp
    also have "\<dots> \<le> cc_cacheEpoch st" using inv lt by (simp add: cache_inv_def epochs_ok_def)
    also have "\<dots> < cc_cacheEpoch st'" using run_epoch [of "forget st" evs] run by simp
    finally show False using p(2) by simp
  qed
  have "length (cc_acquisitions st) \<le> length (cc_acquisitions st')"
  proof -
    obtain new where "map aq_epoch (cc_acquisitions st') = map aq_epoch (cc_acquisitions st) @ new"
      using run_acquisitions [of evs "forget st"] run by auto
    from arg_cong [OF this, of length] show ?thesis by simp
  qed
  with ask_current [OF inv', of now] later show ?thesis by (auto split: ask.splits)
qed

end

lemma empty_cache_inv: "cache_inv empty_cache"
  by (simp add: cache_inv_def in_flight_ok_def epochs_ok_def cached_ok_def empty_cache_def)

interpretation token_exchange: caching_strategy "\<lambda>_. token_getCredentials" "\<lambda>_. token_fetched" token_invalidate
  by unfold_locales (auto simp: token_getCredentials_def token_fetched_def token_invalidate_def cache_frame_def
      split: option.splits)

interpretation self_signed: caching_strategy jwt_getCredentials "jwt_generated exp" jwt_invalidate for exp
  by unfold_locales (auto simp: jwt_getCredentials_def jwt_generated_def jwt_invalidate_def cache_frame_def Let_def
      split: option.splits)

text \<open>
  Property C31. Credentials an upstream refused are never handed out again. Whatever calls, invalidations and
  settled requests came before an invalidation and whatever came after it, the credentials a call is
  given, or the request it is made to wait for, come from a token request that was started after that
  invalidation, even when an older request completes in between.
\<close>

theorem refused_credentials_dropped:
  "case fst (token_getCredentials (fold token_step evs2 (token_invalidate (fold token_step evs1 empty_cache)))) of
      Given c \<Rightarrow> \<exists>p \<ge> length (cc_acquisitions (fold token_step evs1 empty_cache)).
        p < length (cc_acquisitions (fold token_step evs2 (token_invalidate (fold token_step evs1 empty_cache))))
        \<and> aq_result (cc_acquisitions (fold token_step evs2 (token_invalidate (fold token_step evs1 empty_cache))) ! p)
            = Some (Inr c)
    | Awaits p \<Rightarrow> length (cc_acquisitions (fold token_step evs1 empty_cache)) \<le> p"
  unfolding token_step_def
  by (rule token_exchange.fresh_after_forget [OF token_exchange.run_inv [OF empty_cache_inv] refl])

text \<open>Failed acquisitions.\<close>

definition failed_acquisition :: "('e, 'c) acquisition \<Rightarrow> bool" where
  "failed_acquisition a \<longleftrightarrow> (case aq_result a of Some (Inl _) \<Rightarrow> True | _ \<Rightarrow> False)"

definition one_per_epoch :: "('e, 'c) credential_cache \<Rightarrow> bool" where
  "one_per_epoch st \<longleftrightarrow> (\<forall>p < length (cc_acquisitions st). \<forall>q < length (cc_acquisitions st).
     aq_epoch (cc_acquisitions st ! p) = aq_epoch (cc_acquisitions st ! q)
     \<and> \<not> failed_acquisition (cc_acquisitions st ! p) \<and> \<not> failed_acquisition (cc_acquisitions st ! q) \<longrightarrow> p = q)"

definition success_cached :: "('e, 'c) credential_cache \<Rightarrow> bool" where
  "success_cached st \<longleftrightarrow> (\<forall>p < length (cc_acquisitions st).
     (aq_done (cc_acquisitions st ! p) \<longrightarrow> aq_result (cc_acquisitions st ! p) \<noteq> None)
     \<and> (cc_cached st = None \<and> aq_epoch (cc_acquisitions st ! p) = cc_cacheEpoch st
          \<and> aq_result (cc_acquisitions st ! p) \<noteq> None \<longrightarrow> failed_acquisition (cc_acquisitions st ! p)))"

lemma token_inv_step:
  assumes inv: "cache_inv st" and one: "one_per_epoch st" and cached: "success_cached st"
  shows "one_per_epoch (token_step ev st) \<and> success_cached (token_step ev st)"
proof -
  let ?as = "cc_acquisitions st"
  have le: "aq_epoch (?as ! p) \<le> cc_cacheEpoch st" if "p < length ?as" for p
    using inv that by (simp add: cache_inv_def epochs_ok_def)
  note step = token_step_def strategy_step_simps
  show ?thesis
  proof (cases ev)
    case (Asked now)
    show ?thesis
    proof (cases "cc_cached st")
      case None
      have "in_flight_ok st" using inv by (simp add: cache_inv_def)
      then show ?thesis
      proof (cases rule: join_or_acquire_cases)
        case (1 p)
        with Asked None one cached show ?thesis by (simp add: step token_getCredentials_def)
      next
        case 2
        have bad: "failed_acquisition (?as ! p)" if "p < length ?as" "aq_epoch (?as ! p) = cc_cacheEpoch st" for p
        proof -
          have "aq_done (?as ! p)"
            using inv 2(2) that by (auto simp: cache_inv_def epochs_ok_def in_flight_ok_def split: option.splits)
          with cached None that show ?thesis by (auto simp: success_cached_def)
        qed
        have "one_per_epoch (snd (acquire st))"
          using one bad by (auto simp: one_per_epoch_def acquire_def nth_append less_Suc_eq)
        moreover have "success_cached (snd (acquire st))"
          using cached None by (auto simp: success_cached_def acquire_def nth_append less_Suc_eq)
        ultimately show ?thesis using Asked None 2(1) by (simp add: step token_getCredentials_def)
      qed
    next
      case (Some c)
      with Asked one cached show ?thesis by (simp add: step token_getCredentials_def)
    qed
  next
    case Invalidated
    have "success_cached (token_invalidate st)"
      using cached le by (fastforce simp: success_cached_def token_invalidate_def)
    moreover have "one_per_epoch (token_invalidate st)" using one by (simp add: one_per_epoch_def token_invalidate_def)
    ultimately show ?thesis using Invalidated by (simp add: step)
  next
    case (Acquired p r now)
    show ?thesis
    proof (cases "p < length ?as \<and> aq_result (?as ! p) = None")
      case True
      then have p: "p < length ?as" and fresh: "\<not> failed_acquisition (?as ! p)" by (auto simp: failed_acquisition_def)
      have "one_per_epoch (put_result p r st)"
        unfolding one_per_epoch_def
      proof (intro allI impI, elim conjE)
        fix a b
        have unput: "aq_epoch (cc_acquisitions (put_result p r st) ! q) = aq_epoch (?as ! q)"
          "\<not> failed_acquisition (cc_acquisitions (put_result p r st) ! q) \<Longrightarrow> \<not> failed_acquisition (?as ! q)" for q
          using fresh by (auto simp: put_result_nth [OF p] split: if_splits)
        assume "a < length (cc_acquisitions (put_result p r st))" "b < length (cc_acquisitions (put_result p r st))"
          "aq_epoch (cc_acquisitions (put_result p r st) ! a) = aq_epoch (cc_acquisitions (put_result p r st) ! b)"
          "\<not> failed_acquisition (cc_acquisitions (put_result p r st) ! a)"
          "\<not> failed_acquisition (cc_acquisitions (put_result p r st) ! b)"
        with one unput show "a = b" by (simp add: one_per_epoch_def)
      qed
      moreover have "success_cached (put_result p (Inl e) st)" for e
        using cached p by (auto simp: success_cached_def put_result_nth [OF p] failed_acquisition_def)
      moreover have "success_cached (token_fetched (aq_epoch (?as ! p)) c (put_result p (Inr c) st))" for c
        using cached p by (auto simp: success_cached_def token_fetched_def put_result_nth [OF p])
      moreover have "one_per_epoch (token_fetched (aq_epoch (?as ! p)) c (put_result p r st)) \<longleftrightarrow> one_per_epoch (put_result p r st)" for c
        by (simp add: one_per_epoch_def token_fetched_def)
      ultimately show ?thesis using Acquired True by (cases r) (simp_all add: step)
    qed (use Acquired one cached in \<open>auto simp: step\<close>)
  next
    case (Finished p)
    show ?thesis
    proof (cases "p < length ?as \<and> aq_result (?as ! p) \<noteq> None \<and> \<not> aq_done (?as ! p)")
      case True
      then have p: "p < length ?as" "aq_result (?as ! p) \<noteq> None" by auto
      have same: "aq_result (cc_acquisitions (put_done p st) ! q) = aq_result (?as ! q)"
          "aq_epoch (cc_acquisitions (put_done p st) ! q) = aq_epoch (?as ! q)"
          "aq_done (cc_acquisitions (put_done p st) ! q) \<longleftrightarrow> q = p \<or> aq_done (?as ! q)"
          "failed_acquisition (cc_acquisitions (put_done p st) ! q) \<longleftrightarrow> failed_acquisition (?as ! q)" for q
        by (simp_all add: put_done_nth [OF p(1)] failed_acquisition_def)
      have "one_per_epoch (put_done p st)" using one unfolding one_per_epoch_def same put_done_same .
      moreover have "success_cached (put_done p st)"
        using cached p(2) unfolding success_cached_def same put_done_same by blast
      ultimately show ?thesis using Finished True by (simp add: step)
    qed (use Finished one cached in \<open>auto simp: step\<close>)
  qed
qed

text \<open>
  A token request is shared. Under one epoch, that is between two invalidations, at most one token
  request is under way or succeeded, however the calls interleave; a further one is only sent after
  the one before it failed.
\<close>

theorem token_requests_shared:
  "one_per_epoch (fold token_step evs empty_cache)"
proof -
  have "cache_inv (fold token_step evs st) \<and> one_per_epoch (fold token_step evs st) \<and> success_cached (fold token_step evs st)"
    if "cache_inv st" "one_per_epoch st" "success_cached st" for st :: "('a, 'b) credential_cache"
    using that
  proof (induction evs arbitrary: st)
    case (Cons ev evs)
    have "cache_inv (token_step ev st)" unfolding token_step_def by (rule token_exchange.step_inv [OF Cons.prems(1)])
    with token_inv_step [OF Cons.prems, of ev] Cons.IH show ?case by simp
  qed simp
  moreover have "one_per_epoch empty_cache" "success_cached empty_cache"
    by (simp_all add: one_per_epoch_def success_cached_def empty_cache_def)
  ultimately show ?thesis using empty_cache_inv by blast
qed

text \<open>What a cached self-signed token is: generated in the run, at the time its expiry is counted from.\<close>

definition token_timed :: "int \<Rightarrow> ('e, string) strategy_event list \<Rightarrow> ('e, string) credential_cache \<Rightarrow> bool" where
  "token_timed exp evs st \<longleftrightarrow> (\<forall>t. cc_cached st = Some t \<longrightarrow>
     (\<exists>p s. Acquired p (Inr t) s \<in> set evs \<and> cc_expiresAt st = Some (s + exp)))"

lemma join_or_acquire_same [simp]:
  "cc_cached (snd (join_or_acquire st)) = cc_cached st" "cc_expiresAt (snd (join_or_acquire st)) = cc_expiresAt st"
  by (auto simp: join_or_acquire_def acquire_def split: option.splits)

lemma jwt_getCredentials_same [simp]:
  "cc_cached (snd (jwt_getCredentials now st)) = cc_cached st"
  "cc_expiresAt (snd (jwt_getCredentials now st)) = cc_expiresAt st"
  by (auto simp: jwt_getCredentials_def Let_def split: option.splits)

lemma token_timed_run: "token_timed exp evs (fold (jwt_step exp) evs empty_cache)"
proof (induction evs rule: rev_induct)
  case Nil
  show ?case by (simp add: token_timed_def empty_cache_def)
next
  case (snoc ev evs)
  then show ?case
    by (cases ev) (fastforce simp: token_timed_def jwt_step_def strategy_step_simps jwt_invalidate_def jwt_generated_def
        split: sum.splits)+
qed

text \<open>
  A self-signed token is not used past its life. Whatever happened before, a token handed out of the
  cache is not empty, was generated by an earlier request, and at the time of the call at least the
  buffer of thirty seconds is left of the life counted from when it was generated.
\<close>

theorem cached_jwt_alive:
  "case fst (jwt_getCredentials now (fold (jwt_step exp) evs empty_cache)) of
      Given t \<Rightarrow> t \<noteq> [] \<and> (\<exists>p s. Acquired p (Inr t) s \<in> set evs \<and> now < s + exp - 30)
    | Awaits _ \<Rightarrow> True"
proof -
  let ?st = "fold (jwt_step exp) evs empty_cache"
  have "case fst (join_or_acquire ?st) of Given t \<Rightarrow> False | Awaits _ \<Rightarrow> True"
    by (auto simp: join_or_acquire_def acquire_def split: option.splits)
  then show ?thesis
    using token_timed_run [of exp evs]
    by (fastforce simp: jwt_getCredentials_def token_timed_def EXPIRY_BUFFER_SECONDS_def Let_def
        split: option.splits ask.splits if_splits)
qed

subsection \<open>Acquiring credentials\<close>

text \<open>One request of the client a strategy was given; its answer is the response's data.\<close>

record token_call =
  ta_method :: string
  ta_url :: string
  ta_headers :: "(string, string) js_map"
  ta_params :: "(string, string) js_map"
  ta_data :: "(string \<times> json) list option"

definition object_of :: "(string \<times> string) list option \<Rightarrow> (string, string) js_map" where
  "object_of rows = (case rows of None \<Rightarrow> [] | Some rs \<Rightarrow> fold (\<lambda>(name, value). AList.update name value) rs [])"

definition token_call_of :: "token_request \<Rightarrow> token_call" where
  "token_call_of r = \<lparr>ta_method = tr_method r, ta_url = tr_url r, ta_headers = object_of (tr_headers r),
     ta_params = object_of (tr_queryParams r), ta_data = tr_body r\<rparr>"

fun extract_credentials ::
  "(json option \<Rightarrow> bool) \<Rightarrow> json option \<Rightarrow> (string \<times> string) list \<Rightarrow> credentials \<Rightarrow> thrown + credentials" where
  "extract_credentials isObject data [] acc = Inr acc"
| "extract_credentials isObject data ((field, name) # extractors) acc =
     (case extractByPath isObject data field of
        Inl e \<Rightarrow> Inl e
      | Inr c \<Rightarrow> extract_credentials isObject data extractors (AList.update name c acc))"

definition fetchCredentials ::
  "(thrown \<Rightarrow> 'e) \<Rightarrow> (json option \<Rightarrow> bool) \<Rightarrow> (token_call \<Rightarrow> ('e, json option, 's) action) \<Rightarrow> token_request \<Rightarrow> (string \<times> string) list
     \<Rightarrow> ('e, credentials, 's) action" where
  "fetchCredentials error isObject request r extractors =
     and_then (request (token_call_of r)) (\<lambda>data.
     lifted (map_sum error id (extract_credentials isObject data extractors [])))"

text \<open>The calls on jose's \<^verbatim>\<open>SignJWT\<close>, in order; signing is its.\<close>

datatype jwt_call =
    Set_Protected_Header string
  | Set_Issuer string
  | Set_Subject string
  | Set_Audience audience
  | Set_Issued_At
  | Set_Expiration_Time string

record ('e, 'k, 's) jwt_runtime =
  jr_readFile :: "string \<Rightarrow> ('e, string, 's) action"
  jr_createSecretKey :: "string \<Rightarrow> 'k"
  jr_importPKCS8 :: "string \<Rightarrow> string \<Rightarrow> ('e, 'k, 's) action"
  jr_sign :: "(string \<times> json) list \<Rightarrow> jwt_call list \<Rightarrow> 'k \<Rightarrow> ('e, string, 's) action"

definition importKey :: "(thrown \<Rightarrow> 'e) \<Rightarrow> ('e, 'k, 's) jwt_runtime \<Rightarrow> string \<Rightarrow> string \<Rightarrow> ('e, 'k, 's) action" where
  "importKey error rt keyMaterial algorithm =
     (if algorithm = ''HS256'' then returning (jr_createSecretKey rt keyMaterial)
      else if algorithm = ''RS256'' \<or> algorithm = ''ES256'' then jr_importPKCS8 rt keyMaterial algorithm
      else throwing (error (PlainError (''Unsupported JWT algorithm: '' @ algorithm))))"

definition claim_calls :: "string \<Rightarrow> jwt_claims \<Rightarrow> jwt_call list" where
  "claim_calls algorithm claims =
     [Set_Protected_Header algorithm]
     @ (case jc_iss claims of Some s \<Rightarrow> if s = [] then [] else [Set_Issuer s] | None \<Rightarrow> [])
     @ (case jc_sub claims of Some s \<Rightarrow> if s = [] then [] else [Set_Subject s] | None \<Rightarrow> [])
     @ (case jc_aud claims of Some a \<Rightarrow> if a = One_Audience [] then [] else [Set_Audience a] | None \<Rightarrow> [])
     @ [Set_Issued_At, Set_Expiration_Time (show_int (jc_exp claims) @ ''s'')]"

definition generateToken :: "(thrown \<Rightarrow> 'e) \<Rightarrow> ('e, 'k, 's) jwt_runtime \<Rightarrow> jwt_key \<Rightarrow> string \<Rightarrow> jwt_claims \<Rightarrow> ('e, string, 's) action" where
  "generateToken error rt key algorithm claims =
     and_then (case key of
         Key_File path \<Rightarrow> and_then (jr_readFile rt path) (\<lambda>s. returning (trim s))
       | Key_Value value \<Rightarrow> returning value) (\<lambda>keyMaterial.
     and_then (importKey error rt keyMaterial algorithm) (\<lambda>cryptoKey.
     jr_sign rt (case jc_additionalClaims claims of None \<Rightarrow> [] | Some m \<Rightarrow> m) (claim_calls algorithm claims) cryptoKey))"

subsection \<open>The strategies a request awaits\<close>

text \<open>
  \<^verbatim>\<open>IAuthStrategy\<close>. A caching strategy lives in a part of the state, read by \<open>get\<close> and written by \<open>put\<close>;
  this is one call that no other interleaves with: it is given what is cached, or starts the request
  and goes on when its callbacks have run.
\<close>

record ('e, 's) auth_strategy =
  as_getCredentials :: "('e, credentials, 's) action"
  as_invalidate :: "'s \<Rightarrow> 's"

definition NoAuthStrategy :: "('e, 's) auth_strategy" where
  "NoAuthStrategy = \<lparr>as_getCredentials = returning [], as_invalidate = (\<lambda>s. s)\<rparr>"

definition KubernetesServiceAccountStrategy :: "(string \<Rightarrow> ('e, string, 's) action) \<Rightarrow> string \<Rightarrow> ('e, 's) auth_strategy" where
  "KubernetesServiceAccountStrategy readFile tokenPath =
     \<lparr>as_getCredentials = and_then (readFile tokenPath) (\<lambda>token. returning [(''value'', trim token)]),
      as_invalidate = (\<lambda>s. s)\<rparr>"

definition settled_call ::
  "(('e, 'c) strategy_event \<Rightarrow> ('e, 'c) credential_cache \<Rightarrow> ('e, 'c) credential_cache) \<Rightarrow> int \<Rightarrow> nat \<Rightarrow> 'e + 'c
     \<Rightarrow> ('e, 'c) credential_cache \<Rightarrow> ('e, 'c) credential_cache" where
  "settled_call step now p r st = step (Finished p) (step (Acquired p r now) st)"

definition TokenExchangeStrategy ::
  "('s \<Rightarrow> ('e, credentials) credential_cache) \<Rightarrow> (('e, credentials) credential_cache \<Rightarrow> 's \<Rightarrow> 's) \<Rightarrow> ('e, credentials, 's) action
     \<Rightarrow> ('e, 's) auth_strategy" where
  "TokenExchangeStrategy get put fetch =
     \<lparr>as_getCredentials = (\<lambda>s. case token_getCredentials (get s) of
          (Given c, st) \<Rightarrow> (Inr c, put st s)
        | (Awaits p, st) \<Rightarrow> (case fetch (put st s) of
            (r, s') \<Rightarrow> (r, put (settled_call token_step 0 p r (get s')) s'))),
      as_invalidate = (\<lambda>s. put (token_invalidate (get s)) s)\<rparr>"

text \<open>\<open>clock\<close> is \<^verbatim>\<open>Math.floor(Date.now() / 1000)\<close>.\<close>

definition JwtSelfSignedStrategy ::
  "('s \<Rightarrow> ('e, string) credential_cache) \<Rightarrow> (('e, string) credential_cache \<Rightarrow> 's \<Rightarrow> 's) \<Rightarrow> ('s \<Rightarrow> int) \<Rightarrow> int \<Rightarrow> ('e, string, 's) action
     \<Rightarrow> ('e, 's) auth_strategy" where
  "JwtSelfSignedStrategy get put clock exp generate =
     \<lparr>as_getCredentials = (\<lambda>s. case jwt_getCredentials (clock s) (get s) of
          (Given t, st) \<Rightarrow> (Inr [(''value'', t)], put st s)
        | (Awaits p, st) \<Rightarrow> (case generate (put st s) of
            (r, s') \<Rightarrow> (map_sum id (\<lambda>t. [(''value'', t)]) r, put (settled_call (jwt_step exp) (clock s') p r (get s')) s'))),
      as_invalidate = (\<lambda>s. put (jwt_invalidate (get s)) s)\<rparr>"

end
