(* ===== verification/Http_Provider.thy ===== *)
theory Http_Provider
  imports Http_Strategies Resilience
begin

text \<open>
  \<^verbatim>\<open>packages/http-provider\<close>, second half, and \<^verbatim>\<open>packages/tsed-http-provider\<close>: the entry of an outbound
  API, the client the factory builds for it with its interceptors, the replay after a refusal, the
  policy around the adapter, the translation of failures and the service on top. Axios itself is a
  parameter: \<open>chain\<close> is how a request runs its interceptors around its dispatch.
\<close>

subsection \<open>An API's entry\<close>

definition DEFAULT_RETRIABLE_STATUS_CODES :: "int list" where
  "DEFAULT_RETRIABLE_STATUS_CODES = [500, 502, 503, 504]"

record provider_input =
  pi_baseURL :: "json option"
  pi_auth :: "json option"
  pi_resilience :: "resilience_input option"
  pi_retriableStatusCodes :: "json option"

record provider_entry =
  pe_baseURL :: string
  pe_auth :: "http_auth option"
  pe_resilience :: "resilience_config option"
  pe_retriableStatusCodes :: "int list"

definition z_int :: "int parser" where
  "z_int v = (case v of Some (JNum n) \<Rightarrow> Some n | _ \<Rightarrow> None)"

definition HttpProviderEntrySchema :: "(string \<Rightarrow> bool) \<Rightarrow> provider_input \<Rightarrow> provider_entry option" where
  "HttpProviderEntrySchema is_url inp = do {
     baseURL \<leftarrow> z_url is_url (pi_baseURL inp);
     auth \<leftarrow> z_optional (HttpAuthConfigSchema is_url) (pi_auth inp);
     resilience \<leftarrow> optional_section parse_config (pi_resilience inp);
     codes \<leftarrow> z_default DEFAULT_RETRIABLE_STATUS_CODES (z_array z_int) (pi_retriableStatusCodes inp);
     Some \<lparr>pe_baseURL = baseURL, pe_auth = auth, pe_resilience = resilience, pe_retriableStatusCodes = codes\<rparr> }"

definition HttpProvidersConfigSchema ::
  "(string \<Rightarrow> bool) \<Rightarrow> (string, provider_input) js_map \<Rightarrow> (string, provider_entry) js_map option" where
  "HttpProvidersConfigSchema is_url m =
     those (map (\<lambda>(k, inp). map_option (Pair k) (HttpProviderEntrySchema is_url inp)) m)"

definition createProvidersSchema ::
  "(string \<Rightarrow> bool) \<Rightarrow> string list \<Rightarrow> (string, provider_input) js_map \<Rightarrow> (string, provider_entry) js_map option" where
  "createProvidersSchema is_url keys m =
     those (map (\<lambda>k. Option.bind (map_of m k) (\<lambda>inp. map_option (Pair k) (HttpProviderEntrySchema is_url inp))) (remdups keys))"

text \<open>A parsed entry, written out again as the schema's input.\<close>

definition resilience_input_of :: "resilience_config \<Rightarrow> resilience_input" where
  "resilience_input_of cfg =
     \<lparr>in_timeout = map_option (\<lambda>t. Some (to_ms t)) (cf_timeout cfg),
      in_retry = map_option (\<lambda>r. (Some (rc_count r), Some (rc_backoffMs r))) (cf_retry cfg),
      in_circuitBreaker = map_option (\<lambda>b. (Some (cb_halfOpenAfterMs b), Some (cb_threshold b),
         Some (cb_samplingDurationMs b), Some (cb_minimumThroughput b))) (cf_circuitBreaker cfg)\<rparr>"

definition provider_input_of :: "provider_entry \<Rightarrow> provider_input" where
  "provider_input_of e =
     \<lparr>pi_baseURL = Some (JStr (pe_baseURL e)), pi_auth = map_option http_auth_json (pe_auth e),
      pi_resilience = map_option resilience_input_of (pe_resilience e),
      pi_retriableStatusCodes = Some (JArr (map JNum (pe_retriableStatusCodes e)))\<rparr>"

lemma int_field_given [simp]: "int_field lo d (Some v) = (if lo \<le> v then Some v else None)"
  by (simp add: int_field_def with_default_def Let_def)

lemma int_field_min: "int_field lo d x = Some v \<Longrightarrow> lo \<le> v"
  by (auto simp: int_field_def with_default_def Let_def split: if_splits)

lemma parse_timeout_again: "parse_timeout x = Some t \<Longrightarrow> parse_timeout (Some (to_ms t)) = Some t"
  by (auto simp: parse_timeout_def dest!: int_field_min)

lemma parse_retry_again: "parse_retry x = Some r \<Longrightarrow> parse_retry (Some (rc_count r), Some (rc_backoffMs r)) = Some r"
  by (auto simp: parse_retry_def split: prod.splits option.splits dest!: int_field_min)

lemma parse_breaker_again:
  "parse_breaker x = Some b \<Longrightarrow> parse_breaker (Some (cb_halfOpenAfterMs b), Some (cb_threshold b),
     Some (cb_samplingDurationMs b), Some (cb_minimumThroughput b)) = Some b"
  by (auto simp: parse_breaker_def with_default_def Let_def split: prod.splits option.splits if_splits dest!: int_field_min)

lemma optional_section_again:
  "optional_section p x = Some y \<Longrightarrow> (\<And>i c. p i = Some c \<Longrightarrow> p (g c) = Some c) \<Longrightarrow> optional_section p (map_option g y) = Some y"
  by (auto simp: optional_section_def split: option.splits)

lemma parse_config_again: "parse_config inp = Some cfg \<Longrightarrow> parse_config (resilience_input_of cfg) = Some cfg"
proof -
  assume "parse_config inp = Some cfg"
  then obtain t r b where "optional_section parse_timeout (in_timeout inp) = Some t"
    "optional_section parse_retry (in_retry inp) = Some r" "optional_section parse_breaker (in_circuitBreaker inp) = Some b"
    and cfg: "cfg = \<lparr>cf_timeout = t, cf_retry = r, cf_circuitBreaker = b\<rparr>"
    by (auto simp: parse_config_def split: option.splits)
  then have "optional_section parse_timeout (map_option (\<lambda>t. Some (to_ms t)) t) = Some t"
    "optional_section parse_retry (map_option (\<lambda>r. (Some (rc_count r), Some (rc_backoffMs r))) r) = Some r"
    "optional_section parse_breaker (map_option (\<lambda>b. (Some (cb_halfOpenAfterMs b), Some (cb_threshold b),
         Some (cb_samplingDurationMs b), Some (cb_minimumThroughput b))) b) = Some b"
    by (auto intro: optional_section_again parse_timeout_again parse_retry_again parse_breaker_again)
  then show ?thesis by (simp add: cfg parse_config_def resilience_input_of_def)
qed

text \<open>
  Parsing an entry is idempotent: an entry that went through the schema when the configuration was
  loaded passes the factory's own parse untouched, with every default it was given the first time.
\<close>

theorem provider_entry_reparses:
  assumes "HttpProviderEntrySchema is_url inp = Some e"
  shows "HttpProviderEntrySchema is_url (provider_input_of e) = Some e"
proof -
  from assms have u: "z_url is_url (pi_baseURL inp) = Some (pe_baseURL e)"
    and a: "z_optional (HttpAuthConfigSchema is_url) (pi_auth inp) = Some (pe_auth e)"
    and r: "optional_section parse_config (pi_resilience inp) = Some (pe_resilience e)"
    and c: "z_default DEFAULT_RETRIABLE_STATUS_CODES (z_array z_int) (pi_retriableStatusCodes inp) = Some (pe_retriableStatusCodes e)"
    by (auto simp: HttpProviderEntrySchema_def bind_Some simp del: z_simps)
  have "z_array z_int (Some (JArr (map JNum ns))) = Some ns" for ns
    by (simp add: those_Some z_int_def)
  moreover note reparsesD [OF reparses_base(4) u] reparses_optional [OF reparses_http_auth a]
    optional_section_again [OF r parse_config_again]
  ultimately show ?thesis
    by (simp add: HttpProviderEntrySchema_def provider_input_of_def del: z_simps(10))
qed

definition sample_provider :: provider_input where
  "sample_provider = \<lparr>pi_baseURL = Some (JStr ''https://api''),
     pi_auth = Some (JObj [(''strategy'', JStr ''token-exchange''),
       (''request'', JObj [(''url'', JStr ''https://login'')]), (''tokenExtractor'', JStr ''access_token''),
       (''transport'', JObj [(''headers'', JArr [JObj [(''name'', JStr ''Authorization''), (''credential'', JStr ''value'')]])])]),
     pi_resilience = Some \<lparr>in_timeout = Some None, in_retry = None, in_circuitBreaker = Some (None, None, None, None)\<rparr>,
     pi_retriableStatusCodes = None\<rparr>"

lemma sample_provider_parses:
  "HttpProviderEntrySchema (\<lambda>_. True) sample_provider = Some
     \<lparr>pe_baseURL = ''https://api'',
      pe_auth = Some (Token_Exchange_Auth \<lparr>tr_method = ''POST'', tr_url = ''https://login'', tr_headers = None, tr_queryParams = None, tr_body = None\<rparr>
        [(''access_token'', ''value'')]
        \<lparr>tc_headers = Some [Credential_Entry ''Authorization'' ''value'' None None], tc_queryParams = None\<rparr>),
      pe_resilience = Some \<lparr>cf_timeout = Some \<lparr>to_ms = 5000\<rparr>, cf_retry = None,
        cf_circuitBreaker = Some \<lparr>cb_halfOpenAfterMs = 10000, cb_threshold = 1 / 2, cb_samplingDurationMs = 10000, cb_minimumThroughput = 5\<rparr>\<rparr>,
      pe_retriableStatusCodes = [500, 502, 503, 504]\<rparr>"
  by (simp add: sample_provider_def HttpProviderEntrySchema_def HttpAuthConfigSchema_def z_union_def
      KubernetesServiceAccountAuthSchema_def TokenExchangeAuthSchema_def TokenExchangeRequestSchema_def z_literal_def
      TokenExtractorSchema_def TransportSchema_def TransportEntrySchema_def CredentialEntrySchema_def
      optional_section_def parse_config_def parse_timeout_def parse_breaker_def int_field_def with_default_def Let_def
      DEFAULT_RETRIABLE_STATUS_CODES_def)

lemma provider_entry_reparses_witness:
  "\<exists>e. HttpProviderEntrySchema (\<lambda>_. True) sample_provider = Some e
     \<and> HttpProviderEntrySchema (\<lambda>_. True) (provider_input_of e) = Some e"
  using provider_entry_reparses [OF sample_provider_parses] sample_provider_parses by blast

subsection \<open>Requests and their failures\<close>

text \<open>An adapter of axios, or the one that runs another under a policy.\<close>

datatype adapter = Plain_Adapter nat | Policy_Adapter nat adapter

record 'h request_config =
  rc_method :: string
  rc_url :: string
  rc_data :: "json option"
  rc_headers :: 'h
  rc_params :: "(string, json) js_map option"
  rc_signal :: "signal option"
  rc_adapter :: "adapter option"
  rc_resilienceBaseAdapter :: "adapter option"
  rc_retried :: bool

text \<open>
  What a request rejects with: an error of axios (the status of a response, the code, the
  configuration of the request it is about), the two errors of the policy, or anything else.
\<close>

datatype 'h http_failure =
    Axios_Error "int option" "string option" "'h request_config option"
  | Broken_Circuit
  | Task_Cancelled
  | Other_Failure thrown

definition isRetriableHttpError :: "'h http_failure \<Rightarrow> int list \<Rightarrow> bool" where
  "isRetriableHttpError error statusCodes =
     (case error of
        Axios_Error (Some status) _ _ \<Rightarrow> status \<in> set statusCodes
      | Axios_Error None code _ \<Rightarrow> code \<noteq> Some ''ERR_CANCELED''
      | _ \<Rightarrow> False)"

subsection \<open>The factory\<close>

datatype 'i strategy =
    No_Strategy
  | Kubernetes_Strategy string
  | Token_Exchange_Strategy token_request "(string \<times> string) list" 'i
  | Jwt_Self_Signed_Strategy jwt_key string jwt_claims

text \<open>
  An instance with its interceptors, in the order they were registered. A policy is named by the
  number of policies created before it.
\<close>

datatype 'h axios_instance =
    Axios_Instance (ai_baseURL: "string option") (ai_request: "'h request_interceptor list")
      (ai_response: "'h response_interceptor list")
and 'h request_interceptor =
    Log_Request string
  | Apply_Credentials "'h axios_instance strategy" transport_config
  | Wrap_Adapter nat "'h http_failure policy"
and 'h response_interceptor =
    Log_Response string
  | Retry_Unauthorized "'h axios_instance strategy"
  | Translate_Errors string

datatype instance_role = Client_Role | Auth_Role

definition use_request :: "'h request_interceptor \<Rightarrow> 'h axios_instance \<Rightarrow> 'h axios_instance" where
  "use_request i inst = Axios_Instance (ai_baseURL inst) (ai_request inst @ [i]) (ai_response inst)"

definition use_response :: "'h response_interceptor \<Rightarrow> 'h axios_instance \<Rightarrow> 'h axios_instance" where
  "use_response i inst = Axios_Instance (ai_baseURL inst) (ai_request inst) (ai_response inst @ [i])"

lemma use_simps [simp]:
  "ai_request (use_request i inst) = ai_request inst @ [i]" "ai_response (use_request i inst) = ai_response inst"
  "ai_request (use_response j inst) = ai_request inst" "ai_response (use_response j inst) = ai_response inst @ [j]"
  by (simp_all add: use_request_def use_response_def)

record 'h http_factory =
  hf_clients :: "(string, 'h axios_instance) js_map"
  hf_breakers :: "(string, nat) js_map"
  hf_created :: nat

type_synonym 'h instance_hook = "string \<Rightarrow> instance_role \<Rightarrow> 'h axios_instance \<Rightarrow> 'h axios_instance"

definition configureResilience ::
  "provider_entry \<Rightarrow> string option \<Rightarrow> 'h axios_instance \<Rightarrow> (thrown, 'h axios_instance, 'h http_factory) action" where
  "configureResilience entry recordBreakerAs inst f =
     (case pe_resilience entry of
        None \<Rightarrow> (Inr inst, f)
      | Some resilience \<Rightarrow>
          (case createResiliencePolicy (resilience_input_of resilience)
                  (Some (\<lambda>error. isRetriableHttpError error (pe_retriableStatusCodes entry))) of
             Inl e \<Rightarrow> (Inl e, f)
           | Inr pol \<Rightarrow>
               (Inr (use_request (Wrap_Adapter (hf_created f) pol) inst),
                f\<lparr>hf_created := hf_created f + 1,
                  hf_breakers := (case recordBreakerAs of
                      Some key \<Rightarrow> if cf_circuitBreaker resilience \<noteq> None
                        then AList.update key (hf_created f) (hf_breakers f) else hf_breakers f
                    | None \<Rightarrow> hf_breakers f)\<rparr>)))"

definition createAuthClient ::
  "'h instance_hook \<Rightarrow> provider_entry \<Rightarrow> string \<Rightarrow> (thrown, 'h axios_instance, 'h http_factory) action" where
  "createAuthClient hook entry key = configureResilience entry None (hook key Auth_Role (Axios_Instance None [] []))"

definition createStrategy ::
  "'h instance_hook \<Rightarrow> provider_entry \<Rightarrow> string \<Rightarrow> (thrown, 'h axios_instance strategy, 'h http_factory) action" where
  "createStrategy hook entry key =
     (case pe_auth entry of
        None \<Rightarrow> returning No_Strategy
      | Some (No_Auth _ _) \<Rightarrow> returning No_Strategy
      | Some (Kubernetes_Auth tokenPath _) \<Rightarrow> returning (Kubernetes_Strategy tokenPath)
      | Some (Token_Exchange_Auth request extractors _) \<Rightarrow>
          and_then (createAuthClient hook entry key) (\<lambda>client. returning (Token_Exchange_Strategy request extractors client))
      | Some (Jwt_Self_Signed_Auth jkey algorithm claims _) \<Rightarrow> returning (Jwt_Self_Signed_Strategy jkey algorithm claims))"

definition resolveTransport :: "provider_entry \<Rightarrow> transport_config option" where
  "resolveTransport entry =
     (case pe_auth entry of
        None \<Rightarrow> None
      | Some (No_Auth _ transport) \<Rightarrow> transport
      | Some (Kubernetes_Auth _ transport) \<Rightarrow> Some transport
      | Some (Token_Exchange_Auth _ _ transport) \<Rightarrow> Some transport
      | Some (Jwt_Self_Signed_Auth _ _ _ transport) \<Rightarrow> Some transport)"

definition attachAuthInterceptor ::
  "'h axios_instance strategy \<Rightarrow> transport_config \<Rightarrow> 'h axios_instance \<Rightarrow> 'h axios_instance" where
  "attachAuthInterceptor strategy transport inst =
     use_response (Retry_Unauthorized strategy) (use_request (Apply_Credentials strategy transport) inst)"

definition createInstance ::
  "(string \<Rightarrow> bool) \<Rightarrow> 'h instance_hook \<Rightarrow> provider_input \<Rightarrow> string
     \<Rightarrow> (thrown, 'h axios_instance, 'h http_factory) action" where
  "createInstance is_url hook rawEntry key =
     (case HttpProviderEntrySchema is_url rawEntry of
        None \<Rightarrow> throwing (JsError ''ZodError'' ''Invalid input'')
      | Some entry \<Rightarrow>
          (let inst = hook key Client_Role (Axios_Instance (Some (pe_baseURL entry)) [] []) in
           and_then (createStrategy hook entry key) (\<lambda>strategy.
           configureResilience entry (Some key)
             (case resolveTransport entry of None \<Rightarrow> inst | Some t \<Rightarrow> attachAuthInterceptor strategy t inst))))"

definition factory_get ::
  "(string \<Rightarrow> bool) \<Rightarrow> 'h instance_hook \<Rightarrow> (string, provider_input) js_map \<Rightarrow> string
     \<Rightarrow> (thrown, 'h axios_instance, 'h http_factory) action" where
  "factory_get is_url hook config key f =
     (case map_of (hf_clients f) key of
        Some client \<Rightarrow> (Inr client, f)
      | None \<Rightarrow>
          (case map_of config key of
             None \<Rightarrow> (Inl (PlainError (''HTTP provider \"'' @ key @ ''\" is not configured'')), f)
           | Some entry \<Rightarrow>
               and_then (createInstance is_url hook entry key) (\<lambda>client.
               and_then (doing (\<lambda>f. f\<lparr>hf_clients := AList.update key client (hf_clients f)\<rparr>)) (\<lambda>_.
               returning client)) f))"

text \<open>A parsed entry builds a client: its policies are accepted, and the clients built before stay.\<close>

lemma configureResilience_ok:
  fixes f :: "'h http_factory"
  assumes "HttpProviderEntrySchema is_url inp = Some entry"
  obtains inst' f' where "configureResilience entry k inst f = (Inr inst', f')"
    "hf_clients f' = hf_clients f" "ai_response inst' = ai_response inst"
    "ai_request inst' = ai_request inst \<or> (\<exists>n pol. ai_request inst' = ai_request inst @ [Wrap_Adapter n pol])"
    "dom (map_of (hf_breakers f')) = dom (map_of (hf_breakers f))
       \<union> (case k of Some key \<Rightarrow> if Option.bind (pe_resilience entry) cf_circuitBreaker = None then {} else {key} | None \<Rightarrow> {})"
proof (cases "pe_resilience entry")
  case None
  then show thesis by (intro that [of inst f]) (auto simp: configureResilience_def split: option.splits)
next
  case (Some r)
  with assms have "optional_section parse_config (pi_resilience inp) = Some (Some r)"
    by (auto simp: HttpProviderEntrySchema_def bind_Some)
  then have "\<exists>i. parse_config i = Some r" by (auto simp: optional_section_def split: option.splits)
  then have "parse_config (resilience_input_of r) = Some r" using parse_config_again by blast
  then obtain pol where pol: "createResiliencePolicy (resilience_input_of r)
      (Some (\<lambda>error. isRetriableHttpError error (pe_retriableStatusCodes entry))) = Inr (pol :: 'h http_failure policy)"
    by (simp add: createResiliencePolicy_def)
  let ?f = "snd (configureResilience entry k inst f)"
  show thesis
  proof (rule that)
    show "configureResilience entry k inst f = (Inr (use_request (Wrap_Adapter (hf_created f) pol) inst), ?f)"
      by (simp add: configureResilience_def Some pol)
  qed (auto simp: configureResilience_def pol Some update_conv' split: option.splits)
qed

lemma createStrategy_ok:
  fixes f :: "'h http_factory"
  assumes "HttpProviderEntrySchema is_url inp = Some entry"
  obtains strategy f' where "createStrategy hook entry key f = (Inr strategy, f')"
    "hf_clients f' = hf_clients f" "dom (map_of (hf_breakers f')) = dom (map_of (hf_breakers f))"
proof -
  obtain c f1 where client: "createAuthClient hook entry key f = (Inr c, f1)" "hf_clients f1 = hf_clients f"
    "dom (map_of (hf_breakers f1)) = dom (map_of (hf_breakers f))"
    by (rule configureResilience_ok [OF assms, of None "hook key Auth_Role (Axios_Instance None [] [])" f])
      (auto simp: createAuthClient_def)
  show thesis
  proof (cases "pe_auth entry")
    case None
    then show thesis by (intro that [of No_Strategy f]) (simp_all add: createStrategy_def)
  next
    case (Some a)
    then show thesis
      using client by (cases a) (simp_all add: createStrategy_def that)
  qed
qed

lemma createInstance_ok:
  fixes f :: "'h http_factory"
  assumes parsed: "HttpProviderEntrySchema is_url inp = Some entry"
  obtains inst strategy f' where "createInstance is_url hook inp key f = (Inr inst, f')"
    "hf_clients f' = hf_clients f"
    "ai_response inst = ai_response (hook key Client_Role (Axios_Instance (Some (pe_baseURL entry)) [] []))
       @ (if resolveTransport entry = None then [] else [Retry_Unauthorized strategy])"
    "dom (map_of (hf_breakers f')) = dom (map_of (hf_breakers f))
       \<union> (if Option.bind (pe_resilience entry) cf_circuitBreaker = None then {} else {key})"
proof -
  let ?inst = "hook key Client_Role (Axios_Instance (Some (pe_baseURL entry)) [] [])"
  obtain strategy f1 where st: "createStrategy hook entry key f = (Inr strategy, f1)" "hf_clients f1 = hf_clients f"
    "dom (map_of (hf_breakers f1)) = dom (map_of (hf_breakers f))"
    by (rule createStrategy_ok [OF parsed])
  let ?with = "case resolveTransport entry of None \<Rightarrow> ?inst | Some t \<Rightarrow> attachAuthInterceptor strategy t ?inst"
  obtain inst f2 where conf: "configureResilience entry (Some key) ?with f1 = (Inr inst, f2)" "hf_clients f2 = hf_clients f1"
    "ai_response inst = ai_response ?with"
    "dom (map_of (hf_breakers f2)) = dom (map_of (hf_breakers f1))
       \<union> (if Option.bind (pe_resilience entry) cf_circuitBreaker = None then {} else {key})"
    by (rule configureResilience_ok [OF parsed, of "Some key" ?with f1]) simp
  show thesis
  proof (rule that)
    show "createInstance is_url hook inp key f = (Inr inst, f2)"
      by (simp add: createInstance_def parsed Let_def st conf(1))
    show "ai_response inst = ai_response ?inst @ (if resolveTransport entry = None then [] else [Retry_Unauthorized strategy])"
      using conf(3) by (auto simp: attachAuthInterceptor_def split: option.splits)
  qed (use st conf in auto)
qed

lemma createInstance_fails: "HttpProviderEntrySchema is_url inp = None \<Longrightarrow> createInstance is_url hook inp key f = (Inl (JsError ''ZodError'' ''Invalid input''), f)"
  by (simp add: createInstance_def)

lemma factory_get_cases:
  fixes f :: "'h http_factory"
  obtains client where "map_of (hf_clients f) key = Some client" "factory_get is_url hook config key f = (Inr client, f)"
  | e where "map_of (hf_clients f) key = None" "factory_get is_url hook config key f = (Inl e, f)"
      "Option.bind (map_of config key) (HttpProviderEntrySchema is_url) = None"
  | inp entry client strategy f' where "map_of (hf_clients f) key = None" "map_of config key = Some inp"
      "HttpProviderEntrySchema is_url inp = Some entry"
      "factory_get is_url hook config key f = (Inr client, f')"
      "hf_clients f' = AList.update key client (hf_clients f)"
      "ai_response client = ai_response (hook key Client_Role (Axios_Instance (Some (pe_baseURL entry)) [] []))
         @ (if resolveTransport entry = None then [] else [Retry_Unauthorized strategy])"
      "dom (map_of (hf_breakers f')) = dom (map_of (hf_breakers f))
         \<union> (if Option.bind (pe_resilience entry) cf_circuitBreaker = None then {} else {key})"
proof (cases "map_of (hf_clients f) key")
  case (Some client)
  then show thesis by (intro that(1)) (simp_all add: factory_get_def)
next
  case none: None
  show thesis
  proof (cases "map_of config key")
    case None
    with none show thesis by (intro that(2)) (simp_all add: factory_get_def)
  next
    case config: (Some inp)
    show thesis
    proof (cases "HttpProviderEntrySchema is_url inp")
      case None
      with none config show thesis by (intro that(2)) (simp_all add: factory_get_def createInstance_fails)
    next
      case (Some entry)
      obtain inst strategy f1 where "createInstance is_url hook inp key f = (Inr inst, f1)" "hf_clients f1 = hf_clients f"
        "ai_response inst = ai_response (hook key Client_Role (Axios_Instance (Some (pe_baseURL entry)) [] []))
           @ (if resolveTransport entry = None then [] else [Retry_Unauthorized strategy])"
        "dom (map_of (hf_breakers f1)) = dom (map_of (hf_breakers f))
           \<union> (if Option.bind (pe_resilience entry) cf_circuitBreaker = None then {} else {key})"
        by (rule createInstance_ok [OF Some])
      with none config show thesis
        by (intro that(3) [OF none config Some, where f' = "f1\<lparr>hf_clients := AList.update key inst (hf_clients f1)\<rparr>"])
          (simp_all add: factory_get_def)
    qed
  qed
qed

interpretation http_clients: memo_factory "factory_get is_url hook config" "\<lambda>f. map_of (hf_clients f)" for is_url hook config
proof
  fix f :: "'a http_factory" and key client f' e
  show "factory_get is_url hook config key f = (Inr client, f)" if "map_of (hf_clients f) key = Some client"
    using that by (simp add: factory_get_def)
  show "map_of (hf_clients f') = (map_of (hf_clients f))(key \<mapsto> client)"
    if "map_of (hf_clients f) key = None" "factory_get is_url hook config key f = (Inr client, f')"
    by (rule factory_get_cases [of f key is_url hook config]) (use that in \<open>auto simp: update_conv'\<close>)
  show "f' = f" if "factory_get is_url hook config key f = (Inl e, f')"
    by (rule factory_get_cases [of f key is_url hook config]) (use that in auto)
qed

definition breakers_ok :: "(string \<Rightarrow> bool) \<Rightarrow> (string, provider_input) js_map \<Rightarrow> 'h http_factory \<Rightarrow> bool" where
  "breakers_ok is_url config f \<longleftrightarrow> (\<forall>key. map_of (hf_breakers f) key \<noteq> None \<longleftrightarrow>
     map_of (hf_clients f) key \<noteq> None
     \<and> Option.bind (Option.bind (Option.bind (map_of config key) (HttpProviderEntrySchema is_url)) pe_resilience) cf_circuitBreaker \<noteq> None)"

lemma breakers_ok_get: "breakers_ok is_url config f \<Longrightarrow> breakers_ok is_url config (snd (factory_get is_url hook config key f))"
proof (rule factory_get_cases [of f key is_url hook config])
  fix inp entry client strategy f'
  assume ok: "breakers_ok is_url config f" and r: "map_of (hf_clients f) key = None" "map_of config key = Some inp"
    "HttpProviderEntrySchema is_url inp = Some entry" "factory_get is_url hook config key f = (Inr client, f')"
    "hf_clients f' = AList.update key client (hf_clients f)"
    "dom (map_of (hf_breakers f')) = dom (map_of (hf_breakers f))
       \<union> (if Option.bind (pe_resilience entry) cf_circuitBreaker = None then {} else {key})"
  have dom: "map_of (hf_breakers f') k \<noteq> None \<longleftrightarrow> map_of (hf_breakers f) k \<noteq> None
      \<or> (k = key \<and> Option.bind (pe_resilience entry) cf_circuitBreaker \<noteq> None)" for k
    using r(6) by (auto simp: dom_def set_eq_iff split: if_splits)
  show "breakers_ok is_url config (snd (factory_get is_url hook config key f))"
    unfolding r(4) snd_conv breakers_ok_def dom r(5) update_conv' using ok r(1-3) by (auto simp: breakers_ok_def)
qed simp_all

text \<open>
  The breakers a factory reports are exactly those of the clients it has built whose configuration
  has a circuit breaker, whatever keys were asked for and whichever of those requests failed.
\<close>

theorem breakers_of_built_clients:
  "map_of (hf_breakers (fold (\<lambda>k f. snd (factory_get is_url hook config k f)) keys \<lparr>hf_clients = [], hf_breakers = [], hf_created = 0\<rparr>)) key \<noteq> None
   \<longleftrightarrow> map_of (hf_clients (fold (\<lambda>k f. snd (factory_get is_url hook config k f)) keys \<lparr>hf_clients = [], hf_breakers = [], hf_created = 0\<rparr>)) key \<noteq> None
     \<and> Option.bind (Option.bind (Option.bind (map_of config key) (HttpProviderEntrySchema is_url)) pe_resilience) cf_circuitBreaker \<noteq> None"
proof -
  have "breakers_ok is_url config (fold (\<lambda>k f. snd (factory_get is_url hook config k f)) keys f)"
    if "breakers_ok is_url config f" for f :: "'a http_factory"
    using that by (induction keys arbitrary: f) (simp_all add: breakers_ok_get)
  then show ?thesis by (auto simp: breakers_ok_def)
qed

subsection \<open>The service\<close>

text \<open>
  \<^verbatim>\<open>packages/tsed-http-provider\<close>. The redactable sections of a log configuration are the redaction
  library's schema: \<open>sections_ok\<close> is whether it accepts the fields.
\<close>

record external_api = provider_input +
  xa_logging :: "json option"

record log_config =
  lc_enabled :: bool
  lc_stack :: bool

record service_env =
  se_is_url :: "string \<Rightarrow> bool"
  se_sections_ok :: "(string \<Rightarrow> json option) \<Rightarrow> bool"
  se_has_logger :: bool
  se_externalApis :: "(string, external_api) js_map"

definition HttpLogConfigSchema :: "((string \<Rightarrow> json option) \<Rightarrow> bool) \<Rightarrow> log_config parser" where
  "HttpLogConfigSchema sections_ok = z_default \<lparr>lc_enabled = True, lc_stack = False\<rparr> (z_object (\<lambda>field. do {
     enabled \<leftarrow> z_default True z_bool (field ''enabled'');
     stack \<leftarrow> z_default False z_bool (field ''stack'');
     if sections_ok field then Some \<lparr>lc_enabled = enabled, lc_stack = stack\<rparr> else None }))"

definition ExternalApiEntrySchema ::
  "(string \<Rightarrow> bool) \<Rightarrow> ((string \<Rightarrow> json option) \<Rightarrow> bool) \<Rightarrow> external_api \<Rightarrow> (provider_entry \<times> log_config) option" where
  "ExternalApiEntrySchema is_url sections_ok api = do {
     entry \<leftarrow> HttpProviderEntrySchema is_url (provider_input.truncate api);
     logging \<leftarrow> HttpLogConfigSchema sections_ok (xa_logging api);
     Some (entry, logging) }"

definition createExternalApisSchema ::
  "(string \<Rightarrow> bool) \<Rightarrow> ((string \<Rightarrow> json option) \<Rightarrow> bool) \<Rightarrow> string list \<Rightarrow> (string, external_api) js_map
     \<Rightarrow> (string, provider_entry \<times> log_config) js_map option" where
  "createExternalApisSchema is_url sections_ok keys m =
     those (map (\<lambda>k. Option.bind (map_of m k) (\<lambda>api. map_option (Pair k) (ExternalApiEntrySchema is_url sections_ok api))) (remdups keys))"

definition attachRequestLogging :: "log_config \<Rightarrow> string \<Rightarrow> 'h axios_instance \<Rightarrow> 'h axios_instance" where
  "attachRequestLogging config providerKey inst =
     (if \<not> lc_enabled config then inst
      else use_response (Log_Response providerKey) (use_request (Log_Request providerKey) inst))"

definition attachLogging :: "bool \<Rightarrow> (string, log_config) js_map \<Rightarrow> 'h instance_hook" where
  "attachLogging has_logger logging key role inst =
     (case map_of logging key of
        None \<Rightarrow> inst
      | Some config \<Rightarrow>
          if \<not> has_logger then inst
          else attachRequestLogging config (if role = Auth_Role then key @ '':auth'' else key) inst)"

text \<open>The entries \<open>createFactory\<close> parses before it builds the factory; any refused one throws.\<close>

definition logging_of :: "service_env \<Rightarrow> (string, log_config) js_map option" where
  "logging_of env = those (map (\<lambda>(key, api). map_option (\<lambda>(_, l). (key, l))
     (ExternalApiEntrySchema (se_is_url env) (se_sections_ok env) api)) (se_externalApis env))"

definition provider_config :: "service_env \<Rightarrow> (string, provider_input) js_map" where
  "provider_config env = map (\<lambda>(key, api). (key, provider_input.truncate api)) (se_externalApis env)"

record 'h http_service =
  hs_factory :: "'h http_factory option"
  hs_translated :: "string list"

definition new_service :: "'h http_service" where
  "new_service = \<lparr>hs_factory = None, hs_translated = []\<rparr>"

definition empty_factory :: "'h http_factory" where
  "empty_factory = \<lparr>hf_clients = [], hf_breakers = [], hf_created = 0\<rparr>"

definition attachErrorTranslation :: "string \<Rightarrow> 'h axios_instance \<Rightarrow> 'h axios_instance" where
  "attachErrorTranslation api inst = use_response (Translate_Errors api) inst"

text \<open>The client handed out is the object in the factory's map, so attaching to it changes it there.\<close>

definition service_get :: "service_env \<Rightarrow> string \<Rightarrow> (thrown, 'h axios_instance, 'h http_service) action" where
  "service_get env key s =
     (case logging_of env of
        None \<Rightarrow> (Inl (JsError ''ZodError'' ''Invalid input''), s)
      | Some logging \<Rightarrow>
          (case factory_get (se_is_url env) (attachLogging (se_has_logger env) logging) (provider_config env) key
                  (case hs_factory s of None \<Rightarrow> empty_factory | Some f \<Rightarrow> f) of
             (Inl e, f) \<Rightarrow> (Inl e, s\<lparr>hs_factory := Some f\<rparr>)
           | (Inr client, f) \<Rightarrow>
               if key \<in> set (hs_translated s) then (Inr client, s\<lparr>hs_factory := Some f\<rparr>)
               else (let client' = attachErrorTranslation key client in
                     (Inr client', s\<lparr>hs_factory := Some (f\<lparr>hf_clients := AList.update key client' (hf_clients f)\<rparr>),
                                     hs_translated := set_add key (hs_translated s)\<rparr>))))"

text \<open>The breakers of the clients built so far; asking for them builds the factory when there is none.\<close>

definition service_breakers :: "service_env \<Rightarrow> (thrown, (string, nat) js_map, 'h http_service) action" where
  "service_breakers env s =
     (case hs_factory s of
        Some f \<Rightarrow> (Inr (hf_breakers f), s)
      | None \<Rightarrow>
          (case logging_of env of
             None \<Rightarrow> (Inl (JsError ''ZodError'' ''Invalid input''), s)
           | Some _ \<Rightarrow> (Inr [], s\<lparr>hs_factory := Some empty_factory\<rparr>)))"

definition logs :: "service_env \<Rightarrow> string \<Rightarrow> bool" where
  "logs env key \<longleftrightarrow> se_has_logger env
     \<and> (case Option.bind (logging_of env) (\<lambda>m. map_of m key) of Some c \<Rightarrow> lc_enabled c | None \<Rightarrow> False)"

definition provider_entry_of :: "service_env \<Rightarrow> string \<Rightarrow> provider_entry option" where
  "provider_entry_of env key = Option.bind (map_of (provider_config env) key) (HttpProviderEntrySchema (se_is_url env))"

definition ordered_client :: "service_env \<Rightarrow> string \<Rightarrow> 'h axios_instance \<Rightarrow> bool" where
  "ordered_client env key client \<longleftrightarrow> (\<exists>entry strategy. provider_entry_of env key = Some entry
     \<and> ai_response client = (if logs env key then [Log_Response key] else [])
         @ (if resolveTransport entry = None then [] else [Retry_Unauthorized strategy]) @ [Translate_Errors key])"

definition service_ok :: "service_env \<Rightarrow> 'h http_service \<Rightarrow> bool" where
  "service_ok env s \<longleftrightarrow> (\<forall>f key client. hs_factory s = Some f \<longrightarrow> map_of (hf_clients f) key = Some client
       \<longrightarrow> key \<in> set (hs_translated s) \<and> ordered_client env key client)
     \<and> (\<forall>key \<in> set (hs_translated s). \<exists>f. hs_factory s = Some f \<and> map_of (hf_clients f) key \<noteq> None)"

lemma hook_response:
  assumes "logging_of env = Some logging"
  shows "ai_response (attachLogging (se_has_logger env) logging key Client_Role (Axios_Instance b [] []))
    = (if logs env key then [Log_Response key] else [])"
  using assms by (auto simp: attachLogging_def attachRequestLogging_def logs_def split: option.splits)

lemma service_get_spec:
  fixes s :: "'h http_service"
  assumes ok: "service_ok env s" and run: "service_get env key s = (r, s')"
  shows "service_ok env s' \<and> (\<forall>client. r = Inr client \<longrightarrow> ordered_client env key client)"
proof (cases "logging_of env")
  case None
  with ok run show ?thesis by (auto simp: service_get_def)
next
  case (Some logging)
  let ?f = "case hs_factory s of None \<Rightarrow> empty_factory | Some f \<Rightarrow> f"
  let ?get = "factory_get (se_is_url env) (attachLogging (se_has_logger env) logging) (provider_config env) key ?f"
  have old: "key' \<in> set (hs_translated s) \<and> ordered_client env key' client"
    if "map_of (hf_clients ?f) key' = Some client" for key' client
    using ok that by (cases "hs_factory s") (auto simp: service_ok_def empty_factory_def)
  have known: "map_of (hf_clients ?f) key' \<noteq> None" if "key' \<in> set (hs_translated s)" for key'
    using ok that by (auto simp: service_ok_def)
  show ?thesis
  proof (rule factory_get_cases [of ?f key "se_is_url env" "attachLogging (se_has_logger env) logging" "provider_config env"])
    fix client assume "map_of (hf_clients ?f) key = Some client" "?get = (Inr client, ?f)"
    with old [of key client] run Some have "r = Inr client" "s' = s\<lparr>hs_factory := Some ?f\<rparr>" "ordered_client env key client"
      by (auto simp: service_get_def)
    with old known show ?thesis by (auto simp: service_ok_def)
  next
    fix e assume "?get = (Inl e, ?f)"
    with run Some have "r = Inl e" "s' = s\<lparr>hs_factory := Some ?f\<rparr>" by (auto simp: service_get_def)
    with old known show ?thesis by (auto simp: service_ok_def)
  next
    fix inp entry client strategy f'
    assume new: "map_of (hf_clients ?f) key = None" and entry: "map_of (provider_config env) key = Some inp"
        "HttpProviderEntrySchema (se_is_url env) inp = Some entry"
      and get: "?get = (Inr client, f')" and f': "hf_clients f' = AList.update key client (hf_clients ?f)"
      and resp: "ai_response client = ai_response (attachLogging (se_has_logger env) logging key Client_Role
            (Axios_Instance (Some (pe_baseURL entry)) [] []))
          @ (if resolveTransport entry = None then [] else [Retry_Unauthorized strategy])"
    let ?c = "attachErrorTranslation key client"
    have "key \<notin> set (hs_translated s)" using known new by blast
    with run Some get have r: "r = Inr ?c"
      and s': "s' = s\<lparr>hs_factory := Some (f'\<lparr>hf_clients := AList.update key ?c (hf_clients f')\<rparr>), hs_translated := set_add key (hs_translated s)\<rparr>"
      by (simp_all add: service_get_def Let_def)
    have "ordered_client env key ?c"
      using entry resp by (auto simp: ordered_client_def provider_entry_of_def attachErrorTranslation_def hook_response [OF Some])
    with old known new show ?thesis
      unfolding r s' by (auto simp: service_ok_def f' update_conv' split: if_splits)
  qed
qed

text \<open>
  The order of the interceptors. Whatever APIs were asked for before, and however often, the client
  handed out for a key runs its response interceptors in this order: the log, which sees the raw
  failure; the handler that replays a refused request, when the API has a transport; and, once, the
  translation into this service's own status.
\<close>

theorem interceptors_in_order:
  assumes "service_get env key (fold (\<lambda>k s. snd (service_get env k s)) keys new_service) = (Inr client, s')"
  shows "\<exists>entry strategy. provider_entry_of env key = Some entry
    \<and> ai_response client = (if logs env key then [Log_Response key] else [])
        @ (if resolveTransport entry = None then [] else [Retry_Unauthorized strategy]) @ [Translate_Errors key]"
proof -
  have "service_ok env (fold (\<lambda>k s. snd (service_get env k s)) keys s)" if "service_ok env s" for s :: "'a http_service"
    using that
  proof (induction keys arbitrary: s)
    case (Cons k keys)
    obtain r t where "service_get env k s = (r, t)" by (meson surj_pair)
    with service_get_spec [OF Cons.prems this] Cons.IH [of t] show ?case by simp
  qed simp
  moreover have "service_ok env new_service" by (simp add: service_ok_def new_service_def)
  ultimately show ?thesis using service_get_spec [OF _ assms] unfolding ordered_client_def by blast
qed

definition sample_api :: external_api where
  "sample_api = \<lparr>pi_baseURL = pi_baseURL sample_provider, pi_auth = pi_auth sample_provider,
     pi_resilience = pi_resilience sample_provider, pi_retriableStatusCodes = pi_retriableStatusCodes sample_provider,
     xa_logging = None\<rparr>"

definition sample_service_env :: service_env where
  "sample_service_env = \<lparr>se_is_url = (\<lambda>_. True), se_sections_ok = (\<lambda>_. True), se_has_logger = True,
     se_externalApis = [(''users'', sample_api)]\<rparr>"

lemma sample_api_simps [simp]: "provider_input.truncate sample_api = sample_provider" "xa_logging sample_api = None"
  by (simp_all add: provider_input.defs sample_api_def sample_provider_def)

lemma sample_logging: "logging_of sample_service_env = Some [(''users'', \<lparr>lc_enabled = True, lc_stack = False\<rparr>)]"
  by (simp add: logging_of_def sample_service_env_def ExternalApiEntrySchema_def HttpLogConfigSchema_def
      sample_provider_parses)

lemma sample_service_run:
  "\<exists>client s'. service_get sample_service_env ''users''
     (fold (\<lambda>k s. snd (service_get sample_service_env k s)) [''other''] (new_service :: 'a http_service)) = (Inr client, s')"
proof -
  let ?hook = "attachLogging True [(''users'', \<lparr>lc_enabled = True, lc_stack = False\<rparr>)] :: 'a instance_hook"
  have config: "provider_config sample_service_env = [(''users'', sample_provider)]"
    by (simp add: provider_config_def sample_service_env_def)
  have other: "factory_get (\<lambda>_. True) ?hook [(''users'', sample_provider)] ''other'' empty_factory
      = (Inl (PlainError ''HTTP provider \"other\" is not configured''), empty_factory)"
    by (simp add: factory_get_def empty_factory_def)
  then have first: "snd (service_get sample_service_env ''other'' (new_service :: 'a http_service)) = \<lparr>hs_factory = Some empty_factory, hs_translated = []\<rparr>"
    unfolding service_get_def sample_logging config by (simp add: sample_service_env_def new_service_def)
  obtain client f' where "factory_get (\<lambda>_. True) ?hook [(''users'', sample_provider)] ''users'' empty_factory = (Inr client, f')"
    by (rule factory_get_cases [of "empty_factory :: 'a http_factory" "''users''" "\<lambda>_. True" ?hook "[(''users'', sample_provider)]"])
      (auto simp: empty_factory_def sample_provider_parses)
  then have "\<exists>client s'. service_get sample_service_env ''users'' \<lparr>hs_factory = Some empty_factory, hs_translated = []\<rparr>
      = (Inr (client :: 'a axios_instance), s')"
    unfolding service_get_def sample_logging config by (simp add: sample_service_env_def Let_def)
  then show ?thesis by (simp add: first)
qed

lemma interceptors_in_order_witness:
  "\<exists>(client :: 'h axios_instance) s' entry strategy. service_get sample_service_env ''users''
       (fold (\<lambda>k s. snd (service_get sample_service_env k s)) [''other''] new_service) = (Inr client, s')
     \<and> provider_entry_of sample_service_env ''users'' = Some entry
     \<and> ai_response client = (if logs sample_service_env ''users'' then [Log_Response ''users''] else [])
        @ (if resolveTransport entry = None then [] else [Retry_Unauthorized strategy]) @ [Translate_Errors ''users'']"
proof -
  obtain client :: "'h axios_instance" and s' where run: "service_get sample_service_env ''users''
     (fold (\<lambda>k s. snd (service_get sample_service_env k s)) [''other''] new_service) = (Inr client, s')"
    using sample_service_run by blast
  from interceptors_in_order [OF run] obtain entry and strategy :: "'h axios_instance strategy" where st:
    "provider_entry_of sample_service_env ''users'' = Some entry
     \<and> ai_response client = (if logs sample_service_env ''users'' then [Log_Response ''users''] else [])
        @ (if resolveTransport entry = None then [] else [Retry_Unauthorized strategy]) @ [Translate_Errors ''users'']"
    by (elim exE)
  show ?thesis
    by (rule exI [of _ client], rule exI [of _ s'], rule exI [of _ entry], rule exI [of _ strategy]) (use run st in simp)
qed

subsection \<open>One request\<close>

text \<open>The client's options, on axios' own vocabulary.\<close>

datatype response_type = Response_Json | Response_Text | Response_Binary

record 'h http_request =
  hq_method :: "string option"
  hq_url :: string
  hq_body :: "json option"
  hq_headers :: "'h option"
  hq_params :: "(string, json) js_map option"
  hq_signal :: "signal option"
  hq_responseType :: "response_type option"

record 'h axios_request =
  ax_method :: string
  ax_url :: string
  ax_data :: "json option"
  ax_headers :: "'h option"
  ax_params :: "(string, json) js_map option"
  ax_signal :: "signal option"
  ax_responseType :: "string option"

fun RESPONSE_TYPES :: "response_type \<Rightarrow> string" where
  "RESPONSE_TYPES Response_Json = ''json''"
| "RESPONSE_TYPES Response_Text = ''text''"
| "RESPONSE_TYPES Response_Binary = ''arraybuffer''"

definition toRequestConfig :: "'h http_request \<Rightarrow> 'h axios_request" where
  "toRequestConfig request =
     \<lparr>ax_method = (case hq_method request of None \<Rightarrow> ''GET'' | Some m \<Rightarrow> m), ax_url = hq_url request,
      ax_data = hq_body request, ax_headers = hq_headers request, ax_params = hq_params request,
      ax_signal = hq_signal request, ax_responseType = map_option RESPONSE_TYPES (hq_responseType request)\<rparr>"

text \<open>\<^verbatim>\<open>{ ...options, method, url, body }\<close>, the verbs of the client.\<close>

definition verb_request :: "string \<Rightarrow> string \<Rightarrow> json option \<Rightarrow> 'h http_request \<Rightarrow> 'h http_request" where
  "verb_request verb url body options = options\<lparr>hq_method := Some verb, hq_url := url, hq_body := body\<rparr>"

text \<open>
  The policy around the adapter. \<open>getAdapter\<close> is \<^verbatim>\<open>axios.getAdapter\<close>, \<open>defaults\<close> the instance's own; the
  base adapter is kept on the configuration, which a replay carries over.
\<close>

definition wrapAdapterWithPolicy ::
  "(adapter \<Rightarrow> adapter) \<Rightarrow> adapter \<Rightarrow> nat \<Rightarrow> 'h request_config \<Rightarrow> 'h request_config" where
  "wrapAdapterWithPolicy getAdapter defaults pol cfg =
     (let base = (case rc_resilienceBaseAdapter cfg of
          Some b \<Rightarrow> b
        | None \<Rightarrow> getAdapter (case rc_adapter cfg of Some a \<Rightarrow> a | None \<Rightarrow> defaults))
      in cfg\<lparr>rc_resilienceBaseAdapter := Some base, rc_adapter := Some (Policy_Adapter pol base)\<rparr>)"

text \<open>What the adapter does: the policy around the base adapter, which is axios' own.\<close>

fun run_adapter ::
  "(nat \<Rightarrow> 'h request_config \<Rightarrow> ('f, 'r, 's) action) \<Rightarrow> (nat \<Rightarrow> ('f, 'r, 's) action \<Rightarrow> ('f, 'r, 's) action)
     \<Rightarrow> adapter \<Rightarrow> 'h request_config \<Rightarrow> ('f, 'r, 's) action" where
  "run_adapter plain policed (Plain_Adapter n) cfg = plain n cfg"
| "run_adapter plain policed (Policy_Adapter pol base) cfg = policed pol (run_adapter plain policed base cfg)"

text \<open>
  Policies do not nest. However often a request is sent through the interceptor, it runs the adapter
  it would have run without it under the policy once; so a replay costs one more execution of the
  policy and not one per attempt of the first.
\<close>

theorem policy_wraps_once:
  "run_adapter plain policed (the (rc_adapter ((wrapAdapterWithPolicy getAdapter defaults pol ^^ Suc n)
       (cfg\<lparr>rc_resilienceBaseAdapter := None\<rparr>)))) sent
   = policed pol (run_adapter plain policed (getAdapter (case rc_adapter cfg of Some a \<Rightarrow> a | None \<Rightarrow> defaults)) sent)"
proof -
  let ?wrap = "wrapAdapterWithPolicy getAdapter defaults pol" and ?cfg = "cfg\<lparr>rc_resilienceBaseAdapter := None\<rparr>"
  let ?base = "getAdapter (case rc_adapter cfg of Some a \<Rightarrow> a | None \<Rightarrow> defaults)"
  have "rc_resilienceBaseAdapter ((?wrap ^^ Suc n) ?cfg) = Some ?base
      \<and> rc_adapter ((?wrap ^^ Suc n) ?cfg) = Some (Policy_Adapter pol ?base)"
    by (induction n) (simp_all add: wrapAdapterWithPolicy_def Let_def)
  then show ?thesis by simp
qed

definition apply_credentials ::
  "(string \<Rightarrow> bool) \<Rightarrow> (string \<Rightarrow> string \<Rightarrow> 'h \<Rightarrow> 'h) \<Rightarrow> ('h http_failure, 's) auth_strategy \<Rightarrow> transport_config
     \<Rightarrow> 'h request_config \<Rightarrow> ('h http_failure, 'h request_config, 's) action" where
  "apply_credentials isNotEmpty set_header strategy transport cfg =
     and_then (as_getCredentials strategy) (\<lambda>credentials.
       case applyTransport isNotEmpty set_header transport credentials (rc_headers cfg, rc_params cfg) of
         Inl e \<Rightarrow> throwing (Other_Failure e)
       | Inr (headers, params) \<Rightarrow> returning (cfg\<lparr>rc_headers := headers, rc_params := params\<rparr>))"

text \<open>
  The rejection handler. \<open>again\<close> is \<^verbatim>\<open>instance.request\<close>; a call that has not settled when the fuel is
  used up rejects with \<open>None\<close>, every rejection of the program with \<open>Some\<close>.
\<close>

definition retry_unauthorized ::
  "('h request_config \<Rightarrow> ('h http_failure option, 'r, 's) action) \<Rightarrow> ('h http_failure, 's) auth_strategy
     \<Rightarrow> 'h http_failure \<Rightarrow> ('h http_failure option, 'r, 's) action" where
  "retry_unauthorized again strategy error =
     (case error of
        Axios_Error (Some status) code (Some cfg) \<Rightarrow>
          if status = 401 \<and> \<not> rc_retried cfg
          then and_then (doing (as_invalidate strategy)) (\<lambda>_. again (cfg\<lparr>rc_retried := True\<rparr>))
          else throwing (Some error)
      | _ \<Rightarrow> throwing (Some error))"

type_synonym ('h, 'r, 's) axios_chain =
  "('h request_config \<Rightarrow> ('h http_failure, 'h request_config, 's) action) \<Rightarrow> ('h request_config \<Rightarrow> ('h http_failure, 'r, 's) action)
     \<Rightarrow> ('h http_failure \<Rightarrow> ('h http_failure option, 'r, 's) action) \<Rightarrow> 'h request_config \<Rightarrow> ('h http_failure option, 'r, 's) action"

fun instance_request ::
  "('h, 'r, 's) axios_chain \<Rightarrow> ('h request_config \<Rightarrow> ('h http_failure, 'h request_config, 's) action)
     \<Rightarrow> ('h request_config \<Rightarrow> ('h http_failure, 'r, 's) action) \<Rightarrow> ('h http_failure, 's) auth_strategy
     \<Rightarrow> nat \<Rightarrow> 'h request_config \<Rightarrow> ('h http_failure option, 'r, 's) action" where
  "instance_request chain prepare dispatch strategy 0 cfg = throwing None"
| "instance_request chain prepare dispatch strategy (Suc fuel) cfg =
     chain prepare dispatch (retry_unauthorized (instance_request chain prepare dispatch strategy fuel) strategy) cfg"

text \<open>
  Axios documents its interceptors as a promise chain: the request interceptors, then the dispatch,
  then the response interceptors, whose rejection handler gets whatever rejected before it.
\<close>

definition promise_chain :: "('h, 'r, 's) axios_chain \<Rightarrow> bool" where
  "promise_chain chain \<longleftrightarrow> (\<forall>prepare dispatch recover cfg s.
     chain prepare dispatch recover cfg s = catching (and_then (prepare cfg) dispatch) recover s)"

lemma request_unfold:
  assumes "promise_chain chain"
  shows "instance_request chain prepare dispatch strategy (Suc fuel) cfg s =
    (case and_then (prepare cfg) dispatch s of
       (Inr r, s1) \<Rightarrow> (Inr r, s1)
     | (Inl e, s1) \<Rightarrow> retry_unauthorized (instance_request chain prepare dispatch strategy fuel) strategy e s1)"
  using assms by (simp add: promise_chain_def catching_def split: prod.splits sum.splits)

lemma retry_unauthorized_cases:
  obtains "retry_unauthorized again strategy e s = (Inl (Some e), s)"
  | code c where "e = Axios_Error (Some 401) code (Some c)" "\<not> rc_retried c"
      "retry_unauthorized again strategy e s = again (c\<lparr>rc_retried := True\<rparr>) (as_invalidate strategy s)"
proof (cases "\<exists>code c. e = Axios_Error (Some 401) code (Some c) \<and> \<not> rc_retried c")
  case True
  then obtain code c where "e = Axios_Error (Some 401) code (Some c)" "\<not> rc_retried c" by blast
  then show thesis by (intro that(2)) (simp_all add: retry_unauthorized_def and_then_def)
next
  case False
  then have "retry_unauthorized again strategy e = throwing (Some e)"
    by (cases e) (auto simp: retry_unauthorized_def split: option.splits)
  then show thesis by (intro that(1)) simp
qed

lemma apply_credentials_eq:
  "apply_credentials isNotEmpty set_header strategy transport cfg s =
     (case as_getCredentials strategy s of
        (Inl e, s') \<Rightarrow> (Inl e, s')
      | (Inr credentials, s') \<Rightarrow>
          (case applyTransport isNotEmpty set_header transport credentials (rc_headers cfg, rc_params cfg) of
             Inl e \<Rightarrow> (Inl (Other_Failure e), s')
           | Inr place \<Rightarrow> (Inr (cfg\<lparr>rc_headers := fst place, rc_params := snd place\<rparr>), s')))"
  by (auto simp: apply_credentials_def and_then_def split: sum.splits prod.splits)

lemma apply_credentials_keeps:
  assumes "apply_credentials isNotEmpty set_header strategy transport cfg s = (Inr cfg', s')"
  shows "rc_url cfg' = rc_url cfg" "rc_data cfg' = rc_data cfg" "rc_retried cfg' = rc_retried cfg"
  using assms by (auto simp: apply_credentials_eq split: sum.splits prod.splits)

lemma apply_credentials_fails:
  assumes "apply_credentials isNotEmpty set_header strategy transport cfg s = (Inl e, s')"
  shows "as_getCredentials strategy s = (Inl e, s') \<or> (\<exists>t. e = Other_Failure t)"
  using assms by (auto simp: apply_credentials_eq split: sum.splits prod.splits)

lemma apply_credentials_state:
  "snd (apply_credentials isNotEmpty set_header strategy transport cfg s) = snd (as_getCredentials strategy s)"
  by (auto simp: apply_credentials_eq split: sum.splits prod.splits)

text \<open>What the replay theorem assumes of a strategy and a dispatch, in one predicate for its lemmas.\<close>

definition accounted ::
  "('s \<Rightarrow> nat) \<Rightarrow> ('h http_failure, 's) auth_strategy \<Rightarrow> ('h request_config \<Rightarrow> ('h http_failure, 'r, 's) action) \<Rightarrow> bool" where
  "accounted sent strategy dispatch \<longleftrightarrow>
     (\<forall>s code c s'. as_getCredentials strategy s \<noteq> (Inl (Axios_Error (Some 401) code (Some c)), s'))
   \<and> (\<forall>cfg s status code c s'. dispatch cfg s = (Inl (Axios_Error status code (Some c)), s') \<longrightarrow> rc_retried c = rc_retried cfg)
   \<and> (\<forall>cfg s. sent (snd (dispatch cfg s)) = Suc (sent s))
   \<and> (\<forall>s. sent (snd (as_getCredentials strategy s)) = sent s)
   \<and> (\<forall>s. sent (as_invalidate strategy s) = sent s)"

lemma dispatched_once:
  assumes acc: "accounted sent strategy dispatch"
    and run: "and_then (apply_credentials isNotEmpty set_header strategy transport cfg) dispatch s = (x, s1)"
  shows "sent s1 \<le> sent s + 1 \<and> (\<forall>code c. x = Inl (Axios_Error (Some 401) code (Some c)) \<longrightarrow> rc_retried c = rc_retried cfg)"
proof (cases "apply_credentials isNotEmpty set_header strategy transport cfg s")
  case (Pair y s0)
  have s0: "sent s0 = sent s"
    using apply_credentials_state [of isNotEmpty set_header strategy transport cfg s] acc Pair by (simp add: accounted_def)
  show ?thesis
  proof (cases y)
    case (Inl e)
    with run Pair have "x = Inl e" "s1 = s0" by (simp_all add: and_then_def)
    with apply_credentials_fails [OF Pair [unfolded Inl]] acc s0 show ?thesis by (auto simp: accounted_def)
  next
    case (Inr cfg')
    with run Pair have d: "dispatch cfg' s0 = (x, s1)" by (simp add: and_then_def)
    have "sent s1 = Suc (sent s0)" using acc d unfolding accounted_def by (metis snd_conv)
    moreover have "rc_retried c = rc_retried cfg'" if "x = Inl (Axios_Error (Some 401) code (Some c))" for code c
      using acc d that unfolding accounted_def by blast
    ultimately show ?thesis using apply_credentials_keeps(3) [OF Pair [unfolded Inr]] s0 by simp
  qed
qed

lemma replayed_request:
  assumes chain: "promise_chain chain" and acc: "accounted sent strategy dispatch" and replay: "rc_retried cfg"
    and run: "instance_request chain (apply_credentials isNotEmpty set_header strategy transport) dispatch strategy (Suc n) cfg s = (r, s')"
  shows "r \<noteq> Inl None \<and> sent s' \<le> sent s + 1"
proof (cases "and_then (apply_credentials isNotEmpty set_header strategy transport cfg) dispatch s")
  case (Pair x s1)
  note once = dispatched_once [OF acc Pair]
  show ?thesis
  proof (cases x)
    case (Inl e)
    show ?thesis
      by (rule retry_unauthorized_cases [of "instance_request chain (apply_credentials isNotEmpty set_header strategy transport)
            dispatch strategy n" strategy e s1])
        (use once replay run Inl Pair in \<open>auto simp: request_unfold [OF chain] simp del: instance_request.simps\<close>)
  next
    case (Inr a)
    with once run Pair show ?thesis by (auto simp: request_unfold [OF chain] simp del: instance_request.simps)
  qed
qed

text \<open>
  Property C30. A refused request is replayed once. When credentials can be produced, a request is settled after at
  most two dispatches, and after one when it was a replay already: the second answer is the caller's,
  whatever it is.
\<close>

theorem unauthorized_replayed_once:
  assumes chain: "promise_chain chain"
    and produced: "\<And>s code c s'. as_getCredentials strategy s \<noteq> (Inl (Axios_Error (Some 401) code (Some c)), s')"
    and carries: "\<And>cfg s status code c s'. dispatch cfg s = (Inl (Axios_Error status code (Some c)), s') \<Longrightarrow> rc_retried c = rc_retried cfg"
    and counted: "\<And>cfg s. sent (snd (dispatch cfg s)) = Suc (sent s)" "\<And>s. sent (snd (as_getCredentials strategy s)) = sent s"
      "\<And>s. sent (as_invalidate strategy s) = sent s"
    and run: "instance_request chain (apply_credentials isNotEmpty set_header strategy transport) dispatch strategy
        (Suc (Suc fuel)) cfg s = (r, s')"
  shows "r \<noteq> Inl None \<and> sent s' \<le> sent s + (if rc_retried cfg then 1 else 2)"
proof (cases "and_then (apply_credentials isNotEmpty set_header strategy transport cfg) dispatch s")
  case (Pair x s1)
  let ?request = "instance_request chain (apply_credentials isNotEmpty set_header strategy transport) dispatch strategy (Suc fuel)"
  have acc: "accounted sent strategy dispatch" using produced carries counted unfolding accounted_def by blast
  note once = dispatched_once [OF acc Pair]
  show ?thesis
  proof (cases x)
    case (Inr a)
    with once run Pair show ?thesis by (auto simp: request_unfold [OF chain] simp del: instance_request.simps)
  next
    case (Inl e)
    with run Pair have settled: "retry_unauthorized ?request strategy e s1 = (r, s')"
      by (simp add: request_unfold [OF chain, of _ _ _ "Suc fuel"] del: instance_request.simps)
    show ?thesis
    proof (rule retry_unauthorized_cases [of ?request strategy e s1])
      assume "retry_unauthorized ?request strategy e s1 = (Inl (Some e), s1)"
      with once settled show ?thesis by auto
    next
      fix code c
      assume e: "e = Axios_Error (Some 401) code (Some c)" "\<not> rc_retried c"
        and "retry_unauthorized ?request strategy e s1 = ?request (c\<lparr>rc_retried := True\<rparr>) (as_invalidate strategy s1)"
      with settled have "?request (c\<lparr>rc_retried := True\<rparr>) (as_invalidate strategy s1) = (r, s')" by simp
      from replayed_request [OF chain acc _ this] once e Inl counted(3) [of s1] show ?thesis by auto
    qed
  qed
qed

text \<open>
  The replay handler does not tell whose request was refused. When the endpoint that issues
  tokens answers 401, the rejection of the credentials reaches the handler of the API's client with
  the configuration of the token request: that request is replayed through the API's client, and its
  response is handed to the caller, whose own request is never sent.
\<close>

theorem token_response_returned:
  assumes chain: "promise_chain chain"
    and refused: "as_getCredentials strategy s = (Inl (Axios_Error (Some 401) code (Some c)), s1)" "\<not> rc_retried c"
    and recovered: "apply_credentials isNotEmpty set_header strategy transport (c\<lparr>rc_retried := True\<rparr>)
        (as_invalidate strategy s1) = (Inr c', s2)" "dispatch c' s2 = (Inr response, s3)"
  shows "instance_request chain (apply_credentials isNotEmpty set_header strategy transport) dispatch strategy
      (Suc (Suc fuel)) cfg s = (Inr response, s3) \<and> rc_url c' = rc_url c \<and> rc_data c' = rc_data c"
proof -
  let ?prep = "apply_credentials isNotEmpty set_header strategy transport"
  have "and_then (?prep cfg) dispatch s = (Inl (Axios_Error (Some 401) code (Some c)), s1)"
    using refused by (simp add: apply_credentials_def and_then_def)
  then have "instance_request chain ?prep dispatch strategy (Suc (Suc fuel)) cfg s
      = instance_request chain ?prep dispatch strategy (Suc fuel) (c\<lparr>rc_retried := True\<rparr>) (as_invalidate strategy s1)"
    using refused(2) by (simp add: request_unfold [OF chain] retry_unauthorized_def and_then_def del: instance_request.simps)
  also have "and_then (?prep (c\<lparr>rc_retried := True\<rparr>)) dispatch (as_invalidate strategy s1) = (Inr response, s3)"
    using recovered by (simp add: and_then_def)
  then have "instance_request chain ?prep dispatch strategy (Suc fuel) (c\<lparr>rc_retried := True\<rparr>) (as_invalidate strategy s1)
      = (Inr response, s3)"
    by (simp add: request_unfold [OF chain] del: instance_request.simps)
  finally show ?thesis using apply_credentials_keeps [OF recovered(1)] by simp
qed

text \<open>
  Property C29. And when it keeps answering 401 the request never settles: every token request carries a
  configuration of its own, so each refusal is replayed, and for every bound there is a run in which
  that many token requests were made and the caller still waits.
\<close>

theorem token_refusal_never_settles:
  assumes chain: "promise_chain chain"
    and refusing: "\<And>s. P s \<Longrightarrow> \<exists>code c s'. as_getCredentials strategy s = (Inl (Axios_Error (Some 401) code (Some c)), s')
        \<and> \<not> rc_retried c \<and> P (as_invalidate strategy s') \<and> asked (as_invalidate strategy s') = Suc (asked s)"
    and "P s"
  shows "\<exists>s'. instance_request chain (apply_credentials isNotEmpty set_header strategy transport) dispatch strategy fuel cfg s
      = (Inl None, s') \<and> asked s' = asked s + fuel"
  using assms(3)
proof (induction fuel arbitrary: cfg s)
  case (Suc fuel)
  from refusing [OF Suc.prems] obtain code c s' where
    c: "as_getCredentials strategy s = (Inl (Axios_Error (Some 401) code (Some c)), s')" "\<not> rc_retried c"
    and next_state: "P (as_invalidate strategy s')" "asked (as_invalidate strategy s') = Suc (asked s)" by blast
  have "and_then (apply_credentials isNotEmpty set_header strategy transport cfg) dispatch s
      = (Inl (Axios_Error (Some 401) code (Some c)), s')"
    using c by (simp add: apply_credentials_def and_then_def)
  with c(2) Suc.IH [OF next_state(1)] next_state(2) show ?case
    by (simp add: request_unfold [OF chain] retry_unauthorized_def and_then_def del: instance_request.simps)
qed (simp add: throwing_def)

subsection \<open>Samples\<close>

definition sample_chain :: "('h, 'r, 's) axios_chain" where
  "sample_chain prepare dispatch recover cfg = catching (and_then (prepare cfg) dispatch) recover"

lemma sample_chain_ok: "promise_chain sample_chain"
  by (simp add: promise_chain_def sample_chain_def)

definition sample_request :: "string \<Rightarrow> string request_config" where
  "sample_request url = \<lparr>rc_method = ''GET'', rc_url = url, rc_data = None, rc_headers = '''', rc_params = None,
     rc_signal = None, rc_adapter = None, rc_resilienceBaseAdapter = None, rc_retried = False\<rparr>"

definition no_transport :: transport_config where
  "no_transport = \<lparr>tc_headers = None, tc_queryParams = None\<rparr>"

text \<open>An upstream that refuses the first request it gets; the state is the number of requests.\<close>

definition refusing_once :: "string request_config \<Rightarrow> (string http_failure, string, nat) action" where
  "refusing_once cfg n = (if n = 0 then Inl (Axios_Error (Some 401) None (Some cfg)) else Inr ''ok'', Suc n)"

lemma unauthorized_replayed_once_witness:
  "instance_request sample_chain (apply_credentials (\<lambda>_. True) (\<lambda>_ _ h. h) NoAuthStrategy no_transport) refusing_once
      NoAuthStrategy 2 (sample_request ''/users'') 0 = (Inr ''ok'', 2) \<and> (2 :: nat) \<le> 0 + 2"
proof -
  have run: "instance_request sample_chain (apply_credentials (\<lambda>_. True) (\<lambda>_ _ h. h) NoAuthStrategy no_transport) refusing_once
      NoAuthStrategy (Suc (Suc 0)) (sample_request ''/users'') 0 = (Inr ''ok'', 2)"
    by (simp add: request_unfold [OF sample_chain_ok] apply_credentials_eq NoAuthStrategy_def applyTransport_def no_transport_def
        refusing_once_def retry_unauthorized_def and_then_def sample_request_def del: instance_request.simps)
  have "Inr ''ok'' \<noteq> (Inl None :: string http_failure option + string)
      \<and> (2 :: nat) \<le> 0 + (if rc_retried (sample_request ''/users'') then 1 else 2)"
    by (rule unauthorized_replayed_once [OF sample_chain_ok, where sent = "\<lambda>n. n" and strategy = NoAuthStrategy
            and dispatch = refusing_once, OF _ _ _ _ _ run])
      (auto simp: NoAuthStrategy_def refusing_once_def split: if_splits)
  with run show ?thesis by (simp add: numeral_2_eq_2)
qed

text \<open>
  A token endpoint that answers some of its requests with 401: the state is the strategy's cache and
  the number of token requests made.
\<close>

type_synonym sample_state = "(string http_failure, credentials) credential_cache \<times> nat"

definition token_request_config :: "string request_config" where
  "token_request_config = (sample_request ''https://login'')\<lparr>rc_method := ''POST''\<rparr>"

definition sample_fetch :: "(nat \<Rightarrow> bool) \<Rightarrow> (string http_failure, credentials, sample_state) action" where
  "sample_fetch refuses s = (if refuses (snd s) then Inl (Axios_Error (Some 401) None (Some token_request_config))
     else Inr [(''value'', ''token'')], (fst s, Suc (snd s)))"

definition sample_strategy :: "(nat \<Rightarrow> bool) \<Rightarrow> (string http_failure, sample_state) auth_strategy" where
  "sample_strategy refuses = TokenExchangeStrategy fst (\<lambda>c s. (c, snd s)) (sample_fetch refuses)"

definition sample_dispatch :: "string request_config \<Rightarrow> (string http_failure, string, sample_state) action" where
  "sample_dispatch cfg s = (Inr (''answer of '' @ rc_url cfg), s)"

definition quiet :: "sample_state \<Rightarrow> bool" where
  "quiet s \<longleftrightarrow> cc_cached (fst s) = None \<and> cc_inFlight (fst s) = None"

lemma sample_strategy_asked:
  assumes "quiet s"
  shows "\<exists>c. as_getCredentials (sample_strategy refuses) s =
      (if refuses (snd s) then Inl (Axios_Error (Some 401) None (Some token_request_config)) else Inr [(''value'', ''token'')],
       (c, Suc (snd s))) \<and> quiet (as_invalidate (sample_strategy refuses) (c, Suc (snd s)))"
  using assms
  by (cases s) (simp add: quiet_def sample_strategy_def TokenExchangeStrategy_def token_getCredentials_def join_or_acquire_def
      acquire_def sample_fetch_def settled_call_def token_step_def strategy_step_def token_fetched_def token_invalidate_def
      Let_def release_def nth_append)

lemma sample_strategy_counts [simp]: "snd (as_invalidate (sample_strategy refuses) s) = snd s"
  by (simp add: sample_strategy_def TokenExchangeStrategy_def)

lemma quiet_start: "quiet (empty_cache, 0)"
  by (simp add: quiet_def empty_cache_def)

lemma token_refusal_never_settles_witness:
  "\<exists>s'. instance_request sample_chain
      (apply_credentials (\<lambda>_. True) (\<lambda>_ _ h. h) (sample_strategy (\<lambda>_. True)) no_transport)
      sample_dispatch (sample_strategy (\<lambda>_. True)) 7 (sample_request ''/users'') (empty_cache, 0) = (Inl None, s')
    \<and> snd s' = snd (empty_cache :: (string http_failure, credentials) credential_cache, 0 :: nat) + 7"
proof (rule token_refusal_never_settles [OF sample_chain_ok, where P = quiet and asked = snd, OF _ quiet_start])
  fix s assume "quiet s"
  from sample_strategy_asked [OF this, of "\<lambda>_. True"]
  show "\<exists>code c s'. as_getCredentials (sample_strategy (\<lambda>_. True)) s = (Inl (Axios_Error (Some 401) code (Some c)), s')
      \<and> \<not> rc_retried c \<and> quiet (as_invalidate (sample_strategy (\<lambda>_. True)) s')
      \<and> snd (as_invalidate (sample_strategy (\<lambda>_. True)) s') = Suc (snd s)"
    by (auto simp: token_request_config_def sample_request_def)
qed

lemma token_response_returned_witness:
  "\<exists>s'. instance_request sample_chain
      (apply_credentials (\<lambda>_. True) (\<lambda>_ _ h. h) (sample_strategy (\<lambda>n. n = 0)) no_transport)
      sample_dispatch (sample_strategy (\<lambda>n. n = 0)) 2 (sample_request ''/users'') (empty_cache, 0)
    = (Inr ''answer of https://login'', s')"
proof -
  let ?st = "sample_strategy (\<lambda>n. n = 0)"
  obtain c where first: "as_getCredentials ?st (empty_cache, 0)
      = (Inl (Axios_Error (Some 401) None (Some token_request_config)), (c, Suc 0))"
    and q: "quiet (as_invalidate ?st (c, Suc 0))"
    using sample_strategy_asked [OF quiet_start, of "\<lambda>n. n = 0"] by auto
  obtain c' where second: "as_getCredentials ?st (as_invalidate ?st (c, Suc 0)) = (Inr [(''value'', ''token'')], (c', 2))"
    using sample_strategy_asked [OF q, of "\<lambda>n. n = 0"] by (auto simp: numeral_2_eq_2)
  have nr: "\<not> rc_retried token_request_config" by (simp add: token_request_config_def sample_request_def)
  have prepared: "apply_credentials (\<lambda>_. True) (\<lambda>_ _ h. h) ?st no_transport (token_request_config\<lparr>rc_retried := True\<rparr>)
      (as_invalidate ?st (c, Suc 0)) = (Inr (token_request_config\<lparr>rc_retried := True\<rparr>), (c', 2))"
    by (simp add: apply_credentials_eq second applyTransport_def no_transport_def)
  have sent: "sample_dispatch (token_request_config\<lparr>rc_retried := True\<rparr>) (c', 2) = (Inr ''answer of https://login'', (c', 2))"
    by (simp add: sample_dispatch_def token_request_config_def sample_request_def)
  from token_response_returned [where dispatch = sample_dispatch and fuel = 0 and cfg = "sample_request ''/users''",
      OF sample_chain_ok first nr prepared sent]
  show ?thesis unfolding numeral_2_eq_2 by blast
qed

subsection \<open>Failures towards the caller, and the log\<close>

definition ServiceUnavailable :: "string \<Rightarrow> thrown" where "ServiceUnavailable message = JsError ''SERVICE_UNAVAILABLE'' message"
definition GatewayTimeout :: "string \<Rightarrow> thrown" where "GatewayTimeout message = JsError ''GATEWAY_TIMEOUT'' message"
definition BadGateway :: "string \<Rightarrow> thrown" where "BadGateway message = JsError ''BAD_GATEWAY'' message"

definition toHttpException :: "'h http_failure \<Rightarrow> string \<Rightarrow> thrown" where
  "toHttpException error api =
     (case error of
        Broken_Circuit \<Rightarrow> ServiceUnavailable (''External API '' @ api @ '' is unavailable (circuit open).'')
      | Task_Cancelled \<Rightarrow> GatewayTimeout (''External API '' @ api @ '' did not respond in time.'')
      | Axios_Error (Some status) _ _ \<Rightarrow> BadGateway (''External API '' @ api @ '' responded with '' @ show_int status @ ''.'')
      | _ \<Rightarrow> BadGateway (''External API '' @ api @ '' could not be reached.''))"

text \<open>\<^verbatim>\<open>/^([a-z][a-z\d+\-.]*:)?\/\//i\<close>\<close>

definition is_alpha :: "char \<Rightarrow> bool" where
  "is_alpha c \<longleftrightarrow> lower_char c \<in> set ''abcdefghijklmnopqrstuvwxyz''"

definition is_scheme_char :: "char \<Rightarrow> bool" where
  "is_scheme_char c \<longleftrightarrow> is_alpha c \<or> c \<in> set ''0123456789+-.''"

definition ABSOLUTE_URL :: "string \<Rightarrow> bool" where
  "ABSOLUTE_URL url \<longleftrightarrow> starts_with ''//'' url
     \<or> (case url of [] \<Rightarrow> False | c # rest \<Rightarrow> is_alpha c \<and> starts_with ''://'' (dropWhile is_scheme_char rest))"

definition resolveUrl :: "string option \<Rightarrow> string option \<Rightarrow> string option" where
  "resolveUrl baseURL url =
     (case url of
        None \<Rightarrow> baseURL
      | Some u \<Rightarrow>
          if u = [] then baseURL
          else (case baseURL of
             None \<Rightarrow> Some u
           | Some b \<Rightarrow>
               if b = [] \<or> ABSOLUTE_URL u then Some u
               else Some (strip_trailing_slashes b @ ''/'' @ dropWhile (\<lambda>c. c = CHR ''/'') u)))"

definition TEXTUAL_CONTENT_TYPE :: "string \<Rightarrow> bool" where
  "TEXTUAL_CONTENT_TYPE t \<longleftrightarrow> starts_with ''text/'' (to_lower t)
     \<or> list_ex (\<lambda>s. starts_with (''application/'' @ s) (to_lower t))
         [''json'', ''xml'', ''ld+json'', ''graphql'', ''javascript'', ''x-www-form-urlencoded'']"

definition isTextualContentType :: "string option \<Rightarrow> bool" where
  "isTextualContentType contentType \<longleftrightarrow>
     (case contentType of None \<Rightarrow> True | Some t \<Rightarrow> t = [] \<or> TEXTUAL_CONTENT_TYPE t)"

text \<open>\<^verbatim>\<open>??\<close> goes on to the second spelling when the first is absent or null.\<close>

definition extractContentType :: "(string \<times> json) list option \<Rightarrow> string option" where
  "extractContentType headers =
     (let value = (case headers of None \<Rightarrow> None | Some m \<Rightarrow>
            (if is_nil (map_of m ''content-type'') then map_of m ''Content-Type'' else map_of m ''content-type''))
      in map_option show_js value)"

end
