(* ===== verification/Map_Feeder.thy ===== *)
theory Map_Feeder
  imports Raster Health Http_Provider "HOL-Library.List_Lexorder" "HOL-Library.Char_ord"
begin

text \<open>
  \<^verbatim>\<open>apis/interactive-map-feeder-api\<close>: the two upstreams of the weather service, the colour per city, the
  composed radar image, the handlers, and the health check over the upstreams' breakers.
\<close>

subsection \<open>Upstreams\<close>

datatype external_api_key = ChmiPortal | ChmiOpendata

fun external_api_name :: "external_api_key \<Rightarrow> string" where
  "external_api_name ChmiPortal = ''CHMI_PORTAL''"
| "external_api_name ChmiOpendata = ''CHMI_OPENDATA''"

text \<open>The fields of a date in UTC, as the getters give them: the month counts from zero.\<close>

record utc_date =
  utc_fullYear :: int
  utc_month :: int
  utc_date :: int
  utc_hours :: int
  utc_minutes :: int

record ('n, 'i, 's) map_env =
  me_num :: "'n num_utils"
  me_sharp :: "('i, 's) sharp"
  me_get :: "external_api_key \<Rightarrow> string \<Rightarrow> response_type \<Rightarrow> (byte list, 's) effect"
  me_now :: "'s \<Rightarrow> utc_date"

definition padStart2 :: "int \<Rightarrow> string" where
  "padStart2 n = (let s = show_int n in replicate (2 - length s) (CHR ''0'') @ s)"

definition getCurrentDate :: "'n::inverse num_utils \<Rightarrow> utc_date \<Rightarrow> string" where
  "getCurrentDate nu date =
     show_int (utc_fullYear date) @ padStart2 (utc_month date + 1) @ padStart2 (utc_date date) @ ''.''
       @ padStart2 (utc_hours date) @ padStart2 (nu_floor nu (number nu (utc_minutes date) / number nu 5) * 5)"

definition getCurrentRadarSituation :: "('n::inverse, 'i, 's) map_env \<Rightarrow> (byte list, 's) effect" where
  "getCurrentRadarSituation env s = me_get env ChmiOpendata
     (''/meteorology/weather/radar/composite/maxz/png_masked/pacz2gmaps3.z_max3d.''
       @ getCurrentDate (me_num env) (me_now env s) @ ''.0.png'') Response_Binary s"

definition getSurfaceMap :: "('n, 'i, 's) map_env \<Rightarrow> (byte list, 's) effect" where
  "getSurfaceMap env = me_get env ChmiPortal ''/radar/und/pacz2gmaps6.oro_col2sharp40.jpg'' Response_Binary"

definition getCitiesMap :: "('n, 'i, 's) map_env \<Rightarrow> (byte list, 's) effect" where
  "getCitiesMap env = me_get env ChmiPortal ''/radar/und/pacz2gmaps6.und3.png'' Response_Binary"

definition getBordersMap :: "('n, 'i, 's) map_env \<Rightarrow> (byte list, 's) effect" where
  "getBordersMap env = me_get env ChmiPortal ''/radar/und/pacz2gmaps6.und.015.hranice2px_4b.png'' Response_Binary"

subsection \<open>Cities and image\<close>

definition radar_bbox :: "'n::inverse num_utils \<Rightarrow> 'n bbox" where
  "radar_bbox nu =
     \<lparr>topLeft = \<lparr>latitude = decimal nu (52167, 1000), longitude = decimal nu (11267, 1000)\<rparr>,
      bottomRight = \<lparr>latitude = decimal nu (481, 10), longitude = decimal nu (20770, 1000)\<rparr>\<rparr>"

definition led_of :: "'n city \<Rightarrow> int rgba \<Rightarrow> 'n city_led" where
  "led_of c color = \<lparr>latitude = latitude c, longitude = longitude c, city_id = city_id c, city_name = city_name c,
     color_r = red color, color_g = green color, color_b = blue color\<rparr>"

fun colour_cities ::
  "('n::{minus,plus,times,inverse}, 'i, 's) map_env \<Rightarrow> 'i \<Rightarrow> 'n option \<Rightarrow> 'n city list \<Rightarrow> 'n city_led list \<Rightarrow> ('n city_led list, 's) effect" where
  "colour_cities env img radius [] citiesLED = returning citiesLED"
| "colour_cities env img radius (c # cs) citiesLED =
     and_then (getRGBAOnCoordinates (me_sharp env) (me_num env) (latitude c) (longitude c) (radar_bbox (me_num env))
                 (sh_clone (me_sharp env) img) radius)
       (\<lambda>color. colour_cities env img radius cs (citiesLED @ [led_of c color]))"

definition getCitiesFromRadar ::
  "('n::{minus,plus,times,inverse}, 'i, 's) map_env \<Rightarrow> 'n option \<Rightarrow> ('n city_led list, 's) effect" where
  "getCitiesFromRadar env radius =
     and_then (getCurrentRadarSituation env) (\<lambda>buffer.
       colour_cities env (sh_create (me_sharp env) buffer) radius (cities (me_num env)) [])"

text \<open>A layer, scaled to the surface.\<close>

definition scaled :: "('i, 's) sharp \<Rightarrow> byte list \<Rightarrow> int \<Rightarrow> int \<Rightarrow> (byte list, 's) effect" where
  "scaled sh buffer width height = sh_toBuffer sh (sh_resize sh (sh_create sh buffer) width height)"

definition getCurrentRadarImage :: "('n::{minus,plus,times,inverse}, 'i, 's) map_env \<Rightarrow> (byte list, 's) effect" where
  "getCurrentRadarImage env =
     (let sh = me_sharp env in
      and_then (getCurrentRadarSituation env) (\<lambda>radarBuffer.
      and_then (getSurfaceMap env) (\<lambda>surfaceBuffer.
      and_then (getCitiesMap env) (\<lambda>citiesBuffer.
      and_then (getBordersMap env) (\<lambda>bordersBuffer.
      let surface = sh_create sh surfaceBuffer in
      and_then (sh_metadata sh surface) (\<lambda>(height, width).
      and_then (scaled sh bordersBuffer width height) (\<lambda>borders.
      and_then (scaled sh citiesBuffer width height) (\<lambda>cityNames.
      and_then (scaled sh radarBuffer width height) (\<lambda>radar.
      and_then (createCitiesImage sh (me_num env) height width (radar_bbox (me_num env))) (\<lambda>cityDots.
      sh_toBuffer sh (sh_composite sh surface [borders, cityNames, radar, cityDots])))))))))))"

subsection \<open>Handlers\<close>

definition InternalServerError :: "string \<Rightarrow> thrown" where
  "InternalServerError message = JsError ''INTERNAL_SERVER_ERROR'' message"

definition DataSources :: "string list" where "DataSources = [''radar'']"

definition DataSourcesList :: "string list" where "DataSourcesList = DataSources"

definition DataSourcesCity ::
  "('n::{minus,plus,times,inverse}, 'i, 's) map_env \<Rightarrow> string \<Rightarrow> 'n option \<Rightarrow> ('n city_led list, 's) effect" where
  "DataSourcesCity env dataSource radius =
     (if dataSource = ''radar'' then getCitiesFromRadar env radius
      else throwing (InternalServerError (''Unhandled data source: '' @ dataSource)))"

definition DataSourcesImage :: "('n::{minus,plus,times,inverse}, 'i, 's) map_env \<Rightarrow> string \<Rightarrow> (byte list, 's) effect" where
  "DataSourcesImage env dataSource =
     (if dataSource = ''radar'' then getCurrentRadarImage env
      else throwing (InternalServerError (''Unhandled data source: '' @ dataSource)))"

subsection \<open>The health of the upstreams\<close>

text \<open>
  \<^verbatim>\<open>UpstreamHealthCheck\<close> reads the breakers of the clients built so far. \<open>state\<close> is the state of the
  breaker with a number, nothing when the library reports one the code does not know.
\<close>

definition upstream_health_check :: health_check where
  "upstream_health_check = \<lparr>hc_name = ''upstream-apis'', hc_critical = False\<rparr>"

definition degraded_apis :: "(nat \<Rightarrow> circuit_state option) \<Rightarrow> (string, nat) js_map \<Rightarrow> string list" where
  "degraded_apis state breakers =
     filter (\<lambda>api. case map_of breakers api of
         None \<Rightarrow> False
       | Some b \<Rightarrow> cr_status (breakerCheck (state b)) \<noteq> Pass)
       (map external_api_name [ChmiPortal, ChmiOpendata])"

definition upstream_check ::
  "service_env \<Rightarrow> (nat \<Rightarrow> circuit_state option) \<Rightarrow> (thrown, check_result, 'h http_service) action" where
  "upstream_check env state = and_then (service_breakers env) (\<lambda>breakers.
     let degraded = degraded_apis state breakers in
     returning (if degraded = [] then status_only Pass
       else status_detail Warn (''degraded: '' @ join '', '' (sort degraded))))"

subsection \<open>Every city is on the image\<close>

lemma cities_bounds:
  "list_all (\<lambda>(i, name, (a, b), (c, d)). 0 < b \<and> 0 < d \<and> 48750 * b \<le> 1000 * a \<and> 1000 * a \<le> 50780 * b
     \<and> 12360 * d \<le> 1000 * c \<and> 1000 * c \<le> 18550 * d) CITIES"
  by (simp add: CITIES_def)

lemma decimal_bounds:
  assumes "exact_numbers nu" "0 < b" "l * b \<le> 1000 * a" "1000 * a \<le> u * b"
  shows "rat_of_int l / 1000 \<le> decimal nu (a, b)" "decimal nu (a, b) \<le> rat_of_int u / 1000"
proof -
  have d: "decimal nu (a, b) = rat_of_int a / rat_of_int b" using assms(1) by (simp add: decimal_def exact_numbers_def)
  have "rat_of_int (l * b) \<le> rat_of_int (1000 * a)" "rat_of_int (1000 * a) \<le> rat_of_int (u * b)"
    using assms(3,4) by (simp_all only: of_int_le_iff)
  then show "rat_of_int l / 1000 \<le> decimal nu (a, b)" "decimal nu (a, b) \<le> rat_of_int u / 1000"
    using assms(2) by (simp_all add: d field_simps)
qed

lemma city_bounds:
  assumes nu: "exact_numbers nu" and c: "c \<in> set (cities nu)"
  shows "rat_of_int 48750 / 1000 \<le> latitude c" "latitude c \<le> rat_of_int 50780 / 1000"
    "rat_of_int 12360 / 1000 \<le> longitude c" "longitude c \<le> rat_of_int 18550 / 1000"
proof -
  from c obtain i name a b x y where e: "(i, name, (a, b), (x, y)) \<in> set CITIES" "c = city_of nu (i, name, (a, b), (x, y))"
    by (auto simp: cities_def)
  from cities_bounds e(1) have "0 < b \<and> 0 < y \<and> 48750 * b \<le> 1000 * a \<and> 1000 * a \<le> 50780 * b
     \<and> 12360 * y \<le> 1000 * x \<and> 1000 * x \<le> 18550 * y" by (fastforce simp: list_all_iff)
  with decimal_bounds [OF nu, of b 48750 a 50780] decimal_bounds [OF nu, of y 12360 x 18550] e(2)
  show "rat_of_int 48750 / 1000 \<le> latitude c" "latitude c \<le> rat_of_int 50780 / 1000"
    "rat_of_int 12360 / 1000 \<le> longitude c" "longitude c \<le> rat_of_int 18550 / 1000"
    by (simp_all add: city_of_def)
qed

text \<open>A fraction of an extent, with room for half a pixel above it.\<close>

lemma rounded_fraction:
  fixes f :: rat and n :: int
  assumes "0 \<le> f" "f \<le> 17 / 20" "4 \<le> n"
  shows "0 \<le> round (rat_of_int n * f)" "round (rat_of_int n * f) < n"
proof -
  have n: "(4 :: rat) \<le> rat_of_int n" using assms(3) by simp
  have "0 \<le> rat_of_int n * f" using assms(1) n by simp
  then show "0 \<le> round (rat_of_int n * f)" by (simp add: round_def)
  have "rat_of_int n * f \<le> rat_of_int n * (17 / 20)" using assms(2) n by (intro mult_left_mono) auto
  with n have "rat_of_int n * f + 1 / 2 < rat_of_int n" by linarith
  then show "round (rat_of_int n * f) < n" by (simp add: round_def floor_less_iff)
qed

text \<open>Where a coordinate lies on the radar image, in the fractions of its extent.\<close>

definition radar_pixel :: "raw_info \<Rightarrow> rat \<Rightarrow> rat \<Rightarrow> position" where
  "radar_pixel info lat lon =
     \<lparr>pos_x = round (of_int (ri_width info) * ((lon - 11267 / 1000) / (20770 / 1000 - 11267 / 1000))),
      pos_y = round (of_int (ri_height info) * ((52167 / 1000 - lat) / (52167 / 1000 - 481 / 10)))\<rparr>"

lemma position_on_radar:
  assumes nu: "exact_numbers nu"
  shows "getPositionOnImage nu lat lon (radar_bbox nu) (ri_height info) (ri_width info) = radar_pixel info lat lon"
proof -
  have "pos_x (getPositionOnImage nu lat lon (radar_bbox nu) (ri_height info) (ri_width info)) = pos_x (radar_pixel info lat lon)"
    "pos_y (getPositionOnImage nu lat lon (radar_bbox nu) (ri_height info) (ri_width info)) = pos_y (radar_pixel info lat lon)"
    by (simp_all add: getPositionOnImage_def radar_bbox_def decimal_def radar_pixel_def Let_def exact_numbersD [OF nu])
      (rule arg_cong [where f = round], simp add: field_simps)+
  then show ?thesis by simp
qed

lemma city_on_image:
  assumes nu: "exact_numbers nu" and c: "c \<in> set (cities nu)" and size: "4 \<le> ri_height info" "4 \<le> ri_width info"
  shows "in_image (ri_height info) (ri_width info) (pos_x (radar_pixel info (latitude c) (longitude c)),
    pos_y (radar_pixel info (latitude c) (longitude c)))"
proof -
  let ?x = "(longitude c - 11267 / 1000) / (20770 / 1000 - 11267 / 1000)"
  let ?y = "(52167 / 1000 - latitude c) / (52167 / 1000 - 481 / 10)"
  have x: "0 \<le> ?x" "?x \<le> 17 / 20" and y: "0 \<le> ?y" "?y \<le> 17 / 20"
    using city_bounds [OF nu c] by (simp_all add: field_simps)
  from rounded_fraction [OF x size(2)] rounded_fraction [OF y size(1)] show ?thesis by (simp add: in_image_def radar_pixel_def)
qed

subsection \<open>Every city has a colour\<close>

lemma mean_of_bytes:
  assumes "bs \<noteq> []"
  shows "0 \<le> round (mean_of bs)" "round (mean_of bs) \<le> 255"
proof -
  have "0 \<le> (\<Sum>b \<leftarrow> bs. case b of Some v \<Rightarrow> rat_of_nat (unat v) | None \<Rightarrow> 0)
      \<and> (\<Sum>b \<leftarrow> bs. case b of Some v \<Rightarrow> rat_of_nat (unat v) | None \<Rightarrow> 0) \<le> 255 * of_nat (length bs)"
    for bs :: "byte option list"
  proof (induction bs)
    case (Cons b bs)
    have "unat v < 2 ^ LENGTH(8)" for v :: byte by (rule unsigned_less)
    then have "unat v \<le> 255" for v :: byte by (simp add: less_Suc_eq_le [symmetric])
    then have "rat_of_nat (unat v) \<le> 255" for v :: byte by (simp del: of_nat_unat)
    then have "0 \<le> (case b of Some v \<Rightarrow> rat_of_nat (unat v) | None \<Rightarrow> 0) \<and> (case b of Some v \<Rightarrow> rat_of_nat (unat v) | None \<Rightarrow> 0) \<le> 255"
      by (simp split: option.split del: of_nat_unat)
    with Cons.IH show ?case by (simp add: algebra_simps)
  qed simp
  note sum = this [of bs]
  from sum have "0 \<le> mean_of bs" unfolding mean_of_def by (intro divide_nonneg_nonneg) (blast, simp)
  moreover from sum assms have "mean_of bs \<le> 255" unfolding mean_of_def
    by (subst pos_divide_le_eq) (simp_all del: of_nat_unat)
  ultimately show "0 \<le> round (mean_of bs)" "round (mean_of bs) \<le> 255" by (simp_all add: round_def floor_le_iff)
qed

text \<open>
  An image that can be read: every copy of it has the same dimensions and the same pixels, four bytes
  each.
\<close>

definition readable_image :: "('i, 's) sharp \<Rightarrow> 'i \<Rightarrow> byte list \<Rightarrow> raw_info \<Rightarrow> bool" where
  "readable_image sh img data info \<longleftrightarrow>
     (\<forall>s. sh_metadata sh (sh_clone sh img) s = (Inr (ri_height info, ri_width info), s)
        \<and> sh_raw sh (sh_clone sh img) s = (Inr (data, info), s))
     \<and> ri_channels info = 4 \<and> int (length data) = ri_width info * ri_height info * 4"

text \<open>
  The colour a city must get: per channel the rounded mean over the window around its position. The radius
  in kilometres, of which there are two and a half when none is given, becomes one in pixels by the mean of the
  pixels per kilometre along the upper edge of the image and along its left edge.
\<close>

definition window_colour :: "byte list \<Rightarrow> raw_info \<Rightarrow> int \<Rightarrow> rat city_led \<Rightarrow> bool" where
  "window_colour data info radius led \<longleftrightarrow> (\<exists>ps. ps \<noteq> [] \<and> distinct ps
     \<and> set ps = window info (radar_pixel info (latitude led) (longitude led)) radius
     \<and> color_r led = round (mean_of (map (red \<circ> pixel_at data info) ps))
     \<and> color_g led = round (mean_of (map (green \<circ> pixel_at data info) ps))
     \<and> color_b led = round (mean_of (map (blue \<circ> pixel_at data info) ps)))"

definition radar_width_km :: "rat num_utils \<Rightarrow> rat" where
  "radar_width_km nu = geo_km nu (52167 / 1000) (11267 / 1000) (52167 / 1000) (20770 / 1000)"

definition radar_height_km :: "rat num_utils \<Rightarrow> rat" where
  "radar_height_km nu = geo_km nu (52167 / 1000) (11267 / 1000) (481 / 10) (11267 / 1000)"

definition radius_in_pixels :: "rat num_utils \<Rightarrow> raw_info \<Rightarrow> rat option \<Rightarrow> int" where
  "radius_in_pixels nu info radius =
     round ((case radius of Some r \<Rightarrow> r | None \<Rightarrow> 5 / 2)
       * ((of_int (ri_width info) / radar_width_km nu + of_int (ri_height info) / radar_height_km nu) / 2))"

definition byte_colour :: "'n city_led \<Rightarrow> bool" where
  "byte_colour led \<longleftrightarrow> {color_r led, color_g led, color_b led} \<subseteq> {0..255}"

lemma radius_converted:
  assumes nu: "exact_numbers nu"
  shows "calculatePixelFromKilometers nu (case radius of Some r \<Rightarrow> r | None \<Rightarrow> decimal nu (25, 10)) (radar_bbox nu)
      (ri_height info) (ri_width info) = radius_in_pixels nu info radius"
  by (simp add: calculatePixelFromKilometers_def radius_in_pixels_def radar_width_km_def radar_height_km_def radar_bbox_def
      decimal_def Let_def exact_numbersD [OF nu] split: option.split)

lemma radius_not_negative:
  assumes "0 < radar_width_km nu" "0 < radar_height_km nu" "0 \<le> ri_width info" "0 \<le> ri_height info"
    and "0 \<le> (case radius of Some r \<Rightarrow> r | None \<Rightarrow> 5 / 2)"
  shows "0 \<le> radius_in_pixels nu info radius"
proof -
  have "0 \<le> (case radius of Some r \<Rightarrow> r | None \<Rightarrow> 5 / 2)
       * ((of_int (ri_width info) / radar_width_km nu + of_int (ri_height info) / radar_height_km nu) / 2)"
    using assms by (intro mult_nonneg_nonneg divide_nonneg_pos add_nonneg_nonneg) simp_all
  then show ?thesis by (simp add: radius_in_pixels_def round_def)
qed

lemma colour_of_city:
  assumes nu: "exact_numbers (me_num env)" and img: "readable_image (me_sharp env) img data info"
    and size: "4 \<le> ri_height info" "4 \<le> ri_width info" and radius: "0 \<le> radius_in_pixels (me_num env) info r"
    and c: "c \<in> set (cities (me_num env))"
  shows "\<exists>color. getRGBAOnCoordinates (me_sharp env) (me_num env) (latitude c) (longitude c) (radar_bbox (me_num env))
        (sh_clone (me_sharp env) img) r s = (Inr color, s)
     \<and> window_colour data info (radius_in_pixels (me_num env) info r) (led_of c color) \<and> byte_colour (led_of c color)"
proof -
  let ?nu = "me_num env" and ?sh = "me_sharp env"
  let ?pos = "radar_pixel info (latitude c) (longitude c)"
  from img have meta: "sh_metadata ?sh (sh_clone ?sh img) s = (Inr (ri_height info, ri_width info), s)"
    and raw: "sh_raw ?sh (sh_clone ?sh img) s = (Inr (data, info), s)"
    and fit: "ri_channels info = 4" "int (length data) = ri_width info * ri_height info * 4"
    by (simp_all add: readable_image_def)
  from window_read [OF exact_numbersD(1) [OF nu] raw fit, of ?pos "radius_in_pixels ?nu info r"] obtain ps where
    run: "getPixelsWithRadius ?sh ?nu ?pos (sh_clone ?sh img) (radius_in_pixels ?nu info r) s = (Inr (map (pixel_at data info) ps), s)"
    and ps: "distinct ps" "set ps = window info ?pos (radius_in_pixels ?nu info r)" by blast
  have "(pos_x ?pos, pos_y ?pos) \<in> set ps"
    using city_on_image [OF nu c size] radius by (simp add: ps(2) window_def in_image_def)
  then have nonempty: "ps \<noteq> []" by auto
  let ?color = "mean_colour ?nu (map (pixel_at data info) ps)"
  have color: "red ?color = round (mean_of (map (red \<circ> pixel_at data info) ps))"
    "green ?color = round (mean_of (map (green \<circ> pixel_at data info) ps))"
    "blue ?color = round (mean_of (map (blue \<circ> pixel_at data info) ps))"
    using nonempty by (simp_all add: mean_colour_def exact_numbersD [OF nu])
  have "getRGBAOnCoordinates ?sh ?nu (latitude c) (longitude c) (radar_bbox ?nu) (sh_clone ?sh img) r s = (Inr ?color, s)"
    using meta run by (simp add: getRGBAOnCoordinates_def position_on_radar [OF nu] radius_converted [OF nu])
  moreover have "window_colour data info (radius_in_pixels ?nu info r) (led_of c ?color)"
    unfolding window_colour_def led_of_def using ps nonempty color by (intro exI [of _ ps]) simp
  moreover have "byte_colour (led_of c ?color)"
    using mean_of_bytes nonempty by (simp add: byte_colour_def led_of_def color)
  ultimately show ?thesis by blast
qed

lemma colour_cities_run:
  assumes nu: "exact_numbers (me_num env)" and img: "readable_image (me_sharp env) img data info"
    and size: "4 \<le> ri_height info" "4 \<le> ri_width info" and radius: "0 \<le> radius_in_pixels (me_num env) info r"
    and cs: "set cs \<subseteq> set (cities (me_num env))"
  shows "\<exists>leds. colour_cities env img r cs acc s = (Inr (acc @ leds), s) \<and> map city.truncate leds = cs
     \<and> list_all (\<lambda>led. window_colour data info (radius_in_pixels (me_num env) info r) led \<and> byte_colour led) leds"
  using cs
proof (induction cs arbitrary: acc)
  case (Cons c cs)
  from Cons.prems colour_of_city [OF nu img size radius, of c s] obtain color where
    color: "getRGBAOnCoordinates (me_sharp env) (me_num env) (latitude c) (longitude c) (radar_bbox (me_num env))
        (sh_clone (me_sharp env) img) r s = (Inr color, s)"
      "window_colour data info (radius_in_pixels (me_num env) info r) (led_of c color)" "byte_colour (led_of c color)"
    by auto
  from Cons.prems Cons.IH [of "acc @ [led_of c color]"] obtain leds where
    "colour_cities env img r cs (acc @ [led_of c color]) s = (Inr ((acc @ [led_of c color]) @ leds), s)"
    "map city.truncate leds = cs"
    "list_all (\<lambda>led. window_colour data info (radius_in_pixels (me_num env) info r) led \<and> byte_colour led) leds"
    by auto
  moreover have "city.truncate (led_of c color) = c" by (simp add: led_of_def city.defs)
  ultimately show ?case using color by (intro exI [of _ "led_of c color # leds"]) simp
qed simp

text \<open>
  Property C39. Every city is answered, in order, with a colour. In exact rational arithmetic, on any radar image of
  four channels and at least four by four pixels and for any radius that is not negative, the answer lists the
  cities of the display, and each colour is the rounded mean of the bytes in the window around the city's pixel
  that is the radius, converted from kilometres, wide to each side: it has at least one pixel, so the mean
  is a byte again.
\<close>

theorem cities_answered:
  assumes "exact_numbers (me_num env)" "0 < radar_width_km (me_num env)" "0 < radar_height_km (me_num env)"
    and "getCurrentRadarSituation env s = (Inr buffer, s1)"
    and "readable_image (me_sharp env) (sh_create (me_sharp env) buffer) data info"
    and "4 \<le> ri_height info" "4 \<le> ri_width info" "0 \<le> (case radius of Some r \<Rightarrow> r | None \<Rightarrow> 5 / 2)"
  shows "\<exists>leds. DataSourcesCity env ''radar'' radius s = (Inr leds, s1) \<and> map city.truncate leds = cities (me_num env)
    \<and> list_all (\<lambda>led. window_colour data info (radius_in_pixels (me_num env) info radius) led \<and> byte_colour led) leds"
proof -
  have "0 \<le> radius_in_pixels (me_num env) info radius" using assms by (intro radius_not_negative) simp_all
  from colour_cities_run [OF assms(1,5,6,7) this order_refl, of "[]" s1] assms(4) show ?thesis
    by (auto simp: DataSourcesCity_def getCitiesFromRadar_def)
qed

definition sample_map_env :: "(rat, byte list \<times> raw_info, unit) map_env" where
  "sample_map_env = \<lparr>me_num = rational_utils, me_sharp = plain_sharp, me_get = (\<lambda>api path response. returning (replicate 64 7)),
     me_now = (\<lambda>_. \<lparr>utc_fullYear = 2026, utc_month = 0, utc_date = 5, utc_hours = 7, utc_minutes = 42\<rparr>)\<rparr>"

lemma cities_answered_witness:
  "\<exists>leds. DataSourcesCity sample_map_env ''radar'' (Some 0) () = (Inr leds, ()) \<and> map city.truncate leds = cities rational_utils
    \<and> list_all (\<lambda>led. window_colour (replicate 64 7) \<lparr>ri_width = 4, ri_height = 4, ri_channels = 4\<rparr>
        (radius_in_pixels rational_utils \<lparr>ri_width = 4, ri_height = 4, ri_channels = 4\<rparr> (Some 0)) led \<and> byte_colour led) leds"
proof -
  have nu: "me_num sample_map_env = rational_utils" and sh: "me_sharp sample_map_env = plain_sharp"
    by (simp_all add: sample_map_env_def)
  let ?info = "\<lparr>ri_width = 4, ri_height = 4, ri_channels = 4\<rparr>"
  have "getCurrentRadarSituation sample_map_env () = (Inr (replicate 64 7), ())"
    by (simp add: getCurrentRadarSituation_def sample_map_env_def)
  moreover have "readable_image plain_sharp (sh_create plain_sharp (replicate 64 7)) (replicate 64 7) ?info"
    by (simp add: readable_image_def plain_sharp_def)
  moreover have "0 < radar_width_km rational_utils" "0 < radar_height_km rational_utils"
    by (simp_all add: radar_width_km_def radar_height_km_def rational_utils_def)
  ultimately show ?thesis
    using cities_answered [of sample_map_env "()" "replicate 64 7" "()" "replicate 64 7" ?info "Some 0"]
    by (simp only: nu sh exact_rational_utils raw_info.simps option.case)
qed

text \<open>
  The name of the image: the minute is floored to five, so a request at 7:42 asks for the image of 7:40.
\<close>

lemma current_date_floored:
  "getCurrentDate rational_utils \<lparr>utc_fullYear = 2026, utc_month = 0, utc_date = 5, utc_hours = 7, utc_minutes = 42\<rparr> = ''20260105.0740''"
proof -
  have "\<lfloor>42 / (5 :: rat)\<rfloor> = 8" by (rule floor_unique) simp_all
  then show ?thesis
    by (simp add: getCurrentDate_def rational_utils_def padStart2_def show_int_def show_nat.simps digit_char_def char_of_def bit_0 Let_def)
qed

subsection \<open>Upstream outages\<close>

lemma degraded_apis_Nil:
  "degraded_apis state breakers = [] \<longleftrightarrow>
     (\<forall>api b. map_of breakers (external_api_name api) = Some b \<longrightarrow> state b = Some Circuit_Closed)"
proof -
  have "cr_status (breakerCheck x) = Pass \<longleftrightarrow> x = Some Circuit_Closed" for x
    by (cases x) (auto simp: breakerCheck_def status_only_def status_detail_def split: prod.splits elim: circuit_mapping.elims)
  moreover have "set [ChmiPortal, ChmiOpendata] = UNIV" by (auto intro: external_api_key.exhaust)
  ultimately show ?thesis
    unfolding degraded_apis_def filter_empty_conv set_map
    by (auto split: option.splits)
qed

text \<open>
  An outage upstream degrades this service and never takes it down. Whatever clients were built and
  whatever state their breakers are in, the check passes exactly when every breaker there is is
  closed, warns otherwise, and, even when it throws, leaves readiness to the other checks.
\<close>

theorem upstream_outage_keeps_ready:
  "(isReady (runOne upstream_health_check (Check_Settled (fst (upstream_check env state s))) # rest) \<longleftrightarrow> isReady rest)
   \<and> (case upstream_check env state s of
        (Inl e, s') \<Rightarrow> logging_of env = None \<and> s' = s
      | (Inr result, s') \<Rightarrow> cr_status result =
          (if \<exists>api b. map_of (case hs_factory s of Some f \<Rightarrow> hf_breakers f | None \<Rightarrow> []) (external_api_name api) = Some b
               \<and> state b \<noteq> Some Circuit_Closed then Warn else Pass))"
proof
  show "isReady (runOne upstream_health_check (Check_Settled (fst (upstream_check env state s))) # rest) \<longleftrightarrow> isReady rest"
    by (auto simp: isReady_def runOne_def upstream_health_check_def split: prod.splits check_outcome.splits sum.splits)
  let ?breakers = "case hs_factory s of Some f \<Rightarrow> hf_breakers f | None \<Rightarrow> []"
  have "upstream_check env state s = (Inl e, s') \<Longrightarrow> logging_of env = None \<and> s' = s" for e s'
    by (auto simp: upstream_check_def service_breakers_def and_then_def Let_def split: option.splits prod.splits sum.splits)
  moreover have "upstream_check env state s = (Inr result, s') \<Longrightarrow>
      cr_status result = (if degraded_apis state ?breakers = [] then Pass else Warn)" for result s'
    by (auto simp: upstream_check_def service_breakers_def and_then_def Let_def status_only_def status_detail_def
        split: option.splits prod.splits sum.splits if_splits)
  ultimately show "case upstream_check env state s of
        (Inl e, s') \<Rightarrow> logging_of env = None \<and> s' = s
      | (Inr result, s') \<Rightarrow> cr_status result =
          (if \<exists>api b. map_of ?breakers (external_api_name api) = Some b \<and> state b \<noteq> Some Circuit_Closed then Warn else Pass)"
    unfolding degraded_apis_Nil by (auto split: prod.splits sum.splits)
qed

end
