(* ===== verification/Routes.thy ===== *)
theory Routes
  imports Endpoints Handlers Transports Qr_Manager Map_Feeder Health
begin

text \<open>
  The controllers of the three services (\<^verbatim>\<open>apis/*/src/**/controllers/\<close>): what a call of each route
  hands to which handler and with which status it is answered, the access decorators of each
  controller and route, the declared bounds of the parameters, and a whole request, which the guard,
  the parameters and the handler see in this order. A server mounts them beside the health probes and
  the page of its documentation. A request comes with its route resolved and its parameters bound to
  their types; both are the framework's work.
\<close>

text \<open>The services' own names for the callers they admit.\<close>

definition AuthMethod_Idp :: string where "AuthMethod_Idp = ''IDP''"
definition AuthRole_Admin :: string where "AuthRole_Admin = ''miot-bridge.admin''"

subsection \<open>\<^verbatim>\<open>qr-manager-api\<close>\<close>

datatype qr_call =
    Code_Create string string qr_type
  | Code_List qr_filter
  | Code_Get string
  | Code_Update string qr_partial
  | Code_Delete string
  | Code_Image string "image_format option" "int option" "error_correction option"

datatype 'b qr_answer =
    Code_Answer qr_response
  | Codes_Answer "qr_response list"
  | No_Content
  | Image_Answer string 'b
  | Redirect_To string

definition QrCodeController_auth :: "auth_decorator list" where
  "QrCodeController_auth = [Use_Authenticate [AuthMethod_Idp]]"

fun qr_call_auth :: "qr_call \<Rightarrow> auth_decorator list" where
  "qr_call_auth (Code_Image _ _ _ _) = [Use_Anonymous]"
| "qr_call_auth _ = []"

definition MIN_PNG_SIZE :: int where "MIN_PNG_SIZE = 64"
definition MAX_PNG_SIZE :: int where "MAX_PNG_SIZE = 4096"

fun qr_call_valid :: "qr_call \<Rightarrow> bool" where
  "qr_call_valid (Code_Image _ _ px _) = (case px of None \<Rightarrow> True | Some w \<Rightarrow> MIN_PNG_SIZE \<le> w \<and> w \<le> MAX_PNG_SIZE)"
| "qr_call_valid _ = True"

definition answering :: "int \<Rightarrow> ('a \<Rightarrow> 'b) \<Rightarrow> ('e, 'a, 's) action \<Rightarrow> ('e, int \<times> 'b, 's) action" where
  "answering status f m = and_then m (\<lambda>a. returning (status, f a))"

fun QrCodeController ::
  "'s qr_env \<Rightarrow> (render_call \<Rightarrow> (qr_error, 'b, 's) action) \<Rightarrow> qr_call \<Rightarrow> (qr_error, int \<times> 'b qr_answer, 's) action" where
  "QrCodeController env qrcode (Code_Create url label category) = answering 201 Code_Answer (QrCodeCreate env url label category)"
| "QrCodeController env qrcode (Code_List query) = answering 200 Codes_Answer (QrCodeList env query)"
| "QrCodeController env qrcode (Code_Get i) = answering 200 Code_Answer (QrCodeGet env i)"
| "QrCodeController env qrcode (Code_Update i request) = answering 200 Code_Answer (QrCodeUpdate env i request)"
| "QrCodeController env qrcode (Code_Delete i) = answering 204 (\<lambda>_. No_Content) (QrCodeDelete env i)"
| "QrCodeController env qrcode (Code_Image i format px ecLevel) =
     answering 200 (\<lambda>(mime, bytes). Image_Answer mime bytes)
       (QrCodeImage env qrcode i (case format of None \<Rightarrow> SVG | Some f \<Rightarrow> f) px ecLevel)"

text \<open>The public redirect; its controller has no access decorator.\<close>

definition RedirectController ::
  "'s qr_env \<Rightarrow> string \<Rightarrow> ('s \<Rightarrow> bool option) \<Rightarrow> (qr_error, int \<times> 'b qr_answer, 's) action" where
  "RedirectController env slug signal = answering 302 Redirect_To (RedirectHandler env slug signal)"

datatype 's qr_manager_call = On_QrCodes qr_call | On_Redirect string "'s \<Rightarrow> bool option"

fun qr_manager_serve ::
  "guard_env \<Rightarrow> 's qr_env \<Rightarrow> (render_call \<Rightarrow> (qr_error, 'b, 's) action) \<Rightarrow> credential_source
     \<Rightarrow> 's qr_manager_call \<Rightarrow> 's \<Rightarrow> (qr_error, int \<times> 'b qr_answer) reply \<times> 's" where
  "qr_manager_serve g env qrcode source (On_QrCodes c) =
     serve g source (QrCodeController_auth @ qr_call_auth c) (qr_call_valid c) (QrCodeController env qrcode c)"
| "qr_manager_serve g env qrcode source (On_Redirect slug signal) =
     serve g source [] (SLUG_REGEX slug) (RedirectController env slug signal)"

subsection \<open>\<^verbatim>\<open>miot-bridge-api\<close>\<close>

datatype devices_call =
    Device_Discover device_request
  | Device_Register device_request
  | Device_List
  | Device_Read string
  | Device_Remove string

datatype notifications_call =
    Notify_Create string "string list"
  | Notify_List string
  | Notify_Delete_All string
  | Notify_Delete string string

datatype overrides_call =
    Override_List "string option"
  | Override_New model_override
  | Override_Remove string

datatype command_call =
    Command_Get command_request
  | Command_Post command_request
  | Raw_Get raw_request
  | Raw_Post raw_request

datatype bridge_answer =
    Discovered "device_request \<times> int \<times> string \<times> simplified_spec"
  | Device_Answer device_cache simplified_spec
  | Devices_Answer "(device_cache \<times> simplified_spec) list"
  | Notifications_Answer "notification list"
  | Override_Answer model_override
  | Overrides_Answer "model_override list"
  | Command_Answer "json option option"
  | Nothing

fun DevicesController :: "'n host_env \<Rightarrow> devices_call \<Rightarrow> (int \<times> bridge_answer, 'n) handler" where
  "DevicesController env (Device_Discover request) = answering 200 Discovered (DeviceDiscovery env request)"
| "DevicesController env (Device_Register request) = answering 201 (\<lambda>(d, spec). Device_Answer d spec) (DevicePost env request)"
| "DevicesController env Device_List = answering 200 Devices_Answer (DeviceGetAll env)"
| "DevicesController env (Device_Read i) = answering 200 (\<lambda>(d, spec). Device_Answer d spec) (DeviceGet env i)"
| "DevicesController env (Device_Remove i) = answering 204 (\<lambda>_. Nothing) (DeviceDelete env i)"

fun DeviceNotificationsController :: "'n host_env \<Rightarrow> notifications_call \<Rightarrow> (int \<times> bridge_answer, 'n) handler" where
  "DeviceNotificationsController env (Notify_Create d properties) = answering 201 Notifications_Answer (NotificationPost env d properties)"
| "DeviceNotificationsController env (Notify_List d) = answering 200 Notifications_Answer (NotificationGetAll d)"
| "DeviceNotificationsController env (Notify_Delete_All d) = answering 204 (\<lambda>_. Nothing) (NotificationDeleteAll d)"
| "DeviceNotificationsController env (Notify_Delete d i) = answering 204 (\<lambda>_. Nothing) (NotificationDelete d i)"

fun ModelPropertyOverridesController :: "'n host_env \<Rightarrow> overrides_call \<Rightarrow> (int \<times> bridge_answer, 'n) handler" where
  "ModelPropertyOverridesController env (Override_List model) = answering 200 Overrides_Answer (OverrideGetAll env model)"
| "ModelPropertyOverridesController env (Override_New request) = answering 201 Override_Answer (OverrideCreate env request)"
| "ModelPropertyOverridesController env (Override_Remove i) = answering 204 (\<lambda>_. Nothing) (OverrideDelete env i)"

definition command_answer :: "http_answer \<Rightarrow> int \<times> bridge_answer" where
  "command_answer a = (an_status a, Command_Answer (an_body a))"

fun CommandController :: "'n host_env \<Rightarrow> command_call \<Rightarrow> (int \<times> bridge_answer, 'n) handler" where
  "CommandController env (Command_Get query) =
     and_then (on_bridge (CommandHandler (command_env env) query)) (\<lambda>a. returning (command_answer a))"
| "CommandController env (Command_Post request) =
     and_then (on_bridge (CommandHandler (command_env env) request)) (\<lambda>a. returning (command_answer a))"
| "CommandController env (Raw_Get query) =
     and_then (on_bridge (RawCommandHandler (command_env env) query)) (\<lambda>a. returning (command_answer a))"
| "CommandController env (Raw_Post request) =
     and_then (on_bridge (RawCommandHandler (command_env env) request)) (\<lambda>a. returning (command_answer a))"

definition DevicesController_auth :: "auth_decorator list" where
  "DevicesController_auth = [Use_Authenticate [AuthMethod_Idp]]"

definition DeviceNotificationsController_auth :: "auth_decorator list" where
  "DeviceNotificationsController_auth = [Use_Authenticate [AuthMethod_Idp]]"

definition ModelPropertyOverridesController_auth :: "auth_decorator list" where
  "ModelPropertyOverridesController_auth = [Use_Authenticate [AuthMethod_Idp]]"

definition CommandController_auth :: "auth_decorator list" where
  "CommandController_auth = [Use_Authenticate [AuthMethod_Idp], Use_RequireRoles [AuthRole_Admin]]"

datatype bridge_call =
    On_Devices devices_call
  | On_Notifications notifications_call
  | On_Overrides overrides_call
  | On_Commands command_call

fun bridge_auth :: "bridge_call \<Rightarrow> auth_decorator list" where
  "bridge_auth (On_Devices _) = DevicesController_auth"
| "bridge_auth (On_Notifications _) = DeviceNotificationsController_auth"
| "bridge_auth (On_Overrides _) = ModelPropertyOverridesController_auth"
| "bridge_auth (On_Commands _) = CommandController_auth"

fun bridge_handle :: "'n host_env \<Rightarrow> bridge_call \<Rightarrow> (int \<times> bridge_answer, 'n) handler" where
  "bridge_handle env (On_Devices c) = DevicesController env c"
| "bridge_handle env (On_Notifications c) = DeviceNotificationsController env c"
| "bridge_handle env (On_Overrides c) = ModelPropertyOverridesController env c"
| "bridge_handle env (On_Commands c) = CommandController env c"

definition bridge_serve ::
  "guard_env \<Rightarrow> 'n host_env \<Rightarrow> credential_source \<Rightarrow> bridge_call \<Rightarrow> 'n host app
     \<Rightarrow> (thrown, int \<times> bridge_answer) reply \<times> 'n host app" where
  "bridge_serve g env source c = serve g source (bridge_auth c) True (bridge_handle env c)"

subsection \<open>\<^verbatim>\<open>interactive-map-feeder-api\<close>\<close>

datatype 'n sources_call =
    Sources_List
  | Source_Cities string "'n option"
  | Source_Cities_Iot string "'n option"
  | Source_Image string

datatype 'n sources_answer = Sources_Answer "string list" | Cities_Answer "'n city_led list" | Png_Answer "byte list"

fun DataSourcesController ::
  "('n::{minus,plus,times,inverse}, 'i, 's) map_env \<Rightarrow> 'n sources_call \<Rightarrow> (int \<times> 'n sources_answer, 's) effect" where
  "DataSourcesController env Sources_List = returning (200, Sources_Answer DataSourcesList)"
| "DataSourcesController env (Source_Cities source radius) =
     answering 200 Cities_Answer (DataSourcesCity env source (Some (case radius of None \<Rightarrow> decimal (me_num env) (25, 10) | Some r \<Rightarrow> r)))"
| "DataSourcesController env (Source_Cities_Iot source radius) =
     answering 200 Cities_Answer (DataSourcesCity env source (Some (case radius of None \<Rightarrow> decimal (me_num env) (25, 10) | Some r \<Rightarrow> r)))"
| "DataSourcesController env (Source_Image source) = answering 200 Png_Answer (DataSourcesImage env source)"

definition DataSourcesController_auth :: "auth_decorator list" where
  "DataSourcesController_auth = [Use_Authenticate [AuthMethod_Idp]]"

fun sources_call_valid :: "'n sources_call \<Rightarrow> bool" where
  "sources_call_valid Sources_List = True"
| "sources_call_valid (Source_Cities source _) = (source \<in> set DataSources)"
| "sources_call_valid (Source_Cities_Iot source _) = (source \<in> set DataSources)"
| "sources_call_valid (Source_Image source) = (source \<in> set DataSources)"

definition feeder_serve ::
  "guard_env \<Rightarrow> ('n::{minus,plus,times,inverse}, 'i, 's) map_env \<Rightarrow> credential_source \<Rightarrow> 'n sources_call
     \<Rightarrow> 's \<Rightarrow> (thrown, int \<times> 'n sources_answer) reply \<times> 's" where
  "feeder_serve g env source c =
     serve g source DataSourcesController_auth (sources_call_valid c) (DataSourcesController env c)"

subsection \<open>What a server mounts\<close>

text \<open>
  \<^verbatim>\<open>HealthController\<close> of \<^verbatim>\<open>packages/tsed-health\<close>, on the flag of the shutdown and the container: a draining
  service answers before it asks the registry. It has no access decorator.
\<close>

datatype health_call = Health_Live | Health_Ready | Health_Detail

definition probing ::
  "(health_registry \<times> 'w \<Rightarrow> probe_response \<times> health_registry \<times> 'w) \<Rightarrow> (probe_response, bool \<times> 'w health_container) effect" where
  "probing call = (\<lambda>(draining, container).
     if draining then (Inr (respond 503 (bare_report Fail)), (draining, container))
     else case with_registry call container of (answer, container') \<Rightarrow> (Inr answer, (draining, container')))"

fun HealthController :: "'w health_world \<Rightarrow> health_call \<Rightarrow> (probe_response, bool \<times> 'w health_container) effect" where
  "HealthController hw Health_Live = returning probe_live"
| "HealthController hw Health_Ready = probing (probe_ready hw False)"
| "HealthController hw Health_Detail = probing (probe_detail hw False)"

definition HealthController_auth :: "auth_decorator list" where
  "HealthController_auth = []"

text \<open>
  The three servers mount the documentation page, the probes and the controllers of the service.
  \<^verbatim>\<open>SwaggerController\<close> is a library's: a parameter, on a state of its own.
\<close>

datatype 'c server_call = Swagger_Page string | Health_Probe health_call | Mounted 'c

datatype ('p, 'e, 'a) server_reply =
    Page_Reply "thrown + 'p"
  | Probe_Reply "(thrown, probe_response) reply"
  | Mounted_Reply "('e, 'a) reply"

record ('s, 'w, 'v) server =
  sv_app :: 's
  sv_health :: "bool \<times> 'w health_container"
  sv_swagger :: 'v

fun server_serve ::
  "guard_env \<Rightarrow> 'w health_world \<Rightarrow> (string \<Rightarrow> ('p, 'v) effect) \<Rightarrow> credential_source \<Rightarrow> ('c \<Rightarrow> 's \<Rightarrow> ('e, 'a) reply \<times> 's)
     \<Rightarrow> 'c server_call \<Rightarrow> ('s, 'w, 'v) server \<Rightarrow> ('p, 'e, 'a) server_reply \<times> ('s, 'w, 'v) server" where
  "server_serve g hw swagger source controllers (Swagger_Page path) sv =
     (case swagger path (sv_swagger sv) of (r, v) \<Rightarrow> (Page_Reply r, sv\<lparr>sv_swagger := v\<rparr>))"
| "server_serve g hw swagger source controllers (Health_Probe probe) sv =
     (case serve g source HealthController_auth True (HealthController hw probe) (sv_health sv) of
        (r, h) \<Rightarrow> (Probe_Reply r, sv\<lparr>sv_health := h\<rparr>))"
| "server_serve g hw swagger source controllers (Mounted c) sv =
     (case controllers c (sv_app sv) of (r, s) \<Rightarrow> (Mounted_Reply r, sv\<lparr>sv_app := s\<rparr>))"

definition bridge_server ::
  "guard_env \<Rightarrow> 'n host_env \<Rightarrow> 'w health_world \<Rightarrow> (string \<Rightarrow> ('p, 'v) effect) \<Rightarrow> credential_source \<Rightarrow> bridge_call server_call
     \<Rightarrow> ('n host app, 'w, 'v) server \<Rightarrow> ('p, thrown, int \<times> bridge_answer) server_reply \<times> ('n host app, 'w, 'v) server" where
  "bridge_server g env hw swagger source = server_serve g hw swagger source (bridge_serve g env source)"

definition qr_manager_server ::
  "guard_env \<Rightarrow> 's qr_env \<Rightarrow> (render_call \<Rightarrow> (qr_error, 'b, 's) action) \<Rightarrow> 'w health_world \<Rightarrow> (string \<Rightarrow> ('p, 'v) effect)
     \<Rightarrow> credential_source \<Rightarrow> 's qr_manager_call server_call \<Rightarrow> ('s, 'w, 'v) server
     \<Rightarrow> ('p, qr_error, int \<times> 'b qr_answer) server_reply \<times> ('s, 'w, 'v) server" where
  "qr_manager_server g env qrcode hw swagger source = server_serve g hw swagger source (qr_manager_serve g env qrcode source)"

definition feeder_server ::
  "guard_env \<Rightarrow> ('n::{minus,plus,times,inverse}, 'i, 's) map_env \<Rightarrow> 'w health_world \<Rightarrow> (string \<Rightarrow> ('p, 'v) effect)
     \<Rightarrow> credential_source \<Rightarrow> 'n sources_call server_call \<Rightarrow> ('s, 'w, 'v) server
     \<Rightarrow> ('p, thrown, int \<times> 'n sources_answer) server_reply \<times> ('s, 'w, 'v) server" where
  "feeder_server g env hw swagger source = server_serve g hw swagger source (feeder_serve g env source)"

text \<open>The page and the probes leave the service's own state alone, and a probe is answered without a credential.\<close>

lemma server_serve_app:
  assumes "server_serve g hw swagger source controllers c sv = (reply, sv')"
    and "sv_app sv' \<noteq> sv_app sv \<or> (\<exists>r. reply = Mounted_Reply r)"
  obtains k r s where "c = Mounted k" and "controllers k (sv_app sv) = (r, s)" and "reply = Mounted_Reply r" and "sv_app sv' = s"
  using assms by (cases c) (auto split: prod.splits)

lemma probes_are_open:
  assumes "server_serve g hw swagger source controllers (Health_Probe probe) sv = (reply, sv')"
  shows "\<exists>answer. reply = Probe_Reply (Answered answer) \<and> sv_app sv' = sv_app sv
    \<and> (fst (sv_health sv) \<and> probe \<noteq> Health_Live \<longrightarrow> pb_status answer = 503)"
proof -
  obtain r h where run: "serve g source HealthController_auth True (HealthController hw probe) (sv_health sv) = (r, h)" by (meson surj_pair)
  have "\<exists>answer h'. HealthController hw probe (sv_health sv) = (Inr answer, h')
      \<and> (fst (sv_health sv) \<and> probe \<noteq> Health_Live \<longrightarrow> pb_status answer = 503)"
  proof (cases "fst (sv_health sv)")
    case True
    then show ?thesis by (cases probe; cases "sv_health sv") (auto simp: returning_def probing_def respond_def)
  next
    case False
    then show ?thesis
      by (cases probe; cases "sv_health sv"; cases "with_registry (probe_ready hw False) (snd (sv_health sv))";
          cases "with_registry (probe_detail hw False) (snd (sv_health sv))") (auto simp: returning_def probing_def)
  qed
  then obtain answer h' where answer: "HealthController hw probe (sv_health sv) = (Inr answer, h')"
    "fst (sv_health sv) \<and> probe \<noteq> Health_Live \<longrightarrow> pb_status answer = 503" by blast
  have "r = Answered answer"
    using run by (simp add: serve_def HealthController_auth_def undecorated_options answer(1) split: unit.splits)
  with answer(2) assms run show ?thesis by (intro exI [of _ answer]) auto
qed

subsection \<open>Who is served\<close>

lemma served_idp:
  assumes laws: "merges_options g" "reads_methods g [AuthMethod_Idp]"
    and ds: "Use_Authenticate [AuthMethod_Idp] \<in> set ds" "\<forall>ms. Use_Authenticate ms \<in> set ds \<longrightarrow> ms = [AuthMethod_Idp]"
      "Use_Anonymous \<notin> set ds"
    and run: "serve g source ds valid handler s = (r, s')" "\<forall>e. r \<noteq> Rejected e"
  shows "\<exists>v p. map_of (ge_verifiers g) AuthMethod_Idp = Some v \<and> consult v source = Verified p
    \<and> (\<forall>roles. Use_RequireRoles roles \<in> set ds \<longrightarrow> roles = [] \<or> (\<exists>role \<in> set roles. role \<in> set (p_roles p)))"
proof -
  have "\<not> (\<exists>e. serve g source ds valid handler s = (Rejected e, s))" using run by auto
  from served_admitted [OF laws ds(2,1,3) this] show ?thesis by (auto simp: admitted_def)
qed

text \<open>
  A request to one of the bridge's controllers that the guard does not reject, and so any that reaches a
  handler or changes the state, came with a credential the verifier configured for the identity provider
  verified; and on the command routes the principal holds the administrator's role.
\<close>

lemma controllers_serve_callers:
  assumes "merges_options g" and "reads_methods g [AuthMethod_Idp]"
    and "bridge_serve g env source c s = (r, s')" and "(\<forall>e. r \<noteq> Rejected e) \<or> s' \<noteq> s"
  shows "\<exists>v p. map_of (ge_verifiers g) AuthMethod_Idp = Some v \<and> consult v source = Verified p
    \<and> (case c of On_Commands _ \<Rightarrow> AuthRole_Admin \<in> set (p_roles p) | _ \<Rightarrow> True)"
proof -
  have reached: "\<forall>e. r \<noteq> Rejected e"
    using assms(3,4) served_state [of g source "bridge_auth c" True "bridge_handle env c" s r s'] by (auto simp: bridge_serve_def)
  have ds: "Use_Authenticate [AuthMethod_Idp] \<in> set (bridge_auth c)"
    "\<forall>ms. Use_Authenticate ms \<in> set (bridge_auth c) \<longrightarrow> ms = [AuthMethod_Idp]" "Use_Anonymous \<notin> set (bridge_auth c)"
    by (cases c; simp add: DevicesController_auth_def DeviceNotificationsController_auth_def
        ModelPropertyOverridesController_auth_def CommandController_auth_def)+
  have admin: "Use_RequireRoles [AuthRole_Admin] \<in> set (bridge_auth c)" if "c = On_Commands x" for x
    using that by (simp add: CommandController_auth_def)
  from served_idp [OF assms(1,2) ds assms(3) [unfolded bridge_serve_def] reached] admin show ?thesis
    by (cases c) fastforce+
qed


text \<open>The two routes open to everybody leave the collection as it is.\<close>

lemma findBySlug_docs:
  assumes "mongo_collection env cast docs"
  shows "docs (snd (findBySlug env slug signal s)) = docs s"
proof -
  have "docs t = docs s" if "qe_attempt env p (qe_findOne env slug) s = (x, t)" for p x t
    using law_lookup [OF assms, where p = p and slug = slug and s = s] that by simp
  then show ?thesis unfolding slug_looked_up_once
    by (auto split: prod.splits sum.splits failure.splits)
qed

lemma docs_and_then:
  assumes "\<And>a t. docs (snd (k a t)) = docs t"
  shows "docs (snd (and_then m k s)) = docs (snd (m s))"
proof (cases "m s")
  case (Pair x t)
  then show ?thesis using assms by (cases x) (simp_all add: and_then_def)
qed

lemma answering_state: "snd (answering status f m s) = snd (m s)"
  by (auto simp: answering_def and_then_def split: prod.splits sum.splits)

lemma docs_answering: "docs (snd (answering status f m s)) = docs (snd (m s))"
  unfolding answering_def by (rule docs_and_then) simp

lemma open_routes_keep:
  assumes col: "mongo_collection env cast docs" and image: "\<And>rc s. docs (snd (qrcode rc s)) = docs s"
  shows "docs (snd (RedirectController env slug signal s)) = docs s"
    and "docs (snd (QrCodeController env qrcode (Code_Image i format px level) s)) = docs s"
proof -
  have "docs (snd (RedirectHandler env slug signal s)) = docs (snd (qr_getBySlug env slug signal s))"
    unfolding RedirectHandler_def by (rule docs_and_then) (simp split: option.splits)
  also have "\<dots> = docs (snd (findBySlug env slug signal s))" unfolding qr_getBySlug_def by (rule docs_and_then) simp
  finally show "docs (snd (RedirectController env slug signal s)) = docs s"
    by (simp add: RedirectController_def docs_answering findBySlug_docs [OF col])
  have ren: "docs (snd (render qrcode v f px level t)) = docs t" for v f t
    using image by (simp add: render_def Let_def docs_and_then)
  have "docs (snd (QrCodeImage env qrcode i f px level s)) = docs (snd (qr_getById env i s))" for f
    unfolding QrCodeImage_def by (rule docs_and_then) (simp add: ren split: option.splits)
  also have "docs (snd (qr_getById env i s)) = docs (snd (qe_findById env i s))"
    unfolding qr_getById_def by (rule docs_and_then) simp
  also have "\<dots> = docs s" using law_findById [OF col, where i = i and s = s] by simp
  finally show "docs (snd (QrCodeController env qrcode (Code_Image i format px level) s)) = docs s"
    by (simp add: docs_answering)
qed

text \<open>
  The records of the QR manager are changed only by a caller the identity provider vouches for: the
  two routes open to everybody, the image and the redirect, leave the collection as it is.
\<close>

theorem qr_changes_need_caller:
  assumes laws: "merges_options g" "reads_methods g [AuthMethod_Idp]"
    and col: "mongo_collection env cast docs" "\<forall>rc s. docs (snd (qrcode rc s)) = docs s"
    and run: "qr_manager_serve g env qrcode source c s = (r, s')" and changed: "docs s' \<noteq> docs s"
  shows "\<exists>v p. map_of (ge_verifiers g) AuthMethod_Idp = Some v \<and> consult v source = Verified p"
proof (cases c)
  case (On_Redirect slug signal)
  then have run': "serve g source [] (SLUG_REGEX slug) (RedirectController env slug signal) s = (r, s')" using run by simp
  have "s' \<noteq> s" using changed by auto
  from served_state [OF run' this] have "docs s' = docs s"
    by (simp add: open_routes_keep(1) [of env cast docs qrcode, OF col(1) col(2) [rule_format]])
  with changed show ?thesis by simp
next
  case (On_QrCodes k)
  then have run': "serve g source (QrCodeController_auth @ qr_call_auth k) (qr_call_valid k) (QrCodeController env qrcode k) s = (r, s')"
    using run by simp
  have ne: "s' \<noteq> s" using changed by auto
  note reached = served_state [OF run' ne]
  show ?thesis
  proof (cases "\<exists>i f px l. k = Code_Image i f px l")
    case True
    then obtain i f px l where "k = Code_Image i f px l" by blast
    with reached open_routes_keep(2) [of env cast docs qrcode i f px l s, OF col(1) col(2) [rule_format]] changed show ?thesis by simp
  next
    case False
    then have "qr_call_auth k = []" by (cases k) auto
    then have ds: "Use_Authenticate [AuthMethod_Idp] \<in> set (QrCodeController_auth @ qr_call_auth k)"
      "\<forall>ms. Use_Authenticate ms \<in> set (QrCodeController_auth @ qr_call_auth k) \<longrightarrow> ms = [AuthMethod_Idp]"
      "Use_Anonymous \<notin> set (QrCodeController_auth @ qr_call_auth k)"
      by (simp_all add: QrCodeController_auth_def)
    from served_idp [OF laws ds run'] reached show ?thesis by blast
  qed
qed

text \<open>The map feeder serves nothing to a caller the identity provider does not vouch for.\<close>

lemma feeder_serves_callers:
  assumes "merges_options g" and "reads_methods g [AuthMethod_Idp]"
    and "feeder_serve g env source c s = (r, s')" and "\<forall>e. r \<noteq> Rejected e"
  shows "\<exists>v p. map_of (ge_verifiers g) AuthMethod_Idp = Some v \<and> consult v source = Verified p"
proof -
  have ds: "Use_Authenticate [AuthMethod_Idp] \<in> set DataSourcesController_auth"
    "\<forall>ms. Use_Authenticate ms \<in> set DataSourcesController_auth \<longrightarrow> ms = [AuthMethod_Idp]"
    "Use_Anonymous \<notin> set DataSourcesController_auth"
    by (simp_all add: DataSourcesController_auth_def)
  from served_idp [OF assms(1,2) ds assms(3) [unfolded feeder_serve_def] assms(4)] show ?thesis by blast
qed

definition admin_guard :: guard_env where
  "admin_guard = sample_guard\<lparr>ge_verifiers := [(AuthMethod_Idp, \<lparr>tv_extract = (\<lambda>s. s ''authorization''),
     tv_verify = (\<lambda>c. if c = ''t'' then Verified \<lparr>p_subject = ''alice'', p_kind = Human, p_displayName = None,
       p_roles = [AuthRole_Admin], p_issuer = ''dev''\<rparr> else Refused Missing None)\<rparr>)]\<rparr>"

lemma admin_guard_laws: "merges_options admin_guard" "reads_methods admin_guard [AuthMethod_Idp]"
  using sample_guard_merges sample_guard_reads
  by (simp_all add: merges_options_def reads_methods_def admin_guard_def AuthMethod_Idp_def)

lemma admin_options:
  "ed_options (decorated admin_guard CommandController_auth)
     = Some \<lparr>go_anonymous = None, go_methods = Some ''x'', go_roles = Some [[AuthRole_Admin]]\<rparr>"
  "ed_options (decorated admin_guard QrCodeController_auth)
     = Some \<lparr>go_anonymous = None, go_methods = Some ''x'', go_roles = None\<rparr>"
  by (simp_all add: CommandController_auth_def QrCodeController_auth_def decorated_step undecorated_options admin_guard_def
      sample_guard_def merged_options_def keep_inner_def encodeMethods_def)

lemma admin_passes:
  "roles = None \<or> roles = Some [[AuthRole_Admin]] \<Longrightarrow>
    fst (guard_use (ge_isNotEmpty admin_guard) (ge_parse admin_guard) (ge_verifiers admin_guard)
      (Some \<lparr>go_anonymous = None, go_methods = Some ''x'', go_roles = roles\<rparr>) (\<lambda>_. Some ''t'')) = Inr ()"
  by (elim disjE) (simp_all add: admin_guard_def sample_guard_def guard_use_def decodeMethods_def List.map_filter_def
      authenticate_def consult_def Let_def satisfies_def AuthMethod_Idp_def)

lemma admin_served:
  assumes "ed_options (decorated admin_guard ds) = Some \<lparr>go_anonymous = None, go_methods = Some ''x'', go_roles = roles\<rparr>"
    and "roles = None \<or> roles = Some [[AuthRole_Admin]]" and "serve admin_guard (\<lambda>_. Some ''t'') ds True handler s = (r, s')"
  shows "(\<forall>e. r \<noteq> Rejected e) \<and> s' = snd (handler s)"
proof -
  have "serve admin_guard (\<lambda>_. Some ''t'') ds True handler s
      = (case handler s of (Inl e, t) \<Rightarrow> (Failing e, t) | (Inr a, t) \<Rightarrow> (Answered a, t))"
    unfolding serve_def assms(1) option.case admin_passes [OF assms(2)] sum.case old.unit.case by simp
  with assms(3) show ?thesis by (auto split: prod.splits sum.splits)
qed

definition sample_container :: "unit health_container" where
  "sample_container = \<lparr>hc_providers = [], hc_service = new_health_service
     \<lparr>hf_checkTimeoutMs = 2000, hf_cacheTtlMs = 1000, hf_exposeDetail = True\<rparr>, hc_world = ()\<rparr>"

definition quiet_health :: "unit health_world" where
  "quiet_health = \<lparr>hw_now = (\<lambda>_. 0), hw_run = (\<lambda>_ w. ([], w))\<rparr>"


lemma qr_changes_need_caller_witness:
  "\<exists>v p. map_of (ge_verifiers admin_guard) AuthMethod_Idp = Some v \<and> consult v (\<lambda>_. Some ''t'') = Verified p"
proof -
  let ?p = "\<lparr>qp_targetURL = Some ''https://new'', qp_label = None, qp_type = None, qp_active = None\<rparr>"
  let ?qrcode = "\<lambda>_. returning () :: (qr_error, unit, nat \<times> qr_dto list) action"
  let ?serve = "qr_manager_serve admin_guard memory_qr_env ?qrcode (\<lambda>_. Some ''t'') (On_QrCodes (Code_Update ''a'' ?p)) (0, [sample_code])"
  obtain r s' where run: "?serve = (r, s')" by (meson surj_pair)
  have "s' = snd (QrCodeUpdate memory_qr_env ''a'' ?p (0, [sample_code]))"
  proof -
    have "serve admin_guard (\<lambda>_. Some ''t'') QrCodeController_auth True
        (QrCodeController memory_qr_env ?qrcode (Code_Update ''a'' ?p)) (0, [sample_code]) = (r, s')"
      using run by simp
    from admin_served [OF admin_options(2) _ this] show ?thesis by (simp add: answering_state)
  qed
  with retargeted have "set (snd s') \<noteq> set (snd (0 :: nat, [sample_code]))" by (simp add: retarget_def sample_code_def)
  with qr_changes_need_caller [OF admin_guard_laws memory_collection _ run] show ?thesis by simp
qed

end
