(* ===== verification/Requests.thy ===== *)
theory Requests
  imports Routes
begin

text \<open>
  The models of request bodies (\<^verbatim>\<open>apis/*/src/models/\<close>): what their decorators demand of a JSON value, how a
  handler reads an accepted body, and that a request carries exactly the fields that were accepted. The
  schema validator is a parameter, which may convert a value or refuse more; it hands on only what conforms.
\<close>

subsection \<open>Models as schemas\<close>

text \<open>
  A model has \<^verbatim>\<open>AdditionalProperties(false)\<close>: a field is a name, whether it is required, and its type. \<^verbatim>\<open>AnyOf()\<close>
  without alternatives is \<open>S_Any\<close>.
\<close>

datatype schema_type =
    S_String
  | S_Number
  | S_Boolean
  | S_Enum "string list"
  | S_Any
  | S_Array schema_type
  | S_Model "(string \<times> bool \<times> schema_type) list"

fun conforms :: "schema_type \<Rightarrow> json \<Rightarrow> bool" where
  "conforms S_String v = (case v of JStr _ \<Rightarrow> True | _ \<Rightarrow> False)"
| "conforms S_Number v = (case v of JNum _ \<Rightarrow> True | _ \<Rightarrow> False)"
| "conforms S_Boolean v = (case v of JBool _ \<Rightarrow> True | _ \<Rightarrow> False)"
| "conforms (S_Enum texts) v = (case v of JStr s \<Rightarrow> s \<in> set texts | _ \<Rightarrow> False)"
| "conforms S_Any _ = True"
| "conforms (S_Array t) v = (case v of JArr vs \<Rightarrow> list_all (conforms t) vs | _ \<Rightarrow> False)"
| "conforms (S_Model shape) v = (case v of
       JObj m \<Rightarrow> distinct (map fst m) \<and> set (map fst m) \<subseteq> set (map fst shape)
         \<and> list_all (\<lambda>(key, needed, t). case map_of m key of None \<Rightarrow> \<not> needed | Some w \<Rightarrow> conforms t w) shape
     | _ \<Rightarrow> False)"

definition Operations :: "string list" where
  "Operations = map operation_text [GetProperty, SetProperty, Action]"

definition CommandRequestModel :: schema_type where
  "CommandRequestModel = S_Model
     [(''deviceId'', True, S_Number), (''command'', True, S_String), (''operation'', True, S_Enum Operations),
      (''value'', False, S_Any)]"

definition MqttCommandRequestModel :: schema_type where
  "MqttCommandRequestModel = S_Model
     [(''command'', True, S_String), (''operation'', True, S_Enum Operations), (''value'', False, S_Any)]"

definition RawCommandRequestModel :: schema_type where
  "RawCommandRequestModel = S_Model
     [(''deviceId'', True, S_Number), (''operation'', True, S_Enum Operations), (''siid'', True, S_Number),
      (''piid'', False, S_Number), (''aiid'', False, S_Number), (''value'', False, S_Any)]"

definition DeviceRequest :: schema_type where
  "DeviceRequest = S_Model [(''address'', True, S_String), (''token'', True, S_String), (''model'', True, S_String)]"

definition DeviceDiscoverRequest :: schema_type where
  "DeviceDiscoverRequest = S_Model [(''address'', True, S_String), (''token'', True, S_String), (''model'', True, S_String)]"

definition NotificationRequest :: schema_type where
  "NotificationRequest = S_Model [(''properties'', True, S_Array S_String)]"

definition MiotPropertyValue :: schema_type where
  "MiotPropertyValue = S_Model [(''value'', True, S_Number), (''description'', True, S_String)]"

definition ModelPropertyOverrideRequest :: schema_type where
  "ModelPropertyOverrideRequest = S_Model
     [(''model'', True, S_String), (''key'', True, S_String), (''siid'', True, S_Number), (''piid'', True, S_Number),
      (''access'', True, S_Array (S_Enum (map snd PropertyAccess))), (''values'', True, S_Array MiotPropertyValue)]"

definition qr_type_text :: "qr_type \<Rightarrow> string" where
  "qr_type_text t = (case t of IOT_DEVICE \<Rightarrow> ''iot-device'' | PLANT \<Rightarrow> ''plant'' | OTHER \<Rightarrow> ''other'')"

definition Qr_Types :: "string list" where
  "Qr_Types = map qr_type_text [IOT_DEVICE, PLANT, OTHER]"

definition QrCodeCreateRequest :: schema_type where
  "QrCodeCreateRequest = S_Model [(''targetURL'', True, S_String), (''label'', True, S_String), (''type'', True, S_Enum Qr_Types)]"

definition QrCodeUpdateRequest :: schema_type where
  "QrCodeUpdateRequest = S_Model
     [(''targetURL'', False, S_String), (''label'', False, S_String), (''type'', False, S_Enum Qr_Types), (''active'', False, S_Boolean)]"

subsection \<open>A body as the handler reads it\<close>

definition str_of :: "json \<Rightarrow> string option" where "str_of v = (case v of JStr s \<Rightarrow> Some s | _ \<Rightarrow> None)"
definition num_of :: "json \<Rightarrow> int option" where "num_of v = (case v of JNum n \<Rightarrow> Some n | _ \<Rightarrow> None)"
definition bool_of :: "json \<Rightarrow> bool option" where "bool_of v = (case v of JBool b \<Rightarrow> Some b | _ \<Rightarrow> None)"

definition list_of :: "(json \<Rightarrow> 'a option) \<Rightarrow> json \<Rightarrow> 'a list option" where
  "list_of f v = (case v of JArr vs \<Rightarrow> those (map f vs) | _ \<Rightarrow> None)"

text \<open>The field of a body; a field that may be left out is \<open>None\<close> when it is.\<close>

definition read_field :: "string \<Rightarrow> (json \<Rightarrow> 'a option) \<Rightarrow> json \<Rightarrow> 'a option" where
  "read_field key f body = Option.bind (js_get key body) f"

definition read_optional :: "string \<Rightarrow> (json \<Rightarrow> 'a option) \<Rightarrow> json \<Rightarrow> 'a option option" where
  "read_optional key f body = (case js_get key body of None \<Rightarrow> Some None | Some v \<Rightarrow> map_option Some (f v))"

definition operation_of :: "json \<Rightarrow> operation option" where
  "operation_of v = map_option (\<lambda>s.
     if s = ''GET_PROPERTY'' then GetProperty else if s = ''SET_PROPERTY'' then SetProperty
     else if s = ''ACTION'' then Action else UnknownOperation s) (str_of v)"

definition qr_type_of :: "json \<Rightarrow> qr_type option" where
  "qr_type_of v = Option.bind (str_of v) (\<lambda>s. find (\<lambda>t. qr_type_text t = s) [IOT_DEVICE, PLANT, OTHER])"

definition command_of :: "json \<Rightarrow> command_request option" where
  "command_of request = do {
     d \<leftarrow> read_field ''deviceId'' num_of request;
     c \<leftarrow> read_field ''command'' str_of request;
     p \<leftarrow> read_field ''operation'' operation_of request;
     v \<leftarrow> read_optional ''value'' Some request;
     Some \<lparr>rq_deviceId = d, rq_command = c, rq_operation = p, rq_value = v\<rparr>}"

definition mqtt_command_of :: "json \<Rightarrow> (string \<times> operation \<times> json option) option" where
  "mqtt_command_of request = do {
     c \<leftarrow> read_field ''command'' str_of request;
     p \<leftarrow> read_field ''operation'' operation_of request;
     v \<leftarrow> read_optional ''value'' Some request;
     Some (c, p, v)}"

definition raw_of :: "json \<Rightarrow> raw_request option" where
  "raw_of request = do {
     d \<leftarrow> read_field ''deviceId'' num_of request;
     p \<leftarrow> read_field ''operation'' operation_of request;
     siid \<leftarrow> read_field ''siid'' num_of request;
     piid \<leftarrow> read_optional ''piid'' num_of request;
     aiid \<leftarrow> read_optional ''aiid'' num_of request;
     v \<leftarrow> read_optional ''value'' Some request;
     Some \<lparr>raw_deviceId = d, raw_operation = p, raw_siid = siid, raw_piid = piid, raw_aiid = aiid, raw_value = v\<rparr>}"

definition device_of :: "json \<Rightarrow> device_request option" where
  "device_of request = do {
     a \<leftarrow> read_field ''address'' str_of request;
     t \<leftarrow> read_field ''token'' str_of request;
     m \<leftarrow> read_field ''model'' str_of request;
     Some \<lparr>req_address = a, req_token = t, req_model = m\<rparr>}"

definition property_value_of :: "json \<Rightarrow> spec_value option" where
  "property_value_of v = do {
     n \<leftarrow> read_field ''value'' num_of v;
     d \<leftarrow> read_field ''description'' str_of v;
     Some \<lparr>sv_value = n, sv_description = d\<rparr>}"

text \<open>\<^verbatim>\<open>buildModelCore\<close>: the identifier and the timestamps are set by the storage.\<close>

definition override_of :: "json \<Rightarrow> model_override option" where
  "override_of request = do {
     m \<leftarrow> read_field ''model'' str_of request;
     k \<leftarrow> read_field ''key'' str_of request;
     siid \<leftarrow> read_field ''siid'' num_of request;
     piid \<leftarrow> read_field ''piid'' num_of request;
     access \<leftarrow> read_field ''access'' (list_of str_of) request;
     values \<leftarrow> read_field ''values'' (list_of property_value_of) request;
     Some \<lparr>ov_id = [], ov_createdAt = 0, ov_updatedAt = 0, ov_model = m, ov_key = k, ov_siid = siid, ov_piid = piid,
       ov_access = access, ov_values = values\<rparr>}"

definition qr_partial_of :: "json \<Rightarrow> qr_partial option" where
  "qr_partial_of body = do {
     url \<leftarrow> read_optional ''targetURL'' str_of body;
     label \<leftarrow> read_optional ''label'' str_of body;
     t \<leftarrow> read_optional ''type'' qr_type_of body;
     active \<leftarrow> read_optional ''active'' bool_of body;
     Some \<lparr>qp_targetURL = url, qp_label = label, qp_type = t, qp_active = active\<rparr>}"

subsection \<open>The routes with a body\<close>

datatype body_route =
    Body_Discover
  | Body_Register
  | Body_Notifications string
  | Body_Override
  | Body_Command
  | Body_Raw
  | Query_Command
  | Query_Raw

fun route_model :: "body_route \<Rightarrow> schema_type" where
  "route_model Body_Discover = DeviceDiscoverRequest"
| "route_model Body_Register = DeviceRequest"
| "route_model (Body_Notifications _) = NotificationRequest"
| "route_model Body_Override = ModelPropertyOverrideRequest"
| "route_model Body_Command = CommandRequestModel"
| "route_model Body_Raw = RawCommandRequestModel"
| "route_model Query_Command = CommandRequestModel"
| "route_model Query_Raw = RawCommandRequestModel"

fun read_call :: "body_route \<Rightarrow> json \<Rightarrow> bridge_call option" where
  "read_call Body_Discover body = map_option (On_Devices \<circ> Device_Discover) (device_of body)"
| "read_call Body_Register body = map_option (On_Devices \<circ> Device_Register) (device_of body)"
| "read_call (Body_Notifications d) body =
     map_option (On_Notifications \<circ> Notify_Create d) (read_field ''properties'' (list_of str_of) body)"
| "read_call Body_Override body = map_option (On_Overrides \<circ> Override_New) (override_of body)"
| "read_call Body_Command body = map_option (On_Commands \<circ> Command_Post) (command_of body)"
| "read_call Body_Raw body = map_option (On_Commands \<circ> Raw_Post) (raw_of body)"
| "read_call Query_Command query = map_option (On_Commands \<circ> Command_Get) (command_of query)"
| "read_call Query_Raw query = map_option (On_Commands \<circ> Raw_Get) (raw_of query)"

text \<open>The request behind a route: refused by the validator, or the call its handler gets.\<close>

definition receive_body :: "(schema_type \<Rightarrow> json \<Rightarrow> thrown + json) \<Rightarrow> body_route \<Rightarrow> json \<Rightarrow> thrown + bridge_call option" where
  "receive_body validate route raw = (case validate (route_model route) raw of
       Inl e \<Rightarrow> Inl e
     | Inr body \<Rightarrow> Inr (read_call route body))"

datatype code_route = Body_Create_Code | Body_Update_Code string

fun code_model :: "code_route \<Rightarrow> schema_type" where
  "code_model Body_Create_Code = QrCodeCreateRequest"
| "code_model (Body_Update_Code _) = QrCodeUpdateRequest"

fun read_code_call :: "code_route \<Rightarrow> json \<Rightarrow> qr_call option" where
  "read_code_call Body_Create_Code body = do {
     url \<leftarrow> read_field ''targetURL'' str_of body;
     label \<leftarrow> read_field ''label'' str_of body;
     t \<leftarrow> read_field ''type'' qr_type_of body;
     Some (Code_Create url label t)}"
| "read_code_call (Body_Update_Code i) body = map_option (Code_Update i) (qr_partial_of body)"

subsection \<open>What a call carries\<close>

text \<open>A call written back as a body; a field that is \<open>undefined\<close> is not written.\<close>

definition present :: "(string \<times> json option) list \<Rightarrow> json" where
  "present shape = JObj (List.map_filter (\<lambda>(k, v). map_option (Pair k) v) shape)"

definition device_body :: "device_request \<Rightarrow> json" where
  "device_body r = present [(''address'', Some (JStr (req_address r))), (''token'', Some (JStr (req_token r))), (''model'', Some (JStr (req_model r)))]"

definition value_body :: "spec_value \<Rightarrow> json" where
  "value_body v = present [(''value'', Some (JNum (sv_value v))), (''description'', Some (JStr (sv_description v)))]"

definition command_body :: "command_request \<Rightarrow> json" where
  "command_body r = present
     [(''deviceId'', Some (JNum (rq_deviceId r))), (''command'', Some (JStr (rq_command r))),
      (''operation'', Some (JStr (operation_text (rq_operation r)))), (''value'', rq_value r)]"

definition raw_body :: "raw_request \<Rightarrow> json" where
  "raw_body r = present
     [(''deviceId'', Some (JNum (raw_deviceId r))), (''operation'', Some (JStr (operation_text (raw_operation r)))),
      (''siid'', Some (JNum (raw_siid r))), (''piid'', map_option JNum (raw_piid r)), (''aiid'', map_option JNum (raw_aiid r)),
      (''value'', raw_value r)]"

definition override_body :: "model_override \<Rightarrow> json" where
  "override_body r = present
     [(''model'', Some (JStr (ov_model r))), (''key'', Some (JStr (ov_key r))), (''siid'', Some (JNum (ov_siid r))),
      (''piid'', Some (JNum (ov_piid r))), (''access'', Some (JArr (map JStr (ov_access r)))),
      (''values'', Some (JArr (map value_body (ov_values r))))]"

fun call_body :: "bridge_call \<Rightarrow> json option" where
  "call_body (On_Devices (Device_Discover r)) = Some (device_body r)"
| "call_body (On_Devices (Device_Register r)) = Some (device_body r)"
| "call_body (On_Notifications (Notify_Create _ ps)) = Some (present [(''properties'', Some (JArr (map JStr ps)))])"
| "call_body (On_Overrides (Override_New r)) = Some (override_body r)"
| "call_body (On_Commands (Command_Post r)) = Some (command_body r)"
| "call_body (On_Commands (Command_Get r)) = Some (command_body r)"
| "call_body (On_Commands (Raw_Post r)) = Some (raw_body r)"
| "call_body (On_Commands (Raw_Get r)) = Some (raw_body r)"
| "call_body _ = None"

fun code_body :: "qr_call \<Rightarrow> json option" where
  "code_body (Code_Create url label t) = Some (present
     [(''targetURL'', Some (JStr url)), (''label'', Some (JStr label)), (''type'', Some (JStr (qr_type_text t)))])"
| "code_body (Code_Update _ p) = Some (present
     [(''targetURL'', map_option JStr (qp_targetURL p)), (''label'', map_option JStr (qp_label p)),
      (''type'', map_option (JStr \<circ> qr_type_text) (qp_type p)), (''active'', map_option JBool (qp_active p))])"
| "code_body _ = None"

text \<open>Equal up to the order of fields.\<close>

function same_json :: "json \<Rightarrow> json \<Rightarrow> bool" where
  "same_json a b \<longleftrightarrow> a = b \<or> (case (a, b) of
       (JArr vs, JArr ws) \<Rightarrow> length vs = length ws \<and> list_all (\<lambda>(v, w). same_json v w) (zip vs ws)
     | (JObj m, JObj n) \<Rightarrow> set (map fst m) = set (map fst n)
         \<and> list_all (\<lambda>(k, v). case map_of n k of Some w \<Rightarrow> same_json v w | None \<Rightarrow> False) m
     | _ \<Rightarrow> False)"
  by pat_completeness auto

termination
proof (relation "measure (size \<circ> fst)", goal_cases)
  case (2 a b p vs ws z v w)
  then show ?case by (auto dest!: set_zip_leftD simp: less_Suc_eq_le intro: size_list_estimation')
next
  case (3 a b p m n z k v w)
  then show ?case by (force simp: less_Suc_eq_le intro: size_list_estimation')
qed simp


declare same_json.simps [simp del]

lemma same_refl [simp]: "same_json a a"
  by (subst same_json.simps) simp

lemma present_mem: "(k, v) \<in> set (List.map_filter (\<lambda>(k, v). map_option (Pair k) v) shape) \<longleftrightarrow> (k, Some v) \<in> set shape"
  by (force simp: List.map_filter_def)

lemma same_object:
  assumes "fst ` set a = fst ` set b" and "\<And>k v. (k, v) \<in> set a \<Longrightarrow> \<exists>w. map_of b k = Some w \<and> same_json v w"
  shows "same_json (JObj a) (JObj b)"
proof -
  have "list_all (\<lambda>(k, v). case map_of b k of Some w \<Rightarrow> same_json v w | None \<Rightarrow> False) a"
    unfolding list_all_iff using assms(2) by (fastforce split: option.splits)
  with assms(1) show ?thesis by (subst same_json.simps) simp
qed

lemma same_present:
  assumes "list_all (\<lambda>(k, v). rel_option same_json v (map_of m k)) shape" and "set (map fst m) \<subseteq> set (map fst shape)"
  shows "same_json (present shape) (JObj m)"
  unfolding present_def
proof (rule same_object)
  have rel: "rel_option same_json v (map_of m k)" if "(k, v) \<in> set shape" for k v
    using assms(1) that by (auto simp: list_all_iff)
  show written: "\<exists>w. map_of m k = Some w \<and> same_json v w"
    if "(k, v) \<in> set (List.map_filter (\<lambda>(k, v). map_option (Pair k) v) shape)" for k v
    using rel [OF that [unfolded present_mem]] by (simp add: option_rel_Some1)
  show "fst ` set (List.map_filter (\<lambda>(k, v). map_option (Pair k) v) shape) = fst ` set m" (is "fst ` ?present = _")
  proof (intro equalityI subsetI)
    fix k assume "k \<in> fst ` ?present"
    then obtain v where "(k, v) \<in> ?present" by auto
    from written [OF this] show "k \<in> fst ` set m" by (force dest: map_of_SomeD)
  next
    fix k assume k: "k \<in> fst ` set m"
    then have "map_of m k \<noteq> None" by (simp add: map_of_eq_None_iff)
    then obtain w where w: "map_of m k = Some w" by blast
    from k assms(2) obtain v where field: "(k, v) \<in> set shape" by auto
    from rel [OF this] w obtain v' where "v = Some v'" by (auto simp: option_rel_Some2)
    with field present_mem [of k v' shape] show "k \<in> fst ` ?present" by force
  qed
qed

lemma model_conforms:
  "conforms (S_Model shape) v \<Longrightarrow> (\<And>m. v = JObj m \<Longrightarrow> set (map fst m) \<subseteq> set (map fst shape) \<Longrightarrow>
     list_all (\<lambda>(key, needed, t). case map_of m key of None \<Rightarrow> \<not> needed | Some w \<Rightarrow> conforms t w) shape \<Longrightarrow> thesis) \<Longrightarrow> thesis"
  by (cases v) auto

text \<open>What a required and an optional field of each type holds.\<close>

lemma enum_conforms: "conforms (S_Enum texts) v \<longleftrightarrow> (\<exists>s\<in>set texts. v = JStr s)"
  by (cases v) auto

lemma enum_of: "conforms (S_Enum (map f ps)) v \<longleftrightarrow> (\<exists>p. v = JStr (f p) \<and> p \<in> set ps)"
  unfolding enum_conforms by auto

lemma operation_conforms: "conforms (S_Enum Operations) v \<longleftrightarrow> (\<exists>p. v = JStr (operation_text p) \<and> p \<in> {GetProperty, SetProperty, Action})"
  unfolding Operations_def enum_of by simp

lemma qr_type_conforms: "conforms (S_Enum Qr_Types) v \<longleftrightarrow> (\<exists>t. v = JStr (qr_type_text t))"
proof -
  have "t \<in> set [IOT_DEVICE, PLANT, OTHER]" for t by (cases t) simp_all
  then show ?thesis unfolding Qr_Types_def enum_of by blast
qed

lemma string_conforms: "conforms S_String v \<longleftrightarrow> (\<exists>s. v = JStr s)"
  and number_conforms: "conforms S_Number v \<longleftrightarrow> (\<exists>n. v = JNum n)"
  and boolean_conforms: "conforms S_Boolean v \<longleftrightarrow> (\<exists>b. v = JBool b)"
  and array_conforms: "conforms (S_Array t) v \<longleftrightarrow> (\<exists>vs. v = JArr vs \<and> list_all (conforms t) vs)"
  by (cases v; simp)+

declare conforms.simps(1-4,6,7) [simp del]

lemmas conforms_iff = operation_conforms qr_type_conforms string_conforms number_conforms boolean_conforms array_conforms

lemma body_read_simps [simp]:
  "str_of (JStr s) = Some s" "num_of (JNum n) = Some n" "bool_of (JBool b) = Some b"
  "list_of f (JArr vs) = those (map f vs)"
  "read_field k f (JObj m) = Option.bind (map_of m k) f"
  "read_optional k f (JObj m) = (case map_of m k of None \<Rightarrow> Some None | Some v \<Rightarrow> map_option Some (f v))"
  by (simp_all add: str_of_def num_of_def bool_of_def list_of_def read_field_def read_optional_def)

lemma operation_read: "p \<in> {GetProperty, SetProperty, Action} \<Longrightarrow> operation_of (JStr (operation_text p)) = Some p"
  by (auto simp: operation_of_def)

lemma qr_type_read [simp]: "qr_type_of (JStr (qr_type_text t)) = Some t"
  by (cases t) (simp_all add: qr_type_of_def qr_type_text_def)

lemma model_fields:
  assumes "conforms (S_Model shape) v"
  obtains m where "v = JObj m" and "set (map fst m) \<subseteq> set (map fst shape)"
    and "list_all (\<lambda>(key, needed, t). if needed then \<exists>w. map_of m key = Some w \<and> conforms t w
       else map_of m key = None \<or> (\<exists>w. map_of m key = Some w \<and> conforms t w)) shape"
proof -
  from assms obtain m where m: "v = JObj m" "set (map fst m) \<subseteq> set (map fst shape)"
    "list_all (\<lambda>(key, needed, t). case map_of m key of None \<Rightarrow> \<not> needed | Some w \<Rightarrow> conforms t w) shape"
    by (rule model_conforms)
  show thesis
    by (rule that [OF m(1,2)]) (use m(3) in \<open>auto simp: list_all_iff split: option.splits\<close>)
qed

lemma command_read:
  assumes "conforms CommandRequestModel v"
  shows "\<exists>r. command_of v = Some r \<and> same_json (command_body r) v \<and> rq_operation r \<in> {GetProperty, SetProperty, Action}"
proof -
  from assms [unfolded CommandRequestModel_def] obtain m d c p where m: "v = JObj m"
    "set (map fst m) \<subseteq> {''deviceId'', ''command'', ''operation'', ''value''}"
    and f: "map_of m ''deviceId'' = Some (JNum d)" "map_of m ''command'' = Some (JStr c)"
    "map_of m ''operation'' = Some (JStr (operation_text p))" "p \<in> {GetProperty, SetProperty, Action}"
    by (elim model_fields) (auto simp: conforms_iff)
  have "command_of v = Some \<lparr>rq_deviceId = d, rq_command = c, rq_operation = p, rq_value = map_of m ''value''\<rparr>"
    by (simp add: command_of_def m f operation_read [OF f(4)] split: option.split)
  moreover have "same_json (command_body \<lparr>rq_deviceId = d, rq_command = c, rq_operation = p, rq_value = map_of m ''value''\<rparr>) v"
    unfolding command_body_def m by (rule same_present) (use m in \<open>auto simp: f option.rel_refl\<close>)
  ultimately show ?thesis using f(4) by simp
qed

lemma optional_field:
  assumes "list_all (\<lambda>(key, needed, t). if needed then \<exists>w. map_of m key = Some w \<and> conforms t w
       else map_of m key = None \<or> (\<exists>w. map_of m key = Some w \<and> conforms t w)) shape"
    and "(key, False, t) \<in> set shape" and "\<And>w. conforms t w \<Longrightarrow> \<exists>a. w = f a"
  shows "\<exists>a. map_of m key = map_option f a"
proof (cases "map_of m key")
  case None
  then show ?thesis by (intro exI [of _ None]) simp
next
  case (Some w)
  with assms(1,2) have "conforms t w" by (fastforce simp: list_all_iff)
  with assms(3) Some show ?thesis by (metis option.map(2))
qed

lemma raw_read:
  assumes "conforms RawCommandRequestModel v"
  shows "\<exists>r. raw_of v = Some r \<and> same_json (raw_body r) v \<and> raw_operation r \<in> {GetProperty, SetProperty, Action}"
proof -
  from assms [unfolded RawCommandRequestModel_def] obtain m where m: "v = JObj m"
    "set (map fst m) \<subseteq> set (map fst [(''deviceId'', True, S_Number), (''operation'', True, S_Enum Operations), (''siid'', True, S_Number),
      (''piid'', False, S_Number), (''aiid'', False, S_Number), (''value'', False, S_Any)])"
    and every: "list_all (\<lambda>(key, needed, t). if needed then \<exists>w. map_of m key = Some w \<and> conforms t w
       else map_of m key = None \<or> (\<exists>w. map_of m key = Some w \<and> conforms t w))
     [(''deviceId'', True, S_Number), (''operation'', True, S_Enum Operations), (''siid'', True, S_Number),
      (''piid'', False, S_Number), (''aiid'', False, S_Number), (''value'', False, S_Any)]"
    by (rule model_fields)
  obtain piid aiid where ids: "map_of m ''piid'' = map_option JNum piid" "map_of m ''aiid'' = map_option JNum aiid"
    using optional_field [OF every, of "''piid''" S_Number JNum] optional_field [OF every, of "''aiid''" S_Number JNum]
    by (auto simp: number_conforms)
  from every obtain d p siid where f: "map_of m ''deviceId'' = Some (JNum d)"
    "map_of m ''operation'' = Some (JStr (operation_text p))" "map_of m ''siid'' = Some (JNum siid)"
    and p: "p \<in> {GetProperty, SetProperty, Action}"
    by (simp add: conforms_iff) blast
  let ?r = "\<lparr>raw_deviceId = d, raw_operation = p, raw_siid = siid, raw_piid = piid, raw_aiid = aiid, raw_value = map_of m ''value''\<rparr>"
  have "raw_of v = Some ?r"
    by (cases piid; cases aiid) (simp_all add: raw_of_def m f ids operation_read [OF p] split: option.split)
  moreover have "same_json (raw_body ?r) v"
    unfolding raw_body_def m by (rule same_present) (use m in \<open>auto simp: f ids option.rel_refl\<close>)
  ultimately show ?thesis using p by (intro exI [of _ ?r]) simp
qed

lemma device_read:
  assumes "conforms (S_Model [(''address'', True, S_String), (''token'', True, S_String), (''model'', True, S_String)]) v"
  shows "\<exists>r. device_of v = Some r \<and> same_json (device_body r) v"
proof -
  from assms obtain m a t n where m: "v = JObj m" "set (map fst m) \<subseteq> {''address'', ''token'', ''model''}"
    and f: "map_of m ''address'' = Some (JStr a)" "map_of m ''token'' = Some (JStr t)" "map_of m ''model'' = Some (JStr n)"
    by (elim model_fields) (auto simp: conforms_iff)
  have "device_of v = Some \<lparr>req_address = a, req_token = t, req_model = n\<rparr>" by (simp add: device_of_def m f)
  moreover have "same_json (device_body \<lparr>req_address = a, req_token = t, req_model = n\<rparr>) v"
    unfolding device_body_def m by (rule same_present) (use m in \<open>auto simp: f\<close>)
  ultimately show ?thesis by blast
qed

lemma same_array: "length vs = length ws \<Longrightarrow> (\<And>i. i < length vs \<Longrightarrow> same_json (vs ! i) (ws ! i)) \<Longrightarrow> same_json (JArr vs) (JArr ws)"
  by (subst same_json.simps) (auto simp: list_all_iff set_zip)

text \<open>An array whose elements are read back is read back.\<close>

lemma list_read:
  assumes "list_all (conforms t) vs" and "\<And>v. conforms t v \<Longrightarrow> \<exists>x. f v = Some x \<and> same_json (g x) v"
  shows "\<exists>xs. those (map f vs) = Some xs \<and> same_json (JArr (map g xs)) (JArr vs)"
proof -
  from assms have "\<exists>xs. those (map f vs) = Some xs \<and> list_all2 (\<lambda>x v. same_json (g x) v) xs vs"
  proof (induction vs)
    case (Cons v vs)
    then obtain x xs where "f v = Some x" "same_json (g x) v" "those (map f vs) = Some xs"
      "list_all2 (\<lambda>x v. same_json (g x) v) xs vs" by fastforce
    then show ?case by simp
  qed simp
  then obtain xs where xs: "those (map f vs) = Some xs" "list_all2 (\<lambda>x v. same_json (g x) v) xs vs" by blast
  then have "same_json (JArr (map g xs)) (JArr vs)" by (intro same_array) (auto simp: list_all2_conv_all_nth)
  with xs(1) show ?thesis by blast
qed

lemma strings_read: "list_all (conforms S_String) vs \<Longrightarrow> \<exists>xs. those (map str_of vs) = Some xs \<and> same_json (JArr (map JStr xs)) (JArr vs)"
  by (rule list_read) (auto simp: string_conforms)

lemma enums_read: "list_all (conforms (S_Enum texts)) vs \<Longrightarrow> \<exists>xs. those (map str_of vs) = Some xs \<and> same_json (JArr (map JStr xs)) (JArr vs)"
  by (rule list_read) (auto simp: enum_conforms)

lemma value_read:
  assumes "conforms MiotPropertyValue v"
  shows "\<exists>x. property_value_of v = Some x \<and> same_json (value_body x) v"
proof -
  from assms [unfolded MiotPropertyValue_def] obtain m n d where m: "v = JObj m" "set (map fst m) \<subseteq> {''value'', ''description''}"
    and f: "map_of m ''value'' = Some (JNum n)" "map_of m ''description'' = Some (JStr d)"
    by (elim model_fields) (auto simp: conforms_iff)
  have "property_value_of v = Some \<lparr>sv_value = n, sv_description = d\<rparr>" by (simp add: property_value_of_def m f)
  moreover have "same_json (value_body \<lparr>sv_value = n, sv_description = d\<rparr>) v"
    unfolding value_body_def m by (rule same_present) (use m in \<open>auto simp: f\<close>)
  ultimately show ?thesis by blast
qed

lemma properties_read:
  assumes "conforms NotificationRequest v"
  shows "\<exists>ps. read_field ''properties'' (list_of str_of) v = Some ps \<and> same_json (present [(''properties'', Some (JArr (map JStr ps)))]) v"
proof -
  from assms [unfolded NotificationRequest_def] obtain m vs where m: "v = JObj m" "set (map fst m) \<subseteq> {''properties''}"
    and f: "map_of m ''properties'' = Some (JArr vs)" "list_all (conforms S_String) vs"
    by (elim model_fields) (auto simp: array_conforms)
  from strings_read [OF f(2)] obtain ps where ps: "those (map str_of vs) = Some ps" "same_json (JArr (map JStr ps)) (JArr vs)" by blast
  have "same_json (present [(''properties'', Some (JArr (map JStr ps)))]) (JObj m)"
    by (rule same_present) (use m in \<open>auto simp: f(1) ps(2)\<close>)
  with ps(1) show ?thesis by (simp add: m f(1))
qed

lemma override_read:
  assumes "conforms ModelPropertyOverrideRequest v"
  shows "\<exists>r. override_of v = Some r \<and> same_json (override_body r) v"
proof -
  from assms [unfolded ModelPropertyOverrideRequest_def] obtain m n k siid piid as vs where m: "v = JObj m"
    "set (map fst m) \<subseteq> {''model'', ''key'', ''siid'', ''piid'', ''access'', ''values''}"
    and f: "map_of m ''model'' = Some (JStr n)" "map_of m ''key'' = Some (JStr k)" "map_of m ''siid'' = Some (JNum siid)"
    "map_of m ''piid'' = Some (JNum piid)" "map_of m ''access'' = Some (JArr as)" "map_of m ''values'' = Some (JArr vs)"
    and elems: "list_all (conforms (S_Enum (map snd PropertyAccess))) as" "list_all (conforms MiotPropertyValue) vs"
    by (elim model_fields) (auto simp: string_conforms number_conforms array_conforms)
  from enums_read [OF elems(1)] obtain access where as: "those (map str_of as) = Some access" "same_json (JArr (map JStr access)) (JArr as)" by blast
  from list_read [OF elems(2) value_read] obtain vals where
    vs: "those (map property_value_of vs) = Some vals" "same_json (JArr (map value_body vals)) (JArr vs)" by blast
  let ?r = "\<lparr>ov_id = [], ov_createdAt = 0, ov_updatedAt = 0, ov_model = n, ov_key = k, ov_siid = siid, ov_piid = piid,
       ov_access = access, ov_values = vals\<rparr>"
  have "override_of v = Some ?r" by (simp add: override_of_def m f as vs)
  moreover have "same_json (override_body ?r) v"
    unfolding override_body_def m by (rule same_present) (use m in \<open>auto simp: f as vs\<close>)
  ultimately show ?thesis by blast
qed

lemma code_read:
  assumes "conforms QrCodeCreateRequest v"
  shows "\<exists>c. read_code_call Body_Create_Code v = Some c \<and> (\<exists>w. code_body c = Some w \<and> same_json w v)"
proof -
  from assms [unfolded QrCodeCreateRequest_def] obtain m u l t where m: "v = JObj m" "set (map fst m) \<subseteq> {''targetURL'', ''label'', ''type''}"
    and f: "map_of m ''targetURL'' = Some (JStr u)" "map_of m ''label'' = Some (JStr l)" "map_of m ''type'' = Some (JStr (qr_type_text t))"
    by (elim model_fields) (auto simp: conforms_iff)
  have "read_code_call Body_Create_Code v = Some (Code_Create u l t)" by (simp add: m f)
  moreover have "same_json (present [(''targetURL'', Some (JStr u)), (''label'', Some (JStr l)), (''type'', Some (JStr (qr_type_text t)))]) v"
    unfolding m by (rule same_present) (use m in \<open>auto simp: f\<close>)
  ultimately show ?thesis by (intro exI [of _ "Code_Create u l t"]) simp
qed

lemma update_read:
  assumes "conforms QrCodeUpdateRequest v"
  shows "\<exists>c. read_code_call (Body_Update_Code i) v = Some c \<and> (\<exists>w. code_body c = Some w \<and> same_json w v)"
proof -
  from assms [unfolded QrCodeUpdateRequest_def] obtain m where m: "v = JObj m"
    "set (map fst m) \<subseteq> set (map fst [(''targetURL'', False, S_String), (''label'', False, S_String), (''type'', False, S_Enum Qr_Types), (''active'', False, S_Boolean)])"
    and every: "list_all (\<lambda>(key, needed, t). if needed then \<exists>w. map_of m key = Some w \<and> conforms t w
       else map_of m key = None \<or> (\<exists>w. map_of m key = Some w \<and> conforms t w))
     [(''targetURL'', False, S_String), (''label'', False, S_String), (''type'', False, S_Enum Qr_Types), (''active'', False, S_Boolean)]"
    by (rule model_fields)
  obtain u l where f: "map_of m ''targetURL'' = map_option JStr u" "map_of m ''label'' = map_option JStr l"
    using optional_field [OF every, of "''targetURL''" S_String JStr] optional_field [OF every, of "''label''" S_String JStr]
    by (auto simp: string_conforms)
  obtain t a where g: "map_of m ''type'' = map_option (JStr \<circ> qr_type_text) t" "map_of m ''active'' = map_option JBool a"
    using optional_field [OF every, of "''type''" "S_Enum Qr_Types" "JStr \<circ> qr_type_text"] optional_field [OF every, of "''active''" S_Boolean JBool]
    by (auto simp: qr_type_conforms boolean_conforms)
  let ?c = "Code_Update i \<lparr>qp_targetURL = u, qp_label = l, qp_type = t, qp_active = a\<rparr>"
  have "read_code_call (Body_Update_Code i) v = Some ?c"
    by (cases u; cases l; cases t; cases a) (simp_all add: qr_partial_of_def m f g)
  moreover have "same_json (present [(''targetURL'', map_option JStr u), (''label'', map_option JStr l),
      (''type'', map_option (JStr \<circ> qr_type_text) t), (''active'', map_option JBool a)]) v"
    unfolding m(1) by (rule same_present) (use m(2) in \<open>auto simp: f g option.rel_refl\<close>)
  ultimately show ?thesis by (intro exI [of _ ?c]) simp
qed

subsection \<open>What a validated request carries\<close>

text \<open>The law of the validator: it hands on only what conforms to the model.\<close>

definition validating :: "(schema_type \<Rightarrow> json \<Rightarrow> thrown + json) \<Rightarrow> bool" where
  "validating validate \<longleftrightarrow> (\<forall>model raw body. validate model raw = Inr body \<longrightarrow> conforms model body)"

lemma accepted_conforms: "validating validate \<Longrightarrow> validate model raw = Inr body \<Longrightarrow> conforms model body"
  by (auto simp: validating_def)

lemma call_read:
  assumes "conforms (route_model route) body"
  shows "\<exists>c w. read_call route body = Some c \<and> call_body c = Some w \<and> same_json w body"
  by (cases route) (use assms in \<open>auto simp: DeviceRequest_def DeviceDiscoverRequest_def
      dest!: command_read raw_read device_read properties_read override_read\<close>)

text \<open>
  Property C12. Behind every route with a body, an accepted request is handled with exactly the fields that were accepted: none is
  lost, none is added, and the handler can read each.
\<close>

theorem accepted_body_handled:
  assumes "validating validate" and "validate (route_model route) raw = Inr body"
  shows "\<exists>c w. receive_body validate route raw = Inr (Some c) \<and> call_body c = Some w \<and> same_json w body"
  using call_read [OF accepted_conforms [OF assms]] assms(2) by (simp add: receive_body_def)

definition strict_validator :: "schema_type \<Rightarrow> json \<Rightarrow> thrown + json" where
  "strict_validator model raw = (if conforms model raw then Inr raw else Inl (JsError ''BAD_REQUEST'' ''Bad request''))"

definition sample_body :: json where
  "sample_body = JObj [(''operation'', JStr ''ACTION''), (''deviceId'', JNum 7), (''command'', JStr ''vacuum:start-sweep'')]"

lemma accepted_body_handled_witness:
  "\<exists>c w. receive_body strict_validator Body_Command sample_body = Inr (Some c) \<and> call_body c = Some w \<and> same_json w sample_body"
proof (rule accepted_body_handled)
  show "validating strict_validator" by (simp add: validating_def strict_validator_def split: if_splits)
  show "strict_validator (route_model Body_Command) sample_body = Inr sample_body"
    by (simp add: strict_validator_def sample_body_def CommandRequestModel_def Operations_def conforms.simps)
qed

text \<open>
  The QR manager likewise; so an update names no other field than the four it may change, and the identifier, the
  slug and the timestamps of a record are out of its reach.
\<close>

theorem accepted_code_handled:
  assumes "validating validate" and "validate (code_model route) raw = Inr body"
  shows "\<exists>c w. read_code_call route body = Some c \<and> code_body c = Some w \<and> same_json w body"
  using accepted_conforms [OF assms] by (cases route) (auto dest: code_read dest!: update_read simp del: read_code_call.simps)

text \<open>The operation of an accepted command is one of the three, so the service is never asked for an unknown one.\<close>

theorem accepted_operation_known:
  assumes "validating validate" and "receive_body validate route raw = Inr (Some (On_Commands c))"
  shows "case c of Command_Get r \<Rightarrow> rq_operation r \<in> {GetProperty, SetProperty, Action}
    | Command_Post r \<Rightarrow> rq_operation r \<in> {GetProperty, SetProperty, Action}
    | Raw_Get r \<Rightarrow> raw_operation r \<in> {GetProperty, SetProperty, Action}
    | Raw_Post r \<Rightarrow> raw_operation r \<in> {GetProperty, SetProperty, Action}"
proof -
  from assms(2) obtain body where body: "validate (route_model route) raw = Inr body" "read_call route body = Some (On_Commands c)"
    by (auto simp: receive_body_def split: sum.splits)
  from accepted_conforms [OF assms(1) body(1)] body(2) command_read [of body] raw_read [of body] show ?thesis
    by (cases route) auto
qed

subsection \<open>The two transports of a command\<close>

text \<open>
  The payload of a message is the body of a command without the device, which the topic names: the two models accept
  the same commands and they are read alike.
\<close>

definition mqtt_validate :: "(schema_type \<Rightarrow> json \<Rightarrow> thrown + json) \<Rightarrow> json \<Rightarrow> thrown + (string \<times> operation \<times> json option) option" where
  "mqtt_validate validate parsed = (case validate MqttCommandRequestModel parsed of
       Inl e \<Rightarrow> Inl e
     | Inr request \<Rightarrow> Inr (mqtt_command_of request))"

theorem command_models_agree:
  assumes "''deviceId'' \<notin> set (map fst m)"
  shows "conforms CommandRequestModel (JObj ((''deviceId'', JNum d) # m)) = conforms MqttCommandRequestModel (JObj m)
    \<and> command_of (JObj ((''deviceId'', JNum d) # m))
      = map_option (\<lambda>(c, p, v). \<lparr>rq_deviceId = d, rq_command = c, rq_operation = p, rq_value = v\<rparr>) (mqtt_command_of (JObj m))"
proof
  show "conforms CommandRequestModel (JObj ((''deviceId'', JNum d) # m)) = conforms MqttCommandRequestModel (JObj m)"
    using assms by (auto simp: CommandRequestModel_def MqttCommandRequestModel_def conforms.simps(7) number_conforms subset_insert_iff)
  show "command_of (JObj ((''deviceId'', JNum d) # m))
      = map_option (\<lambda>(c, p, v). \<lparr>rq_deviceId = d, rq_command = c, rq_operation = p, rq_value = v\<rparr>) (mqtt_command_of (JObj m))"
    by (simp add: command_of_def mqtt_command_of_def split: bind_split option.split)
qed

lemma mqtt_accepted_read:
  assumes "validating validate" and "validate MqttCommandRequestModel parsed = Inr request"
  shows "\<exists>c p v. mqtt_validate validate parsed = Inr (Some (c, p, v)) \<and> p \<in> {GetProperty, SetProperty, Action}"
proof -
  from accepted_conforms [OF assms, unfolded MqttCommandRequestModel_def] obtain m c p where m: "request = JObj m"
    and f: "map_of m ''command'' = Some (JStr c)" "map_of m ''operation'' = Some (JStr (operation_text p))"
    and p: "p \<in> {GetProperty, SetProperty, Action}"
    by (elim model_fields) (auto simp: conforms_iff)
  show ?thesis
    using p by (simp add: mqtt_validate_def assms(2) mqtt_command_of_def m f operation_read [OF p] split: option.split)
qed

end
