(* ===== verification/Request_Log.thy ===== *)
theory Request_Log
  imports Http_Provider
begin

text \<open>
  The lines of an outbound request (\<^verbatim>\<open>packages/tsed-http-provider/src/attachRequestLogging.ts\<close>): what the request
  interceptor captures, the metadata of a line, and the two response interceptors. The redaction profile of
  \<^verbatim>\<open>@radoslavirha/redaction\<close> is a parameter: which sections are enabled, and the redacted text of a value.
\<close>

record redaction_profile =
  rd_enabled :: "string \<Rightarrow> bool"
  rd_collect :: "(string \<times> json option) list \<Rightarrow> (string, string) js_map"
  rd_redact :: "string \<Rightarrow> json option \<Rightarrow> string option"

text \<open>Its law: a section that is not enabled is neither collected nor redacted into a text.\<close>

definition redacting :: "redaction_profile \<Rightarrow> bool" where
  "redacting rd \<longleftrightarrow> (\<forall>sections k. map_of (rd_collect rd sections) k \<noteq> None \<longrightarrow> rd_enabled rd k \<and> k \<in> set (map fst sections))"

record logged_request =
  lq_method :: "string option"
  lq_baseURL :: "string option"
  lq_url :: "string option"
  lq_headers :: "json option"
  lq_params :: "json option"
  lq_data :: "json option"
  lq_startedAt :: "int option"
  lq_captured :: "(string, string) js_map"

record logged_response =
  la_status :: int
  la_headers :: "(string \<times> json) list option"
  la_data :: "json option"

record logged_error =
  le_name :: "string option"
  le_code :: "string option"
  le_message :: "string option"
  le_stack :: "string option"
  le_config :: "logged_request option"
  le_response :: "logged_response option"

definition upper_char :: "char \<Rightarrow> char" where
  "upper_char c = (let n = of_char c :: nat in if 97 \<le> n \<and> n \<le> 122 then char_of (n - 32) else c)"

definition HTTP_CLIENT_LOG_SCOPE :: string where "HTTP_CLIENT_LOG_SCOPE = ''HTTP_CLIENT''"
definition BINARY_PLACEHOLDER :: string where "BINARY_PLACEHOLDER = ''[[ BINARY ]]''"

definition capture_request :: "redaction_profile \<Rightarrow> int \<Rightarrow> logged_request \<Rightarrow> logged_request" where
  "capture_request rd now request = request
     \<lparr>lq_captured := rd_collect rd [(''headers'', lq_headers request), (''query'', lq_params request), (''request'', lq_data request)],
      lq_startedAt := Some now\<rparr>"

record log_meta =
  lm_provider :: string
  lm_method :: "string option"
  lm_url :: "string option"
  lm_status :: "int option"
  lm_duration :: "int option"
  lm_sections :: "(string, string option) js_map"

definition buildMeta :: "redaction_profile \<Rightarrow> string \<Rightarrow> int \<Rightarrow> logged_request option \<Rightarrow> logged_response option \<Rightarrow> log_meta" where
  "buildMeta rd providerKey now request response =
     (let captured = (case request of None \<Rightarrow> [] | Some r \<Rightarrow> map (\<lambda>(k, t). (k, Some t)) (lq_captured r));
          sections = (if rd_enabled rd ''response''
            then AList.update ''response''
              (if isTextualContentType (extractContentType (Option.bind response la_headers))
               then rd_redact rd ''response'' (Option.bind response la_data) else Some BINARY_PLACEHOLDER) captured
            else captured)
      in \<lparr>lm_provider = providerKey, lm_method = map_option (map upper_char) (Option.bind request lq_method),
          lm_url = resolveUrl (Option.bind request lq_baseURL) (Option.bind request lq_url),
          lm_status = map_option la_status response,
          lm_duration = map_option (\<lambda>started. now - started) (Option.bind request lq_startedAt), lm_sections = sections\<rparr>)"

datatype log_line =
    Request_Completed log_meta
  | Request_Failed log_meta "string option" "string option" "string option option"

text \<open>The response interceptors: a line, and the answer or the rejection as it was.\<close>

definition log_response ::
  "redaction_profile \<Rightarrow> log_config \<Rightarrow> string \<Rightarrow> int \<Rightarrow> logged_error + logged_request \<times> logged_response \<Rightarrow> log_line list
     \<Rightarrow> (logged_error + logged_request \<times> logged_response) \<times> log_line list" where
  "log_response rd config providerKey now outcome lines = (case outcome of
       Inr (request, response) \<Rightarrow> (Inr (request, response), lines @ [Request_Completed (buildMeta rd providerKey now (Some request) (Some response))])
     | Inl failure \<Rightarrow> (Inl failure, lines @ [Request_Failed (buildMeta rd providerKey now (le_config failure) (le_response failure))
         (case le_name failure of Some n \<Rightarrow> Some n | None \<Rightarrow> le_code failure) (le_message failure)
         (if lc_stack config then Some (le_stack failure) else None)]))"

fun meta_of :: "log_line \<Rightarrow> log_meta" where
  "meta_of (Request_Completed m) = m"
| "meta_of (Request_Failed m _ _ _) = m"

text \<open>
  Logging changes no outcome and writes one line for each. A line shows a section only when it is enabled: those of
  the request as they were captured before it was sent, whatever became of the request object since; the body of the
  answer redacted when its type is textual, and otherwise only as a placeholder.
\<close>

definition section_allowed :: "redaction_profile \<Rightarrow> logged_request option \<Rightarrow> logged_response option \<Rightarrow> string \<Rightarrow> string option \<Rightarrow> bool" where
  "section_allowed rd sent response k t \<longleftrightarrow> rd_enabled rd k
     \<and> (if k = ''response''
        then t = rd_redact rd k (Option.bind response la_data)
           \<or> (t = Some BINARY_PLACEHOLDER \<and> \<not> isTextualContentType (extractContentType (Option.bind response la_headers)))
        else \<exists>request. sent = Some request \<and> t = map_of (rd_collect rd
           [(''headers'', lq_headers request), (''query'', lq_params request), (''request'', lq_data request)]) k)"

lemma captured_sections:
  "map_of (map (\<lambda>(k, t). (k, Some t)) captured) k = map_option Some (map_of captured k)"
  by (induction captured) auto

theorem log_lines_redacted:
  assumes "redacting rd" and "lq_captured now_request = lq_captured (capture_request rd began request)"
    and "log_response rd config key now outcome lines = (outcome', lines')"
    and "outcome = Inr (now_request, response) \<and> answer = Some response
       \<or> outcome = Inl failure \<and> le_config failure = Some now_request \<and> le_response failure = answer"
    and "map_of (lm_sections (meta_of (last lines'))) k = Some t"
  shows "outcome' = outcome \<and> butlast lines' = lines \<and> section_allowed rd (Some request) answer k t"
proof -
  have law: "rd_enabled rd k \<and> k \<noteq> ''response''" if "map_of (lq_captured now_request) k = Some u" for u
    using assms(1,2) that by (fastforce simp: redacting_def capture_request_def)
  have meta: "meta_of (last lines') = buildMeta rd key now (Some now_request) answer"
    using assms(3,4) by (auto simp: log_response_def)
  have "section_allowed rd (Some request) answer k t"
    using assms(5) law assms(2)
    by (auto simp: meta buildMeta_def Let_def update_conv' captured_sections section_allowed_def capture_request_def split: if_splits)
  with assms(3,4) show ?thesis by (auto simp: log_response_def)
qed

end
