(* ===== verification/Responses.thy ===== *)
theory Responses
  imports Routes
begin

text \<open>
  What a caller gets to read: the response models of the bridge and of the map feeder
  (\<^verbatim>\<open>models/\<close>) written out as JSON under the groups of the route that answers
  (\<^verbatim>\<open>ModelGroups.ts\<close>). The serializer is the framework's: whether a property marked with a group is
  written, and the groups a nested model is written under, are parameters. Dates are written by it too.
\<close>

record serializer =
  sz_exposes :: "string \<Rightarrow> string list \<Rightarrow> bool"
  sz_nested :: "bool \<Rightarrow> string list \<Rightarrow> string list"
  sz_date :: "int \<Rightarrow> json"

text \<open>A group with an exclamation mark hides; nested models get the groups where they are forwarded.\<close>

definition group_rules :: "serializer \<Rightarrow> bool" where
  "group_rules sz \<longleftrightarrow> (\<forall>g gs. sz_exposes sz (''!'' @ g) gs \<longleftrightarrow> g \<notin> set gs)
     \<and> (\<forall>gs. sz_nested sz True gs = gs) \<and> (\<forall>gs. sz_nested sz False gs = [])"

definition GROUP_SIMPLIFIED_SPEC :: string where "GROUP_SIMPLIFIED_SPEC = ''simplified-spec''"
definition GROUP_NEVER_SIMPLIFIED_SPEC :: string where "GROUP_NEVER_SIMPLIFIED_SPEC = ''!'' @ GROUP_SIMPLIFIED_SPEC"
definition GROUP_IOT :: string where "GROUP_IOT = ''iot''"
definition GROUP_NEVER_IOT :: string where "GROUP_NEVER_IOT = ''!'' @ GROUP_IOT"

definition grouped :: "serializer \<Rightarrow> string \<Rightarrow> string list \<Rightarrow> string \<Rightarrow> json \<Rightarrow> (string \<times> json) list" where
  "grouped sz marker groups name v = (if sz_exposes sz marker groups then [(name, v)] else [])"

lemma grouped_simplified:
  "group_rules sz \<Longrightarrow> grouped sz GROUP_NEVER_SIMPLIFIED_SPEC groups name v
     = (if GROUP_SIMPLIFIED_SPEC \<in> set groups then [] else [(name, v)])"
  "group_rules sz \<Longrightarrow> grouped sz GROUP_NEVER_IOT groups name v = (if GROUP_IOT \<in> set groups then [] else [(name, v)])"
  by (simp_all add: grouped_def group_rules_def GROUP_NEVER_SIMPLIFIED_SPEC_def GROUP_NEVER_IOT_def del: append.simps)

subsection \<open>The bridge\<close>

definition MiotPropertyValue_json :: "spec_value \<Rightarrow> json" where
  "MiotPropertyValue_json v = JObj [(''value'', JNum (sv_value v)), (''description'', JStr (sv_description v))]"

definition MiotProperty_json :: "serializer \<Rightarrow> string list \<Rightarrow> miot_property \<Rightarrow> json" where
  "MiotProperty_json sz groups p = JObj (
     grouped sz GROUP_NEVER_SIMPLIFIED_SPEC groups ''siid'' (JNum (mp_siid p))
     @ grouped sz GROUP_NEVER_SIMPLIFIED_SPEC groups ''piid'' (JNum (mp_piid p))
     @ [(''access'', JArr (map JStr (mp_access p))), (''values'', JArr (map MiotPropertyValue_json (mp_values p)))]
     @ grouped sz GROUP_NEVER_SIMPLIFIED_SPEC groups ''source'' (JStr (mp_source p)))"

definition MiotAction_json :: "serializer \<Rightarrow> string list \<Rightarrow> miot_action \<Rightarrow> json" where
  "MiotAction_json sz groups a = JObj (
     grouped sz GROUP_NEVER_SIMPLIFIED_SPEC groups ''siid'' (JNum (ma_siid a))
     @ grouped sz GROUP_NEVER_SIMPLIFIED_SPEC groups ''aiid'' (JNum (ma_aiid a))
     @ [(''in'', JArr (map JStr (ma_in a)))])"

definition SimplifiedMiotSpec_json :: "serializer \<Rightarrow> string list \<Rightarrow> simplified_spec \<Rightarrow> json" where
  "SimplifiedMiotSpec_json sz groups spec = JObj (
     grouped sz GROUP_NEVER_SIMPLIFIED_SPEC groups ''name'' (JStr (simp_name spec))
     @ grouped sz GROUP_NEVER_SIMPLIFIED_SPEC groups ''type'' (JStr (simp_type spec))
     @ [(''properties'', JObj (map (\<lambda>(k, p). (k, MiotProperty_json sz (sz_nested sz True groups) p)) (simp_properties spec))),
        (''actions'', JObj (map (\<lambda>(k, a). (k, MiotAction_json sz (sz_nested sz True groups) a)) (simp_actions spec)))])"

definition BaseModel_fields :: "serializer \<Rightarrow> string \<Rightarrow> int \<Rightarrow> int \<Rightarrow> (string \<times> json) list" where
  "BaseModel_fields sz i created updated = [(''id'', JStr i), (''createdAt'', sz_date sz created), (''updatedAt'', sz_date sz updated)]"

definition hidden_optional :: "serializer \<Rightarrow> string list \<Rightarrow> string \<Rightarrow> int option \<Rightarrow> (string \<times> json) list" where
  "hidden_optional sz groups name v = (case v of None \<Rightarrow> [] | Some n \<Rightarrow> grouped sz GROUP_NEVER_SIMPLIFIED_SPEC groups name (JNum n))"

definition Device_fields :: "serializer \<Rightarrow> string list \<Rightarrow> device_cache \<Rightarrow> (string \<times> json) list" where
  "Device_fields sz groups d =
     BaseModel_fields sz (dc_id d) (dc_createdAt d) (dc_updatedAt d)
     @ [(''deviceId'', JNum (dc_deviceId d)), (''address'', JStr (dc_address d))]
     @ grouped sz GROUP_NEVER_SIMPLIFIED_SPEC groups ''token'' (JStr (dc_token d))
     @ hidden_optional sz groups ''stamp'' (dc_stamp d)
     @ [(''model'', JStr (dc_model d)), (''specURL'', JStr (dc_specURL d))]
     @ hidden_optional sz groups ''stampUpdatedAt'' (dc_stampUpdatedAt d)"

definition DeviceWithSpec_json :: "serializer \<Rightarrow> string list \<Rightarrow> device_cache \<times> simplified_spec \<Rightarrow> json" where
  "DeviceWithSpec_json sz groups = (\<lambda>(d, spec).
     JObj (Device_fields sz groups d @ [(''spec'', SimplifiedMiotSpec_json sz (sz_nested sz True groups) spec)]))"

definition DevicesGetResponse_json :: "serializer \<Rightarrow> string list \<Rightarrow> (device_cache \<times> simplified_spec) list \<Rightarrow> json" where
  "DevicesGetResponse_json sz groups devices =
     JObj [(''devices'', JArr (map (DeviceWithSpec_json sz (sz_nested sz False groups)) devices))]"

definition DeviceDiscoverResponse_json ::
  "serializer \<Rightarrow> string list \<Rightarrow> device_request \<times> int \<times> string \<times> simplified_spec \<Rightarrow> json" where
  "DeviceDiscoverResponse_json sz groups = (\<lambda>(request, deviceId, specURL, spec). JObj (
     [(''deviceId'', JNum deviceId), (''address'', JStr (req_address request))]
     @ grouped sz GROUP_NEVER_SIMPLIFIED_SPEC groups ''token'' (JStr (req_token request))
     @ [(''model'', JStr (req_model request)), (''specURL'', JStr specURL),
        (''spec'', SimplifiedMiotSpec_json sz (sz_nested sz True groups) spec)]))"

definition DeviceNotification_json :: "serializer \<Rightarrow> notification \<Rightarrow> json" where
  "DeviceNotification_json sz n = JObj (BaseModel_fields sz (no_id n) (no_createdAt n) (no_updatedAt n)
     @ [(''deviceId'', JStr (no_deviceId n)), (''property'', JStr (no_property n))])"

definition DeviceNotificationsResponse_json :: "serializer \<Rightarrow> notification list \<Rightarrow> json" where
  "DeviceNotificationsResponse_json sz ns = JObj [(''notifications'', JArr (map (DeviceNotification_json sz) ns))]"

definition ModelPropertyOverride_json :: "serializer \<Rightarrow> model_override \<Rightarrow> json" where
  "ModelPropertyOverride_json sz v = JObj (BaseModel_fields sz (ov_id v) (ov_createdAt v) (ov_updatedAt v)
     @ [(''model'', JStr (ov_model v)), (''key'', JStr (ov_key v)), (''siid'', JNum (ov_siid v)), (''piid'', JNum (ov_piid v)),
        (''access'', JArr (map JStr (ov_access v))), (''values'', JArr (map MiotPropertyValue_json (ov_values v)))])"

definition ModelPropertyOverridesResponse_json :: "serializer \<Rightarrow> model_override list \<Rightarrow> json" where
  "ModelPropertyOverridesResponse_json sz vs = JObj [(''overrides'', JArr (map (ModelPropertyOverride_json sz) vs))]"

text \<open>
  The body of an answer. The routes of the devices controller answer under the group
  \<open>GROUP_SIMPLIFIED_SPEC\<close>, the others under none.
\<close>

fun bridge_body :: "serializer \<Rightarrow> bridge_answer \<Rightarrow> json option" where
  "bridge_body sz (Discovered found) = Some (DeviceDiscoverResponse_json sz [GROUP_SIMPLIFIED_SPEC] found)"
| "bridge_body sz (Device_Answer d spec) = Some (DeviceWithSpec_json sz [GROUP_SIMPLIFIED_SPEC] (d, spec))"
| "bridge_body sz (Devices_Answer ds) = Some (DevicesGetResponse_json sz [GROUP_SIMPLIFIED_SPEC] ds)"
| "bridge_body sz (Notifications_Answer ns) = Some (DeviceNotificationsResponse_json sz ns)"
| "bridge_body sz (Override_Answer v) = Some (ModelPropertyOverride_json sz v)"
| "bridge_body sz (Overrides_Answer vs) = Some (ModelPropertyOverridesResponse_json sz vs)"
| "bridge_body sz (Command_Answer v) = map_option body_json v"
| "bridge_body sz Nothing = None"

subsection \<open>The map feeder\<close>

definition City_fields :: "serializer \<Rightarrow> ('n \<Rightarrow> json) \<Rightarrow> string list \<Rightarrow> 'n city_led \<Rightarrow> (string \<times> json) list" where
  "City_fields sz num groups c =
     grouped sz GROUP_NEVER_IOT groups ''latitude'' (num (latitude c))
     @ grouped sz GROUP_NEVER_IOT groups ''longitude'' (num (longitude c))
     @ [(''id'', JNum (city_id c))]
     @ grouped sz GROUP_NEVER_IOT groups ''name'' (JStr (city_name c))"

definition CityLED_json :: "serializer \<Rightarrow> ('n \<Rightarrow> json) \<Rightarrow> string list \<Rightarrow> 'n city_led \<Rightarrow> json" where
  "CityLED_json sz num groups c = JObj (City_fields sz num groups c
     @ [(''color'', JObj [(''r'', JNum (color_r c)), (''g'', JNum (color_g c)), (''b'', JNum (color_b c))])])"

definition DataSourceCitiesResponse_json :: "serializer \<Rightarrow> ('n \<Rightarrow> json) \<Rightarrow> string list \<Rightarrow> 'n city_led list \<Rightarrow> json" where
  "DataSourceCitiesResponse_json sz num groups cs =
     JObj [(''cities'', JArr (map (CityLED_json sz num (sz_nested sz True groups)) cs))]"

fun cities_body :: "serializer \<Rightarrow> ('n \<Rightarrow> json) \<Rightarrow> 'n sources_call \<Rightarrow> 'n city_led list \<Rightarrow> json" where
  "cities_body sz num (Source_Cities_Iot _ _) cs = DataSourceCitiesResponse_json sz num [GROUP_IOT] cs"
| "cities_body sz num _ cs = DataSourceCitiesResponse_json sz num [] cs"

text \<open>The reduced answer of the device route: a LED's number and its colour, and nothing else.\<close>

lemma iot_answer_reduced:
  "group_rules sz \<Longrightarrow> cities_body sz num (Source_Cities_Iot source radius) cs
     = JObj [(''cities'', JArr (map (\<lambda>c. JObj [(''id'', JNum (city_id c)),
         (''color'', JObj [(''r'', JNum (color_r c)), (''g'', JNum (color_g c)), (''b'', JNum (color_b c))])]) cs))]"
  by (simp add: DataSourceCitiesResponse_json_def CityLED_json_def City_fields_def grouped_simplified)
    (simp add: group_rules_def)

subsection \<open>The device token\<close>

lemma single_hides_token:
  assumes "group_rules sz"
  shows "js_get ''token'' (DeviceWithSpec_json sz [GROUP_SIMPLIFIED_SPEC] ds) = None"
    and "js_get ''token'' (DeviceDiscoverResponse_json sz [GROUP_SIMPLIFIED_SPEC] found) = None"
  by (simp_all add: js_get_def DeviceWithSpec_json_def DeviceDiscoverResponse_json_def Device_fields_def BaseModel_fields_def
      hidden_optional_def grouped_simplified [OF assms] split: prod.splits option.splits)

lemma nested_shows_token:
  assumes "group_rules sz"
  shows "js_get ''token'' (DeviceWithSpec_json sz (sz_nested sz False groups) ds) = Some (JStr (dc_token (fst ds)))"
proof -
  have "sz_nested sz False groups = []" using assms by (simp add: group_rules_def)
  then show ?thesis
    by (simp add: js_get_def DeviceWithSpec_json_def Device_fields_def BaseModel_fields_def hidden_optional_def
        grouped_simplified [OF assms] split: prod.splits)
qed

lemma with_specs_devices: "with_specs env ds s = (Inr found, s') \<Longrightarrow> map fst found = ds"
proof (induction ds arbitrary: s found)
  case Nil
  then show ?case by simp
next
  case (Cons d ds)
  from Cons.prems obtain vs spec rest s1 where "with_specs env ds s1 = (Inr rest, s')" "found = (d, spec) # rest"
    by (auto simp: and_then_Inr)
  with Cons.IH show ?case by auto
qed

text \<open>
  Property C14. The token that commands a device, and where it is answered. The routes for one device leave it out
  of their answer; the listing does not: the collection of \<^verbatim>\<open>DevicesGetResponse\<close> does not forward the
  route's group, so every device in it is written with the token it is stored under.
\<close>

theorem listing_exposes_tokens:
  assumes "group_rules sz" and "DevicesController env c s = (Inr (status, a), s')"
  shows "case c of
      Device_List \<Rightarrow> \<exists>items. bridge_body sz a = Some (JObj [(''devices'', JArr items)])
        \<and> map (js_get ''token'') items
          = map (\<lambda>d. Some (JStr (dc_token d))) (dev_read (app_files s))
    | _ \<Rightarrow> \<forall>body. bridge_body sz a = Some body \<longrightarrow> js_get ''token'' body = None"
proof (cases c)
  case Device_List
  with assms(2) obtain found s1 where found: "with_specs env (map (device_of_dto (he_mapEnum env)) (dev_read (app_files s))) s1 = (Inr found, s')"
    and a: "a = Devices_Answer found"
    by (auto simp: answering_def and_then_Inr DeviceGetAll_def storage_getAll_def)
  have "map (\<lambda>ds. js_get ''token'' (DeviceWithSpec_json sz (sz_nested sz False [GROUP_SIMPLIFIED_SPEC]) ds)) found
      = map (\<lambda>d. Some (JStr (dc_token d))) (map fst found)" by (simp add: nested_shows_token [OF assms(1)])
  with with_specs_devices [OF found] a Device_List show ?thesis
    by (simp add: DevicesGetResponse_json_def comp_def device_of_dto_def)
qed (use assms(2) in \<open>auto simp: answering_def and_then_Inr single_hides_token [OF assms(1)]\<close>)

definition sample_serializer :: serializer where
  "sample_serializer = \<lparr>sz_exposes = (\<lambda>marker groups. case marker of [] \<Rightarrow> True | x # g \<Rightarrow> x \<noteq> CHR ''!'' \<or> g \<notin> set groups),
     sz_nested = (\<lambda>forwarded groups. if forwarded then groups else []), sz_date = JNum\<rparr>"

lemma sample_serializer_rules: "group_rules sample_serializer"
  by (simp add: group_rules_def sample_serializer_def)

lemma sample_listing:
  "case DevicesController sample_host_env Device_List sample_host of (Inr (status, _), _) \<Rightarrow> status = 200 | _ \<Rightarrow> False"
  by code_simp

lemma listing_exposes_tokens_witness:
  "\<exists>a s'. DevicesController sample_host_env Device_List sample_host = (Inr (200, a), s')
     \<and> (\<exists>items. bridge_body sample_serializer a = Some (JObj [(''devices'', JArr items)])
          \<and> map (js_get ''token'') items = [Some (JStr ''00'')])"
proof -
  obtain a s' where run: "DevicesController sample_host_env Device_List sample_host = (Inr (200, a), s')"
    using sample_listing by (auto split: prod.splits sum.splits if_splits)
  have stored: "map dc_token (dev_read (app_files sample_host)) = [''00'']"
    by (simp add: dev_read_def content_def sample_host_def)
  then have "map (\<lambda>d. Some (JStr (dc_token d))) (dev_read (app_files sample_host)) = [Some (JStr ''00'')]" by auto
  with listing_exposes_tokens [OF sample_serializer_rules run] run show ?thesis by auto
qed

end
