(* ===== verification/Mongo_Storage.thy ===== *)
theory Mongo_Storage
  imports Handlers "HOL-Library.Multiset"
begin

text \<open>
  The MongoDB backend of the bridge (\<^verbatim>\<open>storage/*-mongo\<close>, \<^verbatim>\<open>services/*MongoService.ts\<close>,
  \<^verbatim>\<open>mappers/Mongo*.ts\<close>) and the facades that choose a backend when the container starts
  (\<^verbatim>\<open>services/DeviceStorageService.ts\<close>, \<^verbatim>\<open>NotificationStorageService.ts\<close>,
  \<^verbatim>\<open>ModelPropertyOverrideService.ts\<close>). A mongoose model is a parameter; what the theorems need of it
  is \<open>mongo_law\<close>. A document is the entity it was written from with an identifier and two times.
\<close>

subsection \<open>The driver\<close>

record ('q, 'e, 'd, 'n) mongoose_model =
  mg_find :: "'q \<Rightarrow> ('d list, 'n) effect"
  mg_findOne :: "'q \<Rightarrow> ('d option, 'n) effect"
  mg_findById :: "string \<Rightarrow> ('d option, 'n) effect"
  mg_create :: "'e \<Rightarrow> ('d, 'n) effect"
  mg_findByIdAndUpdate :: "string \<Rightarrow> 'e \<Rightarrow> ('d option, 'n) effect"
  mg_findByIdAndDelete :: "string \<Rightarrow> (unit, 'n) effect"
  mg_deleteMany :: "'q \<Rightarrow> (unit, 'n) effect"

text \<open>
  What a call that resolves has done, with \<open>docs\<close> the documents of the collection, in no order.
  \<open>cast\<close> is how the driver reads the identifier a call names; a document's own identifier is read as
  itself. Of several matches \<open>findOne\<close> gives any. An update of a document keeps its identifier, and what
  else it wrote is left open. Nothing is assumed of a write that is rejected: it may have happened.
\<close>

definition finds_all :: "('r \<Rightarrow> bool) \<Rightarrow> 'r multiset \<Rightarrow> 'r list \<Rightarrow> bool" where
  "finds_all P rs xs \<longleftrightarrow> mset xs = filter_mset P rs"

definition finds_one :: "('r \<Rightarrow> bool) \<Rightarrow> 'r multiset \<Rightarrow> 'r option \<Rightarrow> bool" where
  "finds_one P rs x \<longleftrightarrow> (case x of None \<Rightarrow> \<forall>r \<in># rs. \<not> P r | Some r \<Rightarrow> r \<in># rs \<and> P r)"

definition mongo_law ::
  "('q, 'e, 'd, 'n) mongoose_model \<Rightarrow> (string \<Rightarrow> string option) \<Rightarrow> ('d \<Rightarrow> string) \<Rightarrow> ('d \<Rightarrow> 'e) \<Rightarrow> ('q \<Rightarrow> 'd \<Rightarrow> bool)
     \<Rightarrow> ('n \<Rightarrow> 'd multiset) \<Rightarrow> bool" where
  "mongo_law m cast ident body matches docs \<longleftrightarrow>
     (\<forall>q n x n'. mg_find m q n = (x, n') \<longrightarrow> docs n' = docs n \<and> (\<forall>ds. x = Inr ds \<longrightarrow> finds_all (matches q) (docs n) ds))
   \<and> (\<forall>q n x n'. mg_findOne m q n = (x, n') \<longrightarrow> docs n' = docs n \<and> (\<forall>d. x = Inr d \<longrightarrow> finds_one (matches q) (docs n) d))
   \<and> (\<forall>i n x n'. mg_findById m i n = (x, n') \<longrightarrow>
        docs n' = docs n \<and> (\<forall>d. x = Inr d \<longrightarrow> finds_one (\<lambda>d. cast i = Some (ident d)) (docs n) d))
   \<and> (\<forall>e n d n'. mg_create m e n = (Inr d, n') \<longrightarrow>
        docs n' = add_mset d (docs n) \<and> body d = e \<and> ident d \<notin># image_mset ident (docs n) \<and> cast (ident d) = Some (ident d))
   \<and> (\<forall>i e n n'. mg_findByIdAndUpdate m i e n = (Inr None, n') \<longrightarrow>
        docs n' = docs n \<and> (\<forall>d \<in># docs n. cast i \<noteq> Some (ident d)))
   \<and> (\<forall>i e n d n'. mg_findByIdAndUpdate m i e n = (Inr (Some d), n') \<longrightarrow>
        (\<exists>d0 \<in># docs n. cast i = Some (ident d0) \<and> ident d = ident d0 \<and> docs n' = add_mset d (docs n - {#d0#})))
   \<and> (\<forall>i n n'. mg_findByIdAndDelete m i n = (Inr (), n') \<longrightarrow> docs n' = filter_mset (\<lambda>d. cast i \<noteq> Some (ident d)) (docs n))
   \<and> (\<forall>q n n'. mg_deleteMany m q n = (Inr (), n') \<longrightarrow> docs n' = filter_mset (\<lambda>d. \<not> matches q d) (docs n))"

lemma mongo_law_reads:
  assumes "mongo_law m cast ident body matches docs"
  shows "mg_find m q n = (x, n') \<Longrightarrow> docs n' = docs n \<and> (\<forall>ds. x = Inr ds \<longrightarrow> finds_all (matches q) (docs n) ds)"
    and "mg_findOne m q n = (y, n') \<Longrightarrow> docs n' = docs n \<and> (\<forall>d. y = Inr d \<longrightarrow> finds_one (matches q) (docs n) d)"
    and "mg_findById m i n = (y, n') \<Longrightarrow> docs n' = docs n \<and> (\<forall>d. y = Inr d \<longrightarrow> finds_one (\<lambda>d. cast i = Some (ident d)) (docs n) d)"
  using assms [unfolded mongo_law_def, THEN conjunct1, rule_format, of q n x n']
    assms [unfolded mongo_law_def, THEN conjunct2, THEN conjunct1, rule_format, of q n y n']
    assms [unfolded mongo_law_def, THEN conjunct2, THEN conjunct2, THEN conjunct1, rule_format, of i n y n'] by simp_all

lemma mongo_law_writes:
  assumes "mongo_law m cast ident body matches docs"
  shows "mg_create m e n = (Inr d, n') \<Longrightarrow> docs n' = add_mset d (docs n) \<and> body d = e
      \<and> ident d \<notin># image_mset ident (docs n) \<and> cast (ident d) = Some (ident d)"
    and "mg_findByIdAndDelete m i n = (Inr (), n') \<Longrightarrow> docs n' = filter_mset (\<lambda>d. cast i \<noteq> Some (ident d)) (docs n)"
    and "mg_deleteMany m q n = (Inr (), n') \<Longrightarrow> docs n' = filter_mset (\<lambda>d. \<not> matches q d) (docs n)"
    and "mg_findByIdAndUpdate m i e n = (Inr (Some d), n') \<Longrightarrow> \<exists>d0 \<in># docs n. cast i = Some (ident d0)"
  using assms unfolding mongo_law_def by meson+

subsection \<open>Devices\<close>

record 'j device_entity =
  en_deviceId :: int
  en_address :: string
  en_token :: string
  en_stamp :: "int option"
  en_modelName :: string
  en_specURL :: string
  en_rawSpec :: 'j
  en_stampUpdatedAt :: "int option"

record 'j device_doc = "'j device_entity" +
  dd_id :: string
  dd_createdAt :: int
  dd_updatedAt :: int

datatype device_query = Any_Device | Device_With_Id int

type_synonym ('j, 'n) device_model = "(device_query, 'j device_entity, 'j device_doc, 'n) mongoose_model"

text \<open>
  The repository. \<open>find({})\<close>, \<open>findOne({ deviceId })\<close> and the calls by identifier are the driver's.
\<close>

definition device_findAll :: "('j, 'n) device_model \<Rightarrow> ('j device_doc list, 'n) effect" where
  "device_findAll m = mg_find m Any_Device"

definition device_findById :: "('j, 'n) device_model \<Rightarrow> string \<Rightarrow> ('j device_doc option, 'n) effect" where
  "device_findById m i = mg_findById m i"

definition device_findByDeviceId :: "('j, 'n) device_model \<Rightarrow> int \<Rightarrow> ('j device_doc option, 'n) effect" where
  "device_findByDeviceId m deviceId = mg_findOne m (Device_With_Id deviceId)"

definition device_create :: "('j, 'n) device_model \<Rightarrow> 'j device_entity \<Rightarrow> ('j device_doc, 'n) effect" where
  "device_create m payload = mg_create m payload"

definition device_updateById :: "('j, 'n) device_model \<Rightarrow> string \<Rightarrow> 'j device_entity \<Rightarrow> ('j device_doc option, 'n) effect" where
  "device_updateById m i payload = mg_findByIdAndUpdate m i payload"

definition device_deleteById :: "('j, 'n) device_model \<Rightarrow> string \<Rightarrow> (unit, 'n) effect" where
  "device_deleteById m i = mg_findByIdAndDelete m i"

text \<open>
  The mapper. The raw document goes through the serializer; \<open>mc_nullRead\<close> is what reading a property of
  \<open>null\<close> throws.
\<close>

record 'j mongo_codec =
  mc_mapEnum :: "enum \<Rightarrow> enum \<Rightarrow> string \<Rightarrow> string"
  mc_serialize :: "spec_v2 \<Rightarrow> 'j"
  mc_deserialize :: "'j \<Rightarrow> spec_v2"
  mc_nullRead :: thrown

definition device_mongoToModel :: "'j mongo_codec \<Rightarrow> 'j device_doc \<Rightarrow> device_cache" where
  "device_mongoToModel c doc =
     \<lparr>dc_id = dd_id doc, dc_createdAt = dd_createdAt doc, dc_updatedAt = dd_updatedAt doc, dc_deviceId = en_deviceId doc,
      dc_address = en_address doc, dc_token = en_token doc, dc_stamp = en_stamp doc, dc_model = en_modelName doc,
      dc_specURL = en_specURL doc,
      dc_stampUpdatedAt = Some (case en_stampUpdatedAt doc of None \<Rightarrow> 0 | Some t \<Rightarrow> t),
      dc_rawSpec = mapDTOToModel (mc_mapEnum c) (mc_deserialize c (en_rawSpec doc))\<rparr>"

definition device_buildMongoCreate :: "'j mongo_codec \<Rightarrow> device_cache \<Rightarrow> 'j device_entity" where
  "device_buildMongoCreate c d =
     \<lparr>en_deviceId = dc_deviceId d, en_address = dc_address d, en_token = dc_token d, en_stamp = dc_stamp d,
      en_modelName = dc_model d, en_specURL = dc_specURL d,
      en_rawSpec = mc_serialize c (mapModelToDTO (mc_mapEnum c) (dc_rawSpec d)),
      en_stampUpdatedAt = Some (case dc_stampUpdatedAt d of None \<Rightarrow> 0 | Some t \<Rightarrow> t)\<rparr>"

definition device_buildMongoUpdate :: "'j mongo_codec \<Rightarrow> device_cache \<Rightarrow> 'j device_entity" where
  "device_buildMongoUpdate c d =
     \<lparr>en_deviceId = dc_deviceId d, en_address = dc_address d, en_token = dc_token d, en_stamp = dc_stamp d,
      en_modelName = dc_model d, en_specURL = dc_specURL d,
      en_rawSpec = mc_serialize c (mapModelToDTO (mc_mapEnum c) (dc_rawSpec d)),
      en_stampUpdatedAt = Some (case dc_stampUpdatedAt d of None \<Rightarrow> 0 | Some t \<Rightarrow> t)\<rparr>"

text \<open>The operations a facade offers, of either backend.\<close>

record 'n device_storage =
  ds_getAll :: "(device_cache list, 'n host) effect"
  ds_getById :: "string \<Rightarrow> (device_cache option, 'n host) effect"
  ds_getByDeviceId :: "int \<Rightarrow> (device_cache option, 'n host) effect"
  ds_create :: "device_cache \<Rightarrow> (device_cache, 'n host) effect"
  ds_update :: "device_cache \<Rightarrow> (device_cache, 'n host) effect"
  ds_delete :: "string \<Rightarrow> (unit, 'n host) effect"

definition mapped :: "('a \<Rightarrow> 'b) \<Rightarrow> ('a, 'n) effect \<Rightarrow> ('b, 'n host) effect" where
  "mapped f m = requesting (and_then m (\<lambda>a. returning (f a)))"

definition DeviceMongoService :: "'j mongo_codec \<Rightarrow> ('j, 'n) device_model \<Rightarrow> 'n device_storage" where
  "DeviceMongoService c m =
     \<lparr>ds_getAll = mapped (map (device_mongoToModel c)) (device_findAll m),
      ds_getById = (\<lambda>i. mapped (map_option (device_mongoToModel c)) (device_findById m i)),
      ds_getByDeviceId = (\<lambda>i. mapped (map_option (device_mongoToModel c)) (device_findByDeviceId m i)),
      ds_create = (\<lambda>d. mapped (device_mongoToModel c) (device_create m (device_buildMongoCreate c d))),
      ds_update = (\<lambda>d. requesting (and_then (device_updateById m (dc_id d) (device_buildMongoUpdate c d))
        (\<lambda>dto. case dto of None \<Rightarrow> throwing (mc_nullRead c) | Some doc \<Rightarrow> returning (device_mongoToModel c doc)))),
      ds_delete = (\<lambda>i. mapped (\<lambda>_. ()) (device_deleteById m i))\<rparr>"

definition DeviceLocalStorageService :: "'n host_env \<Rightarrow> 'n device_storage" where
  "DeviceLocalStorageService env =
     \<lparr>ds_getAll = storage_getAll env, ds_getById = storage_getById env, ds_getByDeviceId = storage_getByDeviceId env,
      ds_create = storage_create env, ds_update = storage_update env, ds_delete = storage_delete\<rparr>"

definition DeviceStorageService :: "bool \<Rightarrow> 'n device_storage \<Rightarrow> 'n device_storage \<Rightarrow> 'n device_storage" where
  "DeviceStorageService mongodbEnabled fileDeviceService mongoDeviceService =
     (if mongodbEnabled then mongoDeviceService else fileDeviceService)"

subsection \<open>Notification subscriptions\<close>

record notification_entity =
  ne_deviceId :: string
  ne_property :: string

record notification_doc = notification_entity +
  nd_id :: string
  nd_createdAt :: int
  nd_updatedAt :: int

datatype notification_query = Any_Notification | Of_Device string

type_synonym 'n notification_model = "(notification_query, notification_entity, notification_doc, 'n) mongoose_model"

definition notification_findAll :: "'n notification_model \<Rightarrow> (notification_doc list, 'n) effect" where
  "notification_findAll m = mg_find m Any_Notification"

definition notification_findById :: "'n notification_model \<Rightarrow> string \<Rightarrow> (notification_doc option, 'n) effect" where
  "notification_findById m i = mg_findById m i"

definition notification_findAllByDeviceId :: "'n notification_model \<Rightarrow> string \<Rightarrow> (notification_doc list, 'n) effect" where
  "notification_findAllByDeviceId m deviceId = mg_find m (Of_Device deviceId)"

definition notification_create :: "'n notification_model \<Rightarrow> notification_entity \<Rightarrow> (notification_doc, 'n) effect" where
  "notification_create m payload = mg_create m payload"

definition notification_deleteById :: "'n notification_model \<Rightarrow> string \<Rightarrow> (unit, 'n) effect" where
  "notification_deleteById m i = mg_findByIdAndDelete m i"

definition notification_deleteAllByDeviceId :: "'n notification_model \<Rightarrow> string \<Rightarrow> (unit, 'n) effect" where
  "notification_deleteAllByDeviceId m deviceId = mg_deleteMany m (Of_Device deviceId)"

definition notification_mongoToModel :: "notification_doc \<Rightarrow> notification" where
  "notification_mongoToModel doc =
     \<lparr>no_id = nd_id doc, no_createdAt = nd_createdAt doc, no_updatedAt = nd_updatedAt doc,
      no_deviceId = ne_deviceId doc, no_property = ne_property doc\<rparr>"

definition notification_buildMongoCreate :: "string \<times> string \<Rightarrow> notification_entity" where
  "notification_buildMongoCreate = (\<lambda>(deviceId, property). \<lparr>ne_deviceId = deviceId, ne_property = property\<rparr>)"

record 'n notification_storage =
  ns_getAll :: "(notification list, 'n host) effect"
  ns_getById :: "string \<Rightarrow> (notification option, 'n host) effect"
  ns_getAllByDeviceId :: "string \<Rightarrow> (notification list, 'n host) effect"
  ns_create :: "string \<times> string \<Rightarrow> (notification, 'n host) effect"
  ns_deleteById :: "string \<Rightarrow> (unit, 'n host) effect"
  ns_deleteAllByDeviceId :: "string \<Rightarrow> (unit, 'n host) effect"

definition DeviceNotificationMongoService :: "'n notification_model \<Rightarrow> 'n notification_storage" where
  "DeviceNotificationMongoService m =
     \<lparr>ns_getAll = mapped (map notification_mongoToModel) (notification_findAll m),
      ns_getById = (\<lambda>i. mapped (map_option notification_mongoToModel) (notification_findById m i)),
      ns_getAllByDeviceId = (\<lambda>d. mapped (map notification_mongoToModel) (notification_findAllByDeviceId m d)),
      ns_create = (\<lambda>n. mapped notification_mongoToModel (notification_create m (notification_buildMongoCreate n))),
      ns_deleteById = (\<lambda>i. mapped (\<lambda>_. ()) (notification_deleteById m i)),
      ns_deleteAllByDeviceId = (\<lambda>d. mapped (\<lambda>_. ()) (notification_deleteAllByDeviceId m d))\<rparr>"

definition NotificationLocalStorageService :: "'n notification_storage" where
  "NotificationLocalStorageService =
     \<lparr>ns_getAll = reading not_read, ns_getById = (\<lambda>i. reading (not_getById i)),
      ns_getAllByDeviceId = (\<lambda>d. reading (not_getAllByDeviceId d)),
      ns_create = (\<lambda>(d, p). on_files (not_create d p)),
      ns_deleteById = (\<lambda>i. on_files (\<lambda>fs. ((), not_deleteById i fs))),
      ns_deleteAllByDeviceId = (\<lambda>d. on_files (\<lambda>fs. ((), not_deleteAllByDeviceId d fs)))\<rparr>"

definition NotificationStorageService :: "bool \<Rightarrow> 'n notification_storage \<Rightarrow> 'n notification_storage \<Rightarrow> 'n notification_storage" where
  "NotificationStorageService mongodbEnabled fileNotificationService mongoNotificationService =
     (if mongodbEnabled then mongoNotificationService else fileNotificationService)"

subsection \<open>Property overrides\<close>

record override_entity =
  oe_modelName :: string
  oe_key :: string
  oe_siid :: int
  oe_piid :: int
  oe_access :: "string list"
  oe_values :: "spec_value list"

record override_doc = override_entity +
  od_id :: string
  od_createdAt :: int
  od_updatedAt :: int

definition ModelPropertyOverrideAccessMongoDTO :: enum where
  "ModelPropertyOverrideAccessMongoDTO = [(''Read'', ''READ''), (''Write'', ''WRITE''), (''Notify'', ''NOTIFY'')]"

datatype override_query = Any_Override | Of_Model string

type_synonym 'n override_model = "(override_query, override_entity, override_doc, 'n) mongoose_model"

definition override_findAll :: "'n override_model \<Rightarrow> (override_doc list, 'n) effect" where
  "override_findAll m = mg_find m Any_Override"

definition override_findById :: "'n override_model \<Rightarrow> string \<Rightarrow> (override_doc option, 'n) effect" where
  "override_findById m i = mg_findById m i"

definition override_findByModel :: "'n override_model \<Rightarrow> string \<Rightarrow> (override_doc list, 'n) effect" where
  "override_findByModel m modelName = mg_find m (Of_Model modelName)"

definition override_create :: "'n override_model \<Rightarrow> override_entity \<Rightarrow> (override_doc, 'n) effect" where
  "override_create m payload = mg_create m payload"

definition override_deleteById :: "'n override_model \<Rightarrow> string \<Rightarrow> (unit, 'n) effect" where
  "override_deleteById m i = mg_findByIdAndDelete m i"

definition override_mongoToModel :: "'j mongo_codec \<Rightarrow> override_doc \<Rightarrow> model_override" where
  "override_mongoToModel c doc =
     \<lparr>ov_id = od_id doc, ov_createdAt = od_createdAt doc, ov_updatedAt = od_updatedAt doc, ov_model = oe_modelName doc,
      ov_key = oe_key doc, ov_siid = oe_siid doc, ov_piid = oe_piid doc,
      ov_access = map (mc_mapEnum c ModelPropertyOverrideAccessMongoDTO PropertyAccess) (oe_access doc),
      ov_values = map map_value (oe_values doc)\<rparr>"

definition override_buildMongoCreate :: "'j mongo_codec \<Rightarrow> model_override \<Rightarrow> override_entity" where
  "override_buildMongoCreate c v =
     \<lparr>oe_modelName = ov_model v, oe_key = ov_key v, oe_siid = ov_siid v, oe_piid = ov_piid v,
      oe_access = map (mc_mapEnum c PropertyAccess ModelPropertyOverrideAccessMongoDTO) (ov_access v),
      oe_values = map map_value (ov_values v)\<rparr>"

record 'n override_storage =
  os_getAll :: "(model_override list, 'n host) effect"
  os_getByModel :: "string \<Rightarrow> (model_override list, 'n host) effect"
  os_create :: "model_override \<Rightarrow> (model_override, 'n host) effect"
  os_delete :: "string \<Rightarrow> (unit, 'n host) effect"

definition ModelPropertyOverrideMongoService :: "'j mongo_codec \<Rightarrow> 'n override_model \<Rightarrow> 'n override_storage" where
  "ModelPropertyOverrideMongoService c m =
     \<lparr>os_getAll = mapped (map (override_mongoToModel c)) (override_findAll m),
      os_getByModel = (\<lambda>model. mapped (map (override_mongoToModel c)) (override_findByModel m model)),
      os_create = (\<lambda>v. mapped (override_mongoToModel c) (override_create m (override_buildMongoCreate c v))),
      os_delete = (\<lambda>i. mapped (\<lambda>_. ()) (override_deleteById m i))\<rparr>"

definition ModelPropertyOverrideLocalStorageService :: "'n host_env \<Rightarrow> 'n override_storage" where
  "ModelPropertyOverrideLocalStorageService env =
     \<lparr>os_getAll = overrides_getAll env, os_getByModel = overrides_getByModel env, os_create = overrides_create env,
      os_delete = overrides_delete\<rparr>"

definition ModelPropertyOverrideService :: "bool \<Rightarrow> 'n override_storage \<Rightarrow> 'n override_storage \<Rightarrow> 'n override_storage" where
  "ModelPropertyOverrideService mongodbEnabled fileService mongoService =
     (if mongodbEnabled then mongoService else fileService)"

subsection \<open>What a storage promises\<close>

text \<open>
  The contract of a facade over an abstract collection of records, in no order: a call that reads leaves
  the records alone and, when it answers, answers from them; a call that writes and is answered has done
  exactly the change of the collection it stands for. \<open>cast\<close> reads the identifier a call names.
\<close>

definition reads_rows :: "('s \<Rightarrow> bool) \<Rightarrow> ('s \<Rightarrow> 'r multiset) \<Rightarrow> ('a, 's) effect \<Rightarrow> ('r multiset \<Rightarrow> 'a \<Rightarrow> bool) \<Rightarrow> bool" where
  "reads_rows ok rows m answers \<longleftrightarrow>
     (\<forall>s x s'. ok s \<longrightarrow> m s = (x, s') \<longrightarrow> ok s' \<and> rows s' = rows s \<and> (\<forall>a. x = Inr a \<longrightarrow> answers (rows s) a))"

definition writes_rows ::
  "('s \<Rightarrow> bool) \<Rightarrow> ('s \<Rightarrow> 'r multiset) \<Rightarrow> ('a, 's) effect \<Rightarrow> ('r multiset \<Rightarrow> 'a \<Rightarrow> 'r multiset \<Rightarrow> bool) \<Rightarrow> bool" where
  "writes_rows ok rows m change \<longleftrightarrow>
     (\<forall>s a s'. ok s \<longrightarrow> m s = (Inr a, s') \<longrightarrow> ok s' \<and> change (rows s) a (rows s'))"

text \<open>A record is added, under an identifier no other has and calls can name; those named are removed.\<close>

definition adds_row :: "(string \<Rightarrow> string option) \<Rightarrow> ('r \<Rightarrow> string) \<Rightarrow> ('r \<Rightarrow> bool) \<Rightarrow> 'r multiset \<Rightarrow> 'r \<Rightarrow> 'r multiset \<Rightarrow> bool" where
  "adds_row cast ident stored rs r rs' \<longleftrightarrow>
     rs' = add_mset r rs \<and> stored r \<and> ident r \<notin># image_mset ident rs \<and> cast (ident r) = Some (ident r)"

definition removes_rows :: "('r \<Rightarrow> bool) \<Rightarrow> 'r multiset \<Rightarrow> unit \<Rightarrow> 'r multiset \<Rightarrow> bool" where
  "removes_rows P rs u rs' \<longleftrightarrow> rs' = filter_mset (\<lambda>r. \<not> P r) rs"

definition stored_device :: "(enum \<Rightarrow> enum \<Rightarrow> string \<Rightarrow> string) \<Rightarrow> device_cache \<Rightarrow> device_cache \<Rightarrow> bool" where
  "stored_device mapEnum d r \<longleftrightarrow> dc_deviceId r = dc_deviceId d \<and> dc_address r = dc_address d \<and> dc_token r = dc_token d
     \<and> dc_stamp r = dc_stamp d \<and> dc_model r = dc_model d \<and> dc_specURL r = dc_specURL d
     \<and> dc_rawSpec r = mapDTOToModel mapEnum (mapModelToDTO mapEnum (dc_rawSpec d))"

definition keeps_devices ::
  "('n host \<Rightarrow> bool) \<Rightarrow> ('n host \<Rightarrow> device_cache multiset) \<Rightarrow> (string \<Rightarrow> string option) \<Rightarrow> (enum \<Rightarrow> enum \<Rightarrow> string \<Rightarrow> string)
     \<Rightarrow> 'n device_storage \<Rightarrow> bool" where
  "keeps_devices ok rows cast mapEnum st \<longleftrightarrow>
     reads_rows ok rows (ds_getAll st) (finds_all (\<lambda>_. True))
   \<and> (\<forall>i. reads_rows ok rows (ds_getById st i) (finds_one (\<lambda>r. cast i = Some (dc_id r))))
   \<and> (\<forall>i. reads_rows ok rows (ds_getByDeviceId st i) (finds_one (\<lambda>r. dc_deviceId r = i)))
   \<and> (\<forall>d. writes_rows ok rows (ds_create st d) (adds_row cast dc_id (stored_device mapEnum d)))
   \<and> (\<forall>i. writes_rows ok rows (ds_delete st i) (removes_rows (\<lambda>r. cast i = Some (dc_id r))))"

definition stored_notification :: "string \<Rightarrow> string \<Rightarrow> notification \<Rightarrow> bool" where
  "stored_notification d p r \<longleftrightarrow> no_deviceId r = d \<and> no_property r = p"

definition keeps_notifications ::
  "('n host \<Rightarrow> bool) \<Rightarrow> ('n host \<Rightarrow> notification multiset) \<Rightarrow> (string \<Rightarrow> string option) \<Rightarrow> 'n notification_storage \<Rightarrow> bool" where
  "keeps_notifications ok rows cast st \<longleftrightarrow>
     reads_rows ok rows (ns_getAll st) (finds_all (\<lambda>_. True))
   \<and> (\<forall>i. reads_rows ok rows (ns_getById st i) (finds_one (\<lambda>r. cast i = Some (no_id r))))
   \<and> (\<forall>d. reads_rows ok rows (ns_getAllByDeviceId st d) (finds_all (\<lambda>r. no_deviceId r = d)))
   \<and> (\<forall>d p. writes_rows ok rows (ns_create st (d, p)) (adds_row cast no_id (stored_notification d p)))
   \<and> (\<forall>i. writes_rows ok rows (ns_deleteById st i) (removes_rows (\<lambda>r. cast i = Some (no_id r))))
   \<and> (\<forall>d. writes_rows ok rows (ns_deleteAllByDeviceId st d) (removes_rows (\<lambda>r. no_deviceId r = d)))"

definition stored_override :: "(enum \<Rightarrow> enum \<Rightarrow> string \<Rightarrow> string) \<Rightarrow> model_override \<Rightarrow> model_override \<Rightarrow> bool" where
  "stored_override mapEnum v r \<longleftrightarrow> ov_model r = ov_model v \<and> ov_key r = ov_key v \<and> ov_siid r = ov_siid v \<and> ov_piid r = ov_piid v
     \<and> ov_values r = ov_values v
     \<and> ov_access r = map (\<lambda>x. mapEnum ModelPropertyOverrideAccessDTO PropertyAccess
         (mapEnum PropertyAccess ModelPropertyOverrideAccessDTO x)) (ov_access v)"

definition keeps_overrides ::
  "('n host \<Rightarrow> bool) \<Rightarrow> ('n host \<Rightarrow> model_override multiset) \<Rightarrow> (string \<Rightarrow> string option) \<Rightarrow> (enum \<Rightarrow> enum \<Rightarrow> string \<Rightarrow> string)
     \<Rightarrow> 'n override_storage \<Rightarrow> bool" where
  "keeps_overrides ok rows cast mapEnum st \<longleftrightarrow>
     reads_rows ok rows (os_getAll st) (finds_all (\<lambda>_. True))
   \<and> (\<forall>model. reads_rows ok rows (os_getByModel st model) (finds_all (\<lambda>r. ov_model r = model)))
   \<and> (\<forall>v. writes_rows ok rows (os_create st v) (adds_row cast ov_id (stored_override mapEnum v)))
   \<and> (\<forall>i. writes_rows ok rows (os_delete st i) (removes_rows (\<lambda>r. cast i = Some (ov_id r))))"

text \<open>Both backends, one call at a time.\<close>

lemma find_map_rows: "find P (map f xs) = map_option f (find (\<lambda>x. P (f x)) xs)"
  by (induction xs) auto

lemma filter_map_rows: "filter P (map f xs) = map f (filter (\<lambda>x. P (f x)) xs)"
  by (induction xs) auto

lemma mapped_Inr: "mapped f m w = (Inr b, w') \<longleftrightarrow> (\<exists>a n. m (h_net w) = (Inr a, n) \<and> w' = w\<lparr>h_net := n\<rparr> \<and> b = f a)"
  and mapped_Inl: "mapped f m w = (Inl e, w') \<longleftrightarrow> (\<exists>n. m (h_net w) = (Inl e, n) \<and> w' = w\<lparr>h_net := n\<rparr>)"
  by (auto simp: mapped_def requesting_def within_def and_then_def split: prod.splits sum.splits)

lemma mapped_reads:
  assumes "\<And>n x n'. m n = (x, n') \<Longrightarrow> docs n' = docs n \<and> (\<forall>a. x = Inr a \<longrightarrow> g (docs n) a)"
    and "\<And>ds a. g ds a \<Longrightarrow> h (image_mset t ds) (f a)"
  shows "reads_rows (\<lambda>_. True) (\<lambda>w. image_mset t (docs (h_net w))) (mapped f m) h"
proof -
  have "docs (h_net w') = docs (h_net w) \<and> (\<forall>b. x = Inr b \<longrightarrow> h (image_mset t (docs (h_net w))) b)"
    if "mapped f m w = (x, w')" for w x w'
  proof (cases x)
    case (Inl e)
    with that assms(1) show ?thesis by (auto simp: mapped_Inl)
  next
    case (Inr b)
    with that obtain a n where run: "m (h_net w) = (Inr a, n)" "w' = w\<lparr>h_net := n\<rparr>" "b = f a" by (auto simp: mapped_Inr)
    from assms(1) [OF run(1)] have "docs n = docs (h_net w)" "g (docs (h_net w)) a" by simp_all
    with run Inr show ?thesis by (simp add: assms(2))
  qed
  then show ?thesis by (auto simp: reads_rows_def)
qed

lemma mapped_writes:
  assumes "\<And>n a n'. m n = (Inr a, n') \<Longrightarrow> change (image_mset t (docs n)) (f a) (image_mset t (docs n'))"
  shows "writes_rows (\<lambda>_. True) (\<lambda>w. image_mset t (docs (h_net w))) (mapped f m) change"
  using assms by (auto simp: writes_rows_def mapped_Inr)

lemma reading_reads:
  assumes "\<And>fs. h (rows fs) (f fs)"
  shows "reads_rows (\<lambda>w. files_ok (h_files w)) (\<lambda>w. rows (h_files w)) (reading f) h"
  using assms by (simp add: reads_rows_def reading_def)

lemma on_files_writes:
  assumes "\<And>fs a fs'. files_ok fs \<Longrightarrow> f fs = (a, fs') \<Longrightarrow> files_ok fs' \<and> change (rows fs) a (rows fs')"
  shows "writes_rows (\<lambda>w. files_ok (h_files w)) (\<lambda>w. rows (h_files w)) (on_files f) change"
  using assms by (auto simp: writes_rows_def on_files_def split: prod.splits)

text \<open>Finding, adding and removing records, through the map that reads them off the documents or the lines.\<close>

lemma finds_all_map:
  assumes "finds_all P ds xs" and "\<And>d. Q (t d) = P d"
  shows "finds_all Q (image_mset t ds) (map t xs)"
  using assms by (simp add: finds_all_def filter_mset_image_mset)

lemma finds_one_map:
  assumes "finds_one P ds x" and "\<And>d. Q (t d) = P d"
  shows "finds_one Q (image_mset t ds) (map_option t x)"
  using assms by (auto simp: finds_one_def split: option.splits)

lemma finds_all_filter: "finds_all P (mset xs) (filter P xs)" "finds_all (\<lambda>_. True) (mset xs) xs"
  by (simp_all add: finds_all_def filter_mset_True)

lemma finds_one_find: "finds_one P (mset xs) (find P xs)"
  unfolding finds_one_def by (auto simp: find_None_iff find_Some_iff split: option.split)

lemma finds_all_file:
  assumes "\<And>d. Q (t d) = P d"
  shows "finds_all Q (mset (map t xs)) (map t (filter P xs))"
  using finds_all_map [OF finds_all_filter(1), of Q t P xs] assms by simp

lemma finds_one_file:
  assumes "\<And>d. Q (t d) = P d"
  shows "finds_one Q (mset (map t xs)) (map_option t (find P xs))"
  using finds_one_map [OF finds_one_find, of Q t P xs] assms by simp

lemma adds_row_map:
  assumes "ds' = add_mset d ds" and "ident d \<notin># image_mset ident ds" and "cast (ident d) = Some (ident d)"
    and "\<And>x. rident (t x) = ident x" and "stored (t d)"
  shows "adds_row cast rident stored (image_mset t ds) (t d) (image_mset t ds')"
  using assms by (simp add: adds_row_def image_mset.compositionality o_def)

lemma removes_rows_map:
  assumes "ds' = filter_mset (\<lambda>d. \<not> P d) ds" and "\<And>d. Q (t d) = P d"
  shows "removes_rows Q (image_mset t ds) u (image_mset t ds')"
  using assms by (simp add: removes_rows_def filter_mset_image_mset)

lemma adds_row_file:
  assumes "ident d \<notin> ident ` set ds" and "\<And>x. rident (t x) = ident x" and "stored (t d)"
  shows "adds_row Some rident stored (image_mset t (mset ds)) (t d) (add_mset (t d) (image_mset t (mset ds)))"
  using assms by (auto simp: adds_row_def image_iff)

lemma removes_rows_file:
  assumes "\<And>d. Q (t d) = P d"
  shows "removes_rows Q (image_mset t ds) u (image_mset t {#d \<in># ds. \<not> P d#})"
  using assms by (simp add: removes_rows_def filter_mset_image_mset)

text \<open>The documents as each mapper reads them.\<close>

definition device_matches :: "device_query \<Rightarrow> 'j device_doc \<Rightarrow> bool" where
  "device_matches q doc = (case q of Any_Device \<Rightarrow> True | Device_With_Id i \<Rightarrow> en_deviceId doc = i)"

definition notification_matches :: "notification_query \<Rightarrow> notification_doc \<Rightarrow> bool" where
  "notification_matches q doc = (case q of Any_Notification \<Rightarrow> True | Of_Device d \<Rightarrow> ne_deviceId doc = d)"

definition override_matches :: "override_query \<Rightarrow> override_doc \<Rightarrow> bool" where
  "override_matches q doc = (case q of Any_Override \<Rightarrow> True | Of_Model m \<Rightarrow> oe_modelName doc = m)"

lemma matches_all: "device_matches Any_Device d" "notification_matches Any_Notification n" "override_matches Any_Override v"
  by (simp_all add: device_matches_def notification_matches_def override_matches_def)

lemma matches_by:
  "device_matches (Device_With_Id i) = (\<lambda>doc. en_deviceId doc = i)"
  "notification_matches (Of_Device d) = (\<lambda>doc. ne_deviceId doc = d)"
  "override_matches (Of_Model model) = (\<lambda>doc. oe_modelName doc = model)"
  by (simp_all add: fun_eq_iff device_matches_def notification_matches_def override_matches_def)

lemma map_value_same: "map_value = (\<lambda>v. v)"
  by (simp add: fun_eq_iff map_value_def)

lemma mongo_keeps_devices:
  assumes law: "mongo_law m cast dd_id device_entity.truncate device_matches docs"
    and codec: "\<forall>spec. mc_deserialize c (mc_serialize c spec) = spec"
  shows "keeps_devices (\<lambda>_. True) (\<lambda>w. image_mset (device_mongoToModel c) (docs (h_net w))) cast (mc_mapEnum c) (DeviceMongoService c m)"
proof -
  let ?ok = "\<lambda>_ :: 'b host. True" and ?rows = "\<lambda>w :: 'b host. image_mset (device_mongoToModel c) (docs (h_net w))"
  have id: "dc_id (device_mongoToModel c d) = dd_id d" "dc_deviceId (device_mongoToModel c d) = en_deviceId d" for d
    by (simp_all add: device_mongoToModel_def)
  have "reads_rows ?ok ?rows (mapped (map (device_mongoToModel c)) (device_findAll m)) (finds_all (\<lambda>_. True))"
    unfolding device_findAll_def
    by (rule mapped_reads, erule mongo_law_reads(1) [OF law]) (rule finds_all_map, auto simp: matches_all)
  moreover have "reads_rows ?ok ?rows (mapped (map_option (device_mongoToModel c)) (device_findById m i))
      (finds_one (\<lambda>r. cast i = Some (dc_id r)))" for i
    unfolding device_findById_def
    by (rule mapped_reads, erule mongo_law_reads(3) [OF law]) (rule finds_one_map, auto simp: id)
  moreover have "reads_rows ?ok ?rows (mapped (map_option (device_mongoToModel c)) (device_findByDeviceId m i))
      (finds_one (\<lambda>r. dc_deviceId r = i))" for i
    unfolding device_findByDeviceId_def
    by (rule mapped_reads, erule mongo_law_reads(2) [OF law]) (rule finds_one_map, auto simp: id matches_by)
  moreover have "writes_rows ?ok ?rows (mapped (device_mongoToModel c) (device_create m (device_buildMongoCreate c d)))
      (adds_row cast dc_id (stored_device (mc_mapEnum c) d))" for d
    unfolding device_create_def
    by (rule mapped_writes, drule mongo_law_writes(1) [OF law], elim conjE, rule adds_row_map, assumption+)
      (auto simp: id stored_device_def device_mongoToModel_def device_buildMongoCreate_def device_entity.defs codec)
  moreover have "writes_rows ?ok ?rows (mapped (\<lambda>_. ()) (device_deleteById m i)) (removes_rows (\<lambda>r. cast i = Some (dc_id r)))" for i
    unfolding device_deleteById_def
    by (rule mapped_writes) (rule removes_rows_map, use mongo_law_writes(2) [OF law] in \<open>auto simp: id\<close>)
  ultimately show ?thesis by (simp add: keeps_devices_def DeviceMongoService_def)
qed

lemma mongo_keeps_notifications:
  assumes law: "mongo_law m cast nd_id notification_entity.truncate notification_matches docs"
  shows "keeps_notifications (\<lambda>_. True) (\<lambda>w. image_mset notification_mongoToModel (docs (h_net w))) cast (DeviceNotificationMongoService m)"
proof -
  let ?ok = "\<lambda>_ :: 'a host. True" and ?rows = "\<lambda>w. image_mset notification_mongoToModel (docs (h_net w))"
  have id: "no_id (notification_mongoToModel d) = nd_id d" "no_deviceId (notification_mongoToModel d) = ne_deviceId d" for d
    by (simp_all add: notification_mongoToModel_def)
  have "reads_rows ?ok ?rows (mapped (map notification_mongoToModel) (notification_findAll m)) (finds_all (\<lambda>_. True))"
    unfolding notification_findAll_def
    by (rule mapped_reads, erule mongo_law_reads(1) [OF law]) (rule finds_all_map, auto simp: matches_all)
  moreover have "reads_rows ?ok ?rows (mapped (map_option notification_mongoToModel) (notification_findById m i))
      (finds_one (\<lambda>r. cast i = Some (no_id r)))" for i
    unfolding notification_findById_def
    by (rule mapped_reads, erule mongo_law_reads(3) [OF law]) (rule finds_one_map, auto simp: id)
  moreover have "reads_rows ?ok ?rows (mapped (map notification_mongoToModel) (notification_findAllByDeviceId m d))
      (finds_all (\<lambda>r. no_deviceId r = d))" for d
    unfolding notification_findAllByDeviceId_def
    by (rule mapped_reads, erule mongo_law_reads(1) [OF law]) (rule finds_all_map, auto simp: id matches_by)
  moreover have "writes_rows ?ok ?rows (mapped notification_mongoToModel (notification_create m (notification_buildMongoCreate (d, p))))
      (adds_row cast no_id (stored_notification d p))" for d p
    unfolding notification_create_def
    by (rule mapped_writes, drule mongo_law_writes(1) [OF law], elim conjE, rule adds_row_map, assumption+)
      (auto simp: id stored_notification_def notification_mongoToModel_def notification_buildMongoCreate_def notification_entity.defs)
  moreover have "writes_rows ?ok ?rows (mapped (\<lambda>_. ()) (notification_deleteById m i)) (removes_rows (\<lambda>r. cast i = Some (no_id r)))" for i
    unfolding notification_deleteById_def
    by (rule mapped_writes) (rule removes_rows_map, use mongo_law_writes(2) [OF law] in \<open>auto simp: id\<close>)
  moreover have "writes_rows ?ok ?rows (mapped (\<lambda>_. ()) (notification_deleteAllByDeviceId m d)) (removes_rows (\<lambda>r. no_deviceId r = d))" for d
    unfolding notification_deleteAllByDeviceId_def
    by (rule mapped_writes) (rule removes_rows_map, use mongo_law_writes(3) [OF law] in \<open>auto simp: id matches_by\<close>)
  ultimately show ?thesis by (simp add: keeps_notifications_def DeviceNotificationMongoService_def)
qed

lemma mongo_keeps_overrides:
  assumes law: "mongo_law m cast od_id override_entity.truncate override_matches docs"
  shows "keeps_overrides (\<lambda>_. True) (\<lambda>w. image_mset (override_mongoToModel c) (docs (h_net w))) cast (mc_mapEnum c)
    (ModelPropertyOverrideMongoService c m)"
proof -
  let ?ok = "\<lambda>_ :: 'a host. True" and ?rows = "\<lambda>w. image_mset (override_mongoToModel c) (docs (h_net w))"
  have same: "ModelPropertyOverrideAccessMongoDTO = ModelPropertyOverrideAccessDTO"
    by (simp add: ModelPropertyOverrideAccessMongoDTO_def ModelPropertyOverrideAccessDTO_def)
  have id: "ov_id (override_mongoToModel c d) = od_id d" "ov_model (override_mongoToModel c d) = oe_modelName d" for d
    by (simp_all add: override_mongoToModel_def)
  have "reads_rows ?ok ?rows (mapped (map (override_mongoToModel c)) (override_findAll m)) (finds_all (\<lambda>_. True))"
    unfolding override_findAll_def
    by (rule mapped_reads, erule mongo_law_reads(1) [OF law]) (rule finds_all_map, auto simp: matches_all)
  moreover have "reads_rows ?ok ?rows (mapped (map (override_mongoToModel c)) (override_findByModel m model))
      (finds_all (\<lambda>r. ov_model r = model))" for model
    unfolding override_findByModel_def
    by (rule mapped_reads, erule mongo_law_reads(1) [OF law]) (rule finds_all_map, auto simp: id matches_by)
  moreover have "writes_rows ?ok ?rows (mapped (override_mongoToModel c) (override_create m (override_buildMongoCreate c v)))
      (adds_row cast ov_id (stored_override (mc_mapEnum c) v))" for v
    unfolding override_create_def
    by (rule mapped_writes, drule mongo_law_writes(1) [OF law], elim conjE, rule adds_row_map, assumption+)
      (auto simp: id stored_override_def override_mongoToModel_def override_buildMongoCreate_def override_entity.defs same
        map_value_same o_def)
  moreover have "writes_rows ?ok ?rows (mapped (\<lambda>_. ()) (override_deleteById m i)) (removes_rows (\<lambda>r. cast i = Some (ov_id r)))" for i
    unfolding override_deleteById_def
    by (rule mapped_writes) (rule removes_rows_map, use mongo_law_writes(2) [OF law] in \<open>auto simp: id\<close>)
  ultimately show ?thesis by (simp add: keeps_overrides_def ModelPropertyOverrideMongoService_def)
qed

text \<open>The files.\<close>

lemma file_keeps_devices:
  "keeps_devices (\<lambda>w. files_ok (h_files w)) (\<lambda>w. mset (map (device_of_dto (he_mapEnum env)) (dev_read (h_files w)))) Some
    (he_mapEnum env) (DeviceLocalStorageService env)"
proof -
  let ?ok = "\<lambda>w :: 'a host. files_ok (h_files w)" and ?to = "device_of_dto (he_mapEnum env)"
  let ?rows = "\<lambda>w :: 'a host. mset (map ?to (dev_read (h_files w)))"
  have id: "dc_id (?to d) = dc_id d" "dc_deviceId (?to d) = dc_deviceId d" for d by (simp_all add: device_of_dto_def)
  have "reads_rows ?ok ?rows (storage_getAll env) (finds_all (\<lambda>_. True))"
    unfolding storage_getAll_def
    by (rule reading_reads [where rows = "\<lambda>fs. mset (map ?to (dev_read fs))"]) (rule finds_all_filter(2))
  moreover have "reads_rows ?ok ?rows (storage_getById env i) (finds_one (\<lambda>r. Some i = Some (dc_id r)))" for i
    unfolding storage_getById_def
    by (rule reading_reads [where rows = "\<lambda>fs. mset (map ?to (dev_read fs))"])
      (unfold dev_getById_def, rule finds_one_file, auto simp: id)
  moreover have "reads_rows ?ok ?rows (storage_getByDeviceId env i) (finds_one (\<lambda>r. dc_deviceId r = i))" for i
    unfolding storage_getByDeviceId_def
    by (rule reading_reads [where rows = "\<lambda>fs. mset (map ?to (dev_read fs))"])
      (unfold dev_getByDeviceId_def, rule finds_one_file, simp add: id)
  moreover have "writes_rows ?ok ?rows (storage_create env d) (adds_row Some dc_id (stored_device (he_mapEnum env) d))" for d
    unfolding storage_create_def
  proof (rule on_files_writes [where rows = "\<lambda>fs. mset (map ?to (dev_read fs))"])
    fix fs a fs'
    assume ok: "files_ok fs" and run: "(case dev_create (dto_of_device (he_mapEnum env) d) fs of (dto, fs') \<Rightarrow> (?to dto, fs')) = (a, fs')"
    then obtain dto where dto: "dev_create (dto_of_device (he_mapEnum env) d) fs = (dto, fs')" "a = ?to dto"
      by (auto split: prod.splits)
    have "stored_device (he_mapEnum env) d a"
      using dto by (auto simp: dev_create_def dev_create_from_def randomUUID_def Let_def stored_device_def device_of_dto_def dto_of_device_def)
    with devices.created [OF ok dto(1)] dto(2)
    show "files_ok fs' \<and> adds_row Some dc_id (stored_device (he_mapEnum env) d) (mset (map ?to (dev_read fs))) a
        (mset (map ?to (dev_read fs')))"
      by (auto intro!: adds_row_file [where ident = dc_id] simp: id)
  qed
  moreover have "writes_rows ?ok ?rows (storage_delete i) (removes_rows (\<lambda>r. Some i = Some (dc_id r)))" for i
    unfolding storage_delete_def
    by (rule on_files_writes [where rows = "\<lambda>fs. mset (map ?to (dev_read fs))"])
      (use devices.removed in \<open>auto intro!: removes_rows_file simp: id eq_commute\<close>)
  ultimately show ?thesis by (simp add: keeps_devices_def DeviceLocalStorageService_def)
qed

lemma file_keeps_notifications:
  "keeps_notifications (\<lambda>w. files_ok (h_files w)) (\<lambda>w. mset (not_read (h_files w))) Some NotificationLocalStorageService"
proof -
  let ?ok = "\<lambda>w :: 'a host. files_ok (h_files w)" and ?rows = "\<lambda>w :: 'a host. mset (not_read (h_files w))"
  have "reads_rows ?ok ?rows (reading not_read) (finds_all (\<lambda>_. True))"
    by (rule reading_reads [where rows = "\<lambda>fs. mset (not_read fs)"]) (rule finds_all_filter(2))
  moreover have "reads_rows ?ok ?rows (reading (not_getById i)) (finds_one (\<lambda>r. Some i = Some (no_id r)))" for i
    by (rule reading_reads [where rows = "\<lambda>fs. mset (not_read fs)"])
      (use finds_one_find in \<open>auto simp: not_getById_def eq_commute\<close>)
  moreover have "reads_rows ?ok ?rows (reading (not_getAllByDeviceId d)) (finds_all (\<lambda>r. no_deviceId r = d))" for d
    by (rule reading_reads [where rows = "\<lambda>fs. mset (not_read fs)"]) (simp add: not_getAllByDeviceId_def finds_all_filter)
  moreover have "writes_rows ?ok ?rows (on_files (not_create d p)) (adds_row Some no_id (stored_notification d p))" for d p
  proof (rule on_files_writes [where rows = "\<lambda>fs. mset (not_read fs)"])
    fix fs a fs' assume ok: "files_ok fs" and run: "not_create d p fs = (a, fs')"
    have "stored_notification d p a" using run by (auto simp: not_create_def randomUUID_def Let_def stored_notification_def)
    with notifications.created [OF ok, of "(d, p)" a fs'] run
    show "files_ok fs' \<and> adds_row Some no_id (stored_notification d p) (mset (not_read fs)) a (mset (not_read fs'))"
      by (auto simp: adds_row_def)
  qed
  moreover have "writes_rows ?ok ?rows (on_files (\<lambda>fs. ((), not_deleteById i fs))) (removes_rows (\<lambda>r. Some i = Some (no_id r)))" for i
    by (rule on_files_writes [where rows = "\<lambda>fs. mset (not_read fs)"]) (use notifications.removed in \<open>auto simp: removes_rows_def eq_commute\<close>)
  moreover have "writes_rows ?ok ?rows (on_files (\<lambda>fs. ((), not_deleteAllByDeviceId d fs))) (removes_rows (\<lambda>r. no_deviceId r = d))" for d
    by (rule on_files_writes [where rows = "\<lambda>fs. mset (not_read fs)"])
      (auto simp: not_deleteAllByDeviceId_def files_ok_def distinct_map_filter image_subset_iff removes_rows_def)
  ultimately show ?thesis by (simp add: keeps_notifications_def NotificationLocalStorageService_def)
qed

lemma file_keeps_overrides:
  "keeps_overrides (\<lambda>w. files_ok (h_files w)) (\<lambda>w. mset (map (override_of_dto (he_mapEnum env)) (ovr_read (h_files w)))) Some
    (he_mapEnum env) (ModelPropertyOverrideLocalStorageService env)"
proof -
  let ?ok = "\<lambda>w :: 'a host. files_ok (h_files w)" and ?to = "override_of_dto (he_mapEnum env)"
  let ?rows = "\<lambda>w :: 'a host. mset (map ?to (ovr_read (h_files w)))"
  have id: "ov_id (?to v) = ov_id v" "ov_model (?to v) = ov_model v" for v by (simp_all add: override_of_dto_def)
  have "reads_rows ?ok ?rows (overrides_getAll env) (finds_all (\<lambda>_. True))"
    unfolding overrides_getAll_def
    by (rule reading_reads [where rows = "\<lambda>fs. mset (map ?to (ovr_read fs))"]) (rule finds_all_filter(2))
  moreover have "reads_rows ?ok ?rows (overrides_getByModel env model) (finds_all (\<lambda>r. ov_model r = model))" for model
    unfolding overrides_getByModel_def
    by (rule reading_reads [where rows = "\<lambda>fs. mset (map ?to (ovr_read fs))"])
      (unfold ovr_getByModel_def, rule finds_all_file, simp add: id)
  moreover have "writes_rows ?ok ?rows (overrides_create env v) (adds_row Some ov_id (stored_override (he_mapEnum env) v))" for v
    unfolding overrides_create_def
  proof (rule on_files_writes [where rows = "\<lambda>fs. mset (map ?to (ovr_read fs))"])
    fix fs a fs'
    assume ok: "files_ok fs" and run: "(case ovr_create (dto_of_override (he_mapEnum env) v) fs of (dto, fs') \<Rightarrow> (?to dto, fs')) = (a, fs')"
    then obtain dto where dto: "ovr_create (dto_of_override (he_mapEnum env) v) fs = (dto, fs')" "a = ?to dto"
      by (auto split: prod.splits)
    have "stored_override (he_mapEnum env) v a"
      using dto by (auto simp: ovr_create_def randomUUID_def Let_def stored_override_def override_of_dto_def dto_of_override_def
          map_value_same o_def)
    with overrides.created [OF ok dto(1)] dto(2)
    show "files_ok fs' \<and> adds_row Some ov_id (stored_override (he_mapEnum env) v) (mset (map ?to (ovr_read fs))) a
        (mset (map ?to (ovr_read fs')))"
      by (auto intro!: adds_row_file [where ident = ov_id] simp: id)
  qed
  moreover have "writes_rows ?ok ?rows (overrides_delete i) (removes_rows (\<lambda>r. Some i = Some (ov_id r)))" for i
    unfolding overrides_delete_def
    by (rule on_files_writes [where rows = "\<lambda>fs. mset (map ?to (ovr_read fs))"])
      (use overrides.removed in \<open>auto intro!: removes_rows_file simp: id eq_commute\<close>)
  ultimately show ?thesis by (simp add: keeps_overrides_def ModelPropertyOverrideLocalStorageService_def)
qed

text \<open>The files need their invariant, the database does not.\<close>

definition facade_ok :: "bool \<Rightarrow> 'n host \<Rightarrow> bool" where
  "facade_ok mongodb w \<longleftrightarrow> mongodb \<or> files_ok (h_files w)"

lemma facade_ok_eq: "facade_ok True = (\<lambda>_. True)" "facade_ok False = (\<lambda>w. files_ok (h_files w))"
  by (simp_all add: fun_eq_iff facade_ok_def)


text \<open>
  An update tells the backends apart. Of a device that is not stored, MongoDB answers with the error
  of reading a property of \<^verbatim>\<open>null\<close>; the files answer as if it had been stored, and it is not.
\<close>

theorem unknown_update_by_backend:
  assumes "mongo_law dm cast dd_id device_entity.truncate device_matches devs"
    and "if mongodb then \<forall>doc \<in># devs (h_net w). cast (dc_id d) \<noteq> Some (dd_id doc)
         else dc_id d \<notin> dc_id ` set (dev_read (h_files w))"
    and "ds_update (DeviceStorageService mongodb (DeviceLocalStorageService env) (DeviceMongoService c dm)) d w = (x, w')"
  shows "if mongodb then isl x else \<not> isl x \<and> dev_read (h_files w') = dev_read (h_files w)"
proof (cases mongodb)
  case True
  then have "mg_findByIdAndUpdate dm (dc_id d) (device_buildMongoUpdate c d) (h_net w) \<noteq> (Inr (Some doc), n)" for doc n
    using mongo_law_writes(4) [OF assms(1), of "dc_id d" "device_buildMongoUpdate c d" "h_net w" doc n] assms(2) by auto
  with assms(3) True show ?thesis
    by (auto simp: DeviceStorageService_def DeviceMongoService_def requesting_def within_def and_then_def device_updateById_def
        split: prod.splits sum.splits option.splits)
next
  case False
  have "dev_getById (dc_id (dto_of_device (he_mapEnum env) d)) (h_files w) = None"
    using assms(2) False by (auto simp: dev_getById_def find_None_iff device_of_dto_def dto_of_device_def image_iff)
  from update_of_unknown_is_silent [OF this] assms(3) False show ?thesis
    by (auto simp: DeviceStorageService_def DeviceLocalStorageService_def storage_update_def on_files_def)
qed

subsection \<open>A collection in memory\<close>

primrec replace_first :: "('d \<Rightarrow> bool) \<Rightarrow> 'd \<Rightarrow> 'd list \<Rightarrow> 'd list" where
  "replace_first P d [] = []"
| "replace_first P d (x # xs) = (if P x then d # xs else x # replace_first P d xs)"

definition memory_model ::
  "('n \<Rightarrow> 'd list) \<Rightarrow> ('d list \<Rightarrow> 'n \<Rightarrow> 'n) \<Rightarrow> (string \<Rightarrow> 'e \<Rightarrow> 'd) \<Rightarrow> ('d \<Rightarrow> string) \<Rightarrow> ('q \<Rightarrow> 'd \<Rightarrow> bool)
     \<Rightarrow> ('q, 'e, 'd, 'n) mongoose_model" where
  "memory_model docs put build ident matches =
     \<lparr>mg_find = (\<lambda>q n. (Inr (filter (matches q) (docs n)), n)),
      mg_findOne = (\<lambda>q n. (Inr (find (matches q) (docs n)), n)),
      mg_findById = (\<lambda>i n. (Inr (find (\<lambda>d. ident d = i) (docs n)), n)),
      mg_create = (\<lambda>e n. (let d = build (concat (map ident (docs n)) @ ''x'') e in (Inr d, put (docs n @ [d]) n))),
      mg_findByIdAndUpdate = (\<lambda>i e n. if i \<in> ident ` set (docs n)
         then (Inr (Some (build i e)), put (replace_first (\<lambda>x. ident x = i) (build i e) (docs n)) n) else (Inr None, n)),
      mg_findByIdAndDelete = (\<lambda>i n. (Inr (), put (filter (\<lambda>d. ident d \<noteq> i) (docs n)) n)),
      mg_deleteMany = (\<lambda>q n. (Inr (), put (filter (\<lambda>d. \<not> matches q d) (docs n)) n))\<rparr>"

lemma concat_ids_longer: "d \<in> set ds \<Longrightarrow> ident d \<noteq> concat (map ident ds) @ ''x''"
proof -
  assume "d \<in> set ds"
  then have "length (ident d) \<le> length (concat (map ident ds))" by (induction ds) auto
  then show ?thesis by auto
qed

lemma replaced_row:
  "i \<in> ident ` set ds \<Longrightarrow>
    \<exists>d0 \<in> set ds. ident d0 = i \<and> mset (replace_first (\<lambda>x. ident x = i) d ds) = add_mset d (mset ds - {#d0#})"
proof (induction ds)
  case (Cons x ds)
  show ?case
  proof (cases "ident x = i")
    case False
    with Cons obtain d0 where "d0 \<in> set ds" "ident d0 = i"
      "mset (replace_first (\<lambda>x. ident x = i) d ds) = add_mset d (mset ds - {#d0#})" by auto
    with False show ?thesis by (intro bexI [of _ d0]) auto
  qed simp
qed simp

lemma memory_law:
  assumes docs: "\<And>ds n. docs (put ds n) = ds" and build: "\<And>i e. ident (build i e) = i" "\<And>i e. body (build i e) = e"
  shows "mongo_law (memory_model docs put build ident matches) Some ident body matches (\<lambda>n. mset (docs n))"
proof -
  have fresh: "concat (map ident ds) @ ''x'' \<notin> ident ` set ds" for ds using concat_ids_longer [of _ ds ident] by force
  have one: "finds_one (\<lambda>d. i = ident d) (mset (docs n)) (find (\<lambda>d. ident d = i) (docs n))" for i n
    using finds_one_find [of "\<lambda>d. ident d = i" "docs n"] by (simp add: eq_commute)
  show ?thesis
    unfolding mongo_law_def memory_model_def mongoose_model.simps
    by (intro conjI) (auto simp: Let_def docs build fresh one finds_all_filter finds_one_find eq_commute
        dest!: replaced_row split: if_splits)
qed

type_synonym memory = "spec_v2 device_doc list \<times> notification_doc list \<times> override_doc list"

definition memory_devices :: "(spec_v2, memory) device_model" where
  "memory_devices = memory_model fst (\<lambda>ds (_, r). (ds, r))
     (\<lambda>i e. device_entity.extend e \<lparr>dd_id = i, dd_createdAt = 0, dd_updatedAt = 0\<rparr>) dd_id device_matches"

definition memory_notifications :: "memory notification_model" where
  "memory_notifications = memory_model (fst \<circ> snd) (\<lambda>ns (a, _, c). (a, ns, c))
     (\<lambda>i e. notification_entity.extend e \<lparr>nd_id = i, nd_createdAt = 0, nd_updatedAt = 0\<rparr>) nd_id notification_matches"

definition memory_overrides :: "memory override_model" where
  "memory_overrides = memory_model (snd \<circ> snd) (\<lambda>vs (a, b, _). (a, b, vs))
     (\<lambda>i e. override_entity.extend e \<lparr>od_id = i, od_createdAt = 0, od_updatedAt = 0\<rparr>) od_id override_matches"

lemma memory_laws:
  "mongo_law memory_devices Some dd_id device_entity.truncate device_matches (\<lambda>n. mset (fst n))"
  "mongo_law memory_notifications Some nd_id notification_entity.truncate notification_matches (\<lambda>n. mset ((fst \<circ> snd) n))"
  "mongo_law memory_overrides Some od_id override_entity.truncate override_matches (\<lambda>n. mset ((snd \<circ> snd) n))"
  unfolding memory_devices_def memory_notifications_def memory_overrides_def
  by (rule memory_law; simp add: device_entity.defs notification_entity.defs override_entity.defs
      device_doc.defs notification_doc.defs override_doc.defs split: prod.split)+

definition memory_codec :: "spec_v2 mongo_codec" where
  "memory_codec = \<lparr>mc_mapEnum = sample_mapEnum, mc_serialize = (\<lambda>s. s), mc_deserialize = (\<lambda>s. s),
     mc_nullRead = JsError ''TypeError'' []\<rparr>"

definition memory_host_env :: "memory host_env" where
  "memory_host_env = \<lparr>he_runtime = sample_runtime, he_network = \<lparr>net_exchange = (\<lambda>_ _ _ u. ([], u)), net_now = (\<lambda>_. 0)\<rparr>,
     he_mapEnum = sample_mapEnum, he_property_order = (\<lambda>_. [0, 1]), he_action_order = (\<lambda>_. [0]),
     he_instances = returning [], he_instance = (\<lambda>_. throwing (PlainError ''offline'')), he_baseURL = None\<rparr>"


lemma unknown_update_by_backend_witness:
  "isl (fst (ds_update (DeviceStorageService True (DeviceLocalStorageService memory_host_env) (DeviceMongoService memory_codec memory_devices))
      sample_cache \<lparr>h_files = sample_files, h_net = ([], [], [])\<rparr>))"
  using unknown_update_by_backend [OF memory_laws(1), where d = sample_cache and mongodb = True and c = memory_codec and w = "\<lparr>h_files = sample_files, h_net = ([], [], [])\<rparr>"
      and env = memory_host_env]
  by (simp add: prod_eq_iff)

end
