(* ===== verification/Otel_Sdk.thy ===== *)
theory Otel_Sdk
  imports Effect Schema
begin

text \<open>
  The telemetry SDK of a process (\<^verbatim>\<open>packages/otel/src/OpenTelemetryService.ts\<close>), its configuration
  (\<^verbatim>\<open>OtelConfig.ts\<close>) and the request paths it leaves out (\<^verbatim>\<open>ignoredPaths.ts\<close>). What an SDK does when it
  starts and when it is shut down is the library's: the outcome of \<open>start()\<close> is a parameter, and the
  settling of \<open>shutdown()\<close> is an event, as is the end of the time allowed for it. So is
  \<^verbatim>\<open>ObjectUtils.isEnabled\<close>, a type guard of a utility package.
\<close>

subsection \<open>Request paths that are not traced\<close>

definition IGNORED_TRACE_PATHS :: "string list" where
  "IGNORED_TRACE_PATHS = [''/health'', ''/healthz'']"

definition isIgnoredTracePath :: "string option \<Rightarrow> bool" where
  "isIgnoredTracePath url = (case url of
       None \<Rightarrow> False
     | Some u \<Rightarrow>
         if u = [] then False
         else
           (let path = takeWhile (\<lambda>c. c \<noteq> CHR ''#'') (takeWhile (\<lambda>c. c \<noteq> CHR ''?'') u)
            in list_ex (\<lambda>entry. path = entry \<or> starts_with (entry @ ''/'') path) IGNORED_TRACE_PATHS))"

subsection \<open>The configuration\<close>

text \<open>The block of one signal; traces, metrics and logs have the same two alternatives.\<close>

record otel_signal =
  sg_enabled :: "bool option"
  sg_exporter :: "string option"

record otel_config =
  oc_debug :: "bool option"
  oc_traces :: "otel_signal option"
  oc_metrics :: "otel_signal option"
  oc_logs :: "otel_signal option"

definition z_literal_bool :: "bool \<Rightarrow> bool parser" where
  "z_literal_bool b v = (if v = Some (JBool b) then Some b else None)"

definition OtelExporterSchema :: "string parser" where
  "OtelExporterSchema = z_object (\<lambda>field. z_string (field ''url''))"

definition signal_enabled_schema :: "otel_signal parser" where
  "signal_enabled_schema = z_object (\<lambda>field. do {
     enabled \<leftarrow> z_literal_bool True (field ''enabled'');
     exporter \<leftarrow> OtelExporterSchema (field ''exporter'');
     Some \<lparr>sg_enabled = Some enabled, sg_exporter = Some exporter\<rparr> })"

definition signal_disabled_schema :: "otel_signal parser" where
  "signal_disabled_schema = z_object (\<lambda>field. do {
     enabled \<leftarrow> z_optional (z_literal_bool False) (field ''enabled'');
     exporter \<leftarrow> z_optional OtelExporterSchema (field ''exporter'');
     Some \<lparr>sg_enabled = enabled, sg_exporter = exporter\<rparr> })"

definition OtelTracesConfigSchema :: "otel_signal parser" where
  "OtelTracesConfigSchema = z_union signal_enabled_schema signal_disabled_schema"

definition OtelMetricsConfigSchema :: "otel_signal parser" where
  "OtelMetricsConfigSchema = z_union signal_enabled_schema signal_disabled_schema"

definition OtelLogsConfigSchema :: "otel_signal parser" where
  "OtelLogsConfigSchema = z_union signal_enabled_schema signal_disabled_schema"

definition OtelConfigSchema :: "otel_config parser" where
  "OtelConfigSchema = z_object (\<lambda>field. do {
     debug \<leftarrow> z_optional z_bool (field ''debug'');
     traces \<leftarrow> z_optional OtelTracesConfigSchema (field ''traces'');
     metrics \<leftarrow> z_optional OtelMetricsConfigSchema (field ''metrics'');
     logs \<leftarrow> z_optional OtelLogsConfigSchema (field ''logs'');
     Some \<lparr>oc_debug = debug, oc_traces = traces, oc_metrics = metrics, oc_logs = logs\<rparr> })"

subsection \<open>The service\<close>

text \<open>What the SDK is built from; the exporters send to their URL with no headers.\<close>

record node_sdk =
  ns_service :: string
  ns_version :: string
  ns_traceExporter :: "string option"
  ns_metricReaders :: "string list option"
  ns_logRecordProcessors :: "string list"
  ns_httpEnabled :: bool
  ns_ignoreIncoming :: "string option \<Rightarrow> bool"
  ns_expressEnabled :: bool
  ns_winstonEnabled :: bool
  ns_disableLogSending :: bool
  ns_extra :: "string list"

record otel_options =
  oo_otel :: "otel_config option"
  oo_service :: string
  oo_version :: string
  oo_extra :: "string list option"

record otel_env =
  ox_isEnabled :: "otel_signal option \<Rightarrow> bool"
  ox_start :: "node_sdk \<Rightarrow> thrown option"

text \<open>
  A call of \<open>shutdown\<close> has returned, or awaits the race between the settling of an SDK's own shutdown
  and its timer. \<open>ot_started\<close> lists the SDKs that were started; the others name them by their place.
\<close>

datatype flush_call = Flush_Returned | Flush_Racing nat int

record otel_service =
  ot_sdk :: "nat option"
  ot_started :: "node_sdk list"
  ot_shutdowns :: "nat list"
  ot_calls :: "flush_call list"
  ot_debug :: bool
  ot_hooks :: nat

definition OpenTelemetryService :: otel_service where
  "OpenTelemetryService = \<lparr>ot_sdk = None, ot_started = [], ot_shutdowns = [], ot_calls = [],
     ot_debug = False, ot_hooks = 0\<rparr>"

definition DEFAULT_OTEL_SHUTDOWN_MS :: int where "DEFAULT_OTEL_SHUTDOWN_MS = 3000"

definition otel_isEnabled :: "otel_env \<Rightarrow> otel_config option \<Rightarrow> bool" where
  "otel_isEnabled env config = (case config of
       None \<Rightarrow> False
     | Some c \<Rightarrow> ox_isEnabled env (oc_traces c) \<or> ox_isEnabled env (oc_metrics c) \<or> ox_isEnabled env (oc_logs c))"

text \<open>\<open>config.exporter.url\<close>\<close>

definition exporter_url :: "otel_signal option \<Rightarrow> thrown + string" where
  "exporter_url config = (case Option.bind config sg_exporter of
       Some url \<Rightarrow> Inr url
     | None \<Rightarrow> Inl (JsError ''TypeError'' ''Cannot read properties of undefined''))"

definition getTraceExporter :: "otel_env \<Rightarrow> otel_signal option \<Rightarrow> thrown + string option" where
  "getTraceExporter env config =
     (if \<not> ox_isEnabled env config then Inr None else map_sum id Some (exporter_url config))"

definition getMetricReaders :: "otel_env \<Rightarrow> otel_signal option \<Rightarrow> thrown + string list option" where
  "getMetricReaders env config =
     (if \<not> ox_isEnabled env config then Inr None else map_sum id (\<lambda>url. Some [url]) (exporter_url config))"

definition getLoggerProcessors :: "otel_env \<Rightarrow> otel_signal option \<Rightarrow> thrown + string list" where
  "getLoggerProcessors env config =
     (if \<not> ox_isEnabled env config then Inr [] else map_sum id (\<lambda>url. [url]) (exporter_url config))"

definition initDebug :: "otel_config \<Rightarrow> otel_service \<Rightarrow> otel_service" where
  "initDebug config s = (if oc_debug config = Some True then s\<lparr>ot_debug := True\<rparr> else s)"

definition registerInstrumentationHook :: "otel_service \<Rightarrow> otel_service" where
  "registerInstrumentationHook s = s\<lparr>ot_hooks := Suc (ot_hooks s)\<rparr>"

definition new_node_sdk :: "otel_env \<Rightarrow> otel_config \<Rightarrow> string \<Rightarrow> string \<Rightarrow> string list \<Rightarrow> (node_sdk, 's) effect" where
  "new_node_sdk env config serviceName serviceVersion extra =
     (let tracesEnabled = ox_isEnabled env (oc_traces config); logsEnabled = ox_isEnabled env (oc_logs config) in
      and_then (lifted (getTraceExporter env (oc_traces config))) (\<lambda>exporter.
      and_then (lifted (getMetricReaders env (oc_metrics config))) (\<lambda>readers.
      and_then (lifted (getLoggerProcessors env (oc_logs config))) (\<lambda>processors.
      returning
        \<lparr>ns_service = serviceName, ns_version = serviceVersion, ns_traceExporter = exporter,
         ns_metricReaders = readers, ns_logRecordProcessors = processors, ns_httpEnabled = tracesEnabled,
         ns_ignoreIncoming = isIgnoredTracePath, ns_expressEnabled = tracesEnabled,
         ns_winstonEnabled = tracesEnabled, ns_disableLogSending = (\<not> logsEnabled), ns_extra = extra\<rparr>))))"

definition initSDK :: "otel_env \<Rightarrow> otel_config \<Rightarrow> string \<Rightarrow> string \<Rightarrow> string list \<Rightarrow> (unit, otel_service) effect" where
  "initSDK env config serviceName serviceVersion extra =
     and_then (new_node_sdk env config serviceName serviceVersion extra) (\<lambda>sdk.
       case ox_start env sdk of
         Some e \<Rightarrow> throwing e
       | None \<Rightarrow> doing (\<lambda>s. s\<lparr>ot_sdk := Some (length (ot_started s)), ot_started := ot_started s @ [sdk]\<rparr>))"

definition otel_init :: "otel_env \<Rightarrow> otel_options \<Rightarrow> (unit, otel_service) effect" where
  "otel_init env options s =
     (if ot_sdk s \<noteq> None then (Inr (), s)
      else if \<not> otel_isEnabled env (oo_otel options) then (Inr (), s)
      else (case oo_otel options of
          None \<Rightarrow> (Inr (), s)
        | Some config \<Rightarrow>
            initSDK env config (oo_service options) (oo_version options)
              (case oo_extra options of None \<Rightarrow> [] | Some xs \<Rightarrow> xs)
              (registerInstrumentationHook (initDebug config s))))"

text \<open>The field is cleared before the race is awaited.\<close>

definition otel_shutdown :: "int option \<Rightarrow> otel_service \<Rightarrow> otel_service" where
  "otel_shutdown timeoutMs s = (case ot_sdk s of
       None \<Rightarrow> s\<lparr>ot_calls := ot_calls s @ [Flush_Returned]\<rparr>
     | Some i \<Rightarrow>
         let timeout = (case timeoutMs of None \<Rightarrow> DEFAULT_OTEL_SHUTDOWN_MS | Some t \<Rightarrow> t)
         in s\<lparr>ot_sdk := None, ot_shutdowns := ot_shutdowns s @ [i],
              ot_calls := ot_calls s @ [Flush_Racing i timeout]\<rparr>)"

text \<open>A rejection of the SDK ends the race as a success does: the error is swallowed.\<close>

datatype otel_event =
    Otel_Init otel_options
  | Otel_Shutdown "int option"
  | Sdk_Settled nat "thrown option"
  | Flush_Timer nat

fun flush_ends :: "nat \<Rightarrow> flush_call \<Rightarrow> flush_call" where
  "flush_ends i (Flush_Racing j t) = (if i = j then Flush_Returned else Flush_Racing j t)"
| "flush_ends i Flush_Returned = Flush_Returned"

fun otel_step :: "otel_env \<Rightarrow> otel_event \<Rightarrow> otel_service \<Rightarrow> otel_service" where
  "otel_step env (Otel_Init options) s = snd (otel_init env options s)"
| "otel_step env (Otel_Shutdown timeoutMs) s = otel_shutdown timeoutMs s"
| "otel_step env (Sdk_Settled i r) s = s\<lparr>ot_calls := map (flush_ends i) (ot_calls s)\<rparr>"
| "otel_step env (Flush_Timer c) s =
     (if c < length (ot_calls s) then s\<lparr>ot_calls := (ot_calls s)[c := Flush_Returned]\<rparr> else s)"

subsection \<open>Probe paths\<close>

text \<open>The path of an origin-form request target: what comes before a query or a fragment.\<close>

definition path_of :: "string \<Rightarrow> string" where
  "path_of url = takeWhile (\<lambda>c. c \<noteq> CHR ''?'' \<and> c \<noteq> CHR ''#'') url"

lemma takeWhile_takeWhile: "takeWhile P (takeWhile Q xs) = takeWhile (\<lambda>x. Q x \<and> P x) xs"
  by (induction xs) simp_all

text \<open>
  A request is left untraced exactly when the first segment of its path is \<open>health\<close> or \<open>healthz\<close>:
  never for its query or fragment, and never for a longer name that only begins so.
\<close>

theorem probe_paths:
  "isIgnoredTracePath (Some url) \<longleftrightarrow>
     (\<exists>seg rest. split_on (CHR ''/'') (path_of url) = [] # seg # rest \<and> seg \<in> {''health'', ''healthz''})"
proof -
  have first: "(\<exists>rest. split_on (CHR ''/'') ys = seg # rest) \<longleftrightarrow> ys = seg \<or> starts_with (seg @ ''/'') ys"
    if "CHR ''/'' \<notin> set seg" for seg ys
    using split_on_first [OF that, of ys] by (simp add: starts_with_iff)
  have "isIgnoredTracePath (Some url) \<longleftrightarrow>
      (\<exists>seg \<in> {''health'', ''healthz''}. path_of url = CHR ''/'' # seg \<or> starts_with (CHR ''/'' # seg @ ''/'') (path_of url))"
    by (cases "url = []") (simp_all add: isIgnoredTracePath_def takeWhile_takeWhile path_of_def IGNORED_TRACE_PATHS_def
        starts_with_iff Let_def conj_commute)
  also have "\<dots> \<longleftrightarrow> (\<exists>seg \<in> {''health'', ''healthz''}. \<exists>ys. path_of url = CHR ''/'' # ys \<and> (ys = seg \<or> starts_with (seg @ ''/'') ys))"
    by (auto simp: starts_with_iff)
  also have "\<dots> \<longleftrightarrow> (\<exists>seg \<in> {''health'', ''healthz''}. \<exists>ys rest. path_of url = CHR ''/'' # ys \<and> split_on (CHR ''/'') ys = seg # rest)"
  proof (intro bex_cong refl ex_cong1)
    fix seg ys assume "seg \<in> {''health'', ''healthz''}"
    then have "CHR ''/'' \<notin> set seg" by auto
    from first [OF this, of ys] show "(path_of url = CHR ''/'' # ys \<and> (ys = seg \<or> starts_with (seg @ ''/'') ys))
      = (\<exists>rest. path_of url = CHR ''/'' # ys \<and> split_on (CHR ''/'') ys = seg # rest)" by blast
  qed
  also have "\<dots> \<longleftrightarrow> (\<exists>seg rest. split_on (CHR ''/'') (path_of url) = [] # seg # rest \<and> seg \<in> {''health'', ''healthz''})"
    unfolding split_on_slash by blast
  finally show ?thesis .
qed

subsection \<open>A configuration that was accepted\<close>

definition complete_signal :: "otel_signal \<Rightarrow> bool" where
  "complete_signal s \<longleftrightarrow> (sg_enabled s = Some True \<longrightarrow> sg_exporter s \<noteq> None)"

definition complete_otel :: "otel_config \<Rightarrow> bool" where
  "complete_otel c \<longleftrightarrow> (\<forall>s \<in> set_option (oc_traces c) \<union> set_option (oc_metrics c) \<union> set_option (oc_logs c). complete_signal s)"

lemma signal_schema_complete: "z_union signal_enabled_schema signal_disabled_schema v = Some s \<Longrightarrow> complete_signal s"
  by (auto simp: z_union_def signal_enabled_schema_def signal_disabled_schema_def z_object_def z_literal_bool_def
      z_optional_def complete_signal_def Option.bind_eq_Some_conv split: option.splits json.splits if_splits)

lemma z_optional_all: "z_optional p v = Some x \<Longrightarrow> (\<And>v y. p v = Some y \<Longrightarrow> P y) \<Longrightarrow> \<forall>y \<in> set_option x. P y"
  by (auto simp: z_optional_def split: option.splits)

lemma otel_config_complete:
  assumes "OtelConfigSchema v = Some c"
  shows "complete_otel c"
proof -
  obtain field where "z_optional OtelTracesConfigSchema (field ''traces'') = Some (oc_traces c)"
    "z_optional OtelMetricsConfigSchema (field ''metrics'') = Some (oc_metrics c)"
    "z_optional OtelLogsConfigSchema (field ''logs'') = Some (oc_logs c)"
    using assms by (auto simp: OtelConfigSchema_def z_object_def Option.bind_eq_Some_conv split: option.splits json.splits)
  from this [THEN z_optional_all [where P = complete_signal]] show ?thesis
    unfolding complete_otel_def OtelTracesConfigSchema_def OtelMetricsConfigSchema_def OtelLogsConfigSchema_def
    using signal_schema_complete by blast
qed

text \<open>What the type guard promises of a block it lets through.\<close>

definition narrows :: "otel_env \<Rightarrow> bool" where
  "narrows env \<longleftrightarrow> (\<forall>c. ox_isEnabled env c \<longrightarrow> (\<exists>s. c = Some s \<and> sg_enabled s = Some True))"

lemma exporter_url_complete:
  assumes "narrows env" and "ox_isEnabled env c" and "\<forall>s \<in> set_option c. complete_signal s"
  shows "\<exists>url. exporter_url c = Inr url \<and> Option.bind c sg_exporter = Some url"
  using assms by (fastforce simp: narrows_def complete_signal_def exporter_url_def)

theorem accepted_config_builds_sdk:
  assumes "OtelConfigSchema v = Some c" and "narrows env"
  shows "\<exists>sdk. new_node_sdk env c service version extra s = (Inr sdk, s)
    \<and> ns_traceExporter sdk = (if ox_isEnabled env (oc_traces c) then Option.bind (oc_traces c) sg_exporter else None)
    \<and> ns_service sdk = service \<and> ns_extra sdk = extra"
proof -
  have ok: "\<forall>s \<in> set_option (oc_traces c). complete_signal s" "\<forall>s \<in> set_option (oc_metrics c). complete_signal s"
    "\<forall>s \<in> set_option (oc_logs c). complete_signal s"
    using otel_config_complete [OF assms(1)] unfolding complete_otel_def by auto
  have t: "getTraceExporter env (oc_traces c) =
      Inr (if ox_isEnabled env (oc_traces c) then Option.bind (oc_traces c) sg_exporter else None)"
    using exporter_url_complete [OF assms(2) _ ok(1)] by (auto simp: getTraceExporter_def)
  obtain rs where m: "getMetricReaders env (oc_metrics c) = Inr rs"
    using exporter_url_complete [OF assms(2) _ ok(2)] by (fastforce simp: getMetricReaders_def)
  obtain ps where l: "getLoggerProcessors env (oc_logs c) = Inr ps"
    using exporter_url_complete [OF assms(2) _ ok(3)] by (fastforce simp: getLoggerProcessors_def)
  show ?thesis by (simp add: new_node_sdk_def t m l lifted_def and_then_def returning_def Let_def)
qed

subsection \<open>One SDK at a time, shut down once\<close>

text \<open>
  The SDKs that were started and not shut down are exactly the current one, none was shut down twice,
  and each shutdown under way is the only one of its SDK.
\<close>

definition otel_inv :: "otel_service \<Rightarrow> bool" where
  "otel_inv s \<longleftrightarrow> distinct (ot_shutdowns s)
     \<and> set (ot_shutdowns s) = {..<length (ot_started s)} - set_option (ot_sdk s)
     \<and> set_option (ot_sdk s) \<subseteq> {..<length (ot_started s)}
     \<and> (\<forall>i t. Flush_Racing i t \<in> set (ot_calls s) \<longrightarrow> i \<in> set (ot_shutdowns s))"

lemma otel_inv_new [simp]: "otel_inv OpenTelemetryService"
  by (simp add: otel_inv_def OpenTelemetryService_def)

lemma otel_inv_cong:
  "otel_inv s \<Longrightarrow> ot_shutdowns t = ot_shutdowns s \<Longrightarrow> ot_started t = ot_started s \<Longrightarrow> ot_sdk t = ot_sdk s
   \<Longrightarrow> set (ot_calls t) \<subseteq> insert Flush_Returned (set (ot_calls s)) \<Longrightarrow> otel_inv t"
  unfolding otel_inv_def by (metis flush_call.distinct(1) insertE subsetD)

lemma new_node_sdk_state: "snd (new_node_sdk env c service version extra s) = s"
  by (simp add: new_node_sdk_def and_then_def lifted_def throwing_def returning_def Let_def split: sum.splits)

lemma initSDK_cases:
  assumes "initSDK env c service version extra s = (r, s')"
  shows "s' = s \<or> (\<exists>sdk. ox_start env sdk = None \<and> r = Inr ()
    \<and> s' = s\<lparr>ot_sdk := Some (length (ot_started s)), ot_started := ot_started s @ [sdk]\<rparr>)"
proof (cases "new_node_sdk env c service version extra s")
  case (Pair q s1)
  then have "s1 = s" using new_node_sdk_state [of env c service version extra s] by simp
  with Pair assms show ?thesis
    by (auto simp: initSDK_def and_then_def throwing_def doing_def split: sum.splits option.splits)
qed

lemma initSDK_shutdowns [simp]: "ot_shutdowns (snd (initSDK env c service version extra s)) = ot_shutdowns s"
  by (cases "initSDK env c service version extra s") (auto dest: initSDK_cases)

lemma otel_init_shutdowns: "ot_shutdowns (snd (otel_init env options s)) = ot_shutdowns s"
  by (simp add: otel_init_def initDebug_def registerInstrumentationHook_def split: option.splits)

lemma otel_inv_started:
  assumes "otel_inv s" and "ot_sdk s = None"
  shows "otel_inv (s\<lparr>ot_sdk := Some (length (ot_started s)), ot_started := ot_started s @ [sdk]\<rparr>)"
  using assms by (auto simp: otel_inv_def)

lemma otel_init_inv: "otel_inv s \<Longrightarrow> otel_inv (snd (otel_init env options s))"
proof -
  assume inv: "otel_inv s"
  have "otel_inv (snd (initSDK env c service version extra (registerInstrumentationHook (initDebug c s))))"
    if sdk: "ot_sdk s = None" for c service version extra
  proof -
    obtain r s' where run: "initSDK env c service version extra (registerInstrumentationHook (initDebug c s)) = (r, s')"
      by fastforce
    have keep: "otel_inv (registerInstrumentationHook (initDebug c s))"
      using inv by (rule otel_inv_cong) (auto simp: registerInstrumentationHook_def initDebug_def)
    moreover have "ot_sdk (registerInstrumentationHook (initDebug c s)) = None"
      using sdk by (simp add: registerInstrumentationHook_def initDebug_def)
    ultimately show ?thesis using initSDK_cases [OF run] run by (auto intro: otel_inv_started)
  qed
  then show ?thesis using inv by (auto simp: otel_init_def split: option.splits)
qed

lemma flush_ends_calls: "set (map (flush_ends i) cs) \<subseteq> insert Flush_Returned (set cs)"
proof
  fix d assume "d \<in> set (map (flush_ends i) cs)"
  then obtain c where c: "c \<in> set cs" "d = flush_ends i c" by auto
  have "flush_ends i c = c \<or> flush_ends i c = Flush_Returned" by (cases c) simp_all
  with c show "d \<in> insert Flush_Returned (set cs)" by auto
qed

lemma otel_inv_step: "otel_inv s \<Longrightarrow> otel_inv (otel_step env ev s)"
proof (cases ev)
  case (Otel_Init options)
  assume "otel_inv s"
  with Otel_Init show ?thesis by (simp add: otel_init_inv)
next
  case (Otel_Shutdown timeoutMs)
  assume "otel_inv s"
  with Otel_Shutdown show ?thesis
    by (cases "ot_sdk s") (auto simp: otel_inv_def otel_shutdown_def Let_def)
next
  case (Sdk_Settled i r)
  assume "otel_inv s"
  with Sdk_Settled show ?thesis using flush_ends_calls [of i "ot_calls s"]
    by (simp del: set_map) (erule otel_inv_cong, simp_all del: set_map)
next
  case (Flush_Timer c)
  assume "otel_inv s"
  with Flush_Timer show ?thesis using set_update_subset_insert [of "ot_calls s" c Flush_Returned]
    by (auto elim!: otel_inv_cong)
qed

theorem one_sdk_shut_down_once:
  "otel_inv (fold (otel_step env) evs OpenTelemetryService)"
proof -
  have "otel_inv (fold (otel_step env) evs s)" if "otel_inv s" for s
    using that by (induction evs arbitrary: s) (simp_all add: otel_inv_step)
  then show ?thesis by simp
qed

end
