(* ===== verification/Config.thy ===== *)
theory Config
  imports Routes Otel_Sdk
begin

text \<open>
  The configuration of the three services (\<^verbatim>\<open>apis/*/src/**/models/**/ConfigModel.ts\<close> and the blocks it
  is made of) and the providers that hand the blocks to the shared services. The schemas of packages
  outside the repository are parameters: the base fields, the database and the logger. So is the reading of the
  numbers of an external API, which may be fractions.
\<close>

record ('b, 'm, 'l) config_env =
  ce_base :: "(string \<Rightarrow> json option) \<Rightarrow> 'b option"
  ce_mongo :: "'m parser"
  ce_logger :: "'l parser"
  ce_external :: "json \<Rightarrow> (string, external_api) js_map option"
  ce_is_url :: "string \<Rightarrow> bool"
  ce_sections_ok :: "(string \<Rightarrow> json option) \<Rightarrow> bool"

subsection \<open>The blocks of the bridge\<close>

text \<open>\<open>z.number()\<close>, on the integers.\<close>

definition z_number :: "int parser" where
  "z_number v = (case v of Some (JNum n) \<Rightarrow> Some n | _ \<Rightarrow> None)"

definition polling_schema :: "bool parser \<Rightarrow> polling_config parser" where
  "polling_schema enabled_schema = z_object (\<lambda>field. do {
     enabled \<leftarrow> enabled_schema (field ''enabled'');
     intervalMs \<leftarrow> z_default 15000 z_number (field ''intervalMs'');
     dispatchOnChange \<leftarrow> z_default True z_bool (field ''dispatchOnChange'');
     maxErrorCount \<leftarrow> z_default 3 z_number (field ''maxErrorCount'');
     errorSkipCycles \<leftarrow> z_default 20 z_number (field ''errorSkipCycles'');
     traceIntervalMs \<leftarrow> z_optional z_number (field ''traceIntervalMs'');
     Some \<lparr>pl_enabled = enabled, pl_intervalMs = intervalMs, pl_dispatchOnChange = dispatchOnChange,
           pl_maxErrorCount = Some maxErrorCount, pl_errorSkipCycles = Some errorSkipCycles,
           pl_traceIntervalMs = traceIntervalMs\<rparr> })"

definition PollingEnabledSchema :: "polling_config parser" where
  "PollingEnabledSchema = polling_schema (z_default True (z_literal_bool True))"

definition PollingDisabledSchema :: "polling_config parser" where
  "PollingDisabledSchema = polling_schema (z_map (\<lambda>_. False) (z_optional (z_literal_bool False)))"

definition PollingConfigSchema :: "polling_config parser" where
  "PollingConfigSchema = z_union PollingEnabledSchema PollingDisabledSchema"

record mqtt_block =
  mb_enabled :: "bool option"
  mb_url :: "string option"
  mb_clientId :: "string option"
  mb_username :: "string option"
  mb_password :: "string option"
  mb_topicPrefix :: "string option"
  mb_notifications :: "bool option option"

definition MqttNotificationConfigSchema :: "bool option parser" where
  "MqttNotificationConfigSchema = z_object (\<lambda>field. z_optional z_bool (field ''enabled''))"

definition MqttEnabledSchema :: "mqtt_block parser" where
  "MqttEnabledSchema = z_object (\<lambda>field. do {
     enabled \<leftarrow> z_literal_bool True (field ''enabled'');
     url \<leftarrow> z_string (field ''url'');
     clientId \<leftarrow> z_optional z_string (field ''clientId'');
     username \<leftarrow> z_string (field ''username'');
     password \<leftarrow> z_string (field ''password'');
     topicPrefix \<leftarrow> z_optional z_string (field ''topicPrefix'');
     notifications \<leftarrow> z_optional MqttNotificationConfigSchema (field ''notifications'');
     Some \<lparr>mb_enabled = Some enabled, mb_url = Some url, mb_clientId = clientId, mb_username = Some username,
           mb_password = Some password, mb_topicPrefix = topicPrefix, mb_notifications = notifications\<rparr> })"

definition MqttDisabledSchema :: "mqtt_block parser" where
  "MqttDisabledSchema = z_object (\<lambda>field. do {
     enabled \<leftarrow> z_optional (z_literal_bool False) (field ''enabled'');
     url \<leftarrow> z_optional z_string (field ''url'');
     clientId \<leftarrow> z_optional z_string (field ''clientId'');
     username \<leftarrow> z_optional z_string (field ''username'');
     password \<leftarrow> z_optional z_string (field ''password'');
     topicPrefix \<leftarrow> z_optional z_string (field ''topicPrefix'');
     notifications \<leftarrow> z_optional MqttNotificationConfigSchema (field ''notifications'');
     Some \<lparr>mb_enabled = enabled, mb_url = url, mb_clientId = clientId, mb_username = username,
           mb_password = password, mb_topicPrefix = topicPrefix, mb_notifications = notifications\<rparr> })"

definition MqttConfigSchema :: "mqtt_block parser" where
  "MqttConfigSchema = z_union MqttEnabledSchema MqttDisabledSchema"

record http_notification =
  hn_enabled :: "bool option"
  hn_address :: "string option"

definition HttpNotificationEnabledSchema :: "http_notification parser" where
  "HttpNotificationEnabledSchema = z_object (\<lambda>field. do {
     enabled \<leftarrow> z_literal_bool True (field ''enabled'');
     address \<leftarrow> z_string (field ''address'');
     Some \<lparr>hn_enabled = Some enabled, hn_address = Some address\<rparr> })"

definition HttpNotificationDisabledSchema :: "http_notification parser" where
  "HttpNotificationDisabledSchema = z_object (\<lambda>field. do {
     enabled \<leftarrow> z_optional (z_literal_bool False) (field ''enabled'');
     address \<leftarrow> z_optional z_string (field ''address'');
     Some \<lparr>hn_enabled = enabled, hn_address = address\<rparr> })"

definition HttpNotificationConfigSchema :: "http_notification parser" where
  "HttpNotificationConfigSchema = z_union HttpNotificationEnabledSchema HttpNotificationDisabledSchema"

definition HttpConfigSchema :: "http_notification option parser" where
  "HttpConfigSchema = z_object (\<lambda>field. z_optional HttpNotificationConfigSchema (field ''notifications''))"

definition HealthConfigSchema :: "health_config parser" where
  "HealthConfigSchema = z_object (\<lambda>field. do {
     checkTimeoutMs \<leftarrow> z_default 2000 (z_int_min 1) (field ''checkTimeoutMs'');
     cacheTtlMs \<leftarrow> z_default 1000 (z_int_min 0) (field ''cacheTtlMs'');
     exposeDetail \<leftarrow> z_default True z_bool (field ''exposeDetail'');
     Some \<lparr>hf_checkTimeoutMs = checkTimeoutMs, hf_cacheTtlMs = cacheTtlMs, hf_exposeDetail = exposeDetail\<rparr> })"

definition RedirectConfigSchema :: "string parser" where
  "RedirectConfigSchema = z_object (\<lambda>field. z_string (field ''baseURL''))"

subsection \<open>The configuration of a service\<close>

definition ExternalApi_MiotSpec :: string where "ExternalApi_MiotSpec = ''MIOT_SPEC''"

definition external_apis ::
  "('b, 'm, 'l) config_env \<Rightarrow> string list \<Rightarrow> (string, provider_entry \<times> log_config) js_map parser" where
  "external_apis env keys v = do {
     j \<leftarrow> v;
     apis \<leftarrow> ce_external env j;
     createExternalApisSchema (ce_is_url env) (ce_sections_ok env) keys apis }"

record ('b, 'm, 'l) bridge_config =
  bc_base :: 'b
  bc_cachePath :: "string option"
  bc_mongodb :: "'m option"
  bc_polling :: "polling_config option"
  bc_http :: "http_notification option option"
  bc_externalApis :: "(string, provider_entry \<times> log_config) js_map"
  bc_mqtt :: "mqtt_block option"
  bc_health :: "health_config option"
  bc_logger :: "'l option"
  bc_otel :: "otel_config option"
  bc_auth :: auth_config

definition bridge_ConfigSchema :: "('b, 'm, 'l) config_env \<Rightarrow> ('b, 'm, 'l) bridge_config parser" where
  "bridge_ConfigSchema env = z_object (\<lambda>field. do {
     base \<leftarrow> ce_base env field;
     cachePath \<leftarrow> z_optional z_string (field ''cachePath'');
     mongodb \<leftarrow> z_optional (ce_mongo env) (field ''mongodb'');
     polling \<leftarrow> z_optional PollingConfigSchema (field ''polling'');
     http \<leftarrow> z_optional HttpConfigSchema (field ''http'');
     apis \<leftarrow> external_apis env [ExternalApi_MiotSpec] (field ''externalApis'');
     mqtt \<leftarrow> z_optional MqttConfigSchema (field ''mqtt'');
     health \<leftarrow> z_optional HealthConfigSchema (field ''health'');
     logger \<leftarrow> z_optional (ce_logger env) (field ''logger'');
     otel \<leftarrow> z_optional OtelConfigSchema (field ''otel'');
     auth \<leftarrow> createAuthConfigSchema (ce_is_url env) [AuthMethod_Idp] (field ''auth'');
     Some \<lparr>bc_base = base, bc_cachePath = cachePath, bc_mongodb = mongodb, bc_polling = polling, bc_http = http,
           bc_externalApis = apis, bc_mqtt = mqtt, bc_health = health, bc_logger = logger, bc_otel = otel,
           bc_auth = auth\<rparr> })"

record ('b, 'm, 'l) qr_config =
  qc_base :: 'b
  qc_mongodb :: 'm
  qc_redirect :: string
  qc_health :: "health_config option"
  qc_logger :: "'l option"
  qc_otel :: "otel_config option"
  qc_auth :: auth_config

definition qr_ConfigSchema :: "('b, 'm, 'l) config_env \<Rightarrow> ('b, 'm, 'l) qr_config parser" where
  "qr_ConfigSchema env = z_object (\<lambda>field. do {
     base \<leftarrow> ce_base env field;
     mongodb \<leftarrow> ce_mongo env (field ''mongodb'');
     redirect \<leftarrow> RedirectConfigSchema (field ''redirect'');
     health \<leftarrow> z_optional HealthConfigSchema (field ''health'');
     logger \<leftarrow> z_optional (ce_logger env) (field ''logger'');
     otel \<leftarrow> z_optional OtelConfigSchema (field ''otel'');
     auth \<leftarrow> createAuthConfigSchema (ce_is_url env) [AuthMethod_Idp] (field ''auth'');
     Some \<lparr>qc_base = base, qc_mongodb = mongodb, qc_redirect = redirect, qc_health = health, qc_logger = logger,
           qc_otel = otel, qc_auth = auth\<rparr> })"

record ('b, 'm, 'l) feeder_config =
  fc_base :: 'b
  fc_externalApis :: "(string, provider_entry \<times> log_config) js_map"
  fc_health :: "health_config option"
  fc_logger :: "'l option"
  fc_otel :: "otel_config option"
  fc_auth :: auth_config

definition feeder_ConfigSchema :: "('b, 'm, 'l) config_env \<Rightarrow> ('b, 'm, 'l) feeder_config parser" where
  "feeder_ConfigSchema env = z_object (\<lambda>field. do {
     base \<leftarrow> ce_base env field;
     apis \<leftarrow> external_apis env [external_api_name ChmiPortal, external_api_name ChmiOpendata] (field ''externalApis'');
     health \<leftarrow> z_optional HealthConfigSchema (field ''health'');
     logger \<leftarrow> z_optional (ce_logger env) (field ''logger'');
     otel \<leftarrow> z_optional OtelConfigSchema (field ''otel'');
     auth \<leftarrow> createAuthConfigSchema (ce_is_url env) [AuthMethod_Idp] (field ''auth'');
     Some \<lparr>fc_base = base, fc_externalApis = apis, fc_health = health, fc_logger = logger, fc_otel = otel,
           fc_auth = auth\<rparr> })"

text \<open>
  The configuration of the telemetry bootstrap, which runs before the service and reads the same file with a
  schema of its own.
\<close>

definition instrument_ConfigSchema :: "('b, 'm, 'l) config_env \<Rightarrow> ('b \<times> otel_config option) parser" where
  "instrument_ConfigSchema env = z_object (\<lambda>field. do {
     base \<leftarrow> ce_base env field;
     otel \<leftarrow> z_optional OtelConfigSchema (field ''otel'');
     Some (base, otel) })"

subsection \<open>What an accepted configuration guarantees\<close>

lemma z_literal_bool_Some: "z_literal_bool b v = Some x \<longleftrightarrow> v = Some (JBool b) \<and> x = b"
  by (auto simp: z_literal_bool_def)

lemma z_union_cases: "z_union p q v = Some x \<Longrightarrow> p v = Some x \<or> p v = None \<and> q v = Some x"
  by (auto simp: z_union_def split: option.splits)

lemma bind_Some_elim: "Option.bind m k = Some x \<Longrightarrow> (\<And>y. m = Some y \<Longrightarrow> k y = Some x \<Longrightarrow> P) \<Longrightarrow> P"
  by (auto simp: Option.bind_eq_Some_conv)

lemma off_or_absent: "z_optional (z_literal_bool False) v = Some e \<Longrightarrow> e \<noteq> Some True"
  by (auto simp: z_optional_def z_literal_bool_Some split: option.splits)

definition complete_mqtt :: "mqtt_block \<Rightarrow> bool" where
  "complete_mqtt c \<longleftrightarrow> (mb_enabled c = Some True \<longrightarrow> mb_url c \<noteq> None \<and> mb_username c \<noteq> None \<and> mb_password c \<noteq> None)"

definition complete_http :: "http_notification \<Rightarrow> bool" where
  "complete_http c \<longleftrightarrow> (hn_enabled c = Some True \<longrightarrow> hn_address c \<noteq> None)"

lemma mqtt_config_complete: "MqttConfigSchema v = Some c \<Longrightarrow> complete_mqtt c"
  unfolding MqttConfigSchema_def
  by (drule z_union_cases) (auto simp: MqttEnabledSchema_def MqttDisabledSchema_def z_object_Some complete_mqtt_def
      elim!: bind_Some_elim dest: off_or_absent)

lemma http_notification_complete: "HttpNotificationConfigSchema v = Some c \<Longrightarrow> complete_http c"
  unfolding HttpNotificationConfigSchema_def
  by (drule z_union_cases) (auto simp: HttpNotificationEnabledSchema_def HttpNotificationDisabledSchema_def z_object_Some
      complete_http_def elim!: bind_Some_elim dest: off_or_absent)

lemma http_config_complete: "HttpConfigSchema v = Some c \<Longrightarrow> \<forall>h \<in> set_option c. complete_http h"
  unfolding HttpConfigSchema_def z_object_Some
  by (elim exE conjE) (erule z_optional_all, rule http_notification_complete)

lemma external_apis_keys: "external_apis env keys v = Some apis \<Longrightarrow> map fst apis = remdups keys"
proof -
  assume apis: "external_apis env keys v = Some apis"
  obtain j where j: "v = Some j" using apis by (cases v) (simp_all add: external_apis_def)
  obtain m where m: "ce_external env j = Some m" using apis unfolding external_apis_def j by (cases "ce_external env j") simp_all
  have "createExternalApisSchema (ce_is_url env) (ce_sections_ok env) keys m = Some apis"
    using apis by (simp add: external_apis_def j m)
  then have ok: "map (\<lambda>k. Option.bind (map_of m k) (\<lambda>api. map_option (Pair k)
      (ExternalApiEntrySchema (ce_is_url env) (ce_sections_ok env) api))) (remdups keys) = map Some apis"
    by (simp add: createExternalApisSchema_def those_Some)
  show ?thesis
  proof (rule nth_equalityI)
    show len: "length (map fst apis) = length (remdups keys)" using arg_cong [where f = length, OF ok] by simp
    fix i assume "i < length (map fst apis)"
    then have "(map Some apis) ! i = Some (apis ! i)" "i < length (remdups keys)" using len by simp_all
    then show "map fst apis ! i = remdups keys ! i"
      using len unfolding ok [symmetric] by (auto simp: Option.bind_eq_Some_conv dest: sym)
  qed
qed

lemma bridge_fields:
  assumes "bridge_ConfigSchema env v = Some c"
  obtains m where "v = Some (JObj m)"
    "z_optional PollingConfigSchema (map_of m ''polling'') = Some (bc_polling c)"
    "z_optional HttpConfigSchema (map_of m ''http'') = Some (bc_http c)"
    "external_apis env [ExternalApi_MiotSpec] (map_of m ''externalApis'') = Some (bc_externalApis c)"
    "z_optional MqttConfigSchema (map_of m ''mqtt'') = Some (bc_mqtt c)"
    "z_optional OtelConfigSchema (map_of m ''otel'') = Some (bc_otel c)"
    "createAuthConfigSchema (ce_is_url env) [AuthMethod_Idp] (map_of m ''auth'') = Some (bc_auth c)"
  using assms by (auto simp: bridge_ConfigSchema_def z_object_Some elim!: bind_Some_elim)

lemma single_method:
  assumes "createAuthConfigSchema is_url [k] v = Some config"
  shows "\<exists>rows. config = [(k, Bearer_Jwt rows)] \<and> rows \<noteq> []"
proof -
  obtain m where "map_option (Pair k) (VerifierSchema is_url (map_of m k)) = Some (hd config)" "length config = 1"
    using assms by (auto simp: createAuthConfigSchema_def those_Some Cons_eq_map_conv split: option.splits json.splits if_splits)
  then obtain entry where entry: "VerifierSchema is_url (map_of m k) = Some entry" "config = [(k, entry)]"
    by (cases config) auto
  obtain rows where "entry = Bearer_Jwt rows" by (cases entry)
  with entry show ?thesis using VerifierSchema_nonempty by blast
qed

text \<open>
  Property C25. A configuration the bridge accepts trusts at least one issuer for the one method its routes name and
  no other, has an entry for the specification registry, and gives every transport and every telemetry
  signal that it enables the addresses and credentials it needs.
\<close>

theorem bridge_config_complete:
  assumes "bridge_ConfigSchema env v = Some c"
  shows "(\<exists>rows. bc_auth c = [(AuthMethod_Idp, Bearer_Jwt rows)] \<and> rows \<noteq> [])
    \<and> map fst (bc_externalApis c) = [ExternalApi_MiotSpec]
    \<and> (\<forall>m \<in> set_option (bc_mqtt c). complete_mqtt m)
    \<and> (\<forall>h \<in> set_option (bc_http c). \<forall>n \<in> set_option h. complete_http n)
    \<and> (\<forall>o' \<in> set_option (bc_otel c). complete_otel o')"
proof -
  obtain m where f: "z_optional HttpConfigSchema (map_of m ''http'') = Some (bc_http c)"
    "external_apis env [ExternalApi_MiotSpec] (map_of m ''externalApis'') = Some (bc_externalApis c)"
    "z_optional MqttConfigSchema (map_of m ''mqtt'') = Some (bc_mqtt c)"
    "z_optional OtelConfigSchema (map_of m ''otel'') = Some (bc_otel c)"
    "createAuthConfigSchema (ce_is_url env) [AuthMethod_Idp] (map_of m ''auth'') = Some (bc_auth c)"
    using bridge_fields [OF assms] by metis
  have auth: "\<exists>rows. bc_auth c = [(AuthMethod_Idp, Bearer_Jwt rows)] \<and> rows \<noteq> []"
    using f(5) by (rule single_method)
  have apis: "map fst (bc_externalApis c) = [ExternalApi_MiotSpec]" using external_apis_keys [OF f(2)] by simp
  have mqtt: "\<forall>m \<in> set_option (bc_mqtt c). complete_mqtt m" using f(3) mqtt_config_complete by (rule z_optional_all)
  have http: "\<forall>h \<in> set_option (bc_http c). \<forall>n \<in> set_option h. complete_http n"
    using f(1) http_config_complete by (rule z_optional_all)
  have otel: "\<forall>o' \<in> set_option (bc_otel c). complete_otel o'" using f(4) otel_config_complete by (rule z_optional_all)
  from auth apis mqtt http otel show ?thesis by blast
qed

definition sample_config_env :: "(unit, unit, unit) config_env" where
  "sample_config_env = \<lparr>ce_base = \<lambda>_. Some (), ce_mongo = \<lambda>_. Some (), ce_logger = \<lambda>_. Some (),
     ce_external = \<lambda>_. Some [(''MIOT_SPEC'', \<lparr>pi_baseURL = Some (JStr ''https://miot-spec.org''), pi_auth = None,
       pi_resilience = None, pi_retriableStatusCodes = None, xa_logging = None\<rparr>)],
     ce_is_url = \<lambda>_. True, ce_sections_ok = \<lambda>_. True\<rparr>"

definition sample_bridge_json :: json where
  "sample_bridge_json = JObj [(''auth'', sample_auth_json), (''externalApis'', JObj []),
     (''mqtt'', JObj [(''enabled'', JBool True), (''url'', JStr ''mqtt://broker''), (''username'', JStr ''u''),
        (''password'', JStr ''p'')]),
     (''polling'', JObj [])]"

lemma sample_mqtt_accepted:
  "MqttConfigSchema (Some (JObj [(''enabled'', JBool True), (''url'', JStr ''mqtt://broker''), (''username'', JStr ''u''),
        (''password'', JStr ''p'')])) = Some \<lparr>mb_enabled = Some True, mb_url = Some ''mqtt://broker'', mb_clientId = None,
        mb_username = Some ''u'', mb_password = Some ''p'', mb_topicPrefix = None, mb_notifications = None\<rparr>"
  by (simp add: MqttConfigSchema_def z_union_def MqttEnabledSchema_def z_literal_bool_def)

lemma sample_polling_accepted:
  "PollingConfigSchema (Some (JObj [])) = Some \<lparr>pl_enabled = True, pl_intervalMs = 15000, pl_dispatchOnChange = True,
     pl_maxErrorCount = Some 3, pl_errorSkipCycles = Some 20, pl_traceIntervalMs = None\<rparr>"
  by (simp add: PollingConfigSchema_def z_union_def PollingEnabledSchema_def polling_schema_def)

lemma sample_apis_accepted:
  "external_apis sample_config_env [ExternalApi_MiotSpec] (Some (JObj [])) = Some [(''MIOT_SPEC'',
     \<lparr>pe_baseURL = ''https://miot-spec.org'', pe_auth = None, pe_resilience = None,
      pe_retriableStatusCodes = DEFAULT_RETRIABLE_STATUS_CODES\<rparr>, \<lparr>lc_enabled = True, lc_stack = False\<rparr>)]"
  by (simp add: external_apis_def sample_config_env_def createExternalApisSchema_def ExternalApi_MiotSpec_def
      ExternalApiEntrySchema_def HttpLogConfigSchema_def HttpProviderEntrySchema_def optional_section_def
      provider_input.defs)

lemma sample_bridge_accepted: "bridge_ConfigSchema sample_config_env (Some sample_bridge_json) \<noteq> None"
  using sample_auth_accepted sample_mqtt_accepted sample_polling_accepted sample_apis_accepted
  by (simp add: bridge_ConfigSchema_def sample_bridge_json_def AuthMethod_Idp_def)
     (simp add: sample_config_env_def)

lemma bridge_config_complete_witness:
  "\<exists>c. bridge_ConfigSchema sample_config_env (Some sample_bridge_json) = Some c
    \<and> map fst (bc_externalApis c) = [ExternalApi_MiotSpec]"
proof -
  obtain c where c: "bridge_ConfigSchema sample_config_env (Some sample_bridge_json) = Some c"
    using sample_bridge_accepted by auto
  from c bridge_config_complete [OF c, THEN conjunct2, THEN conjunct1] show ?thesis by (intro exI conjI)
qed

text \<open>
  What leaving \<open>enabled\<close> out of a block means: a polling block without it turns the poller on, since its
  first alternative has a default, while the other blocks without it are off.
\<close>

lemma polling_without_enabled:
  assumes "map_of m ''enabled'' = None" and "PollingConfigSchema (Some (JObj m)) = Some p"
  shows "pl_enabled p"
  using assms unfolding PollingConfigSchema_def
  by - (drule z_union_cases, auto simp: PollingEnabledSchema_def PollingDisabledSchema_def polling_schema_def elim!: bind_Some_elim)

lemma mqtt_without_enabled:
  assumes "map_of m ''enabled'' = None" and "MqttConfigSchema (Some (JObj m)) = Some c"
  shows "mb_enabled c = None"
  using assms unfolding MqttConfigSchema_def
  by - (drule z_union_cases, auto simp: MqttEnabledSchema_def MqttDisabledSchema_def z_literal_bool_Some elim!: bind_Some_elim)

lemma http_without_enabled:
  assumes "map_of m ''enabled'' = None" and "HttpNotificationConfigSchema (Some (JObj m)) = Some c"
  shows "hn_enabled c = None"
  using assms unfolding HttpNotificationConfigSchema_def
  by - (drule z_union_cases, auto simp: HttpNotificationEnabledSchema_def HttpNotificationDisabledSchema_def
      z_literal_bool_Some elim!: bind_Some_elim)

theorem blocks_without_enabled:
  assumes "map_of m ''enabled'' = None"
  shows "(\<forall>p. PollingConfigSchema (Some (JObj m)) = Some p \<longrightarrow> pl_enabled p)
    \<and> (\<forall>c. MqttConfigSchema (Some (JObj m)) = Some c \<longrightarrow> mb_enabled c = None)
    \<and> (\<forall>c. HttpNotificationConfigSchema (Some (JObj m)) = Some c \<longrightarrow> hn_enabled c = None)"
  using polling_without_enabled [OF assms] mqtt_without_enabled [OF assms] http_without_enabled [OF assms] by blast

subsection \<open>The providers\<close>

text \<open>
  \<open>HealthProvider\<close> hands the parsed block, or \<open>{}\<close>, to the registry, which parses it again. The other
  providers hand their block on as it is.
\<close>

definition health_json :: "health_config \<Rightarrow> json" where
  "health_json c = JObj [(''checkTimeoutMs'', JNum (hf_checkTimeoutMs c)), (''cacheTtlMs'', JNum (hf_cacheTtlMs c)),
     (''exposeDetail'', JBool (hf_exposeDetail c))]"

definition HealthProvider :: "health_config option \<Rightarrow> health_config option" where
  "HealthProvider health = HealthConfigSchema (Some (case health of None \<Rightarrow> JObj [] | Some c \<Rightarrow> health_json c))"

theorem health_block_parsed_twice:
  assumes "z_optional HealthConfigSchema v = Some health"
  shows "HealthProvider health = Some (case health of None \<Rightarrow>
      \<lparr>hf_checkTimeoutMs = 2000, hf_cacheTtlMs = 1000, hf_exposeDetail = True\<rparr> | Some c \<Rightarrow> c)"
proof (cases health)
  case None
  then show ?thesis by (simp add: HealthProvider_def HealthConfigSchema_def)
next
  case (Some c)
  then obtain x where "HealthConfigSchema x = Some c" using assms by (auto simp: z_optional_def split: option.splits)
  then have "1 \<le> hf_checkTimeoutMs c" "0 \<le> hf_cacheTtlMs c"
    by (auto simp: HealthConfigSchema_def z_object_Some z_int_min_Some elim!: bind_Some_elim dest!: z_default_Some)
  with Some show ?thesis by (simp add: HealthProvider_def HealthConfigSchema_def health_json_def)
qed

end
