(* ===== verification/Shutdown.thy ===== *)
theory Shutdown
  imports Health "HOL-Library.Sublist"
begin

text \<open>
  \<^verbatim>\<open>packages/tsed-health/src/createShutdownHandler.ts\<close> and \<^verbatim>\<open>ShutdownState.ts\<close>: the graceful shutdown as
  a machine over what the process receives: signals, the end of the drain delay, the settling of
  \<open>platform.stop()\<close> and of \<open>onStopped\<close>, and the hard deadline. \<open>sd_trace\<close> is what the handler did.
\<close>

definition DEFAULT_DRAIN_DELAY_MS :: int where "DEFAULT_DRAIN_DELAY_MS = 5000"
definition DEFAULT_HARD_DEADLINE_MS :: int where "DEFAULT_HARD_DEADLINE_MS = 0"

text \<open>
  What \<open>onShutdown\<close> throws at each stage, and \<open>inject\<close> when the container has no \<open>ShutdownState\<close>. The
  services pass a callback that logs, and provide the state: nothing is thrown.
\<close>

record shutdown_options =
  so_drainDelayMs :: int
  so_hardDeadlineMs :: int
  so_onShutdown :: "string \<Rightarrow> thrown option"
  so_inject :: "thrown option"

definition shutdown_options_of :: "int option \<Rightarrow> int option \<Rightarrow> shutdown_options" where
  "shutdown_options_of drain deadline =
     \<lparr>so_drainDelayMs = with_default DEFAULT_DRAIN_DELAY_MS drain,
      so_hardDeadlineMs = with_default DEFAULT_HARD_DEADLINE_MS deadline,
      so_onShutdown = (\<lambda>_. None), so_inject = None\<rparr>"

datatype shutdown_action =
    Announced string
  | Began_Drain
  | Waiting int
  | Called_Stop
  | Called_On_Stopped
  | Hard_Deadline

datatype shutdown_phase = Running | Draining | Stopping | Flushing | Ended "thrown option"

record shutdown_state =
  sd_shuttingDown :: bool
  sd_draining :: bool
  sd_deadline :: bool
  sd_phase :: shutdown_phase
  sd_trace :: "shutdown_action list"

definition shutdown_init :: shutdown_state where
  "shutdown_init = \<lparr>sd_shuttingDown = False, sd_draining = False, sd_deadline = False,
     sd_phase = Running, sd_trace = []\<rparr>"

definition beginDrain :: "shutdown_state \<Rightarrow> shutdown_state" where
  "beginDrain st = st\<lparr>sd_draining := True\<rparr>"

datatype shutdown_event =
    Signal_Received
  | Delay_Over
  | Stop_Settled "thrown option"
  | On_Stopped_Settled "thrown option"
  | Deadline_Over

definition did :: "shutdown_action list \<Rightarrow> shutdown_state \<Rightarrow> shutdown_state" where
  "did acts st = st\<lparr>sd_trace := sd_trace st @ acts\<rparr>"

text \<open>The \<open>finally\<close> block clears the deadline's timer on every way out.\<close>

definition finish :: "thrown option \<Rightarrow> shutdown_state \<Rightarrow> shutdown_state" where
  "finish err st = st\<lparr>sd_phase := Ended err, sd_deadline := False\<rparr>"

definition announce :: "shutdown_options \<Rightarrow> string \<Rightarrow> (shutdown_state \<Rightarrow> shutdown_state) \<Rightarrow> shutdown_state \<Rightarrow> shutdown_state" where
  "announce opts stage rest st =
     (let st = did [Announced stage] st in
      case so_onShutdown opts stage of Some e \<Rightarrow> finish (Some e) st | None \<Rightarrow> rest st)"

definition start_stopping :: "shutdown_options \<Rightarrow> shutdown_state \<Rightarrow> shutdown_state" where
  "start_stopping opts = announce opts ''stopping'' (\<lambda>st. did [Called_Stop] (st\<lparr>sd_phase := Stopping\<rparr>))"

definition start_draining :: "shutdown_options \<Rightarrow> shutdown_state \<Rightarrow> shutdown_state" where
  "start_draining opts = announce opts ''draining'' (\<lambda>st.
     case so_inject opts of
       Some e \<Rightarrow> finish (Some e) st
     | None \<Rightarrow>
         (let st = did [Began_Drain] (beginDrain st)
          in if so_drainDelayMs opts > 0
             then did [Waiting (so_drainDelayMs opts)] (st\<lparr>sd_phase := Draining\<rparr>)
             else start_stopping opts st))"

definition shutdown_step :: "shutdown_options \<Rightarrow> shutdown_event \<Rightarrow> shutdown_state \<Rightarrow> shutdown_state" where
  "shutdown_step opts ev st =
     (case ev of
        Signal_Received \<Rightarrow>
          if sd_shuttingDown st then st
          else start_draining opts (st\<lparr>sd_shuttingDown := True, sd_deadline := (so_hardDeadlineMs opts > 0)\<rparr>)
      | Delay_Over \<Rightarrow> if sd_phase st = Draining then start_stopping opts st else st
      | Stop_Settled r \<Rightarrow>
          if sd_phase st \<noteq> Stopping then st
          else (case r of
              Some e \<Rightarrow> finish (Some e) st
            | None \<Rightarrow> announce opts ''stopped'' (\<lambda>st. did [Called_On_Stopped] (st\<lparr>sd_phase := Flushing\<rparr>)) st)
      | On_Stopped_Settled r \<Rightarrow> if sd_phase st = Flushing then finish r st else st
      | Deadline_Over \<Rightarrow> if sd_deadline st then did [Hard_Deadline] (st\<lparr>sd_deadline := False\<rparr>) else st)"

text \<open>The sequence the handler is meant to follow.\<close>

definition drain_actions :: "shutdown_options \<Rightarrow> shutdown_action list" where
  "drain_actions opts = [Announced ''draining'', Began_Drain]
     @ (if so_drainDelayMs opts > 0 then [Waiting (so_drainDelayMs opts)] else [])"

definition shutdown_sequence :: "shutdown_options \<Rightarrow> shutdown_action list" where
  "shutdown_sequence opts = drain_actions opts
     @ [Announced ''stopping'', Called_Stop] @ [Announced ''stopped'', Called_On_Stopped]"

definition main_actions :: "shutdown_state \<Rightarrow> shutdown_action list" where
  "main_actions st = filter (\<lambda>a. a \<noteq> Hard_Deadline) (sd_trace st)"

fun phase_actions :: "shutdown_options \<Rightarrow> shutdown_phase \<Rightarrow> shutdown_action list" where
  "phase_actions opts Running = []"
| "phase_actions opts Draining = drain_actions opts"
| "phase_actions opts Stopping = drain_actions opts @ [Announced ''stopping'', Called_Stop]"
| "phase_actions opts _ = shutdown_sequence opts"

definition shutdown_inv :: "shutdown_options \<Rightarrow> shutdown_state \<Rightarrow> bool" where
  "shutdown_inv opts st \<longleftrightarrow>
     (sd_shuttingDown st \<longleftrightarrow> sd_phase st \<noteq> Running) \<and> (sd_draining st \<longleftrightarrow> Began_Drain \<in> set (main_actions st))
     \<and> (sd_deadline st \<longrightarrow> sd_phase st \<noteq> Running \<and> (\<forall>e. sd_phase st \<noteq> Ended e))
     \<and> (main_actions st = phase_actions opts (sd_phase st)
        \<or> (\<exists>e. sd_phase st = Ended (Some e)) \<and> prefix (main_actions st) (shutdown_sequence opts))"

lemma shutdown_inv_init [simp]: "shutdown_inv opts shutdown_init"
  by (simp add: shutdown_inv_def shutdown_init_def main_actions_def)

lemmas shutdown_defs = shutdown_step_def start_draining_def start_stopping_def announce_def did_def beginDrain_def finish_def

lemma shutdown_inv_step:
  assumes "shutdown_inv opts st"
  shows "shutdown_inv opts (shutdown_step opts ev st)"
proof (cases ev)
  case Signal_Received
  with assms show ?thesis
    by (auto simp: shutdown_inv_def shutdown_defs main_actions_def drain_actions_def shutdown_sequence_def Let_def split: option.split)
next
  case Delay_Over
  with assms show ?thesis
    by (auto simp: shutdown_inv_def shutdown_defs main_actions_def drain_actions_def shutdown_sequence_def Let_def split: option.split)
next
  case (Stop_Settled r)
  with assms show ?thesis
    by (auto simp: shutdown_inv_def shutdown_defs main_actions_def drain_actions_def shutdown_sequence_def Let_def split: option.split)
next
  case (On_Stopped_Settled r)
  with assms show ?thesis
    by (auto simp: shutdown_inv_def shutdown_defs main_actions_def)
next
  case Deadline_Over
  with assms show ?thesis
    by (auto simp: shutdown_inv_def shutdown_defs main_actions_def)
qed

lemma shutdown_inv_run: "shutdown_inv opts st \<Longrightarrow> shutdown_inv opts (fold (shutdown_step opts) evs st)"
  by (induction evs arbitrary: st) (auto simp: shutdown_inv_step)

lemma phase_actions_prefix: "prefix (phase_actions opts p) (shutdown_sequence opts)"
  by (cases p) (auto simp: shutdown_sequence_def)

lemma ended_step:
  assumes "shutdown_inv opts st" and "sd_phase st = Ended e"
  shows "shutdown_step opts ev st = st"
  using assms by (auto simp: shutdown_inv_def shutdown_step_def split: shutdown_event.splits)

lemma ended_run:
  assumes "shutdown_inv opts st" and "sd_phase st = Ended e"
  shows "fold (shutdown_step opts) evs st = st"
  using assms by (induction evs) (auto simp: ended_step)

text \<open>
  Property C21. However signals, delays and completions interleave, the handler does a prefix of one
  fixed sequence: drain, wait, stop the platform, then flush. So a second signal starts no second
  teardown, nothing is torn down before readiness fails, and \<open>onStopped\<close> never runs before the
  platform stopped. Once it has ended, with success or an error, of the platform, of the container or of a
  callback, no later event does anything: in particular the hard deadline no longer fires.
\<close>

theorem shutdown_ordered:
  assumes "st = fold (shutdown_step opts) evs shutdown_init"
  shows "prefix (main_actions st) (shutdown_sequence opts)
    \<and> (Called_Stop \<in> set (sd_trace st) \<longrightarrow> sd_draining st)
    \<and> (\<forall>e evs'. sd_phase st = Ended e \<longrightarrow> fold (shutdown_step opts) evs' st = st)"
proof -
  have inv: "shutdown_inv opts st" unfolding assms by (rule shutdown_inv_run) simp
  have pre: "prefix (main_actions st) (shutdown_sequence opts)"
    using inv phase_actions_prefix [of opts] unfolding shutdown_inv_def by metis
  have "Began_Drain \<in> set (main_actions st)" if "Called_Stop \<in> set (main_actions st)"
    using pre that by (cases "main_actions st"; cases "tl (main_actions st)") (auto simp: shutdown_sequence_def drain_actions_def)
  moreover have "Called_Stop \<in> set (main_actions st)" if "Called_Stop \<in> set (sd_trace st)"
    using that by (simp add: main_actions_def)
  ultimately have "Called_Stop \<in> set (sd_trace st) \<longrightarrow> sd_draining st" using inv by (auto simp: shutdown_inv_def)
  with pre ended_run [OF inv] show ?thesis by blast
qed

lemma shutdown_ordered_witness:
  "prefix (main_actions (fold (shutdown_step (shutdown_options_of None (Some 20000)))
      [Signal_Received, Signal_Received, Delay_Over, Signal_Received, Stop_Settled None, On_Stopped_Settled None, Deadline_Over]
      shutdown_init)) (shutdown_sequence (shutdown_options_of None (Some 20000)))"
  using shutdown_ordered [OF refl, of "shutdown_options_of None (Some 20000)"
      "[Signal_Received, Signal_Received, Delay_Over, Signal_Received, Stop_Settled None, On_Stopped_Settled None, Deadline_Over]"]
  by blast

end
