(* ===== verification/Process.thy ===== *)
theory Process
  imports Config Shutdown
begin

text \<open>
  A service as a process (\<^verbatim>\<open>apis/*/src/index.ts\<close>, \<^verbatim>\<open>apis/*/src/otel/instrument.ts\<close>): what starting it does,
  and what it does with the signals, errors, timers and settled promises it receives afterwards. The graceful
  shutdown is the machine of \<^verbatim>\<open>createShutdownHandler\<close>, the telemetry the one of
  \<^verbatim>\<open>OpenTelemetryService\<close>; here they run in one process, beside the handlers of a crash. The platform, the
  container and the Swagger models are the framework's: their outcomes are parameters. A promise nobody handles
  is what Node makes of it, an \<open>unhandledRejection\<close>. What Node does with a
  signal nobody listens to is left out. An error is read with \<open>message_of\<close>; a thrown
  \<open>undefined\<close> or \<open>null\<close>, which has no \<open>message\<close> to read, is outside the model.
\<close>

subsection \<open>State\<close>

definition SIG_EVENTS :: "string list" where
  "SIG_EVENTS = [''SIGHUP'', ''SIGINT'', ''SIGQUIT'', ''SIGUSR1'', ''SIGUSR2'', ''SIGTERM'']"

definition CRASH_EVENTS :: "string list" where
  "CRASH_EVENTS = [''uncaughtException'', ''unhandledRejection'']"

definition CRASH_LOG_EVENT :: "string \<Rightarrow> string" where
  "CRASH_LOG_EVENT evt = (if evt = ''uncaughtException'' then ''SERVER_UNCAUGHTEXCEPTION'' else ''SERVER_UNHANDLEDREJECTION'')"

datatype process_listener = Graceful_Shutdown | Crash_Handler

text \<open>A run of the crash handler awaits the platform, then the flush, whose call it names, or it was rejected.\<close>

datatype crash_run = Crash_Stopping | Crash_Flushing nat | Crash_Rejected thrown

datatype process_action =
    Logged string "string option" string
  | Listening
  | Stop_Called
  | Stop_Fulfilled
  | Flush_Called
  | Exited int

record process =
  ps_listeners :: "(string, process_listener) js_map"
  ps_shutdown :: shutdown_state
  ps_flush :: "nat option"
  ps_crashes :: "crash_run list"
  ps_otel :: otel_service
  ps_exit :: "int option"
  ps_trace :: "process_action list"

definition new_process :: "otel_service \<Rightarrow> process" where
  "new_process otel = \<lparr>ps_listeners = [], ps_shutdown = shutdown_init, ps_flush = None, ps_crashes = [],
     ps_otel = otel, ps_exit = None, ps_trace = []\<rparr>"

fun message_of :: "thrown \<Rightarrow> string option" where
  "message_of (ThrownValue _) = None"
| "message_of e = Some (error_text e)"

definition acts :: "process_action list \<Rightarrow> process \<Rightarrow> process" where
  "acts xs st = st\<lparr>ps_trace := ps_trace st @ xs\<rparr>"

definition process_exit :: "int \<Rightarrow> process \<Rightarrow> process" where
  "process_exit code st = acts [Exited code] (st\<lparr>ps_exit := Some code\<rparr>)"

definition process_on :: "process_listener \<Rightarrow> string \<Rightarrow> process \<Rightarrow> process" where
  "process_on l evt st = st\<lparr>ps_listeners := ps_listeners st @ [(evt, l)]\<rparr>"

subsection \<open>Start-up\<close>

text \<open>What the container hands out of the configuration, with the parts the start-up reads.\<close>

record ('c, 'm) service_config =
  sv_config :: 'c
  sv_service :: string
  sv_version :: string
  sv_description :: "string option"
  sv_publicURL :: "string option"
  sv_server :: "(string, json) js_map"
  sv_mongodb :: "'m option"
  sv_auth :: auth_config

record swagger_config =
  sw_title :: string
  sw_version :: string
  sw_description :: "string option"
  sw_documents :: "(string \<times> string list) list"
  sw_serverUrl :: "string option"

record ('c, 'm, 'w) server_configuration =
  srv_server :: "(string, json) js_map"
  srv_api :: "('c, 'm) service_config"
  srv_swagger :: 'w
  srv_mongoose :: "(string \<times> 'm) list option"

record ('c, 'm, 'w) boot_env =
  be_config :: "thrown + ('c, 'm) service_config"
  be_swagger :: "swagger_config \<Rightarrow> thrown + 'w"
  be_isEnabled :: "'m option \<Rightarrow> bool"
  be_bootstrap :: "('c, 'm, 'w) server_configuration \<Rightarrow> thrown option"
  be_listen :: "thrown option"

definition BEARER_JWT :: string where "BEARER_JWT = ''BEARER_JWT''"

definition swagger_of :: "string list \<Rightarrow> ('c, 'm) service_config \<Rightarrow> swagger_config" where
  "swagger_of docs config =
     \<lparr>sw_title = sv_service config, sw_version = sv_version config, sw_description = sv_description config,
      sw_documents = map (\<lambda>doc. (doc, [BEARER_JWT])) docs, sw_serverUrl = sv_publicURL config\<rparr>"

definition mongoose_of :: "('m option \<Rightarrow> bool) \<Rightarrow> 'm option \<Rightarrow> (string \<times> 'm) list option" where
  "mongoose_of isEnabled mongodb =
     (if isEnabled mongodb then map_option (\<lambda>m. [(''default'', m)]) mongodb else None)"

definition configuration_of ::
  "('c, 'm, 'w) boot_env \<Rightarrow> bool \<Rightarrow> ('c, 'm) service_config \<Rightarrow> 'w \<Rightarrow> ('c, 'm, 'w) server_configuration" where
  "configuration_of env with_mongo config swagger =
     \<lparr>srv_server = sv_server config, srv_api = config, srv_swagger = swagger,
      srv_mongoose = (if with_mongo then mongoose_of (be_isEnabled env) (sv_mongodb config) else None)\<rparr>"

definition raised :: "thrown option \<Rightarrow> (unit, 's) effect" where
  "raised r = (case r of Some e \<Rightarrow> throwing e | None \<Rightarrow> returning ())"

text \<open>The listeners are registered last, in the order of the two lists.\<close>

definition register_listeners :: "process \<Rightarrow> process" where
  "register_listeners st = fold (process_on Crash_Handler) CRASH_EVENTS (fold (process_on Graceful_Shutdown) SIG_EVENTS st)"

definition start_service :: "string list \<Rightarrow> bool \<Rightarrow> ('c, 'm, 'w) boot_env \<Rightarrow> (unit, process) effect" where
  "start_service docs with_mongo env =
     and_then (lifted (be_config env)) (\<lambda>config.
     and_then (lifted (be_swagger env (swagger_of docs config))) (\<lambda>swagger.
     and_then (raised (be_bootstrap env (configuration_of env with_mongo config swagger))) (\<lambda>_.
     and_then (raised (be_listen env)) (\<lambda>_.
     doing (\<lambda>st.
       let auth = describeAuthConfig (sv_auth config)
       in register_listeners (acts [Listening, Logged (as_level auth) (Some (as_message auth)) ''AUTH_CONFIG''] st))))))"

definition main :: "string list \<Rightarrow> bool \<Rightarrow> ('c, 'm, 'w) boot_env \<Rightarrow> process \<Rightarrow> process" where
  "main docs with_mongo env st =
     snd (catching (start_service docs with_mongo env) (\<lambda>error.
       (doing (\<lambda>st. process_exit 1 (acts [Logged ''error'' (Some ''Bootstrap failed.'') ''''] st)) :: (unit, process) effect)) st)"

definition miot_bridge_main :: "('c, 'm, 'w) boot_env \<Rightarrow> process \<Rightarrow> process" where
  "miot_bridge_main = main [''api'', ''commands''] True"

definition qr_manager_main :: "('c, 'm, 'w) boot_env \<Rightarrow> process \<Rightarrow> process" where
  "qr_manager_main = main [''api''] True"

definition map_feeder_main :: "('c, 'm, 'w) boot_env \<Rightarrow> process \<Rightarrow> process" where
  "map_feeder_main = main [''v1''] False"

text \<open>
  \<^verbatim>\<open>instrument.ts\<close>, loaded before the entrypoint: the telemetry service the entrypoint will find. When it throws
  the entrypoint is never loaded.
\<close>

definition instrument :: "otel_env \<Rightarrow> string list option \<Rightarrow> thrown + ('c, 'm) service_config \<times> otel_config option
    \<Rightarrow> thrown + otel_service" where
  "instrument env extra config = (case config of
       Inl e \<Rightarrow> Inl e
     | Inr (service, otel) \<Rightarrow>
         (case otel_init env \<lparr>oo_otel = otel, oo_service = sv_service service, oo_version = sv_version service,
                 oo_extra = extra\<rparr> OpenTelemetryService of
            (Inl e, _) \<Rightarrow> Inl e
          | (Inr _, s) \<Rightarrow> Inr s))"

definition bridge_instrument :: "otel_env \<Rightarrow> thrown + ('c, 'm) service_config \<times> otel_config option \<Rightarrow> thrown + otel_service" where
  "bridge_instrument env config = instrument env (Some [''MongooseInstrumentation'']) config"

definition qr_instrument :: "otel_env \<Rightarrow> thrown + ('c, 'm) service_config \<times> otel_config option \<Rightarrow> thrown + otel_service" where
  "qr_instrument env config = instrument env (Some [''MongooseInstrumentation'']) config"

definition feeder_instrument :: "otel_env \<Rightarrow> thrown + ('c, 'm) service_config \<times> otel_config option \<Rightarrow> thrown + otel_service" where
  "feeder_instrument env config = instrument env None config"

subsection \<open>Life\<close>

text \<open>\<open>drainDelayMs\<close> is left at its default, the deadline is set.\<close>

definition service_shutdown_options :: shutdown_options where
  "service_shutdown_options = shutdown_options_of None (Some 10000)"

lemma service_options [simp]:
  "so_drainDelayMs service_shutdown_options = 5000" "so_hardDeadlineMs service_shutdown_options = 10000"
  "so_onShutdown service_shutdown_options stage = None" "so_inject service_shutdown_options = None"
  by (simp_all add: service_shutdown_options_def shutdown_options_of_def DEFAULT_DRAIN_DELAY_MS_def with_default_def)

text \<open>One run of \<^verbatim>\<open>async (error) => { ... }\<close> up to its first \<^verbatim>\<open>await\<close>.\<close>

definition crash :: "string \<Rightarrow> thrown \<Rightarrow> process \<Rightarrow> process" where
  "crash evt e st = acts [Logged ''error'' (message_of e) (CRASH_LOG_EVENT evt), Stop_Called]
     (st\<lparr>ps_crashes := ps_crashes st @ [Crash_Stopping]\<rparr>)"

definition emitted :: "string \<Rightarrow> thrown \<Rightarrow> process \<Rightarrow> process" where
  "emitted evt e st = (if map_of (ps_listeners st) evt = Some Crash_Handler then crash evt e st else process_exit 1 st)"

definition unhandled :: "thrown \<Rightarrow> process \<Rightarrow> process" where
  "unhandled e st = emitted ''unhandledRejection'' e st"

text \<open>\<open>openTelemetry.shutdown()\<close>, with its default time.\<close>

definition flush :: "process \<Rightarrow> process" where
  "flush st = acts [Flush_Called] (st\<lparr>ps_otel := otel_shutdown None (ps_otel st)\<rparr>)"

definition next_flush_call :: "process \<Rightarrow> nat" where
  "next_flush_call st = length (ot_calls (ps_otel st))"

definition flushed :: "process \<Rightarrow> nat \<Rightarrow> bool" where
  "flushed st c \<longleftrightarrow> c < length (ot_calls (ps_otel st)) \<and> ot_calls (ps_otel st) ! c = Flush_Returned"

text \<open>What the shutdown handler's actions are in this process.\<close>

fun perform :: "shutdown_action \<Rightarrow> process \<Rightarrow> process" where
  "perform (Announced phase) st = acts [Logged ''info'' (Some (''Server '' @ phase @ ''.'')) ''SERVER_SHUTDOWN''] st"
| "perform Called_Stop st = acts [Stop_Called] st"
| "perform Called_On_Stopped st = flush (st\<lparr>ps_flush := Some (next_flush_call st)\<rparr>)"
| "perform Hard_Deadline st = process_exit 1
     (acts [Logged ''error'' (Some ''Shutdown exceeded its hard deadline, exiting.'') ''SERVER_SHUTDOWN_TIMEOUT''] st)"
| "perform Began_Drain st = st"
| "perform (Waiting ms) st = st"

text \<open>
  One event of the shutdown handler: its new actions are performed, and when it ends with an error its promise,
  which nobody awaits, is rejected.
\<close>

definition run_shutdown :: "shutdown_event \<Rightarrow> process \<Rightarrow> process" where
  "run_shutdown ev st =
     (let sd = ps_shutdown st; sd' = shutdown_step service_shutdown_options ev sd;
          st' = fold perform (drop (length (sd_trace sd)) (sd_trace sd')) (st\<lparr>ps_shutdown := sd'\<rparr>)
      in if sd_phase sd' \<noteq> sd_phase sd
         then (case sd_phase sd' of Ended (Some e) \<Rightarrow> unhandled e st' | _ \<Rightarrow> st')
         else st')"

datatype process_event =
    Signal string
  | Drain_Elapsed
  | Deadline_Elapsed
  | Shutdown_Stop_Settled "thrown option"
  | Raised string thrown
  | Crash_Stop_Settled nat "thrown option"
  | Sdk_Shutdown_Settled nat "thrown option"
  | Flush_Time_Over nat

text \<open>A settled call of the flush lets the shutdown handler that awaits it go on.\<close>

definition wake :: "process \<Rightarrow> process" where
  "wake st = (case ps_flush st of
       Some c \<Rightarrow> if flushed st c then run_shutdown (On_Stopped_Settled None) st else st
     | None \<Rightarrow> st)"

definition fulfilled :: "thrown option \<Rightarrow> process \<Rightarrow> process" where
  "fulfilled r st = (if r = None then acts [Stop_Fulfilled] st else st)"

definition crash_settled :: "nat \<Rightarrow> thrown option \<Rightarrow> process \<Rightarrow> process" where
  "crash_settled i r st =
     (if i < length (ps_crashes st) \<and> ps_crashes st ! i = Crash_Stopping
      then (case r of
          Some e \<Rightarrow> unhandled e (st\<lparr>ps_crashes := (ps_crashes st)[i := Crash_Rejected e]\<rparr>)
        | None \<Rightarrow> flush (fulfilled None (st\<lparr>ps_crashes := (ps_crashes st)[i := Crash_Flushing (next_flush_call st)]\<rparr>)))
      else st)"

definition shutdown_settled :: "thrown option \<Rightarrow> process \<Rightarrow> process" where
  "shutdown_settled r st =
     (if sd_phase (ps_shutdown st) = Stopping then wake (run_shutdown (Stop_Settled r) (fulfilled r st)) else st)"

fun process_event_step :: "otel_env \<Rightarrow> process_event \<Rightarrow> process \<Rightarrow> process" where
  "process_event_step env (Signal s) st =
     (if map_of (ps_listeners st) s = Some Graceful_Shutdown then run_shutdown Signal_Received st else st)"
| "process_event_step env Drain_Elapsed st = run_shutdown Delay_Over st"
| "process_event_step env Deadline_Elapsed st = run_shutdown Deadline_Over st"
| "process_event_step env (Shutdown_Stop_Settled r) st = shutdown_settled r st"
| "process_event_step env (Raised evt e) st = (if evt \<in> set CRASH_EVENTS then emitted evt e st else st)"
| "process_event_step env (Crash_Stop_Settled i r) st = crash_settled i r st"
| "process_event_step env (Sdk_Shutdown_Settled i r) st = wake (st\<lparr>ps_otel := otel_step env (Sdk_Settled i r) (ps_otel st)\<rparr>)"
| "process_event_step env (Flush_Time_Over c) st = wake (st\<lparr>ps_otel := otel_step env (Flush_Timer c) (ps_otel st)\<rparr>)"

text \<open>Nothing happens in a process that has exited.\<close>

definition process_step :: "otel_env \<Rightarrow> process_event \<Rightarrow> process \<Rightarrow> process" where
  "process_step env ev st = (if ps_exit st = None then process_event_step env ev st else st)"

inductive reachable :: "otel_env \<Rightarrow> process \<Rightarrow> process \<Rightarrow> bool" for env st0 where
  reached_start: "reachable env st0 st0"
| reached_step: "reachable env st0 st \<Longrightarrow> reachable env st0 (process_step env ev st)"

subsection \<open>A started service\<close>

text \<open>Start-up either listens with every listener registered, or exits with status 1 having registered none.\<close>

lemma acts_simps [simp]:
  "ps_listeners (acts xs st) = ps_listeners st" "ps_shutdown (acts xs st) = ps_shutdown st" "ps_flush (acts xs st) = ps_flush st"
  "ps_crashes (acts xs st) = ps_crashes st" "ps_otel (acts xs st) = ps_otel st" "ps_exit (acts xs st) = ps_exit st"
  "ps_trace (acts xs st) = ps_trace st @ xs"
  by (simp_all add: acts_def)

lemma process_exit_simps [simp]:
  "ps_listeners (process_exit n st) = ps_listeners st" "ps_shutdown (process_exit n st) = ps_shutdown st"
  "ps_flush (process_exit n st) = ps_flush st" "ps_crashes (process_exit n st) = ps_crashes st"
  "ps_otel (process_exit n st) = ps_otel st" "ps_exit (process_exit n st) = Some n"
  "ps_trace (process_exit n st) = ps_trace st @ [Exited n]"
  by (simp_all add: process_exit_def)

definition all_listeners :: "(string, process_listener) js_map" where
  "all_listeners = map (\<lambda>s. (s, Graceful_Shutdown)) SIG_EVENTS @ map (\<lambda>s. (s, Crash_Handler)) CRASH_EVENTS"

lemma fold_process_on: "fold (process_on l) evts st = st\<lparr>ps_listeners := ps_listeners st @ map (\<lambda>s. (s, l)) evts\<rparr>"
  by (induction evts arbitrary: st) (simp_all add: process_on_def)

lemma register_listeners_eq: "register_listeners st = st\<lparr>ps_listeners := ps_listeners st @ all_listeners\<rparr>"
  by (simp add: register_listeners_def fold_process_on all_listeners_def)

lemma listener_of [simp]:
  "s \<in> set SIG_EVENTS \<Longrightarrow> map_of all_listeners s = Some Graceful_Shutdown"
  "evt \<in> set CRASH_EVENTS \<Longrightarrow> map_of all_listeners evt = Some Crash_Handler"
  by (auto simp: all_listeners_def SIG_EVENTS_def CRASH_EVENTS_def)

definition booted :: "otel_service \<Rightarrow> process \<Rightarrow> bool" where
  "booted otel st \<longleftrightarrow> (\<exists>level message. st = (new_process otel)\<lparr>
     ps_trace := [Listening, Logged level (Some message) ''AUTH_CONFIG''], ps_listeners := all_listeners\<rparr>)"

definition not_booted :: "otel_service \<Rightarrow> process \<Rightarrow> bool" where
  "not_booted otel st \<longleftrightarrow> st = (new_process otel)\<lparr>ps_exit := Some 1,
     ps_trace := [Logged ''error'' (Some ''Bootstrap failed.'') '''', Exited 1]\<rparr>"

theorem main_boots_or_exits:
  "booted otel (main docs with_mongo env (new_process otel)) \<or> not_booted otel (main docs with_mongo env (new_process otel))"
proof -
  have new: "ps_listeners (new_process otel) = []" "ps_trace (new_process otel) = []" by (simp_all add: new_process_def)
  show ?thesis
  proof (cases "start_service docs with_mongo env (new_process otel)")
    case (Pair r st)
    show ?thesis
    proof (cases r)
      case (Inl e)
      with Pair have "st = new_process otel"
        by (auto simp: start_service_def and_then_Inl lifted_def raised_def throwing_def returning_def doing_def
            split: sum.splits option.splits)
      with Pair Inl have "not_booted otel (main docs with_mongo env (new_process otel))"
        by (simp add: main_def catching_def doing_def not_booted_def process_exit_def acts_def new)
      then show ?thesis ..
    next
      case (Inr u)
      with Pair have "booted otel st"
        by (auto simp: start_service_def and_then_Inr lifted_def raised_def throwing_def returning_def doing_def
            register_listeners_eq acts_def booted_def new Let_def split: sum.splits option.splits)
      with Pair Inr show ?thesis by (simp add: main_def catching_def)
    qed
  qed
qed

subsection \<open>Telemetry outlives the platform\<close>

text \<open>What the shutdown of telemetry is about: the SDK, the SDKs that were shut down, and whether the platform has stopped.\<close>

definition telemetry_view :: "process \<Rightarrow> nat option \<times> nat list \<times> bool" where
  "telemetry_view st = (ot_sdk (ps_otel st), ot_shutdowns (ps_otel st), Stop_Fulfilled \<in> set (ps_trace st))"

lemma view_acts [simp]: "Stop_Fulfilled \<notin> set xs \<Longrightarrow> telemetry_view (acts xs st) = telemetry_view st"
  and view_exit [simp]: "telemetry_view (process_exit n st) = telemetry_view st"
  by (simp_all add: telemetry_view_def)

lemma view_update [simp]:
  "telemetry_view (st\<lparr>ps_shutdown := sd\<rparr>) = telemetry_view st"
  "telemetry_view (st\<lparr>ps_crashes := cs\<rparr>) = telemetry_view st"
  "telemetry_view (st\<lparr>ps_flush := f\<rparr>) = telemetry_view st"
  by (simp_all add: telemetry_view_def)

lemma view_emitted [simp]: "telemetry_view (emitted evt e st) = telemetry_view st"
  and view_unhandled [simp]: "telemetry_view (unhandled e st) = telemetry_view st"
  by (simp_all add: emitted_def unhandled_def crash_def)

lemma view_perform: "a \<noteq> Called_On_Stopped \<Longrightarrow> telemetry_view (perform a st) = telemetry_view st"
  by (cases a) simp_all

lemma view_performs: "Called_On_Stopped \<notin> set as \<Longrightarrow> telemetry_view (fold perform as st) = telemetry_view st"
  by (induction as arbitrary: st) (auto simp: view_perform)

definition new_actions :: "shutdown_event \<Rightarrow> shutdown_state \<Rightarrow> shutdown_action list" where
  "new_actions ev sd = drop (length (sd_trace sd)) (sd_trace (shutdown_step service_shutdown_options ev sd))"

lemma new_actions_flush:
  "Called_On_Stopped \<in> set (new_actions ev sd) \<Longrightarrow> ev = Stop_Settled None \<and> sd_phase sd = Stopping"
  by (cases ev) (auto simp: new_actions_def shutdown_defs Let_def
      split: if_splits option.splits)

lemma run_shutdown_eq:
  "run_shutdown ev st =
     (let sd' = shutdown_step service_shutdown_options ev (ps_shutdown st);
          st' = fold perform (new_actions ev (ps_shutdown st)) (st\<lparr>ps_shutdown := sd'\<rparr>)
      in if sd_phase sd' \<noteq> sd_phase (ps_shutdown st)
         then (case sd_phase sd' of Ended (Some e) \<Rightarrow> unhandled e st' | _ \<Rightarrow> st')
         else st')"
  by (simp add: run_shutdown_def new_actions_def Let_def)

lemma view_run_shutdown:
  assumes "\<not> (ev = Stop_Settled None \<and> sd_phase (ps_shutdown st) = Stopping)"
  shows "telemetry_view (run_shutdown ev st) = telemetry_view st"
proof -
  have "Called_On_Stopped \<notin> set (new_actions ev (ps_shutdown st))" using new_actions_flush assms by blast
  then show ?thesis by (auto simp: run_shutdown_eq Let_def view_performs split: shutdown_phase.splits option.splits)
qed

lemma view_wake [simp]: "telemetry_view (wake st) = telemetry_view st"
  by (simp add: wake_def view_run_shutdown split: option.splits)

text \<open>A flush takes the SDK away exactly when there is one.\<close>

definition flushed_view :: "nat option \<times> nat list \<times> bool \<Rightarrow> nat option \<times> nat list \<times> bool" where
  "flushed_view v = (case v of (sdk, downs, _) \<Rightarrow> (None, downs @ (case sdk of None \<Rightarrow> [] | Some i \<Rightarrow> [i]), True))"

lemma view_flush:
  "Stop_Fulfilled \<in> set (ps_trace st) \<Longrightarrow> telemetry_view (flush st) = flushed_view (telemetry_view st)"
  by (auto simp: flush_def otel_shutdown_def telemetry_view_def flushed_view_def Let_def split: option.splits)

lemma flushed_fulfilled [simp]: "flushed_view (telemetry_view (fulfilled r st)) = flushed_view (telemetry_view st)"
  by (auto simp: fulfilled_def telemetry_view_def flushed_view_def)

lemma fulfilled_simps [simp]:
  "Stop_Fulfilled \<in> set (ps_trace (fulfilled None st))" "ps_shutdown (fulfilled r st) = ps_shutdown st"
  "fulfilled (Some e) st = st"
  by (simp_all add: fulfilled_def)

lemma run_shutdown_stopped:
  assumes "sd_phase (ps_shutdown st) = Stopping"
  shows "run_shutdown (Stop_Settled None) st =
    flush ((acts [Logged ''info'' (Some ''Server stopped.'') ''SERVER_SHUTDOWN'']
      (st\<lparr>ps_shutdown := shutdown_step service_shutdown_options (Stop_Settled None) (ps_shutdown st)\<rparr>))
        \<lparr>ps_flush := Some (next_flush_call st)\<rparr>)"
  using assms by (simp add: run_shutdown_def shutdown_defs Let_def acts_def next_flush_call_def)

lemma view_shutdown_settled:
  "telemetry_view (shutdown_settled r st) = telemetry_view st
   \<or> telemetry_view (shutdown_settled r st) = flushed_view (telemetry_view st)"
proof (cases "sd_phase (ps_shutdown st) = Stopping")
  case True
  show ?thesis
  proof (cases r)
    case None
    with True show ?thesis by (simp add: shutdown_settled_def run_shutdown_stopped view_flush)
  next
    case (Some e)
    with True show ?thesis by (simp add: shutdown_settled_def view_run_shutdown)
  qed
qed (simp add: shutdown_settled_def)

lemma view_crash_settled:
  "telemetry_view (crash_settled i r st) = telemetry_view st
   \<or> telemetry_view (crash_settled i r st) = flushed_view (telemetry_view st)"
  by (simp add: crash_settled_def view_flush split: option.splits)

lemma view_step:
  "telemetry_view (process_step env ev st) = telemetry_view st
   \<or> telemetry_view (process_step env ev st) = flushed_view (telemetry_view st)"
proof -
  have otel: "telemetry_view (st\<lparr>ps_otel := otel_step env (Sdk_Settled i r) (ps_otel st)\<rparr>) = telemetry_view st"
    "telemetry_view (st\<lparr>ps_otel := otel_step env (Flush_Timer c) (ps_otel st)\<rparr>) = telemetry_view st" for i r c
    by (simp_all add: telemetry_view_def)
  show ?thesis
    by (cases ev) (simp_all add: process_step_def view_run_shutdown view_shutdown_settled view_crash_settled otel del: otel_step.simps)
qed

lemma view_reachable:
  assumes "reachable env st0 st" and "telemetry_view st0 = (sdk, [], False)"
  shows "telemetry_view st = (sdk, [], False) \<or> telemetry_view st = flushed_view (sdk, [], False)"
  using assms
proof (induction rule: reachable.induct)
  case (reached_step st ev)
  then have "telemetry_view st = (sdk, [], False) \<or> telemetry_view st = flushed_view (sdk, [], False)" by simp
  with view_step [of env ev st] show ?case by (auto simp: flushed_view_def)
qed simp

lemma instrument_view:
  assumes "instrument oenv extra config = Inr otel"
  shows "ot_shutdowns otel = []"
proof -
  obtain options r where run: "otel_init oenv options OpenTelemetryService = (r, otel)"
    using assms by (auto simp: instrument_def split: sum.splits prod.splits)
  from otel_init_shutdowns [of oenv options OpenTelemetryService]
  show ?thesis unfolding run by (simp add: OpenTelemetryService_def)
qed

text \<open>
  Property C26. Whatever a started process receives, in whatever order, the telemetry SDK that was running when the
  entrypoint was loaded keeps running until some stop of the platform has been fulfilled, and from then on it
  has been shut down exactly once: by the graceful shutdown or by a crash, never by both and never during the drain.
\<close>

theorem telemetry_outlives_platform:
  assumes "instrument oenv extra config = Inr otel"
    and "reachable oenv (main docs with_mongo benv (new_process otel)) st"
  shows "(ot_sdk (ps_otel st), ot_shutdowns (ps_otel st)) =
    (if Stop_Fulfilled \<in> set (ps_trace st) then (None, case ot_sdk otel of None \<Rightarrow> [] | Some i \<Rightarrow> [i])
     else (ot_sdk otel, []))"
proof -
  have start: "telemetry_view (main docs with_mongo benv (new_process otel)) = (ot_sdk otel, [], False)"
    using main_boots_or_exits [of otel docs with_mongo benv] instrument_view [OF assms(1)]
    by (auto simp: booted_def not_booted_def telemetry_view_def new_process_def)
  from view_reachable [OF assms(2) start] show ?thesis
    by (auto simp: telemetry_view_def flushed_view_def)
qed

definition sample_service :: "(unit, unit) service_config" where
  "sample_service = \<lparr>sv_config = (), sv_service = ''bridge'', sv_version = ''1'', sv_description = None,
     sv_publicURL = None, sv_server = [], sv_mongodb = None, sv_auth = [(AuthMethod_Idp, Bearer_Jwt [sample_issuer])]\<rparr>"

definition sample_boot_env :: "(unit, unit, unit) boot_env" where
  "sample_boot_env = \<lparr>be_config = Inr sample_service, be_swagger = \<lambda>_. Inr (), be_isEnabled = \<lambda>_. False,
     be_bootstrap = \<lambda>_. None, be_listen = None\<rparr>"

definition sample_otel_env :: otel_env where
  "sample_otel_env = \<lparr>ox_isEnabled = (\<lambda>c. case c of Some s \<Rightarrow> sg_enabled s = Some True | None \<Rightarrow> False), ox_start = \<lambda>_. None\<rparr>"

definition sample_otel_config :: otel_config where
  "sample_otel_config = \<lparr>oc_debug = None, oc_traces = Some \<lparr>sg_enabled = Some True, sg_exporter = Some ''http://otlp''\<rparr>,
     oc_metrics = None, oc_logs = None\<rparr>"

lemma sample_instrument:
  "\<exists>otel. instrument sample_otel_env None (Inr (sample_service, Some sample_otel_config)) = Inr otel \<and> ot_sdk otel = Some 0"
  by (simp add: instrument_def otel_init_def OpenTelemetryService_def otel_isEnabled_def sample_otel_env_def
      sample_otel_config_def initDebug_def registerInstrumentationHook_def initSDK_def new_node_sdk_def
      getTraceExporter_def getMetricReaders_def getLoggerProcessors_def exporter_url_def lifted_def Let_def)

lemma main_boots:
  assumes "be_config env = Inr config" and "be_swagger env (swagger_of docs config) = Inr swagger"
    and "be_bootstrap env (configuration_of env with_mongo config swagger) = None" and "be_listen env = None"
  shows "booted otel (main docs with_mongo env (new_process otel))"
proof -
  have "ps_exit (main docs with_mongo env (new_process otel)) = None"
    using assms by (simp add: main_def start_service_def catching_def and_then_def lifted_def raised_def throwing_def
        returning_def doing_def register_listeners_eq Let_def) (simp add: new_process_def)
  then show ?thesis using main_boots_or_exits [of otel docs with_mongo env] by (auto simp: not_booted_def)
qed

lemma sample_booted: "booted otel (main [''api''] True sample_boot_env (new_process otel))"
  by (rule main_boots) (simp_all add: sample_boot_env_def)

lemma bootedE:
  assumes "booted otel st"
  obtains level message where "ps_listeners st = all_listeners" "ps_trace st = [Listening, Logged level (Some message) ''AUTH_CONFIG'']"
    "ps_shutdown st = shutdown_init" "ps_otel st = otel" "ps_exit st = None" "ps_crashes st = []" "ps_flush st = None"
  using assms by (auto simp: booted_def new_process_def)

lemma telemetry_outlives_platform_witness:
  "\<exists>otel st. instrument sample_otel_env None (Inr (sample_service, Some sample_otel_config)) = Inr otel
    \<and> ot_sdk otel = Some 0 \<and> st = main [''api''] True sample_boot_env (new_process otel)
    \<and> (ot_sdk (ps_otel st), ot_shutdowns (ps_otel st)) = (Some 0, [])"
proof -
  obtain otel where otel: "instrument sample_otel_env None (Inr (sample_service, Some sample_otel_config)) = Inr otel" "ot_sdk otel = Some 0"
    using sample_instrument by auto
  have "Stop_Fulfilled \<notin> set (ps_trace (main [''api''] True sample_boot_env (new_process otel)))"
    using sample_booted [of otel] by (auto elim!: bootedE)
  with telemetry_outlives_platform [OF otel(1) reached_start, of "[''api'']" True sample_boot_env] otel show ?thesis by auto
qed

subsection \<open>A stop that is rejected\<close>

text \<open>A crash handler whose \<open>platform.stop()\<close> is rejected, over and over.\<close>

definition stop_calls :: "process \<Rightarrow> nat" where
  "stop_calls st = length (filter (\<lambda>a. a = Stop_Called) (ps_trace st))"

definition crashing :: "thrown \<Rightarrow> nat \<Rightarrow> process \<Rightarrow> bool" where
  "crashing e n st \<longleftrightarrow> ps_listeners st = all_listeners \<and> ps_exit st = None
     \<and> ps_crashes st = replicate n (Crash_Rejected e) @ [Crash_Stopping]
     \<and> sd_phase (ps_shutdown st) = Ended (Some e) \<and> \<not> sd_deadline (ps_shutdown st)
     \<and> stop_calls st = n + 2 \<and> Flush_Called \<notin> set (ps_trace st)"

lemma all_listeners_crash [simp]: "map_of all_listeners ''unhandledRejection'' = Some Crash_Handler"
  by (simp add: CRASH_EVENTS_def)

lemma crashing_again:
  assumes "crashing e n st"
  shows "crashing e (Suc n) (process_step env (Crash_Stop_Settled n (Some e)) st)"
  using assms
  by (simp add: crashing_def process_step_def crash_settled_def unhandled_def emitted_def crash_def stop_calls_def
      nth_append list_update_append replicate_append_same)

lemma crashing_deadline: "crashing e n st \<Longrightarrow> process_step env Deadline_Elapsed st = st"
  by (simp add: crashing_def process_step_def run_shutdown_def shutdown_step_def Let_def)

text \<open>A process whose shutdown handler is in a phase, before any crash or flush.\<close>

definition shutting_down :: "shutdown_phase \<Rightarrow> nat \<Rightarrow> process \<Rightarrow> bool" where
  "shutting_down phase n st \<longleftrightarrow> ps_listeners st = all_listeners \<and> ps_exit st = None \<and> ps_crashes st = []
     \<and> ps_flush st = None \<and> sd_phase (ps_shutdown st) = phase \<and> stop_calls st = n \<and> Flush_Called \<notin> set (ps_trace st)"

lemma signal_drains:
  "booted otel st \<Longrightarrow> s \<in> set SIG_EVENTS \<Longrightarrow> shutting_down Draining 0 (process_step env (Signal s) st)"
  by (erule bootedE) (simp add: shutting_down_def process_step_def run_shutdown_def shutdown_defs shutdown_init_def Let_def stop_calls_def)

lemma drained_stops: "shutting_down Draining n st \<Longrightarrow> shutting_down Stopping (Suc n) (process_step env Drain_Elapsed st)"
  by (simp add: shutting_down_def process_step_def run_shutdown_def shutdown_defs Let_def
      stop_calls_def)

lemma rejected_crashes:
  "shutting_down Stopping 1 st \<Longrightarrow> crashing e 0 (process_step env (Shutdown_Stop_Settled (Some e)) st)"
  by (simp add: shutting_down_def process_step_def run_shutdown_def shutdown_defs Let_def shutdown_settled_def
      unhandled_def emitted_def crash_def stop_calls_def wake_def crashing_def)

lemma crashing_begins:
  assumes "booted otel st" and "s \<in> set SIG_EVENTS"
  shows "crashing e 0 (fold (process_step env) [Signal s, Drain_Elapsed, Shutdown_Stop_Settled (Some e)] st)"
  using rejected_crashes [of "process_step env Drain_Elapsed (process_step env (Signal s) st)" e env]
    drained_stops [OF signal_drains [OF assms, of env], of env] by simp

lemma crashing_on:
  "crashing e m st \<Longrightarrow> crashing e (m + n) (fold (process_step env) (map (\<lambda>i. Crash_Stop_Settled i (Some e)) [m..<m + n]) st)"
  by (induction n) (simp_all add: crashing_again)

text \<open>
  Property C27. When a started service is told to terminate and \<open>platform.stop()\<close> is rejected, the shutdown handler takes its
  own deadline down and its rejection reaches the crash handler, which calls \<open>platform.stop()\<close> again. As long as
  that is rejected too, each rejection starts the handler once more: after \<open>n\<close> of them the platform was stopped
  \<open>n + 2\<close> times, telemetry was never flushed, the process has not exited, and the deadline no longer does anything.
\<close>

theorem rejected_stop_repeats:
  assumes "booted otel st" and "s \<in> set SIG_EVENTS"
    and "st' = fold (process_step env) ([Signal s, Drain_Elapsed, Shutdown_Stop_Settled (Some e)]
      @ map (\<lambda>i. Crash_Stop_Settled i (Some e)) [0..<n]) st"
  shows "stop_calls st' = n + 2 \<and> Flush_Called \<notin> set (ps_trace st') \<and> ps_exit st' = None
    \<and> process_step env Deadline_Elapsed st' = st'"
proof -
  have "crashing e (0 + n) st'"
    unfolding assms(3) fold_append o_def add_0
    using crashing_on [OF crashing_begins [OF assms(1,2)], of e n env] by simp
  then show ?thesis using crashing_deadline by (simp add: crashing_def)
qed

lemma rejected_stop_repeats_witness:
  "stop_calls (fold (process_step sample_otel_env) ([Signal ''SIGTERM'', Drain_Elapsed, Shutdown_Stop_Settled (Some (PlainError ''busy''))]
      @ map (\<lambda>i. Crash_Stop_Settled i (Some (PlainError ''busy''))) [0..<3])
      (main [''api''] True sample_boot_env (new_process OpenTelemetryService))) = 5"
  using rejected_stop_repeats [OF sample_booted _ refl, of "''SIGTERM''" sample_otel_env "PlainError ''busy''" 3]
  by (simp add: SIG_EVENTS_def)

subsection \<open>The flush ends\<close>

text \<open>
  While the shutdown handler awaits the flush, the call it awaits is one of the calls of the service. The
  calls only grow, so whatever else happens the one it awaits stays.
\<close>

definition flush_awaited :: "process \<Rightarrow> bool" where
  "flush_awaited st \<longleftrightarrow> (sd_phase (ps_shutdown st) = Flushing \<longrightarrow>
     (\<exists>c. ps_flush st = Some c \<and> c < length (ot_calls (ps_otel st))))"

lemma flush_simps [simp]:
  "ps_shutdown (flush st) = ps_shutdown st" "ps_flush (flush st) = ps_flush st" "ps_exit (flush st) = ps_exit st"
  "length (ot_calls (ps_otel (flush st))) = Suc (length (ot_calls (ps_otel st)))"
  by (simp_all add: flush_def otel_shutdown_def Let_def split: option.splits)

lemma emitted_simps [simp]:
  "ps_shutdown (emitted evt e st) = ps_shutdown st" "ps_flush (emitted evt e st) = ps_flush st"
  "ps_otel (emitted evt e st) = ps_otel st" "ps_shutdown (unhandled e st) = ps_shutdown st"
  "ps_flush (unhandled e st) = ps_flush st" "ps_otel (unhandled e st) = ps_otel st"
  by (simp_all add: emitted_def unhandled_def crash_def)

lemma perform_simps [simp]:
  "ps_shutdown (perform a st) = ps_shutdown st"
  "a \<noteq> Called_On_Stopped \<Longrightarrow> ps_flush (perform a st) = ps_flush st"
  "a \<noteq> Called_On_Stopped \<Longrightarrow> ps_otel (perform a st) = ps_otel st"
  by (cases a; simp)+

lemma fold_perform:
  "ps_shutdown (fold perform as st) = ps_shutdown st"
  "Called_On_Stopped \<notin> set as \<Longrightarrow> ps_flush (fold perform as st) = ps_flush st"
  "Called_On_Stopped \<notin> set as \<Longrightarrow> ps_otel (fold perform as st) = ps_otel st"
  by (induction as arbitrary: st) auto

lemma run_shutdown_phase [simp]:
  "ps_shutdown (run_shutdown ev st) = shutdown_step service_shutdown_options ev (ps_shutdown st)"
  by (auto simp: run_shutdown_eq Let_def fold_perform split: shutdown_phase.splits option.splits)

lemma run_shutdown_quiet:
  assumes "\<not> (ev = Stop_Settled None \<and> sd_phase (ps_shutdown st) = Stopping)"
  shows "ps_flush (run_shutdown ev st) = ps_flush st" "ps_otel (run_shutdown ev st) = ps_otel st"
    "sd_phase (shutdown_step service_shutdown_options ev (ps_shutdown st)) = Flushing \<Longrightarrow> sd_phase (ps_shutdown st) = Flushing"
proof -
  have "Called_On_Stopped \<notin> set (new_actions ev (ps_shutdown st))" using new_actions_flush assms by blast
  then show "ps_flush (run_shutdown ev st) = ps_flush st" "ps_otel (run_shutdown ev st) = ps_otel st"
    by (auto simp: run_shutdown_eq Let_def fold_perform split: shutdown_phase.splits option.splits)
  show "sd_phase (ps_shutdown st) = Flushing"
    if "sd_phase (shutdown_step service_shutdown_options ev (ps_shutdown st)) = Flushing"
    using that assms by (cases ev) (auto simp: shutdown_defs Let_def
        split: if_splits option.splits)
qed

lemma awaited_run_shutdown:
  assumes "flush_awaited st"
  shows "flush_awaited (run_shutdown ev st)"
proof (cases "ev = Stop_Settled None \<and> sd_phase (ps_shutdown st) = Stopping")
  case True
  then show ?thesis by (simp add: run_shutdown_stopped flush_awaited_def next_flush_call_def)
next
  case False
  with assms show ?thesis using run_shutdown_quiet [OF False] by (auto simp: flush_awaited_def)
qed

lemma awaited_cong:
  "flush_awaited st \<Longrightarrow> ps_shutdown st' = ps_shutdown st \<Longrightarrow> ps_flush st' = ps_flush st
   \<Longrightarrow> length (ot_calls (ps_otel st)) \<le> length (ot_calls (ps_otel st')) \<Longrightarrow> flush_awaited st'"
  by (auto simp: flush_awaited_def)

lemma awaited_wake: "flush_awaited st \<Longrightarrow> flush_awaited (wake st)"
  by (simp add: wake_def awaited_run_shutdown split: option.splits)

lemma awaited_fulfilled: "flush_awaited st \<Longrightarrow> flush_awaited (fulfilled r st)"
  by (simp add: fulfilled_def flush_awaited_def)

lemma awaited_crash_settled: "flush_awaited st \<Longrightarrow> flush_awaited (crash_settled i r st)"
  by (cases r) (auto simp: crash_settled_def fulfilled_def elim!: awaited_cong)

lemma awaited_step: "flush_awaited st \<Longrightarrow> flush_awaited (process_step env ev st)"
proof -
  assume w: "flush_awaited st"
  have otel: "flush_awaited (st\<lparr>ps_otel := otel_step env (Sdk_Settled i r) (ps_otel st)\<rparr>)"
    "flush_awaited (st\<lparr>ps_otel := otel_step env (Flush_Timer c) (ps_otel st)\<rparr>)" for i r c
    using w by (auto elim!: awaited_cong)
  show ?thesis
    using w by (cases ev) (auto simp: process_step_def shutdown_settled_def awaited_run_shutdown awaited_wake awaited_fulfilled
        awaited_crash_settled otel simp del: otel_step.simps elim: awaited_cong)
qed

text \<open>
  Property C28. A started service whose handler has stopped the platform ends without an error once the time of the flush is
  over, even if the SDK never settles or was taken away by a crash, and the process has not been killed.
\<close>

theorem flush_cannot_hang:
  assumes "reachable env st0 st" and "booted otel st0" and "sd_phase (ps_shutdown st) = Flushing" and "ps_exit st = None"
  shows "\<exists>c. ps_flush st = Some c
    \<and> sd_phase (ps_shutdown (process_step env (Flush_Time_Over c) st)) = Ended None
    \<and> ps_exit (process_step env (Flush_Time_Over c) st) = None"
proof -
  have "flush_awaited st"
    using assms(1,2) by (induction rule: reachable.induct)
      (auto simp: awaited_step, auto elim!: bootedE simp: flush_awaited_def shutdown_init_def)
  then obtain c where c: "ps_flush st = Some c" "c < length (ot_calls (ps_otel st))"
    using assms(3) by (auto simp: flush_awaited_def)
  have "process_step env (Flush_Time_Over c) st
      = run_shutdown (On_Stopped_Settled None) (st\<lparr>ps_otel := otel_step env (Flush_Timer c) (ps_otel st)\<rparr>)"
    using assms(4) c by (simp add: process_step_def wake_def flushed_def)
  then show ?thesis
    using c assms(3,4) by (simp add: shutdown_defs run_shutdown_def Let_def)
qed

lemma fulfilled_flushes:
  assumes "shutting_down Stopping n st" and "ot_sdk (ps_otel st) = Some i"
  shows "sd_phase (ps_shutdown (process_step env (Shutdown_Stop_Settled None) st)) = Flushing
    \<and> ps_exit (process_step env (Shutdown_Stop_Settled None) st) = None"
  using assms by (simp add: shutting_down_def process_step_def shutdown_settled_def run_shutdown_stopped wake_def flushed_def
      next_flush_call_def flush_def otel_shutdown_def Let_def shutdown_defs fulfilled_def)

lemma sdk_until_stopped:
  assumes "telemetry_view st = (sdk, downs, False)" and "\<forall>r. ev \<noteq> Shutdown_Stop_Settled r" and "\<forall>i r. ev \<noteq> Crash_Stop_Settled i r"
  shows "telemetry_view (process_step env ev st) = (sdk, downs, False)"
proof -
  have otel: "telemetry_view (st\<lparr>ps_otel := otel_step env (Sdk_Settled i r) (ps_otel st)\<rparr>) = telemetry_view st"
    "telemetry_view (st\<lparr>ps_otel := otel_step env (Flush_Timer c) (ps_otel st)\<rparr>) = telemetry_view st" for i r c
    by (simp_all add: telemetry_view_def)
  show ?thesis
    using assms by (cases ev) (simp_all add: process_step_def view_run_shutdown otel del: otel_step.simps)
qed

lemma flush_cannot_hang_witness:
  "\<exists>st c. ps_flush st = Some c \<and> sd_phase (ps_shutdown st) = Flushing
    \<and> sd_phase (ps_shutdown (process_step sample_otel_env (Flush_Time_Over c) st)) = Ended None"
proof -
  let ?otel = "OpenTelemetryService\<lparr>ot_sdk := Some 0\<rparr>"
  let ?started = "main [''api''] True sample_boot_env (new_process ?otel)"
  let ?drained = "process_step sample_otel_env (Signal ''SIGTERM'') ?started"
  let ?stopped = "process_step sample_otel_env Drain_Elapsed ?drained"
  let ?settled = "process_step sample_otel_env (Shutdown_Stop_Settled None) ?stopped"
  have booted: "booted ?otel ?started" by (rule sample_booted)
  have stopping: "shutting_down Stopping 1 ?stopped"
    using drained_stops [OF signal_drains [OF booted, of "''SIGTERM''" sample_otel_env], of sample_otel_env] by (simp add: SIG_EVENTS_def)
  have "telemetry_view ?started = (Some 0, [], False)"
    using booted by (auto elim!: bootedE simp: telemetry_view_def OpenTelemetryService_def)
  then have "telemetry_view ?stopped = (Some 0, [], False)" by (intro sdk_until_stopped) simp_all
  then have "ot_sdk (ps_otel ?stopped) = Some 0" by (simp add: telemetry_view_def)
  from fulfilled_flushes [OF stopping this, of sample_otel_env]
  have flushing: "sd_phase (ps_shutdown ?settled) = Flushing" "ps_exit ?settled = None" by auto
  have "reachable sample_otel_env ?started ?settled" by (intro reached_step reached_start)
  from flush_cannot_hang [OF this booted flushing] flushing(1) show ?thesis by blast
qed

end
