(* ===== verification/Metrics.thy ===== *)
theory Metrics
  imports Telemetry Complex_Main
begin

text \<open>
  The instruments behind the measurements (\<^verbatim>\<open>packages/otel/src/jobTelemetry.ts\<close>,
  \<^verbatim>\<open>apis/miot-bridge-api/src/otel/miotTracing.ts\<close>, \<^verbatim>\<open>packages/auth/src/authTelemetry.ts\<close>). The metrics
  API has one provider at a time, a no-op until the SDK registers its own, and an instrument belongs to the
  provider it was created from. Each module keeps its instruments per provider. Values of durations are
  left out, as in \<open>Telemetry\<close>.
\<close>

datatype instrument_kind = Histogram "rat list" | Counter

record instrument =
  im_provider :: nat
  im_meter :: string
  im_name :: string
  im_kind :: instrument_kind
  im_unit :: string

record job_instruments =
  ji_duration :: instrument
  ji_skips :: instrument
  ji_items :: instrument

record miot_instruments =
  mi_callDuration :: instrument
  mi_propertyRejections :: instrument
  mi_propertyUnresolved :: instrument

type_synonym auth_instruments = instrument

text \<open>
  \<open>mx_provider\<close> is what \<^verbatim>\<open>metrics.getMeterProvider()\<close> answers, 0 the no-op one. \<open>mx_created\<close> lists the
  instruments that were created, \<open>mx_delivered\<close> the measurements with the instrument they went to.
\<close>

record metrics_api =
  mx_provider :: nat
  mx_jobs :: "(nat, job_instruments) js_map"
  mx_miot :: "(nat, miot_instruments) js_map"
  mx_auth :: "(nat, auth_instruments) js_map"
  mx_created :: "instrument list"
  mx_delivered :: "(instrument \<times> nat option \<times> (string \<times> string) list) list"

definition new_metrics :: metrics_api where
  "new_metrics = \<lparr>mx_provider = 0, mx_jobs = [], mx_miot = [], mx_auth = [], mx_created = [], mx_delivered = []\<rparr>"

definition JOB_METER_NAME :: string where "JOB_METER_NAME = ''job''"
definition METRIC_JOB_RUN_DURATION :: string where "METRIC_JOB_RUN_DURATION = ''job.run.duration''"
definition METRIC_JOB_RUN_SKIPS :: string where "METRIC_JOB_RUN_SKIPS = ''job.run.skips''"
definition METRIC_JOB_RUN_ITEMS :: string where "METRIC_JOB_RUN_ITEMS = ''job.run.items''"
definition MIOT_METER_NAME :: string where "MIOT_METER_NAME = ''miot''"
definition METRIC_MIOT_CLIENT_CALL_DURATION :: string where "METRIC_MIOT_CLIENT_CALL_DURATION = ''miot.client.call.duration''"
definition METRIC_MIOT_PROPERTY_REJECTIONS :: string where "METRIC_MIOT_PROPERTY_REJECTIONS = ''miot.property.rejections''"
definition METRIC_MIOT_PROPERTY_UNRESOLVED :: string where "METRIC_MIOT_PROPERTY_UNRESOLVED = ''miot.property.unresolved''"
definition AUTH_METER_NAME :: string where "AUTH_METER_NAME = ''auth''"
definition METRIC_AUTH_VERIFICATIONS :: string where "METRIC_AUTH_VERIFICATIONS = ''auth.verifications''"

definition JOB_RUN_DURATION_BUCKETS :: "rat list" where
  "JOB_RUN_DURATION_BUCKETS = [1/100, 5/100, 1/10, 1/4, 1/2, 1, 5/2, 5, 10, 30, 60, 300]"

definition MIOT_CALL_DURATION_BUCKETS :: "rat list" where
  "MIOT_CALL_DURATION_BUCKETS = [5/1000, 1/100, 25/1000, 5/100, 75/1000, 1/10, 1/4, 1/2, 3/4, 1, 5/2, 5, 15/2, 10, 15, 30]"

subsection \<open>Instruments, once per provider\<close>

definition instrument_of :: "nat \<Rightarrow> string \<Rightarrow> string \<Rightarrow> instrument_kind \<Rightarrow> string \<Rightarrow> instrument" where
  "instrument_of provider meter name kind u =
     \<lparr>im_provider = provider, im_meter = meter, im_name = name, im_kind = kind, im_unit = u\<rparr>"

definition new_job_instruments :: "nat \<Rightarrow> job_instruments" where
  "new_job_instruments p =
     \<lparr>ji_duration = instrument_of p JOB_METER_NAME METRIC_JOB_RUN_DURATION (Histogram JOB_RUN_DURATION_BUCKETS) ''s'',
      ji_skips = instrument_of p JOB_METER_NAME METRIC_JOB_RUN_SKIPS Counter ''{skip}'',
      ji_items = instrument_of p JOB_METER_NAME METRIC_JOB_RUN_ITEMS Counter ''{item}''\<rparr>"

definition new_miot_instruments :: "nat \<Rightarrow> miot_instruments" where
  "new_miot_instruments p =
     \<lparr>mi_callDuration = instrument_of p MIOT_METER_NAME METRIC_MIOT_CLIENT_CALL_DURATION (Histogram MIOT_CALL_DURATION_BUCKETS) ''s'',
      mi_propertyRejections = instrument_of p MIOT_METER_NAME METRIC_MIOT_PROPERTY_REJECTIONS Counter ''{rejection}'',
      mi_propertyUnresolved = instrument_of p MIOT_METER_NAME METRIC_MIOT_PROPERTY_UNRESOLVED Counter ''{property}''\<rparr>"

definition new_auth_instruments :: "nat \<Rightarrow> auth_instruments" where
  "new_auth_instruments p = instrument_of p AUTH_METER_NAME METRIC_AUTH_VERIFICATIONS Counter ''{verification}''"

definition jobInstruments :: "nat \<Rightarrow> metrics_api \<Rightarrow> job_instruments \<times> metrics_api" where
  "jobInstruments provider s = (case map_of (mx_jobs s) provider of
       Some cached \<Rightarrow> (cached, s)
     | None \<Rightarrow>
         let created = new_job_instruments provider
         in (created, s\<lparr>mx_jobs := AList.update provider created (mx_jobs s),
               mx_created := mx_created s @ [ji_duration created, ji_skips created, ji_items created]\<rparr>))"

definition miotInstruments :: "nat \<Rightarrow> metrics_api \<Rightarrow> miot_instruments \<times> metrics_api" where
  "miotInstruments provider s = (case map_of (mx_miot s) provider of
       Some cached \<Rightarrow> (cached, s)
     | None \<Rightarrow>
         let created = new_miot_instruments provider
         in (created, s\<lparr>mx_miot := AList.update provider created (mx_miot s),
               mx_created := mx_created s @ [mi_callDuration created, mi_propertyRejections created, mi_propertyUnresolved created]\<rparr>))"

definition authInstruments :: "nat \<Rightarrow> metrics_api \<Rightarrow> auth_instruments \<times> metrics_api" where
  "authInstruments provider s = (case map_of (mx_auth s) provider of
       Some cached \<Rightarrow> (cached, s)
     | None \<Rightarrow>
         let created = new_auth_instruments provider
         in (created, s\<lparr>mx_auth := AList.update provider created (mx_auth s), mx_created := mx_created s @ [created]\<rparr>))"

interpretation job_memo: memo_factory "\<lambda>p s. case jobInstruments p s of (v, s') \<Rightarrow> (Inr v, s')" "\<lambda>s. map_of (mx_jobs s)"
  by unfold_locales (auto simp: jobInstruments_def Let_def update_conv' split: option.splits)

interpretation miot_memo: memo_factory "\<lambda>p s. case miotInstruments p s of (v, s') \<Rightarrow> (Inr v, s')" "\<lambda>s. map_of (mx_miot s)"
  by unfold_locales (auto simp: miotInstruments_def Let_def update_conv' split: option.splits)

interpretation auth_memo: memo_factory "\<lambda>p s. case authInstruments p s of (v, s') \<Rightarrow> (Inr v, s')" "\<lambda>s. map_of (mx_auth s)"
  by unfold_locales (auto simp: authInstruments_def Let_def update_conv' split: option.splits)

subsection \<open>Measurements\<close>

text \<open>A value of \<open>None\<close> is a duration. An attribute that is \<open>undefined\<close> is left out by the API.\<close>

definition add_measurement :: "instrument \<Rightarrow> nat option \<Rightarrow> (string \<times> string option) list \<Rightarrow> metrics_api \<Rightarrow> metrics_api" where
  "add_measurement inst v attrs s =
     s\<lparr>mx_delivered := mx_delivered s @ [(inst, v, List.map_filter (\<lambda>(k, a). map_option (Pair k) a) attrs)]\<rparr>"

fun deliver :: "metric \<Rightarrow> metrics_api \<Rightarrow> metrics_api" where
  "deliver (MiotCall m errorType) s = (case miotInstruments (mx_provider s) s of (i, s) \<Rightarrow>
     add_measurement (mi_callDuration i) None [(''rpc.method'', Some (miot_method_text m)), (''error.type'', errorType)] s)"
| "deliver (PropertyRejection m source statusCode) s = (case miotInstruments (mx_provider s) s of (i, s) \<Rightarrow>
     add_measurement (mi_propertyRejections i) (Some 1)
       [(''rpc.method'', Some (miot_method_text m)), (''miot.property.source'', Some source), (''rpc.response.status_code'', statusCode)] s)"
| "deliver (PropertyUnresolved m n) s = (case miotInstruments (mx_provider s) s of (i, s) \<Rightarrow>
     add_measurement (mi_propertyUnresolved i) (Some n) [(''rpc.method'', Some (miot_method_text m))] s)"
| "deliver (JobRun name outcome) s = (case jobInstruments (mx_provider s) s of (i, s) \<Rightarrow>
     add_measurement (ji_duration i) None [(''job.name'', Some name), (''job.run.outcome'', Some outcome)] s)"
| "deliver (JobSkip name reason) s = (case jobInstruments (mx_provider s) s of (i, s) \<Rightarrow>
     add_measurement (ji_skips i) (Some 1) [(''job.name'', Some name), (''job.skip.reason'', Some reason)] s)"
| "deliver (JobItem name outcome n) s = (case jobInstruments (mx_provider s) s of (i, s) \<Rightarrow>
     add_measurement (ji_items i) (Some n) [(''job.name'', Some name), (''job.item.outcome'', Some outcome)] s)"

definition recordVerification :: "string \<Rightarrow> string option \<Rightarrow> metrics_api \<Rightarrow> metrics_api" where
  "recordVerification reason issuer s = (case authInstruments (mx_provider s) s of (i, s) \<Rightarrow>
     add_measurement i (Some 1) [(''auth.outcome'', Some reason), (''auth.issuer'', issuer)] s)"

datatype metrics_event =
    Provider_Registered nat
  | Measured metric
  | Verified_Token string "string option"

fun metrics_step :: "metrics_event \<Rightarrow> metrics_api \<Rightarrow> metrics_api" where
  "metrics_step (Provider_Registered p) s = s\<lparr>mx_provider := p\<rparr>"
| "metrics_step (Measured m) s = deliver m s"
| "metrics_step (Verified_Token reason issuer) s = recordVerification reason issuer s"

subsection \<open>A measurement reaches the provider of its moment\<close>

text \<open>The providers in force at each measurement, from the sequence of events alone.\<close>

fun provider_history :: "nat \<Rightarrow> metrics_event list \<Rightarrow> nat list" where
  "provider_history p [] = []"
| "provider_history p (Provider_Registered q # es) = provider_history q es"
| "provider_history p (_ # es) = p # provider_history p es"

text \<open>
  Every cached instrument belongs to the provider it is kept for. The meters and providers of the instruments that
  were created are among those that have a cached set, and no instrument was created twice.
\<close>

definition owner :: "instrument \<Rightarrow> string \<times> nat" where
  "owner i = (im_meter i, im_provider i)"

definition cached_owners :: "metrics_api \<Rightarrow> (string \<times> nat) set" where
  "cached_owners s = Pair JOB_METER_NAME ` dom (map_of (mx_jobs s)) \<union> Pair MIOT_METER_NAME ` dom (map_of (mx_miot s))
     \<union> Pair AUTH_METER_NAME ` dom (map_of (mx_auth s))"

definition created_once :: "(string \<times> nat) set \<Rightarrow> instrument list \<Rightarrow> bool" where
  "created_once owners created \<longleftrightarrow> distinct created \<and> owner ` set created \<subseteq> owners"

lemma created_once_more:
  assumes "created_once owners created" and "w \<notin> owners" and "distinct new" and "owner ` set new \<subseteq> {w}"
  shows "created_once (insert w owners) (created @ new)"
  using assms by (fastforce simp: created_once_def)

definition metrics_inv :: "metrics_api \<Rightarrow> bool" where
  "metrics_inv s \<longleftrightarrow>
     (\<forall>p i. map_of (mx_jobs s) p = Some i \<longrightarrow> i = new_job_instruments p)
   \<and> (\<forall>p i. map_of (mx_miot s) p = Some i \<longrightarrow> i = new_miot_instruments p)
   \<and> (\<forall>p i. map_of (mx_auth s) p = Some i \<longrightarrow> i = new_auth_instruments p)
   \<and> created_once (cached_owners s) (mx_created s)"

lemma instrument_of_simps [simp]:
  "im_provider (instrument_of p m n k u) = p" "im_meter (instrument_of p m n k u) = m" "im_name (instrument_of p m n k u) = n"
  "instrument_of p m n k u = instrument_of p' m' n' k' u' \<longleftrightarrow> p = p' \<and> m = m' \<and> n = n' \<and> k = k' \<and> u = u'"
  by (simp_all add: instrument_of_def)

lemmas meter_names = JOB_METER_NAME_def MIOT_METER_NAME_def AUTH_METER_NAME_def

lemma not_cached:
  "map_of (mx_jobs s) p = None \<Longrightarrow> (JOB_METER_NAME, p) \<notin> cached_owners s"
  "map_of (mx_miot s) p = None \<Longrightarrow> (MIOT_METER_NAME, p) \<notin> cached_owners s"
  "map_of (mx_auth s) p = None \<Longrightarrow> (AUTH_METER_NAME, p) \<notin> cached_owners s"
  by (auto simp: cached_owners_def meter_names)

lemma cached_more:
  "cached_owners (s\<lparr>mx_jobs := AList.update p i (mx_jobs s), mx_created := c\<rparr>) = insert (JOB_METER_NAME, p) (cached_owners s)"
  "cached_owners (s\<lparr>mx_miot := AList.update p j (mx_miot s), mx_created := c\<rparr>) = insert (MIOT_METER_NAME, p) (cached_owners s)"
  "cached_owners (s\<lparr>mx_auth := AList.update p k (mx_auth s), mx_created := c\<rparr>) = insert (AUTH_METER_NAME, p) (cached_owners s)"
  by (auto simp: cached_owners_def update_conv')

lemma new_owners:
  "owner ` set [ji_duration (new_job_instruments p), ji_skips (new_job_instruments p), ji_items (new_job_instruments p)] \<subseteq> {(JOB_METER_NAME, p)}"
  "owner ` set [mi_callDuration (new_miot_instruments p), mi_propertyRejections (new_miot_instruments p),
     mi_propertyUnresolved (new_miot_instruments p)] \<subseteq> {(MIOT_METER_NAME, p)}"
  "owner ` set [new_auth_instruments p] \<subseteq> {(AUTH_METER_NAME, p)}"
  "distinct [ji_duration (new_job_instruments p), ji_skips (new_job_instruments p), ji_items (new_job_instruments p)]"
  "distinct [mi_callDuration (new_miot_instruments p), mi_propertyRejections (new_miot_instruments p), mi_propertyUnresolved (new_miot_instruments p)]"
  by (simp_all add: owner_def new_job_instruments_def new_miot_instruments_def new_auth_instruments_def
      METRIC_JOB_RUN_DURATION_def METRIC_JOB_RUN_SKIPS_def METRIC_JOB_RUN_ITEMS_def METRIC_MIOT_CLIENT_CALL_DURATION_def
      METRIC_MIOT_PROPERTY_REJECTIONS_def METRIC_MIOT_PROPERTY_UNRESOLVED_def)

definition delivered_to :: "metrics_api \<Rightarrow> nat list" where
  "delivered_to s = map (\<lambda>(i, _). im_provider i) (mx_delivered s)"

lemma job_instruments_kept:
  assumes "metrics_inv s" and "jobInstruments p s = (i, s')"
  shows "i = new_job_instruments p \<and> metrics_inv s' \<and> mx_provider s' = mx_provider s \<and> delivered_to s' = delivered_to s"
proof (cases "map_of (mx_jobs s) p")
  case None
  with assms created_once_more [OF _ not_cached(1) [OF None] new_owners(4) new_owners(1), of "mx_created s"] show ?thesis
    by (auto simp: jobInstruments_def Let_def update_conv' metrics_inv_def cached_more delivered_to_def split: if_splits)
qed (use assms in \<open>auto simp: jobInstruments_def metrics_inv_def\<close>)

lemma miot_instruments_kept:
  assumes "metrics_inv s" and "miotInstruments p s = (i, s')"
  shows "i = new_miot_instruments p \<and> metrics_inv s' \<and> mx_provider s' = mx_provider s \<and> delivered_to s' = delivered_to s"
proof (cases "map_of (mx_miot s) p")
  case None
  with assms created_once_more [OF _ not_cached(2) [OF None] new_owners(5) new_owners(2), of "mx_created s"] show ?thesis
    by (auto simp: miotInstruments_def Let_def update_conv' metrics_inv_def cached_more delivered_to_def split: if_splits)
qed (use assms in \<open>auto simp: miotInstruments_def metrics_inv_def\<close>)

lemma auth_instruments_kept:
  assumes "metrics_inv s" and "authInstruments p s = (i, s')"
  shows "i = new_auth_instruments p \<and> metrics_inv s' \<and> mx_provider s' = mx_provider s \<and> delivered_to s' = delivered_to s"
proof (cases "map_of (mx_auth s) p")
  case None
  with assms created_once_more [OF _ not_cached(3) [OF None] _ new_owners(3), of "mx_created s"] show ?thesis
    by (auto simp: authInstruments_def Let_def update_conv' metrics_inv_def cached_more delivered_to_def split: if_splits)
qed (use assms in \<open>auto simp: authInstruments_def metrics_inv_def\<close>)

lemma add_measurement_simps [simp]:
  "mx_provider (add_measurement i v as s) = mx_provider s" "metrics_inv (add_measurement i v as s) = metrics_inv s"
  "delivered_to (add_measurement i v as s) = delivered_to s @ [im_provider i]"
  by (simp_all add: add_measurement_def metrics_inv_def delivered_to_def cached_owners_def)

lemma new_instruments_provider [simp]:
  "im_provider (ji_duration (new_job_instruments p)) = p" "im_provider (ji_skips (new_job_instruments p)) = p"
  "im_provider (ji_items (new_job_instruments p)) = p" "im_provider (mi_callDuration (new_miot_instruments p)) = p"
  "im_provider (mi_propertyRejections (new_miot_instruments p)) = p" "im_provider (mi_propertyUnresolved (new_miot_instruments p)) = p"
  "im_provider (new_auth_instruments p) = p"
  by (simp_all add: new_job_instruments_def new_miot_instruments_def new_auth_instruments_def)

lemma deliver_kept:
  assumes "metrics_inv s"
  shows "metrics_inv (deliver m s) \<and> mx_provider (deliver m s) = mx_provider s \<and> delivered_to (deliver m s) = delivered_to s @ [mx_provider s]"
proof -
  obtain i s1 where miot: "miotInstruments (mx_provider s) s = (i, s1)" by fastforce
  obtain j s2 where job: "jobInstruments (mx_provider s) s = (j, s2)" by fastforce
  from miot_instruments_kept [OF assms miot] job_instruments_kept [OF assms job] show ?thesis
    by (cases m) (auto simp: miot job)
qed

lemma verification_kept:
  assumes "metrics_inv s"
  shows "metrics_inv (recordVerification r u s) \<and> mx_provider (recordVerification r u s) = mx_provider s
    \<and> delivered_to (recordVerification r u s) = delivered_to s @ [mx_provider s]"
proof -
  obtain i s1 where auth: "authInstruments (mx_provider s) s = (i, s1)" by fastforce
  from auth_instruments_kept [OF assms auth] show ?thesis by (auto simp: recordVerification_def auth)
qed

lemma metrics_run:
  "metrics_inv s \<Longrightarrow> metrics_inv (fold metrics_step es s)
     \<and> delivered_to (fold metrics_step es s) = delivered_to s @ provider_history (mx_provider s) es"
proof (induction es arbitrary: s)
  case (Cons e es)
  show ?case
  proof (cases e)
    case (Provider_Registered p)
    have "metrics_inv (s\<lparr>mx_provider := p\<rparr>)" using Cons.prems by (simp add: metrics_inv_def cached_owners_def)
    from Cons.IH [OF this] Provider_Registered show ?thesis by (simp add: delivered_to_def)
  next
    case (Measured m)
    from Cons.IH [of "deliver m s"] deliver_kept [OF Cons.prems, of m] Measured show ?thesis by simp
  next
    case (Verified_Token r u)
    from Cons.IH [of "recordVerification r u s"] verification_kept [OF Cons.prems, of r u] Verified_Token show ?thesis by simp
  qed
qed simp

text \<open>
  Whatever is measured before and after the SDK registers its provider, every measurement goes to an instrument of the
  provider in force at that moment, none is lost to an instrument of the no-op provider, and no instrument is
  created twice.
\<close>

theorem measurement_reaches_provider:
  "map (\<lambda>(i, _). im_provider i) (mx_delivered (fold metrics_step es new_metrics)) = provider_history 0 es
   \<and> distinct (mx_created (fold metrics_step es new_metrics))"
proof -
  have "metrics_inv new_metrics" by (simp add: metrics_inv_def new_metrics_def created_once_def)
  from metrics_run [OF this, of es] show ?thesis by (simp add: delivered_to_def new_metrics_def metrics_inv_def created_once_def)
qed

end
