(* ===== verification/Ui_Runtime.thy ===== *)
theory Ui_Runtime
  imports Effect Schema
begin

text \<open>
  \<^verbatim>\<open>packages/ui-runtime\<close>: how a browser application loads and checks its configuration, the same check
  run by the init container, and the status an application shows for its backend with the polling
  that notices a recovery. \<^verbatim>\<open>fetch\<close>, \<^verbatim>\<open>JSON.parse\<close>, \<^verbatim>\<open>new URL\<close>, the file system and zod's error text are
  parameters; the schema is any parser.
\<close>

subsection \<open>Schema helpers\<close>

text \<open>\<open>scheme\<close> gives the protocol of a string that parses as a URL.\<close>

definition httpUrl :: "(string \<Rightarrow> string option) \<Rightarrow> string parser" where
  "httpUrl scheme = z_url (\<lambda>s. scheme s = Some ''http'' \<or> scheme s = Some ''https'')"

definition absolutePath :: "string parser" where
  "absolutePath v = (case z_string v of Some s \<Rightarrow> if starts_with ''/'' s then Some s else None | None \<Rightarrow> None)"

subsection \<open>Loading the configuration\<close>

datatype config_error_reason = Config_Not_Found | Config_Not_Json | Config_Invalid | Config_Network

record runtime_config_error =
  ce_reason :: config_error_reason
  ce_message :: string

record http_response =
  hr_status :: int
  hr_body :: string

definition response_ok :: "http_response \<Rightarrow> bool" where
  "response_ok r \<longleftrightarrow> 200 \<le> hr_status r \<and> hr_status r \<le> 299"

record 's browser =
  bw_baseHref :: "string option"
  bw_origin :: string
  bw_resolve :: "string \<Rightarrow> string \<Rightarrow> string"
  bw_fetch :: "string \<Rightarrow> (http_response, 's) effect"
  bw_json :: "string \<Rightarrow> json option"

definition resolveConfigUrl :: "'s browser \<Rightarrow> string" where
  "resolveConfigUrl w =
     (case bw_baseHref w of
        Some href \<Rightarrow> if href \<noteq> [] then bw_resolve w ''config.json'' href else bw_origin w @ ''/config.json''
      | None \<Rightarrow> bw_origin w @ ''/config.json'')"

text \<open>\<open>prettify\<close> is the text zod makes of a refusal, for the value it refused.\<close>

definition loadRuntimeConfig ::
  "'s browser \<Rightarrow> (json \<Rightarrow> string) \<Rightarrow> 'a parser \<Rightarrow> string option \<Rightarrow> (runtime_config_error, 'a, 's) action" where
  "loadRuntimeConfig w prettify schema url_option =
     (let url = (case url_option of Some u \<Rightarrow> u | None \<Rightarrow> resolveConfigUrl w) in
      and_then (catching (bw_fetch w url) (\<lambda>_. throwing
          \<lparr>ce_reason = Config_Network, ce_message = ''Could not reach '' @ url @ '' to load the runtime config.''\<rparr>))
        (\<lambda>response.
           if \<not> response_ok response
           then throwing \<lparr>ce_reason = Config_Not_Found,
             ce_message = ''Runtime config was not served from '' @ url @ '' (HTTP '' @ show_int (hr_status response) @ '').''\<rparr>
           else (case bw_json w (hr_body response) of
               None \<Rightarrow> throwing \<lparr>ce_reason = Config_Not_Json,
                 ce_message = ''Runtime config at '' @ url @ '' is not valid JSON. Likely an SPA fallback returning ''
                   @ ''HTML '' @ em_dash @ '' ensure nginx serves config.json before the catch-all try_files.''\<rparr>
             | Some raw \<Rightarrow>
                 (case schema (Some raw) of
                    None \<Rightarrow> throwing \<lparr>ce_reason = Config_Invalid, ce_message = prettify raw\<rparr>
                  | Some config \<Rightarrow> returning config))))"

subsection \<open>The validator\<close>

datatype invalid_reason = Unreadable | File_Not_Json | File_Invalid

datatype validation = Valid_File | Invalid_File invalid_reason string

definition validateConfigFile ::
  "(string \<Rightarrow> (string, 's) effect) \<Rightarrow> (string \<Rightarrow> json option) \<Rightarrow> (json \<Rightarrow> string) \<Rightarrow> 'a parser \<Rightarrow> string \<Rightarrow> (validation, 's) effect" where
  "validateConfigFile readFile json prettify schema path s =
     (case readFile path s of
        (Inl _, s') \<Rightarrow> (Inr (Invalid_File Unreadable (path @ '' could not be read. The chart mounts it from templates.<name>.'')), s')
      | (Inr contents, s') \<Rightarrow>
          (Inr (case json contents of
             None \<Rightarrow> Invalid_File File_Not_Json (path @ '' is not valid JSON.'')
           | Some raw \<Rightarrow>
               (case schema (Some raw) of
                  None \<Rightarrow> Invalid_File File_Invalid (prettify raw)
                | Some _ \<Rightarrow> Valid_File)), s'))"

text \<open>
  The process of the command line: what it wrote, and \<^verbatim>\<open>process.exit\<close> as a rejection with the exit
  code, since it does not return.
\<close>

record 's cli_process =
  cl_stdout :: "string list"
  cl_stderr :: "string list"
  cl_files :: 's

definition write_stderr :: "string \<Rightarrow> ('e, unit, 's cli_process) action" where
  "write_stderr line = doing (\<lambda>p. p\<lparr>cl_stderr := cl_stderr p @ [line]\<rparr>)"

definition write_stdout :: "string \<Rightarrow> ('e, unit, 's cli_process) action" where
  "write_stdout line = doing (\<lambda>p. p\<lparr>cl_stdout := cl_stdout p @ [line]\<rparr>)"

definition newline :: string where "newline = [CHR 0x0A]"

definition runConfigValidatorCli ::
  "(string \<Rightarrow> (string, 's) effect) \<Rightarrow> (string \<Rightarrow> json option) \<Rightarrow> (json \<Rightarrow> string) \<Rightarrow> 'a parser \<Rightarrow> string option \<Rightarrow> string
     \<Rightarrow> (thrown + nat, unit, 's cli_process) action" where
  "runConfigValidatorCli readFile json prettify schema path label =
     (if path = None \<or> path = Some []
      then and_then (write_stderr (''['' @ label @ ''] FATAL: no config path given. Usage: <validator> <path-to-config.json>'' @ newline))
             (\<lambda>_. throwing (Inr 1))
      else and_then (within cl_files (\<lambda>t p. p\<lparr>cl_files := t\<rparr>)
               (catching (validateConfigFile readFile json prettify schema (the path)) (\<lambda>e. throwing (Inl e))))
        (\<lambda>result. case result of
            Invalid_File _ message \<Rightarrow>
              and_then (write_stderr (''['' @ label @ ''] FATAL: '' @ message @ newline)) (\<lambda>_. throwing (Inr 1))
          | Valid_File \<Rightarrow>
              and_then (write_stdout (''['' @ label @ ''] '' @ the path @ '' is valid'' @ newline)) (\<lambda>_. throwing (Inr 0))))"

subsection \<open>The status of a backend\<close>

datatype api_status = Status_Ok | Degraded | Unreachable | Unauthenticated

datatype request_outcome =
    Request_Success
  | Server_Error int
  | Client_Error int
  | Unauthorized_Request int
  | Network_Failure

fun statusForOutcome :: "request_outcome \<Rightarrow> api_status" where
  "statusForOutcome Request_Success = Status_Ok"
| "statusForOutcome (Client_Error _) = Status_Ok"
| "statusForOutcome (Unauthorized_Request _) = Unauthenticated"
| "statusForOutcome (Server_Error _) = Degraded"
| "statusForOutcome Network_Failure = Unreachable"

definition classifyResponse :: "http_response \<Rightarrow> request_outcome" where
  "classifyResponse response =
     (if 500 \<le> hr_status response then Server_Error (hr_status response)
      else if hr_status response = 401 \<or> hr_status response = 403 then Unauthorized_Request (hr_status response)
      else if 400 \<le> hr_status response then Client_Error (hr_status response)
      else Request_Success)"

definition classifyError :: request_outcome where "classifyError = Network_Failure"

subsection \<open>The status hook\<close>

text \<open>
  One run of the recovery effect: the delay of its next attempt, whether its timer is set, whether a
  probe is under way, and whether its cleanup ran. The hook keeps every run it started, since a probe
  under way outlives the cleanup. React runs the cleanup and the next effect when the status it
  depends on has changed; the model does so together with the change.
\<close>

record probe_run =
  pr_delay :: int
  pr_timer :: bool
  pr_probing :: bool
  pr_cancelled :: bool

record status_hook =
  sh_status :: api_status
  sh_runs :: "probe_run list"

text \<open>The options: whether the browser's own state counts, and the delays when there is a probe.\<close>

record status_options =
  so_onlineAware :: bool
  so_recovery :: "(int \<times> int) option"

definition DEFAULT_INITIAL_DELAY_MS :: int where "DEFAULT_INITIAL_DELAY_MS = 2000"
definition DEFAULT_MAX_DELAY_MS :: int where "DEFAULT_MAX_DELAY_MS = 60000"

definition recovery_delays :: "int option \<Rightarrow> int option \<Rightarrow> int \<times> int" where
  "recovery_delays initialDelayMs maxDelayMs =
     (case initialDelayMs of Some d \<Rightarrow> d | None \<Rightarrow> DEFAULT_INITIAL_DELAY_MS,
      case maxDelayMs of Some d \<Rightarrow> d | None \<Rightarrow> DEFAULT_MAX_DELAY_MS)"

definition cancel_run :: "probe_run \<Rightarrow> probe_run" where
  "cancel_run r = r\<lparr>pr_cancelled := True, pr_timer := False\<rparr>"

definition start_effect :: "status_options \<Rightarrow> api_status \<Rightarrow> probe_run list \<Rightarrow> probe_run list" where
  "start_effect opts status runs =
     (case so_recovery opts of
        Some (initialDelayMs, _) \<Rightarrow>
          if status = Status_Ok then runs
          else runs @ [\<lparr>pr_delay = initialDelayMs, pr_timer = True, pr_probing = False, pr_cancelled = False\<rparr>]
      | None \<Rightarrow> runs)"

definition setStatus :: "status_options \<Rightarrow> api_status \<Rightarrow> status_hook \<Rightarrow> status_hook" where
  "setStatus opts status h =
     (if status = sh_status h then h
      else \<lparr>sh_status = status, sh_runs = start_effect opts status (map cancel_run (sh_runs h))\<rparr>)"

definition mount_hook :: "status_options \<Rightarrow> status_hook" where
  "mount_hook opts = \<lparr>sh_status = Status_Ok, sh_runs = start_effect opts Status_Ok []\<rparr>"

text \<open>What happens to the hook; an attempt finds the tab hidden or not, and a probe gives true, false or fails.\<close>

datatype hook_event =
    Reported request_outcome
  | Went_Offline
  | Went_Online
  | Timer_Due nat bool
  | Probe_Answered nat "thrown + bool"

definition attempt_probe :: "bool \<Rightarrow> probe_run \<Rightarrow> probe_run" where
  "attempt_probe hidden r =
     (if \<not> pr_timer r then r
      else if hidden then r
      else r\<lparr>pr_timer := False, pr_probing := True\<rparr>)"

definition probe_failed :: "int \<Rightarrow> probe_run \<Rightarrow> probe_run" where
  "probe_failed maxDelayMs r =
     (if pr_cancelled r then r\<lparr>pr_probing := False\<rparr>
      else r\<lparr>pr_probing := False, pr_delay := min (pr_delay r * 2) maxDelayMs, pr_timer := True\<rparr>)"

definition hook_step :: "status_options \<Rightarrow> hook_event \<Rightarrow> status_hook \<Rightarrow> status_hook" where
  "hook_step opts ev h =
     (case ev of
        Reported outcome \<Rightarrow> setStatus opts (statusForOutcome outcome) h
      | Went_Offline \<Rightarrow> if so_onlineAware opts then setStatus opts Unreachable h else h
      | Went_Online \<Rightarrow> if so_onlineAware opts then setStatus opts Status_Ok h else h
      | Timer_Due i hidden \<Rightarrow>
          if i < length (sh_runs h) then h\<lparr>sh_runs := (sh_runs h)[i := attempt_probe hidden (sh_runs h ! i)]\<rparr> else h
      | Probe_Answered i answer \<Rightarrow>
          if i < length (sh_runs h) \<and> pr_probing (sh_runs h ! i) then
            (let r = sh_runs h ! i;
                 recovered = (case answer of Inl _ \<Rightarrow> False | Inr b \<Rightarrow> b);
                 maxDelayMs = (case so_recovery opts of Some (_, m) \<Rightarrow> m | None \<Rightarrow> DEFAULT_MAX_DELAY_MS)
             in if \<not> pr_cancelled r \<and> recovered
                then setStatus opts Status_Ok (h\<lparr>sh_runs := (sh_runs h)[i := r\<lparr>pr_probing := False\<rparr>]\<rparr>)
                else h\<lparr>sh_runs := (sh_runs h)[i := probe_failed maxDelayMs r]\<rparr>)
          else h)"

subsection \<open>The validator and the browser\<close>

text \<open>
  The init container and the browser enforce the same rules: for a file that is served as it is, the
  validator exits with 0 exactly when the browser accepts the configuration, and with 1 otherwise.
\<close>

theorem validator_and_browser_agree:
  assumes "bw_fetch w url s = (Inr r, s')" "response_ok r" and "readFile path (cl_files p) = (Inr (hr_body r), t)" "path \<noteq> []"
  shows "fst (runConfigValidatorCli readFile (bw_json w) prettify schema (Some path) label p)
    = Inl (Inr (case fst (loadRuntimeConfig w prettify schema (Some url) s) of Inr _ \<Rightarrow> 0 | Inl _ \<Rightarrow> 1))"
  using assms
  by (auto simp: runConfigValidatorCli_def loadRuntimeConfig_def validateConfigFile_def within_def write_stderr_def
      write_stdout_def and_then_def catching_def split: option.splits)

definition sample_browser :: "unit browser" where
  "sample_browser = \<lparr>bw_baseHref = None, bw_origin = ''http://ui'', bw_resolve = (\<lambda>path base. base @ path),
     bw_fetch = (\<lambda>url. returning \<lparr>hr_status = 200, hr_body = ''{}''\<rparr>), bw_json = (\<lambda>s. if s = ''{}'' then Some (JObj []) else None)\<rparr>"

lemma validator_and_browser_agree_witness:
  "fst (runConfigValidatorCli (\<lambda>path. returning ''{}'') (bw_json sample_browser) (\<lambda>_. ''missing'') (z_object (\<lambda>field. z_string (field ''site'')))
      (Some ''/config/config.json'') ''ui'' \<lparr>cl_stdout = [], cl_stderr = [], cl_files = ()\<rparr>) = Inl (Inr 1)"
proof -
  let ?schema = "z_object (\<lambda>field. z_string (field ''site''))"
  have fetch: "bw_fetch sample_browser url s = (Inr \<lparr>hr_status = 200, hr_body = ''{}''\<rparr>, s)"
    and json: "bw_json sample_browser ''{}'' = Some (JObj [])" for url s by (simp_all add: sample_browser_def)
  have "isl (fst (loadRuntimeConfig sample_browser (\<lambda>_. ''missing'') ?schema (Some ''http://ui/config.json'') ()))"
    by (simp add: loadRuntimeConfig_def and_then_def catching_def fetch json response_ok_def Let_def)
  with validator_and_browser_agree [OF fetch, where readFile = "\<lambda>path. returning ''{}''" and path = "''/config/config.json''"
      and p = "\<lparr>cl_stdout = [], cl_stderr = [], cl_files = ()\<rparr>" and prettify = "\<lambda>_. ''missing''" and schema = ?schema
      and label = "''ui''" and s = "()" and url = "''http://ui/config.json''" and t = "()"]
  show ?thesis by (auto simp: response_ok_def isl_def)
qed

text \<open>Why a configuration could not be used, by what the request came to.\<close>

lemma config_reason:
  "loadRuntimeConfig w prettify schema (Some url) s = (Inl e, s') \<Longrightarrow> ce_reason e =
     (case fst (bw_fetch w url s) of
        Inl _ \<Rightarrow> Config_Network
      | Inr r \<Rightarrow> if \<not> response_ok r then Config_Not_Found
          else if bw_json w (hr_body r) = None then Config_Not_Json else Config_Invalid)"
  by (auto simp: loadRuntimeConfig_def and_then_def catching_def split: option.splits prod.splits sum.splits if_splits)

subsection \<open>The recovery polling\<close>

lemma length_cancel [simp]: "length (map cancel_run runs) = length runs" by simp

lemma cancel_run_simps [simp]:
  "pr_cancelled (cancel_run r)" "\<not> pr_timer (cancel_run r)" "pr_probing (cancel_run r) = pr_probing r" "pr_delay (cancel_run r) = pr_delay r"
  by (simp_all add: cancel_run_def)

text \<open>
  A run that was cleaned up has no timer; any other has a timer or a probe under way, never both. Runs
  but the last are cleaned up, and so is the last when there is nothing to recover from.
\<close>

definition run_ok :: "probe_run \<Rightarrow> bool" where
  "run_ok r \<longleftrightarrow> (if pr_cancelled r then \<not> pr_timer r else pr_timer r \<noteq> pr_probing r)"

definition polls :: "status_options \<Rightarrow> status_hook \<Rightarrow> bool" where
  "polls opts h \<longleftrightarrow> sh_status h \<noteq> Status_Ok \<and> so_recovery opts \<noteq> None"

definition hook_ok :: "status_options \<Rightarrow> status_hook \<Rightarrow> bool" where
  "hook_ok opts h \<longleftrightarrow> list_all run_ok (sh_runs h)
     \<and> map pr_cancelled (sh_runs h) = (if polls opts h then replicate (length (sh_runs h) - 1) True @ [False]
         else replicate (length (sh_runs h)) True)"

lemma run_ok_cancel [simp]: "run_ok (cancel_run r)"
  by (simp add: run_ok_def)

lemma hook_ok_setStatus: "hook_ok opts h \<Longrightarrow> hook_ok opts (setStatus opts st h)"
  by (auto simp: hook_ok_def setStatus_def start_effect_def polls_def list_all_iff run_ok_def
      comp_def map_replicate_const split: option.splits)

lemma hook_ok_update:
  assumes "hook_ok opts h" "i < length (sh_runs h)" "run_ok r" "pr_cancelled r = pr_cancelled (sh_runs h ! i)"
  shows "hook_ok opts (h\<lparr>sh_runs := (sh_runs h)[i := r]\<rparr>)"
proof -
  have "map pr_cancelled ((sh_runs h)[i := r]) = map pr_cancelled (sh_runs h)"
    using assms(2,4) by (simp add: map_update) (metis list_update_id nth_map)
  moreover have "list_all run_ok ((sh_runs h)[i := r])"
    using assms(1,3) set_update_subset_insert [of "sh_runs h" i r] by (auto simp: hook_ok_def list_all_iff)
  ultimately show ?thesis using assms(1) by (simp add: hook_ok_def polls_def)
qed

lemma hook_ok_step: "hook_ok opts h \<Longrightarrow> hook_ok opts (hook_step opts ev h)"
proof (cases ev)
  case (Timer_Due i hidden)
  assume h: "hook_ok opts h"
  then have "i < length (sh_runs h) \<Longrightarrow> run_ok (sh_runs h ! i)" by (simp add: hook_ok_def list_all_length)
  then show ?thesis
    using Timer_Due h by (auto simp: hook_step_def attempt_probe_def run_ok_def split: if_splits intro!: hook_ok_update)
next
  case (Probe_Answered i answer)
  assume h: "hook_ok opts h"
  show ?thesis
  proof (cases "i < length (sh_runs h) \<and> pr_probing (sh_runs h ! i)")
    case True
    with h have ok: "run_ok (sh_runs h ! i)" by (simp add: hook_ok_def list_all_length)
    show ?thesis
    proof (cases "\<not> pr_cancelled (sh_runs h ! i) \<and> (case answer of Inl _ \<Rightarrow> False | Inr b \<Rightarrow> b)")
      case True2: True
      from h True have "polls opts h"
        using True2 by (auto simp: hook_ok_def dest!: arg_cong [where f = "\<lambda>xs. xs ! i"] split: if_splits)
      then have "sh_status h \<noteq> Status_Ok" by (simp add: polls_def)
      then have "hook_ok opts (setStatus opts Status_Ok (h\<lparr>sh_runs := rs\<rparr>))" for rs
        by (auto simp: setStatus_def hook_ok_def polls_def start_effect_def list_all_iff comp_def map_replicate_const split: option.splits)
      then show ?thesis using True True2 by (simp add: hook_step_def Probe_Answered Let_def)
    next
      case False
      then show ?thesis using True h ok
        by (auto simp: hook_step_def Probe_Answered Let_def run_ok_def probe_failed_def split: option.splits intro!: hook_ok_update)
    qed
  qed (use h Probe_Answered in \<open>auto simp: hook_step_def\<close>)
qed (auto simp: hook_step_def hook_ok_setStatus)

lemma hook_ok_mount: "hook_ok opts (mount_hook opts)"
  by (auto simp: hook_ok_def mount_hook_def start_effect_def polls_def split: option.splits)

text \<open>
  The backend is probed exactly while it is not rated healthy. In every state the hook can reach, by
  any interleaving of reports, connectivity changes, timers and answers, at most one run of the
  recovery effect is alive; there is one when and only when the status is not ok and a probe was
  given; and it is never stuck: its timer is set or its probe is under way, and not both.
\<close>

theorem recovery_polls_while_down:
  "case fold (hook_step opts) evs (mount_hook opts) of h \<Rightarrow>
     map (\<lambda>r. pr_timer r \<noteq> pr_probing r) (filter (\<lambda>r. \<not> pr_cancelled r) (sh_runs h))
       = (if sh_status h \<noteq> Status_Ok \<and> so_recovery opts \<noteq> None then [True] else [])
     \<and> list_all (\<lambda>r. \<not> (pr_cancelled r \<and> pr_timer r)) (sh_runs h)"
proof -
  define h where "h = fold (hook_step opts) evs (mount_hook opts)"
  have "hook_ok opts (fold (hook_step opts) evs h)" if "hook_ok opts h" for h
    using that by (induction evs arbitrary: h) (simp_all add: hook_ok_step)
  then have ok: "hook_ok opts h" unfolding h_def using hook_ok_mount by blast
  then have runs: "list_all run_ok (sh_runs h)" by (simp add: hook_ok_def)
  have "map (\<lambda>r. pr_timer r \<noteq> pr_probing r) (filter (\<lambda>r. \<not> pr_cancelled r) (sh_runs h))
      = map (\<lambda>r. True) (filter (\<lambda>r. \<not> pr_cancelled r) (sh_runs h))"
    using runs by (auto simp: list_all_iff run_ok_def)
  also have "\<dots> = map (\<lambda>_. True) (filter Not (map pr_cancelled (sh_runs h)))" by (simp add: filter_map comp_def)
  also have "\<dots> = (if polls opts h then [True] else [])" using ok by (simp add: hook_ok_def filter_replicate)
  finally show ?thesis using runs by (auto simp: h_def [symmetric] polls_def list_all_iff run_ok_def)
qed

text \<open>One attempt of the first run that finds the backend still down.\<close>

definition failed_attempt :: "hook_event list" where
  "failed_attempt = [Timer_Due 0 False, Probe_Answered 0 (Inr False)]"

lemma failed_attempts:
  assumes "0 \<le> d" "d \<le> longest"
  shows "fold (hook_step \<lparr>so_onlineAware = aware, so_recovery = Some (initial, longest)\<rparr>) (concat (replicate k failed_attempt))
      \<lparr>sh_status = st, sh_runs = [\<lparr>pr_delay = d, pr_timer = True, pr_probing = False, pr_cancelled = False\<rparr>]\<rparr>
    = \<lparr>sh_status = st, sh_runs = [\<lparr>pr_delay = min (d * 2 ^ k) longest, pr_timer = True, pr_probing = False, pr_cancelled = False\<rparr>]\<rparr>"
  using assms
proof (induction k arbitrary: d)
  case (Suc k)
  have "min (min (d * 2) longest * 2 ^ k) longest = min (d * 2 ^ Suc k) longest"
  proof (cases "d * 2 \<le> longest")
    case False
    have "longest * 1 \<le> longest * 2 ^ k" "longest * 1 \<le> (d * 2) * 2 ^ k"
      using Suc.prems False by (intro mult_left_mono mult_mono; simp)+
    then show ?thesis using False by (simp add: mult.assoc)
  qed (simp add: mult.assoc)
  with Suc.IH [of "min (d * 2) longest"] Suc.prems show ?case
    by (simp add: failed_attempt_def hook_step_def attempt_probe_def probe_failed_def)
qed simp

text \<open>
  The polling backs off. While the backend stays down the delay doubles from the initial one with each
  failed probe, up to the maximum, and a next attempt is always due.
\<close>

theorem probe_backs_off:
  assumes "0 \<le> initial" "initial \<le> longest"
  shows "fold (hook_step \<lparr>so_onlineAware = aware, so_recovery = Some (initial, longest)\<rparr>)
      (Reported Network_Failure # concat (replicate k failed_attempt)) (mount_hook \<lparr>so_onlineAware = aware, so_recovery = Some (initial, longest)\<rparr>)
    = \<lparr>sh_status = Unreachable, sh_runs = [\<lparr>pr_delay = min (initial * 2 ^ k) longest, pr_timer = True, pr_probing = False, pr_cancelled = False\<rparr>]\<rparr>"
  using failed_attempts [OF assms, of aware initial k Unreachable]
  by (simp add: hook_step_def setStatus_def start_effect_def mount_hook_def)

lemma probe_backs_off_witness:
  "fold (hook_step \<lparr>so_onlineAware = True, so_recovery = Some (recovery_delays None None)\<rparr>)
      (Reported Network_Failure # concat (replicate 5 failed_attempt)) (mount_hook \<lparr>so_onlineAware = True, so_recovery = Some (recovery_delays None None)\<rparr>)
    = \<lparr>sh_status = Unreachable, sh_runs = [\<lparr>pr_delay = 60000, pr_timer = True, pr_probing = False, pr_cancelled = False\<rparr>]\<rparr>"
  using probe_backs_off [of 2000 60000 True 5]
  by (simp add: recovery_delays_def DEFAULT_INITIAL_DELAY_MS_def DEFAULT_MAX_DELAY_MS_def)

end
