(* ===== verification/Ui_Kit.thy ===== *)
theory Ui_Kit
  imports Ui_Runtime
begin

text \<open>
  \<^verbatim>\<open>packages/ui-kit\<close>: the banner that shows the status of a backend and the bar it is drawn with, as
  the state the components keep; the markup and its styles are left out.
\<close>

text \<open>The UTF-8 bytes of the ellipsis.\<close>

definition ellipsis :: string where
  "ellipsis = [CHR 0xE2, CHR 0x80, CHR 0xA6]"

subsection \<open>The banner\<close>

datatype status_variant = Bar_Loading | Bar_Ok | Bar_Error

text \<open>The parameter of the source excludes \<^const>\<open>Status_Ok\<close>; the last case stands for the remaining one.\<close>

definition messageFor :: "api_status \<Rightarrow> string \<Rightarrow> string" where
  "messageFor status serviceName = (case status of
       Unreachable \<Rightarrow> ''Cannot reach '' @ serviceName @ ''.''
     | Unauthenticated \<Rightarrow> serviceName @ '' did not accept your session '' @ em_dash @ '' sign in again.''
     | _ \<Rightarrow> serviceName @ '' is having problems '' @ em_dash @ '' retrying.'')"

definition ApiStatusBanner :: "api_status \<Rightarrow> string \<Rightarrow> (status_variant \<times> string) option" where
  "ApiStatusBanner status serviceName =
     (if status = Status_Ok then None else Some (Bar_Error, messageFor status serviceName))"

subsection \<open>The status bar\<close>

text \<open>
  The properties shown, whether the bar is visible and faded, and the due times of its two timers. The
  effect runs when the status or the message changed; its cleanup clears the timers of the run before.
\<close>

record status_bar =
  sb_status :: status_variant
  sb_message :: string
  sb_visible :: bool
  sb_faded :: bool
  sb_fadeOut :: "int option"
  sb_hide :: "int option"

definition bar_effect :: "int \<Rightarrow> status_bar \<Rightarrow> status_bar" where
  "bar_effect now b = b\<lparr>sb_visible := True, sb_faded := False,
     sb_fadeOut := if sb_status b = Bar_Ok then Some (now + 4000) else None,
     sb_hide := if sb_status b = Bar_Ok then Some (now + 4700) else None\<rparr>"

definition mount_bar :: "int \<Rightarrow> status_variant \<Rightarrow> string \<Rightarrow> status_bar" where
  "mount_bar now status message = bar_effect now \<lparr>sb_status = status, sb_message = message, sb_visible = True,
     sb_faded = False, sb_fadeOut = None, sb_hide = None\<rparr>"

datatype bar_event = Bar_Props status_variant string | Clock_Tick

definition bar_step :: "int \<times> bar_event \<Rightarrow> status_bar \<Rightarrow> status_bar" where
  "bar_step ev b = (case ev of
       (now, Bar_Props status message) \<Rightarrow>
         if status = sb_status b \<and> message = sb_message b then b
         else bar_effect now (b\<lparr>sb_status := status, sb_message := message\<rparr>)
     | (now, Clock_Tick) \<Rightarrow>
         let due = (\<lambda>t. case t of Some at_time \<Rightarrow> at_time \<le> now | None \<Rightarrow> False) in
         b\<lparr>sb_faded := sb_faded b \<or> due (sb_fadeOut b), sb_fadeOut := if due (sb_fadeOut b) then None else sb_fadeOut b,
           sb_visible := sb_visible b \<and> \<not> due (sb_hide b), sb_hide := if due (sb_hide b) then None else sb_hide b\<rparr>)"

definition bar_ok :: "status_bar \<Rightarrow> bool" where
  "bar_ok b \<longleftrightarrow> (if sb_status b = Bar_Ok then (sb_visible b \<longleftrightarrow> sb_hide b \<noteq> None)
     else sb_visible b \<and> \<not> sb_faded b \<and> sb_hide b = None \<and> sb_fadeOut b = None)"

lemma bar_ok_step: "bar_ok b \<Longrightarrow> bar_ok (bar_step ev b)"
  by (auto simp: bar_ok_def bar_step_def bar_effect_def Let_def split: prod.splits bar_event.splits option.splits)

text \<open>A bar that reports an error, or that something is loading, never fades or goes away on its own.\<close>

lemma error_bar_stays:
  "case fold bar_step evs (mount_bar now status message) of b \<Rightarrow>
     sb_status b = Bar_Ok \<or> sb_visible b \<and> \<not> sb_faded b"
proof -
  have "bar_ok (fold bar_step evs b)" if "bar_ok b" for b
    using that by (induction evs arbitrary: b) (simp_all add: bar_ok_step)
  moreover have "bar_ok (mount_bar now status message)"
    by (simp add: mount_bar_def bar_effect_def bar_ok_def)
  ultimately have "bar_ok (fold bar_step evs (mount_bar now status message))" by blast
  then show ?thesis by (simp add: bar_ok_def split: if_splits)
qed

subsection \<open>What a page shows when its configuration failed\<close>

text \<open>\<^verbatim>\<open>escape\<close> of the applications' entry points.\<close>

definition escape_markup :: "string \<Rightarrow> string" where
  "escape_markup s = concat (map (\<lambda>c. if c = CHR ''&'' then ''&amp;'' else if c = CHR ''<'' then ''&lt;'' else [c]) s)"

text \<open>Nothing escaped opens a tag, and two texts never look the same.\<close>

lemma escaped_opens_no_tag: "CHR ''<'' \<notin> set (escape_markup s)"
  by (auto simp: escape_markup_def split: if_splits)

lemma escape_markup_inject: "escape_markup s = escape_markup t \<Longrightarrow> s = t"
proof (induction s arbitrary: t)
  case Nil
  then show ?case by (cases t) (auto simp: escape_markup_def split: if_splits)
next
  case (Cons c s)
  then obtain d t' where t: "t = d # t'" by (cases t) (auto simp: escape_markup_def split: if_splits)
  have "escape_markup s = escape_markup t' \<and> c = d"
    using Cons.prems by (auto simp: t escape_markup_def split: if_splits)
  with Cons.IH t show ?case by simp
qed

end
