(* ===== verification/Ui_Effects.thy ===== *)
theory Ui_Effects
  imports Main
begin

text \<open>
  The loading effects of the pages: \<^verbatim>\<open>useEffect\<close> starts a request and returns a cleanup that sets a
  local \<^verbatim>\<open>cancelled\<close>. React runs the cleanup before the next run of the effect, so a page keeps the
  list of runs it started, oldest first.
\<close>

record load_run =
  lr_cancelled :: bool
  lr_waiting :: bool

definition cancel_runs :: "load_run list \<Rightarrow> load_run list" where
  "cancel_runs rs = map (\<lambda>r. r\<lparr>lr_cancelled := True\<rparr>) rs"

definition start_run :: "load_run list \<Rightarrow> load_run list" where
  "start_run rs = cancel_runs rs @ [\<lparr>lr_cancelled = False, lr_waiting = True\<rparr>]"

definition settle_run :: "nat \<Rightarrow> load_run list \<Rightarrow> load_run list" where
  "settle_run i rs = rs[i := (rs ! i)\<lparr>lr_waiting := False\<rparr>]"

definition awaits :: "nat \<Rightarrow> load_run list \<Rightarrow> bool" where
  "awaits i rs \<longleftrightarrow> i < length rs \<and> lr_waiting (rs ! i)"

text \<open>The contract of a page with one such effect, and what a page may do to its runs.\<close>

inductive run_change :: "load_run list \<Rightarrow> load_run list \<Rightarrow> bool" where
  same: "run_change rs rs"
| started: "run_change rs (start_run rs)"
| cleaned: "run_change rs (cancel_runs rs)"
| settled: "awaits i rs \<Longrightarrow> run_change rs (settle_run i rs)"

definition only_last_live :: "load_run list \<Rightarrow> bool" where
  "only_last_live rs \<longleftrightarrow> (\<forall>i. Suc i < length rs \<longrightarrow> lr_cancelled (rs ! i))"

lemma length_runs [simp]:
  "length (cancel_runs rs) = length rs" "length (start_run rs) = Suc (length rs)" "length (settle_run i rs) = length rs"
  by (simp_all add: cancel_runs_def start_run_def settle_run_def)

lemma settle_run_Nil [simp]: "settle_run i rs = [] \<longleftrightarrow> rs = []"
  by (simp add: settle_run_def)

lemma only_last_live_change: "run_change rs rs' \<Longrightarrow> only_last_live rs \<Longrightarrow> only_last_live rs'"
  by (induction rule: run_change.induct)
    (auto simp: only_last_live_def start_run_def cancel_runs_def settle_run_def awaits_def nth_list_update nth_append)

locale loading_page =
  fixes step :: "'e \<Rightarrow> 's \<Rightarrow> 's"
    and runs :: "'s \<Rightarrow> load_run list"
    and mounted :: "'s"
  assumes mounted_runs: "runs mounted = []"
    and step_runs: "run_change (runs s) (runs (step e s))"
begin

lemma only_last_live_run: "only_last_live (runs (fold step es mounted))"
proof -
  have "only_last_live (runs (fold step es s))" if "only_last_live (runs s)" for s
    using that by (induction es arbitrary: s) (auto intro: only_last_live_change [OF step_runs])
  then show ?thesis by (simp add: mounted_runs only_last_live_def)
qed

text \<open>Every run but the newest is cancelled, in every state the page can reach.\<close>

lemma older_cancelled:
  assumes "Suc i < length (runs (fold step es mounted))"
  shows "lr_cancelled (runs (fold step es mounted) ! i)"
  using only_last_live_run assms unfolding only_last_live_def by blast

end

end
