(* ===== verification/Dashboard.thy ===== *)
theory Dashboard
  imports Ui_Kit Ui_Effects "HOL-Library.Multiset" "HOL-Library.Sublist"
begin

text \<open>
  \<^verbatim>\<open>ui/homelab-dashboard-ui\<close>: DNS records from the Unifi controller turned into clusters of services,
  and the page that fetches, shows and filters them. The regular expression engine, the collation of
  \<^verbatim>\<open>localeCompare\<close>, the network and the JSON text are parameters.
\<close>

subsection \<open>Records and configuration\<close>

text \<open>The answer is cast to an array of records, so \<open>key\<close> may be missing where the code allows for it.\<close>

record dns_record =
  dn_key :: "string option"
  dn_value :: string
  dn_record_type :: string
  dn_enabled :: "bool option"

record dns_service =
  sv_name :: string
  sv_hostname :: string
  sv_url :: string

text \<open>An index is \<^const>\<open>None\<close> when \<^verbatim>\<open>parseInt\<close> gave \<open>NaN\<close>, which a \<open>Map\<close> treats as equal to itself.\<close>

record cluster =
  cl_index :: "int option"
  cl_label :: string
  cl_ip :: "string option"
  cl_color :: string
  cl_services :: "dns_service list"

record app_config =
  ac_title :: "string option"
  ac_site :: string
  ac_serverPattern :: string
  ac_scheme :: string
  ac_exclude :: "string list"
  ac_paths :: "(string, string) js_map"

text \<open>
  A compiled expression maps a text to no match or to the text of its first capture group, itself
  possibly \<open>undefined\<close>; \<open>regexp source flags\<close> is \<^verbatim>\<open>new RegExp(source, flags)\<close>, which may throw.
\<close>

type_synonym regex = "string \<Rightarrow> string option option"
type_synonym regex_compiler = "string \<Rightarrow> string \<Rightarrow> thrown + regex"

definition z_string_record :: "(string, string) js_map parser" where
  "z_string_record v = (case z_record v of
       None \<Rightarrow> None
     | Some m \<Rightarrow> those (map (\<lambda>(k, x). map_option (Pair k) (z_string (Some x))) m))"

definition AppConfigSchema :: "regex_compiler \<Rightarrow> app_config parser" where
  "AppConfigSchema regexp = z_object (\<lambda>field. do {
     title \<leftarrow> z_optional z_string (field ''title'');
     site \<leftarrow> z_object (\<lambda>unifi. z_default ''default'' z_string_min1 (unifi ''site'')) (field ''unifi'');
     serverPattern \<leftarrow> z_string (field ''serverPattern'');
     scheme \<leftarrow> z_default ''http'' (z_enum [(''http'', ''http''), (''https'', ''https'')]) (field ''scheme'');
     exclude \<leftarrow> z_default [] (z_array z_string) (field ''exclude'');
     paths \<leftarrow> z_default [] z_string_record (field ''paths'');
     if isl (regexp serverPattern '''') then None
     else Some \<lparr>ac_title = title, ac_site = site, ac_serverPattern = serverPattern, ac_scheme = scheme,
       ac_exclude = exclude, ac_paths = paths\<rparr> })"

subsection \<open>Names and paths\<close>

text \<open>
  \<^verbatim>\<open>name in paths\<close> and \<^verbatim>\<open>paths[name]\<close> see the members a plain object inherits. Host names are
  lower-cased first, and only these two inherited names have no capital; the texts are what a
  template literal makes of the members.
\<close>

definition inherited_member :: "string \<Rightarrow> string option" where
  "inherited_member name =
     (if name = ''constructor'' then Some ''function Object() { [native code] }''
      else if name = ''__proto__'' then Some ''[object Object]'' else None)"

definition member :: "(string, string) js_map \<Rightarrow> string \<Rightarrow> string option" where
  "member m name = (case map_of m name of Some v \<Rightarrow> Some v | None \<Rightarrow> inherited_member name)"

definition first_label :: "string \<Rightarrow> string" where
  "first_label hostname = hd (split_on (CHR ''.'') hostname)"

definition resolvePath :: "string \<Rightarrow> (string, string) js_map option \<Rightarrow> string" where
  "resolvePath hostname paths = (case paths of
       None \<Rightarrow> []
     | Some m \<Rightarrow>
         (case member m hostname of
            Some path \<Rightarrow> path
          | None \<Rightarrow> (case member m (first_label hostname) of Some path \<Rightarrow> path | None \<Rightarrow> [])))"

definition key_text :: "dns_record \<Rightarrow> string" where
  "key_text r = (case dn_key r of Some k \<Rightarrow> k | None \<Rightarrow> [])"

definition service_of :: "string \<Rightarrow> (string, string) js_map option \<Rightarrow> dns_record \<Rightarrow> dns_service" where
  "service_of scheme paths r = (let hostname = to_lower (key_text r) in
     \<lparr>sv_name = first_label hostname, sv_hostname = hostname,
      sv_url = scheme @ ''://'' @ hostname @ resolvePath hostname paths\<rparr>)"

definition ACCENT_COLORS :: "string list" where
  "ACCENT_COLORS = [''#5b8dd9'', ''#c97e3a'', ''#7a55c4'', ''#3a8a5a'', ''#d95b8d'', ''#5bc4c9'']"

definition accentColor :: "int option \<Rightarrow> string" where
  "accentColor index = (case index of
       None \<Rightarrow> ''#5b8dd9''
     | Some i \<Rightarrow> let k = js_rem (i - 1) 6 in if 0 \<le> k then ACCENT_COLORS ! nat k else ''#5b8dd9'')"

subsection \<open>Anchors\<close>

record anchor =
  an_index :: "int option"
  an_ip :: string
  an_hostname :: string

text \<open>\<^verbatim>\<open>parseInt(s, 10)\<close>: a sign and the longest run of decimal digits.\<close>

definition parseInt_10 :: "string option \<Rightarrow> int option" where
  "parseInt_10 s = (case s of
       None \<Rightarrow> None
     | Some t \<Rightarrow>
         let u = dropWhile is_space t;
             digits = (if take 1 u = ''-'' \<or> take 1 u = ''+'' then drop 1 u else u)
         in if starts_with_digit 10 digits
            then Some ((if take 1 u = ''-'' then -1 else 1) * int (read_digits 10 0 digits)) else None)"

definition findAnchors :: "dns_record list \<Rightarrow> regex \<Rightarrow> anchor list" where
  "findAnchors records pattern = List.map_filter (\<lambda>r.
     if dn_enabled r = Some False \<or> dn_record_type r \<noteq> ''A'' then None
     else (case pattern (key_text r) of
         None \<Rightarrow> None
       | Some g \<Rightarrow> Some \<lparr>an_index = parseInt_10 g, an_ip = dn_value r, an_hostname = to_lower (key_text r)\<rparr>)) records"

text \<open>\<^verbatim>\<open>new Map(pairs)\<close>, and the comparison of two anchors, where \<open>NaN\<close> counts as no difference.\<close>

definition new_map :: "('k \<times> 'v) list \<Rightarrow> ('k, 'v) js_map" where
  "new_map pairs = fold (\<lambda>(k, v). AList.update k v) pairs []"

definition anchor_before :: "anchor \<Rightarrow> anchor \<Rightarrow> bool" where
  "anchor_before x y = (case (an_index x, an_index y) of (Some i, Some j) \<Rightarrow> i \<le> j | _ \<Rightarrow> True)"

subsection \<open>Services\<close>

definition target_index :: "(string, int option) js_map \<Rightarrow> (string, int option) js_map \<Rightarrow> dns_record \<Rightarrow> int option option" where
  "target_index ipToIndex hostToIndex r =
     (if dn_record_type r = ''A'' then map_of ipToIndex (dn_value r)
      else if dn_record_type r = ''CNAME'' then map_of hostToIndex (to_lower (dn_value r))
      else None)"

definition assign_record ::
  "regex \<Rightarrow> (dns_record \<Rightarrow> int option option) \<Rightarrow> string \<Rightarrow> string list \<Rightarrow> (string, string) js_map option \<Rightarrow> dns_record
     \<Rightarrow> (int option, dns_service list) js_map \<Rightarrow> (int option, dns_service list) js_map" where
  "assign_record pattern target scheme excluded paths r clusterMap =
     (if dn_enabled r = Some False then clusterMap
      else if pattern (key_text r) \<noteq> None then clusterMap
      else (case target r of
          None \<Rightarrow> clusterMap
        | Some targetIdx \<Rightarrow>
            (case map_of clusterMap targetIdx of
               None \<Rightarrow> clusterMap
             | Some services \<Rightarrow>
                 if to_lower (key_text r) \<in> set excluded then clusterMap
                 else AList.update targetIdx (services @ [service_of scheme paths r]) clusterMap)))"

definition assignServices ::
  "dns_record list \<Rightarrow> anchor list \<Rightarrow> regex \<Rightarrow> string \<Rightarrow> string list \<Rightarrow> (string, string) js_map option
     \<Rightarrow> (int option, dns_service list) js_map" where
  "assignServices records anchors pattern scheme excluded paths =
     (let ipToIndex = new_map (map (\<lambda>a. (an_ip a, an_index a)) anchors);
          hostToIndex = new_map (map (\<lambda>a. (an_hostname a, an_index a)) anchors);
          clusterMap = fold (\<lambda>a. AList.update (an_index a) []) (js_sort anchor_before anchors) []
      in fold (assign_record pattern (target_index ipToIndex hostToIndex) scheme excluded paths) records clusterMap)"

text \<open>\<open>locale_le\<close> is \<^verbatim>\<open>a.localeCompare(b) <= 0\<close>.\<close>

definition by_name :: "(string \<Rightarrow> string \<Rightarrow> bool) \<Rightarrow> dns_service \<Rightarrow> dns_service \<Rightarrow> bool" where
  "by_name locale_le a b = locale_le (sv_name a) (sv_name b)"

definition subnet_record ::
  "string \<Rightarrow> string list \<Rightarrow> (string, string) js_map option \<Rightarrow> dns_record
     \<Rightarrow> int \<times> (string, int \<times> dns_service list) js_map \<Rightarrow> int \<times> (string, int \<times> dns_service list) js_map" where
  "subnet_record scheme excluded paths r st = (case st of (idx, groups) \<Rightarrow>
     if dn_record_type r \<noteq> ''A'' \<or> dn_enabled r = Some False then st
     else let subnet = join ''.'' (take 3 (split_on (CHR ''.'') (dn_value r)));
              (idx', groups') = (if map_of groups subnet = None then (idx + 1, AList.update subnet (idx, []) groups) else (idx, groups))
          in if to_lower (key_text r) \<in> set excluded then (idx', groups')
             else (case map_of groups' subnet of
                 None \<Rightarrow> (idx', groups')
               | Some (index, services) \<Rightarrow> (idx', AList.update subnet (index, services @ [service_of scheme paths r]) groups')))"

definition fallbackBySubnet ::
  "(string \<Rightarrow> string \<Rightarrow> bool) \<Rightarrow> dns_record list \<Rightarrow> string \<Rightarrow> string list \<Rightarrow> (string, string) js_map option \<Rightarrow> cluster list" where
  "fallbackBySubnet locale_le records scheme excluded paths =
     map (\<lambda>(subnet, index, services).
         \<lparr>cl_index = Some index, cl_label = subnet @ ''.x'', cl_ip = Some (subnet @ ''.x''), cl_color = accentColor (Some index),
          cl_services = js_sort (by_name locale_le) services\<rparr>)
       (snd (fold (subnet_record scheme excluded paths) records (1, [])))"

definition show_index :: "int option \<Rightarrow> string" where
  "show_index i = (case i of Some n \<Rightarrow> show_int n | None \<Rightarrow> ''NaN'')"

definition parseDnsRecords ::
  "regex_compiler \<Rightarrow> (string \<Rightarrow> string \<Rightarrow> bool) \<Rightarrow> dns_record list \<Rightarrow> app_config \<Rightarrow> thrown + cluster list" where
  "parseDnsRecords regexp locale_le records cfg =
     (case regexp (ac_serverPattern cfg) ''i'' of
        Inl e \<Rightarrow> Inl e
      | Inr pattern \<Rightarrow>
          let scheme = ac_scheme cfg;
              excluded = map to_lower (ac_exclude cfg);
              anchors = findAnchors records pattern
          in if anchors = [] then Inr (fallbackBySubnet locale_le records scheme excluded (Some (ac_paths cfg)))
             else let clusterMap = assignServices records anchors pattern scheme excluded (Some (ac_paths cfg));
                      ipByIndex = new_map (map (\<lambda>a. (an_index a, an_ip a)) anchors)
                  in Inr (filter (\<lambda>c. cl_services c \<noteq> [])
                       (map (\<lambda>(idx, services).
                           \<lparr>cl_index = idx, cl_label = ''server'' @ show_index idx, cl_ip = map_of ipByIndex idx,
                            cl_color = accentColor idx, cl_services = js_sort (by_name locale_le) services\<rparr>) clusterMap)))"


subsection \<open>Every service in its cluster\<close>

lemma map_of_new_map: "map_of (new_map ps) = map_of (rev ps)"
proof -
  have "map_of (fold (\<lambda>(k, v). AList.update k v) ps m) = map_of m ++ map_of (rev ps)" for m
    by (induction ps arbitrary: m) (auto simp: AList.update_conv' fun_eq_iff map_add_def split: option.splits)
  then show ?thesis by (simp add: new_map_def)
qed

lemma mset_insert_by [simp]: "mset (insert_by le x xs) = add_mset x (mset xs)"
  by (induction xs) auto

lemma mset_js_sort [simp]: "mset (js_sort le xs) = mset xs"
  by (induction xs) (simp_all add: js_sort_def)

lemma js_sort_Nil [simp]: "js_sort le xs = [] \<longleftrightarrow> xs = []"
  by (metis mset_js_sort mset_zero_iff)

text \<open>
  What places a record, without the loop: it is enabled, no anchor and not hidden, and the last anchor
  with its address (or, for an alias, with the host it names) gives the index.
\<close>

definition eligible :: "regex \<Rightarrow> string list \<Rightarrow> dns_record \<Rightarrow> bool" where
  "eligible pattern excluded r \<longleftrightarrow> dn_enabled r \<noteq> Some False \<and> pattern (key_text r) = None
     \<and> to_lower (key_text r) \<notin> set excluded"

definition home_of :: "anchor list \<Rightarrow> dns_record \<Rightarrow> int option option" where
  "home_of anchors r =
     (if dn_record_type r = ''A'' then map_option an_index (find (\<lambda>a. an_ip a = dn_value r) (rev anchors))
      else if dn_record_type r = ''CNAME'' then map_option an_index (find (\<lambda>a. an_hostname a = to_lower (dn_value r)) (rev anchors))
      else None)"

lemma map_of_pairs_find: "map_of (map (\<lambda>a. (f a, g a)) xs) k = map_option g (find (\<lambda>a. f a = k) xs)"
  by (induction xs) auto

lemma target_index_home:
  "target_index (new_map (map (\<lambda>a. (an_ip a, an_index a)) anchors)) (new_map (map (\<lambda>a. (an_hostname a, an_index a)) anchors))
     = home_of anchors"
  by (simp add: fun_eq_iff target_index_def home_of_def map_of_new_map rev_map map_of_pairs_find)

lemma home_of_anchor: "home_of anchors r = Some i \<Longrightarrow> i \<in> an_index ` set anchors"
  by (auto simp: home_of_def find_Some_iff split: if_splits) (metis image_eqI in_set_conv_nth length_rev set_rev)+

lemma fold_assign:
  assumes "\<forall>r i. target r = Some i \<longrightarrow> i \<in> fst ` set m"
  shows "map fst (fold (assign_record pattern target scheme excluded paths) rs m) = map fst m
    \<and> map_of (fold (assign_record pattern target scheme excluded paths) rs m) i
      = map_option (\<lambda>s. s @ map (service_of scheme paths) (filter (\<lambda>r. eligible pattern excluded r \<and> target r = Some i) rs)) (map_of m i)"
  using assms
proof (induction rs arbitrary: m)
  case Nil
  then show ?case by (simp add: option.map_ident)
next
  case (Cons r rs)
  let ?m = "assign_record pattern target scheme excluded paths r m"
  have keys: "map fst ?m = map fst m"
    by (auto simp: assign_record_def update_keys Let_def dest!: map_of_SomeD intro: rev_image_eqI split: option.splits)
  have here: "map_of ?m i = map_option (\<lambda>s. s @ map (service_of scheme paths) (filter (\<lambda>r. eligible pattern excluded r \<and> target r = Some i) [r])) (map_of m i)"
    using Cons.prems
    by (auto simp: assign_record_def eligible_def AList.update_conv' Let_def map_of_eq_None_iff option.map_ident split: option.splits)
  have "fst ` set ?m = fst ` set m" using keys by (metis list.set_map)
  with Cons.prems have "\<forall>r i. target r = Some i \<longrightarrow> i \<in> fst ` set ?m" by simp
  from Cons.IH [OF this] show ?case
    by (auto simp: keys here option.map_comp comp_def intro!: option.map_cong)
qed

lemma fresh_clusters:
  "distinct (map fst m) \<Longrightarrow> distinct (map fst (fold (\<lambda>a. AList.update (an_index a) []) as m))"
  "fst ` set (fold (\<lambda>a. AList.update (an_index a) []) as m) = an_index ` set as \<union> fst ` set m"
  "map_of (fold (\<lambda>a. AList.update (an_index a) []) as m) i = (if i \<in> an_index ` set as then Some [] else map_of m i)"
  by (induction as arbitrary: m) (auto simp: distinct_update keys_update AList.update_conv')

lemma entries_by_key:
  assumes "distinct (map fst m)" "\<And>k. k \<in> fst ` set m \<Longrightarrow> map_of m k = Some (f k)"
  shows "m = map (\<lambda>k. (k, f k)) (map fst m)"
proof -
  have "(k, v) \<in> set m \<Longrightarrow> v = f k" for k v
    using assms by (metis fst_conv image_eqI map_of_is_SomeI option.inject)
  then show ?thesis by (induction m) auto
qed

lemma mset_partition:
  assumes "distinct ks"
  shows "mset (concat (map (\<lambda>k. filter (\<lambda>x. P x \<and> f x = Some k) xs) ks)) = mset (filter (\<lambda>x. P x \<and> f x \<in> Some ` set ks) xs)"
  using assms
proof (induction ks)
  case (Cons k ks)
  have "mset (filter (\<lambda>x. P x \<and> f x \<in> Some ` set (k # ks)) xs)
      = mset (filter (\<lambda>x. P x \<and> f x = Some k) xs) + mset (filter (\<lambda>x. P x \<and> f x \<in> Some ` set ks) xs)"
    using Cons.prems by (induction xs) auto
  with Cons show ?case by simp
qed simp

definition cluster_of ::
  "(string \<Rightarrow> string \<Rightarrow> bool) \<Rightarrow> anchor list \<Rightarrow> (int option \<Rightarrow> dns_service list) \<Rightarrow> int option \<Rightarrow> cluster" where
  "cluster_of locale_le anchors members i =
     \<lparr>cl_index = i, cl_label = ''server'' @ show_index i,
      cl_ip = map_option an_ip (find (\<lambda>a. an_index a = i) (rev anchors)),
      cl_color = accentColor i, cl_services = js_sort (by_name locale_le) (members i)\<rparr>"

text \<open>The clusters in closed form: one for each index an anchor has, in the order of the sorted anchors.\<close>

lemma parse_grouped:
  fixes cfg :: app_config
  assumes "regexp (ac_serverPattern cfg) ''i'' = Inr pattern" "findAnchors records pattern \<noteq> []"
  defines "anchors \<equiv> findAnchors records pattern"
  defines "members \<equiv> \<lambda>i. map (service_of (ac_scheme cfg) (Some (ac_paths cfg)))
    (filter (\<lambda>r. eligible pattern (map to_lower (ac_exclude cfg)) r \<and> home_of anchors r = Some i) records)"
  shows "\<exists>ks. distinct ks \<and> set ks = an_index ` set anchors
    \<and> parseDnsRecords regexp locale_le records cfg = Inr (filter (\<lambda>c. cl_services c \<noteq> []) (map (cluster_of locale_le anchors members) ks))"
proof (intro exI conjI)
  let ?fresh = "fold (\<lambda>a. AList.update (an_index a) []) (js_sort anchor_before anchors) [] :: (int option, dns_service list) js_map"
  let ?m = "assignServices records anchors pattern (ac_scheme cfg) (map to_lower (ac_exclude cfg)) (Some (ac_paths cfg))"
  have m0: "distinct (map fst ?fresh)" "fst ` set ?fresh = an_index ` set anchors"
    "map_of ?fresh i = (if i \<in> an_index ` set anchors then Some [] else None)" for i
    by (simp_all add: fresh_clusters)
  have home: "\<forall>r i. home_of anchors r = Some i \<longrightarrow> i \<in> fst ` set ?fresh"
    using home_of_anchor m0(2) by blast
  have m: "?m = fold (assign_record pattern (home_of anchors) (ac_scheme cfg) (map to_lower (ac_exclude cfg)) (Some (ac_paths cfg))) records ?fresh"
    by (simp add: assignServices_def Let_def target_index_home)
  note assigned = fold_assign [where target = "home_of anchors" and m = ?fresh, OF home]
  have keys: "map fst ?m = map fst ?fresh" unfolding m using assigned by blast
  have "map_of ?m i = Some (members i)" if "i \<in> fst ` set ?m" for i
  proof -
    have "i \<in> an_index ` set anchors" using that keys m0(2) by (metis list.set_map)
    with assigned [where i = i] m0(3) [of i] show ?thesis unfolding m members_def by simp
  qed
  with keys m0(1) have eq: "?m = map (\<lambda>i. (i, members i)) (map fst ?fresh)"
    using entries_by_key [of ?m members] by metis
  show "distinct (map fst ?fresh)" "set (map fst ?fresh) = an_index ` set anchors" using m0(1,2) by simp_all
  show "parseDnsRecords regexp locale_le records cfg
      = Inr (filter (\<lambda>c. cl_services c \<noteq> []) (map (cluster_of locale_le anchors members) (map fst ?fresh)))"
    using assms(1,2)
    by (simp add: parseDnsRecords_def Let_def anchors_def [symmetric] eq cluster_of_def comp_def map_of_new_map rev_map map_of_pairs_find)
qed

text \<open>
  Property C34. When the pattern of the servers compiles and some record is an anchor, every record that is to be shown
  is shown once, in the cluster its address or alias resolves to: the services of the clusters are those of
  the eligible records with a home, none lost and none twice; each cluster holds the services of its own index; no two have the same index and none is
  empty.
\<close>

theorem services_placed_once:
  assumes "regexp (ac_serverPattern cfg) ''i'' = Inr pattern" "findAnchors records pattern \<noteq> []"
  shows "\<exists>cs. parseDnsRecords regexp locale_le records cfg = Inr cs
    \<and> mset (concat (map cl_services cs)) = mset (map (service_of (ac_scheme cfg) (Some (ac_paths cfg)))
        (filter (\<lambda>r. eligible pattern (map to_lower (ac_exclude cfg)) r \<and> home_of (findAnchors records pattern) r \<noteq> None) records))
    \<and> list_all (\<lambda>c. cl_services c \<noteq> [] \<and> mset (cl_services c) = mset (map (service_of (ac_scheme cfg) (Some (ac_paths cfg)))
        (filter (\<lambda>r. eligible pattern (map to_lower (ac_exclude cfg)) r \<and> home_of (findAnchors records pattern) r = Some (cl_index c)) records))) cs
    \<and> distinct (map cl_index cs)"
proof -
  define anchors where "anchors = findAnchors records pattern"
  let ?P = "eligible pattern (map to_lower (ac_exclude cfg))"
  let ?svc = "service_of (ac_scheme cfg) (Some (ac_paths cfg))"
  define members where "members = (\<lambda>i. map ?svc (filter (\<lambda>r. ?P r \<and> home_of anchors r = Some i) records))"
  obtain ks where ks: "distinct ks" "set ks = an_index ` set anchors"
    and parse: "parseDnsRecords regexp locale_le records cfg = Inr (filter (\<lambda>c. cl_services c \<noteq> []) (map (cluster_of locale_le anchors members) ks))"
    using parse_grouped [where regexp = regexp and cfg = cfg and pattern = pattern, OF assms, of locale_le] unfolding anchors_def members_def by blast
  let ?cs = "filter (\<lambda>c. cl_services c \<noteq> []) (map (cluster_of locale_le anchors members) ks)"
  have "mset (concat (map cl_services ?cs)) = mset (concat (map members ks))"
    by (induction ks) (auto simp: cluster_of_def)
  also have "concat (map members ks) = map ?svc (concat (map (\<lambda>i. filter (\<lambda>r. ?P r \<and> home_of anchors r = Some i) records) ks))"
    by (simp add: members_def map_concat comp_def)
  also have "mset \<dots> = mset (map ?svc (filter (\<lambda>r. ?P r \<and> home_of anchors r \<in> Some ` set ks) records))"
    using mset_partition [OF ks(1), of ?P "home_of anchors" records] by (simp del: mset_filter)
  also have "(\<lambda>r. ?P r \<and> home_of anchors r \<in> Some ` set ks) = (\<lambda>r. ?P r \<and> home_of anchors r \<noteq> None)"
    using home_of_anchor by (auto simp: fun_eq_iff ks(2))
  finally have all: "mset (concat (map cl_services ?cs)) = mset (map ?svc (filter (\<lambda>r. ?P r \<and> home_of anchors r \<noteq> None) records))" .
  have each: "list_all (\<lambda>c. cl_services c \<noteq> [] \<and> mset (cl_services c) = mset (map ?svc (filter (\<lambda>r. ?P r \<and> home_of anchors r = Some (cl_index c)) records))) ?cs"
    by (auto simp: list_all_iff cluster_of_def members_def)
  have "map cl_index ?cs = filter (\<lambda>i. members i \<noteq> []) ks" by (induction ks) (auto simp: cluster_of_def)
  then have "distinct (map cl_index ?cs)" using ks(1) by simp
  with all each parse show ?thesis unfolding anchors_def by blast
qed

definition sample_regexp :: regex_compiler where
  "sample_regexp source flags = Inr (\<lambda>s. if starts_with ''server'' s then Some (Some (takeWhile (\<lambda>c. c \<noteq> CHR ''.'') (drop 6 s))) else None)"

definition sample_dashboard :: app_config where
  "sample_dashboard = \<lparr>ac_title = None, ac_site = ''default'', ac_serverPattern = ''^server'', ac_scheme = ''http'',
     ac_exclude = [], ac_paths = [(''traefik'', ''/dashboard'')]\<rparr>"

definition sample_records :: "dns_record list" where
  "sample_records =
     [\<lparr>dn_key = Some ''server2.home'', dn_value = ''10.0.0.2'', dn_record_type = ''A'', dn_enabled = Some True\<rparr>,
      \<lparr>dn_key = Some ''Traefik.home'', dn_value = ''10.0.0.2'', dn_record_type = ''A'', dn_enabled = None\<rparr>]"

lemma services_placed_once_witness:
  "\<exists>cs. parseDnsRecords sample_regexp (\<lambda>_ _. True) sample_records sample_dashboard = Inr cs \<and> length (concat (map cl_services cs)) = 1"
proof -
  let ?pattern = "\<lambda>s. if starts_with ''server'' s then Some (Some (takeWhile (\<lambda>c. c \<noteq> CHR ''.'') (drop 6 s))) else None"
  have re: "sample_regexp (ac_serverPattern sample_dashboard) ''i'' = Inr ?pattern" by (simp add: sample_regexp_def)
  have anchors: "findAnchors sample_records ?pattern \<noteq> []" by code_simp
  obtain cs where cs: "parseDnsRecords sample_regexp (\<lambda>_ _. True) sample_records sample_dashboard = Inr cs"
    and m: "mset (concat (map cl_services cs)) = mset (map (service_of ''http'' (Some [(''traefik'', ''/dashboard'')]))
      (filter (\<lambda>r. eligible ?pattern (map to_lower []) r \<and> home_of (findAnchors sample_records ?pattern) r \<noteq> None) sample_records))"
    using services_placed_once [where regexp = sample_regexp and cfg = sample_dashboard and pattern = ?pattern, OF re anchors, of "\<lambda>_ _. True"] by (auto simp: sample_dashboard_def)
  have "length (filter (\<lambda>r. eligible ?pattern (map to_lower []) r \<and> home_of (findAnchors sample_records ?pattern) r \<noteq> None) sample_records) = 1"
    by code_simp
  with arg_cong [OF m, of size] have "length (concat (map cl_services cs)) = 1" by (metis length_map size_mset)
  with cs show ?thesis by blast
qed

text \<open>With a number in every anchor's name the clusters are in the order of their numbers.\<close>

lemma clusters_in_order:
  assumes "list_all (\<lambda>a. an_index a \<noteq> None) anchors"
  shows "sorted (map (\<lambda>a. the (an_index a)) (js_sort anchor_before anchors))"
proof -
  let ?le = "\<lambda>x y. the (an_index x) \<le> the (an_index y)"
  have same: "js_sort anchor_before xs = js_sort ?le xs" if "list_all (\<lambda>a. an_index a \<noteq> None) xs" for xs
    using that
  proof (induction xs)
    case (Cons x xs)
    have "insert_by anchor_before x ys = insert_by ?le x ys" if "list_all (\<lambda>a. an_index a \<noteq> None) ys" for ys
      using that Cons.prems by (induction ys) (auto simp: anchor_before_def)
    moreover have "list_all (\<lambda>a. an_index a \<noteq> None) (js_sort ?le xs)" using Cons.prems by (simp add: list_all_iff)
    ultimately show ?case using Cons by (simp add: js_sort_def)
  qed (simp add: js_sort_def)
  have "sorted_wrt ?le (js_sort ?le anchors)" by (rule sorted_js_sort) auto
  then show ?thesis using same [OF assms] by (simp add: sorted_wrt_map)
qed

text \<open>
  Without anchors the records are grouped by subnet, and a group whose every record is hidden stays as
  an empty cluster, which the grouping by anchors leaves out.
\<close>

lemma fallback_keeps_empty_cluster:
  "\<exists>records. parseDnsRecords (\<lambda>_ _. Inr (\<lambda>_. None)) locale_le records (sample_dashboard\<lparr>ac_exclude := [''nas.home'']\<rparr>)
     = Inr [\<lparr>cl_index = Some 1, cl_label = ''10.0.0.x'', cl_ip = Some ''10.0.0.x'', cl_color = ''#5b8dd9'', cl_services = []\<rparr>]"
proof
  let ?r = "\<lparr>dn_key = Some ''nas.home'', dn_value = ''10.0.0.7'', dn_record_type = ''A'', dn_enabled = None\<rparr>"
  show "parseDnsRecords (\<lambda>_ _. Inr (\<lambda>_. None)) locale_le [?r] (sample_dashboard\<lparr>ac_exclude := [''nas.home'']\<rparr>)
     = Inr [\<lparr>cl_index = Some 1, cl_label = ''10.0.0.x'', cl_ip = Some ''10.0.0.x'', cl_color = ''#5b8dd9'', cl_services = []\<rparr>]"
    by (simp add: parseDnsRecords_def findAnchors_def fallbackBySubnet_def subnet_record_def key_text_def sample_dashboard_def
        js_sort_def accentColor_def ACCENT_COLORS_def js_rem_def to_lower_def lower_char_def List.map_filter_simps)
qed

text \<open>A host called \<open>constructor\<close> is given the source text of a function as the path of its tile.\<close>

lemma inherited_path: "resolvePath ''constructor.home'' (Some []) = ''function Object() { [native code] }''"
  by (simp add: resolvePath_def member_def inherited_member_def first_label_def)

subsection \<open>Fetching the records\<close>

datatype dns_body = Records "dns_record list" | Not_An_Array

datatype load_failure = Unifi_Auth_Error string | Load_Error thrown

text \<open>The answer to the request comes with what reading its body as JSON gives.\<close>

type_synonym dns_answer = "http_response \<times> (thrown + dns_body)"

definition fetchDnsRecords ::
  "(string \<Rightarrow> (dns_answer, 's) effect) \<Rightarrow> (request_outcome \<Rightarrow> 's \<Rightarrow> 's) \<Rightarrow> app_config \<Rightarrow> (load_failure, dns_record list, 's) action" where
  "fetchDnsRecords fetch onOutcome cfg =
     and_then (catching (fetch (''/proxy/network/v2/api/site/'' @ ac_site cfg @ ''/static-dns''))
         (\<lambda>error. and_then (doing (onOutcome classifyError)) (\<lambda>_. throwing (Load_Error error))))
       (\<lambda>(res, body). and_then (doing (onOutcome (classifyResponse res))) (\<lambda>_.
          let failed = throwing (Load_Error (PlainError
                (''Could not retrieve DNS records from Unifi (HTTP '' @ show_int (hr_status res) @ '').''))) in
          if hr_status res = 401 \<or> hr_status res = 403
          then throwing (Unifi_Auth_Error (''Unifi API key rejected (HTTP '' @ show_int (hr_status res) @ '').''))
          else if response_ok res then
            (case body of
               Inl error \<Rightarrow> throwing (Load_Error error)
             | Inr (Records records) \<Rightarrow> returning records
             | Inr Not_An_Array \<Rightarrow> failed)
          else failed))"

subsection \<open>The page\<close>

text \<open>
  The page keeps what it shows, the status of the controller, and for each run of its loading effect
  whether the cleanup marked it cancelled and whether its request is still out.
\<close>

record dash_page =
  da_clusters :: "cluster list"
  da_status :: "status_variant \<times> string"
  da_query :: string
  da_hook :: status_hook
  da_loads :: "load_run list"

definition DASH_OPTIONS :: status_options where
  "DASH_OPTIONS = \<lparr>so_onlineAware = True, so_recovery = Some (recovery_delays None None)\<rparr>"

definition open_page :: dash_page where
  "open_page = \<lparr>da_clusters = [], da_status = (Bar_Loading, ''Connecting to the Unifi controller'' @ ellipsis), da_query = [],
     da_hook = mount_hook DASH_OPTIONS, da_loads = []\<rparr>"

text \<open>
  What happens to the page: its loading effect runs (at the mount, or when the configuration changed)
  or is cleaned up, the request of a run is answered, the status hook has an event, a key is typed.
\<close>

datatype dash_event =
    Effect_Runs
  | Effect_Cleaned
  | Records_Answered nat "thrown + dns_answer"
  | Hook_Event hook_event
  | Typed string
  | Escape_Key

definition failure_text :: "load_failure \<Rightarrow> string" where
  "failure_text err = (case err of
       Unifi_Auth_Error message \<Rightarrow> message @ '' Check the SECRET_UNIFI_API_KEY secret behind the proxy.''
     | Load_Error e \<Rightarrow> error_text e)"

definition dash_report :: "request_outcome \<Rightarrow> dash_page \<Rightarrow> dash_page" where
  "dash_report outcome pg = pg\<lparr>da_hook := hook_step DASH_OPTIONS (Reported outcome) (da_hook pg)\<rparr>"

definition records_answered ::
  "regex_compiler \<Rightarrow> (string \<Rightarrow> string \<Rightarrow> bool) \<Rightarrow> app_config \<Rightarrow> bool \<Rightarrow> thrown + dns_answer \<Rightarrow> dash_page \<Rightarrow> dash_page" where
  "records_answered regexp locale_le cfg cancelled answer pg =
     (case fetchDnsRecords (\<lambda>_. lifted answer) dash_report cfg pg of
        (Inl err, pg') \<Rightarrow> if cancelled then pg' else pg'\<lparr>da_status := (Bar_Error, failure_text err)\<rparr>
      | (Inr records, pg') \<Rightarrow>
          if cancelled then pg'
          else (case parseDnsRecords regexp locale_le records cfg of
              Inl e \<Rightarrow> pg'\<lparr>da_status := (Bar_Error, error_text e)\<rparr>
            | Inr parsed \<Rightarrow> pg'\<lparr>da_clusters := parsed, da_status := (Bar_Ok, ''Loaded '' @ show_nat (length records)
                @ '' DNS records '' @ right_arrow @ '' '' @ show_nat (length parsed) @ '' cluster(s)'')\<rparr>))"

definition dash_step :: "regex_compiler \<Rightarrow> (string \<Rightarrow> string \<Rightarrow> bool) \<Rightarrow> app_config \<Rightarrow> dash_event \<Rightarrow> dash_page \<Rightarrow> dash_page" where
  "dash_step regexp locale_le cfg ev pg = (case ev of
       Effect_Runs \<Rightarrow> pg\<lparr>da_status := (Bar_Loading, ''Fetching DNS records'' @ ellipsis), da_loads := start_run (da_loads pg)\<rparr>
     | Effect_Cleaned \<Rightarrow> pg\<lparr>da_loads := cancel_runs (da_loads pg)\<rparr>
     | Records_Answered i answer \<Rightarrow>
         if awaits i (da_loads pg)
         then records_answered regexp locale_le cfg (lr_cancelled (da_loads pg ! i)) answer (pg\<lparr>da_loads := settle_run i (da_loads pg)\<rparr>)
         else pg
     | Hook_Event e \<Rightarrow> pg\<lparr>da_hook := hook_step DASH_OPTIONS e (da_hook pg)\<rparr>
     | Typed q \<Rightarrow> pg\<lparr>da_query := q\<rparr>
     | Escape_Key \<Rightarrow> pg\<lparr>da_query := []\<rparr>)"

text \<open>The probe of the status hook: the same request, with nobody told of its outcome.\<close>

definition recovery_probe :: "app_config \<Rightarrow> thrown + dns_answer \<Rightarrow> bool" where
  "recovery_probe cfg answer = (\<not> isl (fst (fetchDnsRecords (\<lambda>_. lifted answer) (\<lambda>_. id) cfg ())))"

text \<open>\<^verbatim>\<open>s.includes(q)\<close>, and the clusters the search field leaves.\<close>

definition filtered :: "string \<Rightarrow> cluster list \<Rightarrow> cluster list" where
  "filtered query clusters =
     (let q = trim (to_lower query) in
      if q = [] then clusters
      else filter (\<lambda>c. cl_services c \<noteq> []) (map (\<lambda>c. c\<lparr>cl_services := filter (\<lambda>s. sublist q (sv_name s) \<or> sublist q (sv_hostname s))
        (cl_services c)\<rparr>) clusters))"

definition no_matches :: "dash_page \<Rightarrow> bool" where
  "no_matches pg \<longleftrightarrow> trim (da_query pg) \<noteq> [] \<and> filtered (da_query pg) (da_clusters pg) = []"

definition dash_banner :: "dash_page \<Rightarrow> (status_variant \<times> string) option" where
  "dash_banner pg = ApiStatusBanner (sh_status (da_hook pg)) ''the Unifi controller''"

text \<open>The icon of a tile: the favicon of the origin, or the first letters of the name.\<close>

definition tile_icon :: "(string \<Rightarrow> string option) \<Rightarrow> bool \<Rightarrow> dns_service \<Rightarrow> string + string" where
  "tile_icon origin imgFailed svc = (case origin (sv_url svc) of
       Some base \<Rightarrow> if imgFailed then Inr (take 3 (sv_name svc)) else Inl (base @ ''/favicon.ico'')
     | None \<Rightarrow> Inr (take 3 (sv_name svc)))"

definition hintFor_dashboard :: "thrown + runtime_config_error \<Rightarrow> string" where
  "hintFor_dashboard error = (case error of
       Inl _ \<Rightarrow> ''Unexpected error while starting the dashboard.''
     | Inr e \<Rightarrow> (case ce_reason e of
           Config_Not_Found \<Rightarrow> ''Copy config.example.json to public/config.json, or mount it as a ConfigMap at /usr/share/nginx/html/config.json.''
         | Config_Not_Json \<Rightarrow> ''nginx must serve config.json before the SPA catch-all, or the response is index.html.''
         | Config_Invalid \<Rightarrow> ''config.json was loaded but does not match the schema in src/runtime/RuntimeConfig.ts.''
         | Config_Network \<Rightarrow> ''The config request never completed '' @ em_dash @ '' check the dev server or the network.''))"

subsection \<open>What the page shows\<close>

lemma fetch_outcome:
  "snd (fetchDnsRecords (\<lambda>_. lifted answer) onOutcome cfg s)
     = onOutcome (case answer of Inl _ \<Rightarrow> Network_Failure | Inr (res, _) \<Rightarrow> classifyResponse res) s"
  by (auto simp: fetchDnsRecords_def and_then_def catching_def lifted_def classifyError_def Let_def
      split: sum.splits prod.splits dns_body.splits)

lemma records_answered_simps [simp]:
  "da_hook (records_answered regexp locale_le cfg cancelled answer pg) = hook_step DASH_OPTIONS
     (Reported (case answer of Inl _ \<Rightarrow> Network_Failure | Inr (res, _) \<Rightarrow> classifyResponse res)) (da_hook pg)"
  "da_loads (records_answered regexp locale_le cfg cancelled answer pg) = da_loads pg"
proof -
  obtain r pg' where f: "fetchDnsRecords (\<lambda>_. lifted answer) dash_report cfg pg = (r, pg')" by (meson surj_pair)
  have pg': "pg' = dash_report (case answer of Inl _ \<Rightarrow> Network_Failure | Inr (res, _) \<Rightarrow> classifyResponse res) pg"
    using fetch_outcome [of answer dash_report cfg pg] f by simp
  show "da_hook (records_answered regexp locale_le cfg cancelled answer pg) = hook_step DASH_OPTIONS
     (Reported (case answer of Inl _ \<Rightarrow> Network_Failure | Inr (res, _) \<Rightarrow> classifyResponse res)) (da_hook pg)"
    "da_loads (records_answered regexp locale_le cfg cancelled answer pg) = da_loads pg"
    by (simp_all add: records_answered_def f pg' dash_report_def split: sum.splits)
qed

lemma cancelled_answer [simp]:
  "da_clusters (records_answered regexp locale_le cfg True answer pg) = da_clusters pg"
  "da_status (records_answered regexp locale_le cfg True answer pg) = da_status pg"
proof -
  obtain r pg' where f: "fetchDnsRecords (\<lambda>_. lifted answer) dash_report cfg pg = (r, pg')" by (meson surj_pair)
  have pg': "pg' = dash_report (case answer of Inl _ \<Rightarrow> Network_Failure | Inr (res, _) \<Rightarrow> classifyResponse res) pg"
    using fetch_outcome [of answer dash_report cfg pg] f by simp
  show "da_clusters (records_answered regexp locale_le cfg True answer pg) = da_clusters pg"
    "da_status (records_answered regexp locale_le cfg True answer pg) = da_status pg"
    by (simp_all add: records_answered_def f pg' dash_report_def split: sum.splits)
qed

interpretation dash: loading_page "dash_step regexp locale_le cfg" da_loads open_page for regexp locale_le cfg
  by unfold_locales (auto simp: open_page_def dash_step_def intro: run_change.intros split: dash_event.splits)

text \<open>
  Only the newest load is shown: in every reachable page, the answer to any load but the last one
  started leaves the clusters and the status line as they are, in whatever order answers arrive.
\<close>

theorem newest_load_shown:
  assumes "pg = fold (dash_step regexp locale_le cfg) evs open_page" "Suc i < length (da_loads pg)"
  shows "case dash_step regexp locale_le cfg (Records_Answered i answer) pg of pg' \<Rightarrow>
    da_clusters pg' = da_clusters pg \<and> da_status pg' = da_status pg"
  using dash.older_cancelled [of i regexp locale_le cfg evs] assms by (simp add: dash_step_def)

lemma newest_load_shown_witness:
  "case fold (dash_step sample_regexp (\<lambda>_ _. True) sample_dashboard) [Effect_Runs, Effect_Runs] open_page of pg \<Rightarrow>
     da_clusters (dash_step sample_regexp (\<lambda>_ _. True) sample_dashboard
       (Records_Answered 0 (Inr (\<lparr>hr_status = 200, hr_body = ''[]''\<rparr>, Inr (Records sample_records)))) pg) = []"
  using newest_load_shown [of _ sample_regexp "\<lambda>_ _. True" sample_dashboard "[Effect_Runs, Effect_Runs]" 0,
      OF refl, of "Inr (\<lparr>hr_status = 200, hr_body = ''[]''\<rparr>, Inr (Records sample_records))"]
  by (simp add: dash_step_def start_run_def cancel_runs_def awaits_def settle_run_def open_page_def)

text \<open>
  Property C35. An unattended page does not recover. When the first load fails, the polling of the hook notices that
  the controller is back and takes the banner down, but no record is fetched again: whatever the hook
  does from then on, the page shows no cluster and the message of the failure.
\<close>

theorem recovered_page_stays_empty:
  "case fold (dash_step regexp locale_le cfg)
       [Effect_Runs, Records_Answered 0 (Inl error), Hook_Event (Timer_Due 0 False), Hook_Event (Probe_Answered 0 (Inr True))] open_page of pg \<Rightarrow>
     dash_banner pg = None \<and> (case fold (dash_step regexp locale_le cfg) (map Hook_Event evs) pg of later \<Rightarrow>
       da_clusters later = [] \<and> da_status later = (Bar_Error, error_text error) \<and> list_all (\<lambda>l. \<not> lr_waiting l) (da_loads later))"
proof -
  have same: "case fold (dash_step regexp locale_le cfg) (map Hook_Event evs) pg of later \<Rightarrow>
      da_clusters later = da_clusters pg \<and> da_status later = da_status pg \<and> da_loads later = da_loads pg" for pg
    by (induction evs arbitrary: pg) (simp_all add: dash_step_def)
  show ?thesis
    using same by (simp add: dash_step_def start_run_def cancel_runs_def awaits_def settle_run_def open_page_def records_answered_def fetchDnsRecords_def
        lifted_def dash_report_def failure_text_def dash_banner_def ApiStatusBanner_def DASH_OPTIONS_def recovery_delays_def
        hook_step_def mount_hook_def start_effect_def setStatus_def attempt_probe_def cancel_run_def classifyError_def)
qed

text \<open>
  A key the controller rejects is rated as a lost session: the banner tells the viewer to sign in
  again, and the recovery polling runs.
\<close>

theorem rejected_key_raises_banner:
  assumes "hr_status res = 401 \<or> hr_status res = 403"
  shows "case fold (dash_step regexp locale_le cfg) [Effect_Runs, Records_Answered 0 (Inr (res, body))] open_page of pg \<Rightarrow>
    dash_banner pg = Some (Bar_Error, ''the Unifi controller did not accept your session '' @ em_dash @ '' sign in again.'')
    \<and> map pr_timer (sh_runs (da_hook pg)) = [True]
    \<and> da_status pg = (Bar_Error, ''Unifi API key rejected (HTTP '' @ show_int (hr_status res)
        @ ''). Check the SECRET_UNIFI_API_KEY secret behind the proxy.'')"
  using assms
  by (auto simp: dash_step_def start_run_def cancel_runs_def awaits_def settle_run_def open_page_def records_answered_def fetchDnsRecords_def
      lifted_def dash_report_def failure_text_def dash_banner_def ApiStatusBanner_def messageFor_def DASH_OPTIONS_def recovery_delays_def
      hook_step_def mount_hook_def start_effect_def setStatus_def cancel_run_def classifyResponse_def Let_def)

lemma rejected_key_raises_banner_witness:
  "map pr_timer (sh_runs (da_hook (fold (dash_step sample_regexp (\<lambda>_ _. True) sample_dashboard)
     [Effect_Runs, Records_Answered 0 (Inr (\<lparr>hr_status = 401, hr_body = []\<rparr>, Inr Not_An_Array))] open_page))) = [True]"
  using rejected_key_raises_banner [of "\<lparr>hr_status = 401, hr_body = []\<rparr>" sample_regexp "\<lambda>_ _. True" sample_dashboard "Inr Not_An_Array"]
  by simp

text \<open>The search only hides: what it leaves is a part of every cluster, in its order, and no cluster is empty.\<close>

lemma filtered_hides:
  "trim (to_lower query) \<noteq> [] \<Longrightarrow> c \<in> set (filtered query clusters)
     \<Longrightarrow> cl_services c \<noteq> [] \<and> (\<exists>d \<in> set clusters. cl_index d = cl_index c \<and> subseq (cl_services c) (cl_services d))"
  by (force simp: filtered_def Let_def)

end
