(* ===== verification/Ui_Auth.thy ===== *)
theory Ui_Auth
  imports Ui_Runtime "HOL-Library.Sublist"
begin

text \<open>
  \<^verbatim>\<open>packages/ui-auth\<close>: the configuration of a single-page application's sign-in, the return leg of a
  redirect, and the provider that recovers, renews and ends a session. The OIDC client, the URL query
  parser and the clock are parameters; the browser's session storage is a record, since a redirect is
  a full navigation and the storage is all a page leaves to the next.
\<close>

subsection \<open>Configuration\<close>

record ui_auth_config =
  uc_issuer :: string
  uc_clientId :: string
  uc_scope :: string
  uc_redirectUri :: string
  uc_postLogoutRedirectUri :: string

definition contains_text :: "string \<Rightarrow> string \<Rightarrow> bool" where
  "contains_text needle s \<longleftrightarrow> sublist needle s"

definition UiAuthConfigSchema :: "(string \<Rightarrow> string option) \<Rightarrow> ui_auth_config parser" where
  "UiAuthConfigSchema scheme = z_object (\<lambda>field. do {
     issuer \<leftarrow> httpUrl scheme (field ''issuer'');
     clientId \<leftarrow> z_string_min1 (field ''clientId'');
     scope \<leftarrow> z_string (field ''scope'');
     redirectUri \<leftarrow> httpUrl scheme (field ''redirectUri'');
     postLogoutRedirectUri \<leftarrow> httpUrl scheme (field ''postLogoutRedirectUri'');
     if ends_with ''/'' issuer \<and> \<not> contains_text ''--'' clientId
        \<and> ''roles'' \<in> set (split_on (CHR '' '') scope) \<and> ''profile'' \<in> set (split_on (CHR '' '') scope)
     then Some \<lparr>uc_issuer = issuer, uc_clientId = clientId, uc_scope = scope, uc_redirectUri = redirectUri,
       uc_postLogoutRedirectUri = postLogoutRedirectUri\<rparr>
     else None })"

record user_manager_settings =
  um_authority :: string
  um_metadataUrl :: string
  um_client_id :: string
  um_redirect_uri :: string
  um_post_logout_redirect_uri :: string
  um_scope :: string
  um_response_type :: string
  um_disablePKCE :: bool
  um_inMemoryUserStore :: bool
  um_automaticSilentRenew :: bool
  um_monitorSession :: bool
  um_loadUserInfo :: bool

definition createAuthClient_settings :: "ui_auth_config \<Rightarrow> user_manager_settings" where
  "createAuthClient_settings config =
     \<lparr>um_authority = uc_issuer config, um_metadataUrl = uc_issuer config @ ''.well-known/openid-configuration'',
      um_client_id = uc_clientId config, um_redirect_uri = uc_redirectUri config,
      um_post_logout_redirect_uri = uc_postLogoutRedirectUri config, um_scope = uc_scope config, um_response_type = ''code'',
      um_disablePKCE = False, um_inMemoryUserStore = True, um_automaticSilentRenew = False, um_monitorSession = False,
      um_loadUserInfo = False\<rparr>"

subsection \<open>The return leg\<close>

text \<open>The tab's location, with the query as the browser parses it.\<close>

record location =
  lo_pathname :: string
  lo_search :: string
  lo_params :: "(string \<times> string) list"

definition currentReturnTo :: "location \<Rightarrow> string" where
  "currentReturnTo l = lo_pathname l @ lo_search l"

definition isHandlingCallback :: "location \<Rightarrow> bool" where
  "isHandlingCallback l \<longleftrightarrow> map_of (lo_params l) ''code'' \<noteq> None \<or> map_of (lo_params l) ''error'' \<noteq> None"

definition safeReturnTo :: "json option \<Rightarrow> string option" where
  "safeReturnTo v = (case v of
       Some (JStr s) \<Rightarrow> if starts_with ''/'' s \<and> \<not> starts_with ''//'' s then Some s else None
     | _ \<Rightarrow> None)"

datatype callback_result = Signed_In | No_Session | Callback_Failed

text \<open>
  \<open>exchange\<close> is \<^verbatim>\<open>signinRedirectCallback\<close>; it gives the state the redirect began with, when there was
  one, whose field \<^verbatim>\<open>returnTo\<close> is read.
\<close>

definition handleCallback ::
  "(json option, 's) effect \<Rightarrow> location \<Rightarrow> (callback_result \<times> string option, 's) effect" where
  "handleCallback exchange l s =
     (let error = map_of (lo_params l) ''error'' in
      if error \<in> {Some ''login_required'', Some ''consent_required'', Some ''interaction_required''}
      then (Inr (No_Session, None), s)
      else (case exchange s of
          (Inl _, s') \<Rightarrow> (Inr (Callback_Failed, None), s')
        | (Inr state, s') \<Rightarrow> (Inr (Signed_In, safeReturnTo (js_get_opt ''returnTo'' state)), s')))"

definition strip_last_slash :: "string \<Rightarrow> string" where
  "strip_last_slash s = (if ends_with ''/'' s then butlast s else s)"

definition routePathOf :: "string option \<Rightarrow> string \<Rightarrow> string option" where
  "routePathOf returnTo basePath =
     (case returnTo of
        None \<Rightarrow> None
      | Some r \<Rightarrow>
          (let base = strip_last_slash basePath;
               path = (if base \<noteq> [] \<and> starts_with base r then drop (length base) r else r);
               normalised = (if starts_with ''/'' path then path else CHR ''/'' # path)
           in if starts_with ''/callback'' normalised then None else Some normalised))"

text \<open>What the callback component does once the exchange settled.\<close>

datatype callback_action = Set_Result callback_result | Resolve_Anonymous_Call | Navigate_Replace string

definition callback_settled :: "callback_result \<times> string option \<Rightarrow> string \<Rightarrow> string \<Rightarrow> callback_action list" where
  "callback_settled outcome basePath defaultPath =
     (case outcome of
        (Signed_In, returnTo) \<Rightarrow>
          [Set_Result Signed_In, Navigate_Replace (case routePathOf returnTo basePath of Some p \<Rightarrow> p | None \<Rightarrow> defaultPath)]
      | (No_Session, _) \<Rightarrow> [Set_Result No_Session, Resolve_Anonymous_Call, Navigate_Replace defaultPath]
      | (Callback_Failed, _) \<Rightarrow> [Set_Result Callback_Failed])"

text \<open>\<open>started\<close> keeps a second run of the effect from exchanging the code again.\<close>

definition callback_effect :: "(json option, 's) effect \<Rightarrow> location \<Rightarrow> string \<Rightarrow> string \<Rightarrow> (callback_action list, bool \<times> 's) effect" where
  "callback_effect exchange l basePath defaultPath = (\<lambda>(started, s).
     if started then (Inr [], (started, s))
     else (case handleCallback exchange l s of
         (Inl e, s') \<Rightarrow> (Inl e, (True, s'))
       | (Inr outcome, s') \<Rightarrow> (Inr (callback_settled outcome basePath defaultPath), (True, s'))))"

subsection \<open>Session storage\<close>

text \<open>
  Whether \<^verbatim>\<open>getItem\<close>, \<^verbatim>\<open>setItem\<close> and \<^verbatim>\<open>removeItem\<close> work: they throw one by one, for a full store only the second.
\<close>

record storage_access =
  sa_get :: bool
  sa_set :: bool
  sa_remove :: bool

definition all_access :: storage_access where
  "all_access = \<lparr>sa_get = True, sa_set = True, sa_remove = True\<rparr>"

record session_storage =
  ss_access :: storage_access
  ss_ssoAttempted :: "string option"
  ss_renewAttempts :: "string option"

definition RENEW_SKEW_MS :: int where "RENEW_SKEW_MS = 60000"
definition MAX_FUTILE_RENEWALS :: int where "MAX_FUTILE_RENEWALS = 2"

text \<open>\<^verbatim>\<open>Number\<close> of a stored text: a decimal integer, and nothing (NaN) otherwise. The provider writes no other.\<close>

definition js_number :: "string \<Rightarrow> int option" where
  "js_number s = (case parseInt s of Some n \<Rightarrow> if show_int n = s then Some n else None | None \<Rightarrow> None)"

definition futileRenewals :: "session_storage \<Rightarrow> int option" where
  "futileRenewals ss =
     (if \<not> sa_get (ss_access ss) then Some MAX_FUTILE_RENEWALS
      else js_number (case ss_renewAttempts ss of Some s \<Rightarrow> s | None \<Rightarrow> ''0''))"

text \<open>A count that is not a number is written as such.\<close>

definition recordFutileRenewal :: "int option \<Rightarrow> session_storage \<Rightarrow> session_storage" where
  "recordFutileRenewal n ss =
     (if n = Some 0
      then (if sa_remove (ss_access ss) then ss\<lparr>ss_renewAttempts := None\<rparr> else ss)
      else (if sa_set (ss_access ss)
            then ss\<lparr>ss_renewAttempts := Some (case n of Some k \<Rightarrow> show_int k | None \<Rightarrow> ''NaN'')\<rparr> else ss))"

definition ssoAlreadyAttempted :: "session_storage \<Rightarrow> bool" where
  "ssoAlreadyAttempted ss \<longleftrightarrow> \<not> sa_get (ss_access ss) \<or> ss_ssoAttempted ss = Some ''1''"

definition rememberSsoAttempt :: "bool \<Rightarrow> session_storage \<Rightarrow> session_storage" where
  "rememberSsoAttempt v ss =
     (if v then (if sa_set (ss_access ss) then ss\<lparr>ss_ssoAttempted := Some ''1''\<rparr> else ss)
      else (if sa_remove (ss_access ss) then ss\<lparr>ss_ssoAttempted := None\<rparr> else ss))"

subsection \<open>The provider\<close>

datatype sign_in_state = Loading | Authenticated | Anonymous

text \<open>A user object; \<open>us_ref\<close> tells two objects with the same fields apart.\<close>

record ui_user =
  us_ref :: nat
  us_expires_at :: "int option"
  us_access_token :: string
  us_username :: "string option"
  us_roles :: "string list option"

text \<open>What a page did that outlives it or reaches the user.\<close>

datatype auth_output =
    Probe_Redirect string
  | Renewal_Redirect string
  | Login_Redirect string
  | Signout_Redirect
  | Renewal_Armed int
  | Renewal_Given_Up

text \<open>
  The page of a tab: its location, the provider's state, the runs of the recovery effect (cleaned up
  or not, and whether the user store is being asked), whether the renewal effect is due to run since
  what it depends on changed, its timer, the tab's storage, and what was done so far. A page that is
  loaded again starts anew with the tab's storage.
\<close>

record recovery_run =
  rv_cancelled :: bool
  rv_asking :: bool
  rv_redirecting :: bool

record auth_page =
  ap_location :: location
  ap_user :: "ui_user option"
  ap_state :: sign_in_state
  ap_runs :: "recovery_run list"
  ap_effect_due :: bool
  ap_timer :: "int option"
  ap_storage :: session_storage
  ap_log :: "auth_output list"

definition log_output :: "auth_output \<Rightarrow> auth_page \<Rightarrow> auth_page" where
  "log_output out pg = pg\<lparr>ap_log := ap_log pg @ [out]\<rparr>"

text \<open>The two state setters; a change makes the renewal effect due.\<close>

definition set_session :: "ui_user option \<Rightarrow> sign_in_state \<Rightarrow> auth_page \<Rightarrow> auth_page" where
  "set_session u st pg = pg\<lparr>ap_user := u, ap_state := st,
     ap_effect_due := (ap_effect_due pg \<or> u \<noteq> ap_user pg \<or> st \<noteq> ap_state pg)\<rparr>"

definition adopt_user :: "ui_user option \<Rightarrow> auth_page \<Rightarrow> auth_page" where
  "adopt_user next_user pg = set_session next_user (if next_user = None then Anonymous else Authenticated) pg"

definition start_recovery :: "auth_page \<Rightarrow> auth_page" where
  "start_recovery pg = pg\<lparr>ap_runs := ap_runs pg @
     [\<lparr>rv_cancelled = False, rv_asking = \<not> isHandlingCallback (ap_location pg), rv_redirecting = False\<rparr>]\<rparr>"

text \<open>A page load: the provider mounts, and both of its effects are due.\<close>

definition load_page :: "location \<Rightarrow> session_storage \<Rightarrow> auth_output list \<Rightarrow> auth_page" where
  "load_page l ss log = start_recovery
     \<lparr>ap_location = l, ap_user = None, ap_state = Loading, ap_runs = [], ap_effect_due = True, ap_timer = None,
      ap_storage = ss, ap_log = log\<rparr>"

text \<open>The user store answered a run. \<open>expired\<close> is the client's own judgement of a user.\<close>

definition recovered :: "(ui_user \<Rightarrow> bool) \<Rightarrow> nat \<Rightarrow> thrown + ui_user option \<Rightarrow> auth_page \<Rightarrow> auth_page" where
  "recovered expired i answer pg =
     (let run = ap_runs pg ! i;
          pg1 = pg\<lparr>ap_runs := (ap_runs pg)[i := run\<lparr>rv_asking := False\<rparr>]\<rparr>;
          adopt = (\<lambda>u p. if rv_cancelled run then p else adopt_user u p)
      in case answer of
           Inl _ \<Rightarrow> adopt None pg1
         | Inr existing \<Rightarrow>
             if existing \<noteq> None \<and> \<not> expired (the existing)
             then adopt existing (pg1\<lparr>ap_storage := rememberSsoAttempt False (ap_storage pg1)\<rparr>)
             else if \<not> ssoAlreadyAttempted (ap_storage pg1) \<and> \<not> rv_cancelled run
             then log_output (Probe_Redirect (currentReturnTo (ap_location pg1)))
               (pg1\<lparr>ap_storage := rememberSsoAttempt True (ap_storage pg1),
                    ap_runs := (ap_runs pg1)[i := run\<lparr>rv_asking := False, rv_redirecting := True\<rparr>]\<rparr>)
             else adopt None pg1)"

text \<open>The renewal effect, on the location it finds when it runs.\<close>

definition run_renewal_effect :: "int \<Rightarrow> auth_page \<Rightarrow> auth_page" where
  "run_renewal_effect now pg0 =
     (let pg = pg0\<lparr>ap_effect_due := False, ap_timer := None\<rparr> in
      case ap_user pg of
        None \<Rightarrow> pg
      | Some u \<Rightarrow>
          if ap_state pg \<noteq> Authenticated \<or> isHandlingCallback (ap_location pg) then pg
          else (case us_expires_at u of
              None \<Rightarrow> pg
            | Some e \<Rightarrow>
                if e = 0 then pg
                else (let delay = e * 1000 - now - RENEW_SKEW_MS in
                  if delay \<le> 0
                  then (let attempts = futileRenewals (ap_storage pg) in
                    case attempts of
                      Some n \<Rightarrow>
                        if MAX_FUTILE_RENEWALS \<le> n
                        then log_output Renewal_Given_Up (set_session None Anonymous
                          (pg\<lparr>ap_storage := recordFutileRenewal (Some 0) (ap_storage pg)\<rparr>))
                        else log_output (Renewal_Armed 0)
                          (pg\<lparr>ap_storage := recordFutileRenewal (Some (n + 1)) (ap_storage pg), ap_timer := Some 0\<rparr>)
                    | None \<Rightarrow> log_output (Renewal_Armed 0)
                          (pg\<lparr>ap_storage := recordFutileRenewal None (ap_storage pg), ap_timer := Some 0\<rparr>))
                  else log_output (Renewal_Armed delay)
                    (pg\<lparr>ap_storage := recordFutileRenewal (Some 0) (ap_storage pg), ap_timer := Some delay\<rparr>))))"

definition login :: "auth_page \<Rightarrow> auth_page" where
  "login pg = log_output (Login_Redirect (currentReturnTo (ap_location pg)))
     (pg\<lparr>ap_storage := rememberSsoAttempt False (ap_storage pg)\<rparr>)"

definition logout :: "auth_page \<Rightarrow> auth_page" where
  "logout pg = log_output Signout_Redirect (pg\<lparr>ap_storage := rememberSsoAttempt True (ap_storage pg)\<rparr>)"

definition resolveAnonymous :: "auth_page \<Rightarrow> auth_page" where
  "resolveAnonymous pg = set_session None (if ap_state pg = Authenticated then Authenticated else Anonymous) pg"

definition getAccessToken :: "(ui_user \<Rightarrow> bool) \<Rightarrow> auth_page \<Rightarrow> string option" where
  "getAccessToken expired pg =
     (case ap_user pg of Some u \<Rightarrow> if \<not> expired u then Some (us_access_token u) else None | None \<Rightarrow> None)"

definition session_roles :: "auth_page \<Rightarrow> string list" where
  "session_roles pg = (case Option.bind (ap_user pg) us_roles of Some rs \<Rightarrow> rs | None \<Rightarrow> [])"

text \<open>
  Everything that happens to a tab. The client's events reach the run that is not cleaned up; a load
  replaces the page and keeps the storage; a store can become full, or be blocked or released.
\<close>

datatype tab_event =
    User_Store_Answered nat "thrown + ui_user option" int
  | Redirect_Rejected nat
  | User_Loaded ui_user
  | User_Unloaded
  | Provider_Unmounted
  | Provider_Mounted
  | Effects_Flushed int
  | Renewal_Due
  | Login_Clicked
  | Logout_Clicked
  | Callback_Without_Session
  | Location_Changed location
  | Page_Loaded location
  | Storage_Access_Changed storage_access

definition listening :: "auth_page \<Rightarrow> bool" where
  "listening pg \<longleftrightarrow> (\<exists>r \<in> set (ap_runs pg). \<not> rv_cancelled r)"

definition tab_step :: "(int \<Rightarrow> ui_user \<Rightarrow> bool) \<Rightarrow> tab_event \<Rightarrow> auth_page \<Rightarrow> auth_page" where
  "tab_step expired ev pg =
     (case ev of
        User_Store_Answered i answer now \<Rightarrow>
          if i < length (ap_runs pg) \<and> rv_asking (ap_runs pg ! i) then recovered (expired now) i answer pg else pg
      | Redirect_Rejected i \<Rightarrow>
          if i < length (ap_runs pg) \<and> rv_redirecting (ap_runs pg ! i)
          then (let pg1 = pg\<lparr>ap_runs := (ap_runs pg)[i := (ap_runs pg ! i)\<lparr>rv_redirecting := False\<rparr>]\<rparr> in
                if rv_cancelled (ap_runs pg ! i) then pg1 else adopt_user None pg1)
          else pg
      | User_Loaded u \<Rightarrow>
          if listening pg then adopt_user (Some u) (pg\<lparr>ap_storage := rememberSsoAttempt False (ap_storage pg)\<rparr>) else pg
      | User_Unloaded \<Rightarrow> if listening pg then adopt_user None pg else pg
      | Provider_Unmounted \<Rightarrow> pg\<lparr>ap_runs := map (\<lambda>r. r\<lparr>rv_cancelled := True\<rparr>) (ap_runs pg), ap_timer := None\<rparr>
      | Provider_Mounted \<Rightarrow> if listening pg then pg else (start_recovery pg)\<lparr>ap_effect_due := True\<rparr>
      | Effects_Flushed now \<Rightarrow> if ap_effect_due pg then run_renewal_effect now pg else pg
      | Renewal_Due \<Rightarrow>
          (case ap_timer pg of
             None \<Rightarrow> pg
           | Some _ \<Rightarrow> log_output (Renewal_Redirect (currentReturnTo (ap_location pg))) (pg\<lparr>ap_timer := None\<rparr>))
      | Login_Clicked \<Rightarrow> login pg
      | Logout_Clicked \<Rightarrow> logout pg
      | Callback_Without_Session \<Rightarrow> resolveAnonymous pg
      | Location_Changed l \<Rightarrow> pg\<lparr>ap_location := l\<rparr>
      | Page_Loaded l \<Rightarrow> load_page l (ap_storage pg) (ap_log pg)
      | Storage_Access_Changed access \<Rightarrow> pg\<lparr>ap_storage := (ap_storage pg)\<lparr>ss_access := access\<rparr>\<rparr>)"

subsection \<open>Session and state\<close>

definition fresh_tab :: "storage_access \<Rightarrow> location \<Rightarrow> auth_page" where
  "fresh_tab access l = load_page l \<lparr>ss_access = access, ss_ssoAttempted = None, ss_renewAttempts = None\<rparr> []"

abbreviation run_tab :: "(int \<Rightarrow> ui_user \<Rightarrow> bool) \<Rightarrow> tab_event list \<Rightarrow> auth_page \<Rightarrow> auth_page" where
  "run_tab expired evs pg \<equiv> fold (tab_step expired) evs pg"

lemma set_session_simps [simp]:
  "ap_user (set_session u st pg) = u" "ap_state (set_session u st pg) = st" "ap_storage (set_session u st pg) = ap_storage pg"
  "ap_log (set_session u st pg) = ap_log pg" "ap_runs (set_session u st pg) = ap_runs pg"
  "ap_location (set_session u st pg) = ap_location pg" "ap_timer (set_session u st pg) = ap_timer pg"
  by (simp_all add: set_session_def)

lemma adopt_user_simps [simp]:
  "ap_user (adopt_user u pg) = u" "ap_state (adopt_user u pg) = (if u = None then Anonymous else Authenticated)"
  "ap_storage (adopt_user u pg) = ap_storage pg" "ap_log (adopt_user u pg) = ap_log pg" "ap_runs (adopt_user u pg) = ap_runs pg"
  "ap_location (adopt_user u pg) = ap_location pg"
  by (simp_all add: adopt_user_def)

lemma log_output_simps [simp]:
  "ap_user (log_output out pg) = ap_user pg" "ap_state (log_output out pg) = ap_state pg" "ap_storage (log_output out pg) = ap_storage pg"
  "ap_log (log_output out pg) = ap_log pg @ [out]" "ap_runs (log_output out pg) = ap_runs pg"
  "ap_location (log_output out pg) = ap_location pg"
  by (simp_all add: log_output_def)

lemma load_page_simps [simp]:
  "ap_user (load_page l ss log) = None" "ap_state (load_page l ss log) = Loading" "ap_storage (load_page l ss log) = ss"
  "ap_log (load_page l ss log) = log" "ap_location (load_page l ss log) = l"
  "ap_runs (load_page l ss log) = [\<lparr>rv_cancelled = False, rv_asking = \<not> isHandlingCallback l, rv_redirecting = False\<rparr>]"
  by (simp_all add: load_page_def start_recovery_def)

lemma start_recovery_simps [simp]:
  "ap_user (start_recovery pg) = ap_user pg" "ap_state (start_recovery pg) = ap_state pg" "ap_storage (start_recovery pg) = ap_storage pg"
  "ap_log (start_recovery pg) = ap_log pg" "ap_location (start_recovery pg) = ap_location pg"
  "ap_runs (start_recovery pg) = ap_runs pg @ [\<lparr>rv_cancelled = False, rv_asking = \<not> isHandlingCallback (ap_location pg), rv_redirecting = False\<rparr>]"
  by (simp_all add: start_recovery_def)

definition session_matches :: "auth_page \<Rightarrow> bool" where
  "session_matches pg \<longleftrightarrow> (ap_state pg = Authenticated \<longleftrightarrow> ap_user pg \<noteq> None)"

lemma session_matches_step:
  "session_matches pg \<Longrightarrow> ev \<noteq> Callback_Without_Session \<Longrightarrow> session_matches (tab_step expired ev pg)"
  by (cases ev) (auto simp: session_matches_def tab_step_def recovered_def run_renewal_effect_def login_def logout_def Let_def
      split: option.splits sum.splits)

lemma session_matches_run:
  "session_matches pg \<Longrightarrow> Callback_Without_Session \<notin> set evs \<Longrightarrow> session_matches (run_tab expired evs pg)"
  by (induction evs arbitrary: pg) (auto simp: session_matches_step eq_commute [of Callback_Without_Session])

text \<open>
  The state and the user agree: through any sequence of loads, answers, renewals and clicks in which
  the callback reports no missing session, the provider says it is authenticated exactly while it
  holds a user, so a token is only handed out by an authenticated provider.
\<close>

theorem authenticated_means_user:
  assumes "Callback_Without_Session \<notin> set evs"
  shows "case run_tab expired evs (fresh_tab access l) of pg \<Rightarrow>
    (ap_state pg = Authenticated \<longleftrightarrow> ap_user pg \<noteq> None) \<and> (getAccessToken stale pg \<noteq> None \<longrightarrow> ap_state pg = Authenticated)"
proof -
  have "session_matches (fresh_tab access l)" by (simp add: session_matches_def fresh_tab_def)
  from session_matches_run [OF this assms, of expired] show ?thesis
    by (auto simp: session_matches_def getAccessToken_def split: option.splits)
qed

definition sample_user :: ui_user where
  "sample_user = \<lparr>us_ref = 1, us_expires_at = Some 1000, us_access_token = ''token'', us_username = None, us_roles = None\<rparr>"

definition app_location :: location where
  "app_location = \<lparr>lo_pathname = ''/admin'', lo_search = '''', lo_params = []\<rparr>"

lemma authenticated_means_user_witness:
  "case run_tab (\<lambda>now u. False) [User_Loaded sample_user, Effects_Flushed 0] (fresh_tab all_access app_location) of pg \<Rightarrow>
    (ap_state pg = Authenticated \<longleftrightarrow> ap_user pg \<noteq> None) \<and> (getAccessToken (\<lambda>_. False) pg \<noteq> None \<longrightarrow> ap_state pg = Authenticated)"
  by (rule authenticated_means_user) simp

text \<open>
  The report itself breaks it: on an authenticated provider it drops the user and keeps the state.
\<close>

lemma resolve_anonymous_splits_session:
  "ap_state pg = Authenticated \<Longrightarrow> ap_user (resolveAnonymous pg) = None \<and> ap_state (resolveAnonymous pg) = Authenticated"
  by (simp add: resolveAnonymous_def)

subsection \<open>The probe for an existing session\<close>

fun is_probe :: "auth_output \<Rightarrow> bool" where
  "is_probe (Probe_Redirect _) = True"
| "is_probe _ = False"

text \<open>The events that show a session exists, or ask for one deliberately; an expired user shows none.\<close>

fun clears_attempt :: "(int \<Rightarrow> ui_user \<Rightarrow> bool) \<Rightarrow> tab_event \<Rightarrow> bool" where
  "clears_attempt expired (User_Loaded _) = True"
| "clears_attempt expired Login_Clicked = True"
| "clears_attempt expired (User_Store_Answered _ (Inr (Some u)) now) = (\<not> expired now u)"
| "clears_attempt expired _ = False"

text \<open>A store that can be read can be written.\<close>

definition remembers :: "storage_access \<Rightarrow> bool" where
  "remembers access \<longleftrightarrow> (sa_get access \<longrightarrow> sa_set access)"

fun keeps_access :: "(storage_access \<Rightarrow> bool) \<Rightarrow> tab_event \<Rightarrow> bool" where
  "keeps_access P (Storage_Access_Changed access) = P access"
| "keeps_access P _ = True"

definition probes :: "auth_page \<Rightarrow> nat" where
  "probes pg = length (filter is_probe (ap_log pg))"

definition may_probe :: "auth_page \<Rightarrow> nat" where
  "may_probe pg = (if ss_ssoAttempted (ap_storage pg) = Some ''1'' then 0 else 1)"

lemma access_simps [simp]:
  "ss_access (rememberSsoAttempt v ss) = ss_access ss" "ss_access (recordFutileRenewal m ss) = ss_access ss"
  by (simp_all add: rememberSsoAttempt_def recordFutileRenewal_def)

lemma recorded_attempt [simp]: "ss_ssoAttempted (recordFutileRenewal n ss) = ss_ssoAttempted ss"
  by (simp add: recordFutileRenewal_def)

lemma recovered_access [simp]: "ss_access (ap_storage (recovered expired i answer pg)) = ss_access (ap_storage pg)"
  by (cases answer) (auto simp: recovered_def Let_def)

lemma renewal_access [simp]: "ss_access (ap_storage (run_renewal_effect now pg)) = ss_access (ap_storage pg)"
  by (simp add: run_renewal_effect_def Let_def split: option.split)

lemma step_access:
  "ss_access (ap_storage (tab_step expired ev pg)) = (case ev of Storage_Access_Changed access \<Rightarrow> access | _ \<Rightarrow> ss_access (ap_storage pg))"
  by (cases ev) (auto simp: tab_step_def login_def logout_def resolveAnonymous_def Let_def split: option.splits)

lemma access_kept: "P (ss_access (ap_storage pg)) \<Longrightarrow> keeps_access P ev \<Longrightarrow> P (ss_access (ap_storage (tab_step expired ev pg)))"
  by (cases ev) (simp_all add: step_access)

lemma probes_step:
  assumes "remembers (ss_access (ap_storage pg))" and "\<not> clears_attempt expired ev"
  shows "probes (tab_step expired ev pg) + may_probe (tab_step expired ev pg) \<le> probes pg + may_probe pg"
    and "\<not> sa_get (ss_access (ap_storage pg)) \<Longrightarrow> probes (tab_step expired ev pg) = probes pg"
proof -
  have "probes (tab_step expired ev pg) + may_probe (tab_step expired ev pg) \<le> probes pg + may_probe pg
    \<and> (\<not> sa_get (ss_access (ap_storage pg)) \<longrightarrow> probes (tab_step expired ev pg) = probes pg)"
  proof (cases ev)
    case (User_Store_Answered i answer now)
    with assms show ?thesis
      by (cases answer) (auto simp: tab_step_def recovered_def probes_def may_probe_def ssoAlreadyAttempted_def rememberSsoAttempt_def
          remembers_def Let_def split: option.splits)
  next
    case (Effects_Flushed now)
    then show ?thesis
      by (auto simp: tab_step_def run_renewal_effect_def probes_def may_probe_def Let_def split: option.splits)
  qed (use assms(2) in \<open>auto simp: tab_step_def probes_def may_probe_def logout_def resolveAnonymous_def rememberSsoAttempt_def Let_def
      split: option.splits\<close>)
  then show "probes (tab_step expired ev pg) + may_probe (tab_step expired ev pg) \<le> probes pg + may_probe pg"
    "\<not> sa_get (ss_access (ap_storage pg)) \<Longrightarrow> probes (tab_step expired ev pg) = probes pg" by simp_all
qed

lemma probes_run:
  "remembers (ss_access (ap_storage pg)) \<Longrightarrow> list_all (\<lambda>ev. keeps_access remembers ev \<and> \<not> clears_attempt expired ev) evs \<Longrightarrow>
    probes (run_tab expired evs pg) + may_probe (run_tab expired evs pg) \<le> probes pg + may_probe pg"
proof (induction evs arbitrary: pg)
  case (Cons ev evs)
  from Cons.IH [of "tab_step expired ev pg"] access_kept [of remembers pg ev expired] probes_step(1) [of pg expired ev] Cons.prems
  show ?case by simp
qed simp

lemma probes_unreadable:
  "\<not> sa_get (ss_access (ap_storage pg)) \<Longrightarrow>
    list_all (\<lambda>ev. keeps_access (\<lambda>a. \<not> sa_get a) ev \<and> \<not> clears_attempt expired ev) evs \<Longrightarrow> probes (run_tab expired evs pg) = probes pg"
proof (induction evs arbitrary: pg)
  case (Cons ev evs)
  from Cons.IH [of "tab_step expired ev pg"] access_kept [of "\<lambda>a. \<not> sa_get a" pg ev expired] probes_step(2) [of pg expired ev] Cons.prems
  show ?case by (simp add: remembers_def)
qed simp

text \<open>
  Property C36. The probe cannot loop. From any state of a tab whose store, while it can be read, can be written: as
  long as no session is found, none is announced and no login is asked for, at most one silent redirect asks
  the identity provider for an existing session, and none when one has been remembered, over any number of
  page loads, of users found expired, and of anything else. While the store cannot be read there is none.
\<close>

theorem silent_probe_once:
  assumes "remembers (ss_access (ap_storage pg))"
    and "list_all (\<lambda>ev. keeps_access remembers ev \<and> \<not> clears_attempt expired ev) evs"
  shows "probes (run_tab expired evs pg) \<le> probes pg + (if ss_ssoAttempted (ap_storage pg) = Some ''1'' then 0 else 1)
    \<and> (\<not> sa_get (ss_access (ap_storage pg)) \<and> list_all (keeps_access (\<lambda>a. \<not> sa_get a)) evs \<longrightarrow>
         probes (run_tab expired evs pg) = probes pg)"
  using probes_run [OF assms] probes_unreadable [of pg expired evs] assms(2) by (auto simp: may_probe_def list_all_iff)

text \<open>A tab that is loaded again and again, with no session at the identity provider.\<close>

definition anonymous_load :: "tab_event list" where
  "anonymous_load = [Page_Loaded app_location, User_Store_Answered 0 (Inr None) 0]"

lemma silent_probe_once_witness:
  "probes (run_tab (\<lambda>now u. True) (anonymous_load @ anonymous_load) (fresh_tab all_access app_location)) \<le> 1"
  using silent_probe_once [of "fresh_tab all_access app_location" "\<lambda>now u. True" "anonymous_load @ anonymous_load"]
  by (simp add: fresh_tab_def remembers_def all_access_def anonymous_load_def probes_def)

text \<open>
  With a store that can be read and not written the guard never closes: the comment says it degrades to
  not probing, but every load redirects.
\<close>

definition read_only :: storage_access where
  "read_only = \<lparr>sa_get = True, sa_set = False, sa_remove = True\<rparr>"

lemma anonymous_load_probes:
  assumes "ap_storage pg = \<lparr>ss_access = read_only, ss_ssoAttempted = None, ss_renewAttempts = r\<rparr>"
  shows "probes (run_tab expired anonymous_load pg) = Suc (probes pg) \<and> ap_storage (run_tab expired anonymous_load pg) = ap_storage pg"
  using assms
  by (simp add: anonymous_load_def tab_step_def recovered_def probes_def ssoAlreadyAttempted_def rememberSsoAttempt_def read_only_def
      app_location_def isHandlingCallback_def Let_def)

theorem read_only_storage_loops:
  "probes (run_tab expired (concat (replicate n anonymous_load)) (fresh_tab read_only l)) = n"
proof -
  have "probes (run_tab expired (concat (replicate n anonymous_load)) pg) = n + probes pg"
    if "ap_storage pg = \<lparr>ss_access = read_only, ss_ssoAttempted = None, ss_renewAttempts = r\<rparr>" for pg r
    using that
  proof (induction n arbitrary: pg)
    case (Suc n)
    from anonymous_load_probes [OF Suc.prems, of expired] Suc.IH [of "run_tab expired anonymous_load pg"] Suc.prems show ?case by simp
  qed simp
  from this [of "fresh_tab read_only l"] show ?thesis by (simp add: fresh_tab_def probes_def)
qed

subsection \<open>The renewal\<close>

text \<open>The renewals of an already expired token since the last useful one, or since the provider gave up.\<close>

fun futile_step :: "auth_output \<Rightarrow> nat \<Rightarrow> nat" where
  "futile_step (Renewal_Armed d) n = (if d = 0 then Suc n else 0)"
| "futile_step Renewal_Given_Up n = 0"
| "futile_step _ n = n"

definition futile_run :: "auth_output list \<Rightarrow> nat" where
  "futile_run log = fold futile_step log 0"

lemma futile_run_snoc [simp]: "futile_run (log @ [out]) = futile_step out (futile_run log)"
  by (simp add: futile_run_def)

lemma js_number_show [simp]: "js_number (show_int n) = Some n"
  by (simp add: js_number_def)

lemma js_number_zero [simp]: "js_number ''0'' = Some 0"
proof -
  have "show_int 0 = ''0''" by (simp add: show_int_def show_nat.simps digit_char_def char_of_def bit_0)
  then show ?thesis using js_number_show [of 0] by metis
qed

text \<open>The count that is stored, whether it can be read or not.\<close>

definition stored_count :: "session_storage \<Rightarrow> int option" where
  "stored_count ss = js_number (case ss_renewAttempts ss of Some s \<Rightarrow> s | None \<Rightarrow> ''0'')"

lemma futile_read: "futileRenewals ss = (if sa_get (ss_access ss) then stored_count ss else Some 2)"
  by (simp add: futileRenewals_def stored_count_def MAX_FUTILE_RENEWALS_def)

lemma stored_simps [simp]:
  "stored_count (rememberSsoAttempt v ss) = stored_count ss" "stored_count (ss\<lparr>ss_access := access\<rparr>) = stored_count ss"
  by (simp_all add: stored_count_def rememberSsoAttempt_def)

lemma stored_recorded:
  "stored_count (recordFutileRenewal (Some 0) ss) = (if sa_remove (ss_access ss) then Some 0 else stored_count ss)"
  "k \<noteq> 0 \<Longrightarrow> stored_count (recordFutileRenewal (Some k) ss) = (if sa_set (ss_access ss) then Some k else stored_count ss)"
  by (simp_all add: stored_count_def recordFutileRenewal_def)

text \<open>The stored count is at least that of the renewals since.\<close>

definition renewal_inv :: "auth_page \<Rightarrow> bool" where
  "renewal_inv pg \<longleftrightarrow> (\<exists>c. stored_count (ap_storage pg) = Some c \<and> int (futile_run (ap_log pg)) \<le> c \<and> c \<le> 2)"

text \<open>What a step adds to the log is one entry at most, so every prefix of the log was the log once.\<close>

definition log_inv :: "auth_page \<Rightarrow> bool" where
  "log_inv pg \<longleftrightarrow> remembers (ss_access (ap_storage pg)) \<and> renewal_inv pg \<and> list_all (\<lambda>log. futile_run log \<le> 2) (prefixes (ap_log pg))"

lemma renewal_inv_effect:
  assumes "renewal_inv pg" and "remembers (ss_access (ap_storage pg))"
  shows "renewal_inv (run_renewal_effect now pg)"
proof -
  obtain c where c: "stored_count (ap_storage pg) = Some c" "int (futile_run (ap_log pg)) \<le> c" "c \<le> 2"
    using assms(1) by (auto simp: renewal_inv_def)
  then have "0 \<le> c" by linarith
  with c assms(2) show ?thesis
    by (auto simp: run_renewal_effect_def renewal_inv_def MAX_FUTILE_RENEWALS_def futile_read stored_recorded remembers_def Let_def
        split: option.split)
qed

lemma log_grows:
  "ap_log (tab_step expired ev pg) = ap_log pg \<or> (\<exists>out. ap_log (tab_step expired ev pg) = ap_log pg @ [out])"
  by (simp add: tab_step_def recovered_def run_renewal_effect_def login_def logout_def resolveAnonymous_def Let_def
      split: tab_event.split option.split sum.split)

lemma renewal_step:
  assumes inv: "renewal_inv pg" and ok: "remembers (ss_access (ap_storage pg))"
  shows "renewal_inv (tab_step expired ev pg)"
proof (cases ev)
  case (User_Store_Answered i answer now)
  with inv show ?thesis
    by (cases answer) (auto simp: tab_step_def recovered_def renewal_inv_def Let_def split: option.splits)
next
  case (Effects_Flushed now)
  with inv ok show ?thesis by (simp add: tab_step_def renewal_inv_effect)
qed (use inv in \<open>auto simp: tab_step_def renewal_inv_def login_def logout_def resolveAnonymous_def Let_def split: option.splits\<close>)

lemma log_inv_step:
  assumes inv: "log_inv pg" and "keeps_access remembers ev"
  shows "log_inv (tab_step expired ev pg)"
proof -
  from inv have r: "renewal_inv (tab_step expired ev pg)" by (simp add: log_inv_def renewal_step)
  then have "futile_run (ap_log (tab_step expired ev pg)) \<le> 2" by (auto simp: renewal_inv_def)
  moreover have "remembers (ss_access (ap_storage (tab_step expired ev pg)))"
    using access_kept [of remembers pg ev expired] inv assms(2) by (simp add: log_inv_def)
  moreover note log_grows [of expired ev pg]
  ultimately show ?thesis using inv r by (auto simp: log_inv_def prefixes_snoc)
qed

lemma log_inv_run: "log_inv pg \<Longrightarrow> list_all (keeps_access remembers) evs \<Longrightarrow> log_inv (run_tab expired evs pg)"
  by (induction evs arbitrary: pg) (simp_all add: log_inv_step)

lemma log_inv_fresh: "remembers access \<Longrightarrow> log_inv (fresh_tab access l)"
  by (simp add: log_inv_def renewal_inv_def fresh_tab_def stored_count_def futile_run_def)

text \<open>The renewal effect is due on a session whose token is in the skew window already.\<close>

definition renewal_overdue :: "int \<Rightarrow> auth_page \<Rightarrow> bool" where
  "renewal_overdue now pg \<longleftrightarrow> ap_effect_due pg \<and> ap_state pg = Authenticated \<and> \<not> isHandlingCallback (ap_location pg)
     \<and> (case Option.bind (ap_user pg) us_expires_at of None \<Rightarrow> False | Some e \<Rightarrow> e \<noteq> 0 \<and> e * 1000 - now - RENEW_SKEW_MS \<le> 0)"

definition given_up :: "auth_page \<Rightarrow> bool" where
  "given_up pg \<longleftrightarrow> ap_user pg = None \<and> ap_state pg = Anonymous \<and> ap_timer pg = None"

lemma gives_up:
  assumes "log_inv pg" and "futile_run (ap_log pg) = 2" and "renewal_overdue now pg"
  shows "given_up (tab_step expired (Effects_Flushed now) pg)"
proof -
  obtain u e where u: "ap_user pg = Some u" "us_expires_at u = Some e" "e \<noteq> 0" "e * 1000 - now - RENEW_SKEW_MS \<le> 0"
    using assms(3) by (auto simp: renewal_overdue_def bind_eq_Some_conv split: option.splits)
  have "stored_count (ap_storage pg) = Some 2" using assms(1,2) by (auto simp: log_inv_def renewal_inv_def)
  then have "futileRenewals (ap_storage pg) = Some 2" by (simp add: futile_read)
  with u assms(3) show ?thesis
    by (simp add: given_up_def renewal_overdue_def tab_step_def run_renewal_effect_def MAX_FUTILE_RENEWALS_def log_output_def
        set_session_def Let_def)
qed

lemma marked_when_given_up:
  assumes "ap_log (tab_step expired ev pg) = ap_log pg @ [Renewal_Given_Up]"
  shows "given_up (tab_step expired ev pg)"
  using assms
  by (cases ev) (auto simp: tab_step_def recovered_def run_renewal_effect_def login_def logout_def resolveAnonymous_def given_up_def
      log_output_def set_session_def adopt_user_def Let_def split: option.splits sum.splits if_splits)

text \<open>
  Property C37. A browser whose clock is ahead of the identity provider's finds every fresh token expired. Renewing
  on expiry then does not turn into a redirect loop, on a store that can be written while it can be read:
  however the pages of a tab are loaded, never more than two renewals in a row begin with a token that has
  already run out, before one was useful or the provider gave up; after two, the effect that finds another
  such token gives the session up; and giving up leaves no user, no timer and the sign-in page.
\<close>

theorem futile_renewals_bounded:
  assumes "remembers access" and "list_all (keeps_access remembers) evs" and "pg = run_tab expired evs (fresh_tab access l)"
  shows "list_all (\<lambda>log. futile_run log \<le> 2) (prefixes (ap_log pg))
    \<and> (futile_run (ap_log pg) = 2 \<and> renewal_overdue now pg \<longrightarrow> given_up (tab_step expired (Effects_Flushed now) pg))
    \<and> (\<forall>ev. ap_log (tab_step expired ev pg) = ap_log pg @ [Renewal_Given_Up] \<longrightarrow> given_up (tab_step expired ev pg))"
proof -
  have inv: "log_inv pg" unfolding assms(3) by (rule log_inv_run [OF log_inv_fresh [OF assms(1)] assms(2)])
  then show ?thesis using gives_up [OF inv] marked_when_given_up by (auto simp: log_inv_def)
qed

text \<open>
  The guard is needed: two futile renewals do happen, and the third attempt shows the sign-in page.
\<close>

definition futile_load :: "tab_event list" where
  "futile_load = [Page_Loaded app_location, User_Loaded sample_user, Effects_Flushed 2000000, Renewal_Due]"

lemma third_futile_renewal_gives_up:
  "filter (\<lambda>out. out = Renewal_Armed 0 \<or> out = Renewal_Given_Up)
     (ap_log (run_tab (\<lambda>now u. False) (futile_load @ futile_load @ futile_load) (fresh_tab all_access app_location)))
   = [Renewal_Armed 0, Renewal_Armed 0, Renewal_Given_Up]"
  by (simp add: futile_load_def fresh_tab_def load_page_def start_recovery_def tab_step_def listening_def adopt_user_def set_session_def
      run_renewal_effect_def isHandlingCallback_def app_location_def sample_user_def RENEW_SKEW_MS_def MAX_FUTILE_RENEWALS_def
      rememberSsoAttempt_def futileRenewals_def recordFutileRenewal_def log_output_def all_access_def Let_def)

lemma futile_renewals_bounded_witness:
  "given_up (run_tab (\<lambda>now u. False) (futile_load @ futile_load @ [Page_Loaded app_location, User_Loaded sample_user, Effects_Flushed 2000000])
     (fresh_tab all_access app_location))"
proof -
  let ?evs = "futile_load @ futile_load @ [Page_Loaded app_location, User_Loaded sample_user]"
  let ?pg = "run_tab (\<lambda>now u. False) ?evs (fresh_tab all_access app_location)"
  have "futile_run (ap_log ?pg) = 2 \<and> renewal_overdue 2000000 ?pg"
    by (simp add: futile_load_def fresh_tab_def load_page_def start_recovery_def tab_step_def listening_def adopt_user_def set_session_def
        run_renewal_effect_def isHandlingCallback_def app_location_def sample_user_def RENEW_SKEW_MS_def MAX_FUTILE_RENEWALS_def
        rememberSsoAttempt_def futileRenewals_def recordFutileRenewal_def log_output_def all_access_def renewal_overdue_def
        futile_run_def Let_def)
  moreover have "remembers all_access" "list_all (keeps_access remembers) ?evs"
    by (simp_all add: remembers_def all_access_def futile_load_def)
  ultimately have "given_up (tab_step (\<lambda>now u. False) (Effects_Flushed 2000000) ?pg)"
    using futile_renewals_bounded [where access = all_access and evs = ?evs and pg = ?pg and expired = "\<lambda>now u. False"
        and l = app_location and now = 2000000] by simp
  then show ?thesis by simp
qed

text \<open>With a store that can be read and not written the renewals do not end either.\<close>

lemma read_only_renewals_loop:
  assumes "ap_storage pg = \<lparr>ss_access = read_only, ss_ssoAttempted = None, ss_renewAttempts = None\<rparr>"
  shows "\<exists>out. ap_log (run_tab expired futile_load pg) = ap_log pg @ [Renewal_Armed 0, out]
    \<and> ap_storage (run_tab expired futile_load pg) = ap_storage pg"
  using assms
  by (simp add: futile_load_def load_page_def start_recovery_def tab_step_def listening_def adopt_user_def set_session_def
      run_renewal_effect_def isHandlingCallback_def app_location_def sample_user_def RENEW_SKEW_MS_def MAX_FUTILE_RENEWALS_def
      rememberSsoAttempt_def futileRenewals_def recordFutileRenewal_def log_output_def read_only_def Let_def)

text \<open>
  The renewal effect reads the location when it runs. Flushed while the callback's query is still in
  the address, it arms nothing, and since a change of location does not make it due again, the session
  is not renewed on that page; flushed after the callback navigated, it arms the timer.
\<close>

lemma renewal_needs_late_flush:
  assumes "ap_user pg = Some u" "ap_state pg = Authenticated" "us_expires_at u = Some e" "0 < e * 1000 - now - RENEW_SKEW_MS" "e \<noteq> 0"
    and "isHandlingCallback (ap_location pg)" "\<not> isHandlingCallback l" "ap_effect_due pg"
  shows "ap_timer (run_tab expired [Effects_Flushed now, Location_Changed l, Effects_Flushed now] pg) = None"
    "ap_timer (run_tab expired [Location_Changed l, Effects_Flushed now] pg) = Some (e * 1000 - now - RENEW_SKEW_MS)"
  using assms by (simp_all add: tab_step_def run_renewal_effect_def log_output_def Let_def)

subsection \<open>Loading comes to an end\<close>

fun off_callback :: "tab_event \<Rightarrow> bool" where
  "off_callback (Page_Loaded l) = (\<not> isHandlingCallback l)"
| "off_callback (Location_Changed l) = (\<not> isHandlingCallback l)"
| "off_callback _ = True"

definition answered :: "auth_page \<Rightarrow> bool" where
  "answered pg \<longleftrightarrow> \<not> isHandlingCallback (ap_location pg)
     \<and> (\<forall>r \<in> set (ap_runs pg). \<not> rv_cancelled r \<longrightarrow> rv_asking r \<or> rv_redirecting r \<or> ap_state pg \<noteq> Loading)"

lemma answered_update:
  "answered pg \<Longrightarrow> i < length (ap_runs pg) \<Longrightarrow> rv_cancelled r \<or> rv_asking r \<or> rv_redirecting r \<or> ap_state pg \<noteq> Loading
     \<Longrightarrow> answered (pg\<lparr>ap_runs := (ap_runs pg)[i := r]\<rparr>)"
  using set_update_subset_insert [of "ap_runs pg" i r] by (auto simp: answered_def)

lemma recovered_run:
  "\<exists>r. ap_runs (recovered expired i answer pg) = (ap_runs pg)[i := r] \<and> ap_location (recovered expired i answer pg) = ap_location pg
     \<and> (ap_state (recovered expired i answer pg) \<noteq> Loading
        \<or> ap_state (recovered expired i answer pg) = ap_state pg \<and> (rv_cancelled r \<or> rv_redirecting r))"
proof (cases "rv_cancelled (ap_runs pg ! i)")
  case True
  then have "ap_runs (recovered expired i answer pg) = (ap_runs pg)[i := (ap_runs pg ! i)\<lparr>rv_asking := False\<rparr>]"
    "ap_location (recovered expired i answer pg) = ap_location pg" "ap_state (recovered expired i answer pg) = ap_state pg"
    by (simp_all add: recovered_def Let_def split: sum.split)
  with True show ?thesis by auto
next
  case False
  then show ?thesis
    by (cases answer) (auto simp: recovered_def Let_def)
qed

lemma answered_step: "answered pg \<Longrightarrow> off_callback ev \<Longrightarrow> answered (tab_step expired ev pg)"
proof (cases ev)
  case (User_Store_Answered i answer now)
  assume a: "answered pg"
  obtain r where r: "ap_runs (recovered (expired now) i answer pg) = (ap_runs pg)[i := r]"
    "ap_location (recovered (expired now) i answer pg) = ap_location pg"
    "ap_state (recovered (expired now) i answer pg) \<noteq> Loading
        \<or> ap_state (recovered (expired now) i answer pg) = ap_state pg \<and> (rv_cancelled r \<or> rv_redirecting r)"
    using recovered_run by blast
  have "answered (recovered (expired now) i answer pg)"
    using a r set_update_subset_insert [of "ap_runs pg" i r] unfolding answered_def r(1,2) by auto
  with a show ?thesis by (simp add: User_Store_Answered tab_step_def)
next
  case (Redirect_Rejected i)
  assume a: "answered pg"
  show ?thesis
    using a answered_update [OF a, of i "(ap_runs pg ! i)\<lparr>rv_redirecting := False\<rparr>"]
    by (auto simp: Redirect_Rejected tab_step_def answered_def Let_def)
qed (auto simp: tab_step_def answered_def run_renewal_effect_def login_def logout_def resolveAnonymous_def log_output_def
    set_session_def adopt_user_def Let_def split: option.splits if_splits)

text \<open>
  The provider does not stay undecided. On a page that is not the callback's, a provider that is still
  loading is waiting for the user store or for a redirect it began: once both are settled it is
  signed in or signed out.
\<close>

theorem loading_is_waiting:
  assumes "\<not> isHandlingCallback l" "list_all off_callback evs"
    and "list_all (\<lambda>r. \<not> rv_asking r \<and> \<not> rv_redirecting r) (ap_runs (run_tab expired evs (fresh_tab access l)))"
    and "listening (run_tab expired evs (fresh_tab access l))"
  shows "ap_state (run_tab expired evs (fresh_tab access l)) \<noteq> Loading"
proof -
  have "answered (run_tab expired evs pg)" if "answered pg" for pg
    using that assms(2) by (induction evs arbitrary: pg) (simp_all add: answered_step)
  moreover have "answered (fresh_tab access l)" using assms(1) by (simp add: answered_def fresh_tab_def)
  ultimately show ?thesis using assms(3,4) by (auto simp: answered_def listening_def list_all_iff)
qed

lemma loading_is_waiting_witness:
  "ap_state (run_tab (\<lambda>now u. False) [User_Store_Answered 0 (Inr None) 0, Redirect_Rejected 0] (fresh_tab all_access app_location)) \<noteq> Loading"
  by (rule loading_is_waiting)
    (simp_all add: app_location_def isHandlingCallback_def fresh_tab_def tab_step_def recovered_def listening_def
      ssoAlreadyAttempted_def Let_def)

subsection \<open>The way back\<close>

text \<open>
  The path a user was on when a redirect began is where the callback takes them. In an application
  mounted at \<open>base\<close>, the address captured before the redirect passes the check on its return, and the
  base the router will prepend again is taken off, leaving the route with its query.
\<close>

theorem return_path_restored:
  assumes "base = [] \<or> starts_with ''/'' base \<and> \<not> starts_with ''//'' base \<and> last base \<noteq> CHR ''/''"
    and "starts_with ''/'' route" "\<not> starts_with ''//'' route" "\<not> starts_with ''/callback'' (route @ lo_search l)"
    and "lo_pathname l = base @ route" "base = [] \<longrightarrow> \<not> starts_with ''//'' (route @ lo_search l)"
    and "exchange s = (Inr (Some (JObj [(''returnTo'', JStr (currentReturnTo l))])), s')"
    and "map_of (lo_params back) ''error'' = None"
  shows "callback_effect exchange back (base @ ''/'') defaultPath (False, s)
    = (Inr [Set_Result Signed_In, Navigate_Replace (route @ lo_search l)], (True, s'))"
proof -
  have slash: "strip_last_slash (base @ ''/'') = base" by (simp add: strip_last_slash_def butlast_append)
  have safe: "starts_with ''/'' (currentReturnTo l)" "\<not> starts_with ''//'' (currentReturnTo l)"
  proof -
    have first: "\<exists>rest. currentReturnTo l = CHR ''/'' # rest \<and> (rest = [] \<or> hd rest \<noteq> CHR ''/'')"
    proof (cases "base = []")
      case True
      with assms(2,5,6) show ?thesis
        by (cases "route @ lo_search l") (auto simp: currentReturnTo_def starts_with_iff neq_Nil_conv)
    next
      case False
      with assms(1) obtain cs where cs: "base = CHR ''/'' # cs" by (auto simp: starts_with_iff)
      with assms(1) False obtain c ds where "cs = c # ds" "c \<noteq> CHR ''/''"
        by (cases cs) (auto simp: starts_with_iff)
      with cs assms(5) show ?thesis by (auto simp: currentReturnTo_def)
    qed
    then obtain rest where rest: "currentReturnTo l = CHR ''/'' # rest" "rest = [] \<or> hd rest \<noteq> CHR ''/''" by blast
    then show "starts_with ''/'' (currentReturnTo l)" "\<not> starts_with ''//'' (currentReturnTo l)"
      by (cases rest; simp add: starts_with_def)+
  qed
  have "routePathOf (Some (currentReturnTo l)) (base @ ''/'') = Some (route @ lo_search l)"
    using assms(1,2,4,5) unfolding routePathOf_def Let_def slash option.case
    by (auto simp: currentReturnTo_def starts_with_iff)
  then show ?thesis
    using assms(7,8) safe by (simp add: callback_effect_def handleCallback_def safeReturnTo_def callback_settled_def Let_def)
qed

lemma return_path_restored_witness:
  "callback_effect (\<lambda>s. (Inr (Some (JObj [(''returnTo'', JStr ''/qr-manager/admin?type=plant'')])), s))
      \<lparr>lo_pathname = ''/qr-manager/callback'', lo_search = ''?code=x'', lo_params = [(''code'', ''x'')]\<rparr> ''/qr-manager/'' ''/admin'' (False, ())
    = (Inr [Set_Result Signed_In, Navigate_Replace ''/admin?type=plant''], (True, ()))"
  using return_path_restored [of "''/qr-manager''" "''/admin''" "\<lparr>lo_pathname = ''/qr-manager/admin'', lo_search = ''?type=plant'', lo_params = []\<rparr>"
      "\<lambda>s. (Inr (Some (JObj [(''returnTo'', JStr ''/qr-manager/admin?type=plant'')])), s)" "()" "()"
      "\<lparr>lo_pathname = ''/qr-manager/callback'', lo_search = ''?code=x'', lo_params = [(''code'', ''x'')]\<rparr>" "''/admin''"]
  by (simp add: starts_with_def currentReturnTo_def)

text \<open>
  The check for a protocol-relative path comes before the base is taken off, so what is left can be one.
\<close>

lemma stripped_path_protocol_relative:
  "safeReturnTo (Some (JStr ''/qr-manager//evil.test'')) = Some ''/qr-manager//evil.test''
   \<and> routePathOf (Some ''/qr-manager//evil.test'') ''/qr-manager'' = Some ''//evil.test''"
  by (simp add: safeReturnTo_def routePathOf_def starts_with_def strip_last_slash_def ends_with_def Let_def)

text \<open>A settled callback never leaves the application waiting: every outcome but a failure navigates.\<close>

lemma callback_navigates:
  "fst outcome \<noteq> Callback_Failed \<Longrightarrow> \<exists>p. Navigate_Replace p \<in> set (callback_settled outcome basePath defaultPath)"
  by (cases outcome; cases "fst outcome") (auto simp: callback_settled_def)

end
