(* ===== verification/Qr_Ui.thy ===== *)
theory Qr_Ui
  imports Ui_Auth Ui_Kit Ui_Effects
begin

text \<open>
  \<^verbatim>\<open>ui/qr-manager-ui\<close>: the client of the QR manager's API, the pages that use it, and the gate that
  keeps them behind a sign-in. \<^verbatim>\<open>fetch\<close>, the JSON text and the router are parameters.
\<close>

subsection \<open>Types and configuration\<close>

datatype ui_qr_type = Ui_Iot_Device | Ui_Plant | Ui_Other

fun qr_type_name :: "ui_qr_type \<Rightarrow> string" where
  "qr_type_name Ui_Iot_Device = ''iot-device''"
| "qr_type_name Ui_Plant = ''plant''"
| "qr_type_name Ui_Other = ''other''"

definition QR_TYPES :: "ui_qr_type list" where
  "QR_TYPES = [Ui_Iot_Device, Ui_Plant, Ui_Other]"

record ui_qr =
  uq_id :: string
  uq_slug :: string
  uq_targetURL :: string
  uq_label :: string
  uq_type :: ui_qr_type
  uq_active :: bool
  uq_qrURL :: string
  uq_createdAt :: string
  uq_updatedAt :: string

record ui_qr_create =
  uk_targetURL :: string
  uk_label :: string
  uk_type :: ui_qr_type

record ui_qr_update =
  up_targetURL :: "string option"
  up_label :: "string option"
  up_type :: "ui_qr_type option"
  up_active :: "bool option"

record ui_qr_filter =
  uf_type :: "ui_qr_type option"
  uf_active :: "bool option"

record ui_runtime_config =
  rc_apiBaseURL :: string
  rc_basePath :: string
  rc_auth :: ui_auth_config

definition RuntimeConfigSchema :: "(string \<Rightarrow> string option) \<Rightarrow> ui_runtime_config parser" where
  "RuntimeConfigSchema scheme = z_object (\<lambda>field. do {
     apiBaseURL \<leftarrow> z_map strip_trailing_slashes (httpUrl scheme) (field ''apiBaseURL'');
     basePath \<leftarrow> z_default ''/'' absolutePath (field ''basePath'');
     auth \<leftarrow> UiAuthConfigSchema scheme (field ''auth'');
     Some \<lparr>rc_apiBaseURL = apiBaseURL, rc_basePath = basePath, rc_auth = auth\<rparr> })"

subsection \<open>The client\<close>

definition js_bool :: "bool \<Rightarrow> string" where
  "js_bool b = (if b then ''true'' else ''false'')"

text \<open>The values of the query are names that \<^verbatim>\<open>URLSearchParams\<close> leaves as they are.\<close>

definition buildListPath :: "ui_qr_filter \<Rightarrow> string" where
  "buildListPath flt =
     (let params = (case uf_type flt of Some t \<Rightarrow> [(''type'', qr_type_name t)] | None \<Rightarrow> [])
            @ (case uf_active flt of Some b \<Rightarrow> [(''active'', js_bool b)] | None \<Rightarrow> []);
          query = join ''&'' (map (\<lambda>(k, v). k @ ''='' @ v) params)
      in if query \<noteq> [] then ''/qr-codes?'' @ query else ''/qr-codes'')"

record fetch_call =
  fc_url :: string
  fc_method :: "string option"
  fc_headers :: "(string, string) js_map"
  fc_body :: "json option"

text \<open>What \<^verbatim>\<open>createQrCodesClient\<close> is given; the token getter reads the state at the time of the call.\<close>

record 's client_env =
  ce_apiBaseURL :: string
  ce_fetch :: "fetch_call \<Rightarrow> (http_response, 's) effect"
  ce_onOutcome :: "(request_outcome \<Rightarrow> 's \<Rightarrow> 's) option"
  ce_getAccessToken :: "('s \<Rightarrow> string option) option"

definition tell :: "'s client_env \<Rightarrow> request_outcome \<Rightarrow> (unit, 's) effect" where
  "tell env outcome = doing (case ce_onOutcome env of Some f \<Rightarrow> f outcome | None \<Rightarrow> id)"

definition call_of :: "'s client_env \<Rightarrow> string \<Rightarrow> string option \<Rightarrow> json option \<Rightarrow> 's \<Rightarrow> fetch_call" where
  "call_of env path method body s =
     (let plain = (if body \<noteq> None then AList.update ''Content-Type'' ''application/json'' [] else []);
          token = (case ce_getAccessToken env of Some get \<Rightarrow> get s | None \<Rightarrow> None);
          headers = (case token of
              Some t \<Rightarrow> if t \<noteq> [] then AList.update ''Authorization'' (''Bearer '' @ t) plain else plain
            | None \<Rightarrow> plain)
      in \<lparr>fc_url = ce_apiBaseURL env @ path, fc_method = method, fc_headers = headers, fc_body = body\<rparr>)"

definition send :: "'s client_env \<Rightarrow> string \<Rightarrow> string option \<Rightarrow> json option \<Rightarrow> (http_response, 's) effect" where
  "send env path method body s =
     catching
       (and_then (ce_fetch env (call_of env path method body s))
         (\<lambda>response. and_then (tell env (classifyResponse response)) (\<lambda>_. returning response)))
       (\<lambda>error. and_then (tell env classifyError) (\<lambda>_. throwing error)) s"

text \<open>\<open>read\<close> is \<^verbatim>\<open>response.json()\<close> at the declared type; a 204 has \<open>undefined\<close> for a result.\<close>

definition parse_response :: "(string \<Rightarrow> thrown + 'a) \<Rightarrow> http_response \<Rightarrow> thrown + 'a option" where
  "parse_response read response =
     (if \<not> response_ok response
      then Inl (PlainError (''Request failed with '' @ show_int (hr_status response) @ '': '' @ hr_body response))
      else if hr_status response = 204 then Inr None
      else map_sum id Some (read (hr_body response)))"

definition client_list :: "'s client_env \<Rightarrow> (string \<Rightarrow> thrown + ui_qr list) \<Rightarrow> ui_qr_filter \<Rightarrow> (ui_qr list, 's) effect" where
  "client_list env read flt =
     and_then (send env (buildListPath flt) None None) (\<lambda>response. lifted (case parse_response read response of
         Inl e \<Rightarrow> Inl e
       | Inr None \<Rightarrow> Inl (JsError ''TypeError'' (''Cannot read properties of undefined (reading '' @ quoted ''items'' @ '')''))
       | Inr (Some items) \<Rightarrow> Inr items))"

definition create_json :: "ui_qr_create \<Rightarrow> json" where
  "create_json request = JObj [(''targetURL'', JStr (uk_targetURL request)), (''label'', JStr (uk_label request)),
     (''type'', JStr (qr_type_name (uk_type request)))]"

definition update_json :: "ui_qr_update \<Rightarrow> json" where
  "update_json request = JObj (opt_field ''targetURL'' JStr (up_targetURL request) @ opt_field ''label'' JStr (up_label request)
     @ opt_field ''type'' (JStr \<circ> qr_type_name) (up_type request) @ opt_field ''active'' JBool (up_active request))"

type_synonym read_code = "string \<Rightarrow> thrown + ui_qr"

definition client_create :: "'s client_env \<Rightarrow> read_code \<Rightarrow> ui_qr_create \<Rightarrow> (ui_qr option, 's) effect" where
  "client_create env read request =
     and_then (send env ''/qr-codes'' (Some ''POST'') (Some (create_json request))) (\<lambda>r. lifted (parse_response read r))"

definition client_update :: "'s client_env \<Rightarrow> read_code \<Rightarrow> string \<Rightarrow> ui_qr_update \<Rightarrow> (ui_qr option, 's) effect" where
  "client_update env read i request =
     and_then (send env (''/qr-codes/'' @ i) (Some ''PUT'') (Some (update_json request))) (\<lambda>r. lifted (parse_response read r))"

definition client_deactivate :: "'s client_env \<Rightarrow> read_code \<Rightarrow> string \<Rightarrow> (ui_qr option, 's) effect" where
  "client_deactivate env read i =
     and_then (send env (''/qr-codes/'' @ i) (Some ''PUT'') (Some (JObj [(''active'', JBool False)]))) (\<lambda>r. lifted (parse_response read r))"

definition client_activate :: "'s client_env \<Rightarrow> read_code \<Rightarrow> string \<Rightarrow> (ui_qr option, 's) effect" where
  "client_activate env read i =
     and_then (send env (''/qr-codes/'' @ i) (Some ''PUT'') (Some (JObj [(''active'', JBool True)]))) (\<lambda>r. lifted (parse_response read r))"

definition client_remove :: "'s client_env \<Rightarrow> read_code \<Rightarrow> string \<Rightarrow> (ui_qr option, 's) effect" where
  "client_remove env read i =
     and_then (send env (''/qr-codes/'' @ i) (Some ''DELETE'') None) (\<lambda>r. lifted (parse_response read r))"

subsection \<open>The gate\<close>

text \<open>What \<^verbatim>\<open>Protected\<close> renders, and whether the navigation is shown.\<close>

datatype gate_view = Gate_Loading | Gate_Sign_In | Gate_App

fun Protected :: "sign_in_state \<Rightarrow> gate_view" where
  "Protected Loading = Gate_Loading"
| "Protected Anonymous = Gate_Sign_In"
| "Protected Authenticated = Gate_App"

definition HeaderNav :: "sign_in_state \<Rightarrow> bool" where
  "HeaderNav st \<longleftrightarrow> st = Authenticated"

text \<open>
  The application in a tab: the sign-in provider's page, the status shown, and the requests made.
\<close>

record app_tab =
  at_auth :: auth_page
  at_hook :: status_hook
  at_calls :: "fetch_call list"

definition QR_STATUS_OPTIONS :: status_options where
  "QR_STATUS_OPTIONS = \<lparr>so_onlineAware = True, so_recovery = None\<rparr>"

definition report_outcome :: "request_outcome \<Rightarrow> app_tab \<Rightarrow> app_tab" where
  "report_outcome outcome tab = tab\<lparr>at_hook := hook_step QR_STATUS_OPTIONS (Reported outcome) (at_hook tab)\<rparr>"

text \<open>\<open>answer\<close> is what the network makes of a call, \<open>expired\<close> the client's judgement of a user now.\<close>

definition useQrCodesClient ::
  "(fetch_call \<Rightarrow> thrown + http_response) \<Rightarrow> (ui_user \<Rightarrow> bool) \<Rightarrow> ui_runtime_config \<Rightarrow> app_tab client_env" where
  "useQrCodesClient answer expired config = \<lparr>ce_apiBaseURL = rc_apiBaseURL config,
     ce_fetch = (\<lambda>call. and_then (doing (\<lambda>tab. tab\<lparr>at_calls := at_calls tab @ [call]\<rparr>)) (\<lambda>_. lifted (answer call))),
     ce_onOutcome = Some report_outcome,
     ce_getAccessToken = Some (\<lambda>tab. getAccessToken expired (at_auth tab))\<rparr>"

subsection \<open>Every call\<close>

datatype client_op =
    List_Codes ui_qr_filter
  | Create_Code_Op ui_qr_create
  | Update_Code_Op string ui_qr_update
  | Deactivate_Code string
  | Activate_Code string
  | Remove_Code string

definition after_op :: "'s client_env \<Rightarrow> (string \<Rightarrow> thrown + ui_qr list) \<Rightarrow> read_code \<Rightarrow> client_op \<Rightarrow> 's \<Rightarrow> 's" where
  "after_op env readList read op s = (case op of
       List_Codes flt \<Rightarrow> snd (client_list env readList flt s)
     | Create_Code_Op request \<Rightarrow> snd (client_create env read request s)
     | Update_Code_Op i request \<Rightarrow> snd (client_update env read i request s)
     | Deactivate_Code i \<Rightarrow> snd (client_deactivate env read i s)
     | Activate_Code i \<Rightarrow> snd (client_activate env read i s)
     | Remove_Code i \<Rightarrow> snd (client_remove env read i s))"

definition bearer :: "(ui_user \<Rightarrow> bool) \<Rightarrow> auth_page \<Rightarrow> string option" where
  "bearer expired pg = (case getAccessToken expired pg of Some t \<Rightarrow> if t \<noteq> [] then Some (''Bearer '' @ t) else None | None \<Rightarrow> None)"

definition outcome_of :: "thrown + http_response \<Rightarrow> request_outcome" where
  "outcome_of answer = (case answer of Inl _ \<Rightarrow> Network_Failure | Inr r \<Rightarrow> classifyResponse r)"

lemma snd_and_then_lifted: "snd (and_then m (\<lambda>r. lifted (f r)) s) = snd (m s)"
  by (auto simp: and_then_def lifted_def split: prod.splits sum.splits)

lemma call_of_simps [simp]:
  "fc_url (call_of env path method body s) = ce_apiBaseURL env @ path"
  "fc_method (call_of env path method body s) = method" "fc_body (call_of env path method body s) = body"
  by (simp_all add: call_of_def Let_def)

lemma call_of_bearer:
  "map_of (fc_headers (call_of (useQrCodesClient answer expired config) path method body tab)) ''Authorization''
     = bearer expired (at_auth tab)"
  by (simp add: call_of_def useQrCodesClient_def bearer_def Let_def AList.update_conv' split: option.split)

lemma send_tab:
  assumes "call = call_of (useQrCodesClient answer expired config) path method body tab"
  shows "snd (send (useQrCodesClient answer expired config) path method body tab)
    = report_outcome (outcome_of (answer call)) (tab\<lparr>at_calls := at_calls tab @ [call]\<rparr>)"
proof (cases "answer call")
  case (Inl e)
  then show ?thesis
    by (simp add: send_def assms [symmetric]) (simp add: useQrCodesClient_def and_then_def catching_def tell_def lifted_def
        outcome_of_def classifyError_def)
next
  case (Inr r)
  then show ?thesis
    by (simp add: send_def assms [symmetric]) (simp add: useQrCodesClient_def and_then_def catching_def tell_def lifted_def
        outcome_of_def)
qed

text \<open>The path, the method and the body of an operation.\<close>

fun op_request :: "client_op \<Rightarrow> string \<times> string option \<times> json option" where
  "op_request (List_Codes flt) = (buildListPath flt, None, None)"
| "op_request (Create_Code_Op request) = (''/qr-codes'', Some ''POST'', Some (create_json request))"
| "op_request (Update_Code_Op i request) = (''/qr-codes/'' @ i, Some ''PUT'', Some (update_json request))"
| "op_request (Deactivate_Code i) = (''/qr-codes/'' @ i, Some ''PUT'', Some (JObj [(''active'', JBool False)]))"
| "op_request (Activate_Code i) = (''/qr-codes/'' @ i, Some ''PUT'', Some (JObj [(''active'', JBool True)]))"
| "op_request (Remove_Code i) = (''/qr-codes/'' @ i, Some ''DELETE'', None)"

lemma op_request_sent:
  "after_op env readList read op s = (case op_request op of (path, method, body) \<Rightarrow> snd (send env path method body s))"
  by (cases op) (simp_all only: after_op_def client_list_def client_create_def client_update_def client_deactivate_def
      client_activate_def client_remove_def snd_and_then_lifted client_op.case op_request.simps prod.case)

text \<open>
  Each of the six operations makes exactly one request, to the configured API, and reports exactly one
  outcome; it carries the token of the signed-in user, read when the request is made, and it carries
  one only while the gate shows the application.
\<close>

theorem every_call_carries_session:
  assumes "Callback_Without_Session \<notin> set evs"
    and "at_auth tab = run_tab renewal_expired evs (fresh_tab access l)"
  shows "\<exists>call. after_op (useQrCodesClient answer expired config) readList read op tab
      = report_outcome (outcome_of (answer call)) (tab\<lparr>at_calls := at_calls tab @ [call]\<rparr>)
    \<and> (fc_url call, fc_method call, fc_body call) = (case op_request op of (path, method, body) \<Rightarrow> (rc_apiBaseURL config @ path, method, body))
    \<and> map_of (fc_headers call) ''Authorization'' = bearer expired (at_auth tab)
    \<and> (bearer expired (at_auth tab) \<noteq> None \<longrightarrow> Protected (ap_state (at_auth tab)) = Gate_App)"
proof -
  have "session_matches (fresh_tab access l)" by (simp add: session_matches_def fresh_tab_def)
  from session_matches_run [OF this assms(1)] have "session_matches (at_auth tab)" by (simp add: assms(2))
  then have gate: "bearer expired (at_auth tab) \<noteq> None \<longrightarrow> Protected (ap_state (at_auth tab)) = Gate_App"
    by (auto simp: session_matches_def bearer_def getAccessToken_def split: option.splits)
  obtain path verb content where request: "op_request op = (path, verb, content)" by (metis prod_cases3)
  have after: "after_op (useQrCodesClient answer expired config) readList read op tab
      = snd (send (useQrCodesClient answer expired config) path verb content tab)"
    using op_request_sent [of _ readList read op tab] by (simp add: request)
  let ?call = "call_of (useQrCodesClient answer expired config) path verb content tab"
  have "(fc_url ?call, fc_method ?call, fc_body ?call) = (case op_request op of (path, verb, content) \<Rightarrow> (rc_apiBaseURL config @ path, verb, content))"
    by (simp add: request useQrCodesClient_def)
  then show ?thesis unfolding after using send_tab [OF refl] call_of_bearer gate by blast
qed

definition sample_ui_config :: ui_runtime_config where
  "sample_ui_config = \<lparr>rc_apiBaseURL = ''https://api'', rc_basePath = ''/'', rc_auth = \<lparr>uc_issuer = ''https://idp/'', uc_clientId = ''ui'',
     uc_scope = ''openid profile roles'', uc_redirectUri = ''https://ui/callback'', uc_postLogoutRedirectUri = ''https://ui/''\<rparr>\<rparr>"

lemma every_call_carries_session_witness:
  "case run_tab (\<lambda>now u. False) [User_Loaded sample_user] (fresh_tab all_access app_location) of pg \<Rightarrow>
    \<exists>call. at_calls (after_op (useQrCodesClient (\<lambda>_. Inr \<lparr>hr_status = 204, hr_body = []\<rparr>) (\<lambda>_. False) sample_ui_config) (\<lambda>_. Inr [])
        (\<lambda>_. Inl (ThrownValue [])) (Remove_Code ''1'') \<lparr>at_auth = pg, at_hook = mount_hook QR_STATUS_OPTIONS, at_calls = []\<rparr>) = [call]
      \<and> fc_url call = ''https://api/qr-codes/1'' \<and> map_of (fc_headers call) ''Authorization'' = Some ''Bearer token''"
proof -
  define pg where "pg = run_tab (\<lambda>now u. False) [User_Loaded sample_user] (fresh_tab all_access app_location)"
  let ?tab = "\<lparr>at_auth = pg, at_hook = mount_hook QR_STATUS_OPTIONS, at_calls = []\<rparr>"
  have "at_auth ?tab = run_tab (\<lambda>now u. False) [User_Loaded sample_user] (fresh_tab all_access app_location)" by (simp add: pg_def)
  moreover have "bearer (\<lambda>_. False) pg = Some ''Bearer token''"
    by (simp add: pg_def bearer_def getAccessToken_def tab_step_def fresh_tab_def listening_def sample_user_def)
  ultimately show ?thesis
    using every_call_carries_session [of "[User_Loaded sample_user]" ?tab "\<lambda>now u. False" all_access app_location
        "\<lambda>_. Inr \<lparr>hr_status = 204, hr_body = []\<rparr>" "\<lambda>_. False" sample_ui_config "\<lambda>_. Inr []" "\<lambda>_. Inl (ThrownValue [])" "Remove_Code ''1''"]
    by (auto simp: pg_def [symmetric] report_outcome_def sample_ui_config_def)
qed

subsection \<open>The pages\<close>

text \<open>The list: its filter, what it shows, and the runs of its loading effect.\<close>

record list_page =
  lp_filter :: ui_qr_filter
  lp_items :: "ui_qr list"
  lp_error :: "string option"
  lp_loading :: bool
  lp_runs :: "load_run list"

datatype list_event =
    List_Effect
  | Filter_Changed ui_qr_filter
  | List_Closed
  | List_Answered nat "thrown + ui_qr list"

definition open_list :: list_page where
  "open_list = \<lparr>lp_filter = \<lparr>uf_type = None, uf_active = None\<rparr>, lp_items = [], lp_error = None, lp_loading = True, lp_runs = []\<rparr>"

definition list_effect :: "list_page \<Rightarrow> list_page" where
  "list_effect pg = pg\<lparr>lp_loading := True, lp_error := None, lp_runs := start_run (lp_runs pg)\<rparr>"

text \<open>\<^verbatim>\<open>onChange\<close> of the filters gives a new object each time, so the effect runs again.\<close>

definition list_step :: "list_event \<Rightarrow> list_page \<Rightarrow> list_page" where
  "list_step ev pg = (case ev of
       List_Effect \<Rightarrow> list_effect pg
     | Filter_Changed flt \<Rightarrow> list_effect (pg\<lparr>lp_filter := flt\<rparr>)
     | List_Closed \<Rightarrow> pg\<lparr>lp_runs := cancel_runs (lp_runs pg)\<rparr>
     | List_Answered i answer \<Rightarrow>
         if \<not> awaits i (lp_runs pg) then pg
         else (let pg1 = pg\<lparr>lp_runs := settle_run i (lp_runs pg)\<rparr> in
           if lr_cancelled (lp_runs pg ! i) then pg1
           else (case answer of
               Inr items \<Rightarrow> pg1\<lparr>lp_items := items, lp_loading := False\<rparr>
             | Inl e \<Rightarrow> pg1\<lparr>lp_error := Some (error_text e), lp_loading := False\<rparr>)))"

text \<open>The two selects of the filters.\<close>

definition select_type :: "ui_qr_type option \<Rightarrow> ui_qr_filter \<Rightarrow> ui_qr_filter" where
  "select_type choice flt = flt\<lparr>uf_type := choice\<rparr>"

definition select_active :: "string \<Rightarrow> ui_qr_filter \<Rightarrow> ui_qr_filter" where
  "select_active choice flt = (if choice = [] then flt\<lparr>uf_active := None\<rparr> else flt\<lparr>uf_active := Some (choice = ''true'')\<rparr>)"

text \<open>What the list page says beside its items.\<close>

definition nothing_matches :: "list_page \<Rightarrow> bool" where
  "nothing_matches pg \<longleftrightarrow> \<not> lp_loading pg \<and> (case lp_error pg of None \<Rightarrow> True | Some e \<Rightarrow> e = []) \<and> lp_items pg = []"

interpretation qr_list: loading_page list_step lp_runs open_list
  by unfold_locales (auto simp: open_list_def list_step_def list_effect_def Let_def intro: run_change.intros
      split: list_event.splits sum.splits)

text \<open>The detail of a code: the drafts, whether an operation is under way, and which.\<close>

datatype detail_op = Save_Op string string string | Deactivate_Op string | Activate_Op string | Remove_Op string

record detail_page =
  dp_id :: string
  dp_code :: "ui_qr option"
  dp_draftTargetURL :: string
  dp_draftLabel :: string
  dp_busy :: bool
  dp_error :: "string option"
  dp_runs :: "load_run list"
  dp_pending :: "detail_op option"
  dp_sent :: "detail_op list"
  dp_navigated :: "string option"

datatype detail_event =
    Detail_Routed string
  | Detail_Closed
  | Codes_Listed nat "thrown + ui_qr list"
  | Target_Typed string
  | Label_Typed string
  | Save_Clicked
  | Toggle_Clicked
  | Delete_Clicked bool
  | Op_Answered "thrown + ui_qr option"

definition open_detail :: detail_page where
  "open_detail = \<lparr>dp_id = [], dp_code = None, dp_draftTargetURL = [], dp_draftLabel = [], dp_busy = False, dp_error = None,
     dp_runs = [], dp_pending = None, dp_sent = [], dp_navigated = None\<rparr>"

definition codes_listed :: "thrown + ui_qr list \<Rightarrow> detail_page \<Rightarrow> detail_page" where
  "codes_listed answer pg = (case answer of
       Inl e \<Rightarrow> pg\<lparr>dp_error := Some (error_text e)\<rparr>
     | Inr codes \<Rightarrow>
         (case find (\<lambda>q. uq_id q = dp_id pg) codes of
            None \<Rightarrow> pg\<lparr>dp_error := Some (''QR code '' @ dp_id pg @ '' not found.'')\<rparr>
          | Some found \<Rightarrow> pg\<lparr>dp_code := Some found, dp_draftTargetURL := uq_targetURL found, dp_draftLabel := uq_label found\<rparr>))"

text \<open>A handler runs when a code is shown and its button is enabled.\<close>

definition start_op :: "(ui_qr \<Rightarrow> detail_op) \<Rightarrow> detail_page \<Rightarrow> detail_page" where
  "start_op op pg = (case dp_code pg of
       None \<Rightarrow> pg
     | Some code \<Rightarrow>
         if dp_busy pg then pg
         else pg\<lparr>dp_busy := True, dp_error := None, dp_pending := Some (op code), dp_sent := dp_sent pg @ [op code]\<rparr>)"

definition save :: "detail_page \<Rightarrow> detail_page" where
  "save pg = start_op (\<lambda>code. Save_Op (uq_id code) (dp_draftTargetURL pg) (dp_draftLabel pg)) pg"

definition toggleActive :: "detail_page \<Rightarrow> detail_page" where
  "toggleActive pg = start_op (\<lambda>code. if uq_active code then Deactivate_Op (uq_id code) else Activate_Op (uq_id code)) pg"

definition remove_code :: "bool \<Rightarrow> detail_page \<Rightarrow> detail_page" where
  "remove_code confirmed pg = (if confirmed then start_op (\<lambda>code. Remove_Op (uq_id code)) pg else pg)"

definition op_answered :: "thrown + ui_qr option \<Rightarrow> detail_page \<Rightarrow> detail_page" where
  "op_answered answer pg = (case dp_pending pg of
       None \<Rightarrow> pg
     | Some (Remove_Op _) \<Rightarrow>
         (case answer of
            Inr _ \<Rightarrow> pg\<lparr>dp_pending := None, dp_navigated := Some ''/admin''\<rparr>
          | Inl e \<Rightarrow> pg\<lparr>dp_pending := None, dp_error := Some (error_text e), dp_busy := False\<rparr>)
     | Some _ \<Rightarrow>
         (case answer of
            Inr updated \<Rightarrow> pg\<lparr>dp_pending := None, dp_code := updated, dp_busy := False\<rparr>
          | Inl e \<Rightarrow> pg\<lparr>dp_pending := None, dp_error := Some (error_text e), dp_busy := False\<rparr>))"

definition detail_step :: "detail_event \<Rightarrow> detail_page \<Rightarrow> detail_page" where
  "detail_step ev pg = (case ev of
       Detail_Routed i \<Rightarrow> pg\<lparr>dp_id := i, dp_runs := start_run (dp_runs pg)\<rparr>
     | Detail_Closed \<Rightarrow> pg\<lparr>dp_runs := cancel_runs (dp_runs pg)\<rparr>
     | Codes_Listed i answer \<Rightarrow>
         if \<not> awaits i (dp_runs pg) then pg
         else (let pg1 = pg\<lparr>dp_runs := settle_run i (dp_runs pg)\<rparr> in
           if lr_cancelled (dp_runs pg ! i) then pg1 else codes_listed answer pg1)
     | Target_Typed s \<Rightarrow> pg\<lparr>dp_draftTargetURL := s\<rparr>
     | Label_Typed s \<Rightarrow> pg\<lparr>dp_draftLabel := s\<rparr>
     | Save_Clicked \<Rightarrow> save pg
     | Toggle_Clicked \<Rightarrow> toggleActive pg
     | Delete_Clicked confirmed \<Rightarrow> remove_code confirmed pg
     | Op_Answered answer \<Rightarrow> op_answered answer pg)"

interpretation qr_detail: loading_page detail_step dp_runs open_detail
proof unfold_locales
  fix ev :: detail_event and pg :: detail_page
  have start: "dp_runs (start_op op p) = dp_runs p" for op p by (simp add: start_op_def split: option.split)
  have answered: "dp_runs (op_answered answer p) = dp_runs p" for answer p
    by (simp add: op_answered_def split: option.split detail_op.split sum.split)
  have listed: "dp_runs (codes_listed answer p) = dp_runs p" for answer p
    by (simp add: codes_listed_def split: option.split sum.split)
  show "run_change (dp_runs pg) (dp_runs (detail_step ev pg))"
    by (cases ev) (simp_all add: detail_step_def save_def toggleActive_def remove_code_def start answered listed Let_def run_change.intros)
qed (simp add: open_detail_def)

text \<open>The form of a new code.\<close>

record create_page =
  cp_request :: ui_qr_create
  cp_busy :: bool
  cp_error :: "string option"
  cp_navigated :: "string option"

definition submit_create :: "create_page \<Rightarrow> create_page" where
  "submit_create pg = pg\<lparr>cp_busy := True, cp_error := None\<rparr>"

definition create_answered :: "thrown + ui_qr option \<Rightarrow> create_page \<Rightarrow> create_page" where
  "create_answered answer pg = (case answer of
       Inr (Some created) \<Rightarrow> pg\<lparr>cp_navigated := Some (''/admin/'' @ uq_id created)\<rparr>
     | Inr None \<Rightarrow> pg\<lparr>cp_error := Some (''Cannot read properties of undefined (reading '' @ quoted ''id'' @ '')''), cp_busy := False\<rparr>
     | Inl e \<Rightarrow> pg\<lparr>cp_error := Some (error_text e), cp_busy := False\<rparr>)"

text \<open>The addresses of the image and of its two downloads.\<close>

record qr_image =
  qi_src :: string
  qi_link :: string
  qi_svg :: "string \<times> string"
  qi_png :: "string \<times> string"

definition QrImage :: "ui_qr \<Rightarrow> string \<Rightarrow> int \<Rightarrow> qr_image" where
  "QrImage code apiBaseURL downloadSize =
     (let imageBase = apiBaseURL @ ''/qr-codes/'' @ uq_id code @ ''/image'' in
      \<lparr>qi_src = imageBase @ ''?format=svg'', qi_link = uq_qrURL code,
       qi_svg = (imageBase @ ''?format=svg'', uq_slug code @ ''.svg''),
       qi_png = (imageBase @ ''?format=png&size='' @ show_int downloadSize, uq_slug code @ ''.png'')\<rparr>)"

definition hintFor_qr :: "thrown + runtime_config_error \<Rightarrow> string" where
  "hintFor_qr error = (case error of
       Inl _ \<Rightarrow> ''Unexpected error while starting the app.''
     | Inr e \<Rightarrow> (case ce_reason e of
           Config_Not_Found \<Rightarrow> ''Create public/config.json, or mount it as a ConfigMap at /usr/share/nginx/html/config.json.''
         | Config_Not_Json \<Rightarrow> ''nginx must serve config.json before the SPA catch-all, or the response is index.html.''
         | Config_Invalid \<Rightarrow> ''config.json was loaded but does not match the schema in src/runtime/RuntimeConfig.ts.''
         | Config_Network \<Rightarrow> ''The config request never completed '' @ em_dash @ '' check the dev server or the network.''))"

subsection \<open>What the pages show\<close>

definition list_ok :: "list_page \<Rightarrow> bool" where
  "list_ok pg \<longleftrightarrow> lp_loading pg = (lp_runs pg = [] \<or> lr_waiting (last (lp_runs pg)) \<and> \<not> lr_cancelled (last (lp_runs pg)))
     \<and> (lp_loading pg \<longrightarrow> lp_error pg = None) \<and> only_last_live (lp_runs pg) \<and> (lp_runs pg \<noteq> [] \<longrightarrow> \<not> lr_cancelled (last (lp_runs pg)))"

lemma last_settle: "awaits i rs \<Longrightarrow> last (settle_run i rs) = (if Suc i = length rs then (last rs)\<lparr>lr_waiting := False\<rparr> else last rs)"
  by (cases rs rule: rev_cases) (auto simp: awaits_def settle_run_def list_update_append less_Suc_eq)

lemma list_ok_step:
  assumes "list_ok pg" "ev \<noteq> List_Closed"
  shows "list_ok (list_step ev pg)"
proof -
  have live: "only_last_live (lp_runs (list_step ev pg))"
    using only_last_live_change [OF qr_list.step_runs] assms(1) by (simp add: list_ok_def)
  have last_start: "last (start_run rs) = \<lparr>lr_cancelled = False, lr_waiting = True\<rparr>" for rs by (simp add: start_run_def)
  show ?thesis
  proof (cases ev)
    case (List_Answered i answer)
    show ?thesis
    proof (cases "awaits i (lp_runs pg)")
      case True
      then have i: "i < length (lp_runs pg)" "lp_runs pg \<noteq> []" by (auto simp: awaits_def)
      show ?thesis
      proof (cases "Suc i = length (lp_runs pg)")
        case newest: True
        then have "lp_runs pg ! i = last (lp_runs pg)" using i by (metis diff_Suc_1 last_conv_nth)
        then show ?thesis using True newest i live assms(1)
          by (auto simp: list_ok_def list_step_def List_Answered Let_def last_settle split: sum.splits)
      next
        case False
        then have "lr_cancelled (lp_runs pg ! i)" using i assms(1) by (auto simp: list_ok_def only_last_live_def)
        then show ?thesis using True False i live assms(1)
          by (auto simp: list_ok_def list_step_def List_Answered Let_def last_settle)
      qed
    qed (use assms(1) in \<open>simp add: list_step_def List_Answered\<close>)
  qed (use assms live in \<open>auto simp: list_ok_def list_step_def list_effect_def last_start\<close>)
qed

text \<open>
  The list follows the newest filter: while the page is open it says it is loading exactly while the
  request of the newest effect is out, no error is shown in the meantime, and an answer to an older
  request changes nothing it shows.
\<close>

theorem list_follows_newest:
  assumes "List_Closed \<notin> set evs" "pg = fold list_step evs open_list"
  shows "(lp_loading pg = (lp_runs pg = [] \<or> lr_waiting (last (lp_runs pg)))) \<and> (lp_loading pg \<longrightarrow> lp_error pg = None)
    \<and> (Suc i < length (lp_runs pg) \<longrightarrow> (list_step (List_Answered i answer) pg)\<lparr>lp_runs := lp_runs pg\<rparr> = pg)"
proof -
  have "list_ok (fold list_step evs p)" if "list_ok p" "List_Closed \<notin> set evs" for p
    using that by (induction evs arbitrary: p) (auto simp: list_ok_step)
  moreover have "list_ok open_list" by (simp add: list_ok_def open_list_def only_last_live_def)
  ultimately have "list_ok pg" using assms by blast
  moreover have "Suc i < length (lp_runs pg) \<Longrightarrow> lr_cancelled (lp_runs pg ! i)"
    using qr_list.older_cancelled [of i evs] assms(2) by simp
  ultimately show ?thesis by (auto simp: list_ok_def list_step_def Let_def)
qed

lemma list_follows_newest_witness:
  "lp_loading (fold list_step [List_Effect, List_Answered 0 (Inl (ThrownValue ''down'')), Filter_Changed \<lparr>uf_type = None, uf_active = Some True\<rparr>] open_list)"
  using list_follows_newest [of "[List_Effect, List_Answered 0 (Inl (ThrownValue ''down'')), Filter_Changed \<lparr>uf_type = None, uf_active = Some True\<rparr>]", OF _ refl]
  by (simp add: list_step_def list_effect_def start_run_def cancel_runs_def)

text \<open>A page is busy while an operation is under way, or when it was left for the list; it never sticks.\<close>

lemma detail_busy:
  "dp_busy (fold detail_step evs open_detail) = (dp_pending (fold detail_step evs open_detail) \<noteq> None \<or> dp_navigated (fold detail_step evs open_detail) \<noteq> None)"
proof -
  let ?ok = "\<lambda>pg. dp_busy pg = (dp_pending pg \<noteq> None \<or> dp_navigated pg \<noteq> None) \<and> (dp_navigated pg \<noteq> None \<longrightarrow> dp_pending pg = None)"
  have "?ok (detail_step ev pg)" if "?ok pg" for ev pg
    using that by (cases ev) (auto simp: detail_step_def save_def toggleActive_def remove_code_def start_op_def op_answered_def
        codes_listed_def Let_def split: option.splits sum.splits detail_op.splits)
  then have "?ok (fold detail_step evs pg)" if "?ok pg" for pg
    using that by (induction evs arbitrary: pg) simp_all
  from this [of open_detail] show ?thesis by (simp add: open_detail_def)
qed

text \<open>
  Property C38. A save that is answered late crosses two codes. When the route moves to another code while a save is
  under way, the answer puts the first code back on the page under the drafts of the second, and the
  next save sends the second code's target and label to the first.
\<close>

theorem late_save_crosses_codes:
  assumes "uq_id a \<noteq> uq_id b"
  shows "dp_sent (fold detail_step [Detail_Routed (uq_id a), Codes_Listed 0 (Inr [a, b]), Save_Clicked,
      Detail_Routed (uq_id b), Codes_Listed 1 (Inr [a, b]), Op_Answered (Inr (Some a)), Save_Clicked] open_detail)
    = [Save_Op (uq_id a) (uq_targetURL a) (uq_label a), Save_Op (uq_id a) (uq_targetURL b) (uq_label b)]"
  using assms by (simp add: detail_step_def open_detail_def start_run_def cancel_runs_def awaits_def settle_run_def codes_listed_def
      save_def start_op_def op_answered_def Let_def)

definition sample_ui_code :: "string \<Rightarrow> ui_qr" where
  "sample_ui_code i = \<lparr>uq_id = i, uq_slug = ''x7k2'', uq_targetURL = ''https://t/'' @ i, uq_label = i, uq_type = Ui_Plant, uq_active = True,
     uq_qrURL = ''https://qr/x7k2'', uq_createdAt = [], uq_updatedAt = []\<rparr>"

lemma late_save_crosses_codes_witness:
  "last (dp_sent (fold detail_step [Detail_Routed ''a'', Codes_Listed 0 (Inr [sample_ui_code ''a'', sample_ui_code ''b'']), Save_Clicked,
      Detail_Routed ''b'', Codes_Listed 1 (Inr [sample_ui_code ''a'', sample_ui_code ''b'']), Op_Answered (Inr (Some (sample_ui_code ''a''))), Save_Clicked] open_detail))
    = Save_Op ''a'' ''https://t/b'' ''b''"
  using late_save_crosses_codes [of "sample_ui_code ''a''" "sample_ui_code ''b''"] by (simp add: sample_ui_code_def)

end
