(* ===== verification/Qr_App.thy ===== *)
theory Qr_App
  imports Qr_Ui
begin

text \<open>
  The application of \<^verbatim>\<open>ui/qr-manager-ui\<close> as a whole: its start (\<^verbatim>\<open>main.tsx\<close>), its routes behind the gate and its
  header (\<^verbatim>\<open>App.tsx\<close>), and what the pages put on the screen. The router hands the segments of a path to the
  route that fits it best; a literal segment is better than a parameter.
\<close>

subsection \<open>Routes\<close>

datatype routed_page = To_Admin | List_Page | Create_Page | Detail_Page string | No_Page

fun gated_route :: "string list \<Rightarrow> routed_page" where
  "gated_route [] = To_Admin"
| "gated_route [a] = (if a = ''admin'' then List_Page else No_Page)"
| "gated_route [a, b] = (if a = ''admin'' then if b = ''new'' then Create_Page else Detail_Page b else No_Page)"
| "gated_route _ = No_Page"

datatype app_content = Callback_Content | Waiting_Content | Sign_In_Content | Page_Content routed_page

definition App_content :: "sign_in_state \<Rightarrow> string list \<Rightarrow> app_content" where
  "App_content state segments =
     (if segments = [''callback''] then Callback_Content
      else (case Protected state of
          Gate_Loading \<Rightarrow> Waiting_Content
        | Gate_Sign_In \<Rightarrow> Sign_In_Content
        | Gate_App \<Rightarrow> Page_Content (gated_route segments)))"

record app_header =
  ah_links :: "(string \<times> string) list"
  ah_username :: "string option"

definition App_header :: "sign_in_state \<Rightarrow> string option \<Rightarrow> app_header option" where
  "App_header state username =
     (if HeaderNav state
      then Some \<lparr>ah_links = [(''/admin'', ''List''), (''/admin/new'', ''New'')], ah_username = username\<rparr> else None)"

text \<open>The segments of a path the application navigates to.\<close>

definition segments_of :: "string \<Rightarrow> string list" where
  "segments_of path = filter (\<lambda>s. s \<noteq> []) (split_on (CHR ''/'') path)"

subsection \<open>Start\<close>

text \<open>An error of the configuration, or any other, as \<open>root\<close> shows it: a message and a hint, escaped.\<close>

datatype started = App_Rendered ui_runtime_config | Error_Shown string string

definition start_app :: "(thrown + runtime_config_error) + ui_runtime_config \<Rightarrow> started" where
  "start_app loaded = (case loaded of
       Inr config \<Rightarrow> App_Rendered config
     | Inl error \<Rightarrow>
         let message = (case error of Inl e \<Rightarrow> error_text e | Inr e \<Rightarrow> ce_message e)
         in Error_Shown (escape_markup message) (escape_markup (hintFor_qr error)))"

subsection \<open>The screen of each page\<close>

definition alert_of :: "string option \<Rightarrow> string option" where
  "alert_of error = (case error of None \<Rightarrow> None | Some e \<Rightarrow> if e = [] then None else Some e)"

record list_row =
  lr_link :: string
  lr_label :: string
  lr_slug :: string
  lr_type :: ui_qr_type
  lr_inactive :: bool

record list_screen =
  ls_loading :: bool
  ls_alert :: "string option"
  ls_empty :: bool
  ls_rows :: "list_row list"

definition row_of :: "ui_qr \<Rightarrow> list_row" where
  "row_of item = \<lparr>lr_link = ''/admin/'' @ uq_id item, lr_label = uq_label item, lr_slug = uq_slug item, lr_type = uq_type item,
     lr_inactive = (\<not> uq_active item)\<rparr>"

definition list_screen_of :: "list_page \<Rightarrow> list_screen" where
  "list_screen_of pg = \<lparr>ls_loading = lp_loading pg, ls_alert = map_option (\<lambda>e. ''Error: '' @ e) (alert_of (lp_error pg)),
     ls_empty = nothing_matches pg, ls_rows = map row_of (lp_items pg)\<rparr>"

record detail_form =
  df_heading :: string
  df_active :: string
  df_targetURL :: string
  df_label :: string
  df_toggle :: string
  df_disabled :: bool
  df_alert :: "string option"

datatype detail_screen = Detail_Alert string | Detail_Waiting | Detail_Form ui_qr detail_form

definition detail_screen_of :: "detail_page \<Rightarrow> detail_screen" where
  "detail_screen_of pg = (case dp_code pg of
       None \<Rightarrow> (case alert_of (dp_error pg) of Some e \<Rightarrow> Detail_Alert e | None \<Rightarrow> Detail_Waiting)
     | Some code \<Rightarrow> Detail_Form code
         \<lparr>df_heading = uq_label code, df_active = (if uq_active code then ''yes'' else ''no''),
          df_targetURL = dp_draftTargetURL pg, df_label = dp_draftLabel pg,
          df_toggle = (if uq_active code then ''Deactivate'' else ''Activate''), df_disabled = dp_busy pg,
          df_alert = alert_of (dp_error pg)\<rparr>)"

record create_form =
  cf_request :: ui_qr_create
  cf_disabled :: bool
  cf_alert :: "string option"

definition create_form_of :: "create_page \<Rightarrow> create_form" where
  "create_form_of pg = \<lparr>cf_request = cp_request pg, cf_disabled = cp_busy pg, cf_alert = alert_of (cp_error pg)\<rparr>"

subsection \<open>What the application shows\<close>

lemma segments_slash [simp]: "segments_of (CHR ''/'' # p) = segments_of p"
  by (simp add: segments_of_def)

lemma segments_word: "CHR ''/'' \<notin> set s \<Longrightarrow> segments_of s = (if s = [] then [] else [s])"
  by (simp add: segments_of_def split_on_whole)

lemma segments_admin: "CHR ''/'' \<notin> set i \<Longrightarrow> i \<noteq> [] \<Longrightarrow> segments_of (''/admin/'' @ i) = [''admin'', i]"
  using segments_word [of i] by (simp add: segments_of_def split: list.splits)

text \<open>
  The pages and the header are there exactly for a signed-in user, on every path but the one that
  completes the sign-in, which is open to everyone.
\<close>

theorem gate_covers_routes:
  "(App_content state segments = Page_Content page \<longleftrightarrow> state = Authenticated \<and> segments \<noteq> [''callback''] \<and> page = gated_route segments)
   \<and> (App_content state segments = Callback_Content \<longleftrightarrow> segments = [''callback''])
   \<and> (App_header state username \<noteq> None \<longleftrightarrow> state = Authenticated)"
  by (cases state) (auto simp: App_content_def App_header_def HeaderNav_def)

text \<open>
  Every navigation of a page leads to a page: the links of the list and the answer to a create lead to the record
  they name, and a delete leads back to the list.
\<close>

theorem navigations_have_pages:
  assumes "CHR ''/'' \<notin> set (uq_id code)" and "uq_id code \<notin> {[], ''new''}"
  shows "gated_route (segments_of (lr_link (row_of code))) = Detail_Page (uq_id code)
    \<and> map_option (gated_route \<circ> segments_of) (cp_navigated (create_answered (Inr (Some code)) pg)) = Some (Detail_Page (uq_id code))
    \<and> (case App_header Authenticated u of Some h \<Rightarrow> map (gated_route \<circ> segments_of \<circ> fst) (ah_links h) = [List_Page, Create_Page] | None \<Rightarrow> False)"
  using assms segments_admin [of "uq_id code"]
  by (simp add: row_of_def create_answered_def App_header_def HeaderNav_def) (simp add: segments_of_def)

text \<open>Nothing of a failed start opens a tag of its own.\<close>

theorem start_error_inert:
  "start_app loaded = Error_Shown message hint \<Longrightarrow> CHR ''<'' \<notin> set message \<and> CHR ''<'' \<notin> set hint"
  by (auto simp: start_app_def Let_def escaped_opens_no_tag split: sum.splits)

text \<open>A detail page that shows a form shows the drafts, and its buttons are off while a request is out.\<close>

lemma detail_form_drafts:
  "detail_screen_of pg = Detail_Form code form \<Longrightarrow> dp_code pg = Some code \<and> df_targetURL form = dp_draftTargetURL pg
     \<and> df_label form = dp_draftLabel pg \<and> df_disabled form = dp_busy pg"
  by (auto simp: detail_screen_of_def split: option.splits)

end
