(* ===== verification/Spec2Isabelle.thy ===== *)
theory Spec2Isabelle
  imports Requests Request_Log Responses Mongo_Storage Process Metrics Dashboard Qr_App
begin

text \<open>
  \<^bold>\<open>iot-miniservers: a verification library.\<close>

  The repository is a TypeScript monorepo: shared packages (\<^verbatim>\<open>packages/\<close>), HTTP services
  (\<^verbatim>\<open>apis/\<close>) and browser applications (\<^verbatim>\<open>ui/\<close>). The theories model the packages and the
  services on them, in the order the program calls them.

  \<^bold>\<open>Foundations.\<close> \<open>Prelude\<close>: byte and word arithmetic, insertion-ordered maps, lemmas shared by
  every component. \<open>Json\<close>: JSON values as the source reads them. \<open>Effect\<close>: asynchronous methods as
  functions from a state to a result or a thrown value and a state; \<open>and_then\<close> is \<^verbatim>\<open>await\<close>,
  \<open>catching\<close> is \<^verbatim>\<open>try/catch\<close>. \<open>Telemetry\<close>: spans and job measurements (\<^verbatim>\<open>packages/otel\<close>). \<open>Metrics\<close>: the
  instruments behind the measurements, created once per provider, so that none is lost to the no-op one.

  \<^bold>\<open>The device protocol\<close> (\<^verbatim>\<open>packages/miot-device\<close>). \<open>Miot_Error\<close>: error classes. \<open>Miot_Packet\<close>: the
  32-byte header, checksums, building and parsing of packets, on bytes. \<open>Miot_Transport\<close>: one UDP
  exchange as a machine over its events, and the operations of the transport. \<open>Miot_Device\<close>: the
  stamp cache and the retry behind a fresh handshake. The lemmas show that a packet is read back by
  the other side, that data is only decrypted when authentic, that an exchange settles once, how
  failures are classified, and what the retry costs.

  \<^bold>\<open>The bridge\<close> (\<^verbatim>\<open>apis/miot-bridge-api\<close>). \<open>Miot_Spec\<close>: raw and simplified device specification
  with overrides. \<open>Device_Command\<close>: the pool of instances, validation and dispatch of commands, raw
  commands and bulk reads. \<open>Poller\<close>: subscriptions, change detection, back-off, the tick. \<open>Storage\<close>:
  the file repositories. \<open>Handlers\<close>: the request handlers over them. \<open>Mongo_Storage\<close>: the
  repositories over a database, and the facades that choose a backend. \<open>Mqtt\<close>: topics, the message spans,
  the client's start-up and its health. \<open>Transports\<close>: the HTTP command handlers, the MQTT listener and
  the dispatch of notifications, all over the one command service. A command that the merged
  specification does not permit never reaches a device, a poll dispatches exactly the changes, a
  tick re-arms unless a stop came before or during it, a repository is a map from identifier to record, the poller's subscriptions
  follow the stored ones through every write request, and a command is answered alike on both
  transports.

  \<^bold>\<open>Cross-cutting packages.\<close> \<open>Resilience\<close> (\<^verbatim>\<open>packages/resilience\<close>, \<^verbatim>\<open>packages/tsed-resilience\<close>): one
  attempt as a step relation, policies, retries, cancellation. \<open>Health\<close> and \<open>Shutdown\<close>
  (\<^verbatim>\<open>packages/health\<close>, \<^verbatim>\<open>packages/tsed-health\<close>): checks, roll-up, the service that
  builds the registry when first asked, probes, ordered shutdown. \<open>Schema\<close>,
  \<open>Auth_Config\<close>, \<open>Auth\<close>, \<open>Auth_Guard\<close> (\<^verbatim>\<open>packages/auth\<close>, \<^verbatim>\<open>packages/tsed-auth\<close>): configuration,
  keys, the JWT verifier, the authenticator and the guard. \<open>Endpoints\<close>: the decorators of a route, in
  the order they run, what they document, and a request served behind the guard.

  \<^bold>\<open>The HTTP surface\<close> (\<^verbatim>\<open>apis/*/src/**/controllers/\<close>, \<^verbatim>\<open>models/\<close>). \<open>Routes\<close>: every controller, its access
  decorators, the bounds of its parameters and the handler each route calls, and the server that mounts them
  beside the health probes and the documentation page, which are open. \<open>Responses\<close>: the response
  models under the groups of a route. \<open>Requests\<close>: the models of request bodies, and how a handler reads
  what the validator accepted. No request reaches a controller of the bridge without a verified caller or a
  device without an administrator, the probes and the page touch neither, the open routes of the QR manager change nothing, a document says
  what the guard does, the listing of devices answers their tokens, and an accepted body is handled with exactly its fields.

  \<^bold>\<open>Outbound HTTP\<close> (\<^verbatim>\<open>packages/http-provider\<close>, \<^verbatim>\<open>packages/tsed-http-provider\<close>). \<open>Http_Auth\<close>: the
  configuration of transports and credentials, and where a request carries them. \<open>Http_Strategies\<close>:
  how credentials are acquired, shared between concurrent calls and dropped. \<open>Http_Provider\<close>: the
  entry of an API, the client the factory builds, its interceptors, the replay after a refusal, the
  policy around the adapter and the service on top. \<open>Request_Log\<close>: the lines of a request, with what is
  redacted. Refused credentials are never served again, one
  token request is shared, a request is replayed once; and a token endpoint that itself answers 401
  leads the replay astray.

  \<^bold>\<open>The QR manager\<close> (\<^verbatim>\<open>apis/qr-manager-api\<close>). \<open>Qr_Manager\<close>: records, slug allocation, the lookup under
  its policy, the handlers, the redirect and the image. A printed code keeps addressing its record.

  \<^bold>\<open>The map feeder\<close> (\<^verbatim>\<open>apis/interactive-map-feeder-api\<close>). \<open>Raster\<close>: the table of cities, their position
  on the radar image, the pixels around a position and the painted layer, on bytes. \<open>Map_Feeder\<close>: the
  endpoints, the two radar services, the handlers, and the health check over the breakers of the HTTP
  clients. Every city is answered with the mean of the pixels around it, the painted layer is red
  exactly on the dots, and an outage of the upstream never makes the service unready.

  \<^bold>\<open>A service as a process\<close> (\<^verbatim>\<open>apis/*/src/index.ts\<close>, \<^verbatim>\<open>otel/\<close>, \<^verbatim>\<open>models/config/\<close>). \<open>Config\<close>: the
  configuration schemas of the three services. \<open>Otel_Sdk\<close> (\<^verbatim>\<open>packages/otel\<close>): the telemetry SDK, started
  once and shut down once under concurrent calls, and the paths it leaves out. \<open>Process\<close>: start-up, and then
  one process in which the shutdown handler, the crash handlers and the telemetry service run together,
  driven by signals, errors, timers and settled promises in any order. A configuration that is accepted is
  complete, telemetry runs until the platform has stopped and is then shut down once, the flush cannot hang,
  and a stop that is rejected starts the crash handler over and over.

  \<^bold>\<open>The browser\<close> (\<^verbatim>\<open>packages/ui-*\<close>, \<^verbatim>\<open>ui/\<close>). \<open>Ui_Runtime\<close>: loading and validating the configuration,
  the status of a backend and its recovery polling. \<open>Ui_Kit\<close>: the banner and the status bar. \<open>Ui_Auth\<close>:
  the sign-in of a tab through loads, redirects and renewals; the storage of the tab is what one page
  leaves to the next. \<open>Ui_Effects\<close>: an effect that loads, its runs and their cleanup. \<open>Dashboard\<close>: DNS
  records grouped into clusters, and the page that shows them. \<open>Qr_Ui\<close>: the client of the QR manager,
  the gate, and the pages; \<open>Qr_App\<close>: its start, routes and screens. A component is a machine over what can happen to it: answers, timers,
  clicks, and the running of effects, which React orders after the change they depend on and after
  the cleanup of the run before. The lemmas show what the pages show whatever the order of answers,
  that redirects cannot loop on a storage that can be written while it can be read, that every call carries the session's token, and where a page shows
  what it should not.

  \<^bold>\<open>Interfaces.\<close> Each locale is interpreted on the code's own model: \<open>memo_factory\<close> on the policy
  factory, the pool of instances, the imported keys, the HTTP clients and the three sets of instruments; \<open>service_invariant\<close> on what every operation
  of the command service keeps, which extends \<open>telemetry_frame\<close>, what every traced operation leaves
  alone, interpreted again on the host of the handlers; \<open>caching_strategy\<close> on the token exchange and
  on the self-signed tokens; \<open>record_store\<close> on the three file repositories; the settling of a
  promise on the exchange; \<open>loading_page\<close> on the dashboard, the list and the detail of a code.

  \<^bold>\<open>Parameters.\<close> Code that is not in the repository is an argument: MD5 and AES, \<^verbatim>\<open>JSON.parse\<close> and
  \<^verbatim>\<open>JSON.stringify\<close>, the datagram socket, \<^verbatim>\<open>jose\<close>, \<^verbatim>\<open>zod\<close>'s URL test, the circuit breaker of
  \<^verbatim>\<open>cockatiel\<close>, \<^verbatim>\<open>MappingUtils\<close>, the two requests to miot-spec.org, the MongoDB driver, \<^verbatim>\<open>axios\<close>.
  Hypotheses name the documented behaviour a theorem needs of them: \<open>promise_chain\<close>, that axios runs
  the request interceptors and the dispatch and hands the outcome, a rejection of an interceptor
  included, to the response interceptors; \<open>mongo_collection\<close>, that the driver reads and writes one
  document by its identifier, which it casts, or its unique slug, that \<^verbatim>\<open>$set\<close> replaces the fields it is given and
  keeps the others, and that a rejected write was done or not; \<open>exact_numbers\<close>, that the arithmetic helpers compute
  the mean, the rounding and the extremes they name (on rationals, so binary rounding is not
  followed); \<open>readable_image\<close>, that the image library decodes the four channels of an image;
  \<open>merges_options\<close>, that the framework lets the value of a method's decorator replace its class's and
  collects arrays; \<open>group_rules\<close>, that its serializer hides what a group excludes and hands groups to a
  nested model only where they are forwarded; \<open>mongo_law\<close>, what a mongoose call that resolves has done, with
  the documents in no order;
  \<open>validating\<close>, that the schema validator hands on only what conforms to the model; \<open>redacting\<close>, that the
  redaction profile collects only the sections that are enabled.
  Regular expressions, collation, \<^verbatim>\<open>fetch\<close>, \<^verbatim>\<open>new URL\<close> and the OIDC client are parameters as well.

  \<^bold>\<open>Bounds and fuel.\<close> The loops of the source run over lists, and a retry loop over its remaining
  attempts. Only the replay of a request calls itself without a bound: \<open>instance_request\<close> takes
  fuel, with a result of its own for running out of it; two units are enough when credentials can
  be produced (\<open>unauthorized_replayed_once\<close>), and none are when the token endpoint refuses
  (\<open>token_refusal_never_settles\<close>).

  \<^bold>\<open>Not modelled.\<close> Dependency injection, Swagger decoration, log text, what the OpenTelemetry SDK does, the
  MongoDB driver, the image library and the markup of pages are calls into libraries; the
  resolution of paths, the binding of parameters and the wiring of the container are the framework's. The manifest lists every part
  with its status.
\<close>

end
